(* ===== verification/Letin_Prelude.thy ===== *)
theory Letin_Prelude
  imports Main "HOL-Library.Word"
begin

unbundle bit_operations_syntax

text \<open>
  Prelude of the development: the machine types of the virtual machine, the result type and
  the state-passing combinators in which its C++ functions are written, and the rule
  collections that the component theories share.

  A C++ function of the virtual machine either returns a value, or returns \<open>false\<close>
  (or an error value) after it has recorded what happened in the state, or does something the
  C++ standard leaves undefined (a read outside of an array, a signed division overflow, the use of
  an uninitialised pointer). Loops that may run forever are given fuel; running out of it is a
  fourth outcome, which no finished run has.
\<close>

section \<open>Machine types\<close>

type_synonym u8 = "8 word"
type_synonym u16 = "16 word"
type_synonym u32 = "32 word"
type_synonym u64 = "64 word"
type_synonym float32 = "32 word" \<comment> \<open>an IEEE single, by its bits\<close>
type_synonym float64 = "64 word" \<comment> \<open>an IEEE double, by its bits\<close>

section \<open>Outcomes and state-passing functions\<close>

datatype 'a outcome =
    Done 'a      \<comment> \<open>the function returns normally\<close>
  | Failed       \<comment> \<open>it returns false (or the error value); the state says why\<close>
  | Undefined    \<comment> \<open>undefined behaviour of C++\<close>
  | NoFuel       \<comment> \<open>not finished within the fuel\<close>

type_synonym ('s, 'a) m = "'s \<Rightarrow> 'a outcome \<times> 's"

definition ret :: "'a \<Rightarrow> ('s, 'a) m" where
  "ret x = (\<lambda>s. (Done x, s))"

definition fail :: "('s, 'a) m" where
  "fail = (\<lambda>s. (Failed, s))"

definition undef :: "('s, 'a) m" where
  "undef = (\<lambda>s. (Undefined, s))"

definition nofuel :: "('s, 'a) m" where
  "nofuel = (\<lambda>s. (NoFuel, s))"

definition bindM :: "('s, 'a) m \<Rightarrow> ('a \<Rightarrow> ('s, 'b) m) \<Rightarrow> ('s, 'b) m" where
  "bindM c f = (\<lambda>s. case c s of
       (Done x, t) \<Rightarrow> f x t
     | (Failed, t) \<Rightarrow> (Failed, t)
     | (Undefined, t) \<Rightarrow> (Undefined, t)
     | (NoFuel, t) \<Rightarrow> (NoFuel, t))"

definition seqM :: "('s, 'a) m \<Rightarrow> ('s, 'b) m \<Rightarrow> ('s, 'b) m" where
  "seqM c d = bindM c (\<lambda>_. d)"

text \<open>\<open>attempt c\<close> runs \<open>c\<close> and hands its success or failure on as a value: the caller that
  tests the returned \<open>bool\<close> itself.\<close>

definition attempt :: "('s, 'a) m \<Rightarrow> ('s, 'a option) m" where
  "attempt c = (\<lambda>s. case c s of
       (Done x, t) \<Rightarrow> (Done (Some x), t)
     | (Failed, t) \<Rightarrow> (Done None, t)
     | (Undefined, t) \<Rightarrow> (Undefined, t)
     | (NoFuel, t) \<Rightarrow> (NoFuel, t))"

definition reading :: "('s \<Rightarrow> 'a) \<Rightarrow> ('s, 'a) m" where
  "reading f = (\<lambda>s. (Done (f s), s))"

definition modify :: "('s \<Rightarrow> 's) \<Rightarrow> ('s, unit) m" where
  "modify f = (\<lambda>s. (Done (), f s))"

definition whenM :: "bool \<Rightarrow> ('s, unit) m \<Rightarrow> ('s, unit) m" where
  "whenM b c = (if b then c else ret ())"

text \<open>\<open>test f c\<close> is the pattern \<open>if(!f(..)) { c; return false; }\<close>.\<close>

definition test :: "('s \<Rightarrow> bool) \<Rightarrow> ('s, unit) m \<Rightarrow> ('s, unit) m" where
  "test p c = (\<lambda>s. if p s then (Done (), s) else (seqM c fail) s)"

text \<open>A loop over a list of indexes, from left to right.\<close>

primrec forM :: "'i list \<Rightarrow> ('i \<Rightarrow> ('s, unit) m) \<Rightarrow> ('s, unit) m" where
  "forM [] f = ret ()"
| "forM (i # is) f = seqM (f i) (forM is f)"

named_theorems run "unfolding rules that run a state-passing function on a state"

lemma ret_run [run]: "ret x s = (Done x, s)" by (simp add: ret_def)
lemma fail_run [run]: "fail s = (Failed, s)" by (simp add: fail_def)
lemma undef_run [run]: "undef s = (Undefined, s)" by (simp add: undef_def)
lemma nofuel_run [run]: "nofuel s = (NoFuel, s)" by (simp add: nofuel_def)
lemma bindM_run [run]: "bindM c f s = (case c s of
       (Done x, t) \<Rightarrow> f x t
     | (Failed, t) \<Rightarrow> (Failed, t)
     | (Undefined, t) \<Rightarrow> (Undefined, t)
     | (NoFuel, t) \<Rightarrow> (NoFuel, t))" by (simp add: bindM_def)
lemma seqM_run [run]: "seqM c d s = (case c s of
       (Done x, t) \<Rightarrow> d t
     | (Failed, t) \<Rightarrow> (Failed, t)
     | (Undefined, t) \<Rightarrow> (Undefined, t)
     | (NoFuel, t) \<Rightarrow> (NoFuel, t))" by (simp add: seqM_def bindM_def)
lemma attempt_run [run]: "attempt c s = (case c s of
       (Done x, t) \<Rightarrow> (Done (Some x), t)
     | (Failed, t) \<Rightarrow> (Done None, t)
     | (Undefined, t) \<Rightarrow> (Undefined, t)
     | (NoFuel, t) \<Rightarrow> (NoFuel, t))" by (simp add: attempt_def)
lemma reading_run [run]: "reading f s = (Done (f s), s)" by (simp add: reading_def)
lemma modify_run [run]: "modify f s = (Done (), f s)" by (simp add: modify_def)
lemma whenM_run [run]: "whenM b c s = (if b then c s else (Done (), s))"
  by (simp add: whenM_def ret_def)
lemma test_run [run]: "test p c s = (if p s then (Done (), s) else (seqM c fail) s)"
  by (simp add: test_def)

section \<open>Relations that every step keeps\<close>

text \<open>
  \<open>keeps R c\<close>: from every state, the function \<open>c\<close> ends in a state related to the first one by
  \<open>R\<close>, whatever its outcome. For a reflexive and transitive \<open>R\<close> the combinators keep it
  when their parts do.
\<close>

definition keeps :: "('s \<Rightarrow> 's \<Rightarrow> bool) \<Rightarrow> ('s, 'a) m \<Rightarrow> bool" where
  "keeps R c \<longleftrightarrow> (\<forall>s. R s (snd (c s)))"

named_theorems keeps_intro "rules that split a keeps goal along the combinators"

lemma keepsI: "(\<And>s. R s (snd (c s))) \<Longrightarrow> keeps R c"
  by (simp add: keeps_def)

lemma keepsD: "keeps R c \<Longrightarrow> R s (snd (c s))"
  by (simp add: keeps_def)

lemma keepsE: "keeps R c \<Longrightarrow> c s = (r, t) \<Longrightarrow> R s t"
  by (drule keepsD [of R c s]) simp

locale step_relation =
  fixes R :: "'s \<Rightarrow> 's \<Rightarrow> bool"
  assumes refl: "R s s"
    and trans: "R s t \<Longrightarrow> R t u \<Longrightarrow> R s u"
begin

lemma ret: "keeps R (ret x)"
  by (rule keepsI) (simp add: run refl)

lemma fail: "keeps R fail"
  by (rule keepsI) (simp add: run refl)

lemma undef: "keeps R undef"
  by (rule keepsI) (simp add: run refl)

lemma nofuel: "keeps R nofuel"
  by (rule keepsI) (simp add: run refl)

lemma reading: "keeps R (reading f)"
  by (rule keepsI) (simp add: run refl)

lemma modify: "(\<And>s. R s (f s)) \<Longrightarrow> keeps R (modify f)"
  by (rule keepsI) (simp add: run)

lemma bindM:
  assumes c: "keeps R c" and f: "\<And>x. keeps R (f x)"
  shows "keeps R (bindM c f)"
proof (rule keepsI)
  fix s
  obtain r t where ct: "c s = (r, t)" by (cases "c s")
  have st: "R s t" using keepsE [OF c ct] .
  show "R s (snd (bindM c f s))"
  proof (cases r)
    case (Done x)
    have "R t (snd (f x t))" by (rule keepsD [OF f])
    then show ?thesis using st trans by (auto simp: bindM_run ct Done)
  qed (simp_all add: bindM_run ct st)
qed

lemma seqM: "keeps R c \<Longrightarrow> keeps R d \<Longrightarrow> keeps R (seqM c d)"
  unfolding seqM_def by (rule bindM)

lemma attempt:
  assumes c: "keeps R c" shows "keeps R (attempt c)"
proof (rule keepsI)
  fix s
  obtain r t where ct: "c s = (r, t)" by (cases "c s")
  have "R s t" using keepsE [OF c ct] .
  then show "R s (snd (attempt c s))" by (cases r) (simp_all add: run ct)
qed

lemma whenM: "(b \<Longrightarrow> keeps R c) \<Longrightarrow> keeps R (whenM b c)"
  by (cases b) (simp_all add: whenM_def ret)

lemma test: "keeps R c \<Longrightarrow> keeps R (test p c)"
  by (rule keepsI) (simp add: test_run refl keepsD [OF seqM [OF _ fail]])

lemma if_split: "(b \<Longrightarrow> keeps R c) \<Longrightarrow> (\<not> b \<Longrightarrow> keeps R d) \<Longrightarrow> keeps R (if b then c else d)"
  by simp

lemma forM: "(\<And>i. keeps R (f i)) \<Longrightarrow> keeps R (forM is f)"
  by (induction "is") (simp_all add: ret seqM)

lemma case_option:
  "(x = None \<Longrightarrow> keeps R c) \<Longrightarrow> (\<And>y. x = Some y \<Longrightarrow> keeps R (d y)) \<Longrightarrow>
   keeps R (case x of None \<Rightarrow> c | Some y \<Rightarrow> d y)"
  by (cases x) simp_all

lemmas combinators = ret fail undef nofuel reading bindM seqM attempt whenM test forM

end

section \<open>Unsigned 32-bit arithmetic on natural numbers\<close>

text \<open>
  The stack registers are \<open>uint32_t\<close> in the code. They index arrays, so the model holds them as
  natural numbers below \<open>2 ^ 32\<close> and writes the wrap-around of the machine's addition and
  subtraction out.
\<close>

definition add32 :: "nat \<Rightarrow> nat \<Rightarrow> nat" where
  "add32 a b = (a + b) mod 2 ^ 32"

definition sub32 :: "nat \<Rightarrow> nat \<Rightarrow> nat" where
  "sub32 a b = (a + (2 ^ 32 - b mod 2 ^ 32)) mod 2 ^ 32"

lemma add32_small [simp]: "a + b < 2 ^ 32 \<Longrightarrow> add32 a b = a + b"
  by (simp add: add32_def)

lemma sub32_small: "b \<le> a \<Longrightarrow> a < 2 ^ 32 \<Longrightarrow> sub32 a b = a - b"
proof -
  assume "b \<le> a" "a < 2 ^ 32"
  then have "a + (2 ^ 32 - b mod 2 ^ 32) = (a - b) + 2 ^ 32" by simp
  with \<open>a < 2 ^ 32\<close> show ?thesis by (simp add: sub32_def)
qed

lemma add32_less: "add32 a b < 2 ^ 32"
  by (simp add: add32_def)

lemma sub32_less: "sub32 a b < 2 ^ 32"
  by (simp add: sub32_def)

lemma unat_of_nat_u32 [simp]: "n < 2 ^ 32 \<Longrightarrow> unat (of_nat n :: u32) = n"
  by (simp add: unat_of_nat)

lemma unat_of_nat_u64 [simp]: "n < 2 ^ 64 \<Longrightarrow> unat (of_nat n :: u64) = n"
  by (simp add: unat_of_nat)

section \<open>The overflow checks of the code\<close>

text \<open>
  The code tests for overflow after the fact: \<open>size / elem_size != length\<close> for a product and
  \<open>(a | b) > a + b\<close> for a sum. Both tests are exact.
\<close>

lemma mul_check:
  fixes a b :: "'a::len word"
  assumes "b \<noteq> 0"
  shows "(a * b) div b = a \<longleftrightarrow> unat a * unat b < 2 ^ LENGTH('a)"
proof
  assume eq: "(a * b) div b = a"
  have "unat a * unat b = unat ((a * b) div b) * unat b" by (simp add: eq)
  also have "\<dots> = unat (a * b) div unat b * unat b" by (simp add: unat_div)
  also have "\<dots> \<le> unat (a * b)" by simp
  also have "\<dots> < 2 ^ LENGTH('a)" by (rule unsigned_less)
  finally show "unat a * unat b < 2 ^ LENGTH('a)" .
next
  assume lt: "unat a * unat b < 2 ^ LENGTH('a)"
  have "unat b \<noteq> 0" using assms by (simp add: unat_eq_0)
  then have "unat ((a * b) div b) = unat a"
    by (simp add: unat_div unat_word_ariths lt)
  then show "(a * b) div b = a" by (simp add: word_unat_eq_iff)
qed

lemma or_le_sum: "unat (a OR b) \<le> unat a + unat (b :: 'a::len word)"
proof -
  have "0 \<le> uint a AND uint b" by simp
  then have "uint a OR uint b \<le> uint a + uint b"
    using plus_and_or [of "uint a" "uint b"] by linarith
  then have "uint (a OR b) \<le> uint a + uint b" by (simp only: unsigned_or_eq)
  then show ?thesis by (simp only: uint_nat of_nat_add [symmetric] of_nat_le_iff)
qed

lemma le_or: "unat a \<le> unat (a OR b :: 'a::len word)"
proof -
  have "uint a \<le> uint a OR uint b" by (simp add: or_greater_eq)
  then have "uint a \<le> uint (a OR b)" by (simp only: unsigned_or_eq)
  then show ?thesis by (simp only: uint_nat of_nat_le_iff)
qed

lemma add_check:
  fixes a b :: "'a::len word"
  shows "a + b < (a OR b) \<longleftrightarrow> 2 ^ LENGTH('a) \<le> unat a + unat b"
proof (cases "unat a + unat b < 2 ^ LENGTH('a)")
  case True
  then have "unat (a + b) = unat a + unat b" by (simp add: unat_plus_if')
  then show ?thesis using True or_le_sum [of a b] by (simp add: word_less_nat_alt)
next
  case False
  then have "unat (a + b) = unat a + unat b - 2 ^ LENGTH('a)" by (simp add: unat_plus_if')
  moreover have "unat b < 2 ^ LENGTH('a)" by (rule unsigned_less)
  ultimately have "unat (a + b) < unat a" using False by linarith
  then show ?thesis using False le_or [of a b] by (simp add: word_less_nat_alt)
qed
end
