(* ===== verification/Opcode.thy ===== *)
theory Opcode
  imports Letin_Prelude
begin

unbundle bit_operations_syntax

text \<open>
  Instruction words of the virtual machine (include/letin/opcode.hpp): the instruction codes,
  the operation codes and the argument types, and the packing of an instruction code, an
  operation code, two argument types and a local variable count into the 32-bit opcode field of
  an instruction, with the five readers.
\<close>

section \<open>Codes\<close>

abbreviation (input) INSTR_LET :: u32 where "INSTR_LET \<equiv> 0"
abbreviation (input) INSTR_IN :: u32 where "INSTR_IN \<equiv> 1"
abbreviation (input) INSTR_RET :: u32 where "INSTR_RET \<equiv> 2"
abbreviation (input) INSTR_JC :: u32 where "INSTR_JC \<equiv> 3"
abbreviation (input) INSTR_JUMP :: u32 where "INSTR_JUMP \<equiv> 4"
abbreviation (input) INSTR_ARG :: u32 where "INSTR_ARG \<equiv> 5"
abbreviation (input) INSTR_RETRY :: u32 where "INSTR_RETRY \<equiv> 6"
abbreviation (input) INSTR_LETTUPLE :: u32 where "INSTR_LETTUPLE \<equiv> 7"
abbreviation (input) INSTR_THROW :: u32 where "INSTR_THROW \<equiv> 8"
abbreviation (input) INSTR_PUSH :: u32 where "INSTR_PUSH \<equiv> 9"
abbreviation (input) INSTR_POP :: u32 where "INSTR_POP \<equiv> 10"
abbreviation (input) INSTR_RETHROW :: u32 where "INSTR_RETHROW \<equiv> 11"
abbreviation (input) OP_ILOAD :: u32 where "OP_ILOAD \<equiv> 0"
abbreviation (input) OP_ILOAD2 :: u32 where "OP_ILOAD2 \<equiv> 1"
abbreviation (input) OP_INEG :: u32 where "OP_INEG \<equiv> 2"
abbreviation (input) OP_IADD :: u32 where "OP_IADD \<equiv> 3"
abbreviation (input) OP_ISUB :: u32 where "OP_ISUB \<equiv> 4"
abbreviation (input) OP_IMUL :: u32 where "OP_IMUL \<equiv> 5"
abbreviation (input) OP_IDIV :: u32 where "OP_IDIV \<equiv> 6"
abbreviation (input) OP_IMOD :: u32 where "OP_IMOD \<equiv> 7"
abbreviation (input) OP_INOT :: u32 where "OP_INOT \<equiv> 8"
abbreviation (input) OP_IAND :: u32 where "OP_IAND \<equiv> 9"
abbreviation (input) OP_IOR :: u32 where "OP_IOR \<equiv> 10"
abbreviation (input) OP_IXOR :: u32 where "OP_IXOR \<equiv> 11"
abbreviation (input) OP_ISHL :: u32 where "OP_ISHL \<equiv> 12"
abbreviation (input) OP_ISHR :: u32 where "OP_ISHR \<equiv> 13"
abbreviation (input) OP_ISHRU :: u32 where "OP_ISHRU \<equiv> 14"
abbreviation (input) OP_IEQ :: u32 where "OP_IEQ \<equiv> 15"
abbreviation (input) OP_INE :: u32 where "OP_INE \<equiv> 16"
abbreviation (input) OP_ILT :: u32 where "OP_ILT \<equiv> 17"
abbreviation (input) OP_IGE :: u32 where "OP_IGE \<equiv> 18"
abbreviation (input) OP_IGT :: u32 where "OP_IGT \<equiv> 19"
abbreviation (input) OP_ILE :: u32 where "OP_ILE \<equiv> 20"
abbreviation (input) OP_FLOAD :: u32 where "OP_FLOAD \<equiv> 21"
abbreviation (input) OP_FLOAD2 :: u32 where "OP_FLOAD2 \<equiv> 22"
abbreviation (input) OP_FNEG :: u32 where "OP_FNEG \<equiv> 23"
abbreviation (input) OP_FADD :: u32 where "OP_FADD \<equiv> 24"
abbreviation (input) OP_FSUB :: u32 where "OP_FSUB \<equiv> 25"
abbreviation (input) OP_FMUL :: u32 where "OP_FMUL \<equiv> 26"
abbreviation (input) OP_FDIV :: u32 where "OP_FDIV \<equiv> 27"
abbreviation (input) OP_FEQ :: u32 where "OP_FEQ \<equiv> 28"
abbreviation (input) OP_FNE :: u32 where "OP_FNE \<equiv> 29"
abbreviation (input) OP_FLT :: u32 where "OP_FLT \<equiv> 30"
abbreviation (input) OP_FGE :: u32 where "OP_FGE \<equiv> 31"
abbreviation (input) OP_FGT :: u32 where "OP_FGT \<equiv> 32"
abbreviation (input) OP_FLE :: u32 where "OP_FLE \<equiv> 33"
abbreviation (input) OP_RLOAD :: u32 where "OP_RLOAD \<equiv> 34"
abbreviation (input) OP_REQ :: u32 where "OP_REQ \<equiv> 35"
abbreviation (input) OP_RNE :: u32 where "OP_RNE \<equiv> 36"
abbreviation (input) OP_RIARRAY8 :: u32 where "OP_RIARRAY8 \<equiv> 37"
abbreviation (input) OP_RIARRAY16 :: u32 where "OP_RIARRAY16 \<equiv> 38"
abbreviation (input) OP_RIARRAY32 :: u32 where "OP_RIARRAY32 \<equiv> 39"
abbreviation (input) OP_RIARRAY64 :: u32 where "OP_RIARRAY64 \<equiv> 40"
abbreviation (input) OP_RSFARRAY :: u32 where "OP_RSFARRAY \<equiv> 41"
abbreviation (input) OP_RDFARRAY :: u32 where "OP_RDFARRAY \<equiv> 42"
abbreviation (input) OP_RRARRAY :: u32 where "OP_RRARRAY \<equiv> 43"
abbreviation (input) OP_RTUPLE :: u32 where "OP_RTUPLE \<equiv> 44"
abbreviation (input) OP_RIANTH8 :: u32 where "OP_RIANTH8 \<equiv> 45"
abbreviation (input) OP_RIANTH16 :: u32 where "OP_RIANTH16 \<equiv> 46"
abbreviation (input) OP_RIANTH32 :: u32 where "OP_RIANTH32 \<equiv> 47"
abbreviation (input) OP_RIANTH64 :: u32 where "OP_RIANTH64 \<equiv> 48"
abbreviation (input) OP_RSFANTH :: u32 where "OP_RSFANTH \<equiv> 49"
abbreviation (input) OP_RDFANTH :: u32 where "OP_RDFANTH \<equiv> 50"
abbreviation (input) OP_RRANTH :: u32 where "OP_RRANTH \<equiv> 51"
abbreviation (input) OP_RTNTH :: u32 where "OP_RTNTH \<equiv> 52"
abbreviation (input) OP_RIALEN8 :: u32 where "OP_RIALEN8 \<equiv> 53"
abbreviation (input) OP_RIALEN16 :: u32 where "OP_RIALEN16 \<equiv> 54"
abbreviation (input) OP_RIALEN32 :: u32 where "OP_RIALEN32 \<equiv> 55"
abbreviation (input) OP_RIALEN64 :: u32 where "OP_RIALEN64 \<equiv> 56"
abbreviation (input) OP_RSFALEN :: u32 where "OP_RSFALEN \<equiv> 57"
abbreviation (input) OP_RDFALEN :: u32 where "OP_RDFALEN \<equiv> 58"
abbreviation (input) OP_RRALEN :: u32 where "OP_RRALEN \<equiv> 59"
abbreviation (input) OP_RTLEN :: u32 where "OP_RTLEN \<equiv> 60"
abbreviation (input) OP_RIACAT8 :: u32 where "OP_RIACAT8 \<equiv> 61"
abbreviation (input) OP_RIACAT16 :: u32 where "OP_RIACAT16 \<equiv> 62"
abbreviation (input) OP_RIACAT32 :: u32 where "OP_RIACAT32 \<equiv> 63"
abbreviation (input) OP_RIACAT64 :: u32 where "OP_RIACAT64 \<equiv> 64"
abbreviation (input) OP_RSFACAT :: u32 where "OP_RSFACAT \<equiv> 65"
abbreviation (input) OP_RDFACAT :: u32 where "OP_RDFACAT \<equiv> 66"
abbreviation (input) OP_RRACAT :: u32 where "OP_RRACAT \<equiv> 67"
abbreviation (input) OP_RTCAT :: u32 where "OP_RTCAT \<equiv> 68"
abbreviation (input) OP_RTYPE :: u32 where "OP_RTYPE \<equiv> 69"
abbreviation (input) OP_ICALL :: u32 where "OP_ICALL \<equiv> 70"
abbreviation (input) OP_FCALL :: u32 where "OP_FCALL \<equiv> 71"
abbreviation (input) OP_RCALL :: u32 where "OP_RCALL \<equiv> 72"
abbreviation (input) OP_ITOF :: u32 where "OP_ITOF \<equiv> 73"
abbreviation (input) OP_FTOI :: u32 where "OP_FTOI \<equiv> 74"
abbreviation (input) OP_INCALL :: u32 where "OP_INCALL \<equiv> 75"
abbreviation (input) OP_FNCALL :: u32 where "OP_FNCALL \<equiv> 76"
abbreviation (input) OP_RNCALL :: u32 where "OP_RNCALL \<equiv> 77"
abbreviation (input) OP_RUIAFILL8 :: u32 where "OP_RUIAFILL8 \<equiv> 78"
abbreviation (input) OP_RUIAFILL16 :: u32 where "OP_RUIAFILL16 \<equiv> 79"
abbreviation (input) OP_RUIAFILL32 :: u32 where "OP_RUIAFILL32 \<equiv> 80"
abbreviation (input) OP_RUIAFILL64 :: u32 where "OP_RUIAFILL64 \<equiv> 81"
abbreviation (input) OP_RUSFAFILL :: u32 where "OP_RUSFAFILL \<equiv> 82"
abbreviation (input) OP_RUDFAFILL :: u32 where "OP_RUDFAFILL \<equiv> 83"
abbreviation (input) OP_RURAFILL :: u32 where "OP_RURAFILL \<equiv> 84"
abbreviation (input) OP_RUTFILLI :: u32 where "OP_RUTFILLI \<equiv> 85"
abbreviation (input) OP_RUTFILLF :: u32 where "OP_RUTFILLF \<equiv> 86"
abbreviation (input) OP_RUTFILLR :: u32 where "OP_RUTFILLR \<equiv> 87"
abbreviation (input) OP_RUIANTH8 :: u32 where "OP_RUIANTH8 \<equiv> 88"
abbreviation (input) OP_RUIANTH16 :: u32 where "OP_RUIANTH16 \<equiv> 89"
abbreviation (input) OP_RUIANTH32 :: u32 where "OP_RUIANTH32 \<equiv> 90"
abbreviation (input) OP_RUIANTH64 :: u32 where "OP_RUIANTH64 \<equiv> 91"
abbreviation (input) OP_RUSFANTH :: u32 where "OP_RUSFANTH \<equiv> 92"
abbreviation (input) OP_RUDFANTH :: u32 where "OP_RUDFANTH \<equiv> 93"
abbreviation (input) OP_RURANTH :: u32 where "OP_RURANTH \<equiv> 94"
abbreviation (input) OP_RUTNTH :: u32 where "OP_RUTNTH \<equiv> 95"
abbreviation (input) OP_RUIASNTH8 :: u32 where "OP_RUIASNTH8 \<equiv> 96"
abbreviation (input) OP_RUIASNTH16 :: u32 where "OP_RUIASNTH16 \<equiv> 97"
abbreviation (input) OP_RUIASNTH32 :: u32 where "OP_RUIASNTH32 \<equiv> 98"
abbreviation (input) OP_RUIASNTH64 :: u32 where "OP_RUIASNTH64 \<equiv> 99"
abbreviation (input) OP_RUSFASNTH :: u32 where "OP_RUSFASNTH \<equiv> 100"
abbreviation (input) OP_RUDFASNTH :: u32 where "OP_RUDFASNTH \<equiv> 101"
abbreviation (input) OP_RURASNTH :: u32 where "OP_RURASNTH \<equiv> 102"
abbreviation (input) OP_RUTSNTH :: u32 where "OP_RUTSNTH \<equiv> 103"
abbreviation (input) OP_RUIALEN8 :: u32 where "OP_RUIALEN8 \<equiv> 104"
abbreviation (input) OP_RUIALEN16 :: u32 where "OP_RUIALEN16 \<equiv> 105"
abbreviation (input) OP_RUIALEN32 :: u32 where "OP_RUIALEN32 \<equiv> 106"
abbreviation (input) OP_RUIALEN64 :: u32 where "OP_RUIALEN64 \<equiv> 107"
abbreviation (input) OP_RUSFALEN :: u32 where "OP_RUSFALEN \<equiv> 108"
abbreviation (input) OP_RUDFALEN :: u32 where "OP_RUDFALEN \<equiv> 109"
abbreviation (input) OP_RURALEN :: u32 where "OP_RURALEN \<equiv> 110"
abbreviation (input) OP_RUTLEN :: u32 where "OP_RUTLEN \<equiv> 111"
abbreviation (input) OP_RUTYPE :: u32 where "OP_RUTYPE \<equiv> 112"
abbreviation (input) OP_RUIATOIA8 :: u32 where "OP_RUIATOIA8 \<equiv> 113"
abbreviation (input) OP_RUIATOIA16 :: u32 where "OP_RUIATOIA16 \<equiv> 114"
abbreviation (input) OP_RUIATOIA32 :: u32 where "OP_RUIATOIA32 \<equiv> 115"
abbreviation (input) OP_RUIATOIA64 :: u32 where "OP_RUIATOIA64 \<equiv> 116"
abbreviation (input) OP_RUSFATOSFA :: u32 where "OP_RUSFATOSFA \<equiv> 117"
abbreviation (input) OP_RUDFATODFA :: u32 where "OP_RUDFATODFA \<equiv> 118"
abbreviation (input) OP_RURATORA :: u32 where "OP_RURATORA \<equiv> 119"
abbreviation (input) OP_RUTTOT :: u32 where "OP_RUTTOT \<equiv> 120"
abbreviation (input) OP_FPOW :: u32 where "OP_FPOW \<equiv> 121"
abbreviation (input) OP_FSQRT :: u32 where "OP_FSQRT \<equiv> 122"
abbreviation (input) OP_FEXP :: u32 where "OP_FEXP \<equiv> 123"
abbreviation (input) OP_FLOG :: u32 where "OP_FLOG \<equiv> 124"
abbreviation (input) OP_FCOS :: u32 where "OP_FCOS \<equiv> 125"
abbreviation (input) OP_FSIN :: u32 where "OP_FSIN \<equiv> 126"
abbreviation (input) OP_FTAN :: u32 where "OP_FTAN \<equiv> 127"
abbreviation (input) OP_FACOS :: u32 where "OP_FACOS \<equiv> 128"
abbreviation (input) OP_FASIN :: u32 where "OP_FASIN \<equiv> 129"
abbreviation (input) OP_FATAN :: u32 where "OP_FATAN \<equiv> 130"
abbreviation (input) OP_FCEIL :: u32 where "OP_FCEIL \<equiv> 131"
abbreviation (input) OP_FFLOOR :: u32 where "OP_FFLOOR \<equiv> 132"
abbreviation (input) OP_FROUND :: u32 where "OP_FROUND \<equiv> 133"
abbreviation (input) OP_FTRUNC :: u32 where "OP_FTRUNC \<equiv> 134"
abbreviation (input) OP_TRY :: u32 where "OP_TRY \<equiv> 135"
abbreviation (input) OP_IFORCE :: u32 where "OP_IFORCE \<equiv> 136"
abbreviation (input) OP_FFORCE :: u32 where "OP_FFORCE \<equiv> 137"
abbreviation (input) OP_RFORCE :: u32 where "OP_RFORCE \<equiv> 138"
abbreviation (input) OP_STACKTRACE :: u32 where "OP_STACKTRACE \<equiv> 139"
abbreviation (input) ARG_TYPE_LVAR :: u32 where "ARG_TYPE_LVAR \<equiv> 0"
abbreviation (input) ARG_TYPE_ARG :: u32 where "ARG_TYPE_ARG \<equiv> 1"
abbreviation (input) ARG_TYPE_IMM :: u32 where "ARG_TYPE_IMM \<equiv> 2"
abbreviation (input) ARG_TYPE_GVAR :: u32 where "ARG_TYPE_GVAR \<equiv> 3"
abbreviation (input) ARG_TYPE_POP :: u32 where "ARG_TYPE_POP \<equiv> 4"
abbreviation (input) ARG_TYPE_EVAL :: u32 where "ARG_TYPE_EVAL \<equiv> 5"

section \<open>Packing and unpacking\<close>

definition opcode :: "u32 \<Rightarrow> u32 \<Rightarrow> u32 \<Rightarrow> u32 \<Rightarrow> u32 \<Rightarrow> u32" where
  "opcode instr op arg_type1 arg_type2 local_var_count =
     (instr AND 0xff) OR push_bit 8 (op AND 0xff) OR push_bit 16 (arg_type1 AND 0xf)
       OR push_bit 20 (arg_type2 AND 0xf) OR push_bit 24 (local_var_count - 2)"

definition opcode_to_instr :: "u32 \<Rightarrow> u32" where
  "opcode_to_instr w = w AND 0xff"

definition opcode_to_op :: "u32 \<Rightarrow> u32" where
  "opcode_to_op w = drop_bit 8 w AND 0xff"

definition opcode_to_arg_type1 :: "u32 \<Rightarrow> u32" where
  "opcode_to_arg_type1 w = drop_bit 16 w AND 0xf"

definition opcode_to_arg_type2 :: "u32 \<Rightarrow> u32" where
  "opcode_to_arg_type2 w = drop_bit 20 w AND 0xf"

definition opcode_to_local_var_count :: "u32 \<Rightarrow> u32" where
  "opcode_to_local_var_count w = (drop_bit 24 w AND 0xff) + 2"

lemmas opcode_readers =
  opcode_to_instr_def opcode_to_op_def opcode_to_arg_type1_def opcode_to_arg_type2_def
  opcode_to_local_var_count_def

lemma mask_0xff: "(0xff :: u32) = mask 8" and mask_0xf: "(0xf :: u32) = mask 4"
  by (simp_all add: mask_eq_exp_minus_1)

text \<open>Each reader returns its field of a packed opcode, truncated to the width of the field.\<close>

lemma opcode_fields:
  "opcode_to_instr (opcode i p a b n) = i AND 0xff"
  "opcode_to_op (opcode i p a b n) = p AND 0xff"
  "opcode_to_arg_type1 (opcode i p a b n) = a AND 0xf"
  "opcode_to_arg_type2 (opcode i p a b n) = b AND 0xf"
  "opcode_to_local_var_count (opcode i p a b n) = ((n - 2) AND 0xff) + 2"
proof -
  note * = opcode_readers opcode_def mask_0xff mask_0xf
  show "opcode_to_instr (opcode i p a b n) = i AND 0xff"
    unfolding * by (rule bit_word_eqI; auto simp: bit_simps)
  show "opcode_to_op (opcode i p a b n) = p AND 0xff"
    unfolding * by (rule bit_word_eqI; auto simp: bit_simps)
  show "opcode_to_arg_type1 (opcode i p a b n) = a AND 0xf"
    unfolding * by (rule bit_word_eqI; auto simp: bit_simps)
  show "opcode_to_arg_type2 (opcode i p a b n) = b AND 0xf"
    unfolding * by (rule bit_word_eqI; auto simp: bit_simps)
  show "opcode_to_local_var_count (opcode i p a b n) = ((n - 2) AND 0xff) + 2"
    unfolding * by (rule arg_cong [where f = "\<lambda>x. x + 2"], rule bit_word_eqI; auto simp: bit_simps)
qed

lemma field_in_range:
  "(x :: u32) < 256 \<Longrightarrow> x AND 0xff = x" "(y :: u32) < 16 \<Longrightarrow> y AND 0xf = y"
  unfolding mask_0xff mask_0xf by (simp_all add: less_mask_eq)

text \<open>C30: The five readers invert the packing of an opcode: an instruction code and an operation code
  below 256, argument types below 16 and a local variable count from 2 to 257 (the count is stored
  less 2, in 8 bits) are read back unchanged.\<close>

theorem opcode_round_trip:
  assumes "i < 256" and "p < 256" and "a < 16" and "b < 16" and "n - 2 < 256"
  shows "opcode_to_instr (opcode i p a b n) = i \<and>
    opcode_to_op (opcode i p a b n) = p \<and>
    opcode_to_arg_type1 (opcode i p a b n) = a \<and>
    opcode_to_arg_type2 (opcode i p a b n) = b \<and>
    opcode_to_local_var_count (opcode i p a b n) = n"
  using assms by (simp add: opcode_fields field_in_range)

lemma opcode_round_trip_witness:
  "opcode_to_instr (opcode INSTR_LETTUPLE OP_RTUPLE ARG_TYPE_EVAL ARG_TYPE_POP 257) = INSTR_LETTUPLE \<and>
   opcode_to_op (opcode INSTR_LETTUPLE OP_RTUPLE ARG_TYPE_EVAL ARG_TYPE_POP 257) = OP_RTUPLE \<and>
   opcode_to_arg_type1 (opcode INSTR_LETTUPLE OP_RTUPLE ARG_TYPE_EVAL ARG_TYPE_POP 257) = ARG_TYPE_EVAL \<and>
   opcode_to_arg_type2 (opcode INSTR_LETTUPLE OP_RTUPLE ARG_TYPE_EVAL ARG_TYPE_POP 257) = ARG_TYPE_POP \<and>
   opcode_to_local_var_count (opcode INSTR_LETTUPLE OP_RTUPLE ARG_TYPE_EVAL ARG_TYPE_POP 257) = 257"
  by (rule opcode_round_trip) simp_all

text \<open>C31: Packing loses nothing in the other direction either: packing the five fields read from any
  32-bit word gives that word back, so every opcode word of a program file is the packing of its
  fields.\<close>

theorem opcode_of_fields:
  "opcode (opcode_to_instr w) (opcode_to_op w) (opcode_to_arg_type1 w) (opcode_to_arg_type2 w)
     (opcode_to_local_var_count w) = w"
proof (rule bit_word_eqI)
  fix n assume "n < LENGTH(32)"
  then consider "n < 8" | "8 \<le> n" "n < 16" | "16 \<le> n" "n < 20" | "20 \<le> n" "n < 24" | "24 \<le> n" "n < 32"
    by fastforce
  then show "bit (opcode (opcode_to_instr w) (opcode_to_op w) (opcode_to_arg_type1 w)
      (opcode_to_arg_type2 w) (opcode_to_local_var_count w)) n = bit w n"
    unfolding opcode_readers opcode_def mask_0xff mask_0xf add_diff_cancel_right'
    by cases (simp_all add: bit_simps, arith+)
qed

end
