(* ===== verification/Values.thy ===== *)
theory Values
  imports Letin_Prelude
begin

unbundle bit_operations_syntax

text \<open>
  Values, references, objects and return values of the virtual machine: the constants of
  include/letin/const.hpp, the classes \<open>Reference\<close>, \<open>Value\<close>, \<open>Object\<close> and
  \<open>ReturnValue\<close> of include/letin/vm.hpp, and their operations in vm/vm.cpp. The object
  graph is a heap: a list of objects, indexed by address.
\<close>

section \<open>Constants\<close>

abbreviation (input) VALUE_TYPE_INT :: int where "VALUE_TYPE_INT \<equiv> 0"
abbreviation (input) VALUE_TYPE_FLOAT :: int where "VALUE_TYPE_FLOAT \<equiv> 1"
abbreviation (input) VALUE_TYPE_REF :: int where "VALUE_TYPE_REF \<equiv> 2"
abbreviation (input) VALUE_TYPE_PAIR :: int where "VALUE_TYPE_PAIR \<equiv> 3"
abbreviation (input) VALUE_TYPE_CANCELED_REF :: int where "VALUE_TYPE_CANCELED_REF \<equiv> 4"
abbreviation (input) VALUE_TYPE_LAZY_VALUE_REF :: int where "VALUE_TYPE_LAZY_VALUE_REF \<equiv> 5"
abbreviation (input) VALUE_TYPE_LOCKED_LAZY_VALUE_REF :: int where "VALUE_TYPE_LOCKED_LAZY_VALUE_REF \<equiv> 6"
abbreviation (input) VALUE_TYPE_LAZILY_CANCELED :: int where "VALUE_TYPE_LAZILY_CANCELED \<equiv> 64"
abbreviation (input) VALUE_TYPE_ERROR :: int where "VALUE_TYPE_ERROR \<equiv> - 1"
abbreviation (input) OBJECT_TYPE_IARRAY8 :: int where "OBJECT_TYPE_IARRAY8 \<equiv> 0"
abbreviation (input) OBJECT_TYPE_IARRAY16 :: int where "OBJECT_TYPE_IARRAY16 \<equiv> 1"
abbreviation (input) OBJECT_TYPE_IARRAY32 :: int where "OBJECT_TYPE_IARRAY32 \<equiv> 2"
abbreviation (input) OBJECT_TYPE_IARRAY64 :: int where "OBJECT_TYPE_IARRAY64 \<equiv> 3"
abbreviation (input) OBJECT_TYPE_SFARRAY :: int where "OBJECT_TYPE_SFARRAY \<equiv> 4"
abbreviation (input) OBJECT_TYPE_DFARRAY :: int where "OBJECT_TYPE_DFARRAY \<equiv> 5"
abbreviation (input) OBJECT_TYPE_RARRAY :: int where "OBJECT_TYPE_RARRAY \<equiv> 6"
abbreviation (input) OBJECT_TYPE_TUPLE :: int where "OBJECT_TYPE_TUPLE \<equiv> 7"
abbreviation (input) OBJECT_TYPE_IO :: int where "OBJECT_TYPE_IO \<equiv> 8"
abbreviation (input) OBJECT_TYPE_LAZY_VALUE :: int where "OBJECT_TYPE_LAZY_VALUE \<equiv> 9"
abbreviation (input) OBJECT_TYPE_NATIVE_OBJECT :: int where "OBJECT_TYPE_NATIVE_OBJECT \<equiv> 10"
abbreviation (input) OBJECT_TYPE_UNIQUE :: int where "OBJECT_TYPE_UNIQUE \<equiv> 256"
abbreviation (input) OBJECT_TYPE_INTERNAL :: int where "OBJECT_TYPE_INTERNAL \<equiv> 512"
abbreviation (input) OBJECT_TYPE_HASH_TABLE :: int where "OBJECT_TYPE_HASH_TABLE \<equiv> 512"
abbreviation (input) OBJECT_TYPE_ALI_HASH_TABLE_ENTRY :: int where "OBJECT_TYPE_ALI_HASH_TABLE_ENTRY \<equiv> 514"
abbreviation (input) OBJECT_TYPE_ALF_HASH_TABLE_ENTRY :: int where "OBJECT_TYPE_ALF_HASH_TABLE_ENTRY \<equiv> 515"
abbreviation (input) OBJECT_TYPE_ALR_HASH_TABLE_ENTRY :: int where "OBJECT_TYPE_ALR_HASH_TABLE_ENTRY \<equiv> 516"
abbreviation (input) OBJECT_TYPE_ERROR :: int where "OBJECT_TYPE_ERROR \<equiv> - 1"
abbreviation (input) ERROR_SUCCESS :: int where "ERROR_SUCCESS \<equiv> 0"
abbreviation (input) ERROR_NO_INSTR :: int where "ERROR_NO_INSTR \<equiv> 1"
abbreviation (input) ERROR_INCORRECT_INSTR :: int where "ERROR_INCORRECT_INSTR \<equiv> 2"
abbreviation (input) ERROR_INCORRECT_VALUE :: int where "ERROR_INCORRECT_VALUE \<equiv> 3"
abbreviation (input) ERROR_INCORRECT_OBJECT :: int where "ERROR_INCORRECT_OBJECT \<equiv> 4"
abbreviation (input) ERROR_INCORRECT_FUN :: int where "ERROR_INCORRECT_FUN \<equiv> 5"
abbreviation (input) ERROR_EMPTY_STACK :: int where "ERROR_EMPTY_STACK \<equiv> 6"
abbreviation (input) ERROR_STACK_OVERFLOW :: int where "ERROR_STACK_OVERFLOW \<equiv> 7"
abbreviation (input) ERROR_OUT_OF_MEMORY :: int where "ERROR_OUT_OF_MEMORY \<equiv> 8"
abbreviation (input) ERROR_NO_FUN :: int where "ERROR_NO_FUN \<equiv> 9"
abbreviation (input) ERROR_NO_GLOBAL_VAR :: int where "ERROR_NO_GLOBAL_VAR \<equiv> 10"
abbreviation (input) ERROR_NO_LOCAL_VAR :: int where "ERROR_NO_LOCAL_VAR \<equiv> 11"
abbreviation (input) ERROR_NO_ARG :: int where "ERROR_NO_ARG \<equiv> 12"
abbreviation (input) ERROR_INCORRECT_ARG_COUNT :: int where "ERROR_INCORRECT_ARG_COUNT \<equiv> 13"
abbreviation (input) ERROR_DIV_BY_ZERO :: int where "ERROR_DIV_BY_ZERO \<equiv> 14"
abbreviation (input) ERROR_INDEX_OF_OUT_BOUNDS :: int where "ERROR_INDEX_OF_OUT_BOUNDS \<equiv> 15"
abbreviation (input) ERROR_EXCEPTION :: int where "ERROR_EXCEPTION \<equiv> 16"
abbreviation (input) ERROR_NO_ENTRY :: int where "ERROR_NO_ENTRY \<equiv> 17"
abbreviation (input) ERROR_NO_NATIVE_FUN :: int where "ERROR_NO_NATIVE_FUN \<equiv> 18"
abbreviation (input) ERROR_UNIQUE_OBJECT :: int where "ERROR_UNIQUE_OBJECT \<equiv> 19"
abbreviation (input) ERROR_AGAIN_USED_UNIQUE :: int where "ERROR_AGAIN_USED_UNIQUE \<equiv> 20"
abbreviation (input) ERROR_USER_EXCEPTION :: int where "ERROR_USER_EXCEPTION \<equiv> 21"
abbreviation (input) ERROR_NO_EXPR_VALUE :: int where "ERROR_NO_EXPR_VALUE \<equiv> 22"
abbreviation (input) ERROR_NO_ERROR :: int where "ERROR_NO_ERROR \<equiv> 23"
abbreviation (input) NATIVE_FUN_ATOI :: int where "NATIVE_FUN_ATOI \<equiv> 0"
abbreviation (input) NATIVE_FUN_ITOA :: int where "NATIVE_FUN_ITOA \<equiv> 1"
abbreviation (input) NATIVE_FUN_ATOF :: int where "NATIVE_FUN_ATOF \<equiv> 2"
abbreviation (input) NATIVE_FUN_FTOA :: int where "NATIVE_FUN_FTOA \<equiv> 3"
abbreviation (input) NATIVE_FUN_GET_CHAR :: int where "NATIVE_FUN_GET_CHAR \<equiv> 4"
abbreviation (input) NATIVE_FUN_PUT_CHAR :: int where "NATIVE_FUN_PUT_CHAR \<equiv> 5"
abbreviation (input) NATIVE_FUN_GET_LINE :: int where "NATIVE_FUN_GET_LINE \<equiv> 6"
abbreviation (input) NATIVE_FUN_PUT_STRING :: int where "NATIVE_FUN_PUT_STRING \<equiv> 7"
abbreviation (input) MAX_DEFAULT_NATIVE_FUN_INDEX :: int where "MAX_DEFAULT_NATIVE_FUN_INDEX \<equiv> 7"
abbreviation (input) MIN_UNRESERVED_NATIVE_FUN_INDEX :: int where "MIN_UNRESERVED_NATIVE_FUN_INDEX \<equiv> 1024"
abbreviation (input) LOADING_ERROR_IO :: int where "LOADING_ERROR_IO \<equiv> 0"
abbreviation (input) LOADING_ERROR_FORMAT :: int where "LOADING_ERROR_FORMAT \<equiv> 1"
abbreviation (input) LOADING_ERROR_NO_FUN_SYM :: int where "LOADING_ERROR_NO_FUN_SYM \<equiv> 2"
abbreviation (input) LOADING_ERROR_FUN_SYM :: int where "LOADING_ERROR_FUN_SYM \<equiv> 3"
abbreviation (input) LOADING_ERROR_NO_VAR_SYM :: int where "LOADING_ERROR_NO_VAR_SYM \<equiv> 4"
abbreviation (input) LOADING_ERROR_VAR_SYM :: int where "LOADING_ERROR_VAR_SYM \<equiv> 5"
abbreviation (input) LOADING_ERROR_RELOC :: int where "LOADING_ERROR_RELOC \<equiv> 6"
abbreviation (input) LOADING_ERROR_ENTRY :: int where "LOADING_ERROR_ENTRY \<equiv> 7"
abbreviation (input) LOADING_ERROR_NO_RELOC :: int where "LOADING_ERROR_NO_RELOC \<equiv> 8"
abbreviation (input) LOADING_ERROR_FUN_INDEX :: int where "LOADING_ERROR_FUN_INDEX \<equiv> 9"
abbreviation (input) LOADING_ERROR_VAR_INDEX :: int where "LOADING_ERROR_VAR_INDEX \<equiv> 10"
abbreviation (input) LOADING_ERROR_ALLOC :: int where "LOADING_ERROR_ALLOC \<equiv> 11"
abbreviation (input) LOADING_ERROR_NO_NATIVE_FUN_SYM :: int where "LOADING_ERROR_NO_NATIVE_FUN_SYM \<equiv> 12"
abbreviation (input) FORK_HANDLER_PRIO_ALLOC :: int where "FORK_HANDLER_PRIO_ALLOC \<equiv> 0"
abbreviation (input) FORK_HANDLER_PRIO_GC :: int where "FORK_HANDLER_PRIO_GC \<equiv> 1"
abbreviation (input) FORK_HANDLER_PRIO_INTERNAL :: int where "FORK_HANDLER_PRIO_INTERNAL \<equiv> 2"
abbreviation (input) FORK_HANDLER_PRIO_EVAL_STRATEGY :: int where "FORK_HANDLER_PRIO_EVAL_STRATEGY \<equiv> 3"
abbreviation (input) FORK_HANDLER_PRIO_NATIVE_FUN :: int where "FORK_HANDLER_PRIO_NATIVE_FUN \<equiv> 4"
abbreviation (input) FORK_HANDLER_PRIO_VM :: int where "FORK_HANDLER_PRIO_VM \<equiv> 5"
abbreviation (input) EVAL_STRATEGY_LAZY :: int where "EVAL_STRATEGY_LAZY \<equiv> 1"
abbreviation (input) EVAL_STRATEGY_MEMO :: int where "EVAL_STRATEGY_MEMO \<equiv> 2"
abbreviation (input) MAX_EVAL_STRATEGY :: int where "MAX_EVAL_STRATEGY \<equiv> 2"

section \<open>Values\<close>

text \<open>
  A reference is a pointer to an object. The default reference points to one static object of
  type \<open>OBJECT_TYPE_ERROR\<close>; it is \<open>RNil\<close>. \<open>RWild\<close> is the content of a
  reference slot that was allocated and never written.
\<close>

datatype ref = RNil | RAddr nat | RWild

text \<open>
  A value is a tagged union. The tag \<open>VALUE_TYPE_LAZY_VALUE_REF\<close> may carry the flag
  \<open>VALUE_TYPE_LAZILY_CANCELED\<close>, the first argument of \<open>VLazy\<close>.
\<close>

datatype vm_value =
    VInt u64
  | VFloat float64
  | VRef ref
  | VPair u32 u32
  | VCanceled ref
  | VLazy bool ref
  | VLocked ref
  | VError

fun value_type :: "vm_value \<Rightarrow> int" where
  "value_type (VInt _) = VALUE_TYPE_INT"
| "value_type (VFloat _) = VALUE_TYPE_FLOAT"
| "value_type (VRef _) = VALUE_TYPE_REF"
| "value_type (VPair _ _) = VALUE_TYPE_PAIR"
| "value_type (VCanceled _) = VALUE_TYPE_CANCELED_REF"
| "value_type (VLazy c _) = VALUE_TYPE_LAZY_VALUE_REF + (if c then VALUE_TYPE_LAZILY_CANCELED else 0)"
| "value_type (VLocked _) = VALUE_TYPE_LOCKED_LAZY_VALUE_REF"
| "value_type VError = VALUE_TYPE_ERROR"

definition is_error :: "vm_value \<Rightarrow> bool" where
  "is_error v \<longleftrightarrow> value_type v = VALUE_TYPE_ERROR"

fun is_lazy :: "vm_value \<Rightarrow> bool" where
  "is_lazy (VLazy _ _) = True"
| "is_lazy _ = False"

text \<open>The flag bit of the tag; the tag of the error value is -1, which has every bit.\<close>

fun is_lazily_canceled :: "vm_value \<Rightarrow> bool" where
  "is_lazily_canceled (VLazy c _) = c"
| "is_lazily_canceled VError = True"
| "is_lazily_canceled _ = False"

text \<open>The readers \<open>i\<close>, \<open>f\<close> and \<open>r\<close> give a default when the tag is another one.\<close>

fun value_i :: "vm_value \<Rightarrow> u64" where
  "value_i (VInt i) = i"
| "value_i _ = 0"

fun value_f :: "vm_value \<Rightarrow> float64" where
  "value_f (VFloat f) = f"
| "value_f _ = 0"

fun value_r :: "vm_value \<Rightarrow> ref" where
  "value_r (VRef r) = r"
| "value_r (VCanceled r) = r"
| "value_r _ = RNil"

fun cancel_ref :: "vm_value \<Rightarrow> bool \<times> vm_value" where
  "cancel_ref (VRef r) = (True, VCanceled r)"
| "cancel_ref v = (False, v)"

text \<open>The code sets the flag on lazy values only.\<close>

fun lazily_cancel_ref :: "vm_value \<Rightarrow> vm_value" where
  "lazily_cancel_ref (VLazy _ r) = VLazy True r"
| "lazily_cancel_ref v = v"

section \<open>Floating-point numbers\<close>

text \<open>
  A double is its 64 bits. The arithmetic of the floating-point unit and of the C mathematical
  library is a parameter; sign change and the checks the code itself does on bits are not.
  \<open>f_to_int\<close> is \<open>None\<close> where the conversion to \<open>int64_t\<close> is undefined.
\<close>

record fpu =
  f_add :: "float64 \<Rightarrow> float64 \<Rightarrow> float64"
  f_sub :: "float64 \<Rightarrow> float64 \<Rightarrow> float64"
  f_mul :: "float64 \<Rightarrow> float64 \<Rightarrow> float64"
  f_div :: "float64 \<Rightarrow> float64 \<Rightarrow> float64"
  f_eq :: "float64 \<Rightarrow> float64 \<Rightarrow> bool"
  f_less :: "float64 \<Rightarrow> float64 \<Rightarrow> bool"
  f_leq :: "float64 \<Rightarrow> float64 \<Rightarrow> bool"
  f_pow :: "float64 \<Rightarrow> float64 \<Rightarrow> float64"
  f_sqrt :: "float64 \<Rightarrow> float64"
  f_exp :: "float64 \<Rightarrow> float64"
  f_log :: "float64 \<Rightarrow> float64"
  f_cos :: "float64 \<Rightarrow> float64"
  f_sin :: "float64 \<Rightarrow> float64"
  f_tan :: "float64 \<Rightarrow> float64"
  f_acos :: "float64 \<Rightarrow> float64"
  f_asin :: "float64 \<Rightarrow> float64"
  f_atan :: "float64 \<Rightarrow> float64"
  f_ceil :: "float64 \<Rightarrow> float64"
  f_floor :: "float64 \<Rightarrow> float64"
  f_round :: "float64 \<Rightarrow> float64"
  f_trunc :: "float64 \<Rightarrow> float64"
  f_of_int :: "u64 \<Rightarrow> float64"
  f_to_int :: "float64 \<Rightarrow> u64 option"
  f_widen :: "float32 \<Rightarrow> float64"
  f_narrow :: "float64 \<Rightarrow> float32"

text \<open>A unit that answers 0 to everything, for concrete runs without floating-point numbers.\<close>

definition zero_fpu :: fpu where
  "zero_fpu = \<lparr>f_add = (\<lambda>_ _. 0), f_sub = (\<lambda>_ _. 0), f_mul = (\<lambda>_ _. 0), f_div = (\<lambda>_ _. 0),
     f_eq = (=), f_less = (\<lambda>_ _. False), f_leq = (\<lambda>_ _. False), f_pow = (\<lambda>_ _. 0), f_sqrt = (\<lambda>_. 0),
     f_exp = (\<lambda>_. 0), f_log = (\<lambda>_. 0), f_cos = (\<lambda>_. 0), f_sin = (\<lambda>_. 0), f_tan = (\<lambda>_. 0),
     f_acos = (\<lambda>_. 0), f_asin = (\<lambda>_. 0), f_atan = (\<lambda>_. 0), f_ceil = (\<lambda>_. 0), f_floor = (\<lambda>_. 0),
     f_round = (\<lambda>_. 0), f_trunc = (\<lambda>_. 0), f_of_int = (\<lambda>_. 0), f_to_int = (\<lambda>_. None),
     f_widen = (\<lambda>_. 0), f_narrow = (\<lambda>_. 0)\<rparr>"

definition f_neg :: "float64 \<Rightarrow> float64" where
  "f_neg f = f XOR push_bit 63 1"

text \<open>Floats of program files: a signalling NaN becomes the quiet NaN.\<close>

definition format_float_to_float :: "u32 \<Rightarrow> float32" where
  "format_float_to_float w =
     (if \<not> (w AND 0x7fc00000 = 0x7f800000 \<and> w AND 0x007fffff \<noteq> 0) then w else 0x7fc00000)"

definition format_double_to_double :: "u64 \<Rightarrow> float64" where
  "format_double_to_double w =
     (if \<not> (w AND 0x7ff8000000000000 = 0x7ff0000000000000 \<and> w AND 0x000fffffffffffff \<noteq> 0)
      then w else 0x7ff8000000000000)"

section \<open>Objects\<close>

record lazy_value =
  lz_locked :: bool
  lz_value_type :: int
  lz_must_be_shared :: bool
  lz_value :: "vm_value"
  lz_fun :: nat
  lz_args :: "vm_value list"

text \<open>The value box of an entry of a hash table of function results.\<close>

datatype table_value = TInt u64 | TFloat float64 | TRef ref

datatype body =
    IArray8 "u8 list"
  | IArray16 "u16 list"
  | IArray32 "u32 list"
  | IArray64 "u64 list"
  | SFArray "float32 list"
  | DFArray "float64 list"
  | RArray "ref list"
  | Tuple "vm_value list"
  | IO
  | LazyValue lazy_value
  | NativeObject nat nat "u8 list" \<comment> \<open>type identity, class, bytes\<close>
  | HashTable nat "(ref \<times> ref) list"      \<comment> \<open>entry count; first and last entry of each bucket\<close>
  | HashEntry ref ref ref table_value      \<comment> \<open>previous, next, key tuple, value\<close>
  | ErrorObject

datatype object = Object (has_unique_flag: bool) (body: body)

type_synonym heap = "object list"

fun body_type :: "body \<Rightarrow> int" where
  "body_type (IArray8 _) = OBJECT_TYPE_IARRAY8"
| "body_type (IArray16 _) = OBJECT_TYPE_IARRAY16"
| "body_type (IArray32 _) = OBJECT_TYPE_IARRAY32"
| "body_type (IArray64 _) = OBJECT_TYPE_IARRAY64"
| "body_type (SFArray _) = OBJECT_TYPE_SFARRAY"
| "body_type (DFArray _) = OBJECT_TYPE_DFARRAY"
| "body_type (RArray _) = OBJECT_TYPE_RARRAY"
| "body_type (Tuple _) = OBJECT_TYPE_TUPLE"
| "body_type IO = OBJECT_TYPE_IO"
| "body_type (LazyValue _) = OBJECT_TYPE_LAZY_VALUE"
| "body_type (NativeObject _ _ _) = OBJECT_TYPE_NATIVE_OBJECT"
| "body_type (HashTable _ _) = OBJECT_TYPE_HASH_TABLE"
| "body_type (HashEntry _ _ _ (TInt _)) = OBJECT_TYPE_ALI_HASH_TABLE_ENTRY"
| "body_type (HashEntry _ _ _ (TFloat _)) = OBJECT_TYPE_ALF_HASH_TABLE_ENTRY"
| "body_type (HashEntry _ _ _ (TRef _)) = OBJECT_TYPE_ALR_HASH_TABLE_ENTRY"
| "body_type ErrorObject = OBJECT_TYPE_ERROR"

text \<open>The type number of an object is the number of its kind with the flag
  \<open>OBJECT_TYPE_UNIQUE\<close>; the error object has the number -1, whatever the flag.\<close>

fun object_type :: "object \<Rightarrow> int" where
  "object_type (Object u ErrorObject) = OBJECT_TYPE_ERROR"
| "object_type (Object u b) = body_type b + (if u then OBJECT_TYPE_UNIQUE else 0)"

fun object_is_unique :: "object \<Rightarrow> bool" where
  "object_is_unique (Object u ErrorObject) = False"
| "object_is_unique (Object u b) = u"

fun object_is_lazy :: "object \<Rightarrow> bool" where
  "object_is_lazy (Object False (LazyValue _)) = True"
| "object_is_lazy _ = False"

fun body_length :: "body \<Rightarrow> nat" where
  "body_length (IArray8 xs) = length xs"
| "body_length (IArray16 xs) = length xs"
| "body_length (IArray32 xs) = length xs"
| "body_length (IArray64 xs) = length xs"
| "body_length (SFArray xs) = length xs"
| "body_length (DFArray xs) = length xs"
| "body_length (RArray xs) = length xs"
| "body_length (Tuple xs) = length xs"
| "body_length IO = 0"
| "body_length (LazyValue z) = length (lz_args z)"
| "body_length (NativeObject _ _ xs) = length xs"
| "body_length (HashTable _ bs) = 16 + 16 * length bs"
| "body_length (HashEntry _ _ _ _) = 32"
| "body_length ErrorObject = 0"

abbreviation (input) object_length :: "object \<Rightarrow> nat" where
  "object_length ob \<equiv> body_length (body ob)"

definition nil_object :: object where
  "nil_object = Object False ErrorObject"

text \<open>Following a reference; \<open>None\<close> is a read through a wild pointer.\<close>

fun deref :: "heap \<Rightarrow> ref \<Rightarrow> object option" where
  "deref h RNil = Some nil_object"
| "deref h (RAddr a) = (if a < length h then Some (h ! a) else None)"
| "deref h RWild = None"

definition value_is_unique :: "heap \<Rightarrow> vm_value \<Rightarrow> bool option" where
  "value_is_unique h v = (case v of VRef r \<Rightarrow> map_option object_is_unique (deref h r) | _ \<Rightarrow> Some False)"

section \<open>Sizes of objects\<close>

text \<open>
  \<open>object_size\<close>: the number of bytes of an object, 0 when the type is unknown or the size does
  not fit. All arithmetic is on \<open>size_t\<close>, 64 bits. The offsets and element sizes are those of the
  LP64 ABI (\<open>offsetof(ObjectRaw, is8)\<close> is 16, a \<open>Value\<close> is 16 bytes, a \<open>std::mutex\<close> 40).
\<close>

definition type_kind :: "int \<Rightarrow> int" where
  "type_kind t = t AND NOT OBJECT_TYPE_UNIQUE"

definition is_internal_type :: "int \<Rightarrow> bool" where
  "is_internal_type t \<longleftrightarrow> t AND OBJECT_TYPE_INTERNAL \<noteq> 0"

definition elem_size :: "int \<Rightarrow> u64 option" where
  "elem_size t = (let k = type_kind t in
     if k = OBJECT_TYPE_IARRAY8 then Some 1
     else if k = OBJECT_TYPE_IARRAY16 then Some 2
     else if k = OBJECT_TYPE_IARRAY32 then Some 4
     else if k = OBJECT_TYPE_IARRAY64 then Some 8
     else if k = OBJECT_TYPE_SFARRAY then Some 4
     else if k = OBJECT_TYPE_DFARRAY then Some 8
     else if k = OBJECT_TYPE_RARRAY then Some 8
     else if k = OBJECT_TYPE_TUPLE then Some 9
     else if k = OBJECT_TYPE_IO then Some 0
     else if k = OBJECT_TYPE_LAZY_VALUE then Some 16
     else if k = OBJECT_TYPE_NATIVE_OBJECT then Some 1
     else if is_internal_type t then Some 1
     else None)"

definition header_size :: "int \<Rightarrow> u64" where
  "header_size t = (let k = type_kind t in
     if k = OBJECT_TYPE_LAZY_VALUE then 88
     else if k = OBJECT_TYPE_NATIVE_OBJECT then 32
     else 16)"

definition object_size :: "int \<Rightarrow> u64 \<Rightarrow> u64" where
  "object_size t len =
     (if len > 0x7fffffffffffffff then 0
      else case elem_size t of
        None \<Rightarrow> 0
      | Some es \<Rightarrow>
          (let array_size = len * es in
           if es \<noteq> 0 \<and> array_size div es \<noteq> len then 0
           else let size = header_size t + array_size in
             if (header_size t OR array_size) > size then 0 else size))"

section \<open>Equality of values\<close>

definition value_eq :: "fpu \<Rightarrow> vm_value \<Rightarrow> vm_value \<Rightarrow> bool" where
  "value_eq F v w = (case (v, w) of
     (VInt i, VInt j) \<Rightarrow> i = j
   | (VFloat f, VFloat g) \<Rightarrow> f_eq F f g
   | (VRef r, VRef q) \<Rightarrow> r = q
   | (VPair a b, VPair c d) \<Rightarrow> a = c \<and> a = c
   | (VCanceled r, VCanceled q) \<Rightarrow> r = q
   | (VLazy x r, VLazy y q) \<Rightarrow> x = y \<and> r = q
   | (VLocked r, VLocked q) \<Rightarrow> r = q
   | (VError, VError) \<Rightarrow> True
   | _ \<Rightarrow> False)"

section \<open>Reading and writing elements\<close>

text \<open>\<open>elem\<close>: \<open>None\<close> is a read beyond the end of the object's memory.\<close>

definition nth_opt :: "'a list \<Rightarrow> nat \<Rightarrow> 'a option" where
  "nth_opt xs i = (if i < length xs then Some (xs ! i) else None)"

fun elem :: "fpu \<Rightarrow> object \<Rightarrow> nat \<Rightarrow> vm_value option" where
  "elem F (Object _ (IArray8 xs)) i = map_option (\<lambda>x. VInt (scast x)) (nth_opt xs i)"
| "elem F (Object _ (IArray16 xs)) i = map_option (\<lambda>x. VInt (scast x)) (nth_opt xs i)"
| "elem F (Object _ (IArray32 xs)) i = map_option (\<lambda>x. VInt (scast x)) (nth_opt xs i)"
| "elem F (Object _ (IArray64 xs)) i = map_option VInt (nth_opt xs i)"
| "elem F (Object _ (SFArray xs)) i = map_option (\<lambda>x. VFloat (f_widen F x)) (nth_opt xs i)"
| "elem F (Object _ (DFArray xs)) i = map_option VFloat (nth_opt xs i)"
| "elem F (Object _ (RArray xs)) i = map_option VRef (nth_opt xs i)"
| "elem F (Object _ (Tuple xs)) i = nth_opt xs i"
| "elem F (Object _ (LazyValue z)) i = nth_opt (lz_args z) i"
| "elem F _ i = Some VError"

definition upd_opt :: "'a list \<Rightarrow> nat \<Rightarrow> 'a \<Rightarrow> 'a list option" where
  "upd_opt xs i x = (if i < length xs then Some (xs[i := x]) else None)"

text \<open>
  \<open>set_elem\<close>: the returned \<open>bool\<close> and the changed object; \<open>None\<close> is a write beyond the end.
  A value of another type is refused before anything is written. Integers are truncated to the
  width of the array, doubles rounded to singles in single-float arrays.
\<close>

fun set_elem :: "fpu \<Rightarrow> object \<Rightarrow> nat \<Rightarrow> vm_value \<Rightarrow> (bool \<times> object) option" where
  "set_elem F (Object u (IArray8 xs)) i v = (case v of
     VInt n \<Rightarrow> map_option (\<lambda>ys. (True, Object u (IArray8 ys))) (upd_opt xs i (ucast n))
   | _ \<Rightarrow> Some (False, Object u (IArray8 xs)))"
| "set_elem F (Object u (IArray16 xs)) i v = (case v of
     VInt n \<Rightarrow> map_option (\<lambda>ys. (True, Object u (IArray16 ys))) (upd_opt xs i (ucast n))
   | _ \<Rightarrow> Some (False, Object u (IArray16 xs)))"
| "set_elem F (Object u (IArray32 xs)) i v = (case v of
     VInt n \<Rightarrow> map_option (\<lambda>ys. (True, Object u (IArray32 ys))) (upd_opt xs i (ucast n))
   | _ \<Rightarrow> Some (False, Object u (IArray32 xs)))"
| "set_elem F (Object u (IArray64 xs)) i v = (case v of
     VInt n \<Rightarrow> map_option (\<lambda>ys. (True, Object u (IArray64 ys))) (upd_opt xs i n)
   | _ \<Rightarrow> Some (False, Object u (IArray64 xs)))"
| "set_elem F (Object u (SFArray xs)) i v = (case v of
     VFloat f \<Rightarrow> map_option (\<lambda>ys. (True, Object u (SFArray ys))) (upd_opt xs i (f_narrow F f))
   | _ \<Rightarrow> Some (False, Object u (SFArray xs)))"
| "set_elem F (Object u (DFArray xs)) i v = (case v of
     VFloat f \<Rightarrow> map_option (\<lambda>ys. (True, Object u (DFArray ys))) (upd_opt xs i f)
   | _ \<Rightarrow> Some (False, Object u (DFArray xs)))"
| "set_elem F (Object u (RArray xs)) i v = (case v of
     VRef r \<Rightarrow> map_option (\<lambda>ys. (True, Object u (RArray ys))) (upd_opt xs i r)
   | _ \<Rightarrow> Some (False, Object u (RArray xs)))"
| "set_elem F (Object u (Tuple xs)) i v =
     map_option (\<lambda>ys. (True, Object u (Tuple ys))) (upd_opt xs i v)"
| "set_elem F (Object u (LazyValue z)) i v =
     map_option (\<lambda>ys. (True, Object u (LazyValue (z\<lparr>lz_args := ys\<rparr>)))) (upd_opt (lz_args z) i v)"
| "set_elem F ob i v = Some (False, ob)"

section \<open>Return values\<close>

record return_value =
  rv_i :: u64
  rv_f :: float64
  rv_r :: ref
  rv_error :: int

definition no_return_value :: return_value where
  "no_return_value = \<lparr>rv_i = 0, rv_f = 0, rv_r = RNil, rv_error = ERROR_SUCCESS\<rparr>"

fun return_value_of :: "vm_value \<Rightarrow> return_value" where
  "return_value_of (VInt i) = \<lparr>rv_i = i, rv_f = 0, rv_r = RNil, rv_error = ERROR_SUCCESS\<rparr>"
| "return_value_of (VFloat f) = \<lparr>rv_i = 0, rv_f = f, rv_r = RNil, rv_error = ERROR_SUCCESS\<rparr>"
| "return_value_of (VRef r) = \<lparr>rv_i = 0, rv_f = 0, rv_r = r, rv_error = ERROR_SUCCESS\<rparr>"
| "return_value_of (VLazy c r) =
     \<lparr>rv_i = (if c then 1 else 0), rv_f = 0, rv_r = r, rv_error = ERROR_SUCCESS\<rparr>"
| "return_value_of _ = \<lparr>rv_i = 0, rv_f = 0, rv_r = RNil, rv_error = ERROR_INCORRECT_VALUE\<rparr>"

section \<open>Properties\<close>

text \<open>C28: \<open>object_size\<close> never lies about the memory an object needs: its result, read as an unsigned
  number, is the mathematical size (header plus length times element size) when that fits into 64
  bits, and 0 exactly when the type is unknown, the length is beyond \<open>INT64_MAX\<close> or the size does
  not fit. No wrapped size ever reaches the allocator.\<close>

theorem object_size_exact:
  "unat (object_size t len) =
     (if len > 0x7fffffffffffffff then 0
      else case elem_size t of
        None \<Rightarrow> 0
      | Some es \<Rightarrow>
          (let n = unat (header_size t) + unat len * unat es in if n < 2 ^ 64 then n else 0))"
proof (cases "len > 0x7fffffffffffffff \<or> elem_size t = None")
  case True then show ?thesis by (auto simp: object_size_def)
next
  case False
  then obtain es where es: "elem_size t = Some es" and len: "\<not> len > 0x7fffffffffffffff" by auto
  show ?thesis
  proof (cases "unat len * unat es < 2 ^ 64")
    case True
    then have p: "unat (len * es) = unat len * unat es" by (simp add: unat_word_ariths)
    have ov: "es \<noteq> 0 \<Longrightarrow> (len * es) div es = len" using True mul_check [of es len] by simp
    show ?thesis
    proof (cases "unat (header_size t) + unat len * unat es < 2 ^ 64")
      case True
      then have "\<not> header_size t + len * es < (header_size t OR len * es)"
        using add_check [of "header_size t" "len * es"] p by simp
      with True show ?thesis using es len ov p
        by (auto simp: object_size_def Let_def unat_plus_if')
    next
      case False
      then have "header_size t + len * es < (header_size t OR len * es)"
        using add_check [of "header_size t" "len * es"] p by simp
      with False show ?thesis using es len ov p by (auto simp: object_size_def Let_def)
    qed
  next
    case False
    then have "es \<noteq> 0" by auto
    with False have "(len * es) div es \<noteq> len" using mul_check [of es len] by simp
    with False \<open>es \<noteq> 0\<close> show ?thesis using es len by (auto simp: object_size_def Let_def)
  qed
qed

text \<open>What an element of an object holds after a value was stored in it.\<close>

definition stored_value :: "fpu \<Rightarrow> object \<Rightarrow> vm_value \<Rightarrow> vm_value" where
  "stored_value F ob v = (case (body ob, v) of
     (IArray8 _, VInt n) \<Rightarrow> VInt (signed_take_bit 7 n)
   | (IArray16 _, VInt n) \<Rightarrow> VInt (signed_take_bit 15 n)
   | (IArray32 _, VInt n) \<Rightarrow> VInt (signed_take_bit 31 n)
   | (SFArray _, VFloat f) \<Rightarrow> VFloat (f_widen F (f_narrow F f))
   | _ \<Rightarrow> v)"

lemma scast_ucast:
  "scast (ucast (n :: u64) :: u8) = (signed_take_bit 7 n :: u64)"
  "scast (ucast (n :: u64) :: u16) = (signed_take_bit 15 n :: u64)"
  "scast (ucast (n :: u64) :: u32) = (signed_take_bit 31 n :: u64)"
  by (rule bit_word_eqI; simp add: bit_simps min_def; fail)+

lemma nth_opt_upd: "upd_opt xs i x = Some ys \<Longrightarrow> nth_opt ys j = (if j = i then Some x else nth_opt xs j)"
  by (auto simp: upd_opt_def nth_opt_def split: if_splits)

lemma upd_opt_length: "upd_opt xs i x = Some ys \<Longrightarrow> length ys = length xs"
  by (auto simp: upd_opt_def split: if_splits)

text \<open>C29: Storing a value into an object and reading the element gives the value back, sign-extended
  from the width of the array (and rounded to single precision in a single-float array); no other
  element, nor the type, the uniqueness or the length of the object changes.\<close>

theorem elem_of_set_elem:
  assumes "set_elem F ob i v = Some (True, ob')"
  shows "elem F ob' i = Some (stored_value F ob v) \<and>
    (\<forall>j. j \<noteq> i \<longrightarrow> elem F ob' j = elem F ob j) \<and>
    object_type ob' = object_type ob \<and> object_length ob' = object_length ob"
  using assms
  by (cases "(F, ob, i, v)" rule: set_elem.cases)
    (auto split: vm_value.splits simp: stored_value_def nth_opt_upd upd_opt_length scast_ucast)

lemma elem_of_set_elem_witness:
  "elem zero_fpu (Object True (IArray8 [1, 128])) 1 = Some (VInt (- 128))"
proof -
  have "set_elem zero_fpu (Object True (IArray8 [1, 2])) 1 (VInt 384)
      = Some (True, Object True (IArray8 [1, 128]))"
    by (simp add: upd_opt_def)
  from elem_of_set_elem [OF this] show ?thesis by (simp add: stored_value_def)
qed

text \<open>Equality of pairs looks at the first component only (it compares it twice).\<close>

lemma value_eq_pairs: "value_eq F (VPair a b) (VPair c d) \<longleftrightarrow> a = c"
  by (simp add: value_eq_def)

lemma is_error_iff [simp]: "is_error v \<longleftrightarrow> v = VError"
  by (cases v) (auto simp: is_error_def)

lemma return_value_of_no_error:
  "rv_error (return_value_of v) = ERROR_SUCCESS \<longleftrightarrow> value_type v = VALUE_TYPE_INT \<or>
     value_type v = VALUE_TYPE_FLOAT \<or> value_type v = VALUE_TYPE_REF \<or> is_lazy v"
  by (cases v) (auto split: if_splits)

end
