(* ===== verification/Equality_Hash.thy ===== *)
theory Equality_Hash
  imports Values
begin

unbundle bit_operations_syntax

text \<open>
  Equality and hashing of values and objects as the memoization cache uses them: \<open>equal_values\<close>,
  \<open>equal_objects\<close> and the byte counts of vm/vm.cpp, and vm/hash.cpp. Both follow references, so they
  get fuel for the depth of the object graph; a cyclic graph makes the code recurse without end.
\<close>

section \<open>Loops that stop early\<close>

primrec find_true :: "('a \<Rightarrow> bool outcome) \<Rightarrow> 'a list \<Rightarrow> bool outcome" where
  "find_true f [] = Done False"
| "find_true f (x # xs) = (case f x of Done False \<Rightarrow> find_true f xs | r \<Rightarrow> r)"

primrec collect :: "('a \<Rightarrow> 'b outcome) \<Rightarrow> 'a list \<Rightarrow> 'b list outcome" where
  "collect f [] = Done []"
| "collect f (x # xs) = (case f x of
     Done y \<Rightarrow> (case collect f xs of Done ys \<Rightarrow> Done (y # ys) | Failed \<Rightarrow> Failed | Undefined \<Rightarrow> Undefined | NoFuel \<Rightarrow> NoFuel)
   | Failed \<Rightarrow> Failed | Undefined \<Rightarrow> Undefined | NoFuel \<Rightarrow> NoFuel)"

definition map_outcome :: "('a \<Rightarrow> 'b) \<Rightarrow> 'a outcome \<Rightarrow> 'b outcome" where
  "map_outcome f r = (case r of Done x \<Rightarrow> Done (f x) | Failed \<Rightarrow> Failed | Undefined \<Rightarrow> Undefined | NoFuel \<Rightarrow> NoFuel)"

section \<open>Equality\<close>

text \<open>
  The loops over reference arrays and tuples return false at the first pair of elements that
  \<^emph>\<open>are\<close> equal. The parameter \<open>eqv\<close> is \<open>equal_values\<close>; for two different references
  it compares the objects.
\<close>

definition equal_objects_with :: "fpu \<Rightarrow> (nat \<Rightarrow> u8 list \<Rightarrow> u8 list \<Rightarrow> bool)
    \<Rightarrow> (vm_value \<Rightarrow> vm_value \<Rightarrow> bool outcome) \<Rightarrow> object \<Rightarrow> object \<Rightarrow> bool outcome" where
  "equal_objects_with F N eqv a b =
     (if object_type a \<noteq> object_type b then Done False
      else if object_length a \<noteq> object_length b then Done False
      else case (body a, body b) of
        (IArray8 xs, IArray8 ys) \<Rightarrow> Done (xs = ys)
      | (IArray16 xs, IArray16 ys) \<Rightarrow> Done (xs = ys)
      | (IArray32 xs, IArray32 ys) \<Rightarrow> Done (xs = ys)
      | (IArray64 xs, IArray64 ys) \<Rightarrow> Done (xs = ys)
      | (SFArray xs, SFArray ys) \<Rightarrow> Done (list_all2 (\<lambda>x y. f_eq F (f_widen F x) (f_widen F y)) xs ys)
      | (DFArray xs, DFArray ys) \<Rightarrow> Done (list_all2 (f_eq F) xs ys)
      | (RArray rs, RArray qs) \<Rightarrow> map_outcome Not
          (find_true (\<lambda>(r, q). if r = q then Done False else eqv (VRef r) (VRef q)) (zip rs qs))
      | (Tuple vs, Tuple ws) \<Rightarrow> map_outcome Not (find_true (\<lambda>(v, w). eqv v w) (zip vs ws))
      | (NativeObject t c bs, NativeObject t' c' bs') \<Rightarrow> Done (N c bs bs')
      | _ \<Rightarrow> Done False)"

definition equal_values_with :: "fpu \<Rightarrow> heap \<Rightarrow> (object \<Rightarrow> object \<Rightarrow> bool outcome)
    \<Rightarrow> vm_value \<Rightarrow> vm_value \<Rightarrow> bool outcome" where
  "equal_values_with F h eqo v w = (case (v, w) of
     (VInt i, VInt j) \<Rightarrow> Done (i = j)
   | (VFloat f, VFloat g) \<Rightarrow> Done (f_eq F f g)
   | (VRef r, VRef q) \<Rightarrow>
       (if r = q then Done True
        else case deref h r of None \<Rightarrow> Undefined
        | Some a \<Rightarrow> (case deref h q of None \<Rightarrow> Undefined | Some b \<Rightarrow> eqo a b))
   | _ \<Rightarrow> Done False)"

primrec equal_values :: "fpu \<Rightarrow> (nat \<Rightarrow> u8 list \<Rightarrow> u8 list \<Rightarrow> bool) \<Rightarrow> heap \<Rightarrow> nat
    \<Rightarrow> vm_value \<Rightarrow> vm_value \<Rightarrow> bool outcome" where
  "equal_values F N h 0 = (\<lambda>v w. NoFuel)"
| "equal_values F N h (Suc n) = equal_values_with F h (equal_objects_with F N (equal_values F N h n))"

definition equal_objects :: "fpu \<Rightarrow> (nat \<Rightarrow> u8 list \<Rightarrow> u8 list \<Rightarrow> bool) \<Rightarrow> heap \<Rightarrow> nat
    \<Rightarrow> object \<Rightarrow> object \<Rightarrow> bool outcome" where
  "equal_objects F N h n = equal_objects_with F N (equal_values F N h n)"

section \<open>Hashing\<close>

text \<open>\<open>next_dword\<close>: elements of \<open>w\<close> bits, sign-extended, are packed into words of 64 bits.\<close>

primrec pack :: "nat \<Rightarrow> u64 list \<Rightarrow> u64" where
  "pack w [] = 0"
| "pack w (x # xs) = x OR push_bit w (pack w xs)"

function chunks :: "nat \<Rightarrow> 'a list \<Rightarrow> 'a list list" where
  "chunks n xs = (if xs = [] \<or> n = 0 then [] else take n xs # chunks n (drop n xs))"
  by pat_completeness auto
termination by (relation "measure (\<lambda>(n, xs). length xs)") auto

declare chunks.simps [simp del]

definition dwords_of :: "nat \<Rightarrow> u64 list \<Rightarrow> u64 list" where
  "dwords_of w xs = map (pack w) (chunks (64 div w) xs)"

definition murmur_m :: u64 where "murmur_m = 0xc6a4a7935bd1e995"

definition murmur_mix :: "u64 \<Rightarrow> u64 \<Rightarrow> u64" where
  "murmur_mix h k =
     (let k = k * murmur_m; k = k XOR drop_bit 47 k; k = k * murmur_m in (h * murmur_m) XOR k)"

definition murmur_hash64a :: "u64 list \<Rightarrow> nat \<Rightarrow> u64" where
  "murmur_hash64a ks n =
     (let h = foldl murmur_mix (of_nat n) ks;
          h = h XOR drop_bit 47 h; h = h * murmur_m; h = h XOR drop_bit 47 h in h)"

text \<open>The hash function of a native class is called through an operator that returns \<open>bool\<close>.\<close>

definition native_hash :: "(nat \<Rightarrow> nat \<Rightarrow> u8 list \<Rightarrow> u64) \<Rightarrow> nat \<Rightarrow> nat \<Rightarrow> u8 list \<Rightarrow> u64" where
  "native_hash H t c bs = (if H t c bs \<noteq> 0 then 1 else 0)"

definition hash_object_with :: "(nat \<Rightarrow> nat \<Rightarrow> u8 list \<Rightarrow> u64) \<Rightarrow> (vm_value \<Rightarrow> u64 outcome)
    \<Rightarrow> object \<Rightarrow> u64 outcome" where
  "hash_object_with H hv ob =
     (if has_unique_flag ob then Done 0
      else case body ob of
        IArray8 xs \<Rightarrow> Done (murmur_hash64a (dwords_of 8 (map scast xs)) (length xs))
      | IArray16 xs \<Rightarrow> Done (murmur_hash64a (dwords_of 16 (map scast xs)) (length xs))
      | IArray32 xs \<Rightarrow> Done (murmur_hash64a (dwords_of 32 (map scast xs)) (length xs))
      | IArray64 xs \<Rightarrow> Done (murmur_hash64a xs (length xs))
      | SFArray xs \<Rightarrow> Done (murmur_hash64a (dwords_of 32 (map ucast xs)) (length xs))
      | DFArray xs \<Rightarrow> Done (murmur_hash64a xs (length xs))
      | RArray rs \<Rightarrow> map_outcome (\<lambda>ks. murmur_hash64a ks (length rs)) (collect (\<lambda>r. hv (VRef r)) rs)
      | Tuple vs \<Rightarrow> map_outcome (\<lambda>ks. murmur_hash64a ks (length vs)) (collect hv vs)
      | NativeObject t c bs \<Rightarrow> Done (native_hash H t c bs)
      | _ \<Rightarrow> Done 0)"

primrec hash_value :: "(nat \<Rightarrow> nat \<Rightarrow> u8 list \<Rightarrow> u64) \<Rightarrow> heap \<Rightarrow> nat \<Rightarrow> vm_value \<Rightarrow> u64 outcome" where
  "hash_value H h 0 = (\<lambda>v. NoFuel)"
| "hash_value H h (Suc n) = (\<lambda>v. case v of
     VInt i \<Rightarrow> Done i
   | VFloat f \<Rightarrow> Done f
   | VRef r \<Rightarrow> (case deref h r of None \<Rightarrow> Undefined | Some ob \<Rightarrow> hash_object_with H (hash_value H h n) ob)
   | _ \<Rightarrow> Done 0)"

definition hash_args :: "(nat \<Rightarrow> nat \<Rightarrow> u8 list \<Rightarrow> u64) \<Rightarrow> heap \<Rightarrow> nat \<Rightarrow> vm_value list \<Rightarrow> u64 outcome" where
  "hash_args H h n vs = map_outcome (\<lambda>ks. murmur_hash64a ks (length vs)) (collect (hash_value H h n) vs)"

section \<open>What is memoizable\<close>

text \<open>The byte counts; \<open>Done None\<close> is the result false (a value or an object of another type).\<close>

primrec sum_counts :: "('a \<Rightarrow> u64 option outcome) \<Rightarrow> 'a list \<Rightarrow> u64 \<Rightarrow> u64 option outcome" where
  "sum_counts f [] acc = Done (Some acc)"
| "sum_counts f (x # xs) acc = (case f x of Done (Some k) \<Rightarrow> sum_counts f xs (acc + k) | r \<Rightarrow> r)"

definition object_byte_count_with :: "(vm_value \<Rightarrow> u64 option outcome) \<Rightarrow> object \<Rightarrow> u64 option outcome" where
  "object_byte_count_with vc ob =
     (if has_unique_flag ob then Done None
      else case body ob of
        IArray8 xs \<Rightarrow> Done (Some (of_nat (length xs)))
      | IArray16 xs \<Rightarrow> Done (Some (of_nat (length xs) * 2))
      | IArray32 xs \<Rightarrow> Done (Some (of_nat (length xs) * 4))
      | IArray64 xs \<Rightarrow> Done (Some (of_nat (length xs) * 8))
      | SFArray xs \<Rightarrow> Done (Some (of_nat (length xs) * 4))
      | DFArray xs \<Rightarrow> Done (Some (of_nat (length xs) * 8))
      | RArray xs \<Rightarrow> Done (Some (of_nat (length xs) * 8))
      | Tuple vs \<Rightarrow> sum_counts vc vs (of_nat (length vs) * 8)
      | NativeObject _ _ _ \<Rightarrow> Done (Some 0)
      | _ \<Rightarrow> Done None)"

primrec value_byte_count :: "heap \<Rightarrow> nat \<Rightarrow> vm_value \<Rightarrow> u64 option outcome" where
  "value_byte_count h 0 = (\<lambda>v. NoFuel)"
| "value_byte_count h (Suc n) = (\<lambda>v. case v of
     VInt _ \<Rightarrow> Done (Some 8)
   | VFloat _ \<Rightarrow> Done (Some 8)
   | VRef r \<Rightarrow> (case deref h r of
         None \<Rightarrow> Undefined
       | Some ob \<Rightarrow> map_outcome (map_option ((+) 8)) (object_byte_count_with (value_byte_count h n) ob))
   | _ \<Rightarrow> Done None)"

definition arg_byte_count :: "heap \<Rightarrow> nat \<Rightarrow> vm_value \<Rightarrow> u64 option outcome" where
  "arg_byte_count h n v = (case value_is_unique h v of
     None \<Rightarrow> Undefined
   | Some True \<Rightarrow> Done None
   | Some False \<Rightarrow> value_byte_count h n v)"

definition small_enough :: "u64 option \<Rightarrow> bool" where
  "small_enough k = (case k of None \<Rightarrow> False | Some k \<Rightarrow> \<not> k > 256)"

definition are_memoizable_fun_args :: "heap \<Rightarrow> nat \<Rightarrow> vm_value list \<Rightarrow> bool outcome" where
  "are_memoizable_fun_args h n vs = map_outcome small_enough (sum_counts (arg_byte_count h n) vs 0)"

definition is_memoizable_fun_result :: "heap \<Rightarrow> nat \<Rightarrow> vm_value \<Rightarrow> bool outcome" where
  "is_memoizable_fun_result h n v = map_outcome small_enough (arg_byte_count h n v)"

end
