(* ===== verification/Thread_Context.thy ===== *)
theory Thread_Context
  imports Opcode Equality_Hash
begin

text \<open>
  The thread context (class \<open>ThreadContext\<close> of vm/vm.hpp and vm/vm.cpp): the registers, the
  argument and variable stack with its frames, the expression stack, the heap of the garbage collector
  and the stack traces. A method returning \<open>bool\<close> is a state-passing function that is
  \<open>Done ()\<close> for true and \<open>Failed\<close> for false; a read or write outside of a stack is
  \<open>Undefined\<close>.
\<close>

section \<open>Programs\<close>

record instruction =
  i_opcode :: u32
  i_arg1 :: u32
  i_arg2 :: u32

record func =
  f_arg_count :: nat
  f_instrs :: "instruction list option" \<comment> \<open>\<open>None\<close>: the null pointer of an unset function\<close>

record stack_trace_elem =
  ste_has_native_fun :: bool
  ste_fun :: u64
  ste_fun_name :: "string option"
  ste_instr :: u32

section \<open>State\<close>

text \<open>A location a C++ reference to a value can point to: a stack, the two temporary expression
  values, or an automatic variable of an active C++ function.\<close>

datatype loc = LStack nat | LExpr nat | LTmp nat | LLocal nat

record registers =
  abp :: nat
  ac :: nat
  lvc :: nat
  abp2 :: nat
  ac2 :: nat
  sec :: nat
  evbp :: nat
  evc :: nat
  esec :: nat
  nfbp :: nat
  enfbp :: nat
  fp :: u64
  ip :: u32
  rv :: return_value
  ai :: u64
  gc_tmp_ptr :: "nat option"
  tmp_r :: ref
  alf0 :: bool \<comment> \<open>\<open>after_leaving_flags[0]\<close>\<close>
  alf1 :: bool \<comment> \<open>\<open>after_leaving_flags[1]\<close>\<close>
  alf_index :: nat
  tmp_ac2 :: nat
  arg_instr_flag :: bool
  cached_fun_result_flag :: nat
  try_flag :: bool
  try_catch_flag :: bool
  try_abp :: nat
  try_ac :: nat
  try_arg2 :: "vm_value"
  try_io_r :: ref
  try_catch_error :: int
  try_catch_r :: ref
  force_tmp_rv :: return_value
  force_tmp_r :: ref
  force_tmp_r2 :: ref
  force_tmp_rv2 :: return_value
  cancelation_undo :: "loc list" \<comment> \<open>\<open>cancelation_undo_types\<close>; its length is \<open>cutc\<close>\<close>
  tmp_expr_values :: "vm_value list"

text \<open>The results of one function in the memoization cache: three hash tables, or nil.\<close>

record function_result_cache =
  frc_is :: ref
  frc_fs :: ref
  frc_rs :: ref

record ctx =
  regs :: registers
  stack :: "vm_value list"
  expr_stack :: "vm_value list"
  heap :: heap
  autos :: "vm_value list" \<comment> \<open>automatic variables of active C++ functions\<close>
  registered :: "ref list" \<comment> \<open>the list of registered references\<close>
  fun_results :: "function_result_cache list"
  cache_bucket_count :: nat
  stack_trace :: "stack_trace_elem list option"
  try_catch_stack_trace :: "stack_trace_elem list option"

definition FP_NONE :: u64 where "FP_NONE = - 1"

type_synonym 'a act = "(ctx, 'a) m"

text \<open>
  The environment of a thread: the loaded program (constant while it runs), the evaluation strategy,
  and what the code takes from outside. \<open>e_alloc\<close> says whether the allocator finds memory for
  the object with that number and size, \<open>e_junk\<close> what uninitialised memory holds.
  \<open>e_native\<close> is the native function handler: it gets the number of the function and the base
  and the count of its arguments on the stack, and may call the virtual machine back.
\<close>

datatype strategy = EagerStrategy | LazyStrategy | MemoStrategy | MemoLazyStrategy | FunStrategy

record fun_triple =
  eval_strategy_fun_index :: nat
  eval_strategy_fun_index_for_force :: nat
  eval_strategy :: nat

datatype native_result = NReturned return_value | NBadAlloc | NException

text \<open>Where \<open>fully_force_value\<close> stores the copy of an object (its argument \<open>fun\<close>).\<close>

datatype sink = SForceTmp | SForceTmp2 | SElem ref nat

text \<open>The functions of the virtual machine that call each other recursively.\<close>

record callbacks =
  cb_interpret :: "unit act"
  cb_force_value :: "loc \<Rightarrow> bool \<Rightarrow> unit act"
  cb_fully_force_value :: "loc \<Rightarrow> sink \<Rightarrow> unit act"
  cb_resume_force :: "loc \<Rightarrow> unit act"

record env =
  e_funs :: "func list"
  e_global_vars :: "vm_value list"
  e_fun_symbols :: "u64 \<Rightarrow> string option"
  e_native_fun_symbols :: "int \<Rightarrow> string option"
  e_fpu :: fpu
  e_alloc :: "nat \<Rightarrow> u64 \<Rightarrow> bool"
  e_junk :: "nat \<Rightarrow> nat \<Rightarrow> u64"
  e_strategy :: strategy
  e_fun_triples :: "fun_triple list"
  e_native :: "callbacks \<Rightarrow> int \<Rightarrow> nat \<Rightarrow> nat \<Rightarrow> native_result act"
  e_native_equal :: "nat \<Rightarrow> u8 list \<Rightarrow> u8 list \<Rightarrow> bool"
  e_native_hash :: "nat \<Rightarrow> nat \<Rightarrow> u8 list \<Rightarrow> u64"

definition set_regs :: "(registers \<Rightarrow> registers) \<Rightarrow> unit act" where
  "set_regs f = modify (\<lambda>s. s\<lparr>regs := f (regs s)\<rparr>)"

definition get_stack :: "nat \<Rightarrow> vm_value act" where
  "get_stack i = (\<lambda>s. if i < length (stack s) then (Done (stack s ! i), s) else (Undefined, s))"

definition put_stack :: "nat \<Rightarrow> vm_value \<Rightarrow> unit act" where
  "put_stack i v = (\<lambda>s. if i < length (stack s)
     then (Done (), s\<lparr>stack := (stack s)[i := v]\<rparr>) else (Undefined, s))"

definition get_expr_stack :: "nat \<Rightarrow> vm_value act" where
  "get_expr_stack i = (\<lambda>s. if i < length (expr_stack s) then (Done (expr_stack s ! i), s) else (Undefined, s))"

definition put_expr_stack :: "nat \<Rightarrow> vm_value \<Rightarrow> unit act" where
  "put_expr_stack i v = (\<lambda>s. if i < length (expr_stack s)
     then (Done (), s\<lparr>expr_stack := (expr_stack s)[i := v]\<rparr>) else (Undefined, s))"

definition deref_m :: "ref \<Rightarrow> object act" where
  "deref_m r = (\<lambda>s. case deref (heap s) r of Some ob \<Rightarrow> (Done ob, s) | None \<Rightarrow> (Undefined, s))"

text \<open>Writing through a reference; the static nil object is never written by the code.\<close>

definition put_object :: "ref \<Rightarrow> object \<Rightarrow> unit act" where
  "put_object r ob = (\<lambda>s. case r of
     RAddr a \<Rightarrow> (if a < length (heap s) then (Done (), s\<lparr>heap := (heap s)[a := ob]\<rparr>) else (Undefined, s))
   | _ \<Rightarrow> (Undefined, s))"

lemma set_regs_run [run]: "set_regs f s = (Done (), s\<lparr>regs := f (regs s)\<rparr>)"
  by (simp add: set_regs_def run)
lemma get_stack_run [run]:
  "get_stack i s = (if i < length (stack s) then (Done (stack s ! i), s) else (Undefined, s))"
  by (simp add: get_stack_def)
lemma put_stack_run [run]:
  "put_stack i v s = (if i < length (stack s)
     then (Done (), s\<lparr>stack := (stack s)[i := v]\<rparr>) else (Undefined, s))"
  by (simp add: put_stack_def)
lemma get_expr_stack_run [run]:
  "get_expr_stack i s = (if i < length (expr_stack s) then (Done (expr_stack s ! i), s) else (Undefined, s))"
  by (simp add: get_expr_stack_def)
lemma put_expr_stack_run [run]:
  "put_expr_stack i v s = (if i < length (expr_stack s)
     then (Done (), s\<lparr>expr_stack := (expr_stack s)[i := v]\<rparr>) else (Undefined, s))"
  by (simp add: put_expr_stack_def)

section \<open>Arguments and local variables\<close>

definition lvbp :: "registers \<Rightarrow> nat" where
  "lvbp r = abp r + ac r + 4"

definition push_local_var :: "vm_value \<Rightarrow> unit act" where
  "push_local_var v = bindM (reading regs) (\<lambda>r. bindM (reading (\<lambda>s. length (stack s))) (\<lambda>size.
     if abp2 r < size
     then seqM (put_stack (abp2 r) v)
       (set_regs (\<lambda>r. r\<lparr>abp2 := add32 (abp2 r) 1, ac2 := 0, sec := add32 (abp2 r) 1\<rparr>))
     else fail))"

definition push_arg :: "vm_value \<Rightarrow> unit act" where
  "push_arg v = bindM (reading regs) (\<lambda>r. bindM (reading (\<lambda>s. length (stack s))) (\<lambda>size.
     if add32 (abp2 r) (ac2 r) < size
     then seqM (put_stack (add32 (abp2 r) (ac2 r)) v)
       (set_regs (\<lambda>r. r\<lparr>ac2 := add32 (ac2 r) 1, sec := add32 (sec r) 1\<rparr>))
     else fail))"

definition pop_args :: "unit act" where
  "pop_args = set_regs (\<lambda>r. r\<lparr>ac2 := 0, sec := abp2 r\<rparr>)"

definition pop_args_and_local_vars :: "unit act" where
  "pop_args_and_local_vars = set_regs (\<lambda>r. r\<lparr>abp2 := lvbp r, lvc := 0, ac2 := 0, sec := lvbp r\<rparr>)"

definition in_instr :: "unit act" where
  "in_instr = set_regs (\<lambda>r. r\<lparr>lvc := sub32 (abp2 r) (lvbp r)\<rparr>)"

definition hide_args :: "unit act" where
  "hide_args = set_regs (\<lambda>r. r\<lparr>tmp_ac2 := ac2 r, abp2 := add32 (abp2 r) (ac2 r), ac2 := 0\<rparr>)"

definition restore_abp2_and_ac2 :: "unit act" where
  "restore_abp2_and_ac2 = set_regs (\<lambda>r. r\<lparr>abp2 := sub32 (abp2 r) (tmp_ac2 r), ac2 := tmp_ac2 r,
     sec := add32 (sub32 (abp2 r) (tmp_ac2 r)) (tmp_ac2 r)\<rparr>)"

section \<open>Frames\<close>

definition u32_of :: "nat \<Rightarrow> u32" where "u32_of n = of_nat n"

text \<open>The third word of a frame: the function, the index of the after-leaving flag, the cache flag.\<close>

definition frame_word :: "u64 \<Rightarrow> nat \<Rightarrow> nat \<Rightarrow> u64" where
  "frame_word p i c = push_bit 8 p OR of_nat (i mod 2) OR push_bit 1 (of_nat (c mod 2))"

definition enter_to_fun :: "nat \<Rightarrow> unit act" where
  "enter_to_fun i = bindM (reading regs) (\<lambda>r. bindM (reading (\<lambda>s. length (stack s))) (\<lambda>size.
     let fbp = add32 (abp2 r) (ac2 r) in
     if add32 fbp 4 < size
     then seqM (put_stack fbp (VPair (u32_of (abp r)) (u32_of (ac r))))
       (seqM (put_stack (fbp + 1) (VPair (u32_of (lvc r)) (ip r - 1)))
       (seqM (put_stack (fbp + 2) (VInt (frame_word (fp r) (alf_index r) (cached_fun_result_flag r))))
       (seqM (put_stack (fbp + 3) (VPair (u32_of (evbp r)) (u32_of (evc r))))
         (set_regs (\<lambda>r. r\<lparr>abp := abp2 r, ac := ac2 r, abp2 := abp2 r + ac2 r + 4, lvc := 0, ac2 := 0,
            sec := abp2 r + ac2 r + 4, evbp := add32 (evbp r) (evc r), evc := 0,
            esec := add32 (evbp r) (evc r), fp := of_nat i, ip := 0,
            alf0 := False, alf1 := False, alf_index := 0\<rparr>)))))
     else fail))"

text \<open>The four words of a frame, and their types as \<open>leave_from_fun\<close> tests them.\<close>

definition is_frame :: "vm_value list \<Rightarrow> nat \<Rightarrow> bool" where
  "is_frame st fbp \<longleftrightarrow> fbp + 4 < length st \<and>
     value_type (st ! fbp) = VALUE_TYPE_PAIR \<and>
     value_type (st ! (fbp + 1)) = VALUE_TYPE_PAIR \<and>
     value_type (st ! (fbp + 2)) = VALUE_TYPE_INT \<and>
     value_type (st ! (fbp + 3)) = VALUE_TYPE_PAIR"

fun pair_first :: "vm_value \<Rightarrow> nat" where
  "pair_first (VPair x y) = unat x"
| "pair_first _ = 0"

fun pair_second :: "vm_value \<Rightarrow> u32" where
  "pair_second (VPair x y) = y"
| "pair_second _ = 0"

definition leave_from_fun :: "unit act" where
  "leave_from_fun = bindM (reading regs) (\<lambda>r. bindM (reading stack) (\<lambda>st.
     let fbp = add32 (abp r) (ac r) in
     if is_frame st fbp
     then set_regs (\<lambda>r.
       let w = value_i (st ! (fbp + 2));
           idx = unat (w AND 1);
           evb = pair_first (st ! (fbp + 3));
           ev = unat (pair_second (st ! (fbp + 3)))
       in r\<lparr>abp2 := abp r, ac2 := ac r,
           abp := pair_first (st ! fbp), ac := unat (pair_second (st ! fbp)),
           lvc := pair_first (st ! (fbp + 1)), sec := abp r, ip := pair_second (st ! (fbp + 1)),
           fp := signed_drop_bit 8 w, alf_index := idx,
           alf0 := (if idx = 0 then True else alf0 r), alf1 := (if idx = 1 then True else alf1 r),
           cached_fun_result_flag := unat (drop_bit 1 w AND 1),
           evbp := evb, evc := ev, esec := add32 evb ev\<rparr>)
     else fail))"

section \<open>A new thread\<close>

text \<open>The constructor of \<open>ThreadContext\<close>.\<close>

definition initial_regs :: registers where
  "initial_regs = \<lparr>abp = 0, ac = 0, lvc = 0, abp2 = 0, ac2 = 0, sec = 0, evbp = 0, evc = 0, esec = 0,
     nfbp = 0, enfbp = 0, fp = FP_NONE, ip = 0, rv = no_return_value, ai = 0, gc_tmp_ptr = None,
     tmp_r = RNil, alf0 = False, alf1 = False, alf_index = 0, tmp_ac2 = 0, arg_instr_flag = False,
     cached_fun_result_flag = 0, try_flag = False, try_catch_flag = False, try_abp = 0, try_ac = 0,
     try_arg2 = VError, try_io_r = RNil, try_catch_error = ERROR_SUCCESS, try_catch_r = RNil,
     force_tmp_rv = no_return_value, force_tmp_r = RNil, force_tmp_r2 = RNil,
     force_tmp_rv2 = no_return_value, cancelation_undo = [], tmp_expr_values = [VError, VError]\<rparr>"

definition new_thread_context :: "nat \<Rightarrow> nat \<Rightarrow> heap \<Rightarrow> ctx" where
  "new_thread_context stack_size expr_stack_size h = \<lparr>regs = initial_regs,
     stack = replicate stack_size VError, expr_stack = replicate expr_stack_size VError, heap = h,
     autos = [], registered = [], fun_results = [], cache_bucket_count = 0,
     stack_trace = None, try_catch_stack_trace = None\<rparr>"

section \<open>Calls and returns\<close>

lemma mod2_word: "(of_nat (n mod 2) :: 'a::len word) = of_bool (odd n)"
  by (cases "even n") (simp_all add: odd_iff_mod_2_eq_one)

lemma frame_word_bits: "bit (frame_word p i c) n \<longleftrightarrow>
  (if n = 0 then odd i else if n = 1 then odd c else n < 64 \<and> 8 \<le> n \<and> bit p (n - 8))"
  by (auto simp: frame_word_def mod2_word bit_simps)

lemma frame_word_fields:
  "unat (frame_word p i c AND 1) = i mod 2"
  "unat (drop_bit 1 (frame_word p i c) AND 1) = c mod 2"
  "signed_drop_bit 8 (frame_word p i c) = signed_take_bit 55 p"
proof -
  have "frame_word p i c AND 1 = of_nat (i mod 2)"
    by (rule bit_word_eqI) (auto simp: bit_simps frame_word_bits mod2_word)
  then show "unat (frame_word p i c AND 1) = i mod 2" by (simp add: mod2_word odd_iff_mod_2_eq_one)
  have "drop_bit 1 (frame_word p i c) AND 1 = of_nat (c mod 2)"
    by (rule bit_word_eqI) (auto simp: bit_simps frame_word_bits mod2_word)
  then show "unat (drop_bit 1 (frame_word p i c) AND 1) = c mod 2" by (simp add: mod2_word odd_iff_mod_2_eq_one)
  show "signed_drop_bit 8 (frame_word p i c) = signed_take_bit 55 p"
  proof (rule bit_word_eqI)
    fix n assume "n < LENGTH(64)"
    then show "bit (signed_drop_bit 8 (frame_word p i c)) n \<longleftrightarrow> bit (signed_take_bit 55 p) n"
      by (cases "n = 55") (auto simp: bit_simps frame_word_bits min_def)
  qed
qed

text \<open>The registers of a running thread fit their machine types.\<close>

definition regs_fit :: "registers \<Rightarrow> bool" where
  "regs_fit r \<longleftrightarrow> abp r < 2 ^ 32 \<and> ac r < 2 ^ 32 \<and> lvc r < 2 ^ 32 \<and> abp2 r < 2 ^ 32 \<and> ac2 r < 2 ^ 32 \<and>
     sec r < 2 ^ 32 \<and> evbp r < 2 ^ 32 \<and> evc r < 2 ^ 32 \<and> evbp r + evc r < 2 ^ 32 \<and>
     alf_index r < 2 \<and> cached_fun_result_flag r < 2 \<and> signed_take_bit 55 (fp r) = fp r"


lemma unat_u32_of [simp]: "n < 2 ^ 32 \<Longrightarrow> unat (u32_of n) = n"
  by (simp add: u32_of_def)

definition frame_written :: "registers \<Rightarrow> nat \<Rightarrow> vm_value list \<Rightarrow> vm_value list" where
  "frame_written r b st = st[b := VPair (u32_of (abp r)) (u32_of (ac r)),
     b + 1 := VPair (u32_of (lvc r)) (ip r - 1),
     b + 2 := VInt (frame_word (fp r) (alf_index r) (cached_fun_result_flag r)),
     b + 3 := VPair (u32_of (evbp r)) (u32_of (evc r))]"

definition entered_regs :: "nat \<Rightarrow> registers \<Rightarrow> registers" where
  "entered_regs i r = r\<lparr>abp := abp2 r, ac := ac2 r, abp2 := abp2 r + ac2 r + 4, lvc := 0, ac2 := 0,
     sec := abp2 r + ac2 r + 4, evbp := add32 (evbp r) (evc r), evc := 0,
     esec := add32 (evbp r) (evc r), fp := of_nat i, ip := 0,
     alf0 := False, alf1 := False, alf_index := 0\<rparr>"

lemma enter_to_fun_run:
  assumes "abp2 (regs s) + ac2 (regs s) + 4 < length (stack s)" "length (stack s) \<le> 2 ^ 32"
  shows "enter_to_fun i s = (Done (), s\<lparr>stack := frame_written (regs s) (abp2 (regs s) + ac2 (regs s)) (stack s),
     regs := entered_regs i (regs s)\<rparr>)"
  using assms by (simp add: enter_to_fun_def run Let_def frame_written_def entered_regs_def)

definition left_regs :: "vm_value list \<Rightarrow> nat \<Rightarrow> registers \<Rightarrow> registers" where
  "left_regs st b r = (let w = value_i (st ! (b + 2));
           idx = unat (w AND 1);
           evb = pair_first (st ! (b + 3));
           ev = unat (pair_second (st ! (b + 3)))
       in r\<lparr>abp2 := abp r, ac2 := ac r,
           abp := pair_first (st ! b), ac := unat (pair_second (st ! b)),
           lvc := pair_first (st ! (b + 1)), sec := abp r, ip := pair_second (st ! (b + 1)),
           fp := signed_drop_bit 8 w, alf_index := idx,
           alf0 := (if idx = 0 then True else alf0 r), alf1 := (if idx = 1 then True else alf1 r),
           cached_fun_result_flag := unat (drop_bit 1 w AND 1),
           evbp := evb, evc := ev, esec := add32 evb ev\<rparr>)"

lemma leave_from_fun_run:
  "leave_from_fun s = (let b = add32 (abp (regs s)) (ac (regs s)) in
     if is_frame (stack s) b then (Done (), s\<lparr>regs := left_regs (stack s) b (regs s)\<rparr>) else (Failed, s))"
  by (simp add: leave_from_fun_def run Let_def left_regs_def)

definition same_frame :: "vm_value list \<Rightarrow> vm_value list \<Rightarrow> nat \<Rightarrow> bool" where
  "same_frame st st' b \<longleftrightarrow> length st = length st' \<and> (\<forall>i < 4. st ! (b + i) = st' ! (b + i))"

lemma frame_written_nth:
  assumes "b + 4 < length st"
  shows "frame_written r b st ! b = VPair (u32_of (abp r)) (u32_of (ac r))"
    "frame_written r b st ! (b + 1) = VPair (u32_of (lvc r)) (ip r - 1)"
    "frame_written r b st ! (b + 2) = VInt (frame_word (fp r) (alf_index r) (cached_fun_result_flag r))"
    "frame_written r b st ! (b + 3) = VPair (u32_of (evbp r)) (u32_of (evc r))"
    "length (frame_written r b st) = length st"
  using assms by (simp_all add: frame_written_def)

lemma same_frame_nth:
  assumes "same_frame st (frame_written r b st0) b" "b + 4 < length st0"
  shows "st ! b = VPair (u32_of (abp r)) (u32_of (ac r))"
    "st ! (b + 1) = VPair (u32_of (lvc r)) (ip r - 1)"
    "st ! (b + 2) = VInt (frame_word (fp r) (alf_index r) (cached_fun_result_flag r))"
    "st ! (b + 3) = VPair (u32_of (evbp r)) (u32_of (evc r))"
    "length st = length st0"
proof -
  have *: "length st = length (frame_written r b st0)" "\<And>i. i < 4 \<Longrightarrow> st ! (b + i) = frame_written r b st0 ! (b + i)"
    using assms(1) by (simp_all add: same_frame_def)
  note nth = frame_written_nth [OF assms(2), of r]
  show "length st = length st0" using *(1) nth(5) by simp
  show "st ! b = VPair (u32_of (abp r)) (u32_of (ac r))" using *(2) [of 0] nth(1) by simp
  show "st ! (b + 1) = VPair (u32_of (lvc r)) (ip r - 1)" using *(2) [of 1] nth(2) by simp
  show "st ! (b + 2) = VInt (frame_word (fp r) (alf_index r) (cached_fun_result_flag r))"
    using *(2) [of 2] nth(3) by simp
  show "st ! (b + 3) = VPair (u32_of (evbp r)) (u32_of (evc r))" using *(2) [of 3] nth(4) by simp
qed

text \<open>What \<open>leave_from_fun\<close> gives back to the caller.\<close>

definition caller_regs :: "registers \<Rightarrow> registers \<Rightarrow> registers" where
  "caller_regs r q = q\<lparr>abp := abp r, ac := ac r, lvc := lvc r, abp2 := abp2 r, ac2 := ac2 r, sec := abp2 r,
     evbp := evbp r, evc := evc r, esec := evbp r + evc r, fp := fp r, ip := ip r - 1,
     alf_index := alf_index r, alf0 := (alf_index r = 0 \<or> alf0 q), alf1 := (alf_index r = 1 \<or> alf1 q),
     cached_fun_result_flag := cached_fun_result_flag r\<rparr>"

text \<open>C19: A return undoes the call. If a thread enters a function and the callee, whatever else it
  does to registers, stack, heap and expression stack, leaves its own argument window and the four
  frame words over it alone, then \<open>leave_from_fun\<close> succeeds and gives the caller back its argument
  window, local variables, pushed arguments, expression window, function and cache flag; the instruction
  pointer goes back to the calling instruction (which is run again), and exactly the after-leaving flag the
  caller had chosen is raised.\<close>

theorem leave_after_enter:
  assumes fit: "regs_fit (regs s)"
    and room: "abp2 (regs s) + ac2 (regs s) + 4 < length (stack s)" "length (stack s) \<le> 2 ^ 32"
    and entered: "enter_to_fun i s = (Done (), t)"
    and callee: "abp (regs u) = abp (regs t)" "ac (regs u) = ac (regs t)"
      "same_frame (stack u) (stack t) (abp (regs t) + ac (regs t))"
  shows "leave_from_fun u = (Done (), u\<lparr>regs := caller_regs (regs s) (regs u)\<rparr>)"
proof -
  let ?r = "regs s"
  let ?b = "abp2 ?r + ac2 ?r"
  have t: "t = s\<lparr>stack := frame_written ?r ?b (stack s), regs := entered_regs i ?r\<rparr>"
    using entered enter_to_fun_run [OF room] by simp
  have b: "abp (regs t) = abp2 ?r" "ac (regs t) = ac2 ?r" "add32 (abp2 ?r) (ac2 ?r) = ?b"
    using room by (simp_all add: t entered_regs_def)
  have "same_frame (stack u) (frame_written ?r ?b (stack s)) ?b" using callee(3) b by (simp add: t)
  note st = same_frame_nth [OF this room(1)] same_frame_nth [OF this room(1), simplified]
  have "is_frame (stack u) ?b" using room(1) st by (simp add: is_frame_def)
  moreover have "left_regs (stack u) ?b (regs u) = caller_regs ?r (regs u)"
    using fit by (simp add: left_regs_def st frame_word_fields frame_word_fields [simplified] callee b caller_regs_def Let_def regs_fit_def)
  ultimately show ?thesis by (simp add: leave_from_fun_run callee b)
qed
lemma leave_after_enter_witness:
  "leave_from_fun ((new_thread_context 8 1 [])\<lparr>
       stack := [VPair 0 0, VPair 0 (- 1), VInt (- 256), VPair 0 0, VInt 7, VError, VError, VError],
       regs := entered_regs 3 initial_regs\<rparr>) =
   (Done (), (new_thread_context 8 1 [])\<lparr>
       stack := [VPair 0 0, VPair 0 (- 1), VInt (- 256), VPair 0 0, VInt 7, VError, VError, VError],
       regs := caller_regs initial_regs (entered_regs 3 initial_regs)\<rparr>)"
proof -
  let ?s = "new_thread_context 8 1 []"
  let ?st = "[VPair 0 0, VPair 0 (- 1), VInt (- 256), VPair 0 0, VInt 7, VError, VError, VError]"
  let ?u = "?s\<lparr>stack := ?st, regs := entered_regs 3 initial_regs\<rparr>"
  have fit: "regs_fit (regs ?s)"
    by (simp add: new_thread_context_def initial_regs_def regs_fit_def FP_NONE_def)
  have room: "abp2 (regs ?s) + ac2 (regs ?s) + 4 < length (stack ?s)" "length (stack ?s) \<le> 2 ^ 32"
    by (simp_all add: new_thread_context_def initial_regs_def)
  let ?t = "?s\<lparr>stack := frame_written initial_regs 0 (replicate 8 VError), regs := entered_regs 3 initial_regs\<rparr>"
  have entered: "enter_to_fun 3 ?s = (Done (), ?t)"
    using enter_to_fun_run [OF room] by (simp add: new_thread_context_def initial_regs_def)
  have rep: "replicate 8 VError = [VError, VError, VError, VError, VError, VError, VError, VError]"
    by (simp add: numeral_eq_Suc)
  have "frame_written initial_regs 0 (replicate 8 VError) =
      [VPair 0 0, VPair 0 (- 1), VInt (- 256), VPair 0 0, VError, VError, VError, VError]"
    unfolding rep by (simp add: mask_eq_exp_minus_1 frame_written_def initial_regs_def frame_word_def FP_NONE_def u32_of_def)
  moreover have "i < 4 \<Longrightarrow> ?st ! i = [VPair 0 0, VPair 0 (- 1), VInt (- 256), VPair 0 0, VError, VError, VError, VError] ! i" for i :: nat
    by (simp add: less_Suc_eq numeral_eq_Suc) (elim disjE; simp)
  ultimately have "same_frame (stack ?u) (stack ?t) (abp (regs ?t) + ac (regs ?t))"
    by (simp add: same_frame_def initial_regs_def entered_regs_def)
  from leave_after_enter [OF fit room entered _ _ this]
  show ?thesis by (simp add: new_thread_context_def)
qed

end
