(* ===== verification/Thread_Unwind.thy ===== *)
theory Thread_Unwind
  imports Thread_Context
begin

unbundle bit_operations_syntax

text \<open>
  The other operations of \<open>ThreadContext\<close>: the words that are pushed over the local variables
  while a lazy value is forced or a try block runs, the expression stack, the allocation of objects
  through the garbage collector, errors with the unwinding of the stack and its stack trace, and
  the registers saved around a native function.
\<close>

section \<open>Locations\<close>

definition get_tmp :: "nat \<Rightarrow> vm_value act" where
  "get_tmp j = (\<lambda>s. if j < length (tmp_expr_values (regs s))
     then (Done (tmp_expr_values (regs s) ! j), s) else (Undefined, s))"

definition put_tmp :: "nat \<Rightarrow> vm_value \<Rightarrow> unit act" where
  "put_tmp j v = (\<lambda>s. if j < length (tmp_expr_values (regs s))
     then (Done (), s\<lparr>regs := (regs s)\<lparr>tmp_expr_values := (tmp_expr_values (regs s))[j := v]\<rparr>\<rparr>)
     else (Undefined, s))"

definition get_auto :: "nat \<Rightarrow> vm_value act" where
  "get_auto k = (\<lambda>s. if k < length (autos s) then (Done (autos s ! k), s) else (Undefined, s))"

definition put_auto :: "nat \<Rightarrow> vm_value \<Rightarrow> unit act" where
  "put_auto k v = (\<lambda>s. if k < length (autos s)
     then (Done (), s\<lparr>autos := (autos s)[k := v]\<rparr>) else (Undefined, s))"

fun get_loc :: "loc \<Rightarrow> vm_value act" where
  "get_loc (LStack i) = get_stack i"
| "get_loc (LExpr i) = get_expr_stack i"
| "get_loc (LTmp j) = get_tmp j"
| "get_loc (LLocal k) = get_auto k"

fun put_loc :: "loc \<Rightarrow> vm_value \<Rightarrow> unit act" where
  "put_loc (LStack i) v = put_stack i v"
| "put_loc (LExpr i) v = put_expr_stack i v"
| "put_loc (LTmp j) v = put_tmp j v"
| "put_loc (LLocal k) v = put_auto k v"

text \<open>An automatic variable of type \<open>Value\<close> that is handed on by reference.\<close>

definition with_local :: "vm_value \<Rightarrow> (loc \<Rightarrow> 'a act) \<Rightarrow> 'a act" where
  "with_local v f = (\<lambda>s. let (r, t) = f (LLocal (length (autos s))) (s\<lparr>autos := autos s @ [v]\<rparr>)
     in (r, t\<lparr>autos := take (length (autos s)) (autos t)\<rparr>))"

definition arg_loc :: "registers \<Rightarrow> nat \<Rightarrow> loc" where
  "arg_loc r i = LStack (abp r + i)"

definition local_var_loc :: "registers \<Rightarrow> nat \<Rightarrow> loc" where
  "local_var_loc r i = LStack (lvbp r + i)"

definition pushed_arg_loc :: "registers \<Rightarrow> nat \<Rightarrow> loc" where
  "pushed_arg_loc r i = LStack (abp2 r + i)"

section \<open>Words pushed over the local variables\<close>

definition push_tmp_ac2 :: "unit act" where
  "push_tmp_ac2 = bindM (reading regs) (\<lambda>r. push_local_var (VInt (of_nat (tmp_ac2 r))))"

definition u32_of_value :: "vm_value \<Rightarrow> nat" where
  "u32_of_value v = unat (ucast (value_i v) :: u32)"

definition pop_tmp_ac2 :: "unit act" where
  "pop_tmp_ac2 = bindM (reading regs) (\<lambda>r.
     if abp2 r > 0
     then bindM (get_stack (abp2 r - 1)) (\<lambda>v.
       if value_type v = VALUE_TYPE_INT
       then set_regs (\<lambda>r. r\<lparr>sec := sub32 (sec r) 1, abp2 := sub32 (abp2 r) 1, tmp_ac2 := u32_of_value v\<rparr>)
       else fail)
     else fail)"

definition push_tmp_ac2_and_after_leaving_flag1 :: "unit act" where
  "push_tmp_ac2_and_after_leaving_flag1 = bindM (reading regs) (\<lambda>r.
     push_local_var (VPair (u32_of (tmp_ac2 r)) (if alf0 r then 1 else 0)))"

definition pop_tmp_ac2_and_after_leaving_flag1 :: "unit act" where
  "pop_tmp_ac2_and_after_leaving_flag1 = bindM (reading regs) (\<lambda>r.
     if abp2 r > 0
     then bindM (get_stack (abp2 r - 1)) (\<lambda>v.
       if value_type v = VALUE_TYPE_PAIR
       then set_regs (\<lambda>r. r\<lparr>sec := sub32 (sec r) 1, abp2 := sub32 (abp2 r) 1,
         tmp_ac2 := pair_first v, alf0 := (pair_second v \<noteq> 0)\<rparr>)
       else fail)
     else fail)"

definition push_ai :: "unit act" where
  "push_ai = bindM (reading regs) (\<lambda>r. push_local_var (VInt (ai r)))"

definition pop_ai :: "unit act" where
  "pop_ai = bindM (reading regs) (\<lambda>r.
     if abp2 r > 0
     then bindM (get_stack (abp2 r - 1)) (\<lambda>v.
       if value_type v = VALUE_TYPE_INT
       then set_regs (\<lambda>r. r\<lparr>sec := sub32 (sec r) 1, abp2 := sub32 (abp2 r) 1, ai := value_i v\<rparr>)
       else fail)
     else fail)"

definition push_locked_lazy_value_ref :: "ref \<Rightarrow> unit act" where
  "push_locked_lazy_value_ref q = push_local_var (VLocked q)"

definition pop_locked_lazy_value_ref :: "unit act" where
  "pop_locked_lazy_value_ref = bindM (reading regs) (\<lambda>r.
     if abp2 r > 0
     then bindM (get_stack (abp2 r - 1)) (\<lambda>v.
       if value_type v = VALUE_TYPE_LOCKED_LAZY_VALUE_REF
       then set_regs (\<lambda>r. r\<lparr>sec := sub32 (sec r) 1, abp2 := sub32 (abp2 r) 1\<rparr>)
       else fail)
     else fail)"

definition get_locked_lazy_value_ref :: "ref act" where
  "get_locked_lazy_value_ref = bindM (reading regs) (\<lambda>r.
     if abp2 r > 0
     then bindM (get_stack (abp2 r - 1)) (\<lambda>v. case v of VLocked q \<Rightarrow> ret q | _ \<Rightarrow> fail)
     else fail)"

definition push_tmp_value :: "vm_value \<Rightarrow> unit act" where
  "push_tmp_value v = push_local_var v"

definition pop_tmp_value :: "unit act" where
  "pop_tmp_value = bindM (reading regs) (\<lambda>r.
     if abp2 r > 0 then set_regs (\<lambda>r. r\<lparr>sec := sub32 (sec r) 1, abp2 := sub32 (abp2 r) 1\<rparr>) else fail)"

definition get_tmp_value :: "vm_value act" where
  "get_tmp_value = bindM (reading regs) (\<lambda>r.
     if abp2 r > 0 then get_stack (abp2 r - 1) else fail)"

section \<open>Try blocks\<close>

definition set_try_regs :: "vm_value \<Rightarrow> ref \<Rightarrow> unit act" where
  "set_try_regs arg2 io_r = set_regs (\<lambda>r. r\<lparr>try_flag := True, try_catch_flag := False,
     try_abp := abp2 r, try_ac := ac2 r, try_arg2 := arg2, try_io_r := io_r,
     try_catch_error := ERROR_SUCCESS, try_catch_r := RNil\<rparr>)"

definition set_try_regs_for_force :: "unit act" where
  "set_try_regs_for_force = set_regs (\<lambda>r. r\<lparr>try_abp := abp2 r, try_ac := ac2 r\<rparr>)"

definition try_word :: "registers \<Rightarrow> u64" where
  "try_word r = (if try_flag r then 1 else 0) OR (if try_catch_flag r then 2 else 0)"

definition try_frame_word :: "registers \<Rightarrow> u64" where
  "try_frame_word r = push_bit 32 (of_nat (try_abp r)) OR of_nat (try_ac r)"

definition push_try_regs :: "unit act" where
  "push_try_regs = bindM (reading regs) (\<lambda>r.
     seqM (push_local_var (VInt (try_word r)))
    (seqM (push_local_var (VInt (try_frame_word r)))
    (seqM (push_local_var (try_arg2 r))
    (seqM (push_local_var (VRef (try_io_r r)))
    (seqM (push_local_var (VInt (of_int (try_catch_error r))))
          (push_local_var (VRef (try_catch_r r))))))))"

text \<open>A condition \<open>_M_stack[i].type() == t && ...\<close>, read from left to right.\<close>

primrec check_types :: "(nat \<times> int) list \<Rightarrow> bool act" where
  "check_types [] = ret True"
| "check_types (p # ps) = bindM (get_stack (fst p)) (\<lambda>v.
     if value_type v = snd p then check_types ps else ret False)"

text \<open>The guard of \<open>pop_try_regs\<close> asks for four words only, though it pops six: below six the
  index wraps around and the stack is read outside of its bounds.\<close>

definition pop_try_regs :: "unit act" where
  "pop_try_regs = bindM (reading regs) (\<lambda>r.
     let b = sub32 (abp2 r) 6 in
     if abp2 r \<ge> 4
     then bindM (check_types [(b, VALUE_TYPE_INT), (add32 b 1, VALUE_TYPE_INT), (add32 b 3, VALUE_TYPE_REF),
                              (add32 b 4, VALUE_TYPE_INT), (add32 b 5, VALUE_TYPE_REF)]) (\<lambda>ok.
       if ok
       then bindM (reading stack) (\<lambda>st. set_regs (\<lambda>r. r\<lparr>sec := sub32 (sec r) 6, abp2 := b,
           try_catch_r := value_r (st ! (b + 5)),
           try_catch_error := sint (ucast (value_i (st ! (b + 4))) :: u32),
           try_io_r := value_r (st ! (b + 3)),
           try_arg2 := st ! (b + 2),
           try_abp := unat (ucast (drop_bit 32 (value_i (st ! (b + 1)))) :: u32),
           try_ac := unat (value_i (st ! (b + 1)) AND 0xffffffff),
           try_flag := (value_i (st ! b) AND 1 \<noteq> 0),
           try_catch_flag := (value_i (st ! b) AND 2 \<noteq> 0)\<rparr>))
       else fail)
     else fail)"

text \<open>The array of cancelation undo types has four elements.\<close>

definition add_cancelation_undo_type :: "loc \<Rightarrow> unit act" where
  "add_cancelation_undo_type l = bindM (reading regs) (\<lambda>r.
     if length (cancelation_undo r) < 4
     then set_regs (\<lambda>r. r\<lparr>cancelation_undo := cancelation_undo r @ [l]\<rparr>)
     else undef)"

section \<open>The expression stack\<close>

definition push_expr_value :: "vm_value \<Rightarrow> unit act" where
  "push_expr_value v = bindM (reading regs) (\<lambda>r. bindM (reading (\<lambda>s. length (expr_stack s))) (\<lambda>size.
     if add32 (evbp r) (evc r) < size
     then seqM (put_expr_stack (add32 (evbp r) (evc r)) v)
       (set_regs (\<lambda>r. r\<lparr>evc := add32 (evc r) 1, esec := add32 (esec r) 1\<rparr>))
     else fail))"

definition ctx_pop_expr_values :: "nat \<Rightarrow> unit act" where
  "ctx_pop_expr_values n = bindM (reading regs) (\<lambda>r.
     if evc r \<ge> n
     then set_regs (\<lambda>r. r\<lparr>evc := evc r - n, esec := sub32 (esec r) n\<rparr>)
     else fail)"

definition pop_all_expr_values :: "unit act" where
  "pop_all_expr_values = set_regs (\<lambda>r. r\<lparr>evc := 0, esec := evbp r\<rparr>)"

text \<open>The address computation is on \<open>size_t\<close>.\<close>

definition expr_index :: "registers \<Rightarrow> nat \<Rightarrow> nat" where
  "expr_index r i = (add32 (evbp r) (evc r) + 2 * 2 ^ 64 - i - 1) mod 2 ^ 64"

definition get_expr_value :: "nat \<Rightarrow> vm_value act" where
  "get_expr_value i = bindM (reading regs) (\<lambda>r.
     if evc r > i then get_expr_stack (expr_index r i) else fail)"

definition set_expr_value :: "nat \<Rightarrow> vm_value \<Rightarrow> unit act" where
  "set_expr_value i v = bindM (reading regs) (\<lambda>r.
     if evc r > i then put_expr_stack (expr_index r i) v else fail)"

end
