(* ===== verification/Thread_Errors.thy ===== *)
theory Thread_Errors
  imports Thread_Unwind
begin

unbundle bit_operations_syntax

text \<open>
  Allocation through the garbage collector, errors with the unwinding of the stack, stack traces, and
  calls of native functions (vm/vm.cpp, classes \<open>GarbageCollector\<close> and \<open>ThreadContext\<close>).
\<close>

section \<open>New objects\<close>

text \<open>
  The memory of a new object is not initialised: integers and floats hold what the memory held
  before, references are wild.
\<close>

definition fresh_body :: "(nat \<Rightarrow> u64) \<Rightarrow> int \<Rightarrow> nat \<Rightarrow> body" where
  "fresh_body junk k n =
     (if k = OBJECT_TYPE_IARRAY8 then IArray8 (map (\<lambda>i. ucast (junk i)) [0..<n])
      else if k = OBJECT_TYPE_IARRAY16 then IArray16 (map (\<lambda>i. ucast (junk i)) [0..<n])
      else if k = OBJECT_TYPE_IARRAY32 then IArray32 (map (\<lambda>i. ucast (junk i)) [0..<n])
      else if k = OBJECT_TYPE_IARRAY64 then IArray64 (map junk [0..<n])
      else if k = OBJECT_TYPE_SFARRAY then SFArray (map (\<lambda>i. ucast (junk i)) [0..<n])
      else if k = OBJECT_TYPE_DFARRAY then DFArray (map junk [0..<n])
      else if k = OBJECT_TYPE_RARRAY then RArray (replicate n RWild)
      else if k = OBJECT_TYPE_TUPLE then Tuple (replicate n (VRef RWild))
      else if k = OBJECT_TYPE_IO then IO
      else if k = OBJECT_TYPE_LAZY_VALUE
      then LazyValue \<lparr>lz_locked = False, lz_value_type = 0, lz_must_be_shared = False,
             lz_value = VRef RWild, lz_fun = 0, lz_args = replicate n (VRef RWild)\<rparr>
      else if k = OBJECT_TYPE_NATIVE_OBJECT then NativeObject 0 0 (map (\<lambda>i. ucast (junk i)) [0..<n])
      else if k = OBJECT_TYPE_HASH_TABLE then HashTable 0 (replicate ((n - 16) div 16) (RWild, RWild))
      else if k = OBJECT_TYPE_ALI_HASH_TABLE_ENTRY then HashEntry RWild RWild RWild (TInt (junk 0))
      else if k = OBJECT_TYPE_ALF_HASH_TABLE_ENTRY then HashEntry RWild RWild RWild (TFloat (junk 0))
      else if k = OBJECT_TYPE_ALR_HASH_TABLE_ENTRY then HashEntry RWild RWild RWild (TRef RWild)
      else ErrorObject)"

definition fresh_object :: "(nat \<Rightarrow> u64) \<Rightarrow> int \<Rightarrow> nat \<Rightarrow> object" where
  "fresh_object junk t n = Object (t AND OBJECT_TYPE_UNIQUE \<noteq> 0) (fresh_body junk (type_kind t) n)"

text \<open>
  \<open>new_object\<close>: \<open>None\<close> is the null pointer, when the size does not fit or the allocator
  finds no memory. The new object becomes the temporary root of the context, unless there is none.
\<close>

definition gc_allocate :: "env \<Rightarrow> bool \<Rightarrow> int \<Rightarrow> u64 \<Rightarrow> ref option act" where
  "gc_allocate E with_ctx t n = (\<lambda>s.
     let a = length (heap s) in
     if object_size t n \<noteq> 0 \<and> e_alloc E a (object_size t n)
     then (Done (Some (RAddr a)),
           s\<lparr>heap := heap s @ [fresh_object (e_junk E a) t (unat n)],
             regs := (if with_ctx then (regs s)\<lparr>gc_tmp_ptr := Some a\<rparr> else regs s)\<rparr>)
     else (Done None, s))"

definition gc_new_object :: "env \<Rightarrow> int \<Rightarrow> u64 \<Rightarrow> ref option act" where
  "gc_new_object E t n = gc_allocate E True t n"

text \<open>\<open>Object::set_elem\<close> through a reference; the returned \<open>bool\<close> is ignored by the callers.\<close>

definition set_elem_m :: "env \<Rightarrow> ref \<Rightarrow> nat \<Rightarrow> vm_value \<Rightarrow> unit act" where
  "set_elem_m E q i v = bindM (deref_m q) (\<lambda>ob.
     case set_elem (e_fpu E) ob i v of
       None \<Rightarrow> undef
     | Some (False, _) \<Rightarrow> ret ()
     | Some (True, ob') \<Rightarrow> put_object q ob')"

definition gc_new_pair :: "env \<Rightarrow> vm_value \<Rightarrow> vm_value \<Rightarrow> ref option act" where
  "gc_new_pair E v w = bindM (gc_new_object E OBJECT_TYPE_TUPLE 2) (\<lambda>q. case q of
       None \<Rightarrow> ret None
     | Some q \<Rightarrow> seqM (set_elem_m E q 0 v) (seqM (set_elem_m E q 1 w) (ret (Some q))))"

definition string_body :: "string \<Rightarrow> body" where
  "string_body str = IArray8 (map (\<lambda>c. of_nat (of_char c)) str)"

definition gc_new_string :: "env \<Rightarrow> string \<Rightarrow> ref option act" where
  "gc_new_string E str = bindM (gc_new_object E OBJECT_TYPE_IARRAY8 (of_nat (length str))) (\<lambda>q. case q of
       None \<Rightarrow> ret None
     | Some q \<Rightarrow> seqM (put_object q (Object False (string_body str))) (ret (Some q)))"

section \<open>Unwinding\<close>

text \<open>\<open>mutex.try_lock(); mutex.unlock();\<close> leaves the mutex unlocked in either case.\<close>

definition unlock_lazy_value :: "ref \<Rightarrow> unit act" where
  "unlock_lazy_value q = bindM (deref_m q) (\<lambda>ob. case body ob of
       LazyValue z \<Rightarrow> put_object q (Object (has_unique_flag ob) (LazyValue (z\<lparr>lz_locked := False\<rparr>)))
     | _ \<Rightarrow> undef)"

definition try_lock_and_unlock_lazy_values :: "nat \<Rightarrow> unit act" where
  "try_lock_and_unlock_lazy_values n = bindM (reading regs) (\<lambda>r.
     forM (rev [n..<add32 (abp2 r) (ac2 r)]) (\<lambda>i.
       bindM (get_stack i) (\<lambda>v. case v of VLocked q \<Rightarrow> unlock_lazy_value q | _ \<Rightarrow> ret ())))"

definition fun_trace_elem :: "env \<Rightarrow> u64 \<Rightarrow> u32 \<Rightarrow> stack_trace_elem" where
  "fun_trace_elem E fn instr = \<lparr>ste_has_native_fun = False, ste_fun = fn,
     ste_fun_name = e_fun_symbols E fn, ste_instr = instr\<rparr>"

text \<open>
  The chain of frames from the active one down to \<open>limit\<close>. Every step goes to the frame the
  words after the arguments describe; a chain that is longer than the stack is cyclic and runs
  out of fuel. The trace is dropped (\<open>Done None\<close>) when a frame is broken.
\<close>

fun collect_trace :: "env \<Rightarrow> vm_value list \<Rightarrow> nat \<Rightarrow> nat \<Rightarrow> u64 \<Rightarrow> u32 \<Rightarrow> nat \<Rightarrow> nat
    \<Rightarrow> stack_trace_elem list \<Rightarrow> stack_trace_elem list option outcome" where
  "collect_trace E st limit 0 fn instr ab a acc = NoFuel"
| "collect_trace E st limit (Suc fuel) fn instr ab a acc =
     (let acc' = (if fn \<noteq> FP_NONE then acc @ [fun_trace_elem E fn instr] else acc);
          fbp = add32 ab a in
      if fbp \<le> limit then Done (Some acc')
      else if is_frame st fbp
      then collect_trace E st limit fuel (signed_drop_bit 8 (value_i (st ! (fbp + 2))))
             (pair_second (st ! (fbp + 1))) (pair_first (st ! fbp)) (unat (pair_second (st ! fbp))) acc'
      else Done None)"

definition add_stack_trace_elems :: "env \<Rightarrow> nat \<Rightarrow> bool \<Rightarrow> unit act" where
  "add_stack_trace_elems E limit is_new = (\<lambda>s.
     let r = regs s;
         start = (if is_new then [] else case stack_trace s of None \<Rightarrow> [] | Some es \<Rightarrow> es) in
     case collect_trace E (stack s) limit (Suc (length (stack s))) (fp r) (ip r - 1) (abp r) (ac r) start of
       Done t \<Rightarrow> (Done (), s\<lparr>stack_trace := t\<rparr>)
     | _ \<Rightarrow> (NoFuel, s))"

definition error_return_value :: "int \<Rightarrow> ref \<Rightarrow> return_value" where
  "error_return_value err q = \<lparr>rv_i = 0, rv_f = 0, rv_r = q, rv_error = err\<rparr>"

definition set_error_without_try :: "env \<Rightarrow> int \<Rightarrow> ref \<Rightarrow> bool \<Rightarrow> unit act" where
  "set_error_without_try E err q is_new =
     bindM (reading regs) (\<lambda>r0.
     seqM (try_lock_and_unlock_lazy_values (nfbp r0))
    (seqM (add_stack_trace_elems E (nfbp r0) is_new)
     (set_regs (\<lambda>r. r\<lparr>abp := nfbp r, abp2 := nfbp r, sec := nfbp r,
        esec := enfbp r, evbp := enfbp r, ac := 0, lvc := 0, ac2 := 0, evc := 0,
        fp := FP_NONE, ip := 0, rv := error_return_value err q, alf0 := False, alf1 := False\<rparr>))))"

definition set_error_with :: "env \<Rightarrow> int \<Rightarrow> ref \<Rightarrow> bool \<Rightarrow> unit act" where
  "set_error_with E err q is_new = bindM (reading regs) (\<lambda>r.
     if \<not> try_flag r \<or> try_abp r < nfbp r
     then set_error_without_try E err q is_new
     else
       seqM (try_lock_and_unlock_lazy_values (add32 (try_abp r) (try_ac r)))
      (seqM (add_stack_trace_elems E (add32 (try_abp r) (try_ac r)) is_new)
      (seqM (set_regs (\<lambda>r. r\<lparr>abp := try_abp r, ac := try_ac r, rv := error_return_value err q,
               alf_index := 0\<rparr>))
      (bindM (attempt leave_from_fun) (\<lambda>left.
         if left = None then set_error_without_try E err q True else ret ())))))"

definition set_error :: "env \<Rightarrow> int \<Rightarrow> unit act" where
  "set_error E err = set_error_with E err RNil True"

text \<open>\<open>context.set_error(e); return false;\<close>\<close>

definition raise :: "env \<Rightarrow> int \<Rightarrow> 'a act" where
  "raise E err = seqM (set_error E err) fail"

text \<open>\<open>if(!c) { context.set_error(e); return false; }\<close>\<close>

definition or_raise :: "env \<Rightarrow> 'a act \<Rightarrow> int \<Rightarrow> 'a act" where
  "or_raise E c err = bindM (attempt c) (\<lambda>x. case x of None \<Rightarrow> raise E err | Some y \<Rightarrow> ret y)"

definition add_stack_trace_elem_for_native_fun :: "env \<Rightarrow> int \<Rightarrow> unit act" where
  "add_stack_trace_elem_for_native_fun E nfi = modify (\<lambda>s. s\<lparr>stack_trace :=
     Some ((case stack_trace s of None \<Rightarrow> [] | Some es \<Rightarrow> es) @
       [\<lparr>ste_has_native_fun = True, ste_fun = of_int nfi,
         ste_fun_name = e_native_fun_symbols E nfi, ste_instr = 0\<rparr>])\<rparr>)"

definition move_stack_trace_to_try_catch_stack_trace :: "unit act" where
  "move_stack_trace_to_try_catch_stack_trace =
     modify (\<lambda>s. s\<lparr>try_catch_stack_trace := stack_trace s, stack_trace := None\<rparr>)"

definition move_try_catch_stack_trace_to_stack_trace :: "unit act" where
  "move_try_catch_stack_trace_to_stack_trace =
     modify (\<lambda>s. s\<lparr>stack_trace := try_catch_stack_trace s, try_catch_stack_trace := None\<rparr>)"

definition reset_try_catch_stack_trace :: "unit act" where
  "reset_try_catch_stack_trace = modify (\<lambda>s. s\<lparr>try_catch_stack_trace := None\<rparr>)"

end
