(* ===== verification/Thread_Native.thy ===== *)
theory Thread_Native
  imports Thread_Errors
begin

unbundle bit_operations_syntax

text \<open>
  Saving and restoring the registers around code that runs on the same stack, the call of a native
  function, the stack trace as an object, and the roots of a thread for the garbage collector
  (vm/vm.cpp, class \<open>ThreadContext\<close>).
\<close>

section \<open>Saved registers\<close>

record saved_registers =
  sv_nfbp :: nat
  sv_enfbp :: nat
  sv_abp :: nat
  sv_ac :: nat
  sv_lvc :: nat
  sv_abp2 :: nat
  sv_ac2 :: nat
  sv_fp :: u64
  sv_ip :: u32
  sv_after_leaving_flag1 :: bool
  sv_after_leaving_flag2 :: bool
  sv_after_leaving_flag_index :: nat
  sv_arg_instr_flag :: bool
  sv_cached_fun_result_flag :: nat
  sv_try_flag :: bool
  sv_try_catch_flag :: bool
  sv_try_abp :: nat
  sv_try_ac :: nat
  sv_try_catch_error :: int
  sv_force_tmp_rv :: return_value
  sv_force_tmp_rv2 :: return_value
  sv_sec :: nat
  sv_evbp :: nat
  sv_evc :: nat

definition saved_of :: "registers \<Rightarrow> saved_registers" where
  "saved_of r = \<lparr>sv_nfbp = nfbp r, sv_enfbp = enfbp r, sv_abp = abp r, sv_ac = ac r, sv_lvc = lvc r,
     sv_abp2 = abp2 r, sv_ac2 = ac2 r, sv_fp = fp r, sv_ip = ip r,
     sv_after_leaving_flag1 = alf0 r, sv_after_leaving_flag2 = alf1 r,
     sv_after_leaving_flag_index = alf_index r, sv_arg_instr_flag = arg_instr_flag r,
     sv_cached_fun_result_flag = cached_fun_result_flag r, sv_try_flag = try_flag r,
     sv_try_catch_flag = try_catch_flag r, sv_try_abp = try_abp r, sv_try_ac = try_ac r,
     sv_try_catch_error = try_catch_error r, sv_force_tmp_rv = force_tmp_rv r,
     sv_force_tmp_rv2 = force_tmp_rv2 r, sv_sec = add32 (abp2 r) (ac2 r),
     sv_evbp = evbp r, sv_evc = evc r\<rparr>"

text \<open>The seven words of the stack over the saved frame.\<close>

definition saved_words :: "registers \<Rightarrow> vm_value list" where
  "saved_words r = [try_arg2 r, VRef (try_io_r r), VRef (rv_r (force_tmp_rv r)), VRef (force_tmp_r r),
     VRef (force_tmp_r2 r), VRef (rv_r (force_tmp_rv2 r)), VRef (try_catch_r r)]"

definition fresh_frame_regs :: "nat \<Rightarrow> registers \<Rightarrow> registers" where
  "fresh_frame_regs b r = r\<lparr>nfbp := b, enfbp := esec r, abp := b, abp2 := b, sec := b,
     ac := 0, lvc := 0, ac2 := 0, fp := FP_NONE, ip := 0, alf0 := False, alf1 := False, alf_index := 0,
     arg_instr_flag := False, cached_fun_result_flag := 0, try_flag := False, try_catch_flag := False,
     try_arg2 := VError, try_io_r := RNil, try_abp := b, try_ac := 0\<rparr>"

text \<open>
  On failure the code has filled \<open>saved_regs\<close> and changed nothing else; it returns false. The
  test \<open>sec + 7 > _M_stack_size\<close> is on \<open>uint32_t\<close>.
\<close>

definition save_regs_and_set_regs :: "saved_registers act" where
  "save_regs_and_set_regs = bindM (reading regs) (\<lambda>r. bindM (reading (\<lambda>s. length (stack s))) (\<lambda>size.
     let b = add32 (abp2 r) (ac2 r) in
     if add32 b 7 > size then fail
     else seqM (forM [0..<7] (\<lambda>i. put_stack (add32 b i) (saved_words r ! i)))
         (seqM (set_regs (fresh_frame_regs (add32 b 7)))
               (ret (saved_of r)))))"

text \<open>The condition of \<open>restore_regs\<close>: are the saved words still there?\<close>

definition saved_words_intact :: "saved_registers \<Rightarrow> bool act" where
  "saved_words_intact sv = (let b = sv_sec sv in
     bindM (check_types [(add32 b 6, VALUE_TYPE_REF), (add32 b 5, VALUE_TYPE_REF)]) (\<lambda>ok1.
     if \<not> ok1 then ret False else
     bindM (get_stack (add32 b 5)) (\<lambda>v5.
     if value_r v5 \<noteq> rv_r (sv_force_tmp_rv2 sv) then ret False else
     bindM (check_types [(add32 b 4, VALUE_TYPE_REF), (add32 b 3, VALUE_TYPE_REF), (add32 b 2, VALUE_TYPE_REF)]) (\<lambda>ok2.
     if \<not> ok2 then ret False else
     bindM (get_stack (add32 b 2)) (\<lambda>v2.
     if value_r v2 \<noteq> rv_r (sv_force_tmp_rv sv) then ret False else
     check_types [(add32 b 1, VALUE_TYPE_REF)])))))"

definition restored_try_regs :: "vm_value list \<Rightarrow> saved_registers \<Rightarrow> registers \<Rightarrow> registers" where
  "restored_try_regs st sv r = (let b = sv_sec sv in r\<lparr>
     try_catch_r := value_r (st ! add32 b 6), force_tmp_r2 := value_r (st ! add32 b 4),
     force_tmp_r := value_r (st ! add32 b 3), try_io_r := value_r (st ! add32 b 1),
     try_arg2 := st ! b, try_catch_error := sv_try_catch_error sv, try_ac := sv_try_ac sv,
     try_abp := sv_try_abp sv, try_catch_flag := sv_try_catch_flag sv, try_flag := sv_try_flag sv\<rparr>)"

definition lost_try_regs :: "saved_registers \<Rightarrow> registers \<Rightarrow> registers" where
  "lost_try_regs sv r = r\<lparr>try_catch_r := RNil, force_tmp_r2 := RNil, force_tmp_r := RNil,
     try_flag := False, try_catch_flag := False, try_arg2 := VError, try_io_r := RNil,
     try_abp := sv_nfbp sv, try_catch_error := ERROR_SUCCESS, try_ac := 0\<rparr>"

definition restored_frame_regs :: "saved_registers \<Rightarrow> registers \<Rightarrow> registers" where
  "restored_frame_regs sv r = r\<lparr>cached_fun_result_flag := sv_cached_fun_result_flag sv,
     arg_instr_flag := sv_arg_instr_flag sv, alf_index := sv_after_leaving_flag_index sv,
     alf1 := sv_after_leaving_flag2 sv, alf0 := sv_after_leaving_flag1 sv, ip := sv_ip sv, fp := sv_fp sv,
     esec := add32 (sv_evbp sv) (sv_evc sv), evc := sv_evc sv, evbp := sv_evbp sv,
     sec := add32 (sv_abp2 sv) (sv_ac2 sv), ac2 := sv_ac2 sv, abp2 := sv_abp2 sv, lvc := sv_lvc sv,
     ac := sv_ac sv, abp := sv_abp sv, enfbp := sv_enfbp sv, nfbp := sv_nfbp sv\<rparr>"

definition restore_regs :: "saved_registers \<Rightarrow> unit act" where
  "restore_regs sv =
     seqM (set_regs (\<lambda>r. r\<lparr>force_tmp_rv := sv_force_tmp_rv sv, force_tmp_rv2 := sv_force_tmp_rv2 sv\<rparr>))
    (bindM (saved_words_intact sv) (\<lambda>ok.
     bindM (reading stack) (\<lambda>st.
     seqM (set_regs (if ok then restored_try_regs st sv else lost_try_regs sv))
    (seqM (set_regs (restored_frame_regs sv))
          (if ok then ret () else fail)))))"

section \<open>Native functions\<close>

text \<open>
  The result of a failed \<open>restore_regs\<close> is built and dropped (the statement lacks its
  \<open>return\<close>), so the value of the handler is returned all the same; after an exception the registers
  are not restored.
\<close>

definition invoke_native_fun :: "env \<Rightarrow> callbacks \<Rightarrow> int \<Rightarrow> nat \<Rightarrow> nat \<Rightarrow> return_value act" where
  "invoke_native_fun E cb nfi base count =
     bindM (attempt save_regs_and_set_regs) (\<lambda>saved. case saved of
       None \<Rightarrow> ret (error_return_value ERROR_STACK_OVERFLOW RNil)
     | Some sv \<Rightarrow>
         seqM (set_regs (\<lambda>r. r\<lparr>rv := no_return_value\<rparr>))
        (bindM (e_native E cb nfi base count) (\<lambda>result. case result of
           NBadAlloc \<Rightarrow> ret (error_return_value ERROR_OUT_OF_MEMORY RNil)
         | NException \<Rightarrow> ret (error_return_value ERROR_EXCEPTION RNil)
         | NReturned v \<Rightarrow> seqM (attempt (restore_regs sv)) (ret v))))"

text \<open>\<open>EmptyNativeFunctionHandler::invoke\<close>\<close>

definition empty_native_invoke :: "callbacks \<Rightarrow> int \<Rightarrow> nat \<Rightarrow> nat \<Rightarrow> native_result act" where
  "empty_native_invoke cb nfi base count = ret (NReturned (error_return_value ERROR_NO_NATIVE_FUN RNil))"

section \<open>The stack trace as an object\<close>

definition register_ref :: "ref \<Rightarrow> unit act" where
  "register_ref q = modify (\<lambda>s. s\<lparr>registered := registered s @ [q]\<rparr>)"

text \<open>The destructors of the registered references of a scope take the last ones off the list.\<close>

definition with_registered :: "'a act \<Rightarrow> 'a act" where
  "with_registered c = (\<lambda>s. let (r, t) = c s
     in (r, t\<lparr>registered := take (length (registered s)) (registered t)\<rparr>))"

definition set_tmp_r :: "ref \<Rightarrow> unit act" where
  "set_tmp_r q = set_regs (\<lambda>r. r\<lparr>tmp_r := q\<rparr>)"

definition drop_tmp_r :: "'a option act" where
  "drop_tmp_r = seqM (set_tmp_r RNil) (ret None)"

definition fun_name_object :: "env \<Rightarrow> string option \<Rightarrow> ref option act" where
  "fun_name_object E name = (case name of
     Some str \<Rightarrow> bindM (gc_new_string E str) (\<lambda>q. case q of
         None \<Rightarrow> ret None
       | Some q \<Rightarrow> with_registered (seqM (register_ref q) (gc_new_pair E (VInt 1) (VRef q))))
   | None \<Rightarrow> bindM (gc_new_object E OBJECT_TYPE_TUPLE 1) (\<lambda>q. case q of
         None \<Rightarrow> ret None
       | Some q \<Rightarrow> seqM (set_elem_m E q 0 (VInt 0)) (ret (Some q))))"

definition stack_trace_elem_object :: "env \<Rightarrow> stack_trace_elem \<Rightarrow> ref option act" where
  "stack_trace_elem_object E e = bindM (gc_new_object E OBJECT_TYPE_TUPLE 4) (\<lambda>q. case q of
       None \<Rightarrow> ret None
     | Some q \<Rightarrow>
         seqM (set_elem_m E q 0 (VInt (if ste_has_native_fun e then 1 else 0)))
        (seqM (set_elem_m E q 1 (VInt (ste_fun e)))
        (seqM (set_elem_m E q 2 (VRef RNil))
        (seqM (set_elem_m E q 3 (VInt (ucast (ste_instr e))))
        (seqM (register_ref q)
        (bindM (fun_name_object E (ste_fun_name e)) (\<lambda>nm. case nm of
           None \<Rightarrow> ret None
         | Some nm \<Rightarrow> seqM (register_ref nm) (seqM (set_elem_m E q 2 (VRef nm)) (ret (Some q))))))))))"

primrec stack_trace_elems_to_object :: "env \<Rightarrow> ref \<Rightarrow> nat \<Rightarrow> stack_trace_elem list \<Rightarrow> ref option act" where
  "stack_trace_elems_to_object E q i [] = ret (Some q)"
| "stack_trace_elems_to_object E q i (e # es) =
     bindM (with_registered (bindM (stack_trace_elem_object E e) (\<lambda>x. case x of
         None \<Rightarrow> drop_tmp_r
       | Some x \<Rightarrow> seqM (set_elem_m E q i (VRef x)) (ret (Some ()))))) (\<lambda>ok. case ok of
       None \<Rightarrow> ret None
     | Some _ \<Rightarrow> stack_trace_elems_to_object E q (Suc i) es)"

definition try_catch_stack_trace_to_object :: "env \<Rightarrow> ref option act" where
  "try_catch_stack_trace_to_object E = bindM (reading try_catch_stack_trace) (\<lambda>t. case t of
     Some es \<Rightarrow> bindM (gc_new_object E OBJECT_TYPE_RARRAY (of_nat (length es))) (\<lambda>q. case q of
         None \<Rightarrow> ret None
       | Some q \<Rightarrow>
           seqM (forM [0..<length es] (\<lambda>i. set_elem_m E q i (VRef RNil)))
          (seqM (set_tmp_r q) (stack_trace_elems_to_object E q 0 es)))
   | None \<Rightarrow> bindM (gc_allocate E False OBJECT_TYPE_RARRAY 0) (\<lambda>q. case q of
         None \<Rightarrow> seqM (set_tmp_r RWild) (ret None)
       | Some q \<Rightarrow> seqM (set_tmp_r q) (ret (Some q))))"

section \<open>Roots\<close>

text \<open>\<open>is_ref_value_type_for_gc\<close> on the tag, and the reference of the union.\<close>

fun value_ref_for_gc :: "vm_value \<Rightarrow> ref option" where
  "value_ref_for_gc (VRef q) = Some q"
| "value_ref_for_gc (VCanceled q) = Some q"
| "value_ref_for_gc (VLazy _ q) = Some q"
| "value_ref_for_gc (VLocked q) = Some q"
| "value_ref_for_gc _ = None"

definition refs_of_values :: "vm_value list \<Rightarrow> ref list" where
  "refs_of_values vs = filter (\<lambda>q. q \<noteq> RNil) (List.map_filter value_ref_for_gc vs)"

definition refs_of_refs :: "ref list \<Rightarrow> ref list" where
  "refs_of_refs qs = filter (\<lambda>q. q \<noteq> RNil) qs"

text \<open>The references the garbage collector starts from, in the order they are visited.\<close>

definition thread_roots :: "ctx \<Rightarrow> ref list" where
  "thread_roots s = (let r = regs s in
     refs_of_values (take (sec r) (stack s)) @
     refs_of_values (take (esec r) (expr_stack s)) @
     refs_of_refs [rv_r (rv r), tmp_r r] @
     refs_of_values [try_arg2 r] @
     refs_of_refs [try_io_r r, try_catch_r r, rv_r (force_tmp_rv r), force_tmp_r r, force_tmp_r2 r,
       rv_r (force_tmp_rv2 r)] @
     refs_of_refs (registered s) @
     refs_of_values (tmp_expr_values r))"

definition cache_roots :: "function_result_cache list \<Rightarrow> ref list" where
  "cache_roots cs = refs_of_refs (concat (map (\<lambda>c. [frc_is c, frc_fs c, frc_rs c]) cs))"

definition vm_roots :: "vm_value list \<Rightarrow> function_result_cache list \<Rightarrow> ref list" where
  "vm_roots vars cs = refs_of_values vars @ cache_roots cs"

end
