(* ===== verification/Hash_Table.thy ===== *)
theory Hash_Table
  imports Thread_Native
begin

text \<open>
  The hash tables of function results (vm/hash_table.hpp, instances with keys of type
  \<open>ArgumentList\<close>). A table is an object of the heap with an array of buckets, a bucket a
  doubly linked list of entry objects, and the key of an entry a tuple object.
\<close>

section \<open>Looking a key up\<close>

definition graph_fuel :: "heap \<Rightarrow> nat" where
  "graph_fuel h = Suc (Suc (length h))"

definition equal_args :: "env \<Rightarrow> heap \<Rightarrow> vm_value list \<Rightarrow> vm_value list \<Rightarrow> bool outcome" where
  "equal_args E h vs ws = map_outcome Not (find_true
     (\<lambda>(v, w). map_outcome Not (equal_values (e_fpu E) (e_native_equal E) h (graph_fuel h) v w)) (zip vs ws))"

definition key_equal :: "env \<Rightarrow> heap \<Rightarrow> ref \<Rightarrow> vm_value list \<Rightarrow> bool outcome" where
  "key_equal E h kr args = (case deref h kr of
     None \<Rightarrow> Undefined
   | Some ob \<Rightarrow>
       if object_type ob \<noteq> OBJECT_TYPE_TUPLE then Done False
       else if object_length ob \<noteq> length args then Done False
       else (case body ob of Tuple vs \<Rightarrow> equal_args E h vs args | _ \<Rightarrow> Undefined))"

text \<open>The walk along a bucket; a cyclic list never ends, so the fuel is the number of objects.\<close>

fun find_entry :: "env \<Rightarrow> heap \<Rightarrow> vm_value list \<Rightarrow> nat \<Rightarrow> ref \<Rightarrow> ref outcome" where
  "find_entry E h args 0 q = NoFuel"
| "find_entry E h args (Suc k) q =
     (if q = RNil then Done RNil
      else case deref h q of
        Some (Object _ (HashEntry _ next kr _)) \<Rightarrow>
          (case key_equal E h kr args of
             Done True \<Rightarrow> Done q
           | Done False \<Rightarrow> find_entry E h args k next
           | Failed \<Rightarrow> Failed | Undefined \<Rightarrow> Undefined | NoFuel \<Rightarrow> NoFuel)
      | _ \<Rightarrow> Undefined)"

definition lift_outcome :: "'a outcome \<Rightarrow> 'a act" where
  "lift_outcome r = (\<lambda>s. (r, s))"

definition table_m :: "ref \<Rightarrow> (nat \<times> (ref \<times> ref) list) act" where
  "table_m m = bindM (deref_m m) (\<lambda>ob. case body ob of HashTable n bs \<Rightarrow> ret (n, bs) | _ \<Rightarrow> undef)"

text \<open>A table of no buckets divides by zero.\<close>

definition find_entry_and_set_bucket_index :: "env \<Rightarrow> ref \<Rightarrow> vm_value list \<Rightarrow> (ref \<times> nat) act" where
  "find_entry_and_set_bucket_index E m args =
     bindM (reading heap) (\<lambda>h.
     bindM (table_m m) (\<lambda>(n, bs).
     bindM (lift_outcome (hash_args (e_native_hash E) h (graph_fuel h) args)) (\<lambda>k.
     if bs = [] then undef
     else let i = unat k mod length bs in
       bindM (lift_outcome (find_entry E h args (Suc (length h)) (fst (bs ! i)))) (\<lambda>q. ret (q, i)))))"

definition entry_m :: "ref \<Rightarrow> (ref \<times> ref \<times> ref \<times> table_value) act" where
  "entry_m q = bindM (deref_m q) (\<lambda>ob. case body ob of
     HashEntry p nx kr v \<Rightarrow> ret (p, nx, kr, v) | _ \<Rightarrow> undef)"

definition put_entry :: "ref \<Rightarrow> ref \<Rightarrow> ref \<Rightarrow> ref \<Rightarrow> table_value \<Rightarrow> unit act" where
  "put_entry q p nx kr v = put_object q (Object False (HashEntry p nx kr v))"

definition ht_get :: "env \<Rightarrow> ref \<Rightarrow> vm_value list \<Rightarrow> table_value option act" where
  "ht_get E m args =
     (if m = RNil then ret None
      else bindM (find_entry_and_set_bucket_index E m args) (\<lambda>(q, i).
        if q = RNil then ret None
        else bindM (entry_m q) (\<lambda>(p, nx, kr, v). ret (Some v))))"

section \<open>Changing a table\<close>

fun entry_object_type :: "table_value \<Rightarrow> int" where
  "entry_object_type (TInt _) = OBJECT_TYPE_ALI_HASH_TABLE_ENTRY"
| "entry_object_type (TFloat _) = OBJECT_TYPE_ALF_HASH_TABLE_ENTRY"
| "entry_object_type (TRef _) = OBJECT_TYPE_ALR_HASH_TABLE_ENTRY"

fun default_table_value :: "table_value \<Rightarrow> table_value" where
  "default_table_value (TInt _) = TInt 0"
| "default_table_value (TFloat _) = TFloat 0"
| "default_table_value (TRef _) = TRef RNil"

definition set_gc_tmp_ptr :: "nat option \<Rightarrow> unit act" where
  "set_gc_tmp_ptr p = set_regs (\<lambda>r. r\<lparr>gc_tmp_ptr := p\<rparr>)"

text \<open>\<open>set_key\<close> makes the key tuple; \<open>None\<close> when there is no memory for it.\<close>

definition new_key :: "env \<Rightarrow> vm_value list \<Rightarrow> ref option act" where
  "new_key E args = bindM (gc_new_object E OBJECT_TYPE_TUPLE (of_nat (length args))) (\<lambda>q. case q of
     None \<Rightarrow> ret None
   | Some q \<Rightarrow> seqM (put_object q (Object False (Tuple args))) (seqM (set_gc_tmp_ptr None) (ret (Some q))))"

definition link_entry :: "ref \<Rightarrow> nat \<Rightarrow> ref \<Rightarrow> ref \<Rightarrow> table_value \<Rightarrow> unit act" where
  "link_entry m i e kr v =
     bindM (table_m m) (\<lambda>(n, bs).
       let (first, last) = bs ! i in
       seqM (put_entry e last RNil kr v)
      (seqM (if last \<noteq> RNil
             then bindM (entry_m last) (\<lambda>(p, nx, kr', v'). put_entry last p e kr' v')
             else ret ())
       (put_object m (Object False (HashTable n (bs[i := (if last \<noteq> RNil then first else e, e)]))))))"

definition count_entry :: "ref \<Rightarrow> unit act" where
  "count_entry m = bindM (table_m m) (\<lambda>(n, bs). put_object m (Object False (HashTable (Suc n) bs)))"

definition ht_add :: "env \<Rightarrow> ref \<Rightarrow> vm_value list \<Rightarrow> table_value \<Rightarrow> bool act" where
  "ht_add E m args v =
     (if m = RNil then ret True
      else bindM (find_entry_and_set_bucket_index E m args) (\<lambda>(q, i).
        if q = RNil then
          bindM (gc_new_object E (entry_object_type v) 32) (\<lambda>e. case e of
            None \<Rightarrow> ret False
          | Some e \<Rightarrow>
              seqM (put_entry e RWild RWild RNil (default_table_value v))
             (seqM (set_tmp_r e)
             (bindM (new_key E args) (\<lambda>kr. case kr of
                None \<Rightarrow> seqM (set_tmp_r RNil) (seqM (set_gc_tmp_ptr None) (ret False))
              | Some kr \<Rightarrow>
                  seqM (put_entry e RWild RWild kr v)
                 (seqM (link_entry m i e kr v)
                 (seqM (set_tmp_r RNil)
                 (seqM (set_gc_tmp_ptr None)
                 (seqM (count_entry m) (ret True)))))))))
        else bindM (entry_m q) (\<lambda>(p, nx, kr, v'). seqM (put_entry q p nx kr v) (ret True))))"

definition ht_del :: "env \<Rightarrow> ref \<Rightarrow> vm_value list \<Rightarrow> bool act" where
  "ht_del E m args =
     (if m = RNil then ret False
      else bindM (find_entry_and_set_bucket_index E m args) (\<lambda>(q, i).
        if q = RNil then ret False
        else bindM (entry_m q) (\<lambda>(p, nx, kr, v).
          bindM (table_m m) (\<lambda>(n, bs).
            let (first, last) = bs ! i in
            seqM (put_object m (Object False (HashTable (n - 1)
                    (bs[i := (if first = q then nx else first, if last = q then p else last)]))))
           (seqM (if p \<noteq> RNil then bindM (entry_m p) (\<lambda>(pp, _, k', v'). put_entry p pp nx k' v') else ret ())
           (seqM (if nx \<noteq> RNil then bindM (entry_m nx) (\<lambda>(_, nn, k', v'). put_entry nx p nn k' v') else ret ())
           (seqM (put_entry q RNil RNil kr v) (ret True))))))))"

text \<open>\<open>safely_set_bucket_count\<close> gives the new reference of the table; \<open>None\<close> is false.\<close>

definition safely_set_bucket_count :: "env \<Rightarrow> nat \<Rightarrow> ref option act" where
  "safely_set_bucket_count E count =
     (if count \<noteq> 0
      then bindM (gc_new_object E OBJECT_TYPE_HASH_TABLE (16 + 16 * of_nat count)) (\<lambda>q. case q of
          None \<Rightarrow> ret None
        | Some q \<Rightarrow> seqM (put_object q (Object False (HashTable 0 (replicate count (RNil, RNil)))))
            (seqM (set_gc_tmp_ptr None) (ret (Some q))))
      else ret (Some RNil))"

definition set_bucket_count_for_nil_ref :: "env \<Rightarrow> ref \<Rightarrow> nat \<Rightarrow> ref option act" where
  "set_bucket_count_for_nil_ref E m count = (if m = RNil then safely_set_bucket_count E count else ret (Some m))"

definition ht_size :: "ref \<Rightarrow> nat act" where
  "ht_size m = (if m = RNil then ret 0 else bindM (table_m m) (\<lambda>(n, bs). ret n))"

definition ht_bucket_count :: "ref \<Rightarrow> nat act" where
  "ht_bucket_count m = (if m = RNil then ret 0 else bindM (table_m m) (\<lambda>(n, bs). ret (length bs)))"

end
