(* ===== verification/Memo_Cache.thy ===== *)
theory Memo_Cache
  imports Hash_Table
begin

text \<open>
  The memoization cache (vm/cache/ht_memo_cache.cpp): for each function three hash tables from
  argument lists to results, one for each type of result, made when the first result is stored.
\<close>

definition new_memo_cache :: "nat \<Rightarrow> nat \<Rightarrow> function_result_cache list \<times> nat" where
  "new_memo_cache fun_count bucket_count =
     (replicate fun_count \<lparr>frc_is = RNil, frc_fs = RNil, frc_rs = RNil\<rparr>, bucket_count)"

text \<open>The factory hands the two numbers on in the wrong order.\<close>

definition new_memoization_cache :: "nat \<Rightarrow> nat \<Rightarrow> function_result_cache list \<times> nat" where
  "new_memoization_cache factory_bucket_count fun_count = new_memo_cache factory_bucket_count fun_count"

definition cache_table :: "int \<Rightarrow> function_result_cache \<Rightarrow> ref" where
  "cache_table vt c = (if vt = VALUE_TYPE_INT then frc_is c
     else if vt = VALUE_TYPE_FLOAT then frc_fs c else frc_rs c)"

definition set_cache_table :: "int \<Rightarrow> ref \<Rightarrow> function_result_cache \<Rightarrow> function_result_cache" where
  "set_cache_table vt m c = (if vt = VALUE_TYPE_INT then c\<lparr>frc_is := m\<rparr>
     else if vt = VALUE_TYPE_FLOAT then c\<lparr>frc_fs := m\<rparr> else c\<lparr>frc_rs := m\<rparr>)"

fun value_of_table :: "table_value \<Rightarrow> vm_value" where
  "value_of_table (TInt i) = VInt i"
| "value_of_table (TFloat f) = VFloat f"
| "value_of_table (TRef r) = VRef r"

fun table_of_value :: "vm_value \<Rightarrow> table_value option" where
  "table_of_value (VInt i) = Some (TInt i)"
| "table_of_value (VFloat f) = Some (TFloat f)"
| "table_of_value (VRef r) = Some (TRef r)"
| "table_of_value _ = None"

text \<open>The error value says that no result is known.\<close>

definition fun_result :: "env \<Rightarrow> nat \<Rightarrow> int \<Rightarrow> vm_value list \<Rightarrow> vm_value act" where
  "fun_result E i vt args = bindM (reading fun_results) (\<lambda>cs.
     if i \<ge> length cs then ret VError
     else bindM (reading heap) (\<lambda>h.
       bindM (lift_outcome (are_memoizable_fun_args h (graph_fuel h) args)) (\<lambda>ok.
       if \<not> ok then ret VError
       else if vt = VALUE_TYPE_INT \<or> vt = VALUE_TYPE_FLOAT \<or> vt = VALUE_TYPE_REF
       then bindM (ht_get E (cache_table vt (cs ! i)) args) (\<lambda>v. case v of
           None \<Rightarrow> ret VError | Some v \<Rightarrow> ret (value_of_table v))
       else ret VError)))"

definition add_fun_result :: "env \<Rightarrow> nat \<Rightarrow> int \<Rightarrow> vm_value list \<Rightarrow> vm_value \<Rightarrow> bool act" where
  "add_fun_result E i vt args v = bindM (reading fun_results) (\<lambda>cs.
     if i \<ge> length cs then ret True
     else if vt \<noteq> value_type v then ret True
     else bindM (reading heap) (\<lambda>h.
       bindM (lift_outcome (are_memoizable_fun_args h (graph_fuel h) args)) (\<lambda>ok.
       if \<not> ok then ret True
       else bindM (lift_outcome (is_memoizable_fun_result h (graph_fuel h) v)) (\<lambda>ok.
       if \<not> ok then ret True
       else case table_of_value v of None \<Rightarrow> ret True
       | Some tv \<Rightarrow>
           bindM (reading cache_bucket_count) (\<lambda>count.
           bindM (set_bucket_count_for_nil_ref E (cache_table vt (cs ! i)) count) (\<lambda>m. case m of
             None \<Rightarrow> ret False
           | Some m \<Rightarrow>
               seqM (modify (\<lambda>s. s\<lparr>fun_results := (fun_results s)[i := set_cache_table vt m (fun_results s ! i)]\<rparr>))
                    (ht_add E m args tv)))))))"

end
