(* ===== verification/Interp_Base.thy ===== *)
theory Interp_Base
  imports Memo_Cache
begin

unbundle bit_operations_syntax

text \<open>
  The static functions of the interpreter (vm/vm/interp_vm.cpp): reading an operand of an instruction
  without forcing it, the checks that raise an error, and the small wrappers that turn a failure of
  the thread context into an error.
\<close>

section \<open>Operands\<close>

definition expr_pop_arg_count1 :: "u32 \<Rightarrow> nat" where
  "expr_pop_arg_count1 at1 = (if at1 = ARG_TYPE_POP then 1 else 0)"

definition expr_pop_arg_count2 :: "u32 \<Rightarrow> u32 \<Rightarrow> nat" where
  "expr_pop_arg_count2 at1 at2 = (if at1 = ARG_TYPE_POP then 1 else 0) + (if at2 = ARG_TYPE_POP then 1 else 0)"

definition get_int_for_const_value :: "env \<Rightarrow> vm_value \<Rightarrow> u64 act" where
  "get_int_for_const_value E v = (case v of VInt i \<Rightarrow> ret i | _ \<Rightarrow> raise E ERROR_INCORRECT_VALUE)"

definition get_float_for_const_value :: "env \<Rightarrow> vm_value \<Rightarrow> float64 act" where
  "get_float_for_const_value E v = (case v of VFloat f \<Rightarrow> ret f | _ \<Rightarrow> raise E ERROR_INCORRECT_VALUE)"

definition get_ref_for_const_value :: "env \<Rightarrow> vm_value \<Rightarrow> ref act" where
  "get_ref_for_const_value E v = (case v of
     VRef q \<Rightarrow> bindM (deref_m q) (\<lambda>ob.
       if object_is_unique ob then raise E ERROR_UNIQUE_OBJECT else ret q)
   | _ \<Rightarrow> raise E ERROR_INCORRECT_VALUE)"

text \<open>The value type a lazy value promises.\<close>

definition lazy_value_type :: "ref \<Rightarrow> int act" where
  "lazy_value_type q = bindM (deref_m q) (\<lambda>ob. case body ob of
     LazyValue z \<Rightarrow> ret (lz_value_type z) | _ \<Rightarrow> undef)"

text \<open>The case of a lazy value, which is accepted unforced when it promises the right type.\<close>

definition lazy_of_type :: "vm_value \<Rightarrow> int \<Rightarrow> bool act" where
  "lazy_of_type v t = (case v of VLazy _ q \<Rightarrow> bindM (lazy_value_type q) (\<lambda>vt. ret (vt = t)) | _ \<Rightarrow> ret False)"

definition int_value_of :: "env \<Rightarrow> vm_value \<Rightarrow> vm_value act" where
  "int_value_of E v = (case v of
     VInt i \<Rightarrow> ret (VInt i)
   | _ \<Rightarrow> bindM (lazy_of_type v VALUE_TYPE_INT) (\<lambda>ok.
       if ok then ret v else raise E ERROR_INCORRECT_VALUE))"

definition float_value_of :: "env \<Rightarrow> vm_value \<Rightarrow> vm_value act" where
  "float_value_of E v = (case v of
     VFloat f \<Rightarrow> ret (VFloat f)
   | _ \<Rightarrow> bindM (lazy_of_type v VALUE_TYPE_FLOAT) (\<lambda>ok.
       if ok then ret v else raise E ERROR_INCORRECT_VALUE))"

text \<open>A reference to a unique object is canceled where it is read: it can be used once only.\<close>

definition ref_value_of :: "env \<Rightarrow> loc \<Rightarrow> vm_value act" where
  "ref_value_of E l = bindM (get_loc l) (\<lambda>v. case v of
     VRef q \<Rightarrow> bindM (deref_m q) (\<lambda>ob.
       seqM (whenM (object_is_unique ob)
              (seqM (put_loc l (snd (cancel_ref v))) (add_cancelation_undo_type l)))
            (ret (VRef q)))
   | _ \<Rightarrow> bindM (lazy_of_type v VALUE_TYPE_REF) (\<lambda>ok.
       if ok then seqM (put_loc l (lazily_cancel_ref v)) (ret v)
       else if value_type v = VALUE_TYPE_CANCELED_REF then raise E ERROR_AGAIN_USED_UNIQUE
       else raise E ERROR_INCORRECT_VALUE))"

definition ref_value_for_const_value :: "env \<Rightarrow> vm_value \<Rightarrow> vm_value act" where
  "ref_value_for_const_value E v = (case v of
     VRef q \<Rightarrow> bindM (deref_m q) (\<lambda>ob.
       if object_is_unique ob then raise E ERROR_UNIQUE_OBJECT else ret (VRef q))
   | VCanceled q \<Rightarrow> raise E ERROR_AGAIN_USED_UNIQUE
   | _ \<Rightarrow> raise E ERROR_INCORRECT_VALUE)"

text \<open>
  The switch over the type of an operand, common to the six functions \<open>get_int\<close>, \<open>get_float\<close>,
  \<open>get_ref\<close> and their variants that do not force: how a location, an immediate and a global
  variable are read differs, and what is written back under a popped value. The number \<open>j\<close> counts the
  operands already popped of the \<open>n\<close> of the instruction.
\<close>

definition get_operand :: "env \<Rightarrow> (loc \<Rightarrow> 'a act) \<Rightarrow> 'a option \<Rightarrow> (vm_value \<Rightarrow> 'a act)
    \<Rightarrow> (vm_value \<Rightarrow> vm_value) option \<Rightarrow> u32 \<Rightarrow> u32 \<Rightarrow> nat \<Rightarrow> nat \<Rightarrow> ('a \<times> nat) act" where
  "get_operand E from_loc imm from_gvar back at a j n = bindM (reading regs) (\<lambda>r.
     if at = ARG_TYPE_LVAR then
       (if unat a \<ge> lvc r then raise E ERROR_NO_LOCAL_VAR
        else bindM (from_loc (local_var_loc r (unat a))) (\<lambda>x. ret (x, j)))
     else if at = ARG_TYPE_ARG then
       (if unat a \<ge> ac r then raise E ERROR_NO_ARG
        else bindM (from_loc (arg_loc r (unat a))) (\<lambda>x. ret (x, j)))
     else if at = ARG_TYPE_IMM \<and> imm \<noteq> None then ret (the imm, j)
     else if at = ARG_TYPE_GVAR then
       (if unat a \<ge> length (e_global_vars E) then raise E ERROR_NO_GLOBAL_VAR
        else bindM (from_gvar (e_global_vars E ! unat a)) (\<lambda>x. ret (x, j)))
     else if at = ARG_TYPE_POP then
       bindM (or_raise E (get_expr_value (n - j - 1)) ERROR_EMPTY_STACK) (\<lambda>v.
       seqM (put_tmp j v)
      (bindM (from_loc (LTmp j)) (\<lambda>x. case back of
         None \<Rightarrow> ret (x, Suc j)
       | Some f \<Rightarrow> bindM (get_tmp j) (\<lambda>v'.
           seqM (or_raise E (set_expr_value (n - j - 1) (f v')) ERROR_EMPTY_STACK) (ret (x, Suc j))))))
     else if at = ARG_TYPE_EVAL then
       (if unat a + n \<ge> evc r then raise E ERROR_NO_EXPR_VALUE
        else bindM (from_loc (LExpr (expr_index r (unat a + n)))) (\<lambda>x. ret (x, j)))
     else raise E ERROR_INCORRECT_INSTR)"

definition get_int_value :: "env \<Rightarrow> u32 \<Rightarrow> u32 \<Rightarrow> nat \<Rightarrow> nat \<Rightarrow> (vm_value \<times> nat) act" where
  "get_int_value E at a = get_operand E (\<lambda>l. bindM (get_loc l) (int_value_of E))
     (Some (VInt (scast a))) (int_value_of E) None at a"

definition get_float_value :: "env \<Rightarrow> u32 \<Rightarrow> u32 \<Rightarrow> nat \<Rightarrow> nat \<Rightarrow> (vm_value \<times> nat) act" where
  "get_float_value E at a = get_operand E (\<lambda>l. bindM (get_loc l) (float_value_of E))
     (Some (VFloat (f_widen (e_fpu E) (format_float_to_float a)))) (float_value_of E) None at a"

definition get_ref_value :: "env \<Rightarrow> u32 \<Rightarrow> u32 \<Rightarrow> nat \<Rightarrow> nat \<Rightarrow> (vm_value \<times> nat) act" where
  "get_ref_value E at a = get_operand E (ref_value_of E) None (ref_value_for_const_value E) None at a"

definition pop_expr_values :: "env \<Rightarrow> nat \<Rightarrow> unit act" where
  "pop_expr_values E n = or_raise E (ctx_pop_expr_values n) ERROR_EMPTY_STACK"

section \<open>New objects and checks\<close>

definition new_object :: "env \<Rightarrow> int \<Rightarrow> u64 \<Rightarrow> ref act" where
  "new_object E t len = bindM (gc_new_object E t len) (\<lambda>q. case q of
     None \<Rightarrow> raise E ERROR_OUT_OF_MEMORY | Some q \<Rightarrow> ret q)"

definition new_unique_pair :: "env \<Rightarrow> vm_value \<Rightarrow> vm_value \<Rightarrow> ref act" where
  "new_unique_pair E v w = bindM (new_object E (OBJECT_TYPE_TUPLE OR OBJECT_TYPE_UNIQUE) 2) (\<lambda>q.
     seqM (put_object q (Object True (Tuple [v, w]))) (ret q))"

definition check_value_type :: "env \<Rightarrow> vm_value \<Rightarrow> int \<Rightarrow> unit act" where
  "check_value_type E v t = (if value_type v \<noteq> t then raise E ERROR_INCORRECT_VALUE else ret ())"

definition value_is_unique_m :: "vm_value \<Rightarrow> bool act" where
  "value_is_unique_m v = bindM (reading heap) (\<lambda>h. case value_is_unique h v of None \<Rightarrow> undef | Some b \<Rightarrow> ret b)"

definition check_shared_for_value :: "env \<Rightarrow> vm_value \<Rightarrow> unit act" where
  "check_shared_for_value E v = bindM (value_is_unique_m v) (\<lambda>u.
     if u then raise E ERROR_UNIQUE_OBJECT else ret ())"

definition check_object_type :: "env \<Rightarrow> object \<Rightarrow> int \<Rightarrow> unit act" where
  "check_object_type E ob t = (if object_type ob \<noteq> t then raise E ERROR_INCORRECT_OBJECT else ret ())"

definition check_shared_for_object :: "env \<Rightarrow> object \<Rightarrow> unit act" where
  "check_shared_for_object E ob = (if object_is_unique ob then raise E ERROR_UNIQUE_OBJECT else ret ())"

definition check_object_elem_index :: "env \<Rightarrow> object \<Rightarrow> u64 \<Rightarrow> unit act" where
  "check_object_elem_index E ob i =
     (if unat i \<ge> object_length ob then raise E ERROR_INDEX_OF_OUT_BOUNDS else ret ())"

text \<open>
  The chain of lazy values from \<open>q\<close> on is marked as shared. A locked mutex would be locked again
  by the same thread, which C++ leaves undefined. Every step marks another object, so the number
  of objects is enough fuel.
\<close>

primrec set_chain_as_shared :: "env \<Rightarrow> nat \<Rightarrow> ref \<Rightarrow> unit act" where
  "set_chain_as_shared E 0 q = nofuel"
| "set_chain_as_shared E (Suc k) q = bindM (deref_m q) (\<lambda>ob.
     if object_type ob \<noteq> OBJECT_TYPE_LAZY_VALUE then ret ()
     else case body ob of
       LazyValue z \<Rightarrow>
         if lz_locked z then undef
         else if lz_must_be_shared z then ret ()
         else bindM (value_is_unique_m (lz_value z)) (\<lambda>u.
           if u then raise E ERROR_UNIQUE_OBJECT
           else seqM (put_object q (Object False (LazyValue (z\<lparr>lz_must_be_shared := True\<rparr>))))
             (case lz_value z of VLazy False q' \<Rightarrow> set_chain_as_shared E k q' | _ \<Rightarrow> ret ()))
     | _ \<Rightarrow> undef)"

definition set_lazy_values_as_shared :: "env \<Rightarrow> vm_value \<Rightarrow> unit act" where
  "set_lazy_values_as_shared E v = (case v of
     VLazy False q \<Rightarrow> bindM (reading (\<lambda>s. length (heap s))) (\<lambda>k. set_chain_as_shared E (Suc (Suc k)) q)
   | _ \<Rightarrow> ret ())"

definition add_object_lengths :: "env \<Rightarrow> nat \<Rightarrow> nat \<Rightarrow> u64 act" where
  "add_object_lengths E l1 l2 = (let a = of_nat l1 :: u64; b = of_nat l2 in
     if (a OR b) > a + b then raise E ERROR_OUT_OF_MEMORY else ret (a + b))"

definition interp_push_arg :: "env \<Rightarrow> vm_value \<Rightarrow> unit act" where
  "interp_push_arg E v = or_raise E (push_arg v) ERROR_STACK_OVERFLOW"

definition check_pushed_arg_count :: "env \<Rightarrow> nat \<Rightarrow> unit act" where
  "check_pushed_arg_count E n = bindM (reading regs) (\<lambda>r.
     if ac2 r \<noteq> n then raise E ERROR_INCORRECT_ARG_COUNT else ret ())"

definition interp_push_tmp_ac2 :: "env \<Rightarrow> unit act" where
  "interp_push_tmp_ac2 E = or_raise E push_tmp_ac2 ERROR_STACK_OVERFLOW"

definition interp_pop_tmp_ac2 :: "env \<Rightarrow> unit act" where
  "interp_pop_tmp_ac2 E = or_raise E pop_tmp_ac2 ERROR_EMPTY_STACK"

definition interp_push_tmp_ac2_and_flag1 :: "env \<Rightarrow> unit act" where
  "interp_push_tmp_ac2_and_flag1 E = or_raise E push_tmp_ac2_and_after_leaving_flag1 ERROR_STACK_OVERFLOW"

definition interp_pop_tmp_ac2_and_flag1 :: "env \<Rightarrow> unit act" where
  "interp_pop_tmp_ac2_and_flag1 E = or_raise E pop_tmp_ac2_and_after_leaving_flag1 ERROR_EMPTY_STACK"

definition interp_push_try_regs :: "env \<Rightarrow> unit act" where
  "interp_push_try_regs E = or_raise E push_try_regs ERROR_STACK_OVERFLOW"

definition interp_pop_try_regs :: "env \<Rightarrow> unit act" where
  "interp_pop_try_regs E = or_raise E pop_try_regs ERROR_EMPTY_STACK"

definition interp_push_ai :: "env \<Rightarrow> unit act" where
  "interp_push_ai E = or_raise E push_ai ERROR_STACK_OVERFLOW"

definition interp_pop_ai :: "env \<Rightarrow> unit act" where
  "interp_pop_ai E = or_raise E pop_ai ERROR_EMPTY_STACK"

definition interp_push_locked_lazy_value_ref :: "env \<Rightarrow> ref \<Rightarrow> unit act" where
  "interp_push_locked_lazy_value_ref E q = or_raise E (push_locked_lazy_value_ref q) ERROR_STACK_OVERFLOW"

definition interp_pop_locked_lazy_value_ref :: "env \<Rightarrow> unit act" where
  "interp_pop_locked_lazy_value_ref E = or_raise E pop_locked_lazy_value_ref ERROR_EMPTY_STACK"

definition interp_get_locked_lazy_value_ref :: "env \<Rightarrow> ref act" where
  "interp_get_locked_lazy_value_ref E = or_raise E get_locked_lazy_value_ref ERROR_EMPTY_STACK"

definition interp_push_tmp_value :: "env \<Rightarrow> vm_value \<Rightarrow> unit act" where
  "interp_push_tmp_value E v = or_raise E (push_tmp_value v) ERROR_STACK_OVERFLOW"

definition interp_pop_tmp_value :: "env \<Rightarrow> unit act" where
  "interp_pop_tmp_value E = or_raise E pop_tmp_value ERROR_EMPTY_STACK"

definition interp_get_tmp_value :: "env \<Rightarrow> vm_value act" where
  "interp_get_tmp_value E = or_raise E get_tmp_value ERROR_EMPTY_STACK"

definition check_fun :: "env \<Rightarrow> nat \<Rightarrow> unit act" where
  "check_fun E i = bindM (reading regs) (\<lambda>r.
     if i \<ge> length (e_funs E) then raise E ERROR_NO_FUN
     else if f_instrs (e_funs E ! i) = None then raise E ERROR_INCORRECT_FUN
     else if f_arg_count (e_funs E ! i) \<noteq> ac2 r then raise E ERROR_INCORRECT_ARG_COUNT
     else ret ())"

definition cancel_ref_for_unique :: "loc \<Rightarrow> bool act" where
  "cancel_ref_for_unique l = bindM (get_loc l) (\<lambda>v. bindM (value_is_unique_m v) (\<lambda>u.
     if u then seqM (put_loc l (snd (cancel_ref v))) (ret (fst (cancel_ref v)))
     else if is_lazy v then seqM (put_loc l (lazily_cancel_ref v)) (ret True)
     else ret False))"

definition restore_and_pop_regs_for_force :: "env \<Rightarrow> unit act" where
  "restore_and_pop_regs_for_force E =
     seqM (set_regs (\<lambda>r. r\<lparr>alf_index := 0\<rparr>))
    (seqM pop_args
    (seqM (interp_pop_locked_lazy_value_ref E)
    (seqM (interp_pop_ai E)
    (seqM (interp_pop_tmp_ac2_and_flag1 E)
    (bindM (reading regs) (\<lambda>r. whenM (\<not> arg_instr_flag r) restore_abp2_and_ac2))))))"

definition interp_try_catch_stack_trace_to_object :: "env \<Rightarrow> ref act" where
  "interp_try_catch_stack_trace_to_object E = bindM (try_catch_stack_trace_to_object E) (\<lambda>q. case q of
     None \<Rightarrow> raise E ERROR_OUT_OF_MEMORY | Some q \<Rightarrow> ret q)"

section \<open>Results of functions\<close>

definition is_eager :: "env \<Rightarrow> bool" where
  "is_eager E \<longleftrightarrow> e_strategy E = EagerStrategy \<or> e_strategy E = MemoStrategy"

definition lazy_or :: "return_value \<Rightarrow> vm_value \<Rightarrow> vm_value act" where
  "lazy_or v w = bindM (deref_m (rv_r v)) (\<lambda>ob.
     ret (if object_is_lazy ob then VLazy (rv_i v \<noteq> 0) (rv_r v) else w))"

definition return_value_to_int_value :: "env \<Rightarrow> return_value \<Rightarrow> vm_value act" where
  "return_value_to_int_value E v = (if is_eager E then ret (VInt (rv_i v)) else lazy_or v (VInt (rv_i v)))"

definition return_value_to_float_value :: "env \<Rightarrow> return_value \<Rightarrow> vm_value act" where
  "return_value_to_float_value E v = (if is_eager E then ret (VFloat (rv_f v)) else lazy_or v (VFloat (rv_f v)))"

definition return_value_to_ref_value :: "env \<Rightarrow> return_value \<Rightarrow> vm_value act" where
  "return_value_to_ref_value E v = (if is_eager E then ret (VRef (rv_r v)) else lazy_or v (VRef (rv_r v)))"

end
