(* ===== verification/Strategies.thy ===== *)
theory Strategies
  imports Interp_Base
begin

unbundle bit_operations_syntax

text \<open>
  The evaluation strategies (vm/strategy): what happens before a function is entered and after it was
  left, when it is called and when a lazy value is forced. A result \<open>Done True\<close> of the first
  lets the interpreter enter the function, \<open>Done False\<close> says that the result is already in
  \<open>rv\<close>, and a failure that an error was raised.
\<close>

section \<open>What the strategies call\<close>

text \<open>\<open>fully_force_value\<close> with two arguments: the copy is kept alive by \<open>force_tmp_r\<close>.\<close>

definition fully_force_value2 :: "callbacks \<Rightarrow> loc \<Rightarrow> unit act" where
  "fully_force_value2 cb l = bindM (attempt (cb_fully_force_value cb l SForceTmp)) (\<lambda>x.
     seqM (set_regs (\<lambda>r. r\<lparr>force_tmp_r := RNil\<rparr>))
          (case x of None \<Rightarrow> fail | Some _ \<Rightarrow> ret ()))"

definition set_rv :: "return_value \<Rightarrow> unit act" where
  "set_rv v = set_regs (\<lambda>r. r\<lparr>rv := v\<rparr>)"

definition fully_force_rv :: "env \<Rightarrow> callbacks \<Rightarrow> unit act" where
  "fully_force_rv E cb =
     seqM (set_regs (\<lambda>r. r\<lparr>force_tmp_rv2 := rv r\<rparr>))
    (bindM (reading (\<lambda>s. force_tmp_rv2 (regs s))) (\<lambda>v.
     bindM (deref_m (rv_r v)) (\<lambda>ob.
     if object_is_lazy ob
     then with_local (VLazy (rv_i v \<noteq> 0) (rv_r v)) (\<lambda>l.
         seqM (fully_force_value2 cb l)
        (bindM (get_loc l) (\<lambda>w. seqM (set_rv (return_value_of w))
          (set_regs (\<lambda>r. r\<lparr>force_tmp_rv2 := no_return_value\<rparr>)))))
     else with_local (VRef (rv_r v)) (\<lambda>l.
         seqM (fully_force_value2 cb l)
        (bindM (get_loc l) (\<lambda>w.
         seqM (check_value_type E w VALUE_TYPE_REF)
              (set_regs (\<lambda>r. r\<lparr>rv := (rv r)\<lparr>rv_r := value_r w\<rparr>, force_tmp_rv2 := no_return_value\<rparr>))))))))"

text \<open>The error code the virtual machine's methods return.\<close>

definition error_code :: "unit act \<Rightarrow> int act" where
  "error_code c = bindM (attempt c) (\<lambda>x. case x of
     None \<Rightarrow> reading (\<lambda>s. rv_error (rv (regs s))) | Some _ \<Rightarrow> ret ERROR_SUCCESS)"

definition vm_fully_force :: "callbacks \<Rightarrow> loc \<Rightarrow> int act" where
  "vm_fully_force cb l = error_code (fully_force_value2 cb l)"

definition vm_fully_force_return_value :: "env \<Rightarrow> callbacks \<Rightarrow> int act" where
  "vm_fully_force_return_value E cb = error_code (fully_force_rv E cb)"

definition user_exception_ref :: "ref act" where
  "user_exception_ref = reading (\<lambda>s. let v = rv (regs s) in
     if rv_error v = ERROR_USER_EXCEPTION then rv_r v else RNil)"

definition with_saved_regs :: "env \<Rightarrow> int act \<Rightarrow> unit act" where
  "with_saved_regs E c =
     bindM (or_raise E save_regs_and_set_regs ERROR_STACK_OVERFLOW) (\<lambda>sv.
     bindM c (\<lambda>err.
     seqM (or_raise E (restore_regs sv) ERROR_INCORRECT_VALUE)
          (if err \<noteq> ERROR_SUCCESS
           then bindM user_exception_ref (\<lambda>q. seqM (set_error_with E err q False) fail)
           else ret ())))"

definition memo_fully_force :: "env \<Rightarrow> callbacks \<Rightarrow> loc \<Rightarrow> unit act" where
  "memo_fully_force E cb l = with_saved_regs E (vm_fully_force cb l)"

definition memo_fully_force_return_value :: "env \<Rightarrow> callbacks \<Rightarrow> unit act" where
  "memo_fully_force_return_value E cb = with_saved_regs E (vm_fully_force_return_value E cb)"

definition pushed_values :: "vm_value list act" where
  "pushed_values = (\<lambda>s. let r = regs s in
     if abp2 r + ac2 r \<le> length (stack s) then (Done (take (ac2 r) (drop (abp2 r) (stack s))), s)
     else (Undefined, s))"

section \<open>The four basic strategies\<close>

definition lazy_pre_enter :: "env \<Rightarrow> nat \<Rightarrow> int \<Rightarrow> bool act" where
  "lazy_pre_enter E i vt =
     bindM (reading (\<lambda>s. ac2 (regs s))) (\<lambda>n.
     bindM (or_raise E (bindM (gc_new_object E OBJECT_TYPE_LAZY_VALUE (of_nat n)) (\<lambda>q.
              case q of None \<Rightarrow> fail | Some q \<Rightarrow> ret q)) ERROR_OUT_OF_MEMORY) (\<lambda>q.
     bindM pushed_values (\<lambda>args.
     seqM (put_object q (Object False (LazyValue \<lparr>lz_locked = False, lz_value_type = vt,
             lz_must_be_shared = False, lz_value = VError, lz_fun = i, lz_args = args\<rparr>)))
    (seqM (set_rv (return_value_of (VLazy False q))) (ret False)))))"

definition memo_pre_enter :: "env \<Rightarrow> callbacks \<Rightarrow> nat \<Rightarrow> int \<Rightarrow> bool act" where
  "memo_pre_enter E cb i vt =
     bindM (reading regs) (\<lambda>r.
     seqM (forM [0..<ac2 r] (\<lambda>j. bindM (get_stack (abp2 r + j)) (\<lambda>v.
             whenM (is_lazy v) (memo_fully_force E cb (LStack (abp2 r + j))))))
    (bindM (\<lambda>s. if abp2 r + ac2 r \<le> length (stack s)
                 then (Done (take (ac2 r) (drop (abp2 r) (stack s))), s) else (Undefined, s)) (\<lambda>args.
     bindM (fun_result E i vt args) (\<lambda>v.
     if is_error v
     then seqM (set_regs (\<lambda>r. r\<lparr>cached_fun_result_flag := 0\<rparr>)) (ret True)
     else seqM (set_rv (return_value_of v))
         (seqM (set_regs (\<lambda>r. r\<lparr>cached_fun_result_flag := 1\<rparr>)) (ret False))))))"

definition memo_post_leave :: "env \<Rightarrow> callbacks \<Rightarrow> nat \<Rightarrow> int \<Rightarrow> unit act" where
  "memo_post_leave E cb i vt =
     bindM (reading regs) (\<lambda>r. whenM (cached_fun_result_flag r = 0)
      (bindM (deref_m (rv_r (rv r))) (\<lambda>ob.
       seqM (whenM (object_is_lazy ob) (memo_fully_force_return_value E cb))
      (bindM (reading (\<lambda>s. rv (regs s))) (\<lambda>v.
       let add = (\<lambda>w. bindM pushed_values (\<lambda>args. bindM (add_fun_result E i vt args w) (\<lambda>ok.
             if ok then set_regs (\<lambda>r. r\<lparr>cached_fun_result_flag := 1\<rparr>)
             else raise E ERROR_OUT_OF_MEMORY)))
       in if vt = VALUE_TYPE_INT then add (VInt (rv_i v))
          else if vt = VALUE_TYPE_FLOAT then add (VFloat (rv_f v))
          else if vt = VALUE_TYPE_REF then add (VRef (rv_r v))
          else raise E ERROR_INCORRECT_VALUE)))))"

text \<open>The table of virtual methods of the eager, lazy, memoizing and memoizing lazy strategy.\<close>

fun base_pre_enter :: "env \<Rightarrow> callbacks \<Rightarrow> strategy \<Rightarrow> nat \<Rightarrow> int \<Rightarrow> bool act" where
  "base_pre_enter E cb LazyStrategy i vt = lazy_pre_enter E i vt"
| "base_pre_enter E cb MemoLazyStrategy i vt = lazy_pre_enter E i vt"
| "base_pre_enter E cb MemoStrategy i vt = memo_pre_enter E cb i vt"
| "base_pre_enter E cb _ i vt = ret True"

fun base_post_leave :: "env \<Rightarrow> callbacks \<Rightarrow> strategy \<Rightarrow> nat \<Rightarrow> int \<Rightarrow> unit act" where
  "base_post_leave E cb MemoStrategy i vt = memo_post_leave E cb i vt"
| "base_post_leave E cb _ i vt = ret ()"

fun base_pre_enter_for_force :: "env \<Rightarrow> callbacks \<Rightarrow> strategy \<Rightarrow> nat \<Rightarrow> int \<Rightarrow> bool act" where
  "base_pre_enter_for_force E cb MemoStrategy i vt = memo_pre_enter E cb i vt"
| "base_pre_enter_for_force E cb MemoLazyStrategy i vt = memo_pre_enter E cb i vt"
| "base_pre_enter_for_force E cb _ i vt = ret True"

fun base_post_leave_for_force :: "env \<Rightarrow> callbacks \<Rightarrow> strategy \<Rightarrow> nat \<Rightarrow> int \<Rightarrow> unit act" where
  "base_post_leave_for_force E cb MemoStrategy i vt = memo_post_leave E cb i vt"
| "base_post_leave_for_force E cb MemoLazyStrategy i vt = memo_post_leave E cb i vt"
| "base_post_leave_for_force E cb _ i vt = ret ()"

section \<open>The strategy per function\<close>

definition strategy_of_number :: "nat \<Rightarrow> strategy option" where
  "strategy_of_number k = (if k = 0 then Some EagerStrategy else if k = 1 then Some LazyStrategy
     else if k = 2 then Some MemoStrategy else if k = 3 then Some MemoLazyStrategy else None)"

text \<open>\<open>fun_eval_strategy\<close> of vm/vm.hpp, on the two words of a function's information.\<close>

definition fun_eval_strategy :: "u32 \<times> u32 \<Rightarrow> u32 \<Rightarrow> u32" where
  "fun_eval_strategy info def = (def OR fst info) AND snd info AND 3"

fun fun_triples_from :: "(u32 \<times> u32) list \<Rightarrow> u32 \<Rightarrow> nat \<Rightarrow> nat \<Rightarrow> fun_triple list" where
  "fun_triples_from [] def i memoized = []"
| "fun_triples_from (info # infos) def i memoized =
     (let es = fun_eval_strategy info def in
      if es AND 2 = 0
      then \<lparr>eval_strategy_fun_index = i, eval_strategy_fun_index_for_force = i, eval_strategy = unat es\<rparr>
           # fun_triples_from infos def (Suc i) memoized
      else \<lparr>eval_strategy_fun_index = (if es AND 1 = 0 then memoized else i),
            eval_strategy_fun_index_for_force = memoized, eval_strategy = unat es\<rparr>
           # fun_triples_from infos def (Suc i) (Suc memoized))"

definition set_fun_infos_and_fun_count :: "(u32 \<times> u32) list \<Rightarrow> u32 \<Rightarrow> fun_triple list" where
  "set_fun_infos_and_fun_count infos def = fun_triples_from infos def 0 0"

definition via_triple :: "env \<Rightarrow> (fun_triple \<Rightarrow> nat) \<Rightarrow> nat \<Rightarrow> (strategy \<Rightarrow> nat \<Rightarrow> 'a act) \<Rightarrow> 'a act" where
  "via_triple E index i f =
     (if i < length (e_fun_triples E)
      then let t = e_fun_triples E ! i in
        (case strategy_of_number (eval_strategy t) of None \<Rightarrow> undef | Some st \<Rightarrow> f st (index t))
      else undef)"

section \<open>The strategy of the virtual machine\<close>

definition pre_enter_to_fun :: "env \<Rightarrow> callbacks \<Rightarrow> nat \<Rightarrow> int \<Rightarrow> bool act" where
  "pre_enter_to_fun E cb i vt = (if e_strategy E = FunStrategy
     then via_triple E eval_strategy_fun_index i (\<lambda>st j. base_pre_enter E cb st j vt)
     else base_pre_enter E cb (e_strategy E) i vt)"

definition post_leave_from_fun :: "env \<Rightarrow> callbacks \<Rightarrow> nat \<Rightarrow> int \<Rightarrow> unit act" where
  "post_leave_from_fun E cb i vt = (if e_strategy E = FunStrategy
     then via_triple E eval_strategy_fun_index i (\<lambda>st j. base_post_leave E cb st j vt)
     else base_post_leave E cb (e_strategy E) i vt)"

definition pre_enter_to_fun_for_force :: "env \<Rightarrow> callbacks \<Rightarrow> nat \<Rightarrow> int \<Rightarrow> bool act" where
  "pre_enter_to_fun_for_force E cb i vt = (if e_strategy E = FunStrategy
     then via_triple E eval_strategy_fun_index_for_force i (\<lambda>st j. base_pre_enter_for_force E cb st j vt)
     else base_pre_enter_for_force E cb (e_strategy E) i vt)"

definition post_leave_from_fun_for_force :: "env \<Rightarrow> callbacks \<Rightarrow> nat \<Rightarrow> int \<Rightarrow> unit act" where
  "post_leave_from_fun_for_force E cb i vt = (if e_strategy E = FunStrategy
     then via_triple E eval_strategy_fun_index_for_force i (\<lambda>st j. base_post_leave_for_force E cb st j vt)
     else base_post_leave_for_force E cb (e_strategy E) i vt)"

text \<open>\<open>must_pre_enter_to_fun\<close> and \<open>must_post_leave_from_fun\<close> tell callers outside of the
  interpreter whether the two functions do anything.\<close>

fun base_must_pre_enter :: "strategy \<Rightarrow> bool" where
  "base_must_pre_enter EagerStrategy = False"
| "base_must_pre_enter _ = True"

fun base_must_post_leave :: "strategy \<Rightarrow> bool" where
  "base_must_post_leave MemoStrategy = True"
| "base_must_post_leave _ = False"

end
