(* ===== verification/Interp_Force.thy ===== *)
theory Interp_Force
  imports Strategies
begin

unbundle bit_operations_syntax

text \<open>
  Calls of functions and the forcing of lazy values (vm/vm/interp_vm.cpp, from
  \<open>enter_to_fun\<close> to \<open>fully_force_rv\<close>). A lazy value is forced by calling its function on the
  same stack; while the function runs, the mutex of the lazy value stays locked and the words over the
  caller's local variables say where to go on. The loops that may run forever go on through the
  callbacks.
\<close>

section \<open>Calls\<close>

text \<open>
  The three variants of \<open>call_fun\<close> return true when the result is known without a call. They return
  false both after the function was entered, with \<open>rv\<close> free of errors, and after an error.
\<close>

definition enter_or_raise :: "env \<Rightarrow> nat \<Rightarrow> unit act" where
  "enter_or_raise E i = seqM (or_raise E (enter_to_fun i) ERROR_STACK_OVERFLOW) fail"

definition call_fun :: "env \<Rightarrow> callbacks \<Rightarrow> nat \<Rightarrow> int \<Rightarrow> unit act" where
  "call_fun E cb i vt = seqM (check_fun E i)
     (bindM (pre_enter_to_fun E cb i vt) (\<lambda>enter. if enter then enter_or_raise E i else ret ()))"

definition call_fun_for_force :: "env \<Rightarrow> nat \<Rightarrow> unit act" where
  "call_fun_for_force E i = seqM (check_fun E i) (enter_or_raise E i)"

definition call_fun_for_force_with_eval_strategy :: "env \<Rightarrow> callbacks \<Rightarrow> nat \<Rightarrow> int \<Rightarrow> unit act" where
  "call_fun_for_force_with_eval_strategy E cb i vt = seqM (check_fun E i)
     (bindM (pre_enter_to_fun_for_force E cb i vt) (\<lambda>enter. if enter then enter_or_raise E i else ret ()))"

section \<open>The mutex of a lazy value\<close>

definition lazy_m :: "ref \<Rightarrow> lazy_value act" where
  "lazy_m q = bindM (deref_m q) (\<lambda>ob. case body ob of LazyValue z \<Rightarrow> ret z | _ \<Rightarrow> undef)"

definition put_lazy :: "ref \<Rightarrow> (lazy_value \<Rightarrow> lazy_value) \<Rightarrow> unit act" where
  "put_lazy q f = bindM (deref_m q) (\<lambda>ob. case body ob of
     LazyValue z \<Rightarrow> put_object q (Object (has_unique_flag ob) (LazyValue (f z))) | _ \<Rightarrow> undef)"

text \<open>Locking a mutex that the thread itself holds, and unlocking one that is not locked, are
  undefined; adopting one needs it to be locked.\<close>

definition lock_lazy :: "ref \<Rightarrow> unit act" where
  "lock_lazy q = bindM (lazy_m q) (\<lambda>z. if lz_locked z then undef else put_lazy q (\<lambda>z. z\<lparr>lz_locked := True\<rparr>))"

definition adopt_lazy :: "ref \<Rightarrow> unit act" where
  "adopt_lazy q = bindM (lazy_m q) (\<lambda>z. if lz_locked z then ret () else undef)"

definition unlock_lazy :: "ref \<Rightarrow> unit act" where
  "unlock_lazy q = bindM (lazy_m q) (\<lambda>z. if lz_locked z then put_lazy q (\<lambda>z. z\<lparr>lz_locked := False\<rparr>) else undef)"

section \<open>Forcing\<close>

text \<open>\<open>*(cancelation_undo_types[i]) = VALUE_TYPE_REF\<close>: the tag is overwritten, the reference stays.\<close>

definition undo_cancelation :: "loc \<Rightarrow> unit act" where
  "undo_cancelation l = bindM (get_loc l) (\<lambda>v. case v of
     VCanceled q \<Rightarrow> put_loc l (VRef q) | VRef q \<Rightarrow> ret () | _ \<Rightarrow> undef)"

primrec mapM_acts :: "loc list \<Rightarrow> (loc \<Rightarrow> unit act) \<Rightarrow> unit act" where
  "mapM_acts [] f = ret ()"
| "mapM_acts (l # ls) f = seqM (f l) (mapM_acts ls f)"

definition reading_regs :: "(registers \<Rightarrow> 'a) \<Rightarrow> 'a act" where
  "reading_regs f = reading (\<lambda>s. f (regs s))"

text \<open>
  The call that computes a lazy value. \<open>Done (Some ())\<close>: the result is in \<open>rv\<close>.
  \<open>Done None\<close>: return false without unlocking the mutex. A failure: return false, and the guard of
  the mutex unlocks it.
\<close>

definition call_lazy :: "env \<Rightarrow> callbacks \<Rightarrow> ref \<Rightarrow> bool \<Rightarrow> unit option act" where
  "call_lazy E cb q is_try =
     bindM (reading_regs arg_instr_flag) (\<lambda>af.
     seqM (whenM (\<not> af) hide_args)
    (seqM (interp_push_tmp_ac2_and_flag1 E)
    (seqM (interp_push_ai E)
    (seqM (interp_push_locked_lazy_value_ref E q)
    (bindM (lazy_m q) (\<lambda>z.
     bindM (reading_regs abp2) (\<lambda>tmp_abp2.
     seqM (forM [0..<length (lz_args z)] (\<lambda>i. interp_push_arg E (lz_args z ! i)))
    (seqM (set_regs (\<lambda>r. r\<lparr>alf_index := 1\<rparr>))
    (seqM (whenM is_try set_try_regs_for_force)
    (bindM (attempt (call_fun_for_force_with_eval_strategy E cb (lz_fun z) (lz_value_type z))) (\<lambda>called.
     case called of
       None \<Rightarrow>
         bindM (reading_regs (\<lambda>r. rv_error (rv r))) (\<lambda>err.
         bindM (reading_regs cancelation_undo) (\<lambda>ls.
         seqM (whenM (err = ERROR_SUCCESS) (mapM_acts ls undo_cancelation))
        (bindM (reading_regs abp2) (\<lambda>b.
         if err = ERROR_SUCCESS \<or> tmp_abp2 > b then ret None else fail))))
     | Some _ \<Rightarrow>
         bindM (lazy_m q) (\<lambda>z.
         bindM (attempt (post_leave_from_fun_for_force E cb (lz_fun z) (lz_value_type z))) (\<lambda>left.
         case left of
           None \<Rightarrow> bindM (reading_regs abp2) (\<lambda>b. if tmp_abp2 > b then ret None else fail)
         | Some _ \<Rightarrow> seqM (restore_and_pop_regs_for_force E) (ret (Some ())))))))))))))))"

text \<open>The result is stored in the lazy value, when it has the promised type.\<close>

definition store_by_type :: "env \<Rightarrow> ref \<Rightarrow> vm_value \<Rightarrow> vm_value \<Rightarrow> vm_value \<Rightarrow> unit act" where
  "store_by_type E q vi vf vr = bindM (lazy_m q) (\<lambda>z.
     if lz_value_type z = VALUE_TYPE_INT then put_lazy q (\<lambda>z. z\<lparr>lz_value := vi\<rparr>)
     else if lz_value_type z = VALUE_TYPE_FLOAT then put_lazy q (\<lambda>z. z\<lparr>lz_value := vf\<rparr>)
     else if lz_value_type z = VALUE_TYPE_REF then put_lazy q (\<lambda>z. z\<lparr>lz_value := vr\<rparr>)
     else if lz_value_type z = VALUE_TYPE_CANCELED_REF then raise E ERROR_AGAIN_USED_UNIQUE
     else raise E ERROR_INCORRECT_VALUE)"

definition store_lazy_result :: "env \<Rightarrow> ref \<Rightarrow> unit act" where
  "store_lazy_result E q =
     bindM (reading_regs rv) (\<lambda>v.
     bindM (deref_m (rv_r v)) (\<lambda>ob.
     if \<not> object_is_lazy ob
     then store_by_type E q (VInt (rv_i v)) (VFloat (rv_f v)) (VRef (rv_r v))
     else bindM (lazy_m q) (\<lambda>z. bindM (lazy_m (rv_r v)) (\<lambda>z'.
       if lz_value_type z = lz_value_type z'
       then put_lazy q (\<lambda>z. z\<lparr>lz_value := VLazy (rv_i v \<noteq> 0) (rv_r v)\<rparr>)
       else store_by_type E q (VInt 0) (VFloat 0) (VRef RNil)))))"

text \<open>Computing the lazy value under its mutex; the results are those of \<open>call_lazy\<close>.\<close>

definition evaluate_lazy :: "env \<Rightarrow> callbacks \<Rightarrow> ref \<Rightarrow> bool \<Rightarrow> unit option act" where
  "evaluate_lazy E cb q is_try = bindM (lazy_m q) (\<lambda>z.
     if is_error (lz_value z)
     then bindM (reading_regs alf1) (\<lambda>resumed.
       bindM (if resumed then ret (Some ()) else call_lazy E cb q is_try) (\<lambda>x. case x of
         None \<Rightarrow> ret None
       | Some _ \<Rightarrow>
           seqM (set_regs (\<lambda>r. r\<lparr>alf1 := False\<rparr>)) (seqM (store_lazy_result E q) (ret (Some ())))))
     else ret (Some ()))"

text \<open>A unique result can be taken out once: the lazy value keeps a canceled reference.\<close>

definition take_lazy_result :: "ref \<Rightarrow> (vm_value \<times> bool) act" where
  "take_lazy_result q = bindM (lazy_m q) (\<lambda>z.
     bindM (if lz_value_type z = VALUE_TYPE_REF then value_is_unique_m (lz_value z) else ret False) (\<lambda>u.
     seqM (whenM u (put_lazy q (\<lambda>z. z\<lparr>lz_value := snd (cancel_ref (lz_value z))\<rparr>)))
          (ret (lz_value z, lz_must_be_shared z))))"

definition check_lazy_result :: "env \<Rightarrow> loc \<Rightarrow> ref \<Rightarrow> vm_value \<Rightarrow> bool \<Rightarrow> unit act" where
  "check_lazy_result E l q w must_be_shared = bindM (lazy_m q) (\<lambda>z.
     if lz_value_type z = VALUE_TYPE_REF \<and> value_type w = VALUE_TYPE_CANCELED_REF
     then raise E ERROR_AGAIN_USED_UNIQUE
     else bindM (value_is_unique_m w) (\<lambda>u.
       if \<not> u then ret ()
       else bindM (get_loc l) (\<lambda>v.
         if is_lazily_canceled v then raise E ERROR_AGAIN_USED_UNIQUE
         else if must_be_shared then raise E ERROR_UNIQUE_OBJECT
         else ret ())))"

fun lazy_ref :: "vm_value \<Rightarrow> ref" where
  "lazy_ref (VLazy _ q) = q"
| "lazy_ref _ = RNil"

definition force_value :: "env \<Rightarrow> callbacks \<Rightarrow> loc \<Rightarrow> bool \<Rightarrow> unit act" where
  "force_value E cb l is_try = bindM (get_loc l) (\<lambda>v.
     if \<not> is_lazy v then ret ()
     else let q = lazy_ref v in
       bindM (reading_regs alf1) (\<lambda>resumed.
       seqM (if resumed then adopt_lazy q else lock_lazy q)
      (bindM (attempt (evaluate_lazy E cb q is_try)) (\<lambda>x. case x of
         None \<Rightarrow> seqM (unlock_lazy q) fail
       | Some None \<Rightarrow> fail
       | Some (Some _) \<Rightarrow>
           bindM (take_lazy_result q) (\<lambda>(w, must_be_shared).
           seqM (unlock_lazy q)
          (seqM (check_lazy_result E l q w must_be_shared)
          (seqM (set_tmp_r q)
          (seqM (put_loc l w)
          (seqM (set_tmp_r RNil)
                (cb_force_value cb l is_try))))))))))"

definition force_rv :: "env \<Rightarrow> callbacks \<Rightarrow> bool \<Rightarrow> unit act" where
  "force_rv E cb is_try =
     seqM (set_regs (\<lambda>r. if \<not> alf1 r then r\<lparr>force_tmp_rv := rv r\<rparr> else r))
    (bindM (reading_regs force_tmp_rv) (\<lambda>v.
     bindM (deref_m (rv_r v)) (\<lambda>ob.
     whenM (object_is_lazy ob)
       (with_local (VLazy False (rv_r v)) (\<lambda>l.
          seqM (force_value E cb l is_try)
         (bindM (get_loc l) (\<lambda>w. set_regs (\<lambda>r. r\<lparr>rv := return_value_of w, force_tmp_rv := no_return_value\<rparr>))))))))"

definition force_int :: "env \<Rightarrow> callbacks \<Rightarrow> loc \<Rightarrow> u64 act" where
  "force_int E cb l = seqM (force_value E cb l False) (bindM (get_loc l) (\<lambda>v. ret (value_i v)))"

definition force_float :: "env \<Rightarrow> callbacks \<Rightarrow> loc \<Rightarrow> float64 act" where
  "force_float E cb l = seqM (force_value E cb l False) (bindM (get_loc l) (\<lambda>v. ret (value_f v)))"

definition force_ref :: "env \<Rightarrow> callbacks \<Rightarrow> loc \<Rightarrow> ref act" where
  "force_ref E cb l = seqM (force_value E cb l False) (bindM (get_loc l) (\<lambda>v. ret (value_r v)))"

text \<open>The index of the loop is the register \<open>ai\<close>, so that the loop can be resumed.\<close>

primrec force_args_from :: "env \<Rightarrow> callbacks \<Rightarrow> nat \<Rightarrow> unit act" where
  "force_args_from E cb 0 = nofuel"
| "force_args_from E cb (Suc k) = bindM (reading regs) (\<lambda>r.
     if unat (ai r) < ac2 r
     then seqM (force_value E cb (pushed_arg_loc r (unat (ai r))) False)
         (seqM (set_regs (\<lambda>r. r\<lparr>ai := ai r + 1\<rparr>)) (force_args_from E cb k))
     else ret ())"

definition force_pushed_args :: "env \<Rightarrow> callbacks \<Rightarrow> unit act" where
  "force_pushed_args E cb =
     (if is_eager E then ret ()
      else seqM (set_regs (\<lambda>r. if \<not> alf1 r then r\<lparr>ai := 0\<rparr> else r))
          (bindM (reading_regs ac2) (\<lambda>n. force_args_from E cb (Suc n))))"

section \<open>Forcing from outside of the interpreter loop\<close>

text \<open>After the function of a lazy value was left: the guard of \<open>interpret_instr\<close> and of this loop.\<close>

definition after_forced_call :: "env \<Rightarrow> callbacks \<Rightarrow> unit act" where
  "after_forced_call E cb = bindM (reading_regs (\<lambda>r. rv_error (rv r))) (\<lambda>err.
     whenM (err = ERROR_SUCCESS)
       (bindM (interp_get_locked_lazy_value_ref E) (\<lambda>q. bindM (lazy_m q) (\<lambda>z.
          post_leave_from_fun_for_force E cb (lz_fun z) (lz_value_type z)))))"

definition resume_force :: "env \<Rightarrow> callbacks \<Rightarrow> loc \<Rightarrow> unit act" where
  "resume_force E cb l =
     seqM (cb_interpret cb)
    (bindM (reading_regs alf1) (\<lambda>left.
     if \<not> left then ret ()
     else bindM (attempt (seqM (after_forced_call E cb) (restore_and_pop_regs_for_force E))) (\<lambda>x. case x of
         None \<Rightarrow> ret ()
       | Some _ \<Rightarrow>
           seqM (set_regs (\<lambda>r. r\<lparr>cancelation_undo := []\<rparr>))
          (bindM (attempt (force_value E cb l False)) (\<lambda>y.
           bindM (reading_regs (\<lambda>r. rv_error (rv r))) (\<lambda>err.
           if y = None \<and> err = ERROR_SUCCESS then cb_resume_force cb l else ret ()))))))"

definition force_value_and_interpret :: "env \<Rightarrow> callbacks \<Rightarrow> loc \<Rightarrow> unit act" where
  "force_value_and_interpret E cb l =
     bindM (reading regs) (\<lambda>saved.
     seqM (set_regs (\<lambda>r. r\<lparr>alf0 := False, alf1 := False, alf_index := 0, cancelation_undo := []\<rparr>))
    (bindM (attempt (force_value E cb l False)) (\<lambda>x.
     bindM (reading_regs (\<lambda>r. rv_error (rv r))) (\<lambda>err.
     seqM (whenM (x = None \<and> err = ERROR_SUCCESS) (resume_force E cb l))
    (seqM (set_regs (\<lambda>r. r\<lparr>alf0 := alf0 saved, alf1 := alf1 saved, alf_index := alf_index saved\<rparr>))
    (bindM (reading_regs (\<lambda>r. rv_error (rv r))) (\<lambda>err.
     if err \<noteq> ERROR_SUCCESS then fail else ret ())))))))"

section \<open>Forcing all the way\<close>

definition elem_m :: "env \<Rightarrow> ref \<Rightarrow> nat \<Rightarrow> vm_value act" where
  "elem_m E q i = bindM (deref_m q) (\<lambda>ob. case elem (e_fpu E) ob i of None \<Rightarrow> undef | Some v \<Rightarrow> ret v)"

fun store_in_sink :: "env \<Rightarrow> sink \<Rightarrow> ref \<Rightarrow> unit act" where
  "store_in_sink E SForceTmp q = set_regs (\<lambda>r. r\<lparr>force_tmp_r := q\<rparr>)"
| "store_in_sink E SForceTmp2 q = set_regs (\<lambda>r. r\<lparr>force_tmp_r2 := q\<rparr>)"
| "store_in_sink E (SElem q' i) q = set_elem_m E q' i (VRef q)"

text \<open>The reference a value holds; it is read again in every round of the loops.\<close>

definition ref_at :: "loc \<Rightarrow> ref act" where
  "ref_at l = bindM (get_loc l) (\<lambda>v. case v of VRef q \<Rightarrow> ret q | _ \<Rightarrow> undef)"

text \<open>A shared array or tuple is copied, and the elements of the copy are forced.\<close>

definition force_copy :: "env \<Rightarrow> callbacks \<Rightarrow> loc \<Rightarrow> sink \<Rightarrow> int \<Rightarrow> vm_value \<Rightarrow> nat \<Rightarrow> unit act" where
  "force_copy E cb l sink t init n =
     bindM (new_object E t (of_nat n)) (\<lambda>r.
     seqM (forM [0..<n] (\<lambda>i. set_elem_m E r i init))
    (seqM (store_in_sink E sink r)
    (seqM (set_gc_tmp_ptr None)
    (seqM (forM [0..<n] (\<lambda>i. bindM (ref_at l) (\<lambda>q. bindM (elem_m E q i) (\<lambda>v.
             with_local v (\<lambda>tl. seqM (cb_fully_force_value cb tl (SElem r i))
               (bindM (get_loc tl) (\<lambda>w. set_elem_m E r i w)))))))
          (put_loc l (VRef r))))))"

text \<open>The elements of a unique one are forced in place.\<close>

definition force_in_place :: "env \<Rightarrow> callbacks \<Rightarrow> loc \<Rightarrow> bool \<Rightarrow> nat \<Rightarrow> unit act" where
  "force_in_place E cb l is_tuple n =
     forM [0..<n] (\<lambda>i. bindM (ref_at l) (\<lambda>q. bindM (elem_m E q i) (\<lambda>v.
       with_local v (\<lambda>tl. seqM (cb_fully_force_value cb tl SForceTmp2)
         (bindM (get_loc tl) (\<lambda>w. bindM (ref_at l) (\<lambda>q.
          seqM (whenM is_tuple (set_tmp_r (value_r w)))
         (seqM (set_elem_m E q i w)
         (seqM (whenM is_tuple (set_tmp_r RNil))
               (set_regs (\<lambda>r. r\<lparr>force_tmp_r2 := RNil\<rparr>)))))))))))"

definition fully_force_value :: "env \<Rightarrow> callbacks \<Rightarrow> loc \<Rightarrow> sink \<Rightarrow> unit act" where
  "fully_force_value E cb l sink =
     seqM (force_value_and_interpret E cb l)
    (bindM (get_loc l) (\<lambda>v. case v of
       VRef q \<Rightarrow> bindM (deref_m q) (\<lambda>ob.
         let t = object_type ob; n = object_length ob in
         if t = OBJECT_TYPE_RARRAY then force_copy E cb l sink OBJECT_TYPE_RARRAY (VRef RNil) n
         else if t = OBJECT_TYPE_RARRAY OR OBJECT_TYPE_UNIQUE then force_in_place E cb l False n
         else if t = OBJECT_TYPE_TUPLE then force_copy E cb l sink OBJECT_TYPE_TUPLE VError n
         else if t = OBJECT_TYPE_TUPLE OR OBJECT_TYPE_UNIQUE then force_in_place E cb l True n
         else ret ())
     | _ \<Rightarrow> ret ()))"

section \<open>The methods of the virtual machine\<close>

definition vm_force :: "env \<Rightarrow> callbacks \<Rightarrow> loc \<Rightarrow> int act" where
  "vm_force E cb l = error_code (force_value_and_interpret E cb l)"

definition call_and_interpret :: "env \<Rightarrow> callbacks \<Rightarrow> nat \<Rightarrow> unit act" where
  "call_and_interpret E cb i = bindM (attempt (call_fun_for_force E i)) (\<lambda>x.
     bindM (reading_regs (\<lambda>r. rv_error (rv r))) (\<lambda>err.
     whenM (x = None \<and> err = ERROR_SUCCESS) (cb_interpret cb)))"

primrec push_all_args :: "env \<Rightarrow> vm_value list \<Rightarrow> unit act" where
  "push_all_args E [] = ret ()"
| "push_all_args E (v # vs) = seqM (interp_push_arg E v) (push_all_args E vs)"

definition vm_invoke_fun :: "env \<Rightarrow> callbacks \<Rightarrow> nat \<Rightarrow> vm_value list \<Rightarrow> return_value act" where
  "vm_invoke_fun E cb i args = bindM (attempt (push_all_args E args)) (\<lambda>x. case x of
     None \<Rightarrow> reading_regs rv
   | Some _ \<Rightarrow> seqM (call_and_interpret E cb i) (reading_regs rv))"

definition start_in_thread :: "env \<Rightarrow> callbacks \<Rightarrow> nat \<Rightarrow> vm_value list \<Rightarrow> bool \<Rightarrow> return_value act" where
  "start_in_thread E cb i args is_force = bindM (attempt (push_all_args E args)) (\<lambda>x. case x of
     None \<Rightarrow> reading_regs rv
   | Some _ \<Rightarrow>
       bindM (attempt (call_fun_for_force E i)) (\<lambda>y.
       bindM (reading_regs (\<lambda>r. rv_error (rv r))) (\<lambda>err.
       seqM (whenM (y = None \<and> err = ERROR_SUCCESS)
              (seqM (cb_interpret cb)
                    (whenM is_force (bindM (attempt (fully_force_rv E cb)) (\<lambda>_. ret ())))))
      (seqM pop_args (reading_regs rv)))))"

end
