(* ===== verification/Interp_Ops.thy ===== *)
theory Interp_Ops
  imports Interp_Force "HOL-Library.Signed_Division"
begin

unbundle bit_operations_syntax

text \<open>
  The operations of the interpreter (\<open>get_int\<close>, \<open>get_float\<close>, \<open>get_ref\<close> and
  \<open>interpret_op\<close> of vm/vm/interp_vm.cpp). The operations come in families over the kind of array,
  so a family is one definition with the kind as a parameter. A failure is the error value: either an error
  was raised, or a function was entered and the instruction will be run again after it.
\<close>

section \<open>Operands that are forced\<close>

definition get_int_at :: "env \<Rightarrow> callbacks \<Rightarrow> loc \<Rightarrow> u64 act" where
  "get_int_at E cb l = bindM (get_loc l) (\<lambda>v. case v of
     VInt i \<Rightarrow> ret i
   | _ \<Rightarrow> bindM (lazy_of_type v VALUE_TYPE_INT) (\<lambda>ok.
       if ok then force_int E cb l else raise E ERROR_INCORRECT_VALUE))"

definition get_float_at :: "env \<Rightarrow> callbacks \<Rightarrow> loc \<Rightarrow> float64 act" where
  "get_float_at E cb l = bindM (get_loc l) (\<lambda>v. case v of
     VFloat f \<Rightarrow> ret f
   | _ \<Rightarrow> bindM (lazy_of_type v VALUE_TYPE_FLOAT) (\<lambda>ok.
       if ok then force_float E cb l else raise E ERROR_INCORRECT_VALUE))"

definition get_ref_at :: "env \<Rightarrow> callbacks \<Rightarrow> loc \<Rightarrow> ref act" where
  "get_ref_at E cb l = bindM (get_loc l) (\<lambda>v. case v of
     VRef q \<Rightarrow> bindM (deref_m q) (\<lambda>ob.
       seqM (whenM (object_is_unique ob)
              (seqM (put_loc l (snd (cancel_ref v))) (add_cancelation_undo_type l)))
            (ret q))
   | _ \<Rightarrow> bindM (lazy_of_type v VALUE_TYPE_REF) (\<lambda>ok.
       if ok then force_ref E cb l
       else if value_type v = VALUE_TYPE_CANCELED_REF then raise E ERROR_AGAIN_USED_UNIQUE
       else raise E ERROR_INCORRECT_VALUE))"

definition get_int :: "env \<Rightarrow> callbacks \<Rightarrow> u32 \<Rightarrow> u32 \<Rightarrow> nat \<Rightarrow> nat \<Rightarrow> (u64 \<times> nat) act" where
  "get_int E cb at a = get_operand E (get_int_at E cb) (Some (scast a)) (get_int_for_const_value E) (Some id) at a"

definition get_float :: "env \<Rightarrow> callbacks \<Rightarrow> u32 \<Rightarrow> u32 \<Rightarrow> nat \<Rightarrow> nat \<Rightarrow> (float64 \<times> nat) act" where
  "get_float E cb at a = get_operand E (get_float_at E cb)
     (Some (f_widen (e_fpu E) (format_float_to_float a))) (get_float_for_const_value E) (Some id) at a"

text \<open>Under a popped unique reference the reference itself is written back, not the canceled one.\<close>

fun uncanceled :: "vm_value \<Rightarrow> vm_value" where
  "uncanceled (VCanceled q) = VRef q"
| "uncanceled v = v"

definition get_ref :: "env \<Rightarrow> callbacks \<Rightarrow> u32 \<Rightarrow> u32 \<Rightarrow> nat \<Rightarrow> nat \<Rightarrow> (ref \<times> nat) act" where
  "get_ref E cb at a = get_operand E (get_ref_at E cb) None (get_ref_for_const_value E) (Some uncanceled) at a"

section \<open>Instructions with one and two operands\<close>

type_synonym 'a getter = "u32 \<Rightarrow> u32 \<Rightarrow> nat \<Rightarrow> nat \<Rightarrow> ('a \<times> nat) act"

definition pop_count1 :: "instruction \<Rightarrow> nat" where
  "pop_count1 ins = expr_pop_arg_count1 (opcode_to_arg_type1 (i_opcode ins))"

definition pop_count2 :: "instruction \<Rightarrow> nat" where
  "pop_count2 ins = expr_pop_arg_count2 (opcode_to_arg_type1 (i_opcode ins)) (opcode_to_arg_type2 (i_opcode ins))"

definition fetch1 :: "'a getter \<Rightarrow> instruction \<Rightarrow> 'a act" where
  "fetch1 g ins = bindM (g (opcode_to_arg_type1 (i_opcode ins)) (i_arg1 ins) 0 (pop_count1 ins)) (\<lambda>(x, j). ret x)"

definition fetch2 :: "'a getter \<Rightarrow> 'b getter \<Rightarrow> instruction \<Rightarrow> ('a \<times> 'b) act" where
  "fetch2 g h ins = bindM (g (opcode_to_arg_type1 (i_opcode ins)) (i_arg1 ins) 0 (pop_count2 ins)) (\<lambda>(x, j).
     bindM (h (opcode_to_arg_type2 (i_opcode ins)) (i_arg2 ins) j (pop_count2 ins)) (\<lambda>(y, j). ret (x, y)))"

definition operand1 :: "env \<Rightarrow> 'a getter \<Rightarrow> instruction \<Rightarrow> ('a \<Rightarrow> vm_value act) \<Rightarrow> vm_value act" where
  "operand1 E g ins f = bindM (fetch1 g ins) (\<lambda>x. seqM (pop_expr_values E (pop_count1 ins)) (f x))"

definition operand2 :: "env \<Rightarrow> 'a getter \<Rightarrow> 'b getter \<Rightarrow> instruction \<Rightarrow> ('a \<Rightarrow> 'b \<Rightarrow> vm_value act) \<Rightarrow> vm_value act" where
  "operand2 E g h ins f = bindM (fetch2 g h ins) (\<lambda>(x, y). seqM (pop_expr_values E (pop_count2 ins)) (f x y))"

section \<open>Integer operations\<close>

text \<open>
  Sums, differences and products wrap around, as the machine's instructions do. What traps or differs
  between machines is undefined: the quotient of the least integer by -1, and shifts by a
  negative count or by 64 and more.
\<close>

definition bool_value :: "bool \<Rightarrow> vm_value" where
  "bool_value b = VInt (if b then 1 else 0)"

definition division_overflows :: "u64 \<Rightarrow> u64 \<Rightarrow> bool" where
  "division_overflows i1 i2 \<longleftrightarrow> sint i1 = - (2 ^ 63) \<and> sint i2 = - 1"

definition divide_int :: "env \<Rightarrow> (int \<Rightarrow> int \<Rightarrow> int) \<Rightarrow> u64 \<Rightarrow> u64 \<Rightarrow> vm_value act" where
  "divide_int E f i1 i2 =
     (if i2 = 0 then raise E ERROR_DIV_BY_ZERO
      else if division_overflows i1 i2 then undef
      else ret (VInt (word_of_int (f (sint i1) (sint i2)))))"

definition shift_int :: "(nat \<Rightarrow> u64 \<Rightarrow> u64) \<Rightarrow> u64 \<Rightarrow> u64 \<Rightarrow> vm_value act" where
  "shift_int f i1 i2 = (if unat i2 < 64 then ret (VInt (f (unat i2) i1)) else undef)"

definition int_arith_op :: "env \<Rightarrow> callbacks \<Rightarrow> instruction \<Rightarrow> u32 \<Rightarrow> vm_value act option" where
  "int_arith_op E cb ins op =
    (let one = (\<lambda>f. Some (operand1 E (get_int E cb) ins (\<lambda>i. ret (VInt (f i)))));
         two = (\<lambda>f. Some (operand2 E (get_int E cb) (get_int E cb) ins (\<lambda>i1 i2. ret (VInt (f i1 i2)))));
         dv = (\<lambda>f. Some (operand2 E (get_int E cb) (get_int E cb) ins (divide_int E f)))
     in if op = OP_ILOAD then Some (operand1 E (get_int_value E) ins ret)
        else if op = OP_ILOAD2 then two (\<lambda>i1 i2. push_bit 32 i1 OR (i2 AND 0xffffffff))
        else if op = OP_INEG then one (\<lambda>i. - i)
        else if op = OP_IADD then two (\<lambda>i1 i2. i1 + i2)
        else if op = OP_ISUB then two (\<lambda>i1 i2. i1 - i2)
        else if op = OP_IMUL then two (\<lambda>i1 i2. i1 * i2)
        else if op = OP_IDIV then dv (\<lambda>a b. a sdiv b)
        else if op = OP_IMOD then dv (\<lambda>a b. a smod b)
        else if op = OP_INOT then one (\<lambda>i. NOT i)
        else None)"

definition int_logic_op :: "env \<Rightarrow> callbacks \<Rightarrow> instruction \<Rightarrow> u32 \<Rightarrow> vm_value act option" where
  "int_logic_op E cb ins op =
    (let two = (\<lambda>f. Some (operand2 E (get_int E cb) (get_int E cb) ins (\<lambda>i1 i2. ret (VInt (f i1 i2)))));
         shift = (\<lambda>f. Some (operand2 E (get_int E cb) (get_int E cb) ins (shift_int f)))
     in if op = OP_IAND then two (\<lambda>i1 i2. i1 AND i2)
        else if op = OP_IOR then two (\<lambda>i1 i2. i1 OR i2)
        else if op = OP_IXOR then two (\<lambda>i1 i2. i1 XOR i2)
        else if op = OP_ISHL then shift push_bit
        else if op = OP_ISHR then shift signed_drop_bit
        else if op = OP_ISHRU then shift drop_bit
        else None)"

definition int_compare_op :: "env \<Rightarrow> callbacks \<Rightarrow> instruction \<Rightarrow> u32 \<Rightarrow> vm_value act option" where
  "int_compare_op E cb ins op =
    (let cmp = (\<lambda>p. Some (operand2 E (get_int E cb) (get_int E cb) ins (\<lambda>i1 i2. ret (bool_value (p (sint i1) (sint i2))))))
     in if op = OP_IEQ then cmp (\<lambda>a b. a = b)
        else if op = OP_INE then cmp (\<lambda>a b. a \<noteq> b)
        else if op = OP_ILT then cmp (\<lambda>a b. a < b)
        else if op = OP_IGE then cmp (\<lambda>a b. a \<ge> b)
        else if op = OP_IGT then cmp (\<lambda>a b. a > b)
        else if op = OP_ILE then cmp (\<lambda>a b. a \<le> b)
        else None)"

section \<open>Floating-point operations\<close>

definition float_arith_op :: "env \<Rightarrow> callbacks \<Rightarrow> instruction \<Rightarrow> u32 \<Rightarrow> vm_value act option" where
  "float_arith_op E cb ins op =
    (let F = e_fpu E;
         two = (\<lambda>f. Some (operand2 E (get_float E cb) (get_float E cb) ins (\<lambda>x y. ret (VFloat (f x y)))))
     in if op = OP_FLOAD then Some (operand1 E (get_float_value E) ins ret)
        else if op = OP_FLOAD2 then Some (operand2 E (get_int E cb) (get_int E cb) ins
               (\<lambda>i1 i2. ret (VFloat (format_double_to_double (push_bit 32 i1 OR (i2 AND 0xffffffff))))))
        else if op = OP_FNEG then Some (operand1 E (get_float E cb) ins (\<lambda>x. ret (VFloat (f_neg x))))
        else if op = OP_FADD then two (f_add F)
        else if op = OP_FSUB then two (f_sub F)
        else if op = OP_FMUL then two (f_mul F)
        else if op = OP_FDIV then two (f_div F)
        else None)"

text \<open>Every comparison with a NaN is false, except \<open>!=\<close>.\<close>

definition float_compare_op :: "env \<Rightarrow> callbacks \<Rightarrow> instruction \<Rightarrow> u32 \<Rightarrow> vm_value act option" where
  "float_compare_op E cb ins op =
    (let F = e_fpu E;
         cmp = (\<lambda>p. Some (operand2 E (get_float E cb) (get_float E cb) ins (\<lambda>x y. ret (bool_value (p x y)))))
     in if op = OP_FEQ then cmp (f_eq F)
        else if op = OP_FNE then cmp (\<lambda>x y. \<not> f_eq F x y)
        else if op = OP_FLT then cmp (f_less F)
        else if op = OP_FGE then cmp (\<lambda>x y. f_leq F y x)
        else if op = OP_FGT then cmp (\<lambda>x y. f_less F y x)
        else if op = OP_FLE then cmp (f_leq F)
        else None)"

definition float_math_op1 :: "env \<Rightarrow> callbacks \<Rightarrow> instruction \<Rightarrow> u32 \<Rightarrow> vm_value act option" where
  "float_math_op1 E cb ins op =
    (let F = e_fpu E;
         one = (\<lambda>f. Some (operand1 E (get_float E cb) ins (\<lambda>x. ret (VFloat (f x)))))
     in if op = OP_FPOW then Some (operand2 E (get_float E cb) (get_float E cb) ins (\<lambda>x y. ret (VFloat (f_pow F x y))))
        else if op = OP_FSQRT then one (f_sqrt F)
        else if op = OP_FEXP then one (f_exp F)
        else if op = OP_FLOG then one (f_log F)
        else if op = OP_FCOS then one (f_cos F)
        else if op = OP_FSIN then one (f_sin F)
        else if op = OP_FTAN then one (f_tan F)
        else None)"

definition float_math_op2 :: "env \<Rightarrow> callbacks \<Rightarrow> instruction \<Rightarrow> u32 \<Rightarrow> vm_value act option" where
  "float_math_op2 E cb ins op =
    (let F = e_fpu E;
         one = (\<lambda>f. Some (operand1 E (get_float E cb) ins (\<lambda>x. ret (VFloat (f x)))))
     in if op = OP_FACOS then one (f_acos F)
        else if op = OP_FASIN then one (f_asin F)
        else if op = OP_FATAN then one (f_atan F)
        else if op = OP_FCEIL then one (f_ceil F)
        else if op = OP_FFLOOR then one (f_floor F)
        else if op = OP_FROUND then one (f_round F)
        else if op = OP_FTRUNC then one (f_trunc F)
        else None)"

end
