(* ===== verification/Interp_Arrays.thy ===== *)
theory Interp_Arrays
  imports Interp_Ops
begin

unbundle bit_operations_syntax

text \<open>
  The operations on arrays and tuples (\<open>interpret_op\<close> of vm/vm/interp_vm.cpp). The code has one
  case for each of eight kinds of array; the eight cases of a family differ in the type number and in the
  member of the union they use.
\<close>

section \<open>Kinds of arrays\<close>

datatype akind = KI8 | KI16 | KI32 | KI64 | KSF | KDF | KR | KT

fun kind_type :: "akind \<Rightarrow> int" where
  "kind_type KI8 = OBJECT_TYPE_IARRAY8"
| "kind_type KI16 = OBJECT_TYPE_IARRAY16"
| "kind_type KI32 = OBJECT_TYPE_IARRAY32"
| "kind_type KI64 = OBJECT_TYPE_IARRAY64"
| "kind_type KSF = OBJECT_TYPE_SFARRAY"
| "kind_type KDF = OBJECT_TYPE_DFARRAY"
| "kind_type KR = OBJECT_TYPE_RARRAY"
| "kind_type KT = OBJECT_TYPE_TUPLE"

definition unique_type :: "akind \<Rightarrow> int" where
  "unique_type k = kind_type k OR OBJECT_TYPE_UNIQUE"

text \<open>The kind an operation number of a family belongs to; the numbers are those of KI8, KI16, ...\<close>

definition kind_of_op :: "u32 \<Rightarrow> u32 list \<Rightarrow> akind option" where
  "kind_of_op op ops = map_of (zip ops [KI8, KI16, KI32, KI64, KSF, KDF, KR, KT]) op"

definition checked :: "env \<Rightarrow> ref \<Rightarrow> int \<Rightarrow> (object \<Rightarrow> 'a act) \<Rightarrow> 'a act" where
  "checked E q t f = bindM (deref_m q) (\<lambda>ob. seqM (check_object_type E ob t) (f ob))"

definition tmp_done :: "ref \<Rightarrow> vm_value act" where
  "tmp_done q = seqM (set_rv (return_value_of (VRef q))) (seqM (set_tmp_r RNil) (ret (VRef q)))"

section \<open>Shared arrays\<close>

text \<open>\<open>RIARRAY8\<close> to \<open>RTUPLE\<close>: an array of the pushed arguments.\<close>

definition check_arg_for_array :: "env \<Rightarrow> akind \<Rightarrow> vm_value \<Rightarrow> unit act" where
  "check_arg_for_array E k v = (case k of
     KT \<Rightarrow> seqM (check_shared_for_value E v) (set_lazy_values_as_shared E v)
   | KR \<Rightarrow> seqM (check_value_type E v VALUE_TYPE_REF)
         (bindM (deref_m (value_r v)) (check_shared_for_object E))
   | KSF \<Rightarrow> check_value_type E v VALUE_TYPE_FLOAT
   | KDF \<Rightarrow> check_value_type E v VALUE_TYPE_FLOAT
   | _ \<Rightarrow> check_value_type E v VALUE_TYPE_INT)"

definition fill_from_args :: "env \<Rightarrow> akind \<Rightarrow> ref \<Rightarrow> nat \<Rightarrow> unit act" where
  "fill_from_args E k q n = forM [0..<n] (\<lambda>i.
     bindM (reading regs) (\<lambda>r. bindM (get_loc (pushed_arg_loc r i)) (\<lambda>v.
       seqM (check_arg_for_array E k v)
      (bindM (get_loc (pushed_arg_loc r i)) (\<lambda>v. set_elem_m E q i v)))))"

definition array_op :: "env \<Rightarrow> callbacks \<Rightarrow> instruction \<Rightarrow> u32 \<Rightarrow> vm_value act option" where
  "array_op E cb ins op = map_option (\<lambda>k.
     seqM (if k = KT then ret () else force_pushed_args E cb)
    (bindM (reading_regs ac2) (\<lambda>n.
     bindM (new_object E (kind_type k) (of_nat n)) (\<lambda>q.
     seqM (fill_from_args E k q n) (ret (VRef q))))))
    (kind_of_op op [OP_RIARRAY8, OP_RIARRAY16, OP_RIARRAY32, OP_RIARRAY64, OP_RSFARRAY, OP_RDFARRAY, OP_RRARRAY, OP_RTUPLE])"

text \<open>\<open>RIANTH8\<close> to \<open>RTNTH\<close>: an element.\<close>

definition nth_op :: "env \<Rightarrow> callbacks \<Rightarrow> instruction \<Rightarrow> u32 \<Rightarrow> vm_value act option" where
  "nth_op E cb ins op = map_option (\<lambda>k.
     operand2 E (get_ref E cb) (get_int E cb) ins (\<lambda>q i.
       checked E q (kind_type k) (\<lambda>ob.
         seqM (check_object_elem_index E ob i) (elem_m E q (unat i)))))
    (kind_of_op op [OP_RIANTH8, OP_RIANTH16, OP_RIANTH32, OP_RIANTH64, OP_RSFANTH, OP_RDFANTH, OP_RRANTH, OP_RTNTH])"

text \<open>\<open>RIALEN8\<close> to \<open>RTLEN\<close>: the length.\<close>

definition length_value :: "object \<Rightarrow> vm_value" where
  "length_value ob = VInt (of_nat (object_length ob))"

definition len_op :: "env \<Rightarrow> callbacks \<Rightarrow> instruction \<Rightarrow> u32 \<Rightarrow> vm_value act option" where
  "len_op E cb ins op = map_option (\<lambda>k.
     operand1 E (get_ref E cb) ins (\<lambda>q. checked E q (kind_type k) (\<lambda>ob. ret (length_value ob))))
    (kind_of_op op [OP_RIALEN8, OP_RIALEN16, OP_RIALEN32, OP_RIALEN64, OP_RSFALEN, OP_RDFALEN, OP_RRALEN, OP_RTLEN])"

text \<open>\<open>RIACAT8\<close> to \<open>RTCAT\<close>: concatenation.\<close>

definition body_append :: "body \<Rightarrow> body \<Rightarrow> body option" where
  "body_append b c = (case (b, c) of
     (IArray8 xs, IArray8 ys) \<Rightarrow> Some (IArray8 (xs @ ys))
   | (IArray16 xs, IArray16 ys) \<Rightarrow> Some (IArray16 (xs @ ys))
   | (IArray32 xs, IArray32 ys) \<Rightarrow> Some (IArray32 (xs @ ys))
   | (IArray64 xs, IArray64 ys) \<Rightarrow> Some (IArray64 (xs @ ys))
   | (SFArray xs, SFArray ys) \<Rightarrow> Some (SFArray (xs @ ys))
   | (DFArray xs, DFArray ys) \<Rightarrow> Some (DFArray (xs @ ys))
   | (RArray xs, RArray ys) \<Rightarrow> Some (RArray (xs @ ys))
   | (Tuple xs, Tuple ys) \<Rightarrow> Some (Tuple (xs @ ys))
   | _ \<Rightarrow> None)"

definition cat_objects :: "env \<Rightarrow> akind \<Rightarrow> ref \<Rightarrow> ref \<Rightarrow> vm_value act" where
  "cat_objects E k q1 q2 =
     checked E q1 (kind_type k) (\<lambda>ob1. checked E q2 (kind_type k) (\<lambda>ob2.
       bindM (add_object_lengths E (object_length ob1) (object_length ob2)) (\<lambda>len.
       bindM (new_object E (kind_type k) len) (\<lambda>q.
       case body_append (body ob1) (body ob2) of
         None \<Rightarrow> undef
       | Some b \<Rightarrow> seqM (put_object q (Object False b)) (ret (VRef q))))))"

definition cat_op :: "env \<Rightarrow> callbacks \<Rightarrow> instruction \<Rightarrow> u32 \<Rightarrow> vm_value act option" where
  "cat_op E cb ins op = map_option (\<lambda>k. operand2 E (get_ref E cb) (get_ref E cb) ins (cat_objects E k))
    (kind_of_op op [OP_RIACAT8, OP_RIACAT16, OP_RIACAT32, OP_RIACAT64, OP_RSFACAT, OP_RDFACAT, OP_RRACAT, OP_RTCAT])"

section \<open>Unique arrays\<close>

text \<open>\<open>RUIAFILL8\<close> to \<open>RUTFILLR\<close>: a new unique array of equal elements.\<close>

definition fill_new :: "env \<Rightarrow> akind \<Rightarrow> u64 \<Rightarrow> body \<Rightarrow> vm_value act" where
  "fill_new E k len b = bindM (new_object E (unique_type k) len) (\<lambda>q.
     seqM (put_object q (Object True b)) (ret (VRef q)))"

text \<open>
  \<open>RURAFILL\<close> fills the elements of the object the second operand refers to, \<open>r->raw().rs\<close>, instead
  of those of the new array, which stays uninitialised. The write is inside of that object's memory only when
  it is a reference array of at least that length.
\<close>

definition fill_source_refs :: "ref \<Rightarrow> nat \<Rightarrow> unit act" where
  "fill_source_refs q n = (if n = 0 then ret () else bindM (deref_m q) (\<lambda>ob. case body ob of
     RArray rs \<Rightarrow> if n \<le> length rs
       then put_object q (Object (has_unique_flag ob) (RArray (replicate n q @ drop n rs))) else undef
   | _ \<Rightarrow> undef))"

definition fill_refs :: "env \<Rightarrow> u64 \<Rightarrow> ref \<Rightarrow> vm_value act" where
  "fill_refs E i q = bindM (deref_m q) (\<lambda>ob.
     seqM (check_shared_for_object E ob)
    (bindM (new_object E (unique_type KR) i) (\<lambda>q2.
     seqM (fill_source_refs q (unat i)) (ret (VRef q2)))))"

definition fill_tuple_refs :: "env \<Rightarrow> u64 \<Rightarrow> ref \<Rightarrow> vm_value act" where
  "fill_tuple_refs E i q = bindM (new_object E (unique_type KT) i) (\<lambda>q2.
     bindM (deref_m q) (\<lambda>ob.
     if unat i > 1 \<and> object_is_unique ob
     then seqM (set_error E ERROR_UNIQUE_OBJECT) (raise E ERROR_AGAIN_USED_UNIQUE)
     else seqM (put_object q2 (Object True (Tuple (replicate (unat i) (VRef q))))) (ret (VRef q2))))"

definition fill_op :: "env \<Rightarrow> callbacks \<Rightarrow> instruction \<Rightarrow> u32 \<Rightarrow> vm_value act option" where
  "fill_op E cb ins op =
    (let ints = (\<lambda>f. Some (operand2 E (get_int E cb) (get_int E cb) ins f));
         flts = (\<lambda>f. Some (operand2 E (get_int E cb) (get_float E cb) ins f));
         refs = (\<lambda>f. Some (operand2 E (get_int E cb) (get_ref E cb) ins f))
     in if op = OP_RUIAFILL8 then ints (\<lambda>n i. fill_new E KI8 n (IArray8 (replicate (unat n) (ucast i))))
        else if op = OP_RUIAFILL16 then ints (\<lambda>n i. fill_new E KI16 n (IArray16 (replicate (unat n) (ucast i))))
        else if op = OP_RUIAFILL32 then ints (\<lambda>n i. fill_new E KI32 n (IArray32 (replicate (unat n) (ucast i))))
        else if op = OP_RUIAFILL64 then ints (\<lambda>n i. fill_new E KI64 n (IArray64 (replicate (unat n) i)))
        else if op = OP_RUSFAFILL then flts (\<lambda>n f. fill_new E KSF n (SFArray (replicate (unat n) (f_narrow (e_fpu E) f))))
        else if op = OP_RUDFAFILL then flts (\<lambda>n f. fill_new E KDF n (DFArray (replicate (unat n) f)))
        else if op = OP_RURAFILL then refs (fill_refs E)
        else if op = OP_RUTFILLI then ints (\<lambda>n i. fill_new E KT n (Tuple (replicate (unat n) (VInt i))))
        else if op = OP_RUTFILLF then flts (\<lambda>n f. fill_new E KT n (Tuple (replicate (unat n) (VFloat f))))
        else if op = OP_RUTFILLR then refs (fill_tuple_refs E)
        else None)"

text \<open>\<open>RUIANTH8\<close> to \<open>RUTNTH\<close>: the element and the array again. A unique element is taken out
  of a tuple, which keeps a canceled reference.\<close>

definition unique_nth :: "env \<Rightarrow> akind \<Rightarrow> ref \<Rightarrow> u64 \<Rightarrow> vm_value act" where
  "unique_nth E k q i = checked E q (unique_type k) (\<lambda>ob.
     seqM (check_object_elem_index E ob i)
    (bindM (elem_m E q (unat i)) (\<lambda>v.
     seqM (if k = KR then bindM (deref_m (value_r v)) (check_shared_for_object E) else ret ())
    (bindM (new_unique_pair E v (VRef q)) (\<lambda>q2.
     seqM (if k = KT
           then bindM (value_is_unique_m v) (\<lambda>u.
             if u then set_elem_m E q (unat i) (snd (cancel_ref v))
             else if is_lazy v then set_elem_m E q (unat i) (lazily_cancel_ref v)
             else ret ())
           else ret ())
          (ret (VRef q2)))))))"

definition unique_nth_op :: "env \<Rightarrow> callbacks \<Rightarrow> instruction \<Rightarrow> u32 \<Rightarrow> vm_value act option" where
  "unique_nth_op E cb ins op = map_option (\<lambda>k.
     operand2 E (get_ref E cb) (get_int E cb) ins (unique_nth E k))
    (kind_of_op op [OP_RUIANTH8, OP_RUIANTH16, OP_RUIANTH32, OP_RUIANTH64, OP_RUSFANTH, OP_RUDFANTH, OP_RURANTH, OP_RUTNTH])"

text \<open>\<open>RUIASNTH8\<close> to \<open>RUTSNTH\<close>: an element is set in place, from the one pushed argument.\<close>

definition unique_set_nth :: "env \<Rightarrow> callbacks \<Rightarrow> akind \<Rightarrow> ref \<Rightarrow> u64 \<Rightarrow> vm_value act" where
  "unique_set_nth E cb k q i =
     seqM (check_pushed_arg_count E 1)
    (bindM (reading (\<lambda>s. pushed_arg_loc (regs s) 0)) (\<lambda>l.
     bindM (case k of
         KT \<Rightarrow> ret VError
       | KR \<Rightarrow> bindM (get_ref_at E cb l) (\<lambda>x. ret (VRef x))
       | KSF \<Rightarrow> bindM (get_float_at E cb l) (\<lambda>f. ret (VFloat f))
       | KDF \<Rightarrow> bindM (get_float_at E cb l) (\<lambda>f. ret (VFloat f))
       | _ \<Rightarrow> bindM (get_int_at E cb l) (\<lambda>n. ret (VInt n))) (\<lambda>v.
     checked E q (unique_type k) (\<lambda>ob.
       seqM (check_object_elem_index E ob i)
      (bindM (if k = KT then bindM (get_loc l) (\<lambda>w. seqM (bindM (cancel_ref_for_unique l) (\<lambda>_. ret ())) (ret w))
              else ret v) (\<lambda>w.
       seqM (set_elem_m E q (unat i) w) (ret (VRef q))))))))"

definition unique_set_nth_op :: "env \<Rightarrow> callbacks \<Rightarrow> instruction \<Rightarrow> u32 \<Rightarrow> vm_value act option" where
  "unique_set_nth_op E cb ins op = map_option (\<lambda>k.
     operand2 E (get_ref E cb) (get_int E cb) ins (unique_set_nth E cb k))
    (kind_of_op op [OP_RUIASNTH8, OP_RUIASNTH16, OP_RUIASNTH32, OP_RUIASNTH64, OP_RUSFASNTH, OP_RUDFASNTH, OP_RURASNTH, OP_RUTSNTH])"

text \<open>\<open>RUIALEN8\<close> to \<open>RUTLEN\<close>: the length and the array again.\<close>

definition unique_len_op :: "env \<Rightarrow> callbacks \<Rightarrow> instruction \<Rightarrow> u32 \<Rightarrow> vm_value act option" where
  "unique_len_op E cb ins op = map_option (\<lambda>k.
     operand1 E (get_ref E cb) ins (\<lambda>q. checked E q (unique_type k) (\<lambda>ob.
       bindM (new_unique_pair E (length_value ob) (VRef q)) (\<lambda>q2. ret (VRef q2)))))
    (kind_of_op op [OP_RUIALEN8, OP_RUIALEN16, OP_RUIALEN32, OP_RUIALEN64, OP_RUSFALEN, OP_RUDFALEN, OP_RURALEN, OP_RUTLEN])"

definition type_op :: "env \<Rightarrow> callbacks \<Rightarrow> instruction \<Rightarrow> u32 \<Rightarrow> vm_value act option" where
  "type_op E cb ins op =
     (if op = OP_RTYPE then Some (operand1 E (get_ref E cb) ins (\<lambda>q. bindM (deref_m q) (\<lambda>ob.
        ret (VInt (of_int (object_type ob))))))
      else if op = OP_RUTYPE then Some (operand1 E (get_ref E cb) ins (\<lambda>q. bindM (deref_m q) (\<lambda>ob.
        bindM (new_unique_pair E (VInt (of_int (object_type ob))) (VRef q)) (\<lambda>q2. ret (VRef q2)))))
      else None)"

section \<open>Shared copies of unique arrays\<close>

text \<open>
  \<open>RUIATOIA8\<close> to \<open>RUTTOT\<close>. The code makes the copy with the number of pushed arguments as its
  length, \<open>regs().ac2\<close>, not with the length of the array, and then copies all elements: a longer array
  is written beyond the end of the copy.
\<close>

definition over_prefix :: "'a list \<Rightarrow> 'a list \<Rightarrow> ('a list \<Rightarrow> body) \<Rightarrow> body option" where
  "over_prefix xs ys f = (if length xs \<le> length ys then Some (f (xs @ drop (length xs) ys)) else None)"

definition copy_prefix :: "body \<Rightarrow> body \<Rightarrow> body option" where
  "copy_prefix b c = (case (b, c) of
     (IArray8 xs, IArray8 ys) \<Rightarrow> over_prefix xs ys IArray8
   | (IArray16 xs, IArray16 ys) \<Rightarrow> over_prefix xs ys IArray16
   | (IArray32 xs, IArray32 ys) \<Rightarrow> over_prefix xs ys IArray32
   | (IArray64 xs, IArray64 ys) \<Rightarrow> over_prefix xs ys IArray64
   | (SFArray xs, SFArray ys) \<Rightarrow> over_prefix xs ys SFArray
   | (DFArray xs, DFArray ys) \<Rightarrow> over_prefix xs ys DFArray
   | _ \<Rightarrow> None)"

text \<open>The loop of \<open>RURATORA\<close> looks at the elements of the new array, which are not initialised.\<close>

definition copy_elements :: "env \<Rightarrow> akind \<Rightarrow> ref \<Rightarrow> object \<Rightarrow> ref \<Rightarrow> unit act" where
  "copy_elements E k q ob q2 =
     (if k = KR then forM [0..<object_length ob] (\<lambda>i. bindM (elem_m E q2 i) (\<lambda>v2.
        bindM (deref_m (value_r v2)) (\<lambda>eob. seqM (check_shared_for_object E eob)
          (bindM (elem_m E q i) (set_elem_m E q2 i)))))
      else if k = KT then forM [0..<object_length ob] (\<lambda>i. bindM (elem_m E q i) (\<lambda>v.
        seqM (check_shared_for_value E v)
       (seqM (set_lazy_values_as_shared E v)
             (bindM (elem_m E q i) (set_elem_m E q2 i)))))
      else bindM (deref_m q2) (\<lambda>ob2. case copy_prefix (body ob) (body ob2) of
        None \<Rightarrow> undef | Some b \<Rightarrow> put_object q2 (Object False b)))"

definition to_shared :: "env \<Rightarrow> akind \<Rightarrow> ref \<Rightarrow> vm_value act" where
  "to_shared E k q = checked E q (unique_type k) (\<lambda>ob.
     bindM (reading_regs ac2) (\<lambda>n.
     bindM (new_object E (kind_type k) (of_nat n)) (\<lambda>q2.
     seqM (copy_elements E k q ob q2)
    (seqM (set_tmp_r q2)
    (bindM (new_unique_pair E (VRef q2) (VRef q)) tmp_done)))))"

definition to_shared_op :: "env \<Rightarrow> callbacks \<Rightarrow> instruction \<Rightarrow> u32 \<Rightarrow> vm_value act option" where
  "to_shared_op E cb ins op = map_option (\<lambda>k. operand1 E (get_ref E cb) ins (to_shared E k))
    (kind_of_op op [OP_RUIATOIA8, OP_RUIATOIA16, OP_RUIATOIA32, OP_RUIATOIA64, OP_RUSFATOSFA, OP_RUDFATODFA])"

definition refs_to_shared_op :: "env \<Rightarrow> callbacks \<Rightarrow> instruction \<Rightarrow> u32 \<Rightarrow> vm_value act option" where
  "refs_to_shared_op E cb ins op =
     (if op = OP_RURATORA then Some (operand1 E (get_ref E cb) ins (to_shared E KR))
      else if op = OP_RUTTOT then Some (operand1 E (get_ref E cb) ins (to_shared E KT))
      else None)"

end
