(* ===== verification/Interp_Calls.thy ===== *)
theory Interp_Calls
  imports Interp_Arrays
begin

unbundle bit_operations_syntax

text \<open>
  The operations that call functions and native functions, try blocks, conversions and explicit forcing,
  and the dispatch of \<open>interpret_op\<close> (vm/vm/interp_vm.cpp).
\<close>

section \<open>Calls\<close>

text \<open>
  A call is run twice: first it enters the function (and fails without an error), and once the function
  was left, with \<open>after_leaving_flags[0]\<close> raised, it takes the result out of \<open>rv\<close>.
\<close>

definition fun_index_of :: "u64 \<Rightarrow> nat" where
  "fun_index_of i = unat (ucast i :: u32)"

definition call_op_with :: "env \<Rightarrow> callbacks \<Rightarrow> instruction \<Rightarrow> int \<Rightarrow> (return_value \<Rightarrow> vm_value act) \<Rightarrow> vm_value act" where
  "call_op_with E cb ins vt conv =
     bindM (fetch1 (get_int E cb) ins) (\<lambda>i.
     bindM (reading regs) (\<lambda>r.
     seqM (whenM (\<not> alf0 r)
            (seqM (whenM (arg_instr_flag r) (interp_push_tmp_ac2 E))
                  (call_fun E cb (fun_index_of i) vt)))
    (seqM (pop_expr_values E (pop_count1 ins))
    (seqM (set_regs (\<lambda>r. r\<lparr>alf0 := False\<rparr>))
    (bindM (reading_regs arg_instr_flag) (\<lambda>af.
     seqM (whenM af (interp_pop_tmp_ac2 E))
    (seqM (post_leave_from_fun E cb (fun_index_of i) vt)
    (seqM pop_args
    (bindM (reading_regs rv) conv)))))))))"

definition call_op :: "env \<Rightarrow> callbacks \<Rightarrow> instruction \<Rightarrow> u32 \<Rightarrow> vm_value act option" where
  "call_op E cb ins op =
     (if op = OP_ICALL then Some (call_op_with E cb ins VALUE_TYPE_INT (return_value_to_int_value E))
      else if op = OP_FCALL then Some (call_op_with E cb ins VALUE_TYPE_FLOAT (return_value_to_float_value E))
      else if op = OP_RCALL then Some (call_op_with E cb ins VALUE_TYPE_REF (return_value_to_ref_value E))
      else None)"

definition conversion_op :: "env \<Rightarrow> callbacks \<Rightarrow> instruction \<Rightarrow> u32 \<Rightarrow> vm_value act option" where
  "conversion_op E cb ins op =
     (if op = OP_ITOF then Some (operand1 E (get_int E cb) ins (\<lambda>i. ret (VFloat (f_of_int (e_fpu E) i))))
      else if op = OP_FTOI then Some (operand1 E (get_float E cb) ins (\<lambda>f.
        case f_to_int (e_fpu E) f of None \<Rightarrow> undef | Some i \<Rightarrow> ret (VInt i)))
      else None)"

definition native_fun_index :: "u64 \<Rightarrow> int" where
  "native_fun_index i = sint (ucast i :: u32)"

definition native_call_with :: "env \<Rightarrow> callbacks \<Rightarrow> instruction \<Rightarrow> (return_value \<Rightarrow> vm_value act) \<Rightarrow> vm_value act" where
  "native_call_with E cb ins conv =
     operand1 E (get_int E cb) ins (\<lambda>i.
       bindM (reading_regs arg_instr_flag) (\<lambda>af.
       seqM (whenM af (interp_push_tmp_ac2 E))
      (bindM (reading regs) (\<lambda>r.
       bindM (invoke_native_fun E cb (native_fun_index i) (abp2 r) (ac2 r)) (\<lambda>v.
       if rv_error v \<noteq> ERROR_SUCCESS
       then seqM (add_stack_trace_elem_for_native_fun E (native_fun_index i))
           (seqM (set_error_with E (rv_error v) (rv_r v) False) fail)
       else bindM (conv v) (\<lambda>w.
         seqM (set_tmp_r RNil)
        (bindM (reading_regs arg_instr_flag) (\<lambda>af.
         seqM (whenM af (interp_pop_tmp_ac2 E)) (ret w)))))))))"

definition native_call_op :: "env \<Rightarrow> callbacks \<Rightarrow> instruction \<Rightarrow> u32 \<Rightarrow> vm_value act option" where
  "native_call_op E cb ins op =
     (if op = OP_INCALL then Some (native_call_with E cb ins (\<lambda>v. ret (VInt (rv_i v))))
      else if op = OP_FNCALL then Some (native_call_with E cb ins (\<lambda>v. ret (VFloat (rv_f v))))
      else if op = OP_RNCALL then Some (native_call_with E cb ins (\<lambda>v.
        seqM (set_rv (return_value_of (VRef (rv_r v)))) (ret (VRef (rv_r v)))))
      else None)"

section \<open>References\<close>

definition ref_op :: "env \<Rightarrow> callbacks \<Rightarrow> instruction \<Rightarrow> u32 \<Rightarrow> vm_value act option" where
  "ref_op E cb ins op =
    (let cmp = (\<lambda>p. Some
           (if opcode_to_arg_type1 (i_opcode ins) \<noteq> ARG_TYPE_GVAR \<and> opcode_to_arg_type2 (i_opcode ins) \<noteq> ARG_TYPE_GVAR
            then raise E ERROR_INCORRECT_INSTR
            else operand2 E (get_ref E cb) (get_ref E cb) ins (\<lambda>q1 q2. ret (bool_value (p q1 q2)))))
     in if op = OP_RLOAD then Some (operand1 E (get_ref_value E) ins ret)
        else if op = OP_REQ then cmp (\<lambda>q1 q2. q1 = q2)
        else if op = OP_RNE then cmp (\<lambda>q1 q2. q1 \<noteq> q2)
        else None)"

section \<open>Try blocks\<close>

text \<open>The first run of \<open>TRY\<close>: the registers are pushed and the first function is entered.\<close>

definition try_enter :: "env \<Rightarrow> callbacks \<Rightarrow> instruction \<Rightarrow> unit act" where
  "try_enter E cb ins =
     bindM (fetch2 (get_int E cb) (get_int E cb) ins) (\<lambda>(i1, i2).
     seqM (check_pushed_arg_count E 3)
    (bindM (reading regs) (\<lambda>r.
     bindM (get_loc (pushed_arg_loc r 0)) (\<lambda>arg1.
     bindM (get_loc (pushed_arg_loc r 1)) (\<lambda>arg2.
     bindM (get_loc (pushed_arg_loc r 2)) (\<lambda>io.
     bindM (cancel_ref_for_unique (pushed_arg_loc r 0)) (\<lambda>_.
     bindM (cancel_ref_for_unique (pushed_arg_loc r 1)) (\<lambda>_.
     bindM (cancel_ref_for_unique (pushed_arg_loc r 2)) (\<lambda>_.
     seqM (check_value_type E io VALUE_TYPE_REF)
    (checked E (value_r io) (OBJECT_TYPE_IO OR OBJECT_TYPE_UNIQUE) (\<lambda>_.
     seqM (whenM (\<not> arg_instr_flag r) hide_args)
    (seqM (interp_push_tmp_ac2 E)
    (seqM (interp_push_try_regs E)
    (seqM (interp_push_arg E arg1)
    (seqM (interp_push_arg E io)
    (seqM (set_try_regs arg2 (value_r io))
          (call_fun_for_force E (fun_index_of i1))))))))))))))))))"

definition check_try_result :: "env \<Rightarrow> ref \<Rightarrow> vm_value act" where
  "check_try_result E q = bindM (deref_m q) (\<lambda>ob.
     let wrong = raise E ERROR_INCORRECT_OBJECT in
     if object_type ob \<noteq> OBJECT_TYPE_TUPLE OR OBJECT_TYPE_UNIQUE then wrong
     else if object_length ob \<noteq> 2 then wrong
     else bindM (elem_m E q 1) (\<lambda>v.
       if value_type v \<noteq> VALUE_TYPE_REF then wrong
       else bindM (deref_m (value_r v)) (\<lambda>io.
         if object_type io \<noteq> OBJECT_TYPE_IO OR OBJECT_TYPE_UNIQUE then wrong else ret (VRef q))))"

text \<open>After an error the second function is entered, with the error, its reference and the two values.\<close>

definition try_catch :: "env \<Rightarrow> int \<Rightarrow> ref \<Rightarrow> vm_value \<Rightarrow> ref \<Rightarrow> u64 \<Rightarrow> vm_value act" where
  "try_catch E err q arg2 io_r i2 =
     seqM (set_regs (\<lambda>r. r\<lparr>rv := (rv r)\<lparr>rv_error := ERROR_SUCCESS\<rparr>\<rparr>))
    (bindM (reading_regs arg_instr_flag) (\<lambda>af.
     seqM (whenM (\<not> af) hide_args)
    (seqM (interp_push_tmp_ac2 E)
    (seqM (interp_push_try_regs E)
    (seqM (interp_push_arg E (VInt (of_int err)))
    (seqM (interp_push_arg E (VRef q))
    (seqM (interp_push_arg E arg2)
    (seqM (interp_push_arg E (VRef io_r))
    (seqM (set_regs (\<lambda>r. r\<lparr>try_catch_flag := True, try_catch_error := err, try_catch_r := q\<rparr>))
    (seqM move_stack_trace_to_try_catch_stack_trace
    (seqM (call_fun_for_force E (fun_index_of i2)) fail)))))))))))"

text \<open>
  The runs after the first or the second function was left. \<open>call_fun_for_force\<close> never returns
  true, so the loop around this code ends in its first round.
\<close>

definition try_leave :: "env \<Rightarrow> callbacks \<Rightarrow> instruction \<Rightarrow> vm_value act" where
  "try_leave E cb ins =
     bindM (reading regs) (\<lambda>r0.
     bindM (fetch2 (get_int E cb) (get_int E cb) ins) (\<lambda>(i1, i2).
     bindM (reading_regs try_catch_flag) (\<lambda>caught.
     seqM (force_rv E cb (\<not> caught))
    (bindM (reading_regs try_catch_flag) (\<lambda>caught.
     seqM (whenM caught reset_try_catch_stack_trace)
    (seqM (set_regs (\<lambda>r. r\<lparr>alf0 := False\<rparr>))
    (seqM (interp_pop_try_regs E)
    (seqM (interp_pop_tmp_ac2 E)
    (bindM (reading_regs arg_instr_flag) (\<lambda>af.
     seqM (whenM (\<not> af) restore_abp2_and_ac2)
    (bindM (reading_regs (\<lambda>r. rv_r (rv r))) (\<lambda>q.
     if rv_error (rv r0) = ERROR_SUCCESS
     then seqM (pop_expr_values E (pop_count2 ins)) (check_try_result E q)
     else try_catch E (rv_error (rv r0)) q (try_arg2 r0) (try_io_r r0) i2))))))))))))"

definition try_op :: "env \<Rightarrow> callbacks \<Rightarrow> instruction \<Rightarrow> vm_value act" where
  "try_op E cb ins = bindM (reading_regs alf0) (\<lambda>left.
     seqM (whenM (\<not> left) (try_enter E cb ins)) (try_leave E cb ins))"

section \<open>Forcing and stack traces\<close>

definition force_op :: "env \<Rightarrow> callbacks \<Rightarrow> instruction \<Rightarrow> u32 \<Rightarrow> vm_value act option" where
  "force_op E cb ins op =
     (if op = OP_TRY then Some (try_op E cb ins)
      else if op = OP_IFORCE then Some (operand1 E (get_int E cb) ins (\<lambda>i. ret (VInt i)))
      else if op = OP_FFORCE then Some (operand1 E (get_float E cb) ins (\<lambda>f. ret (VFloat f)))
      else if op = OP_RFORCE then Some (operand1 E (get_ref E cb) ins (\<lambda>q. ret (VRef q)))
      else None)"

definition stacktrace_op :: "env \<Rightarrow> callbacks \<Rightarrow> instruction \<Rightarrow> u32 \<Rightarrow> vm_value act option" where
  "stacktrace_op E cb ins op =
     (if op = OP_STACKTRACE then Some (operand1 E (get_ref E cb) ins (\<lambda>q.
        checked E q (OBJECT_TYPE_IO OR OBJECT_TYPE_UNIQUE) (\<lambda>_.
          bindM (interp_try_catch_stack_trace_to_object E) (\<lambda>q2.
          bindM (new_unique_pair E (VRef q2) (VRef q)) tmp_done))))
      else None)"

section \<open>The dispatch\<close>

fun first_some :: "vm_value act option list \<Rightarrow> vm_value act option" where
  "first_some [] = None"
| "first_some (Some c # cs) = Some c"
| "first_some (None # cs) = first_some cs"

text \<open>The groups of operations, in the order of the cases of the code.\<close>

definition op_table :: "env \<Rightarrow> callbacks \<Rightarrow> instruction \<Rightarrow> u32 \<Rightarrow> vm_value act option list" where
  "op_table E cb ins op =
     [int_arith_op E cb ins op, int_logic_op E cb ins op, int_compare_op E cb ins op,
      float_arith_op E cb ins op, float_compare_op E cb ins op, ref_op E cb ins op,
      array_op E cb ins op, nth_op E cb ins op, len_op E cb ins op, cat_op E cb ins op, type_op E cb ins op,
      call_op E cb ins op, conversion_op E cb ins op, native_call_op E cb ins op,
      fill_op E cb ins op, unique_nth_op E cb ins op, unique_set_nth_op E cb ins op,
      unique_len_op E cb ins op, to_shared_op E cb ins op, refs_to_shared_op E cb ins op,
      float_math_op1 E cb ins op, float_math_op2 E cb ins op, force_op E cb ins op, stacktrace_op E cb ins op]"

definition interpret_op :: "env \<Rightarrow> callbacks \<Rightarrow> instruction \<Rightarrow> vm_value act" where
  "interpret_op E cb ins = (case first_some (op_table E cb ins (opcode_to_op (i_opcode ins))) of
     None \<Rightarrow> raise E ERROR_INCORRECT_INSTR | Some c \<Rightarrow> c)"

end
