(* ===== verification/Interpreter.thy ===== *)
theory Interpreter
  imports Interp_Calls
begin

unbundle bit_operations_syntax

text \<open>
  The instruction loop (\<open>interpret_instr\<close> and \<open>interpret\<close> of vm/vm/interp_vm.cpp), and
  the machine, which ties the functions of the interpreter that call each other together. The machine with
  fuel \<open>n\<close> runs at most \<open>n\<close> nested rounds of the loops.
\<close>

section \<open>Instructions\<close>

definition clear_tmp :: "nat \<Rightarrow> unit act" where
  "clear_tmp j = put_tmp j VError"

definition clear_after_op :: "unit act" where
  "clear_after_op =
     seqM (set_regs (\<lambda>r. r\<lparr>rv := (rv r)\<lparr>rv_r := RNil\<rparr>, gc_tmp_ptr := None\<rparr>))
    (seqM (clear_tmp 0) (clear_tmp 1))"

text \<open>The error value stands for a failure, as in the code.\<close>

definition op_value :: "env \<Rightarrow> callbacks \<Rightarrow> instruction \<Rightarrow> vm_value act" where
  "op_value E cb ins = bindM (attempt (interpret_op E cb ins)) (\<lambda>x.
     ret (case x of None \<Rightarrow> VError | Some v \<Rightarrow> v))"

definition or_set_error :: "env \<Rightarrow> unit act \<Rightarrow> int \<Rightarrow> unit act" where
  "or_set_error E c err = bindM (attempt c) (\<lambda>x. if x = None then set_error E err else ret ())"

definition instr_let :: "env \<Rightarrow> callbacks \<Rightarrow> instruction \<Rightarrow> unit act" where
  "instr_let E cb ins = bindM (op_value E cb ins) (\<lambda>v.
     seqM pop_args
    (seqM (whenM (\<not> is_error v) (or_set_error E (push_local_var v) ERROR_STACK_OVERFLOW))
          clear_after_op))"

definition instr_ret :: "env \<Rightarrow> callbacks \<Rightarrow> instruction \<Rightarrow> unit act" where
  "instr_ret E cb ins = bindM (op_value E cb ins) (\<lambda>v.
     seqM (whenM (\<not> is_error v)
            (seqM (or_set_error E leave_from_fun ERROR_EMPTY_STACK) (set_rv (return_value_of v))))
    (seqM (set_gc_tmp_ptr None) (seqM (clear_tmp 0) (clear_tmp 1))))"

definition instr_jc :: "env \<Rightarrow> callbacks \<Rightarrow> instruction \<Rightarrow> unit act" where
  "instr_jc E cb ins =
     seqM (bindM (attempt (fetch1 (get_int E cb) ins)) (\<lambda>x. case x of
         None \<Rightarrow> ret ()
       | Some i \<Rightarrow> bindM (attempt (pop_expr_values E (pop_count1 ins))) (\<lambda>y.
           whenM (y \<noteq> None \<and> i \<noteq> 0) (set_regs (\<lambda>r. r\<lparr>ip := ip r + i_arg2 ins\<rparr>)))))
     (clear_tmp 0)"

definition instr_jump :: "instruction \<Rightarrow> unit act" where
  "instr_jump ins = set_regs (\<lambda>r. r\<lparr>ip := ip r + i_arg1 ins\<rparr>)"

definition instr_arg :: "env \<Rightarrow> callbacks \<Rightarrow> instruction \<Rightarrow> unit act" where
  "instr_arg E cb ins =
     seqM hide_args
    (seqM (set_regs (\<lambda>r. r\<lparr>arg_instr_flag := True\<rparr>))
    (bindM (op_value E cb ins) (\<lambda>v.
     seqM (set_regs (\<lambda>r. r\<lparr>arg_instr_flag := False\<rparr>))
    (seqM (whenM (\<not> is_error v)
            (seqM restore_abp2_and_ac2 (or_set_error E (push_arg v) ERROR_STACK_OVERFLOW)))
          clear_after_op))))"

text \<open>The instruction pointer is set to 0 in either case, after the error was set too.\<close>

definition instr_retry :: "env \<Rightarrow> unit act" where
  "instr_retry E = bindM (reading regs) (\<lambda>r.
     seqM (if ac r = ac2 r
           then seqM (forM [0..<ac r] (\<lambda>i. bindM (get_loc (pushed_arg_loc r i)) (put_loc (arg_loc r i))))
               (seqM pop_args_and_local_vars pop_all_expr_values)
           else set_error E ERROR_INCORRECT_ARG_COUNT)
          (set_regs (\<lambda>r. r\<lparr>ip := 0\<rparr>)))"

text \<open>\<open>LETTUPLE\<close>: the tuple is kept over the local variables while its lazy reference is forced.\<close>

definition AI_NONE :: u64 where "AI_NONE = - 1"

definition let_tuple_value :: "env \<Rightarrow> callbacks \<Rightarrow> instruction \<Rightarrow> vm_value act" where
  "let_tuple_value E cb ins =
     seqM (set_regs (\<lambda>r. if \<not> alf1 r then r\<lparr>ai := 0\<rparr> else r))
    (bindM (reading regs) (\<lambda>r.
     if \<not> alf1 r \<or> ai r \<noteq> AI_NONE
     then bindM (op_value E cb ins) (\<lambda>v.
         seqM pop_args
        (seqM (set_regs (\<lambda>r. r\<lparr>ai := AI_NONE\<rparr>))
        (if is_error v then ret v
         else bindM (attempt (interp_push_tmp_value E v)) (\<lambda>x. ret (if x = None then VError else v)))))
     else bindM (attempt (interp_get_tmp_value E)) (\<lambda>x. ret (case x of None \<Rightarrow> VError | Some v \<Rightarrow> v))))"

definition bind_tuple :: "env \<Rightarrow> ref \<Rightarrow> instruction \<Rightarrow> unit act" where
  "bind_tuple E q ins = bindM (deref_m q) (\<lambda>ob.
     let n = unat (opcode_to_local_var_count (i_opcode ins)) in
     if type_kind (object_type ob) \<noteq> OBJECT_TYPE_TUPLE then set_error E ERROR_INCORRECT_OBJECT
     else if object_length ob \<noteq> n then set_error E ERROR_INCORRECT_OBJECT
     else forM [0..<n] (\<lambda>i. bindM (elem_m E q i) (\<lambda>v.
       or_set_error E (push_local_var v) ERROR_STACK_OVERFLOW)))"

definition instr_lettuple :: "env \<Rightarrow> callbacks \<Rightarrow> instruction \<Rightarrow> unit act" where
  "instr_lettuple E cb ins = bindM (let_tuple_value E cb ins) (\<lambda>v.
     seqM (whenM (\<not> is_error v)
            (with_local v (\<lambda>l. bindM (attempt (get_ref_at E cb l)) (\<lambda>x. case x of
                None \<Rightarrow> ret ()
              | Some q \<Rightarrow> bindM (attempt (interp_pop_tmp_value E)) (\<lambda>y.
                  if y = None then ret () else bind_tuple E q ins)))))
          clear_after_op)"

definition instr_throw :: "env \<Rightarrow> callbacks \<Rightarrow> instruction \<Rightarrow> unit act" where
  "instr_throw E cb ins =
     seqM (bindM (attempt (fetch1 (get_ref E cb) ins)) (\<lambda>x. case x of
         None \<Rightarrow> ret ()
       | Some q \<Rightarrow> bindM (attempt (pop_expr_values E (pop_count1 ins))) (\<lambda>y.
           whenM (y \<noteq> None) (set_error_with E ERROR_USER_EXCEPTION q True))))
     (clear_tmp 0)"

definition instr_push :: "env \<Rightarrow> callbacks \<Rightarrow> instruction \<Rightarrow> unit act" where
  "instr_push E cb ins = bindM (op_value E cb ins) (\<lambda>v.
     seqM pop_args
    (seqM (whenM (\<not> is_error v) (or_set_error E (push_expr_value v) ERROR_STACK_OVERFLOW))
          clear_after_op))"

definition instr_pop :: "env \<Rightarrow> instruction \<Rightarrow> unit act" where
  "instr_pop E ins = or_set_error E (ctx_pop_expr_values (unat (i_arg1 ins))) ERROR_EMPTY_STACK"

definition rethrow :: "env \<Rightarrow> ref \<Rightarrow> unit act" where
  "rethrow E q = bindM (deref_m q) (\<lambda>ob.
     bindM (attempt (check_object_type E ob (OBJECT_TYPE_IO OR OBJECT_TYPE_UNIQUE))) (\<lambda>x.
     if x = None then set_error_with E ERROR_INCORRECT_OBJECT q True
     else bindM (reading regs) (\<lambda>r.
       if try_catch_flag r
       then seqM move_try_catch_stack_trace_to_stack_trace
              (set_error_with E (try_catch_error r) (try_catch_r r) False)
       else set_error_with E ERROR_NO_ERROR q True)))"

definition instr_rethrow :: "env \<Rightarrow> callbacks \<Rightarrow> instruction \<Rightarrow> unit act" where
  "instr_rethrow E cb ins =
     seqM (bindM (attempt (fetch1 (get_ref E cb) ins)) (\<lambda>x. case x of
         None \<Rightarrow> ret ()
       | Some q \<Rightarrow> bindM (attempt (pop_expr_values E (pop_count1 ins))) (\<lambda>y.
           if y = None then ret () else rethrow E q)))
     (clear_tmp 0)"

definition dispatch_instr :: "env \<Rightarrow> callbacks \<Rightarrow> instruction \<Rightarrow> unit act" where
  "dispatch_instr E cb ins =
    (let k = opcode_to_instr (i_opcode ins) in
     if k = INSTR_LET then instr_let E cb ins
     else if k = INSTR_IN then in_instr
     else if k = INSTR_RET then instr_ret E cb ins
     else if k = INSTR_JC then instr_jc E cb ins
     else if k = INSTR_JUMP then instr_jump ins
     else if k = INSTR_ARG then instr_arg E cb ins
     else if k = INSTR_RETRY then instr_retry E
     else if k = INSTR_LETTUPLE then instr_lettuple E cb ins
     else if k = INSTR_THROW then instr_throw E cb ins
     else if k = INSTR_PUSH then instr_push E cb ins
     else if k = INSTR_POP then instr_pop E ins
     else if k = INSTR_RETHROW then instr_rethrow E cb ins
     else set_error E ERROR_INCORRECT_INSTR)"

text \<open>After the function of a lazy value was left, the caller's registers are popped first.\<close>

definition resume_after_force :: "env \<Rightarrow> callbacks \<Rightarrow> instruction \<Rightarrow> unit act" where
  "resume_after_force E cb ins =
    (let is_arg = (opcode_to_instr (i_opcode ins) = INSTR_ARG) in
     seqM (after_forced_call E cb)
    (seqM (whenM is_arg (set_regs (\<lambda>r. r\<lparr>arg_instr_flag := True\<rparr>)))
    (seqM (restore_and_pop_regs_for_force E)
          (whenM is_arg (seqM (set_regs (\<lambda>r. r\<lparr>arg_instr_flag := False\<rparr>)) restore_abp2_and_ac2)))))"

text \<open>The result says whether the loop goes on.\<close>

definition instrs_of :: "func \<Rightarrow> instruction list" where
  "instrs_of f = (case f_instrs f of None \<Rightarrow> [] | Some code \<Rightarrow> code)"

definition interpret_instr :: "env \<Rightarrow> callbacks \<Rightarrow> bool act" where
  "interpret_instr E cb = bindM (reading regs) (\<lambda>r.
     if fp r = FP_NONE then ret False
     else if unat (fp r) \<ge> length (e_funs E) then undef
     else let code = instrs_of (e_funs E ! unat (fp r)) in
       if unat (ip r) \<ge> length code then seqM (set_error E ERROR_NO_INSTR) (ret True)
       else let ins = code ! unat (ip r) in
         seqM (set_regs (\<lambda>r. r\<lparr>ip := ip r + 1\<rparr>))
        (bindM (if alf1 r then attempt (resume_after_force E cb ins) else ret (Some ())) (\<lambda>x.
         if x = None then ret False
         else seqM (set_regs (\<lambda>r. r\<lparr>cancelation_undo := []\<rparr>))
             (seqM (dispatch_instr E cb ins) (ret True)))))"

definition interpret_all :: "env \<Rightarrow> callbacks \<Rightarrow> unit act" where
  "interpret_all E cb = bindM (interpret_instr E cb) (\<lambda>goes_on. if goes_on then cb_interpret cb else ret ())"

section \<open>The machine\<close>

definition machine_step :: "env \<Rightarrow> callbacks \<Rightarrow> callbacks" where
  "machine_step E cb = \<lparr>cb_interpret = interpret_all E cb, cb_force_value = force_value E cb,
     cb_fully_force_value = fully_force_value E cb, cb_resume_force = resume_force E cb\<rparr>"

definition no_machine :: callbacks where
  "no_machine = \<lparr>cb_interpret = nofuel, cb_force_value = (\<lambda>l b. nofuel),
     cb_fully_force_value = (\<lambda>l k. nofuel), cb_resume_force = (\<lambda>l. nofuel)\<rparr>"

primrec machine :: "env \<Rightarrow> nat \<Rightarrow> callbacks" where
  "machine E 0 = no_machine"
| "machine E (Suc n) = machine_step E (machine E n)"

text \<open>A thread that is started on a function, with fuel \<open>n\<close>.\<close>

definition run_thread :: "env \<Rightarrow> nat \<Rightarrow> nat \<Rightarrow> vm_value list \<Rightarrow> bool \<Rightarrow> return_value act" where
  "run_thread E n i args is_force = start_in_thread E (machine E n) i args is_force"

text \<open>An environment with a program, the empty native function handler and memory for everything.\<close>

definition plain_env :: "fpu \<Rightarrow> strategy \<Rightarrow> func list \<Rightarrow> vm_value list \<Rightarrow> env" where
  "plain_env F st funs vars = \<lparr>e_funs = funs, e_global_vars = vars, e_fun_symbols = (\<lambda>_. None),
     e_native_fun_symbols = (\<lambda>_. None), e_fpu = F, e_alloc = (\<lambda>_ _. True), e_junk = (\<lambda>_ _. 0),
     e_strategy = st, e_fun_triples = [], e_native = empty_native_invoke,
     e_native_equal = (\<lambda>_ _ _. False), e_native_hash = (\<lambda>_ _ _. 0)\<rparr>"

end
