(* ===== verification/Machine_Fuel.thy ===== *)
theory Machine_Fuel
  imports Interpreter
begin

text \<open>
  The fuel of the machine is only a bound: a run that ends with some fuel ends in the same way, in the
  same state, with any greater fuel. The proof goes through every function of the interpreter: each
  of them gives the same finished runs when the callbacks finish more often.
\<close>

section \<open>Functions that finish more often\<close>

definition approx :: "('s, 'a) m \<Rightarrow> ('s, 'a) m \<Rightarrow> bool" where
  "approx c d \<longleftrightarrow> (\<forall>s. fst (c s) \<noteq> NoFuel \<longrightarrow> d s = c s)"

named_theorems approx_intro "rules that split an approx goal along the definitions"

lemma approxI: "(\<And>s. fst (c s) \<noteq> NoFuel \<Longrightarrow> d s = c s) \<Longrightarrow> approx c d"
  by (simp add: approx_def)

lemma approxD: "approx c d \<Longrightarrow> c s = (r, t) \<Longrightarrow> r \<noteq> NoFuel \<Longrightarrow> d s = (r, t)"
  by (simp add: approx_def)

lemma approx_trans: "approx c d \<Longrightarrow> approx d e \<Longrightarrow> approx c e"
  by (simp add: approx_def)

lemma approx_nofuel [approx_intro]: "approx nofuel d"
  by (simp add: approx_def run)

lemma approx_bindM [approx_intro]:
  assumes c: "approx c c'" and f: "\<And>x. approx (f x) (f' x)"
  shows "approx (bindM c f) (bindM c' f')"
proof (rule approxI)
  fix s assume fin: "fst (bindM c f s) \<noteq> NoFuel"
  obtain r t where ct: "c s = (r, t)" by (cases "c s")
  have "r \<noteq> NoFuel" using fin by (auto simp: run ct)
  then have ct': "c' s = (r, t)" using approxD [OF c ct] by simp
  show "bindM c' f' s = bindM c f s"
  proof (cases r)
    case (Done x)
    then show ?thesis using fin f [of x] by (simp add: run ct ct' approx_def)
  qed (simp_all add: run ct ct')
qed

lemma approx_seqM [approx_intro]: "approx c c' \<Longrightarrow> approx d d' \<Longrightarrow> approx (seqM c d) (seqM c' d')"
  unfolding seqM_def by (rule approx_bindM)

lemma approx_attempt [approx_intro]:
  assumes c: "approx c c'" shows "approx (attempt c) (attempt c')"
proof (rule approxI)
  fix s assume fin: "fst (attempt c s) \<noteq> NoFuel"
  obtain r t where ct: "c s = (r, t)" by (cases "c s")
  have "r \<noteq> NoFuel" using fin by (auto simp: run ct)
  then show "attempt c' s = attempt c s" using approxD [OF c ct] by (simp add: run ct)
qed

lemma approx_whenM [approx_intro]: "(b \<Longrightarrow> approx c c') \<Longrightarrow> approx (whenM b c) (whenM b c')"
  by (cases b) (simp_all add: whenM_def approx_def)

lemma approx_forM [approx_intro]: "(\<And>i. approx (f i) (f' i)) \<Longrightarrow> approx (forM xs f) (forM xs f')"
proof (induction xs)
  case (Cons x xs)
  then show ?case by (simp add: approx_seqM)
qed (simp add: approx_def)

lemma approx_if [approx_intro]:
  "(b \<Longrightarrow> approx c c') \<Longrightarrow> (\<not> b \<Longrightarrow> approx d d') \<Longrightarrow> approx (if b then c else d) (if b then c' else d')"
  by simp

lemma approx_option [approx_intro]:
  "(x = None \<Longrightarrow> approx c c') \<Longrightarrow> (\<And>y. x = Some y \<Longrightarrow> approx (d y) (d' y)) \<Longrightarrow>
   approx (case x of None \<Rightarrow> c | Some y \<Rightarrow> d y) (case x of None \<Rightarrow> c' | Some y \<Rightarrow> d' y)"
  by (cases x) simp_all

lemma approx_prod [approx_intro]:
  "(\<And>x y. p = (x, y) \<Longrightarrow> approx (f x y) (f' x y)) \<Longrightarrow>
   approx (case p of (x, y) \<Rightarrow> f x y) (case p of (x, y) \<Rightarrow> f' x y)"
  by (cases p) simp

lemma approx_value [approx_intro]:
  assumes "\<And>i. approx (f1 i) (g1 i)" "\<And>i. approx (f2 i) (g2 i)" "\<And>i. approx (f3 i) (g3 i)"
    "\<And>i j. approx (f4 i j) (g4 i j)" "\<And>i. approx (f5 i) (g5 i)" "\<And>i j. approx (f6 i j) (g6 i j)"
    "\<And>i. approx (f7 i) (g7 i)" "approx f8 g8"
  shows "approx
    (case v of VInt i \<Rightarrow> f1 i | VFloat i \<Rightarrow> f2 i | VRef i \<Rightarrow> f3 i | VPair i j \<Rightarrow> f4 i j
       | VCanceled i \<Rightarrow> f5 i | VLazy i j \<Rightarrow> f6 i j | VLocked i \<Rightarrow> f7 i | VError \<Rightarrow> f8)
    (case v of VInt i \<Rightarrow> g1 i | VFloat i \<Rightarrow> g2 i | VRef i \<Rightarrow> g3 i | VPair i j \<Rightarrow> g4 i j
       | VCanceled i \<Rightarrow> g5 i | VLazy i j \<Rightarrow> g6 i j | VLocked i \<Rightarrow> g7 i | VError \<Rightarrow> g8)"
  using assms by (cases v) simp_all

lemma approx_with_local [approx_intro]:
  assumes "\<And>l. approx (f l) (f' l)" shows "approx (with_local v f) (with_local v f')"
proof (rule approxI)
  fix s assume "fst (with_local v f s) \<noteq> NoFuel"
  then show "with_local v f' s = with_local v f s"
    using assms [of "LLocal (length (autos s))"] by (auto simp: with_local_def approx_def Let_def split: prod.splits)
qed

lemma approx_refl [approx_intro]: "approx c c"
  by (simp add: approx_def)

lemma rel_option_if:
  "(b \<Longrightarrow> rel_option R c c') \<Longrightarrow> (\<not> b \<Longrightarrow> rel_option R d d') \<Longrightarrow>
   rel_option R (if b then c else d) (if b then c' else d')"
  by simp

lemma rel_option_map_same: "(\<And>k. R (f k) (f' k)) \<Longrightarrow> rel_option R (map_option f x) (map_option f' x)"
  by (cases x) simp_all

lemma rel_first_some: "list_all2 (rel_option R) xs ys \<Longrightarrow> rel_option R (first_some xs) (first_some ys)"
  by (induction rule: list_all2_induct) (auto elim!: option.rel_cases)

lemma approx_case_Some:
  "rel_option approx x y \<Longrightarrow> approx c c' \<Longrightarrow>
   approx (case x of None \<Rightarrow> c | Some d \<Rightarrow> d) (case y of None \<Rightarrow> c' | Some d \<Rightarrow> d)"
  by (auto elim!: option.rel_cases)

definition approx_callbacks :: "callbacks \<Rightarrow> callbacks \<Rightarrow> bool" where
  "approx_callbacks cb cb' \<longleftrightarrow> approx (cb_interpret cb) (cb_interpret cb') \<and>
     (\<forall>l b. approx (cb_force_value cb l b) (cb_force_value cb' l b)) \<and>
     (\<forall>l k. approx (cb_fully_force_value cb l k) (cb_fully_force_value cb' l k)) \<and>
     (\<forall>l. approx (cb_resume_force cb l) (cb_resume_force cb' l))"

text \<open>The native functions finish more often when the machine they call back does.\<close>

definition fuel_independent_natives :: "env \<Rightarrow> bool" where
  "fuel_independent_natives E \<longleftrightarrow> (\<forall>cb cb' nfi b n. approx_callbacks cb cb' \<longrightarrow>
     approx (e_native E cb nfi b n) (e_native E cb' nfi b n))"

section \<open>The functions of the interpreter\<close>

locale finishing_callbacks =
  fixes E :: env and cb cb' :: callbacks
  assumes cb: "approx_callbacks cb cb'" and natives: "fuel_independent_natives E"
begin

lemma callbacks [approx_intro]:
  "approx (cb_interpret cb) (cb_interpret cb')"
  "approx (cb_force_value cb l b) (cb_force_value cb' l b)"
  "approx (cb_fully_force_value cb l k) (cb_fully_force_value cb' l k)"
  "approx (cb_resume_force cb l) (cb_resume_force cb' l)"
  "approx (e_native E cb nfi c n) (e_native E cb' nfi c n)"
  using cb natives by (auto simp: approx_callbacks_def fuel_independent_natives_def)

lemma or_raise [approx_intro]: "approx c c' \<Longrightarrow> approx (or_raise E c err) (or_raise E c' err)"
  unfolding or_raise_def by (intro approx_intro)

lemma fully_force_value2 [approx_intro]: "approx (fully_force_value2 cb l) (fully_force_value2 cb' l)"
  unfolding fully_force_value2_def by (intro approx_intro)

lemma fully_force_rv [approx_intro]: "approx (fully_force_rv E cb) (fully_force_rv E cb')"
  unfolding fully_force_rv_def by (intro approx_intro)

lemma error_code [approx_intro]: "approx c c' \<Longrightarrow> approx (error_code c) (error_code c')"
  unfolding error_code_def by (intro approx_intro)

lemma with_saved_regs [approx_intro]: "approx c c' \<Longrightarrow> approx (with_saved_regs E c) (with_saved_regs E c')"
  unfolding with_saved_regs_def by (intro approx_intro)

lemma memo_pre_enter [approx_intro]: "approx (memo_pre_enter E cb i vt) (memo_pre_enter E cb' i vt)"
  unfolding memo_pre_enter_def memo_fully_force_def vm_fully_force_def Let_def by (intro approx_intro)

lemma memo_post_leave [approx_intro]: "approx (memo_post_leave E cb i vt) (memo_post_leave E cb' i vt)"
  unfolding memo_post_leave_def memo_fully_force_return_value_def vm_fully_force_return_value_def Let_def
  by (intro approx_intro)

lemma base_strategies [approx_intro]:
  "approx (base_pre_enter E cb st i vt) (base_pre_enter E cb' st i vt)"
  "approx (base_post_leave E cb st i vt) (base_post_leave E cb' st i vt)"
  "approx (base_pre_enter_for_force E cb st i vt) (base_pre_enter_for_force E cb' st i vt)"
  "approx (base_post_leave_for_force E cb st i vt) (base_post_leave_for_force E cb' st i vt)"
  by (cases st; simp add: memo_pre_enter memo_post_leave approx_refl)+

lemma via_triple [approx_intro]:
  "(\<And>st j. approx (f st j) (f' st j)) \<Longrightarrow> approx (via_triple E index i f) (via_triple E index i f')"
  unfolding via_triple_def Let_def by (intro approx_intro)

lemma strategy [approx_intro]:
  "approx (pre_enter_to_fun E cb i vt) (pre_enter_to_fun E cb' i vt)"
  "approx (post_leave_from_fun E cb i vt) (post_leave_from_fun E cb' i vt)"
  "approx (pre_enter_to_fun_for_force E cb i vt) (pre_enter_to_fun_for_force E cb' i vt)"
  "approx (post_leave_from_fun_for_force E cb i vt) (post_leave_from_fun_for_force E cb' i vt)"
  unfolding pre_enter_to_fun_def post_leave_from_fun_def pre_enter_to_fun_for_force_def post_leave_from_fun_for_force_def
  by (intro approx_intro)+

lemma calls [approx_intro]:
  "approx (call_fun E cb i vt) (call_fun E cb' i vt)"
  "approx (call_fun_for_force_with_eval_strategy E cb i vt) (call_fun_for_force_with_eval_strategy E cb' i vt)"
  unfolding call_fun_def call_fun_for_force_with_eval_strategy_def by (intro approx_intro)+

lemma call_lazy [approx_intro]: "approx (call_lazy E cb q b) (call_lazy E cb' q b)"
  unfolding call_lazy_def by (intro approx_intro)

lemma evaluate_lazy [approx_intro]: "approx (evaluate_lazy E cb q b) (evaluate_lazy E cb' q b)"
  unfolding evaluate_lazy_def by (intro approx_intro)

lemma force_value [approx_intro]: "approx (force_value E cb l b) (force_value E cb' l b)"
  unfolding force_value_def Let_def by (intro approx_intro)

lemma forces [approx_intro]:
  "approx (force_rv E cb b) (force_rv E cb' b)"
  "approx (force_int E cb l) (force_int E cb' l)"
  "approx (force_float E cb l) (force_float E cb' l)"
  "approx (force_ref E cb l) (force_ref E cb' l)"
  unfolding force_rv_def force_int_def force_float_def force_ref_def by (intro approx_intro)+

lemma force_args_from [approx_intro]: "approx (force_args_from E cb k) (force_args_from E cb' k)"
proof (induction k)
  case (Suc k)
  show ?case unfolding force_args_from.simps by (intro approx_intro Suc.IH)
qed (simp add: approx_refl)

lemma force_pushed_args [approx_intro]: "approx (force_pushed_args E cb) (force_pushed_args E cb')"
  unfolding force_pushed_args_def by (intro approx_intro)

lemma after_forced_call [approx_intro]: "approx (after_forced_call E cb) (after_forced_call E cb')"
  unfolding after_forced_call_def by (intro approx_intro)

lemma resume_force [approx_intro]: "approx (resume_force E cb l) (resume_force E cb' l)"
  unfolding resume_force_def by (intro approx_intro)

lemma force_value_and_interpret [approx_intro]:
  "approx (force_value_and_interpret E cb l) (force_value_and_interpret E cb' l)"
  unfolding force_value_and_interpret_def by (intro approx_intro)

lemma force_copy [approx_intro]: "approx (force_copy E cb l k t v n) (force_copy E cb' l k t v n)"
  unfolding force_copy_def by (intro approx_intro)

lemma force_in_place [approx_intro]: "approx (force_in_place E cb l b n) (force_in_place E cb' l b n)"
  unfolding force_in_place_def by (intro approx_intro)

lemma fully_force_value [approx_intro]: "approx (fully_force_value E cb l k) (fully_force_value E cb' l k)"
  unfolding fully_force_value_def Let_def by (intro approx_intro)

lemma start_in_thread [approx_intro]:
  "approx (start_in_thread E cb i args b) (start_in_thread E cb' i args b)"
  unfolding start_in_thread_def by (intro approx_intro)

lemma invoke_native_fun [approx_intro]:
  "approx (invoke_native_fun E cb nfi b n) (invoke_native_fun E cb' nfi b n)"
proof -
  have *: "approx (case r of NBadAlloc \<Rightarrow> c | NException \<Rightarrow> d | NReturned v \<Rightarrow> e v)
      (case r of NBadAlloc \<Rightarrow> c | NException \<Rightarrow> d | NReturned v \<Rightarrow> e v)" for r c d e
    by (rule approx_refl)
  show ?thesis unfolding invoke_native_fun_def by (intro approx_intro *)
qed

section \<open>The operations\<close>

lemma getters [approx_intro]:
  "approx (get_int_at E cb l) (get_int_at E cb' l)"
  "approx (get_float_at E cb l) (get_float_at E cb' l)"
  "approx (get_ref_at E cb l) (get_ref_at E cb' l)"
  unfolding get_int_at_def get_float_at_def get_ref_at_def by (intro approx_intro)+

lemma get_operand [approx_intro]:
  "(\<And>l. approx (f l) (f' l)) \<Longrightarrow> approx (get_operand E f imm g back a x j n) (get_operand E f' imm g back a x j n)"
  unfolding get_operand_def by (intro approx_intro)

lemma operands [approx_intro]:
  "approx (get_int E cb a x j n) (get_int E cb' a x j n)"
  "approx (get_float E cb a x j n) (get_float E cb' a x j n)"
  "approx (get_ref E cb a x j n) (get_ref E cb' a x j n)"
  unfolding get_int_def get_float_def get_ref_def by (intro approx_intro)+

lemma fetches [approx_intro]:
  "(\<And>a x j n. approx (g a x j n) (g' a x j n)) \<Longrightarrow> approx (fetch1 g ins) (fetch1 g' ins)"
  "(\<And>a x j n. approx (g a x j n) (g' a x j n)) \<Longrightarrow> (\<And>a x j n. approx (h a x j n) (h' a x j n)) \<Longrightarrow>
     approx (fetch2 g h ins) (fetch2 g' h' ins)"
  unfolding fetch1_def fetch2_def by (intro approx_intro; assumption)+

lemma operand_ops [approx_intro]:
  "(\<And>a x j n. approx (g a x j n) (g' a x j n)) \<Longrightarrow> (\<And>x. approx (f x) (f' x)) \<Longrightarrow>
     approx (operand1 E g ins f) (operand1 E g' ins f')"
  "(\<And>a x j n. approx (g a x j n) (g' a x j n)) \<Longrightarrow> (\<And>a x j n. approx (h a x j n) (h' a x j n)) \<Longrightarrow>
     (\<And>x y. approx (k x y) (k' x y)) \<Longrightarrow> approx (operand2 E g h ins k) (operand2 E g' h' ins k')"
  unfolding operand1_def operand2_def by (intro approx_intro; assumption)+

lemma checked [approx_intro]: "(\<And>ob. approx (f ob) (f' ob)) \<Longrightarrow> approx (checked E q t f) (checked E q t f')"
  unfolding checked_def by (intro approx_intro)

lemma number_ops [approx_intro]:
  "rel_option approx (int_arith_op E cb ins op) (int_arith_op E cb' ins op)"
  "rel_option approx (int_logic_op E cb ins op) (int_logic_op E cb' ins op)"
  "rel_option approx (int_compare_op E cb ins op) (int_compare_op E cb' ins op)"
  "rel_option approx (float_arith_op E cb ins op) (float_arith_op E cb' ins op)"
  "rel_option approx (float_compare_op E cb ins op) (float_compare_op E cb' ins op)"
  "rel_option approx (float_math_op1 E cb ins op) (float_math_op1 E cb' ins op)"
  "rel_option approx (float_math_op2 E cb ins op) (float_math_op2 E cb' ins op)"
  unfolding int_arith_op_def int_logic_op_def int_compare_op_def float_arith_op_def float_compare_op_def
    float_math_op1_def float_math_op2_def Let_def
  by (intro rel_option_if option.rel_intros approx_intro)+

lemma unique_set_nth [approx_intro]:
  "approx (unique_set_nth E cb k q i) (unique_set_nth E cb' k q i)"
  unfolding unique_set_nth_def by (cases k; simp only: akind.case; intro approx_intro)

lemma array_ops [approx_intro]:
  "rel_option approx (array_op E cb ins op) (array_op E cb' ins op)"
  "rel_option approx (nth_op E cb ins op) (nth_op E cb' ins op)"
  "rel_option approx (len_op E cb ins op) (len_op E cb' ins op)"
  "rel_option approx (cat_op E cb ins op) (cat_op E cb' ins op)"
  "rel_option approx (type_op E cb ins op) (type_op E cb' ins op)"
  "rel_option approx (fill_op E cb ins op) (fill_op E cb' ins op)"
  "rel_option approx (unique_nth_op E cb ins op) (unique_nth_op E cb' ins op)"
  "rel_option approx (unique_set_nth_op E cb ins op) (unique_set_nth_op E cb' ins op)"
  "rel_option approx (unique_len_op E cb ins op) (unique_len_op E cb' ins op)"
  "rel_option approx (to_shared_op E cb ins op) (to_shared_op E cb' ins op)"
  "rel_option approx (refs_to_shared_op E cb ins op) (refs_to_shared_op E cb' ins op)"
  unfolding array_op_def nth_op_def len_op_def cat_op_def type_op_def fill_op_def unique_nth_op_def
    unique_set_nth_op_def unique_len_op_def to_shared_op_def refs_to_shared_op_def Let_def
  by (intro rel_option_if rel_option_map_same option.rel_intros approx_intro)+

lemma try_parts [approx_intro]:
  "approx (try_enter E cb ins) (try_enter E cb' ins)"
  "approx (try_leave E cb ins) (try_leave E cb' ins)"
  unfolding try_enter_def try_leave_def by (intro approx_intro)+

lemma call_op_with [approx_intro]:
  "approx (call_op_with E cb ins vt f) (call_op_with E cb' ins vt f)"
  unfolding call_op_with_def by (intro approx_intro)

lemma native_call_with [approx_intro]:
  "approx (native_call_with E cb ins f) (native_call_with E cb' ins f)"
  unfolding native_call_with_def by (intro approx_intro)

lemma call_ops [approx_intro]:
  "rel_option approx (ref_op E cb ins op) (ref_op E cb' ins op)"
  "rel_option approx (call_op E cb ins op) (call_op E cb' ins op)"
  "rel_option approx (conversion_op E cb ins op) (conversion_op E cb' ins op)"
  "rel_option approx (native_call_op E cb ins op) (native_call_op E cb' ins op)"
  "rel_option approx (force_op E cb ins op) (force_op E cb' ins op)"
  "rel_option approx (stacktrace_op E cb ins op) (stacktrace_op E cb' ins op)"
  unfolding ref_op_def call_op_def conversion_op_def native_call_op_def force_op_def stacktrace_op_def try_op_def Let_def
  by (intro rel_option_if option.rel_intros approx_intro)+

lemma op_table: "list_all2 (rel_option approx) (op_table E cb ins op) (op_table E cb' ins op)"
  unfolding op_table_def by (intro list.rel_intros approx_intro)

lemma interpret_op [approx_intro]: "approx (interpret_op E cb ins) (interpret_op E cb' ins)"
  unfolding interpret_op_def by (intro approx_case_Some rel_first_some op_table approx_refl)

section \<open>The instructions\<close>

lemma instrs [approx_intro]:
  "approx (op_value E cb ins) (op_value E cb' ins)"
  "approx (instr_let E cb ins) (instr_let E cb' ins)"
  "approx (instr_ret E cb ins) (instr_ret E cb' ins)"
  "approx (instr_jc E cb ins) (instr_jc E cb' ins)"
  "approx (instr_arg E cb ins) (instr_arg E cb' ins)"
  "approx (let_tuple_value E cb ins) (let_tuple_value E cb' ins)"
  "approx (instr_throw E cb ins) (instr_throw E cb' ins)"
  "approx (instr_push E cb ins) (instr_push E cb' ins)"
  "approx (instr_rethrow E cb ins) (instr_rethrow E cb' ins)"
  "approx (resume_after_force E cb ins) (resume_after_force E cb' ins)"
  unfolding op_value_def instr_let_def instr_ret_def instr_jc_def instr_arg_def let_tuple_value_def
    instr_throw_def instr_push_def instr_rethrow_def resume_after_force_def Let_def
  by (intro approx_intro)+

lemma instr_lettuple [approx_intro]: "approx (instr_lettuple E cb ins) (instr_lettuple E cb' ins)"
  unfolding instr_lettuple_def by (intro approx_intro)

lemma dispatch_instr [approx_intro]: "approx (dispatch_instr E cb ins) (dispatch_instr E cb' ins)"
  unfolding dispatch_instr_def Let_def by (intro approx_intro)

lemma interpret_instr [approx_intro]: "approx (interpret_instr E cb) (interpret_instr E cb')"
  unfolding interpret_instr_def Let_def by (intro approx_intro)

lemma interpret_all [approx_intro]: "approx (interpret_all E cb) (interpret_all E cb')"
  unfolding interpret_all_def by (intro approx_intro)

lemma machine_step: "approx_callbacks (machine_step E cb) (machine_step E cb')"
  unfolding approx_callbacks_def machine_step_def by (auto intro!: approx_intro)

end

section \<open>More fuel changes nothing\<close>

lemma approx_callbacks_refl: "approx_callbacks cb cb"
  by (simp add: approx_callbacks_def approx_refl)

lemma approx_callbacks_trans:
  "approx_callbacks cb cb' \<Longrightarrow> approx_callbacks cb' cb'' \<Longrightarrow> approx_callbacks cb cb''"
  unfolding approx_callbacks_def by (blast intro: approx_trans)

lemma no_machine_least: "approx_callbacks no_machine cb"
  by (simp add: approx_callbacks_def no_machine_def approx_nofuel)

lemma machine_Suc:
  assumes "fuel_independent_natives E"
  shows "approx_callbacks (machine E n) (machine E (Suc n))"
proof (induction n)
  case 0
  show ?case by (simp add: no_machine_least)
next
  case (Suc n)
  show ?case using finishing_callbacks.machine_step [OF finishing_callbacks.intro [OF Suc.IH assms]]
    by simp
qed

lemma machine_add:
  assumes "fuel_independent_natives E"
  shows "approx_callbacks (machine E n) (machine E (n + k))"
proof (induction k)
  case (Suc k)
  then show ?case using approx_callbacks_trans machine_Suc [OF assms, of "n + k"] by simp
qed (simp add: approx_callbacks_refl)

lemma plain_natives: "fuel_independent_natives (plain_env F st funs vars)"
  by (simp add: fuel_independent_natives_def plain_env_def empty_native_invoke_def approx_refl)

interpretation plain_machine: finishing_callbacks
  "plain_env F st funs vars" "machine (plain_env F st funs vars) n" "machine (plain_env F st funs vars) (n + k)"
  for F st funs vars n k
  by unfold_locales (rule machine_add plain_natives)+

section \<open>A sample program\<close>

text \<open>A program with one function, \<open>ret iload(3)\<close>, a thread with an object in memory, and its run.\<close>

definition demo_code :: "instruction list" where
  "demo_code = [\<lparr>i_opcode = opcode INSTR_RET OP_ILOAD ARG_TYPE_IMM ARG_TYPE_IMM 2, i_arg1 = 3, i_arg2 = 0\<rparr>]"

definition demo_env :: env where
  "demo_env = plain_env zero_fpu EagerStrategy [\<lparr>f_arg_count = 0, f_instrs = Some demo_code\<rparr>] []"

definition demo_state :: ctx where
  "demo_state = new_thread_context 8 8 [Object False (IArray8 [1, 2])]"

definition demo_entered :: ctx where
  "demo_entered = snd (enter_to_fun 0 demo_state)"

lemmas demo_defs = demo_entered_def enter_to_fun_def demo_state_def new_thread_context_def initial_regs_def
  no_return_value_def run Let_def add32_def put_stack_def

lemma demo_natives: "fuel_independent_natives demo_env"
  by (simp add: demo_env_def plain_natives)

lemma demo_funs: "e_funs demo_env = [\<lparr>f_arg_count = 0, f_instrs = Some demo_code\<rparr>]"
  by (simp add: demo_env_def plain_env_def)

lemma demo_enter: "enter_to_fun 0 demo_state = (Done (), demo_entered)"
  by (simp add: demo_defs)

lemma iload_3:
  "interpret_op E cb \<lparr>i_opcode = opcode INSTR_RET OP_ILOAD ARG_TYPE_IMM ARG_TYPE_IMM 2, i_arg1 = 3, i_arg2 = 0\<rparr> s =
   (Done (VInt 3), s\<lparr>regs := (regs s)\<lparr>esec := sub32 (esec (regs s)) 0\<rparr>\<rparr>)"
  by (simp add: interpret_op_def op_table_def int_arith_op_def opcode_fields operand1_def fetch1_def get_int_value_def
     pop_count1_def run get_operand_def pop_expr_values_def expr_pop_arg_count1_def or_raise_def ctx_pop_expr_values_def)

lemma fp_none_back: "(FP_NONE = 0) = False" "signed_drop_bit 8 (push_bit 8 FP_NONE) = FP_NONE"
  by code_simp+

lemma demo_instr:
  "\<exists>t. interpret_instr demo_env cb demo_entered = (Done True, t) \<and> fp (regs t) = FP_NONE \<and> rv_i (rv (regs t)) = 3"
  by (simp add: demo_defs frame_word_def interpret_instr_def demo_funs demo_code_def instrs_of_def dispatch_instr_def
     opcode_fields instr_ret_def op_value_def iload_3 set_rv_def or_set_error_def leave_from_fun_def is_frame_def
     set_gc_tmp_ptr_def clear_tmp_def put_tmp_def fp_none_back)

lemma instr_of_no_fun: "fp (regs t) = FP_NONE \<Longrightarrow> interpret_instr E cb t = (Done False, t)"
  by (simp add: interpret_instr_def run)

lemma demo_steps: "\<exists>t. cb_interpret (machine demo_env (Suc (Suc n))) demo_entered = (Done (), t) \<and>
    interpret_instr demo_env (machine demo_env (Suc n)) demo_entered = (Done True, t) \<and> fp (regs t) = FP_NONE \<and> rv_i (rv (regs t)) = 3"
proof -
  obtain t where t: "interpret_instr demo_env (machine demo_env (Suc n)) demo_entered = (Done True, t)" "fp (regs t) = FP_NONE" "rv_i (rv (regs t)) = 3"
    using demo_instr by blast
  then have "cb_interpret (machine demo_env (Suc (Suc n))) demo_entered = (Done (), t)"
    by (simp add: machine_step_def interpret_all_def run instr_of_no_fun)
  with t show ?thesis by blast
qed

lemma demo_run: "\<exists>q t. run_thread demo_env (Suc (Suc n)) 0 [] False demo_state = (Done q, t) \<and> rv_i q = 3"
proof -
  obtain t where "cb_interpret (machine demo_env (Suc (Suc n))) demo_entered = (Done (), t)" "rv_i (rv (regs t)) = 3"
    using demo_steps by blast
  moreover have "rv_error (rv (regs demo_entered)) = ERROR_SUCCESS" "ac2 (regs demo_state) = 0"
    by (simp_all add: demo_defs)
  ultimately show ?thesis by (simp add: run_thread_def start_in_thread_def run call_fun_for_force_def check_fun_def demo_funs demo_code_def enter_or_raise_def or_raise_def demo_enter
    pop_args_def reading_regs_def del: machine.simps)
qed

section \<open>Runs\<close>

text \<open>The outcome of a run does not depend on the fuel. When a thread started on any function of any
  program, with any strategy and any native functions that themselves are monotone in the machine they
  call back, ends with fuel \<open>n\<close> (normally, with an error, or in undefined behaviour), it ends with
  the same outcome in the same state with any greater fuel.\<close>

lemma run_thread_more_fuel:
  assumes "fuel_independent_natives E"
    and "run_thread E n i args b s = (r, t)" and "r \<noteq> NoFuel"
  shows "run_thread E (n + k) i args b s = (r, t)"
proof -
  have "approx (run_thread E n i args b) (run_thread E (n + k) i args b)"
    unfolding run_thread_def
    by (rule finishing_callbacks.start_in_thread)
      (rule finishing_callbacks.intro [OF machine_add [OF assms(1)] assms(1)])
  then show ?thesis using assms(2,3) by (rule approxD)
qed

lemma run_thread_more_fuel_demo:
  "\<exists>q t. run_thread demo_env (2 + 1000) 0 [] False demo_state = (Done q, t) \<and> rv_i q = 3"
proof -
  obtain q t where "run_thread demo_env 2 0 [] False demo_state = (Done q, t)" "rv_i q = 3"
    using demo_run [of 0] by (auto simp: numeral_2_eq_2)
  with run_thread_more_fuel [OF demo_natives this(1), of 1000] show ?thesis by auto
qed

end
