(* ===== verification/Heap_Steps.thy ===== *)
theory Heap_Steps
  imports Machine_Fuel
begin

text \<open>
  What the whole interpreter keeps of the memory. \<open>heap_step loose k\<close> relates a state to a later
  one: the stacks have the same size, none of the first \<open>k\<close> objects was freed or changed its
  type, its uniqueness or its length, and, unless \<open>loose\<close>, the shared ones among them that are not lazy values
  hold what they held. The number \<open>k\<close> tells the objects that were there at the beginning from those that were
  allocated since, which may still be filled.
\<close>

section \<open>Shapes of objects\<close>

text \<open>The shape of an object: its uniqueness, type and length. Tables and their entries are internal
  and have one shape each.\<close>

definition object_shape :: "object \<Rightarrow> bool \<times> int \<times> nat" where
  "object_shape ob = (case body ob of
     HashTable _ _ \<Rightarrow> (False, OBJECT_TYPE_HASH_TABLE, 0)
   | HashEntry _ _ _ _ \<Rightarrow> (False, OBJECT_TYPE_ALI_HASH_TABLE_ENTRY, 0)
   | _ \<Rightarrow> (object_is_unique ob, object_type ob, object_length ob))"

text \<open>Shapes of the objects a program cannot change: shared, and neither lazy nor internal.\<close>

definition frozen :: "bool \<times> int \<times> nat \<Rightarrow> bool" where
  "frozen sh \<longleftrightarrow> \<not> fst sh \<and> fst (snd sh) \<notin>
     {OBJECT_TYPE_LAZY_VALUE, OBJECT_TYPE_HASH_TABLE, OBJECT_TYPE_ALI_HASH_TABLE_ENTRY}"

definition heap_step :: "bool \<Rightarrow> nat \<Rightarrow> ctx \<Rightarrow> ctx \<Rightarrow> bool" where
  "heap_step loose k s t \<longleftrightarrow> (k \<le> length (heap s) \<longrightarrow>
     length (stack t) = length (stack s) \<and> length (expr_stack t) = length (expr_stack s) \<and>
     k \<le> length (heap t) \<and>
     (\<forall>a<k. object_shape (heap t ! a) = object_shape (heap s ! a) \<and>
        (\<not> loose \<longrightarrow> frozen (object_shape (heap s ! a)) \<longrightarrow> heap t ! a = heap s ! a)))"

interpretation heap_step: step_relation "heap_step loose k" for loose k
  by unfold_locales (auto simp: heap_step_def)

lemmas heap_keeps = heap_step.combinators heap_step.if_split heap_step.case_option

lemma set_elem_shape: "set_elem F ob i v = Some (True, ob') \<Longrightarrow> object_shape ob' = object_shape ob"
  by (cases "(F, ob, i, v)" rule: set_elem.cases)
    (auto split: vm_value.splits simp: object_shape_def dest: upd_opt_length)

section \<open>Rules for the combinators of the code\<close>

lemma same_heap_keeps:
  "(\<And>s. heap (snd (c s)) = heap s \<and> length (stack (snd (c s))) = length (stack s) \<and>
      length (expr_stack (snd (c s))) = length (expr_stack s)) \<Longrightarrow> keeps (heap_step loose k) c"
  by (rule keepsI) (simp add: heap_step_def)

lemma keeps_Let [keeps_intro]: "(\<And>x. x = t \<Longrightarrow> keeps R (f x)) \<Longrightarrow> keeps R (let x = t in f x)"
  by simp

lemma keeps_prod [keeps_intro]:
  "(\<And>x y. p = (x, y) \<Longrightarrow> keeps R (f x y)) \<Longrightarrow> keeps R (case p of (x, y) \<Rightarrow> f x y)"
  by (cases p) simp

lemma keeps_value [keeps_intro]:
  assumes "\<And>i. keeps R (f1 i)" "\<And>i. keeps R (f2 i)" "\<And>i. keeps R (f3 i)"
    "\<And>i j. keeps R (f4 i j)" "\<And>i. keeps R (f5 i)" "\<And>i j. keeps R (f6 i j)"
    "\<And>i. keeps R (f7 i)" "keeps R f8"
  shows "keeps R (case v of VInt i \<Rightarrow> f1 i | VFloat i \<Rightarrow> f2 i | VRef i \<Rightarrow> f3 i | VPair i j \<Rightarrow> f4 i j
       | VCanceled i \<Rightarrow> f5 i | VLazy i j \<Rightarrow> f6 i j | VLocked i \<Rightarrow> f7 i | VError \<Rightarrow> f8)"
  using assms by (cases v) simp_all

lemma keeps_bool [keeps_intro]:
  "keeps R c \<Longrightarrow> keeps R d \<Longrightarrow> keeps R (case b of True \<Rightarrow> c | False \<Rightarrow> d)"
  by (cases b) simp_all

lemma keeps_body_lazy [keeps_intro]:
  "(\<And>z. b = LazyValue z \<Longrightarrow> keeps R (f z)) \<Longrightarrow> keeps R d \<Longrightarrow> keeps R (case b of LazyValue z \<Rightarrow> f z | _ \<Rightarrow> d)"
  by (cases b) simp_all

lemma keeps_body_table [keeps_intro]:
  "(\<And>n bs. b = HashTable n bs \<Longrightarrow> keeps R (f n bs)) \<Longrightarrow> keeps R d \<Longrightarrow>
   keeps R (case b of HashTable n bs \<Rightarrow> f n bs | _ \<Rightarrow> d)"
  by (cases b) simp_all

lemma keeps_body_entry [keeps_intro]:
  "(\<And>p q r v. b = HashEntry p q r v \<Longrightarrow> keeps R (f p q r v)) \<Longrightarrow> keeps R d \<Longrightarrow>
   keeps R (case b of HashEntry p q r v \<Rightarrow> f p q r v | _ \<Rightarrow> d)"
  by (cases b) simp_all

lemma modify_keeps [keeps_intro]:
  "(\<And>s. heap (f s) = heap s \<and> stack (f s) = stack s \<and> expr_stack (f s) = expr_stack s) \<Longrightarrow>
   keeps (heap_step loose k) (modify f)"
  by (rule same_heap_keeps) (simp add: run)

lemma primitives_keep [keeps_intro]:
  "keeps (heap_step loose k) (set_regs g)"
  "keeps (heap_step loose k) (get_stack i)"
  "keeps (heap_step loose k) (put_stack i v)"
  "keeps (heap_step loose k) (get_expr_stack i)"
  "keeps (heap_step loose k) (put_expr_stack i v)"
  "keeps (heap_step loose k) (get_tmp i)"
  "keeps (heap_step loose k) (put_tmp i v)"
  "keeps (heap_step loose k) (get_auto i)"
  "keeps (heap_step loose k) (put_auto i v)"
  "keeps (heap_step loose k) (deref_m q)"
  "keeps (heap_step loose k) (lift_outcome r)"
  by (rule same_heap_keeps; simp add: run get_tmp_def put_tmp_def get_auto_def put_auto_def deref_m_def
      lift_outcome_def split: option.split; fail)+

lemma loc_keeps [keeps_intro]:
  "keeps (heap_step loose k) (get_loc l)" "keeps (heap_step loose k) (put_loc l v)"
  by (cases l; simp add: primitives_keep)+

lemma with_local_keeps [keeps_intro]:
  assumes "\<And>l. keeps (heap_step loose k) (f l)" shows "keeps (heap_step loose k) (with_local v f)"
proof (rule keepsI)
  fix s
  have "heap_step loose k (s\<lparr>autos := autos s @ [v]\<rparr>)
      (snd (f (LLocal (length (autos s))) (s\<lparr>autos := autos s @ [v]\<rparr>)))"
    using assms by (rule keepsD)
  then show "heap_step loose k s (snd (with_local v f s))"
    by (simp add: with_local_def heap_step_def case_prod_beta Let_def)
qed

lemma with_registered_keeps [keeps_intro]:
  assumes "keeps (heap_step loose k) c" shows "keeps (heap_step loose k) (with_registered c)"
  using assms by (simp add: keeps_def with_registered_def heap_step_def case_prod_beta Let_def)

section \<open>Writing objects\<close>

text \<open>An object that is new since the \<open>k\<close> first ones.\<close>

definition fresh_ref :: "nat \<Rightarrow> ref \<Rightarrow> bool" where
  "fresh_ref k q \<longleftrightarrow> (\<exists>a\<ge>k. q = RAddr a)"

lemma put_fresh [keeps_intro]: "fresh_ref k q \<Longrightarrow> keeps (heap_step loose k) (put_object q ob)"
  by (rule keepsI) (auto simp: fresh_ref_def put_object_def heap_step_def)

text \<open>What is known of the object at \<open>q\<close> when it is one of the first \<open>k\<close>; later steps keep it.\<close>

definition shape_at :: "nat \<Rightarrow> ref \<Rightarrow> bool \<times> int \<times> nat \<Rightarrow> ctx \<Rightarrow> bool" where
  "shape_at k q sh s \<longleftrightarrow> (\<forall>a. q = RAddr a \<longrightarrow> a < k \<longrightarrow> k \<le> length (heap s) \<longrightarrow> object_shape (heap s ! a) = sh)"

definition keeps_at :: "bool \<Rightarrow> nat \<Rightarrow> ref \<Rightarrow> bool \<times> int \<times> nat \<Rightarrow> (ctx, 'a) m \<Rightarrow> bool" where
  "keeps_at loose k q sh c \<longleftrightarrow> (\<forall>s. shape_at k q sh s \<longrightarrow> heap_step loose k s (snd (c s)))"

named_theorems at_intro "rules that split a keeps_at goal"

lemma keeps_atI: "(\<And>s. shape_at k q sh s \<Longrightarrow> heap_step loose k s (snd (c s))) \<Longrightarrow> keeps_at loose k q sh c"
  by (simp add: keeps_at_def)

lemma keeps_atD: "keeps_at loose k q sh c \<Longrightarrow> shape_at k q sh s \<Longrightarrow> heap_step loose k s (snd (c s))"
  by (simp add: keeps_at_def)

lemma shape_at_step: "shape_at k q sh s \<Longrightarrow> heap_step loose k s t \<Longrightarrow> k \<le> length (heap s) \<Longrightarrow> shape_at k q sh t"
  by (auto simp: shape_at_def heap_step_def)

lemma at_keeps: "keeps (heap_step loose k) c \<Longrightarrow> keeps_at loose k q sh c"
  by (simp add: keeps_at_def keeps_def)

lemma at_bindM [at_intro]:
  assumes c: "keeps_at loose k q sh c" and f: "\<And>x. keeps_at loose k q sh (f x)"
  shows "keeps_at loose k q sh (bindM c f)"
proof (rule keeps_atI)
  fix s assume s: "shape_at k q sh s"
  obtain r t where ct: "c s = (r, t)" by (cases "c s")
  have st: "heap_step loose k s t" using keeps_atD [OF c s] by (simp add: ct)
  show "heap_step loose k s (snd (bindM c f s))"
  proof (cases "k \<le> length (heap s)")
    case True
    then have t: "shape_at k q sh t" using shape_at_step [OF s st] by simp
    show ?thesis
    proof (cases r)
      case (Done x)
      then show ?thesis using keeps_atD [OF f t] heap_step.trans [OF st] by (simp add: run ct)
    qed (simp_all add: run ct st)
  qed (simp add: heap_step_def)
qed

lemma at_seqM [at_intro]:
  "keeps_at loose k q sh c \<Longrightarrow> keeps_at loose k q sh d \<Longrightarrow> keeps_at loose k q sh (seqM c d)"
  unfolding seqM_def by (rule at_bindM)

lemma at_if [at_intro]:
  "(b \<Longrightarrow> keeps_at loose k q sh c) \<Longrightarrow> (\<not> b \<Longrightarrow> keeps_at loose k q sh d) \<Longrightarrow>
   keeps_at loose k q sh (if b then c else d)"
  by simp

lemma at_put [at_intro]:
  "object_shape ob = sh \<Longrightarrow> loose \<or> \<not> frozen sh \<Longrightarrow> keeps_at loose k q sh (put_object q ob)"
  by (rule keeps_atI) (auto simp: put_object_def heap_step_def shape_at_def nth_list_update split: ref.split)

lemma at_put_lazy [at_intro]:
  assumes "body ob = LazyValue z" and "length (lz_args z') = length (lz_args z)"
  shows "keeps_at loose k q (object_shape ob) (put_object q (Object (has_unique_flag ob) (LazyValue z')))"
  using assms by (cases ob) (auto intro!: at_put simp: object_shape_def frozen_def)

lemma deref_at:
  assumes f: "\<And>ob. keeps_at loose k q (object_shape ob) (f ob)"
  shows "keeps (heap_step loose k) (bindM (deref_m q) f)"
proof (rule keepsI)
  fix s
  show "heap_step loose k s (snd (bindM (deref_m q) f s))"
  proof (cases "deref (heap s) q")
    case (Some ob)
    then have "shape_at k q (object_shape ob) s" by (auto simp: shape_at_def)
    then show ?thesis using keeps_atD [OF f] Some by (simp add: run deref_m_def)
  qed (simp add: run deref_m_def heap_step.refl)
qed

lemma at_nothing: "(\<And>s. snd (c s) = s) \<Longrightarrow> keeps_at loose k q sh c"
  by (simp add: keeps_at_def heap_step.refl)

lemma put_other:
  assumes "shape_at k q sh s" and "deref (heap s) q = Some ob" and "object_shape ob' = object_shape ob"
    and "loose \<or> \<not> frozen sh"
  shows "heap_step loose k s (snd (put_object q ob' s))"
  using assms by (auto simp: put_object_def heap_step_def shape_at_def nth_list_update split: ref.split)

lemma set_elem_at [at_intro]:
  assumes "loose \<or> \<not> frozen sh" shows "keeps_at loose k q sh (set_elem_m E q i v)"
proof (rule keeps_atI)
  fix s assume s: "shape_at k q sh s"
  show "heap_step loose k s (snd (set_elem_m E q i v s))"
  proof (cases "deref (heap s) q")
    case (Some ob)
    then show ?thesis
      using put_other [OF s Some set_elem_shape [of "e_fpu E" ob i v] assms]
      by (auto simp: set_elem_m_def run deref_m_def heap_step.refl split: option.split prod.split bool.split)
  next
    case None
    then show ?thesis by (simp add: set_elem_m_def run deref_m_def heap_step.refl)
  qed
qed

lemma set_elem_fresh [keeps_intro]:
  assumes "fresh_ref k q" shows "keeps (heap_step loose k) (set_elem_m E q i v)"
  unfolding set_elem_m_def
proof (rule deref_at)
  fix ob show "keeps_at loose k q (object_shape ob)
      (case set_elem (e_fpu E) ob i v of None \<Rightarrow> undef | Some (False, _) \<Rightarrow> ret () | Some (True, ob') \<Rightarrow> put_object q ob')"
    by (rule at_keeps) (auto split: option.split prod.split bool.split intro!: keeps_intro heap_keeps assms)
qed

lemma new_object_keeps:
  assumes n: "keeps (heap_step loose k) (f None)"
    and s: "\<And>q. fresh_ref k q \<Longrightarrow> keeps (heap_step loose k) (f (Some q))"
  shows "keeps (heap_step loose k) (bindM (gc_allocate E b t len) f)"
proof (rule keepsI)
  fix s0
  show "heap_step loose k s0 (snd (bindM (gc_allocate E b t len) f s0))"
  proof (cases "k \<le> length (heap s0)")
    case True
    then have fr: "fresh_ref k (RAddr (length (heap s0)))" by (simp add: fresh_ref_def)
    let ?t = "s0\<lparr>heap := heap s0 @ [fresh_object (e_junk E (length (heap s0))) t (unat len)],
             regs := (if b then (regs s0)\<lparr>gc_tmp_ptr := Some (length (heap s0))\<rparr> else regs s0)\<rparr>"
    have "heap_step loose k s0 ?t" using True by (auto simp: heap_step_def nth_append)
    then show ?thesis using keepsD [OF s [OF fr], of ?t] keepsD [OF n, of s0]
      by (auto simp: run gc_allocate_def Let_def intro: heap_step.trans)
  qed (simp add: heap_step_def)
qed

end
