(* ===== verification/Heap_Machine.thy ===== *)
theory Heap_Machine
  imports Heap_Steps
begin

text \<open>
  The parts of the interpreter that do not call back, and those that only do so through the combinators, keep the
  shapes of all objects (\<open>heap_step\<close> of Heap_Steps).
\<close>

section \<open>The functions that do not call back\<close>

lemma stack_words_keep [keeps_intro]:
  "keeps (heap_step loose k) (push_local_var v)"
  "keeps (heap_step loose k) (push_arg v)"
  "keeps (heap_step loose k) pop_args"
  "keeps (heap_step loose k) pop_args_and_local_vars"
  "keeps (heap_step loose k) in_instr"
  "keeps (heap_step loose k) hide_args"
  "keeps (heap_step loose k) restore_abp2_and_ac2"
  "keeps (heap_step loose k) (enter_to_fun i)"
  "keeps (heap_step loose k) leave_from_fun"
  "keeps (heap_step loose k) (push_expr_value v)"
  "keeps (heap_step loose k) (ctx_pop_expr_values n)"
  "keeps (heap_step loose k) pop_all_expr_values"
  "keeps (heap_step loose k) (get_expr_value n)"
  "keeps (heap_step loose k) (set_expr_value n v)"
  "keeps (heap_step loose k) (add_cancelation_undo_type l)"
  "keeps (heap_step loose k) pop_tmp_value"
  "keeps (heap_step loose k) get_tmp_value"
  "keeps (heap_step loose k) (set_try_regs v q)"
  "keeps (heap_step loose k) set_try_regs_for_force"
  unfolding push_local_var_def push_arg_def pop_args_def pop_args_and_local_vars_def in_instr_def hide_args_def
    restore_abp2_and_ac2_def enter_to_fun_def leave_from_fun_def push_expr_value_def ctx_pop_expr_values_def
    pop_all_expr_values_def get_expr_value_def set_expr_value_def add_cancelation_undo_type_def
    pop_tmp_value_def get_tmp_value_def set_try_regs_def set_try_regs_for_force_def
  by (intro keeps_intro heap_keeps)+

lemma check_types_keeps [keeps_intro]: "keeps (heap_step loose k) (check_types ps)"
  by (induction ps) (auto intro!: keeps_intro heap_keeps)

lemma pushed_words_keep [keeps_intro]:
  "keeps (heap_step loose k) push_tmp_ac2"
  "keeps (heap_step loose k) pop_tmp_ac2"
  "keeps (heap_step loose k) push_tmp_ac2_and_after_leaving_flag1"
  "keeps (heap_step loose k) pop_tmp_ac2_and_after_leaving_flag1"
  "keeps (heap_step loose k) push_ai"
  "keeps (heap_step loose k) pop_ai"
  "keeps (heap_step loose k) (push_locked_lazy_value_ref q)"
  "keeps (heap_step loose k) pop_locked_lazy_value_ref"
  "keeps (heap_step loose k) get_locked_lazy_value_ref"
  "keeps (heap_step loose k) (push_tmp_value v)"
  "keeps (heap_step loose k) push_try_regs"
  "keeps (heap_step loose k) pop_try_regs"
  unfolding push_tmp_ac2_def pop_tmp_ac2_def push_tmp_ac2_and_after_leaving_flag1_def
    pop_tmp_ac2_and_after_leaving_flag1_def push_ai_def pop_ai_def push_locked_lazy_value_ref_def
    pop_locked_lazy_value_ref_def get_locked_lazy_value_ref_def push_tmp_value_def push_try_regs_def pop_try_regs_def
  by (intro keeps_intro heap_keeps)+

section \<open>Errors\<close>

lemma unlock_lazy_value_keeps [keeps_intro]: "keeps (heap_step loose k) (unlock_lazy_value q)"
  unfolding unlock_lazy_value_def
  by (rule deref_at) (auto split: body.split intro!: at_put_lazy at_keeps [OF heap_step.undef])

lemma lock_all_keeps [keeps_intro]: "keeps (heap_step loose k) (try_lock_and_unlock_lazy_values n)"
  unfolding try_lock_and_unlock_lazy_values_def by (intro keeps_intro heap_keeps)

lemma trace_keeps [keeps_intro]:
  "keeps (heap_step loose k) (add_stack_trace_elems E n b)"
  "keeps (heap_step loose k) (add_stack_trace_elem_for_native_fun E nfi)"
  "keeps (heap_step loose k) move_stack_trace_to_try_catch_stack_trace"
  "keeps (heap_step loose k) move_try_catch_stack_trace_to_stack_trace"
  "keeps (heap_step loose k) reset_try_catch_stack_trace"
  by (rule same_heap_keeps; simp add: add_stack_trace_elems_def Let_def run add_stack_trace_elem_for_native_fun_def
      move_stack_trace_to_try_catch_stack_trace_def move_try_catch_stack_trace_to_stack_trace_def
      reset_try_catch_stack_trace_def split: outcome.split)+

lemma errors_keep [keeps_intro]:
  "keeps (heap_step loose k) (set_error_without_try E err q b)"
  "keeps (heap_step loose k) (set_error_with E err q b)"
  "keeps (heap_step loose k) (set_error E err)"
  "keeps (heap_step loose k) (raise E err)"
  unfolding raise_def set_error_def set_error_with_def set_error_without_try_def
  by (intro keeps_intro heap_keeps)+

lemma or_raise_keeps [keeps_intro]:
  "keeps (heap_step loose k) c \<Longrightarrow> keeps (heap_step loose k) (or_raise E c err)"
  unfolding or_raise_def by (intro keeps_intro heap_keeps)


section \<open>Registers saved for a nested run\<close>

lemma saved_regs_keep [keeps_intro]:
  "keeps (heap_step loose k) save_regs_and_set_regs"
  "keeps (heap_step loose k) (saved_words_intact sv)"
  "keeps (heap_step loose k) (restore_regs sv)"
  unfolding save_regs_and_set_regs_def restore_regs_def saved_words_intact_def
  by (intro keeps_intro heap_keeps)+

lemma allocation_keeps [keeps_intro]:
  assumes n: "keeps (heap_step loose k) c" and s: "\<And>q. fresh_ref k q \<Longrightarrow> keeps (heap_step loose k) (d q)"
  shows "keeps (heap_step loose k) (bindM (gc_new_object E t len) (\<lambda>q. case q of None \<Rightarrow> c | Some q \<Rightarrow> d q))"
    and "keeps (heap_step loose k) (bindM (gc_allocate E b t len) (\<lambda>q. case q of None \<Rightarrow> c | Some q \<Rightarrow> d q))"
  unfolding gc_new_object_def by (rule new_object_keeps; simp add: assms)+

section \<open>Stack traces as objects\<close>

lemma register_ref_keeps [keeps_intro]: "keeps (heap_step loose k) (register_ref q)"
  unfolding register_ref_def by (intro keeps_intro) simp

lemma gc_new_pair_keeps [keeps_intro]: "keeps (heap_step loose k) (gc_new_pair E v w)"
  unfolding gc_new_pair_def by (intro keeps_intro heap_keeps)

lemma gc_new_string_keeps [keeps_intro]: "keeps (heap_step loose k) (gc_new_string E str)"
  unfolding gc_new_string_def by (intro keeps_intro heap_keeps)

lemma fun_name_keeps [keeps_intro]: "keeps (heap_step loose k) (fun_name_object E name)"
  unfolding fun_name_object_def by (intro keeps_intro heap_keeps)

lemma trace_elem_keeps [keeps_intro]: "keeps (heap_step loose k) (stack_trace_elem_object E e)"
  unfolding stack_trace_elem_object_def by (intro keeps_intro heap_keeps)

lemma tmp_r_keeps [keeps_intro]: "keeps (heap_step loose k) (set_tmp_r q)" "keeps (heap_step loose k) drop_tmp_r"
  unfolding drop_tmp_r_def set_tmp_r_def by (intro keeps_intro heap_keeps)+

lemma trace_object_keeps [keeps_intro]:
  "fresh_ref k q \<Longrightarrow> keeps (heap_step loose k) (stack_trace_elems_to_object E q i es)"
proof (induction es arbitrary: i)
  case (Cons e es)
  show ?case unfolding stack_trace_elems_to_object.simps by (intro keeps_intro heap_keeps Cons)
qed (simp add: heap_step.ret)

lemma try_catch_trace_keeps [keeps_intro]: "keeps (heap_step loose k) (try_catch_stack_trace_to_object E)"
  unfolding try_catch_stack_trace_to_object_def by (intro keeps_intro heap_keeps)

section \<open>The tables of function results\<close>

lemma at_entry:
  "body ob = HashEntry p n kr v \<Longrightarrow> keeps_at loose k q (object_shape ob) (put_entry q p' n' kr' v')"
  unfolding put_entry_def by (rule at_put) (auto simp: object_shape_def frozen_def)

lemma bindM_assoc: "bindM (bindM c f) g = bindM c (\<lambda>x. bindM (f x) g)"
  by (rule ext) (simp add: run split: outcome.split prod.split)

lemma entry_keeps:
  assumes "\<And>p nx kr v. keeps_at loose k q (False, OBJECT_TYPE_ALI_HASH_TABLE_ENTRY, 0) (f (p, nx, kr, v))"
  shows "keeps (heap_step loose k) (bindM (entry_m q) f)"
  unfolding entry_m_def bindM_assoc
  by (rule deref_at) (auto split: body.split simp: object_shape_def ret_def bindM_def undef_def
        intro!: at_nothing assms)


lemma table_keeps:
  assumes "\<And>n bs. keeps_at loose k q (False, OBJECT_TYPE_HASH_TABLE, 0) (f (n, bs))"
  shows "keeps (heap_step loose k) (bindM (table_m q) f)"
  unfolding table_m_def bindM_assoc
  by (rule deref_at) (auto split: body.split simp: object_shape_def ret_def bindM_def undef_def
        intro!: at_nothing assms)

lemma table_m_keeps [keeps_intro]: "keeps (heap_step loose k) (table_m q)"
  unfolding table_m_def by (intro keeps_intro heap_keeps)

lemma entry_m_keeps [keeps_intro]: "keeps (heap_step loose k) (entry_m q)"
  unfolding entry_m_def by (intro keeps_intro heap_keeps)

lemma put_entry_at:
  "keeps_at loose k q (False, OBJECT_TYPE_ALI_HASH_TABLE_ENTRY, 0) (put_entry q p n kr v)"
  unfolding put_entry_def by (rule at_put) (simp_all add: object_shape_def frozen_def)

lemma put_entry_fresh [keeps_intro]: "fresh_ref k q \<Longrightarrow> keeps (heap_step loose k) (put_entry q p n kr v)"
  unfolding put_entry_def by (rule put_fresh)

lemma put_table_at:
  "keeps_at loose k q (False, OBJECT_TYPE_HASH_TABLE, 0) (put_object q (Object False (HashTable n bs)))"
  by (rule at_put) (simp_all add: object_shape_def frozen_def)

lemma link_entry_keeps [keeps_intro]:
  assumes "fresh_ref k e" shows "keeps (heap_step loose k) (link_entry m i e kr v)"
  unfolding link_entry_def
proof (rule table_keeps, unfold prod.case)
  fix n :: nat and bs :: "(ref \<times> ref) list"
  obtain first last where b: "bs ! i = (first, last)" by (cases "bs ! i")
  have "keeps (heap_step loose k) (bindM (entry_m last) (\<lambda>(p, nx, kr', v'). put_entry last p e kr' v'))"
    by (rule entry_keeps) (simp add: put_entry_at)
  then show "keeps_at loose k m (False, OBJECT_TYPE_HASH_TABLE, 0)
      (let (first, last) = bs ! i in
       seqM (put_entry e last RNil kr v)
      (seqM (if last \<noteq> RNil
             then bindM (entry_m last) (\<lambda>(p, nx, kr', v'). put_entry last p e kr' v')
             else ret ())
       (put_object m (Object False (HashTable n (bs[i := (if last \<noteq> RNil then first else e, e)]))))))"
    unfolding b Let_def prod.case
    by (intro at_intro put_table_at at_keeps put_entry_fresh assms heap_step.ret)
qed

lemma count_entry_keeps [keeps_intro]: "keeps (heap_step loose k) (count_entry m)"
  unfolding count_entry_def by (rule table_keeps) (simp add: put_table_at)

lemma find_entry_keeps [keeps_intro]: "keeps (heap_step loose k) (find_entry_and_set_bucket_index E m args)"
  unfolding find_entry_and_set_bucket_index_def by (intro keeps_intro heap_keeps)

lemma gc_tmp_keeps [keeps_intro]: "keeps (heap_step loose k) (set_gc_tmp_ptr p)"
  unfolding set_gc_tmp_ptr_def by (intro keeps_intro)

lemma new_key_keeps [keeps_intro]: "keeps (heap_step loose k) (new_key E args)"
  unfolding new_key_def by (intro keeps_intro heap_keeps)

lemma update_entry_keeps [keeps_intro]:
  "keeps (heap_step loose k) (bindM (entry_m q) (\<lambda>(p, nx, kr, v'). seqM (put_entry q p nx kr v) (ret True)))"
  by (rule entry_keeps) (simp add: at_seqM put_entry_at at_keeps heap_step.ret)

lemma ht_get_keeps [keeps_intro]: "keeps (heap_step loose k) (ht_get E m args)"
  unfolding ht_get_def by (intro keeps_intro heap_keeps)

lemma ht_add_keeps [keeps_intro]: "keeps (heap_step loose k) (ht_add E m args v)"
  unfolding ht_add_def by (intro keeps_intro heap_keeps)

lemma new_table_keeps [keeps_intro]: "keeps (heap_step loose k) (set_bucket_count_for_nil_ref E m n)"
  unfolding set_bucket_count_for_nil_ref_def safely_set_bucket_count_def by (intro keeps_intro heap_keeps)

lemma fun_result_keeps [keeps_intro]: "keeps (heap_step loose k) (fun_result E i vt args)"
  unfolding fun_result_def by (intro keeps_intro heap_keeps)

lemma add_fun_result_keeps [keeps_intro]: "keeps (heap_step loose k) (add_fun_result E i vt args v)"
  unfolding add_fun_result_def by (intro keeps_intro heap_keeps; simp)

end
