(* ===== verification/Heap_Interp.thy ===== *)
theory Heap_Interp
  imports Heap_Machine
begin

text \<open>
  The interpreter keeps the shapes of all objects, and does not change frozen ones: the lemmas of
  Heap_Machine for the functions that call back, under the hypothesis that the callbacks do.
\<close>

section \<open>Helpers of the interpreter\<close>

lemma bindM_raise: "bindM (raise E err) f = raise E err"
  by (rule ext) (simp add: raise_def run split: outcome.split prod.split)

lemma new_object_m_keeps [keeps_intro]:
  assumes "\<And>q. fresh_ref k q \<Longrightarrow> keeps (heap_step loose k) (f q)"
  shows "keeps (heap_step loose k) (bindM (new_object E t len) f)"
proof -
  have "bindM (new_object E t len) f = bindM (gc_new_object E t len)
      (\<lambda>q. case q of None \<Rightarrow> raise E ERROR_OUT_OF_MEMORY | Some q \<Rightarrow> f q)"
    unfolding new_object_def bindM_assoc
    by (rule arg_cong [where f = "bindM _"], rule ext)
      (simp add: bindM_raise split: option.split, simp add: bindM_def ret_def)
  then show ?thesis by (simp only:) (intro keeps_intro assms)
qed

lemma base_helpers_keep [keeps_intro]:
  "keeps (heap_step loose k) (get_int_for_const_value E v)"
  "keeps (heap_step loose k) (get_float_for_const_value E v)"
  "keeps (heap_step loose k) (get_ref_for_const_value E v)"
  "keeps (heap_step loose k) (lazy_value_type q)"
  "keeps (heap_step loose k) (pop_expr_values E n)"
  "keeps (heap_step loose k) (new_unique_pair E v w)"
  "keeps (heap_step loose k) (check_value_type E v t)"
  "keeps (heap_step loose k) (value_is_unique_m v)"
  "keeps (heap_step loose k) (check_object_type E ob t)"
  "keeps (heap_step loose k) (check_shared_for_object E ob)"
  "keeps (heap_step loose k) (check_object_elem_index E ob i)"
  "keeps (heap_step loose k) (add_object_lengths E l1 l2)"
  "keeps (heap_step loose k) (interp_push_arg E v)"
  "keeps (heap_step loose k) (check_pushed_arg_count E n)"
  "keeps (heap_step loose k) (interp_push_tmp_ac2 E)"
  "keeps (heap_step loose k) (interp_pop_tmp_ac2 E)"
  "keeps (heap_step loose k) (interp_push_tmp_ac2_and_flag1 E)"
  "keeps (heap_step loose k) (interp_pop_tmp_ac2_and_flag1 E)"
  "keeps (heap_step loose k) (interp_push_try_regs E)"
  "keeps (heap_step loose k) (interp_pop_try_regs E)"
  "keeps (heap_step loose k) (interp_push_ai E)"
  "keeps (heap_step loose k) (interp_pop_ai E)"
  "keeps (heap_step loose k) (interp_push_locked_lazy_value_ref E q)"
  "keeps (heap_step loose k) (interp_pop_locked_lazy_value_ref E)"
  "keeps (heap_step loose k) (interp_get_locked_lazy_value_ref E)"
  "keeps (heap_step loose k) (interp_push_tmp_value E v)"
  "keeps (heap_step loose k) (interp_pop_tmp_value E)"
  "keeps (heap_step loose k) (interp_get_tmp_value E)"
  "keeps (heap_step loose k) (check_fun E fn)"
  "keeps (heap_step loose k) (interp_try_catch_stack_trace_to_object E)"
  "keeps (heap_step loose k) (lazy_or rv0 v)"
  unfolding get_int_for_const_value_def get_float_for_const_value_def get_ref_for_const_value_def lazy_value_type_def
    pop_expr_values_def new_unique_pair_def check_value_type_def value_is_unique_m_def check_object_type_def
    check_shared_for_object_def check_object_elem_index_def add_object_lengths_def interp_push_arg_def
    check_pushed_arg_count_def interp_push_tmp_ac2_def interp_pop_tmp_ac2_def interp_push_tmp_ac2_and_flag1_def
    interp_pop_tmp_ac2_and_flag1_def interp_push_try_regs_def interp_pop_try_regs_def interp_push_ai_def
    interp_pop_ai_def interp_push_locked_lazy_value_ref_def interp_pop_locked_lazy_value_ref_def
    interp_get_locked_lazy_value_ref_def interp_push_tmp_value_def interp_pop_tmp_value_def
    interp_get_tmp_value_def check_fun_def interp_try_catch_stack_trace_to_object_def lazy_or_def
  by (intro keeps_intro heap_keeps; assumption)+

lemma base_helpers_keep2 [keeps_intro]:
  "keeps (heap_step loose k) (lazy_of_type v t)"
  "keeps (heap_step loose k) (check_shared_for_value E v)"
  "keeps (heap_step loose k) (cancel_ref_for_unique l)"
  "keeps (heap_step loose k) (restore_and_pop_regs_for_force E)"
  "keeps (heap_step loose k) (return_value_to_int_value E rv0)"
  "keeps (heap_step loose k) (return_value_to_float_value E rv0)"
  "keeps (heap_step loose k) (return_value_to_ref_value E rv0)"
  unfolding lazy_of_type_def check_shared_for_value_def cancel_ref_for_unique_def restore_and_pop_regs_for_force_def
    return_value_to_int_value_def return_value_to_float_value_def return_value_to_ref_value_def
  by (intro keeps_intro heap_keeps; assumption)+

lemma values_of_keep [keeps_intro]:
  "keeps (heap_step loose k) (int_value_of E v)"
  "keeps (heap_step loose k) (float_value_of E v)"
  "keeps (heap_step loose k) (ref_value_of E l)"
  "keeps (heap_step loose k) (ref_value_for_const_value E v)"
  unfolding int_value_of_def float_value_of_def ref_value_of_def ref_value_for_const_value_def
  by (intro keeps_intro heap_keeps; assumption)+

lemma get_operand_keeps [keeps_intro]:
  "(\<And>l. keeps (heap_step loose k) (f l)) \<Longrightarrow> (\<And>v. keeps (heap_step loose k) (g v)) \<Longrightarrow>
   keeps (heap_step loose k) (get_operand E f imm g back a x j n)"
  unfolding get_operand_def by (intro keeps_intro heap_keeps)

lemma unforced_operands_keep [keeps_intro]:
  "keeps (heap_step loose k) (get_int_value E a x j n)"
  "keeps (heap_step loose k) (get_float_value E a x j n)"
  "keeps (heap_step loose k) (get_ref_value E a x j n)"
  unfolding get_int_value_def get_float_value_def get_ref_value_def by (intro keeps_intro heap_keeps; assumption)+

lemma set_chain_keeps [keeps_intro]: "keeps (heap_step loose k) (set_chain_as_shared E n q)"
proof (induction n arbitrary: q)
  case (Suc n)
  show ?case unfolding set_chain_as_shared.simps
  proof (rule deref_at)
    fix ob
    have "object_type ob = OBJECT_TYPE_LAZY_VALUE \<Longrightarrow> body ob = LazyValue z \<Longrightarrow> \<not> has_unique_flag ob" for z
      by (cases ob) auto
    then have put: "object_type ob = OBJECT_TYPE_LAZY_VALUE \<Longrightarrow> body ob = LazyValue z \<Longrightarrow>
        keeps_at loose k q (object_shape ob) (put_object q (Object False (LazyValue (z\<lparr>lz_must_be_shared := True\<rparr>))))" for z
      using at_put_lazy [of ob z "z\<lparr>lz_must_be_shared := True\<rparr>" loose k q] by simp
    show "keeps_at loose k q (object_shape ob)
       (if object_type ob \<noteq> OBJECT_TYPE_LAZY_VALUE then ret ()
        else case body ob of
       LazyValue z \<Rightarrow>
         if lz_locked z then undef
         else if lz_must_be_shared z then ret ()
         else bindM (value_is_unique_m (lz_value z)) (\<lambda>u.
           if u then raise E ERROR_UNIQUE_OBJECT
           else seqM (put_object q (Object False (LazyValue (z\<lparr>lz_must_be_shared := True\<rparr>))))
             (case lz_value z of VLazy False q' \<Rightarrow> set_chain_as_shared E n q' | _ \<Rightarrow> ret ()))
     | _ \<Rightarrow> undef)"
      by (auto split: body.split intro!: at_intro put at_keeps [OF keeps_value] at_keeps [OF heap_step.ret]
          at_keeps [OF heap_step.undef] at_keeps [OF errors_keep(4)] at_keeps [OF base_helpers_keep(8)]
          keeps_intro heap_keeps Suc.IH)
  qed
qed (simp add: heap_step.nofuel)

lemma set_lazy_values_keeps [keeps_intro]: "keeps (heap_step loose k) (set_lazy_values_as_shared E v)"
  unfolding set_lazy_values_as_shared_def by (intro keeps_intro heap_keeps)


lemma lazy_m_keeps [keeps_intro]: "keeps (heap_step loose k) (lazy_m q)"
  unfolding lazy_m_def by (intro keeps_intro heap_keeps)

lemma put_lazy_keeps [keeps_intro]:
  assumes "\<And>z. lz_args (f z) = lz_args z" shows "keeps (heap_step loose k) (put_lazy q f)"
  unfolding put_lazy_def
  by (rule deref_at) (auto split: body.split simp: assms intro!: at_put_lazy at_keeps [OF heap_step.undef])

lemma mutex_keeps [keeps_intro]:
  "keeps (heap_step loose k) (lock_lazy q)"
  "keeps (heap_step loose k) (adopt_lazy q)"
  "keeps (heap_step loose k) (unlock_lazy q)"
  unfolding lock_lazy_def adopt_lazy_def unlock_lazy_def by (intro keeps_intro heap_keeps; simp)+

lemma undo_keeps [keeps_intro]: "keeps (heap_step loose k) (undo_cancelation l)"
  unfolding undo_cancelation_def by (intro keeps_intro heap_keeps)

lemma mapM_keeps [keeps_intro]:
  "(\<And>l. keeps (heap_step loose k) (f l)) \<Longrightarrow> keeps (heap_step loose k) (mapM_acts ls f)"
  by (induction ls) (simp_all add: heap_step.ret heap_step.seqM)

lemma reading_regs_keeps [keeps_intro]: "keeps (heap_step loose k) (reading_regs f)"
  unfolding reading_regs_def by (rule heap_step.reading)

lemma set_rv_keeps [keeps_intro]: "keeps (heap_step loose k) (set_rv v)"
  unfolding set_rv_def by (intro keeps_intro)

lemma pushed_values_keeps [keeps_intro]: "keeps (heap_step loose k) pushed_values"
  by (rule same_heap_keeps) (simp add: pushed_values_def Let_def)

lemma stack_slice_keeps [keeps_intro]:
  "keeps (heap_step loose k) (\<lambda>s. if a \<le> length (stack s) then (Done (f s), s) else (Undefined, s))"
  by (rule same_heap_keeps) simp

lemma error_code_keeps [keeps_intro]: "keeps (heap_step loose k) c \<Longrightarrow> keeps (heap_step loose k) (error_code c)"
  unfolding error_code_def by (intro keeps_intro heap_keeps)

lemma user_exception_ref_keeps [keeps_intro]: "keeps (heap_step loose k) user_exception_ref"
  unfolding user_exception_ref_def by (rule heap_step.reading)

lemma with_saved_regs_keeps [keeps_intro]:
  "keeps (heap_step loose k) c \<Longrightarrow> keeps (heap_step loose k) (with_saved_regs E c)"
  unfolding with_saved_regs_def by (intro keeps_intro heap_keeps)

lemma lazy_pre_enter_keeps [keeps_intro]: "keeps (heap_step loose k) (lazy_pre_enter E i vt)"
proof -
  have *: "or_raise E (bindM c (\<lambda>q. case q of None \<Rightarrow> fail | Some q \<Rightarrow> ret q)) err =
      bindM c (\<lambda>q. case q of None \<Rightarrow> raise E err | Some q \<Rightarrow> ret q)"
    if "\<And>s. fst (c s) \<noteq> Failed" for c :: "ref option act" and err
  proof (rule ext)
    fix s show "or_raise E (bindM c (\<lambda>q. case q of None \<Rightarrow> fail | Some q \<Rightarrow> ret q)) err s =
      bindM c (\<lambda>q. case q of None \<Rightarrow> raise E err | Some q \<Rightarrow> ret q) s"
      using that [of s] by (auto simp: or_raise_def run split: outcome.split option.split prod.split)
  qed
  have nf: "fst (gc_new_object E t n s) \<noteq> Failed" for t n s
    by (simp add: gc_new_object_def gc_allocate_def Let_def)
  have r: "bindM (case q of None \<Rightarrow> raise E err | Some q \<Rightarrow> ret q) f =
      (case q of None \<Rightarrow> raise E err | Some q \<Rightarrow> f q)" for q err and f :: "ref \<Rightarrow> bool act"
    by (auto simp: bindM_raise split: option.split) (simp add: bindM_def ret_def)
  show ?thesis unfolding lazy_pre_enter_def * [OF nf] bindM_assoc r
    by (intro keeps_intro heap_keeps)
qed

section \<open>Functions that call back\<close>

lemma keeps_from_at:
  assumes "\<And>sh. keeps_at loose k q sh c" shows "keeps (heap_step loose k) c"
proof (rule keepsI)
  fix s
  have "shape_at k q (case q of RAddr a \<Rightarrow> object_shape (heap s ! a) | _ \<Rightarrow> (False, 0, 0)) s"
    by (auto simp: shape_at_def)
  then show "heap_step loose k s (snd (c s))" using assms by (blast intro: keeps_atD)
qed

text \<open>Objects of the unique types can be changed.\<close>

lemma unique_not_frozen: "object_type ob = unique_type kd \<Longrightarrow> \<not> frozen (object_shape ob)"
  by (cases ob; cases kd; cases "body ob") (auto simp: unique_type_def object_shape_def frozen_def split: if_splits)

lemma seqM_raise: "seqM (raise E err) c = raise E err"
  unfolding seqM_def by (rule bindM_raise)

lemma seqM_ret: "seqM (ret x) c = c"
  by (rule ext) (simp add: run)

lemma checked_at:
  assumes "\<And>ob. object_type ob = t \<Longrightarrow> keeps_at loose k q (object_shape ob) (f ob)"
  shows "keeps (heap_step loose k) (checked E q t f)"
  unfolding checked_def
  by (rule deref_at) (simp add: check_object_type_def seqM_raise seqM_ret assms at_keeps errors_keep)

lemma checked_keeps [keeps_intro]:
  "(\<And>ob. keeps (heap_step loose k) (f ob)) \<Longrightarrow> keeps (heap_step loose k) (checked E q t f)"
  by (rule checked_at) (rule at_keeps)

text \<open>A program that does not use the operation \<open>RURAFILL\<close>.\<close>

definition no_ref_fill :: "func list \<Rightarrow> bool" where
  "no_ref_fill fs \<longleftrightarrow> list_all (\<lambda>f. list_all (\<lambda>ins. opcode_to_op (i_opcode ins) \<noteq> OP_RURAFILL) (instrs_of f)) fs"

definition keeping_callbacks :: "bool \<Rightarrow> nat \<Rightarrow> callbacks \<Rightarrow> bool" where
  "keeping_callbacks loose k cb \<longleftrightarrow> keeps (heap_step loose k) (cb_interpret cb) \<and>
     (\<forall>l b. keeps (heap_step loose k) (cb_force_value cb l b)) \<and>
     (\<forall>l. keeps (heap_step loose k) (cb_resume_force cb l)) \<and>
     (loose \<longrightarrow> (\<forall>l sink. keeps (heap_step loose k) (cb_fully_force_value cb l sink)))"

locale heap_callbacks =
  fixes E :: env and cb :: callbacks and loose :: bool and k :: nat
  assumes interpret_keeps [keeps_intro]: "keeps (heap_step loose k) (cb_interpret cb)"
    and force_keeps [keeps_intro]: "keeps (heap_step loose k) (cb_force_value cb l b)"
    and resume_keeps [keeps_intro]: "keeps (heap_step loose k) (cb_resume_force cb l)"
    and natives_keep [keeps_intro]: "keeps (heap_step loose k) (e_native E cb nfi ab n)"
    and fully_keeps: "loose \<Longrightarrow> keeps (heap_step loose k) (cb_fully_force_value cb l sink)"
    and mode: "loose \<or> e_strategy E = EagerStrategy \<or> e_strategy E = LazyStrategy"
begin

lemma invoke_native_fun [keeps_intro]: "keeps (heap_step loose k) (invoke_native_fun E cb nfi ab n)"
proof -
  have *: "keeps (heap_step loose k) (case r of NBadAlloc \<Rightarrow> c | NException \<Rightarrow> d | NReturned v \<Rightarrow> e v)"
    if "keeps (heap_step loose k) c" "keeps (heap_step loose k) d" "\<And>v. keeps (heap_step loose k) (e v)"
    for r and c d :: "return_value act" and e
    using that by (cases r) simp_all
  show ?thesis unfolding invoke_native_fun_def by (intro keeps_intro heap_keeps *)
qed

lemma fully_force_value2: "loose \<Longrightarrow> keeps (heap_step loose k) (fully_force_value2 cb l)"
  unfolding fully_force_value2_def by (intro keeps_intro heap_keeps fully_keeps)

lemma fully_force_rv: "loose \<Longrightarrow> keeps (heap_step loose k) (fully_force_rv E cb)"
  unfolding fully_force_rv_def by (intro keeps_intro heap_keeps fully_force_value2)

lemma memo_pre_enter: "loose \<Longrightarrow> keeps (heap_step loose k) (memo_pre_enter E cb i vt)"
  unfolding memo_pre_enter_def memo_fully_force_def vm_fully_force_def
  by (intro keeps_intro heap_keeps fully_force_value2)

lemma memo_post_leave: "loose \<Longrightarrow> keeps (heap_step loose k) (memo_post_leave E cb i vt)"
  unfolding memo_post_leave_def memo_fully_force_return_value_def vm_fully_force_return_value_def Let_def
  by (intro keeps_intro heap_keeps fully_force_rv)

lemma base_strategies:
  assumes "loose \<or> st = EagerStrategy \<or> st = LazyStrategy"
  shows "keeps (heap_step loose k) (base_pre_enter E cb st i vt)"
    and "keeps (heap_step loose k) (base_post_leave E cb st i vt)"
    and "keeps (heap_step loose k) (base_pre_enter_for_force E cb st i vt)"
    and "keeps (heap_step loose k) (base_post_leave_for_force E cb st i vt)"
proof -
  have memo: "keeps (heap_step loose k) (memo_pre_enter E cb i vt)" "keeps (heap_step loose k) (memo_post_leave E cb i vt)"
    if "st \<noteq> EagerStrategy" "st \<noteq> LazyStrategy"
    using that assms by (blast intro: memo_pre_enter memo_post_leave)+
  show "keeps (heap_step loose k) (base_pre_enter E cb st i vt)"
    and "keeps (heap_step loose k) (base_post_leave E cb st i vt)"
    and "keeps (heap_step loose k) (base_pre_enter_for_force E cb st i vt)"
    and "keeps (heap_step loose k) (base_post_leave_for_force E cb st i vt)"
    by (cases st; simp add: memo lazy_pre_enter_keeps heap_step.ret)+
qed

lemma via_triple:
  "loose \<Longrightarrow> (\<And>st j. keeps (heap_step loose k) (f st j)) \<Longrightarrow> keeps (heap_step loose k) (via_triple E index i f)"
  unfolding via_triple_def by (intro keeps_intro heap_keeps)

lemma fun_strategy_loose: "e_strategy E = FunStrategy \<Longrightarrow> loose"
  using mode by simp

lemma strategy [keeps_intro]:
  "keeps (heap_step loose k) (pre_enter_to_fun E cb i vt)"
  "keeps (heap_step loose k) (post_leave_from_fun E cb i vt)"
  "keeps (heap_step loose k) (pre_enter_to_fun_for_force E cb i vt)"
  "keeps (heap_step loose k) (post_leave_from_fun_for_force E cb i vt)"
  unfolding pre_enter_to_fun_def post_leave_from_fun_def pre_enter_to_fun_for_force_def post_leave_from_fun_for_force_def
  by (intro heap_step.if_split via_triple base_strategies fun_strategy_loose disjI1 mode; assumption?)+

lemma calls [keeps_intro]:
  "keeps (heap_step loose k) (call_fun E cb i vt)"
  "keeps (heap_step loose k) (call_fun_for_force E i)"
  "keeps (heap_step loose k) (call_fun_for_force_with_eval_strategy E cb i vt)"
  unfolding call_fun_def call_fun_for_force_def call_fun_for_force_with_eval_strategy_def enter_or_raise_def
  by (intro keeps_intro heap_keeps)+

section \<open>Forcing\<close>

lemma call_lazy [keeps_intro]: "keeps (heap_step loose k) (call_lazy E cb q b)"
  unfolding call_lazy_def by (intro keeps_intro heap_keeps)

lemma store_by_type [keeps_intro]: "keeps (heap_step loose k) (store_by_type E q vi vf vr)"
  unfolding store_by_type_def by (intro keeps_intro heap_keeps; simp)

lemma store_lazy_result [keeps_intro]: "keeps (heap_step loose k) (store_lazy_result E q)"
  unfolding store_lazy_result_def by (intro keeps_intro heap_keeps; simp)

lemma evaluate_lazy [keeps_intro]: "keeps (heap_step loose k) (evaluate_lazy E cb q b)"
  unfolding evaluate_lazy_def by (intro keeps_intro heap_keeps)

lemma take_lazy_result [keeps_intro]: "keeps (heap_step loose k) (take_lazy_result q)"
  unfolding take_lazy_result_def by (intro keeps_intro heap_keeps; simp)

lemma check_lazy_result [keeps_intro]: "keeps (heap_step loose k) (check_lazy_result E l q w b)"
  unfolding check_lazy_result_def by (intro keeps_intro heap_keeps)

lemma force_value [keeps_intro]: "keeps (heap_step loose k) (force_value E cb l b)"
  unfolding force_value_def by (intro keeps_intro heap_keeps)

lemma force_rv [keeps_intro]: "keeps (heap_step loose k) (force_rv E cb b)"
  unfolding force_rv_def by (intro keeps_intro heap_keeps)

lemma forces [keeps_intro]:
  "keeps (heap_step loose k) (force_int E cb l)"
  "keeps (heap_step loose k) (force_float E cb l)"
  "keeps (heap_step loose k) (force_ref E cb l)"
  unfolding force_int_def force_float_def force_ref_def by (intro keeps_intro heap_keeps)+

lemma force_args_from [keeps_intro]: "keeps (heap_step loose k) (force_args_from E cb n)"
proof (induction n)
  case (Suc n)
  show ?case unfolding force_args_from.simps by (intro keeps_intro heap_keeps Suc.IH)
qed (simp add: heap_step.nofuel)

lemma force_pushed_args [keeps_intro]: "keeps (heap_step loose k) (force_pushed_args E cb)"
  unfolding force_pushed_args_def by (intro keeps_intro heap_keeps)

lemma after_forced_call [keeps_intro]: "keeps (heap_step loose k) (after_forced_call E cb)"
  unfolding after_forced_call_def by (intro keeps_intro heap_keeps)

lemma resume_force [keeps_intro]: "keeps (heap_step loose k) (resume_force E cb l)"
  unfolding resume_force_def by (intro keeps_intro heap_keeps)

lemma force_value_and_interpret [keeps_intro]: "keeps (heap_step loose k) (force_value_and_interpret E cb l)"
  unfolding force_value_and_interpret_def by (intro keeps_intro heap_keeps)

lemma element_reads [keeps_intro]:
  "keeps (heap_step loose k) (elem_m E q i)"
  "keeps (heap_step loose k) (ref_at l)"
  unfolding elem_m_def ref_at_def by (intro keeps_intro heap_keeps)+

lemma set_elem_loose: "loose \<Longrightarrow> keeps (heap_step loose k) (set_elem_m E q i v)"
  by (blast intro: keeps_from_at set_elem_at)

lemma sink_loose: "loose \<Longrightarrow> keeps (heap_step loose k) (store_in_sink E sink q)"
  by (cases sink; hypsubst; unfold store_in_sink.simps; intro set_elem_loose keeps_intro)

lemma force_copy: "loose \<Longrightarrow> keeps (heap_step loose k) (force_copy E cb l sink t v n)"
  unfolding force_copy_def by (intro keeps_intro heap_keeps fully_keeps sink_loose)

lemma force_in_place: "loose \<Longrightarrow> keeps (heap_step loose k) (force_in_place E cb l b n)"
  unfolding force_in_place_def by (intro keeps_intro heap_keeps fully_keeps set_elem_loose)

lemma fully_force_value: "loose \<Longrightarrow> keeps (heap_step loose k) (fully_force_value E cb l sink)"
  unfolding fully_force_value_def Let_def by (intro keeps_intro heap_keeps force_copy force_in_place)

lemma push_all_args [keeps_intro]: "keeps (heap_step loose k) (push_all_args E args)"
  by (induction args) (auto intro!: keeps_intro heap_keeps)

lemma start_in_thread:
  "(b \<Longrightarrow> loose) \<Longrightarrow> keeps (heap_step loose k) (start_in_thread E cb i args b)"
  unfolding start_in_thread_def by (intro keeps_intro heap_keeps fully_force_rv; simp)

section \<open>Operations on numbers\<close>

lemma getters [keeps_intro]:
  "keeps (heap_step loose k) (get_int_at E cb l)"
  "keeps (heap_step loose k) (get_float_at E cb l)"
  "keeps (heap_step loose k) (get_ref_at E cb l)"
  unfolding get_int_at_def get_float_at_def get_ref_at_def by (intro keeps_intro heap_keeps)+

lemma operands [keeps_intro]:
  "keeps (heap_step loose k) (get_int E cb a x j n)"
  "keeps (heap_step loose k) (get_float E cb a x j n)"
  "keeps (heap_step loose k) (get_ref E cb a x j n)"
  unfolding get_int_def get_float_def get_ref_def by (intro keeps_intro heap_keeps)+

lemma fetches [keeps_intro]:
  "(\<And>a x j n. keeps (heap_step loose k) (g a x j n)) \<Longrightarrow> keeps (heap_step loose k) (fetch1 g ins)"
  "(\<And>a x j n. keeps (heap_step loose k) (g a x j n)) \<Longrightarrow> (\<And>a x j n. keeps (heap_step loose k) (h a x j n)) \<Longrightarrow>
     keeps (heap_step loose k) (fetch2 g h ins)"
  unfolding fetch1_def fetch2_def by (intro keeps_intro heap_keeps; assumption)+

lemma operand_ops [keeps_intro]:
  "(\<And>a x j n. keeps (heap_step loose k) (g a x j n)) \<Longrightarrow> (\<And>x. keeps (heap_step loose k) (f x)) \<Longrightarrow>
     keeps (heap_step loose k) (operand1 E g ins f)"
  "(\<And>a x j n. keeps (heap_step loose k) (g a x j n)) \<Longrightarrow> (\<And>a x j n. keeps (heap_step loose k) (h a x j n)) \<Longrightarrow>
     (\<And>x y. keeps (heap_step loose k) (f2 x y)) \<Longrightarrow> keeps (heap_step loose k) (operand2 E g h ins f2)"
  unfolding operand1_def operand2_def by (intro keeps_intro heap_keeps; assumption)+

text \<open>An operation that a family has for a number keeps the relation.\<close>

abbreviation opt_keeps :: "vm_value act option \<Rightarrow> bool" where
  "opt_keeps \<equiv> pred_option (keeps (heap_step loose k))"

lemma opt_if: "(b \<Longrightarrow> opt_keeps c) \<Longrightarrow> (\<not> b \<Longrightarrow> opt_keeps d) \<Longrightarrow> opt_keeps (if b then c else d)"
  by simp

lemma opt_Some: "keeps (heap_step loose k) c \<Longrightarrow> opt_keeps (Some c)"
  by simp

lemma opt_None: "opt_keeps None"
  by simp

lemma opt_map: "(\<And>kd. keeps (heap_step loose k) (f kd)) \<Longrightarrow> opt_keeps (map_option f x)"
  by (cases x) simp_all

lemmas opt_intro = opt_if opt_Some opt_None opt_map

lemma int_helpers [keeps_intro]:
  "keeps (heap_step loose k) (divide_int E f i j)"
  "keeps (heap_step loose k) (shift_int g i j)"
  unfolding divide_int_def shift_int_def by (intro keeps_intro heap_keeps)+

lemma number_ops:
  "opt_keeps (int_arith_op E cb ins op)"
  "opt_keeps (int_logic_op E cb ins op)"
  "opt_keeps (int_compare_op E cb ins op)"
  "opt_keeps (float_arith_op E cb ins op)"
  "opt_keeps (float_compare_op E cb ins op)"
  "opt_keeps (float_math_op1 E cb ins op)"
  "opt_keeps (float_math_op2 E cb ins op)"
  unfolding int_arith_op_def int_logic_op_def int_compare_op_def float_arith_op_def float_compare_op_def
    float_math_op1_def float_math_op2_def Let_def
  by (intro opt_intro keeps_intro heap_keeps)+

section \<open>Operations on arrays\<close>

lemma tmp_done [keeps_intro]: "keeps (heap_step loose k) (tmp_done q)"
  unfolding tmp_done_def by (intro keeps_intro heap_keeps)

lemma check_arg_for_array [keeps_intro]: "keeps (heap_step loose k) (check_arg_for_array E kd v)"
  unfolding check_arg_for_array_def by (cases kd; simp only: akind.case; intro keeps_intro heap_keeps)

lemma fill_from_args [keeps_intro]: "fresh_ref k q \<Longrightarrow> keeps (heap_step loose k) (fill_from_args E kd q n)"
  unfolding fill_from_args_def by (intro keeps_intro heap_keeps)

lemma case_body_append:
  "(\<And>b. keeps (heap_step loose k) (f b)) \<Longrightarrow>
   keeps (heap_step loose k) (case x of None \<Rightarrow> undef | Some b \<Rightarrow> f b)"
  by (cases x) (simp_all add: heap_step.undef)

lemma cat_objects [keeps_intro]: "keeps (heap_step loose k) (cat_objects E kd q1 q2)"
  unfolding cat_objects_def by (intro keeps_intro heap_keeps)

lemma fill_new [keeps_intro]: "keeps (heap_step loose k) (fill_new E kd n b)"
  unfolding fill_new_def by (intro keeps_intro heap_keeps)

lemma fill_tuple_refs [keeps_intro]: "keeps (heap_step loose k) (fill_tuple_refs E i q)"
  unfolding fill_tuple_refs_def by (intro keeps_intro heap_keeps)

lemma fill_source_refs:
  assumes loose shows "keeps (heap_step loose k) (fill_source_refs q n)"
  unfolding fill_source_refs_def
proof (intro heap_step.if_split heap_step.ret, rule deref_at)
  fix ob
  show "keeps_at loose k q (object_shape ob) (case body ob of
     RArray rs \<Rightarrow> if n \<le> length rs
       then put_object q (Object (has_unique_flag ob) (RArray (replicate n q @ drop n rs))) else undef
   | _ \<Rightarrow> undef)"
    using assms by (cases ob)
      (auto split: body.split simp: object_shape_def intro!: at_put at_keeps [OF heap_step.undef])
qed

lemma fill_refs: "loose \<Longrightarrow> keeps (heap_step loose k) (fill_refs E i q)"
  unfolding fill_refs_def by (intro keeps_intro heap_keeps fill_source_refs)

lemma fill_op: "loose \<or> op \<noteq> OP_RURAFILL \<Longrightarrow> opt_keeps (fill_op E cb ins op)"
  unfolding fill_op_def Let_def
  by (intro opt_intro keeps_intro heap_keeps fill_refs; elim disjE; (assumption | contradiction))

lemma unique_nth [keeps_intro]: "keeps (heap_step loose k) (unique_nth E kd q i)"
  unfolding unique_nth_def
  by (rule checked_at)
    (intro at_intro at_keeps keeps_intro heap_keeps disjI2 unique_not_frozen; assumption)

lemma unique_set_nth [keeps_intro]: "keeps (heap_step loose k) (unique_set_nth E cb kd q i)"
proof -
  have arg: "keeps (heap_step loose k) (case kd of KT \<Rightarrow> ret VError
       | KR \<Rightarrow> bindM (get_ref_at E cb l) (\<lambda>x. ret (VRef x))
       | KSF \<Rightarrow> bindM (get_float_at E cb l) (\<lambda>f. ret (VFloat f))
       | KDF \<Rightarrow> bindM (get_float_at E cb l) (\<lambda>f. ret (VFloat f))
       | _ \<Rightarrow> bindM (get_int_at E cb l) (\<lambda>n. ret (VInt n)))" for l
    by (cases kd; simp only: akind.case; intro keeps_intro heap_keeps)
  have store: "keeps (heap_step loose k) (checked E q (unique_type kd) (\<lambda>ob.
       seqM (check_object_elem_index E ob i)
      (bindM (if kd = KT then bindM (get_loc l) (\<lambda>w. seqM (bindM (cancel_ref_for_unique l) (\<lambda>_. ret ())) (ret w))
              else ret v) (\<lambda>w.
       seqM (set_elem_m E q (unat i) w) (ret (VRef q))))))" for l v
    by (rule checked_at)
      (intro at_intro at_keeps keeps_intro heap_keeps disjI2 unique_not_frozen; assumption)
  show ?thesis unfolding unique_set_nth_def by (intro keeps_intro heap_keeps arg store)
qed

lemma copy_elements [keeps_intro]: "fresh_ref k q2 \<Longrightarrow> keeps (heap_step loose k) (copy_elements E kd q ob q2)"
  unfolding copy_elements_def by (intro keeps_intro heap_keeps case_body_append)

lemma to_shared [keeps_intro]: "keeps (heap_step loose k) (to_shared E kd q)"
  unfolding to_shared_def by (intro keeps_intro heap_keeps)

lemma array_ops:
  "opt_keeps (array_op E cb ins op)"
  "opt_keeps (nth_op E cb ins op)"
  "opt_keeps (len_op E cb ins op)"
  "opt_keeps (cat_op E cb ins op)"
  "opt_keeps (type_op E cb ins op)"
  "opt_keeps (unique_nth_op E cb ins op)"
  "opt_keeps (unique_set_nth_op E cb ins op)"
  "opt_keeps (unique_len_op E cb ins op)"
  "opt_keeps (to_shared_op E cb ins op)"
  "opt_keeps (refs_to_shared_op E cb ins op)"
  unfolding array_op_def nth_op_def len_op_def cat_op_def type_op_def unique_nth_op_def unique_set_nth_op_def
    unique_len_op_def to_shared_op_def refs_to_shared_op_def
  by (intro opt_intro keeps_intro heap_keeps; assumption)+

section \<open>Calls and try blocks\<close>

lemma call_op_with [keeps_intro]:
  "(\<And>v. keeps (heap_step loose k) (f v)) \<Longrightarrow> keeps (heap_step loose k) (call_op_with E cb ins vt f)"
  unfolding call_op_with_def by (intro keeps_intro heap_keeps)

lemma native_call_with [keeps_intro]:
  "(\<And>v. keeps (heap_step loose k) (f v)) \<Longrightarrow> keeps (heap_step loose k) (native_call_with E cb ins f)"
  unfolding native_call_with_def by (intro keeps_intro heap_keeps)

lemma try_parts [keeps_intro]:
  "keeps (heap_step loose k) (try_enter E cb ins)"
  "keeps (heap_step loose k) (check_try_result E q)"
  "keeps (heap_step loose k) (try_catch E err q v q' i)"
  unfolding try_enter_def check_try_result_def try_catch_def Let_def by (intro keeps_intro heap_keeps)+

lemma try_leave [keeps_intro]: "keeps (heap_step loose k) (try_leave E cb ins)"
  unfolding try_leave_def by (intro keeps_intro heap_keeps)

lemma call_ops:
  "opt_keeps (ref_op E cb ins op)"
  "opt_keeps (call_op E cb ins op)"
  "opt_keeps (conversion_op E cb ins op)"
  "opt_keeps (native_call_op E cb ins op)"
  "opt_keeps (force_op E cb ins op)"
  "opt_keeps (stacktrace_op E cb ins op)"
  unfolding ref_op_def call_op_def conversion_op_def native_call_op_def force_op_def stacktrace_op_def try_op_def Let_def
  by (intro opt_intro keeps_intro heap_keeps; assumption)+

lemma first_some_keeps: "list_all opt_keeps cs \<Longrightarrow> opt_keeps (first_some cs)"
  by (induction cs rule: first_some.induct) auto

lemma interpret_op:
  assumes "loose \<or> opcode_to_op (i_opcode ins) \<noteq> OP_RURAFILL"
  shows "keeps (heap_step loose k) (interpret_op E cb ins)"
proof -
  have "opt_keeps (first_some (op_table E cb ins (opcode_to_op (i_opcode ins))))"
    unfolding op_table_def
    by (rule first_some_keeps) (simp add: number_ops array_ops call_ops fill_op [OF assms])
  then show ?thesis unfolding interpret_op_def
    by (auto split: option.split simp: errors_keep)
qed

section \<open>Instructions\<close>

lemma instructions [keeps_intro]:
  "keeps (heap_step loose k) (clear_tmp j)"
  "keeps (heap_step loose k) clear_after_op"
  "keeps (heap_step loose k) (instr_jump ins)"
  "keeps (heap_step loose k) (instr_retry E)"
  "keeps (heap_step loose k) (bind_tuple E q ins)"
  "keeps (heap_step loose k) (instr_pop E ins)"
  "keeps (heap_step loose k) (rethrow E q)"
  unfolding clear_tmp_def clear_after_op_def instr_jump_def instr_retry_def bind_tuple_def instr_pop_def
    rethrow_def or_set_error_def Let_def
  by (intro keeps_intro heap_keeps)+

lemma or_set_error [keeps_intro]:
  "keeps (heap_step loose k) c \<Longrightarrow> keeps (heap_step loose k) (or_set_error E c err)"
  unfolding or_set_error_def by (intro keeps_intro heap_keeps)

lemma plain_instructions [keeps_intro]:
  "keeps (heap_step loose k) (instr_jc E cb ins)"
  "keeps (heap_step loose k) (instr_throw E cb ins)"
  "keeps (heap_step loose k) (instr_rethrow E cb ins)"
  "keeps (heap_step loose k) (resume_after_force E cb ins)"
  unfolding instr_jc_def instr_throw_def instr_rethrow_def resume_after_force_def Let_def
  by (intro keeps_intro heap_keeps; assumption)+

lemma dispatch_instr:
  assumes op: "loose \<or> opcode_to_op (i_opcode ins) \<noteq> OP_RURAFILL"
  shows "keeps (heap_step loose k) (dispatch_instr E cb ins)"
proof -
  have v: "keeps (heap_step loose k) (op_value E cb ins)"
    unfolding op_value_def by (intro keeps_intro heap_keeps interpret_op [OF op])
  have l: "keeps (heap_step loose k) (let_tuple_value E cb ins)"
    unfolding let_tuple_value_def by (intro keeps_intro heap_keeps v)
  have "keeps (heap_step loose k) (instr_let E cb ins)" "keeps (heap_step loose k) (instr_ret E cb ins)"
    "keeps (heap_step loose k) (instr_arg E cb ins)" "keeps (heap_step loose k) (instr_lettuple E cb ins)"
    "keeps (heap_step loose k) (instr_push E cb ins)"
    unfolding instr_let_def instr_ret_def instr_arg_def instr_lettuple_def instr_push_def
    by (intro keeps_intro heap_keeps v l; assumption)+
  then show ?thesis unfolding dispatch_instr_def Let_def by (intro keeps_intro heap_keeps)
qed

lemma interpret_instr [keeps_intro]:
  assumes "loose \<or> no_ref_fill (e_funs E)" shows "keeps (heap_step loose k) (interpret_instr E cb)"
proof -
  have op: "loose \<or> opcode_to_op (i_opcode (instrs_of (e_funs E ! i) ! j)) \<noteq> OP_RURAFILL"
    if "\<not> length (e_funs E) \<le> i" "\<not> length (instrs_of (e_funs E ! i)) \<le> j" for i j
    using assms that by (auto simp: no_ref_fill_def list_all_length)
  show ?thesis unfolding interpret_instr_def
    by (intro keeps_intro heap_keeps dispatch_instr; simp add: op)
qed

lemma interpret_all: "loose \<or> no_ref_fill (e_funs E) \<Longrightarrow> keeps (heap_step loose k) (interpret_all E cb)"
  unfolding interpret_all_def by (intro keeps_intro heap_keeps)

lemma machine_step: "loose \<or> no_ref_fill (e_funs E) \<Longrightarrow> keeping_callbacks loose k (machine_step E cb)"
  unfolding keeping_callbacks_def machine_step_def callbacks.simps
  by (intro conjI allI impI interpret_all force_value resume_force fully_force_value)

end

section \<open>The machine\<close>

text \<open>Native functions that keep the relation when the machine they call back does.\<close>

definition natives_keep_heap :: "env \<Rightarrow> bool" where
  "natives_keep_heap E \<longleftrightarrow> (\<forall>loose k cb nfi ab n. keeping_callbacks loose k cb \<longrightarrow>
     keeps (heap_step loose k) (e_native E cb nfi ab n))"

definition strict_mode :: "env \<Rightarrow> bool" where
  "strict_mode E \<longleftrightarrow> (e_strategy E = EagerStrategy \<or> e_strategy E = LazyStrategy) \<and> no_ref_fill (e_funs E)"

lemma heap_callbacksI:
  assumes "keeping_callbacks loose k cb" and "natives_keep_heap E" and "loose \<or> strict_mode E"
  shows "heap_callbacks E cb loose k"
  using assms unfolding keeping_callbacks_def natives_keep_heap_def strict_mode_def
  by unfold_locales blast+

lemma machine_keeps:
  assumes "natives_keep_heap E" and "loose \<or> strict_mode E"
  shows "keeping_callbacks loose k (machine E n)"
proof (induction n)
  case 0
  show ?case by (simp add: keeping_callbacks_def no_machine_def heap_step.nofuel)
next
  case (Suc n)
  show ?case unfolding machine.simps
    by (rule heap_callbacks.machine_step [OF heap_callbacksI [OF Suc.IH assms]])
      (use assms(2) in \<open>auto simp: strict_mode_def\<close>)
qed

lemma plain_natives_keep: "natives_keep_heap (plain_env F st funs vars)"
  by (simp add: natives_keep_heap_def plain_env_def empty_native_invoke_def heap_step.ret)

interpretation plain_heap: heap_callbacks
  "plain_env F st funs vars" "machine (plain_env F st funs vars) n" True k
  for F st funs vars n k
  by (rule heap_callbacksI [OF machine_keeps]) (simp_all add: plain_natives_keep)

lemma run_thread_heap_step:
  assumes "natives_keep_heap E" and "loose \<or> strict_mode E \<and> \<not> b"
  shows "keeps (heap_step loose k) (run_thread E n i args b)"
proof -
  have m: "loose \<or> strict_mode E" using assms(2) by blast
  show ?thesis unfolding run_thread_def
    by (rule heap_callbacks.start_in_thread [OF heap_callbacksI [OF machine_keeps [OF assms(1) m] assms(1) m]])
      (use assms(2) in blast)
qed

lemma demo_natives_keep: "natives_keep_heap demo_env"
  by (simp add: demo_env_def plain_natives_keep)

lemma demo_strict: "strict_mode demo_env"
  by (simp add: demo_env_def strict_mode_def plain_env_def no_ref_fill_def instrs_of_def demo_code_def opcode_fields)

text \<open>C13: Running a thread never frees an object and never changes what an object is: every object that
  was in memory before is still there afterwards, with the same uniqueness, type and length (tables of function
  results may grow), and neither stack changes its size. This holds for every program, strategy and fuel, for
  runs that fail and for runs that end in undefined behaviour.\<close>

theorem run_thread_keeps_objects:
  assumes "natives_keep_heap E" and "run_thread E n i args b s = (r, t)" and "a < length (heap s)"
  shows "a < length (heap t) \<and> object_shape (heap t ! a) = object_shape (heap s ! a) \<and>
    length (stack t) = length (stack s) \<and> length (expr_stack t) = length (expr_stack s)"
proof -
  have "heap_step True (length (heap s)) s t"
    by (rule keepsE [OF run_thread_heap_step assms(2)]) (simp_all add: assms(1))
  then show ?thesis using assms(3) by (auto simp: heap_step_def)
qed

lemma run_thread_keeps_objects_witness:
  "\<exists>q t. run_thread demo_env 2 0 [] False demo_state = (Done q, t) \<and> rv_i q = 3 \<and> 0 < length (heap t) \<and>
     object_shape (heap t ! 0) = object_shape (Object False (IArray8 [1, 2])) \<and> length (stack t) = 8"
proof -
  obtain q t where "run_thread demo_env 2 0 [] False demo_state = (Done q, t)" "rv_i q = 3"
    using demo_run [of 0] by (auto simp: numeral_2_eq_2)
  with run_thread_keeps_objects [OF demo_natives_keep this(1), of 0] show ?thesis
    by (auto simp: demo_state_def new_thread_context_def)
qed



lemma fresh_unique_refs: "fresh_object j (unique_type KR) n = Object True (RArray (replicate n RWild))"
  by (simp add: unique_type_def fresh_object_def fresh_body_def type_kind_def)

text \<open>C33: \<open>RURAFILL\<close> breaks that. When the element to fill with is a shared array of references, which is at least as long as
  the array to make, and there is memory, it overwrites the first elements of that shared array with references to the
  array itself, and returns an array whose elements were never written; the rest of the heap is unchanged.\<close>

theorem ref_fill_overwrites_shared:
  assumes "a < length (heap s)" and "heap s ! a = Object False (RArray rs)" and "unat n \<le> length rs"
    and "object_size (unique_type KR) n \<noteq> 0" and "e_alloc E (length (heap s)) (object_size (unique_type KR) n)"
  shows "\<exists>t. fill_refs E n (RAddr a) s = (Done (VRef (RAddr (length (heap s)))), t) \<and>
    heap t = (heap s)[a := Object False (RArray (replicate (unat n) (RAddr a) @ drop (unat n) rs))] @
      [Object True (RArray (replicate (unat n) RWild))]"
  using assms list_update_id [of "heap s" a]
  by (cases "unat n = 0") (auto simp: fill_refs_def run deref_m_def check_shared_for_object_def new_object_def gc_new_object_def
      gc_allocate_def Let_def fresh_unique_refs fill_source_refs_def put_object_def nth_append list_update_append)

lemma ref_fill_overwrites_shared_witness:
  "\<exists>t. fill_refs (plain_env zero_fpu EagerStrategy [] []) 2 (RAddr 1)
       (new_thread_context 8 8 [Object False IO, Object False (RArray [RNil, RAddr 0, RNil])]) = (Done (VRef (RAddr 2)), t) \<and>
     heap t = [Object False IO, Object False (RArray [RAddr 1, RAddr 1, RNil]), Object True (RArray [RWild, RWild])]"
proof -
  have "object_size (unique_type KR) 2 \<noteq> 0" by code_simp
  moreover have "replicate 2 x = [x, x]" "drop 2 [y, y', z] = [z]" for x y y' z :: ref by (simp_all add: numeral_2_eq_2)
  ultimately show ?thesis
    using ref_fill_overwrites_shared [of 1 "new_thread_context 8 8 [Object False IO, Object False (RArray [RNil, RAddr 0, RNil])]" "[RNil, RAddr 0, RNil]" 2
        "plain_env zero_fpu EagerStrategy [] []"]
    by (simp add: new_thread_context_def plain_env_def numeral_2_eq_2 [symmetric])
qed

end
