(* ===== verification/Machine_Steps.thy ===== *)
theory Machine_Steps
  imports Heap_Interp
begin

text \<open>
  The interpreter as a state machine: one step is one turn of the loop of
  \<open>InterpreterVirtualMachine::interpret\<close> (vm/vm/interp_vm.cpp), whatever it calls on the way. The loop of the
  model, which is given fuel, runs just along these steps; and what holds along steps holds in every state of a
  run, also of one that never ends.
\<close>

section \<open>Steps\<close>

inductive istep :: "env \<Rightarrow> ctx \<Rightarrow> ctx \<Rightarrow> bool" for E where
  goes_on: "interpret_instr E (machine E n) s = (Done True, t) \<Longrightarrow> istep E s t"

inductive iend :: "env \<Rightarrow> ctx \<Rightarrow> ctx \<Rightarrow> bool" for E where
  ends: "interpret_instr E (machine E n) s = (Done False, t) \<Longrightarrow> iend E s t"

inductive_cases istepE: "istep E s t"
inductive_cases iendE: "iend E s t"

abbreviation (input) isteps :: "env \<Rightarrow> ctx \<Rightarrow> ctx \<Rightarrow> bool" where
  "isteps E \<equiv> (istep E)\<^sup>*\<^sup>*"

lemma machine_more_fuel:
  assumes "fuel_independent_natives E"
  shows "interpret_instr E (machine E n) s = (r, t) \<Longrightarrow> r \<noteq> NoFuel \<Longrightarrow> interpret_instr E (machine E (n + k)) s = (r, t)"
    "cb_interpret (machine E n) s = (q, t) \<Longrightarrow> q \<noteq> NoFuel \<Longrightarrow> cb_interpret (machine E (n + k)) s = (q, t)"
proof -
  note f = finishing_callbacks.intro [OF machine_add [OF assms, of n k] assms]
  show "interpret_instr E (machine E (n + k)) s = (r, t)" if "interpret_instr E (machine E n) s = (r, t)" "r \<noteq> NoFuel"
    by (rule approxD [OF finishing_callbacks.interpret_instr [OF f] that])
  show "cb_interpret (machine E (n + k)) s = (q, t)" if "cb_interpret (machine E n) s = (q, t)" "q \<noteq> NoFuel"
    by (rule approxD [OF finishing_callbacks.callbacks(1) [OF f] that])
qed

text \<open>Which step is taken does not depend on the fuel of the calls on the way.\<close>

lemma steps_agree:
  assumes E: "fuel_independent_natives E" and n: "interpret_instr E (machine E n) s = (Done a, t)" and m: "interpret_instr E (machine E m) s = (Done b, u)"
  shows "a = b \<and> t = u"
  using machine_more_fuel(1) [OF E n, of m] machine_more_fuel(1) [OF E m, of n] by (simp add: add.commute)

lemma istep_deterministic: "fuel_independent_natives E \<Longrightarrow> istep E s t \<Longrightarrow> istep E s u \<Longrightarrow> t = u"
  and iend_no_istep: "fuel_independent_natives E \<Longrightarrow> iend E s t \<Longrightarrow> \<not> istep E s u"
  by (auto elim!: istepE iendE dest: steps_agree)

section \<open>The loop\<close>

lemma loop_runs_along_steps:
  "cb_interpret (machine E n) s = (Done (), t) \<Longrightarrow> \<exists>u. isteps E s u \<and> iend E u t"
proof (induction n arbitrary: s)
  case 0
  then show ?case by (simp add: no_machine_def run)
next
  case (Suc n)
  obtain r u where i: "interpret_instr E (machine E n) s = (r, u)" by fastforce
  then have "(\<exists>b. r = Done b \<and> (if b then cb_interpret (machine E n) u = (Done (), t) else t = u))"
    using Suc.prems by (cases r) (auto simp: machine_step_def interpret_all_def run split: if_splits)
  then obtain b where b: "r = Done b" "if b then cb_interpret (machine E n) u = (Done (), t) else t = u" by blast
  show ?case
  proof (cases b)
    case True
    then obtain v where "isteps E u v" "iend E v t" using Suc.IH [of u] b by auto
    moreover have "istep E s u" using i b(1) True by (auto intro: istep.goes_on)
    ultimately show ?thesis by (meson converse_rtranclp_into_rtranclp)
  next
    case False
    then have "iend E s t" using i b by (auto intro: iend.ends)
    then show ?thesis by blast
  qed
qed

lemma steps_run_the_loop:
  assumes E: "fuel_independent_natives E"
  shows "isteps E s u \<Longrightarrow> iend E u t \<Longrightarrow> \<exists>n. cb_interpret (machine E n) s = (Done (), t)"
proof (induction rule: converse_rtranclp_induct)
  case base
  then obtain n where "interpret_instr E (machine E n) u = (Done False, t)" by (rule iendE)
  then have "cb_interpret (machine E (Suc n)) u = (Done (), t)" by (simp add: machine_step_def interpret_all_def run)
  then show ?case by blast
next
  case (step s v)
  from step(1) obtain n where n: "interpret_instr E (machine E n) s = (Done True, v)" by (rule istepE)
  from step(3) [OF step.prems] obtain m where m: "cb_interpret (machine E m) v = (Done (), t)" by blast
  have "interpret_instr E (machine E (n + m)) s = (Done True, v)" by (rule machine_more_fuel(1) [OF E n]) simp
  moreover have "cb_interpret (machine E (n + m)) v = (Done (), t)" using machine_more_fuel(2) [OF E m, of n] by (simp add: add.commute)
  ultimately have "cb_interpret (machine E (Suc (n + m))) s = (Done (), t)" by (simp add: machine_step_def interpret_all_def run)
  then show ?case by blast
qed

text \<open>The loop of the interpreter and the step relation are the same machine: the loop ends in a state, with
  some fuel, just when steps lead to a state in which the thread has no function any more and which ends there; and
  steps are deterministic, so a run that can go on for ever never ends.\<close>

lemma loop_is_steps:
  assumes "fuel_independent_natives E"
  shows "((\<exists>n. cb_interpret (machine E n) s = (Done (), t)) \<longleftrightarrow> (\<exists>u. isteps E s u \<and> iend E u t)) \<and>
    (istep E s u \<longrightarrow> istep E s v \<longrightarrow> u = v) \<and> (iend E s u \<longrightarrow> \<not> istep E s v)"
  using loop_runs_along_steps steps_run_the_loop [OF assms] istep_deterministic [OF assms] iend_no_istep [OF assms] by blast

lemma loop_is_steps_demo:
  "\<exists>u t. isteps demo_env demo_entered u \<and> iend demo_env u t \<and> rv_i (rv (regs t)) = 3"
proof -
  obtain t where "cb_interpret (machine demo_env (Suc (Suc 0))) demo_entered = (Done (), t)" "rv_i (rv (regs t)) = 3"
    using demo_steps by blast
  then show ?thesis using loop_is_steps [OF demo_natives, of demo_entered t] by blast
qed

text \<open>What every instruction keeps holds in every state that is reached.\<close>

lemma isteps_keep:
  assumes "natives_keep_heap E" and "loose \<or> strict_mode E"
  shows "isteps E s t \<Longrightarrow> heap_step loose k s t"
proof (induction rule: rtranclp_induct)
  case base
  show ?case by (rule heap_step.refl)
next
  case (step t u)
  from step(2) obtain n where n: "interpret_instr E (machine E n) t = (Done True, u)" by (rule istepE)
  have "keeps (heap_step loose k) (interpret_instr E (machine E n))"
    by (rule heap_callbacks.interpret_instr [OF heap_callbacksI [OF machine_keeps [OF assms] assms]])
      (use assms(2) in \<open>auto simp: strict_mode_def\<close>)
  then have "heap_step loose k t u" using n by (rule keepsE)
  with step(3) show ?case by (rule heap_step.trans)
qed

section \<open>Properties\<close>

text \<open>C14: In every state that a thread passes through from a state \<open>s\<close>, also in a run that never ends, the stacks have their
  sizes and every object that was in memory in \<open>s\<close> is still there with its uniqueness, type and length (tables of
  function results may grow); this holds for every program and strategy, when native functions keep it. Under the eager and the
  lazy strategy, and without \<open>RURAFILL\<close> in the program (\<open>strict_mode\<close>), the contents of those that are shared and
  neither lazy nor internal are what they were.\<close>

theorem reachable_states_keep_objects:
  assumes "natives_keep_heap E" and "isteps E s t" and "a < length (heap s)"
  shows "length (stack t) = length (stack s) \<and> length (expr_stack t) = length (expr_stack s) \<and>
    a < length (heap t) \<and> object_shape (heap t ! a) = object_shape (heap s ! a) \<and>
    (strict_mode E \<and> frozen (object_shape (heap s ! a)) \<longrightarrow> heap t ! a = heap s ! a)"
proof -
  have "heap_step True (length (heap s)) s t" by (rule isteps_keep [OF assms(1) _ assms(2)]) simp
  moreover have "strict_mode E \<Longrightarrow> heap_step False (length (heap s)) s t" by (rule isteps_keep [OF assms(1) _ assms(2)]) simp
  ultimately show ?thesis using assms(3) by (auto simp: heap_step_def)
qed

lemma reachable_states_keep_objects_witness:
  "\<exists>t. isteps demo_env demo_entered t \<and> fp (regs t) = FP_NONE \<and> heap t ! 0 = Object False (IArray8 [1, 2])"
proof -
  obtain t where t: "interpret_instr demo_env (machine demo_env (Suc 0)) demo_entered = (Done True, t)" "fp (regs t) = FP_NONE"
    using demo_steps by blast
  then have "isteps demo_env demo_entered t" by (blast intro: istep.goes_on)
  with reachable_states_keep_objects [OF demo_natives_keep this, of 0] demo_strict t(2) show ?thesis
    by (auto simp: demo_defs object_shape_def frozen_def)
qed

end
