(* ===== verification/Mark_Sweep.thy ===== *)
theory Mark_Sweep
  imports Hash_Table
begin

text \<open>
  The garbage collector (vm/gc/mark_sweep_gc.cpp and .hpp, \<open>traverse_child_objects\<close> of
  vm/vm.cpp). Every object has a header in front of it. The headers of the collected objects are
  linked into one list and those of the immortal objects into another one; a second link makes the stack
  of the objects that are marked and not yet traversed, and an object is marked when that link is not
  null. The model keeps the two links of each header in a store of headers, as the code does, and
  frees an object by removing its header from the store.

  The threads are stopped and the collector's mutex is held during a collection, so a collection is one
  function of the contexts as they stand. The contexts share the heap that is an argument here.
\<close>

section \<open>The references in an object\<close>

text \<open>The entries of one bucket of a hash table; a cyclic list never ends.\<close>

fun bucket_entries :: "heap \<Rightarrow> nat \<Rightarrow> ref \<Rightarrow> ref list outcome" where
  "bucket_entries h 0 q = NoFuel"
| "bucket_entries h (Suc k) q =
     (if q = RNil then Done []
      else case deref h q of
        Some (Object _ (HashEntry _ next _ _)) \<Rightarrow> map_outcome ((#) q) (bucket_entries h k next)
      | _ \<Rightarrow> Undefined)"

fun buckets_entries :: "heap \<Rightarrow> (ref \<times> ref) list \<Rightarrow> ref list outcome" where
  "buckets_entries h [] = Done []"
| "buckets_entries h ((first, _) # bs) =
     (case bucket_entries h (Suc (length h)) first of
        Done qs \<Rightarrow> map_outcome ((@) qs) (buckets_entries h bs)
      | r \<Rightarrow> r)"

text \<open>\<open>traverse_child_objects\<close>: the objects it hands to its argument, in order.\<close>

definition child_refs :: "heap \<Rightarrow> object \<Rightarrow> ref list outcome" where
  "child_refs h ob = (case body ob of
      RArray rs \<Rightarrow> Done (refs_of_refs rs)
    | Tuple vs \<Rightarrow> Done (refs_of_values vs)
    | LazyValue z \<Rightarrow> Done (refs_of_values [lz_value z] @ refs_of_values (lz_args z))
    | HashTable _ bs \<Rightarrow> buckets_entries h bs
    | HashEntry _ _ kr (TRef r) \<Rightarrow> Done (refs_of_refs [kr, r])
    | HashEntry _ _ kr _ \<Rightarrow> Done (refs_of_refs [kr])
    | _ \<Rightarrow> Done [])"

section \<open>Headers\<close>

text \<open>A pointer to a header: null, the header \<open>_S_nil\<close> that ends the lists, or the header of
  the object at an address.\<close>

datatype header_ptr = HNull | HNil | HAt nat

record header =
  list_next :: header_ptr
  stack_prev :: header_ptr

text \<open>What the collector does to the objects it frees.\<close>

datatype gc_event = Finalized nat | DestroyedMutex nat | Freed nat

record collector =
  headers :: "header_ptr \<Rightarrow> header option" \<comment> \<open>the headers in memory\<close>
  list_first :: header_ptr
  stack_top :: header_ptr
  immortal_list_first :: header_ptr
  gc_events :: "gc_event list"

type_synonym 'a gc = "(collector, 'a) m"

definition new_header :: header where
  "new_header = \<lparr>list_next = HNull, stack_prev = HNull\<rparr>"

text \<open>A new collector: only the header \<open>_S_nil\<close>.\<close>

definition new_collector :: collector where
  "new_collector = \<lparr>headers = Map.empty(HNil \<mapsto> new_header), list_first = HNil, stack_top = HNil,
     immortal_list_first = HNil, gc_events = []\<rparr>"

definition header_m :: "header_ptr \<Rightarrow> header gc" where
  "header_m p = (\<lambda>g. case headers g p of None \<Rightarrow> (Undefined, g) | Some hdr \<Rightarrow> (Done hdr, g))"

definition set_header :: "header_ptr \<Rightarrow> (header \<Rightarrow> header) \<Rightarrow> unit gc" where
  "set_header p f = (\<lambda>g. case headers g p of
     None \<Rightarrow> (Undefined, g)
   | Some hdr \<Rightarrow> (Done (), g\<lparr>headers := (headers g)(p \<mapsto> f hdr)\<rparr>))"

text \<open>The header of the object at an address. There is none in front of the object that the
  default reference points to, nor behind a wild pointer; reading it is undefined.\<close>

fun object_to_header :: "ref \<Rightarrow> header_ptr" where
  "object_to_header (RAddr a) = HAt a"
| "object_to_header _ = HNull"

fun header_to_object :: "header_ptr \<Rightarrow> ref" where
  "header_to_object (HAt a) = RAddr a"
| "header_to_object _ = RWild"

definition is_marked :: "header_ptr \<Rightarrow> bool gc" where
  "is_marked p = bindM (header_m p) (\<lambda>hdr. ret (stack_prev hdr \<noteq> HNull))"

definition add_header :: "header_ptr \<Rightarrow> unit gc" where
  "add_header p = bindM (reading list_first) (\<lambda>q.
     seqM (set_header p (\<lambda>hdr. hdr\<lparr>list_next := q\<rparr>)) (modify (\<lambda>g. g\<lparr>list_first := p\<rparr>)))"

definition add_immortal_header :: "header_ptr \<Rightarrow> unit gc" where
  "add_immortal_header p = bindM (reading immortal_list_first) (\<lambda>q.
     seqM (set_header p (\<lambda>hdr. hdr\<lparr>list_next := q\<rparr>)) (modify (\<lambda>g. g\<lparr>immortal_list_first := p\<rparr>)))"

definition is_empty_stack :: "collector \<Rightarrow> bool" where
  "is_empty_stack g \<longleftrightarrow> stack_top g = HNil"

definition mark_and_push_header :: "header_ptr \<Rightarrow> unit gc" where
  "mark_and_push_header p = bindM (reading stack_top) (\<lambda>q.
     seqM (set_header p (\<lambda>hdr. hdr\<lparr>stack_prev := q\<rparr>)) (modify (\<lambda>g. g\<lparr>stack_top := p\<rparr>)))"

definition pop_header :: "header_ptr gc" where
  "pop_header = bindM (reading stack_top) (\<lambda>p. bindM (header_m p) (\<lambda>hdr.
     seqM (modify (\<lambda>g. g\<lparr>stack_top := stack_prev hdr\<rparr>)) (ret p)))"

section \<open>Allocation\<close>

text \<open>\<open>MarkSweepGarbageCollector::allocate\<close>: \<open>ok\<close> says whether the allocator finds memory, at
  the address \<open>a\<close>. The context gets its temporary root before the header is in the list; the result is
  the address and the context.\<close>

definition init_header :: "nat \<Rightarrow> unit gc" where
  "init_header a = modify (\<lambda>g. g\<lparr>headers := (headers g)(HAt a \<mapsto> new_header)\<rparr>)"

definition ms_allocate :: "bool \<Rightarrow> nat \<Rightarrow> ctx option \<Rightarrow> (nat option \<times> ctx option) gc" where
  "ms_allocate ok a c =
     (if \<not> ok then ret (None, c)
      else seqM (init_header a)
        (let c' = map_option (\<lambda>s. s\<lparr>regs := (regs s)\<lparr>gc_tmp_ptr := Some a\<rparr>\<rparr>) c in
         seqM (add_header (HAt a)) (ret (Some a, c'))))"

definition ms_allocate_immortal_area :: "bool \<Rightarrow> nat \<Rightarrow> nat option gc" where
  "ms_allocate_immortal_area ok a =
     (if \<not> ok then ret None
      else seqM (init_header a) (seqM (add_immortal_header (HAt a)) (ret (Some a))))"

section \<open>Marking\<close>

definition mark_child :: "ref \<Rightarrow> unit gc" where
  "mark_child q = bindM (is_marked (object_to_header q)) (\<lambda>b.
     whenM (\<not> b) (mark_and_push_header (object_to_header q)))"

definition traverse_child_objects :: "heap \<Rightarrow> ref \<Rightarrow> (ref \<Rightarrow> unit gc) \<Rightarrow> unit gc" where
  "traverse_child_objects h q f = (case deref h q of
     None \<Rightarrow> undef
   | Some ob \<Rightarrow> (case child_refs h ob of
       Done qs \<Rightarrow> forM qs f | Failed \<Rightarrow> fail | Undefined \<Rightarrow> undef | NoFuel \<Rightarrow> nofuel))"

fun mark_loop :: "heap \<Rightarrow> nat \<Rightarrow> unit gc" where
  "mark_loop h 0 = nofuel"
| "mark_loop h (Suc k) = bindM (reading is_empty_stack) (\<lambda>e.
     if e then ret ()
     else bindM pop_header (\<lambda>p.
       seqM (traverse_child_objects h (header_to_object p) mark_child) (mark_loop h k)))"

definition mark_from_object :: "heap \<Rightarrow> ref \<Rightarrow> unit gc" where
  "mark_from_object h q = bindM (is_marked (object_to_header q)) (\<lambda>b.
     whenM (\<not> b) (seqM (mark_and_push_header (object_to_header q))
       (mark_loop h (Suc (Suc (length h))))))"

text \<open>The object a thread is about to initialise is marked and not traversed.\<close>

definition mark_thread :: "heap \<Rightarrow> ctx \<Rightarrow> unit gc" where
  "mark_thread h c = seqM (forM (thread_roots c) (mark_from_object h))
     (case gc_tmp_ptr (regs c) of
        None \<Rightarrow> ret ()
      | Some a \<Rightarrow> set_header (HAt a) (\<lambda>hdr. hdr\<lparr>stack_prev := HNil\<rparr>))"

definition mark_vm :: "heap \<Rightarrow> vm_value list \<times> function_result_cache list \<Rightarrow> unit gc" where
  "mark_vm h v = forM (vm_roots (fst v) (snd v)) (mark_from_object h)"

definition mark :: "heap \<Rightarrow> ctx list \<Rightarrow> (vm_value list \<times> function_result_cache list) list \<Rightarrow> unit gc" where
  "mark h cs vs = seqM (forM cs (mark_thread h)) (forM vs (mark_vm h))"

section \<open>Sweeping\<close>

definition log_event :: "gc_event \<Rightarrow> unit gc" where
  "log_event e = modify (\<lambda>g. g\<lparr>gc_events := gc_events g @ [e]\<rparr>)"

text \<open>\<open>finalize_object\<close>: the finalizer of a native object, the mutex of a lazy value.\<close>

definition finalize_object :: "heap \<Rightarrow> nat \<Rightarrow> unit gc" where
  "finalize_object h a = (case deref h (RAddr a) of
     None \<Rightarrow> undef
   | Some ob \<Rightarrow> (case body ob of
       NativeObject _ _ _ \<Rightarrow> log_event (Finalized a)
     | LazyValue _ \<Rightarrow> whenM (\<not> has_unique_flag ob) (log_event (DestroyedMutex a))
     | _ \<Rightarrow> ret ()))"

definition free_header :: "nat \<Rightarrow> unit gc" where
  "free_header a = seqM (modify (\<lambda>g. g\<lparr>headers := (headers g)(HAt a := None)\<rparr>)) (log_event (Freed a))"

text \<open>\<open>Header **header_ptr\<close> points to the first pointer of the list or into a header.\<close>

datatype link = ListFirst | NextOf header_ptr

fun read_link :: "link \<Rightarrow> header_ptr gc" where
  "read_link ListFirst = reading list_first"
| "read_link (NextOf p) = bindM (header_m p) (\<lambda>hdr. ret (list_next hdr))"

fun write_link :: "link \<Rightarrow> header_ptr \<Rightarrow> unit gc" where
  "write_link ListFirst q = modify (\<lambda>g. g\<lparr>list_first := q\<rparr>)"
| "write_link (NextOf p) q = set_header p (\<lambda>hdr. hdr\<lparr>list_next := q\<rparr>)"

text \<open>A null pointer in the list is read as a header, which is undefined.\<close>

fun with_address :: "header_ptr \<Rightarrow> (nat \<Rightarrow> 'a gc) \<Rightarrow> 'a gc" where
  "with_address (HAt a) f = f a"
| "with_address _ f = undef"

fun sweep_loop :: "heap \<Rightarrow> nat \<Rightarrow> link \<Rightarrow> unit gc" where
  "sweep_loop h 0 l = nofuel"
| "sweep_loop h (Suc k) l = bindM (read_link l) (\<lambda>p.
     if p = HNil then ret ()
     else bindM (is_marked p) (\<lambda>b.
       if \<not> b
       then with_address p (\<lambda>a.
          seqM (finalize_object h a)
         (bindM (header_m p) (\<lambda>hdr.
          seqM (free_header a)
         (seqM (write_link l (list_next hdr))
          (sweep_loop h k l)))))
       else seqM (set_header p (\<lambda>hdr. hdr\<lparr>stack_prev := HNull\<rparr>)) (sweep_loop h k (NextOf p))))"

definition sweep :: "heap \<Rightarrow> unit gc" where
  "sweep h = sweep_loop h (Suc (length h)) ListFirst"

definition gc_collect :: "heap \<Rightarrow> ctx list \<Rightarrow> (vm_value list \<times> function_result_cache list) list \<Rightarrow> unit gc" where
  "gc_collect h cs vs = seqM (mark h cs vs) (sweep h)"

text \<open>The destructor frees both lists.\<close>

fun free_list :: "heap \<Rightarrow> nat \<Rightarrow> header_ptr \<Rightarrow> unit gc" where
  "free_list h 0 p = nofuel"
| "free_list h (Suc k) p =
     (if p = HNil then ret ()
      else bindM (header_m p) (\<lambda>hdr. with_address p (\<lambda>a.
        seqM (finalize_object h a) (seqM (free_header a) (free_list h k (list_next hdr))))))"

definition delete_collector :: "heap \<Rightarrow> unit gc" where
  "delete_collector h =
     seqM (bindM (reading list_first) (free_list h (Suc (length h))))
          (bindM (reading immortal_list_first) (free_list h (Suc (length h))))"

end
