(* ===== verification/Collector.thy ===== *)
theory Collector
  imports Mark_Sweep
begin

text \<open>
  Correctness of the garbage collector: a collection frees exactly the objects that are not reachable from
  the roots, finalizes each of them once before it is freed, and leaves the collector ready for the next
  collection.
\<close>

section \<open>Linked lists of headers\<close>

text \<open>\<open>chain H nx p as\<close>: following the link \<open>nx\<close> from \<open>p\<close> in the store \<open>H\<close>
  gives the headers of the addresses \<open>as\<close>, and then \<open>_S_nil\<close>.\<close>

primrec chain :: "(header_ptr \<Rightarrow> header option) \<Rightarrow> (header \<Rightarrow> header_ptr) \<Rightarrow> header_ptr \<Rightarrow> nat list \<Rightarrow> bool" where
  "chain H nx p [] \<longleftrightarrow> p = HNil"
| "chain H nx p (a # as) \<longleftrightarrow> p = HAt a \<and> (\<exists>x. H (HAt a) = Some x \<and> chain H nx (nx x) as)"

lemma chain_HNil [simp]: "chain H nx HNil as \<longleftrightarrow> as = []"
  by (cases as) auto

lemma chain_upd [simp]: "a \<notin> set as \<Longrightarrow> chain (H(HAt a := v)) nx p as = chain H nx p as"
  by (induction as arbitrary: p) auto

lemma chain_cong:
  "(\<And>a. a \<in> set as \<Longrightarrow> map_option nx (H' (HAt a)) = map_option nx (H (HAt a))) \<Longrightarrow>
   chain H' nx p as = chain H nx p as"
proof (induction as arbitrary: p)
  case (Cons a as)
  have a: "map_option nx (H' (HAt a)) = map_option nx (H (HAt a))" by (rule Cons.prems) simp
  have as: "chain H' nx q as = chain H nx q as" for q using Cons by simp
  show ?case using a as by (cases "H (HAt a)"; cases "H' (HAt a)") auto
qed simp

lemma chain_not_null: "chain H nx p as \<Longrightarrow> p \<noteq> HNull"
  by (cases as) auto

section \<open>What the store of headers says\<close>

definition known :: "collector \<Rightarrow> nat set" where
  "known g = {a. headers g (HAt a) \<noteq> None}"

definition marked :: "collector \<Rightarrow> nat set" where
  "marked g = {a. \<exists>x. headers g (HAt a) = Some x \<and> stack_prev x \<noteq> HNull}"

definition children :: "heap \<Rightarrow> nat \<Rightarrow> nat set" where
  "children h a = {b. \<exists>ob qs. deref h (RAddr a) = Some ob \<and> child_refs h ob = Done qs \<and> RAddr b \<in> set qs}"

text \<open>Every object of the set is initialised, and refers to objects of the set.\<close>

definition heap_closed :: "heap \<Rightarrow> nat set \<Rightarrow> bool" where
  "heap_closed h A \<longleftrightarrow> (\<forall>a\<in>A. a < length h \<and> (\<exists>qs. child_refs h (h ! a) = Done qs \<and> set qs \<subseteq> RAddr ` A))"

inductive_set reach :: "heap \<Rightarrow> nat set \<Rightarrow> nat set \<Rightarrow> nat set"
  for h :: heap and T :: "nat set" and R :: "nat set" where
  root: "a \<in> R \<Longrightarrow> a \<in> reach h T R"
| child: "a \<in> reach h T R \<Longrightarrow> a \<notin> T \<Longrightarrow> b \<in> children h a \<Longrightarrow> b \<in> reach h T R"

lemma reach_least:
  "R \<subseteq> M \<Longrightarrow> (\<And>a. a \<in> M - T \<Longrightarrow> children h a \<subseteq> M) \<Longrightarrow> reach h T R \<subseteq> M"
proof
  fix a assume R: "R \<subseteq> M" and M: "\<And>a. a \<in> M - T \<Longrightarrow> children h a \<subseteq> M" and "a \<in> reach h T R"
  from this(3) show "a \<in> M" by induction (use R M in auto)
qed

text \<open>Marking changes the marks and the stack only.\<close>

definition same_lists :: "collector \<Rightarrow> collector \<Rightarrow> bool" where
  "same_lists g g' \<longleftrightarrow> list_first g' = list_first g \<and> immortal_list_first g' = immortal_list_first g \<and>
     gc_events g' = gc_events g \<and>
     (\<forall>p. map_option list_next (headers g' p) = map_option list_next (headers g p))"

lemma same_lists_refl [simp]: "same_lists g g"
  by (simp add: same_lists_def)

lemma same_lists_trans [trans]: "same_lists g g' \<Longrightarrow> same_lists g' g'' \<Longrightarrow> same_lists g g''"
  by (simp add: same_lists_def)

lemma same_lists_known: "same_lists g g' \<Longrightarrow> known g' = known g"
  unfolding same_lists_def known_def by (metis option.map_disc_iff)

section \<open>Marking one object\<close>

lemma is_marked_run:
  "a \<in> known g \<Longrightarrow> is_marked (HAt a) g = (Done (a \<in> marked g), g)"
  by (auto simp: known_def marked_def is_marked_def header_m_def run)

lemma push_run:
  assumes a: "a \<in> known g" "a \<notin> marked g" and st: "chain (headers g) stack_prev (stack_top g) st" "set st \<subseteq> marked g"
  shows "\<exists>g'. mark_and_push_header (HAt a) g = (Done (), g') \<and> marked g' = insert a (marked g) \<and>
    chain (headers g') stack_prev (stack_top g') (a # st) \<and> same_lists g g'"
proof -
  obtain x where x: "headers g (HAt a) = Some x" using a by (auto simp: known_def)
  have "a \<notin> set st" using a st by blast
  then show ?thesis using x st chain_not_null [OF st(1)]
    by (auto simp: mark_and_push_header_def set_header_def run marked_def same_lists_def)
qed

lemma mark_child_run:
  assumes "a \<in> known g" and st: "chain (headers g) stack_prev (stack_top g) st" "set st \<subseteq> marked g"
  shows "\<exists>g'. mark_child (RAddr a) g = (Done (), g') \<and> marked g' = insert a (marked g) \<and>
    chain (headers g') stack_prev (stack_top g') ((if a \<in> marked g then [] else [a]) @ st) \<and> same_lists g g'"
proof (cases "a \<in> marked g")
  case True
  then show ?thesis using assms by (simp add: mark_child_def run is_marked_run insert_absorb)
next
  case False
  then show ?thesis using push_run [OF assms(1) False st]
    by (simp add: mark_child_def run is_marked_run [OF assms(1)])
qed

lemma mark_children_run:
  assumes "set qs \<subseteq> RAddr ` known g" and "chain (headers g) stack_prev (stack_top g) st" "set st \<subseteq> marked g" "distinct st"
  shows "\<exists>g' ns. forM qs mark_child g = (Done (), g') \<and> marked g' = marked g \<union> {a. RAddr a \<in> set qs} \<and>
    chain (headers g') stack_prev (stack_top g') (ns @ st) \<and> distinct (ns @ st) \<and> set ns = marked g' - marked g \<and>
    same_lists g g'"
  using assms
proof (induction qs arbitrary: g st)
  case Nil
  then show ?case by (intro exI [of _ g] exI [of _ "[]"]) (simp add: run)
next
  case (Cons q qs)
  obtain a where q: "q = RAddr a" and a: "a \<in> known g" using Cons.prems by auto
  let ?st = "(if a \<in> marked g then [] else [a]) @ st"
  obtain g1 where 1: "mark_child q g = (Done (), g1)" "marked g1 = insert a (marked g)"
      "chain (headers g1) stack_prev (stack_top g1) ?st" "same_lists g g1"
    using mark_child_run [OF a Cons.prems(2,3)] q by blast
  have "set qs \<subseteq> RAddr ` known g1" using Cons.prems(1) same_lists_known [OF 1(4)] by simp
  moreover have "set ?st \<subseteq> marked g1" "distinct ?st" using Cons.prems(3,4) 1(2) by auto
  ultimately obtain g2 ns where 2: "forM qs mark_child g1 = (Done (), g2)"
      "marked g2 = marked g1 \<union> {a. RAddr a \<in> set qs}" "chain (headers g2) stack_prev (stack_top g2) (ns @ ?st)"
      "distinct (ns @ ?st)" "set ns = marked g2 - marked g1" "same_lists g1 g2"
    using Cons.IH [OF _ 1(3)] by blast
  have "set (ns @ (if a \<in> marked g then [] else [a])) = marked g2 - marked g"
    using 2(2,5) 1(2) by auto
  moreover have "marked g2 = marked g \<union> {b. RAddr b \<in> set (q # qs)}" using 2(2) 1(2) q by auto
  ultimately show ?case using 1 2 same_lists_trans [OF 1(4) 2(6)]
    by (intro exI [of _ g2] exI [of _ "ns @ (if a \<in> marked g then [] else [a])"]) (simp add: run)
qed

section \<open>The loop over the stack of marked objects\<close>

lemma pop_run:
  assumes "chain (headers g) stack_prev (stack_top g) (a # st)"
  shows "\<exists>g'. pop_header g = (Done (HAt a), g') \<and> headers g' = headers g \<and>
    chain (headers g) stack_prev (stack_top g') st \<and> same_lists g g'"
  using assms by (auto simp: pop_header_def header_m_def run same_lists_def)

lemma closed_child_refs:
  assumes "heap_closed h A" "a \<in> A"
  shows "\<exists>ob qs. deref h (RAddr a) = Some ob \<and> child_refs h ob = Done qs \<and> set qs \<subseteq> RAddr ` A \<and>
    {b. RAddr b \<in> set qs} = children h a"
  using assms by (auto simp: heap_closed_def children_def)

lemma closed_children: "heap_closed h A \<Longrightarrow> a \<in> A \<Longrightarrow> children h a \<subseteq> A"
  using closed_child_refs by fastforce

lemma headers_marked: "headers g' = headers g \<Longrightarrow> marked g' = marked g"
  by (simp add: marked_def)

lemma finite_closed: "heap_closed h W \<Longrightarrow> finite W \<and> card W \<le> length h"
  using finite_subset [of W "{..<length h}"] card_mono [of "{..<length h}" W]
  by (auto simp: heap_closed_def subset_iff)

lemma mark_loop_run:
  assumes "chain (headers g) stack_prev (stack_top g) st" "set st \<subseteq> marked g" "distinct st"
    and "heap_closed h W" "W \<subseteq> known g" "card (W - marked g) + length st < k"
    and "\<forall>a\<in>marked g - set st - T. children h a \<subseteq> marked g" "set st \<subseteq> W"
  shows "\<exists>g'. mark_loop h k g = (Done (), g') \<and> stack_top g' = HNil \<and> marked g \<subseteq> marked g' \<and>
    marked g' \<subseteq> marked g \<union> W \<and> (\<forall>a\<in>marked g' - T. children h a \<subseteq> marked g') \<and> same_lists g g'"
  using assms
proof (induction k arbitrary: g st)
  case (Suc k)
  show ?case
  proof (cases st)
    case Nil
    then show ?thesis using Suc.prems by (intro exI [of _ g]) (auto simp: run is_empty_stack_def)
  next
    case (Cons a st')
    have ne: "stack_top g \<noteq> HNil" using Suc.prems(1) Cons by auto
    have a: "a \<in> W" using Suc.prems(8) Cons by auto
    obtain g1 where 1: "pop_header g = (Done (HAt a), g1)" "headers g1 = headers g"
        "chain (headers g) stack_prev (stack_top g1) st'" "same_lists g g1"
      using pop_run Suc.prems(1) Cons by blast
    note m1 = headers_marked [OF 1(2)] and k1 = same_lists_known [OF 1(4)]
    obtain ob qs where o: "deref h (RAddr a) = Some ob" "child_refs h ob = Done qs"
        "set qs \<subseteq> RAddr ` W" "{b. RAddr b \<in> set qs} = children h a"
      using closed_child_refs [OF Suc.prems(4) a] by auto
    have cW: "children h a \<subseteq> W" by (rule closed_children [OF Suc.prems(4) a])
    have "set qs \<subseteq> RAddr ` known g1" "chain (headers g1) stack_prev (stack_top g1) st'"
        "set st' \<subseteq> marked g1" "distinct st'"
      using order_trans [OF o(3) image_mono [OF Suc.prems(5)]] k1 1(2,3) m1 Suc.prems(2,3) Cons by simp_all
    from mark_children_run [OF this] obtain g2 ns where 2: "forM qs mark_child g1 = (Done (), g2)"
        "marked g2 = marked g1 \<union> {b. RAddr b \<in> set qs}"
        "chain (headers g2) stack_prev (stack_top g2) (ns @ st')" "distinct (ns @ st')"
        "set ns = marked g2 - marked g1" "same_lists g1 g2"
      by blast
    have k2: "known g2 = known g" using same_lists_known [OF 2(6)] k1 by simp
    have m2: "marked g2 = marked g \<union> children h a" using 2(2) o(4) m1 by simp
    have "length ns = card (marked g2 - marked g)"
      using 2(4,5) m1 distinct_card [of ns] by simp
    moreover have "W - marked g = (W - marked g2) \<union> (marked g2 - marked g)"
      using m2 cW by auto
    then have "card (W - marked g) = card (W - marked g2) + card (marked g2 - marked g)"
      using finite_closed [OF Suc.prems(4)] m2 cW
      by (subst card_Un_disjoint [symmetric]) (auto intro: finite_subset)
    ultimately have fuel: "card (W - marked g2) + length (ns @ st') < k"
      using Suc.prems(6) Cons by simp
    have st2: "set (ns @ st') \<subseteq> marked g2" using 2(2,5) m1 Suc.prems(2) Cons by auto
    have cl2: "\<forall>b\<in>marked g2 - set (ns @ st') - T. children h b \<subseteq> marked g2"
      using Suc.prems(7) 2(5) m1 m2 Cons by auto
    have W2: "W \<subseteq> known g2" "set (ns @ st') \<subseteq> W"
      using Suc.prems(5,8) k2 2(5) m1 m2 cW Cons by auto
    obtain g3 where 3: "mark_loop h k g2 = (Done (), g3)" "stack_top g3 = HNil" "marked g2 \<subseteq> marked g3"
        "marked g3 \<subseteq> marked g2 \<union> W" "\<forall>a\<in>marked g3 - T. children h a \<subseteq> marked g3" "same_lists g2 g3"
      using Suc.IH [OF 2(3) st2 2(4) Suc.prems(4) W2(1) fuel cl2 W2(2)] by blast
    have "traverse_child_objects h (RAddr a) mark_child g1 = (Done (), g2)"
      using o(1,2) 2(1) unfolding traverse_child_objects_def by simp
    then have "mark_loop h (Suc k) g = (Done (), g3)"
      using 1(1) 3(1) ne by (simp add: run is_empty_stack_def)
    moreover have "marked g3 \<subseteq> marked g \<union> W" using 3(4) m2 cW by auto
    moreover have "same_lists g g3" using same_lists_trans [OF same_lists_trans [OF 1(4) 2(6)] 3(6)] .
    ultimately show ?thesis using 3 m2 by (intro exI [of _ g3]) auto
  qed
qed simp

section \<open>Marking from the roots\<close>

text \<open>Between two roots: the stack is empty, what is marked was marked before or is in \<open>W\<close> or \<open>T\<close>, and
  the children of the marked objects are marked, except for the objects under construction \<open>T\<close>.\<close>

definition marking :: "heap \<Rightarrow> nat set \<Rightarrow> nat set \<Rightarrow> collector \<Rightarrow> collector \<Rightarrow> bool" where
  "marking h T W g0 g \<longleftrightarrow> same_lists g0 g \<and> stack_top g = HNil \<and> marked g0 \<subseteq> marked g \<and>
     marked g \<subseteq> marked g0 \<union> W \<union> T \<and> (\<forall>a\<in>marked g - T. children h a \<subseteq> marked g)"

lemma marking_known: "marking h T W g0 g \<Longrightarrow> known g = known g0"
  by (simp add: marking_def same_lists_known)

lemma mark_from_object_run:
  assumes m: "marking h T W g0 g" and a: "a \<in> W"
    and cl: "heap_closed h W" "W \<subseteq> known g0"
  shows "\<exists>g'. mark_from_object h (RAddr a) g = (Done (), g') \<and> marking h T W g0 g' \<and>
    insert a (marked g) \<subseteq> marked g'"
proof (cases "a \<in> marked g")
  case True
  moreover have "a \<in> known g" using a cl(2) marking_known [OF m] by auto
  ultimately show ?thesis using m
    by (intro exI [of _ g]) (simp del: mark_loop.simps add: mark_from_object_def run is_marked_run insert_absorb)
next
  case False
  have kg: "known g = known g0" by (rule marking_known [OF m])
  have kga: "a \<in> known g" using kg a cl(2) by auto
  have "chain (headers g) stack_prev (stack_top g) []" using m by (simp add: marking_def)
  from push_run [OF _ False this] a cl(2) kg obtain g1 where 1: "mark_and_push_header (HAt a) g = (Done (), g1)"
      "marked g1 = insert a (marked g)" "chain (headers g1) stack_prev (stack_top g1) [a]" "same_lists g g1"
    by auto
  have k1: "known g1 = known g0" using same_lists_known [OF 1(4)] kg by simp
  have "card (W - marked g1) \<le> card W" using finite_closed [OF cl(1)] by (intro card_mono) auto
  then have fuel: "card (W - marked g1) + length [a] < Suc (Suc (length h))"
    using finite_closed [OF cl(1)] by simp
  have "set [a] \<subseteq> marked g1" "distinct [a]" "W \<subseteq> known g1" "set [a] \<subseteq> W"
      "\<forall>b\<in>marked g1 - set [a] - T. children h b \<subseteq> marked g1"
    using 1(2) k1 cl(2) a m by (auto simp: marking_def)
  then obtain g2 where 2: "mark_loop h (Suc (Suc (length h))) g1 = (Done (), g2)" "stack_top g2 = HNil"
      "marked g1 \<subseteq> marked g2" "marked g2 \<subseteq> marked g1 \<union> W" "\<forall>a\<in>marked g2 - T. children h a \<subseteq> marked g2"
      "same_lists g1 g2"
    using mark_loop_run [OF 1(3) _ _ cl(1) _ fuel, of T] by metis
  have "same_lists g0 g2"
    using m same_lists_trans [OF same_lists_trans [OF _ 1(4)] 2(6)] by (simp add: marking_def)
  moreover have "marked g0 \<subseteq> marked g2" "marked g2 \<subseteq> marked g0 \<union> W \<union> T"
    using 1(2) 2(3,4) m a by (auto simp: marking_def)
  ultimately have "marking h T W g0 g2" using 2(2,5) by (simp add: marking_def)
  moreover have "mark_from_object h (RAddr a) g = (Done (), g2)"
    unfolding mark_from_object_def bindM_run object_to_header.simps
    using False kga 1(1) 2(1) by (simp del: mark_loop.simps add: run is_marked_run)
  ultimately show ?thesis using 1(2) 2(3) by (intro exI [of _ g2]) simp
qed

lemma forM_run:
  assumes "I [] s" and "\<And>js i s. set (js @ [i]) \<subseteq> set is \<Longrightarrow> I js s \<Longrightarrow> \<exists>t. f i s = (Done (), t) \<and> I (js @ [i]) t"
  shows "\<exists>t. forM is f s = (Done (), t) \<and> I is t"
proof -
  have "I js s \<Longrightarrow> set (js @ ks) \<subseteq> set is \<Longrightarrow> \<exists>t. forM ks f s = (Done (), t) \<and> I (js @ ks) t" for js ks
  proof (induction ks arbitrary: js s)
    case (Cons i ks)
    obtain t where t: "f i s = (Done (), t)" "I (js @ [i]) t" using assms(2) [of js i s] Cons.prems by auto
    then show ?case using Cons.IH [OF t(2)] Cons.prems by (simp add: run)
  qed (simp add: run)
  from this [of "[]" "is"] assms(1) show ?thesis by simp
qed

lemma mark_roots_run:
  assumes m: "marking h T W g0 g" and qs: "set qs \<subseteq> RAddr ` W"
    and cl: "heap_closed h W" "W \<subseteq> known g0"
  shows "\<exists>g'. forM qs (mark_from_object h) g = (Done (), g') \<and> marking h T W g0 g' \<and>
    marked g \<union> {a. RAddr a \<in> set qs} \<subseteq> marked g'"
proof (rule forM_run [where I = "\<lambda>js g'. marking h T W g0 g' \<and> marked g \<union> {a. RAddr a \<in> set js} \<subseteq> marked g'"])
  fix js i s
  assume js: "set (js @ [i]) \<subseteq> set qs"
    and I: "marking h T W g0 s \<and> marked g \<union> {a. RAddr a \<in> set js} \<subseteq> marked s"
  obtain a where "i = RAddr a" "a \<in> W" using js qs by auto
  then show "\<exists>t. mark_from_object h i s = (Done (), t) \<and> marking h T W g0 t \<and>
      marked g \<union> {a. RAddr a \<in> set (js @ [i])} \<subseteq> marked t"
    using mark_from_object_run [of h T W g0 s a] I cl by fastforce
qed (simp add: m)

text \<open>The roots of the contexts, and the objects that threads are about to initialise.\<close>

definition root_addrs :: "ctx list \<Rightarrow> (vm_value list \<times> function_result_cache list) list \<Rightarrow> nat set" where
  "root_addrs cs vs = {a. RAddr a \<in> (\<Union>c\<in>set cs. set (thread_roots c)) \<union> (\<Union>v\<in>set vs. set (vm_roots (fst v) (snd v)))}"

definition fresh_addrs :: "ctx list \<Rightarrow> nat set" where
  "fresh_addrs cs = {a. \<exists>c\<in>set cs. gc_tmp_ptr (regs c) = Some a}"

text \<open>All roots are references to objects with headers, and what can be reached from them is
  initialised and has headers. The objects that threads are about to initialise need not be.\<close>

definition roots_ok :: "heap \<Rightarrow> ctx list \<Rightarrow> (vm_value list \<times> function_result_cache list) list \<Rightarrow> nat set \<Rightarrow> bool" where
  "roots_ok h cs vs A \<longleftrightarrow> (\<forall>c\<in>set cs. set (thread_roots c) \<subseteq> range RAddr) \<and>
     (\<forall>v\<in>set vs. set (vm_roots (fst v) (snd v)) \<subseteq> range RAddr) \<and> fresh_addrs cs \<subseteq> A \<and>
     heap_closed h (reach h {} (root_addrs cs vs)) \<and> reach h {} (root_addrs cs vs) \<subseteq> A"

lemma addr_refs: "set qs \<subseteq> range RAddr \<Longrightarrow> {a. RAddr a \<in> set qs} \<subseteq> W \<Longrightarrow> set qs \<subseteq> RAddr ` W"
  by blast

lemma roots_okD:
  assumes "roots_ok h cs vs A"
  shows "c \<in> set cs \<Longrightarrow> set (thread_roots c) \<subseteq> range RAddr"
    and "v \<in> set vs \<Longrightarrow> set (vm_roots (fst v) (snd v)) \<subseteq> range RAddr"
    and "fresh_addrs cs \<subseteq> A"
  using assms unfolding roots_ok_def by blast+

lemma roots_of_thread: "c \<in> set cs \<Longrightarrow> {a. RAddr a \<in> set (thread_roots c)} \<subseteq> root_addrs cs vs"
  by (auto simp: root_addrs_def)

lemma roots_of_vm: "v \<in> set vs \<Longrightarrow> {a. RAddr a \<in> set (vm_roots (fst v) (snd v))} \<subseteq> root_addrs cs vs"
  by (auto simp: root_addrs_def)

lemma fresh_of_thread: "c \<in> set cs \<Longrightarrow> gc_tmp_ptr (regs c) = Some a \<Longrightarrow> a \<in> fresh_addrs cs"
  by (auto simp: fresh_addrs_def)

lemma roots_within:
  assumes "\<And>c. c \<in> set cs \<Longrightarrow> {a. RAddr a \<in> set (thread_roots c)} \<union> set_option (gc_tmp_ptr (regs c)) \<subseteq> M"
    and "\<And>v. v \<in> set vs \<Longrightarrow> {a. RAddr a \<in> set (vm_roots (fst v) (snd v))} \<subseteq> M"
  shows "root_addrs cs vs \<union> fresh_addrs cs \<subseteq> M"
proof
  fix a assume "a \<in> root_addrs cs vs \<union> fresh_addrs cs"
  then consider c where "c \<in> set cs" "RAddr a \<in> set (thread_roots c)"
    | v where "v \<in> set vs" "RAddr a \<in> set (vm_roots (fst v) (snd v))"
    | c where "c \<in> set cs" "gc_tmp_ptr (regs c) = Some a"
    unfolding root_addrs_def fresh_addrs_def by blast
  then show "a \<in> M" by cases (use assms in fastforce)+
qed

lemma set_mark_run:
  assumes "marking h T W g0 g" "a \<in> known g0" "a \<in> T"
  shows "\<exists>g'. set_header (HAt a) (\<lambda>hdr. hdr\<lparr>stack_prev := HNil\<rparr>) g = (Done (), g') \<and> marking h T W g0 g' \<and>
    insert a (marked g) \<subseteq> marked g'"
proof -
  obtain x where x: "headers g (HAt a) = Some x"
    using assms marking_known [OF assms(1)] by (auto simp: known_def)
  let ?g = "g\<lparr>headers := (headers g)(HAt a \<mapsto> x\<lparr>stack_prev := HNil\<rparr>)\<rparr>"
  have "marked ?g = insert a (marked g)" by (auto simp: marked_def)
  moreover have "same_lists g ?g" using x by (simp add: same_lists_def)
  ultimately have "marking h T W g0 ?g" using assms same_lists_trans by (fastforce simp: marking_def)
  then show ?thesis using x \<open>marked ?g = insert a (marked g)\<close> by (auto simp: set_header_def)
qed

lemma mark_thread_run:
  assumes m: "marking h T W g0 g" and c: "set (thread_roots c) \<subseteq> RAddr ` W"
    and p: "\<And>a. gc_tmp_ptr (regs c) = Some a \<Longrightarrow> a \<in> known g0 \<inter> T"
    and cl: "heap_closed h W" "W \<subseteq> known g0"
  shows "\<exists>g'. mark_thread h c g = (Done (), g') \<and> marking h T W g0 g' \<and>
    marked g \<union> {a. RAddr a \<in> set (thread_roots c)} \<union> set_option (gc_tmp_ptr (regs c)) \<subseteq> marked g'"
proof -
  obtain g1 where 1: "forM (thread_roots c) (mark_from_object h) g = (Done (), g1)" "marking h T W g0 g1"
      "marked g \<union> {a. RAddr a \<in> set (thread_roots c)} \<subseteq> marked g1"
    using mark_roots_run [OF m c cl] by blast
  show ?thesis
  proof (cases "gc_tmp_ptr (regs c)")
    case None
    then show ?thesis using 1 by (simp add: mark_thread_def run)
  next
    case (Some a)
    then obtain g2 where "set_header (HAt a) (\<lambda>hdr. hdr\<lparr>stack_prev := HNil\<rparr>) g1 = (Done (), g2)"
        "marking h T W g0 g2" "insert a (marked g1) \<subseteq> marked g2"
      using set_mark_run [OF 1(2), of a] p by blast
    then show ?thesis using 1 Some by (auto simp: mark_thread_def run)
  qed
qed

lemma mark_run:
  assumes m: "marking h (fresh_addrs cs) W g0 g" and k: "roots_ok h cs vs (known g0)"
    and W: "W = reach h {} (root_addrs cs vs)"
  shows "\<exists>g'. mark h cs vs g = (Done (), g') \<and> marking h (fresh_addrs cs) W g0 g' \<and>
    root_addrs cs vs \<union> fresh_addrs cs \<subseteq> marked g'"
proof -
  let ?T = "fresh_addrs cs"
  have cl: "heap_closed h W" "W \<subseteq> known g0" using k W by (simp_all add: roots_ok_def)
  have RW: "root_addrs cs vs \<subseteq> W" unfolding W by (auto intro: reach.root)
  have "\<exists>g1. forM cs (mark_thread h) g = (Done (), g1) \<and> marking h ?T W g0 g1 \<and>
      (\<forall>c\<in>set cs. {a. RAddr a \<in> set (thread_roots c)} \<union> set_option (gc_tmp_ptr (regs c)) \<subseteq> marked g1)"
  proof (rule forM_run [where I = "\<lambda>js g1. marking h ?T W g0 g1 \<and>
      (\<forall>c\<in>set js. {a. RAddr a \<in> set (thread_roots c)} \<union> set_option (gc_tmp_ptr (regs c)) \<subseteq> marked g1)"])
    fix js c s
    assume js: "set (js @ [c]) \<subseteq> set cs" and I: "marking h ?T W g0 s \<and>
      (\<forall>c\<in>set js. {a. RAddr a \<in> set (thread_roots c)} \<union> set_option (gc_tmp_ptr (regs c)) \<subseteq> marked s)"
    have c: "c \<in> set cs" using js by simp
    have "set (thread_roots c) \<subseteq> RAddr ` W"
      by (rule addr_refs [OF roots_okD(1) [OF k c] order_trans [OF roots_of_thread [OF c] RW]])
    moreover have "a \<in> known g0 \<inter> ?T" if "gc_tmp_ptr (regs c) = Some a" for a
      using fresh_of_thread [OF c that] roots_okD(3) [OF k] m by (auto simp: marking_known)
    ultimately obtain t where "mark_thread h c s = (Done (), t)" "marking h ?T W g0 t"
      "marked s \<union> {a. RAddr a \<in> set (thread_roots c)} \<union> set_option (gc_tmp_ptr (regs c)) \<subseteq> marked t"
      using mark_thread_run [of h ?T W g0 s c] I cl by blast
    then show "\<exists>t. mark_thread h c s = (Done (), t) \<and> marking h ?T W g0 t \<and>
      (\<forall>c\<in>set (js @ [c]). {a. RAddr a \<in> set (thread_roots c)} \<union> set_option (gc_tmp_ptr (regs c)) \<subseteq> marked t)"
      using I by auto
  qed (simp add: m)
  then obtain g1 where 1: "forM cs (mark_thread h) g = (Done (), g1)" "marking h ?T W g0 g1"
      "\<forall>c\<in>set cs. {a. RAddr a \<in> set (thread_roots c)} \<union> set_option (gc_tmp_ptr (regs c)) \<subseteq> marked g1"
    by blast
  have "\<exists>g2. forM vs (mark_vm h) g1 = (Done (), g2) \<and> marking h ?T W g0 g2 \<and> marked g1 \<subseteq> marked g2 \<and>
      (\<forall>v\<in>set vs. {a. RAddr a \<in> set (vm_roots (fst v) (snd v))} \<subseteq> marked g2)"
  proof (rule forM_run [where I = "\<lambda>js g2. marking h ?T W g0 g2 \<and> marked g1 \<subseteq> marked g2 \<and>
      (\<forall>v\<in>set js. {a. RAddr a \<in> set (vm_roots (fst v) (snd v))} \<subseteq> marked g2)"])
    fix js v s
    assume js: "set (js @ [v]) \<subseteq> set vs" and I: "marking h ?T W g0 s \<and> marked g1 \<subseteq> marked s \<and>
      (\<forall>v\<in>set js. {a. RAddr a \<in> set (vm_roots (fst v) (snd v))} \<subseteq> marked s)"
    have v: "v \<in> set vs" using js by simp
    have "set (vm_roots (fst v) (snd v)) \<subseteq> RAddr ` W"
      by (rule addr_refs [OF roots_okD(2) [OF k v] order_trans [OF roots_of_vm [OF v] RW]])
    then obtain t where "mark_vm h v s = (Done (), t)" "marking h ?T W g0 t"
      "marked s \<union> {a. RAddr a \<in> set (vm_roots (fst v) (snd v))} \<subseteq> marked t"
      using mark_roots_run [of h ?T W g0 s] I cl unfolding mark_vm_def by blast
    then show "\<exists>t. mark_vm h v s = (Done (), t) \<and> marking h ?T W g0 t \<and> marked g1 \<subseteq> marked t \<and>
      (\<forall>v\<in>set (js @ [v]). {a. RAddr a \<in> set (vm_roots (fst v) (snd v))} \<subseteq> marked t)"
      using I by simp blast
  qed (simp add: 1)
  then obtain g2 where 2: "forM vs (mark_vm h) g1 = (Done (), g2)" "marking h ?T W g0 g2" "marked g1 \<subseteq> marked g2"
      "\<forall>v\<in>set vs. {a. RAddr a \<in> set (vm_roots (fst v) (snd v))} \<subseteq> marked g2"
    by blast
  have "root_addrs cs vs \<union> fresh_addrs cs \<subseteq> marked g2"
    by (rule roots_within) (use 1(3) 2(3,4) in blast)+
  then show ?thesis using 1(1) 2(1,2) by (simp add: mark_def run)
qed

section \<open>Sweeping\<close>

text \<open>What happens to an object that is freed.\<close>

definition free_events :: "heap \<Rightarrow> nat \<Rightarrow> gc_event list" where
  "free_events h a = (case body (h ! a) of
      NativeObject _ _ _ \<Rightarrow> [Finalized a]
    | LazyValue _ \<Rightarrow> if has_unique_flag (h ! a) then [] else [DestroyedMutex a]
    | _ \<Rightarrow> []) @ [Freed a]"

fun chain_at :: "link \<Rightarrow> collector \<Rightarrow> nat list \<Rightarrow> bool" where
  "chain_at ListFirst g as = chain (headers g) list_next (list_first g) as"
| "chain_at (NextOf p) g as = (\<exists>x. headers g p = Some x \<and> chain (headers g) list_next (list_next x) as)"

lemma finalize_free_run:
  "a < length h \<Longrightarrow> seqM (finalize_object h a) (bindM (header_m p) (\<lambda>x. seqM (free_header a) (f x))) g =
    (case headers g p of
       None \<Rightarrow> (Undefined, snd (finalize_object h a g))
     | Some x \<Rightarrow> f x (g\<lparr>headers := (headers g)(HAt a := None), gc_events := gc_events g @ free_events h a\<rparr>))"
  by (auto simp: finalize_object_def free_events_def free_header_def log_event_def header_m_def run
      split: body.splits option.splits)

lemma read_link_chain:
  "chain_at l g (a # as) \<Longrightarrow> read_link l g = (Done (HAt a), g)"
  "chain_at l g [] \<Longrightarrow> read_link l g = (Done HNil, g)"
  by (cases l; auto simp: run header_m_def)+

text \<open>The state a sweep leaves.\<close>

definition swept :: "heap \<Rightarrow> link \<Rightarrow> nat list \<Rightarrow> collector \<Rightarrow> collector \<Rightarrow> bool" where
  "swept h l as g g' \<longleftrightarrow>
     chain_at l g' (filter (\<lambda>a. a \<in> marked g) as) \<and>
     (\<forall>p. p \<notin> HAt ` set as \<and> l \<noteq> NextOf p \<longrightarrow> headers g' p = headers g p) \<and>
     (\<forall>p. l = NextOf p \<longrightarrow> map_option stack_prev (headers g' p) = map_option stack_prev (headers g p)) \<and>
     (\<forall>a\<in>set as. map_option stack_prev (headers g' (HAt a)) = (if a \<in> marked g then Some HNull else None)) \<and>
     gc_events g' = gc_events g @ concat (map (free_events h) (filter (\<lambda>a. a \<notin> marked g) as)) \<and>
     (l \<noteq> ListFirst \<longrightarrow> list_first g' = list_first g) \<and>
     immortal_list_first g' = immortal_list_first g \<and> stack_top g' = stack_top g"

fun link_outside :: "link \<Rightarrow> nat list \<Rightarrow> bool" where
  "link_outside ListFirst as = True"
| "link_outside (NextOf p) as = (p \<notin> HAt ` set as)"

lemma sweep_loop_run:
  assumes "chain_at l g as" "distinct as" "link_outside l as" "\<forall>a\<in>set as. a < length h" "length as < k"
  shows "\<exists>g'. sweep_loop h k l g = (Done (), g') \<and> swept h l as g g'"
  using assms
proof (induction as arbitrary: k l g)
  case Nil
  then obtain k' where "k = Suc k'" by (cases k) auto
  then show ?case using read_link_chain(2) [OF Nil.prems(1)] Nil.prems(1)
    by (intro exI [of _ g]) (simp add: run swept_def)
next
  case (Cons a as)
  obtain k' where k: "k = Suc k'" "length as < k'" using Cons.prems(5) by (cases k) auto
  have a: "a \<notin> set as" "distinct as" "a < length h" using Cons.prems(2,4) by auto
  obtain x where x: "headers g (HAt a) = Some x" and tl: "chain (headers g) list_next (list_next x) as"
    using Cons.prems(1) by (cases l) auto
  note hd = read_link_chain(1) [OF Cons.prems(1)]
  have mk: "is_marked (HAt a) g = (Done (a \<in> marked g), g)"
    by (rule is_marked_run) (simp add: known_def x)
  have neq: "l \<noteq> NextOf (HAt a)" using Cons.prems(3) by (cases l) auto
  show ?case
  proof (cases "a \<in> marked g")
    case False
    let ?f = "g\<lparr>headers := (headers g)(HAt a := None), gc_events := gc_events g @ free_events h a\<rparr>"
    obtain g1 where 1: "write_link l (list_next x) ?f = (Done (), g1)" "chain_at l g1 as"
        "\<forall>p. l \<noteq> NextOf p \<longrightarrow> headers g1 p = headers ?f p"
        "\<forall>p. map_option stack_prev (headers g1 p) = map_option stack_prev (headers ?f p)"
        "gc_events g1 = gc_events ?f" "l \<noteq> ListFirst \<longrightarrow> list_first g1 = list_first g"
        "immortal_list_first g1 = immortal_list_first g" "stack_top g1 = stack_top g"
    proof (cases l)
      case ListFirst
      then show ?thesis using that [of "?f\<lparr>list_first := list_next x\<rparr>"] tl a by (simp add: run)
    next
      case (NextOf p)
      obtain y where y: "headers g p = Some y" using Cons.prems(1) NextOf by auto
      have p: "p \<noteq> HAt a" "p \<notin> HAt ` set as" using Cons.prems(3) NextOf by auto
      have "chain ((headers ?f)(p \<mapsto> y\<lparr>list_next := list_next x\<rparr>)) list_next (list_next x) as
          = chain (headers g) list_next (list_next x) as"
        by (rule chain_cong) (use p a in auto)
      then show ?thesis
        using that [of "?f\<lparr>headers := (headers ?f)(p \<mapsto> y\<lparr>list_next := list_next x\<rparr>)\<rparr>"] tl y p NextOf
        by (simp add: set_header_def)
    qed
    have m1: "marked g1 = marked g"
    proof -
      have "b \<in> marked g1 \<longleftrightarrow> b \<in> marked ?f" for b
        using 1(4) [rule_format, of "HAt b"] by (cases "headers g1 (HAt b)"; cases "headers ?f (HAt b)")
          (auto simp: marked_def)
      moreover have "marked ?f = marked g" using False by (auto simp: marked_def)
      ultimately show ?thesis by blast
    qed
    obtain g' where 2: "sweep_loop h k' l g1 = (Done (), g')" "swept h l as g1 g'"
      using Cons.IH [OF 1(2) a(2) _ _ k(2)] Cons.prems(3,4) by (cases l) auto
    have "seqM (finalize_object h a) (bindM (header_m (HAt a)) (\<lambda>hdr. seqM (free_header a)
        (seqM (write_link l (list_next hdr)) (sweep_loop h k' l)))) g = (Done (), g')"
      unfolding finalize_free_run [OF a(3)] using 1(1) 2(1) x by (simp add: seqM_run)
    then have "sweep_loop h k l g = (Done (), g')"
      using hd mk False by (simp add: k(1) bindM_run)
    moreover have "swept h l (a # as) g g'"
    proof -
      have ha: "headers g' (HAt a) = None"
        using 2(2) 1(3) a(1) neq unfolding swept_def by auto
      have "\<forall>p. p \<notin> HAt ` set (a # as) \<and> l \<noteq> NextOf p \<longrightarrow> headers g' p = headers g p"
        using 2(2) 1(3) unfolding swept_def by simp
      moreover have "map_option stack_prev (headers g' p) = map_option stack_prev (headers g p)" if "l = NextOf p" for p
        using 2(2) 1(4) that neq unfolding swept_def by simp
      ultimately show ?thesis
        using 2(2) 1(5-8) False ha unfolding swept_def m1 by simp
    qed
    ultimately show ?thesis by blast
  next
    case True
    let ?g = "g\<lparr>headers := (headers g)(HAt a \<mapsto> x\<lparr>stack_prev := HNull\<rparr>)\<rparr>"
    have "chain_at (NextOf (HAt a)) ?g as" using tl a by simp
    moreover have "link_outside (NextOf (HAt a)) as" using a by auto
    ultimately obtain g' where 2: "sweep_loop h k' (NextOf (HAt a)) ?g = (Done (), g')"
        "swept h (NextOf (HAt a)) as ?g g'"
      using Cons.IH [OF _ a(2) _ _ k(2)] Cons.prems(4) by fastforce
    have mg: "b \<in> marked ?g \<longleftrightarrow> b \<in> marked g" if "b \<in> set as" for b
      using that a by (auto simp: marked_def)
    have "sweep_loop h k l g = (Done (), g')"
      using hd mk True 2(1) x by (simp add: k(1) run set_header_def)
    moreover have "swept h l (a # as) g g'"
    proof -
      have f: "filter (\<lambda>b. b \<in> marked ?g) as = filter (\<lambda>b. b \<in> marked g) as"
          "filter (\<lambda>b. b \<notin> marked ?g) as = filter (\<lambda>b. b \<notin> marked g) as"
        by (rule filter_cong; simp add: mg)+
      have same: "headers g' p = headers g p" if "p \<noteq> HAt a" "p \<notin> HAt ` set as" for p
        using 2(2) that by (auto simp: swept_def)
      have tl': "\<exists>y. headers g' (HAt a) = Some y \<and> chain (headers g') list_next (list_next y) (filter (\<lambda>b. b \<in> marked g) as)"
        using 2(2) unfolding swept_def f by simp
      have at: "chain_at l g' (a # filter (\<lambda>b. b \<in> marked g) as)"
      proof (cases l)
        case ListFirst
        then show ?thesis using Cons.prems(1) 2(2) tl' by (simp add: swept_def)
      next
        case (NextOf p)
        then show ?thesis using Cons.prems(1,3) same [of p] tl' by auto
      qed
      have sa: "map_option stack_prev (headers g' (HAt a)) = Some HNull"
        using 2(2) by (auto simp: swept_def)
      have "\<forall>p. p \<notin> HAt ` set (a # as) \<longrightarrow> headers g' p = headers g p" using same by auto
      moreover have "map_option stack_prev (headers g' p) = map_option stack_prev (headers g p)" if "l = NextOf p" for p
        using same [of p] that Cons.prems(3) by (cases l) auto
      moreover have "\<forall>b\<in>set as. map_option stack_prev (headers g' (HAt b)) = (if b \<in> marked g then Some HNull else None)"
        using 2(2) mg by (simp add: swept_def)
      moreover have "gc_events g' = gc_events g @ concat (map (free_events h) (filter (\<lambda>b. b \<notin> marked g) as))"
          "list_first g' = list_first g" "immortal_list_first g' = immortal_list_first g" "stack_top g' = stack_top g"
        using 2(2) unfolding swept_def f by simp_all
      ultimately show ?thesis using at sa True unfolding swept_def by simp
    qed
    ultimately show ?thesis by blast
  qed
qed

section \<open>The collector between collections\<close>

text \<open>
  \<open>xs\<close> are the collected objects, in the order of the list, and \<open>ys\<close> the immortal ones. No
  collected object is marked. An immortal object that was reached once stays marked forever, so what it
  refers to must be immortal as well.
\<close>

definition collector_ok :: "heap \<Rightarrow> collector \<Rightarrow> nat list \<Rightarrow> nat list \<Rightarrow> bool" where
  "collector_ok h g xs ys \<longleftrightarrow>
     chain (headers g) list_next (list_first g) xs \<and>
     chain (headers g) list_next (immortal_list_first g) ys \<and>
     distinct (xs @ ys) \<and> known g = set xs \<union> set ys \<and> stack_top g = HNil \<and>
     (\<forall>a\<in>set xs. a < length h) \<and> heap_closed h (set ys) \<and>
     marked g \<subseteq> set ys \<and> (\<forall>a\<in>marked g. children h a \<subseteq> marked g)"

definition live :: "heap \<Rightarrow> ctx list \<Rightarrow> (vm_value list \<times> function_result_cache list) list \<Rightarrow> nat set" where
  "live h cs vs = reach h {} (root_addrs cs vs) \<union> fresh_addrs cs"

text \<open>What an object under construction refers to is held by other roots.\<close>

definition constructions_ok :: "heap \<Rightarrow> ctx list \<Rightarrow> (vm_value list \<times> function_result_cache list) list \<Rightarrow> bool" where
  "constructions_ok h cs vs \<longleftrightarrow>
     (\<forall>a\<in>fresh_addrs cs. children h a \<subseteq> reach h (fresh_addrs cs) (root_addrs cs vs))"

lemma reach_stop: "reach h T R \<subseteq> reach h {} R"
  by (rule reach_least) (auto intro: reach.intros)

lemma mark_exact:
  assumes g: "collector_ok h g xs ys" and k: "roots_ok h cs vs (known g)" and c: "constructions_ok h cs vs"
  shows "\<exists>g'. mark h cs vs g = (Done (), g') \<and> same_lists g g' \<and> stack_top g' = HNil \<and>
    live h cs vs \<subseteq> marked g' \<and> marked g' \<subseteq> marked g \<union> live h cs vs \<and>
    (\<forall>a\<in>marked g'. children h a \<subseteq> marked g')"
proof -
  let ?T = "fresh_addrs cs" and ?W = "reach h {} (root_addrs cs vs)"
  have "marking h ?T ?W g g" using g by (auto simp: collector_ok_def marking_def)
  then obtain g' where 1: "mark h cs vs g = (Done (), g')" "marking h ?T ?W g g'"
      "root_addrs cs vs \<union> ?T \<subseteq> marked g'"
    using mark_run [OF _ k refl] by blast
  have M: "\<forall>a\<in>marked g' - ?T. children h a \<subseteq> marked g'" using 1(2) by (simp add: marking_def)
  have "reach h ?T (root_addrs cs vs) \<subseteq> marked g'"
    by (rule reach_least) (use 1(3) M in auto)
  then have M': "children h a \<subseteq> marked g'" if "a \<in> marked g'" for a
    using that M c unfolding constructions_ok_def by blast
  have "?W \<subseteq> marked g'"
    by (rule reach_least) (use 1(3) M' in auto)
  then show ?thesis using 1 M' unfolding live_def by (simp add: marking_def Un_assoc)
qed

lemma same_lists_chain:
  "same_lists g g' \<Longrightarrow> chain (headers g') list_next p as = chain (headers g) list_next p as"
  by (rule chain_cong) (simp add: same_lists_def)

text \<open>A sweep after the marks were set.\<close>

lemma sweep_exact:
  assumes xs: "chain (headers g) list_next (list_first g) xs" "distinct (xs @ ys)" "\<forall>a\<in>set xs. a < length h"
    and ys: "chain (headers g) list_next (immortal_list_first g) ys"
    and kn: "known g = set xs \<union> set ys"
  shows "\<exists>g'. sweep h g = (Done (), g') \<and>
    chain (headers g') list_next (list_first g') (filter (\<lambda>a. a \<in> marked g) xs) \<and>
    chain (headers g') list_next (immortal_list_first g') ys \<and>
    known g' = (set xs \<inter> marked g) \<union> set ys \<and> marked g' = marked g \<inter> set ys \<and>
    gc_events g' = gc_events g @ concat (map (free_events h) (filter (\<lambda>a. a \<notin> marked g) xs)) \<and>
    stack_top g' = stack_top g"
proof -
  have "distinct xs" using xs(2) by simp
  then have "length xs = card (set xs)" by (simp add: distinct_card)
  also have "\<dots> \<le> card {..<length h}" by (rule card_mono) (use xs(3) in auto)
  finally have "length xs < Suc (length h)" by simp
  then obtain g' where 1: "sweep h g = (Done (), g')" "swept h ListFirst xs g g'"
    using sweep_loop_run [of ListFirst g xs h "Suc (length h)"] xs unfolding sweep_def by auto
  have out: "headers g' p = headers g p" if "p \<notin> HAt ` set xs" for p
    using 1(2) that by (simp add: swept_def)
  have "in": "map_option stack_prev (headers g' (HAt a)) = (if a \<in> marked g then Some HNull else None)"
    if "a \<in> set xs" for a
    using 1(2) that by (simp add: swept_def)
  have ys': "chain (headers g') list_next p ys = chain (headers g) list_next p ys" for p
  proof (rule chain_cong)
    fix a assume "a \<in> set ys"
    then have "HAt a \<notin> HAt ` set xs" using xs(2) by auto
    then show "map_option list_next (headers g' (HAt a)) = map_option list_next (headers g (HAt a))" by (simp add: out)
  qed
  have at: "a \<in> known g' \<longleftrightarrow> (a \<in> set xs \<and> a \<in> marked g) \<or> a \<in> set ys" for a
  proof (cases "a \<in> set xs")
    case True
    then show ?thesis using "in" [OF True] xs(2) by (auto simp: known_def split: if_splits)
  next
    case False
    then have "headers g' (HAt a) = headers g (HAt a)" by (intro out) auto
    then show ?thesis using False kn(1) by (auto simp: known_def)
  qed
  have mk: "a \<in> marked g' \<longleftrightarrow> a \<in> marked g \<and> a \<in> set ys" for a
  proof (cases "a \<in> set xs")
    case True
    then show ?thesis using "in" [OF True] xs(2) by (auto simp: marked_def split: if_splits)
  next
    case False
    then have "headers g' (HAt a) = headers g (HAt a)" by (intro out) auto
    then show ?thesis using False kn(1) by (auto simp: marked_def known_def)
  qed
  have "known g' = (set xs \<inter> marked g) \<union> set ys" "marked g' = marked g \<inter> set ys"
    using at mk by auto
  then show ?thesis using 1 ys ys'
    by (intro exI [of _ g']) (simp add: swept_def)
qed

text \<open>C2: A collection ends, frees exactly the collected objects that cannot be reached from the roots, in
  the order of the list and each once, after its finalizer ran; the survivors keep their order, and
  the collector is ready for the next collection.\<close>

theorem collection_exact:
  assumes g: "collector_ok h g xs ys" and k: "roots_ok h cs vs (known g)" and c: "constructions_ok h cs vs"
  shows "\<exists>g'. gc_collect h cs vs g = (Done (), g') \<and>
    collector_ok h g' (filter (\<lambda>a. a \<in> live h cs vs) xs) ys \<and>
    gc_events g' = gc_events g @ concat (map (free_events h) (filter (\<lambda>a. a \<notin> live h cs vs) xs))"
proof -
  note gd = g [unfolded collector_ok_def]
  obtain g1 where 1: "mark h cs vs g = (Done (), g1)" "same_lists g g1" "stack_top g1 = HNil"
      "live h cs vs \<subseteq> marked g1" "marked g1 \<subseteq> marked g \<union> live h cs vs"
      "\<forall>a\<in>marked g1. children h a \<subseteq> marked g1"
    using mark_exact [OF g k c] by blast
  have sl: "list_first g1 = list_first g" "immortal_list_first g1 = immortal_list_first g" "gc_events g1 = gc_events g"
    using 1(2) by (simp_all add: same_lists_def)
  have m1: "a \<in> marked g1 \<longleftrightarrow> a \<in> live h cs vs" if "a \<in> set xs" for a
    using that 1(4,5) gd by auto
  then have f: "filter (\<lambda>a. a \<in> marked g1) xs = filter (\<lambda>a. a \<in> live h cs vs) xs"
      "filter (\<lambda>a. a \<notin> marked g1) xs = filter (\<lambda>a. a \<notin> live h cs vs) xs"
    by (auto intro: filter_cong)
  have pre: "chain (headers g1) list_next (list_first g1) xs" "distinct (xs @ ys)" "\<forall>a\<in>set xs. a < length h"
      "chain (headers g1) list_next (immortal_list_first g1) ys" "known g1 = set xs \<union> set ys"
    using gd sl same_lists_known [OF 1(2)] same_lists_chain [OF 1(2)] by simp_all
  obtain g' where 2: "sweep h g1 = (Done (), g')"
      "chain (headers g') list_next (list_first g') (filter (\<lambda>a. a \<in> marked g1) xs)"
      "chain (headers g') list_next (immortal_list_first g') ys"
      "known g' = (set xs \<inter> marked g1) \<union> set ys" "marked g' = marked g1 \<inter> set ys"
      "gc_events g' = gc_events g1 @ concat (map (free_events h) (filter (\<lambda>a. a \<notin> marked g1) xs))"
      "stack_top g' = stack_top g1"
    using sweep_exact [OF pre] by blast
  have hy: "heap_closed h (set ys)" using gd by (elim conjE)
  have "children h a \<subseteq> marked g'" if a: "a \<in> marked g'" for a
  proof -
    have "a \<in> marked g1" "a \<in> set ys" using a 2(5) by simp_all
    then show ?thesis using 1(6) closed_children [OF hy] 2(5) by simp
  qed
  moreover have "known g' = set (filter (\<lambda>a. a \<in> live h cs vs) xs) \<union> set ys" using 2(4) m1 by auto
  moreover have "marked g' \<subseteq> set ys" using 2(5) by blast
  moreover have "distinct (filter (\<lambda>a. a \<in> live h cs vs) xs @ ys)"
      "\<forall>a\<in>set (filter (\<lambda>a. a \<in> live h cs vs) xs). a < length h"
    using gd by auto
  ultimately have "collector_ok h g' (filter (\<lambda>a. a \<in> live h cs vs) xs) ys"
    using 2(2,3,7) 1(3) gd unfolding collector_ok_def f by simp
  then show ?thesis using 1(1) 2(1,6) f sl by (simp add: gc_collect_def run)
qed

text \<open>An array that is on the stack keeps its element; the native object is freed, after its finalizer.\<close>

lemma collection_exact_witness:
  defines "h \<equiv> [Object False (RArray [RAddr 1]), Object False (IArray8 [7]), Object True (NativeObject 1 2 [])]"
    and "c \<equiv> (new_thread_context 4 4 [])\<lparr>stack := [VRef (RAddr 0)], regs := (regs (new_thread_context 4 4 []))\<lparr>sec := 1\<rparr>\<rparr>"
    and "g \<equiv> snd (forM [0, 1, 2] (\<lambda>a. seqM (ms_allocate True a None) (ret ())) new_collector)"
  shows "\<exists>g'. gc_collect h [c] [] g = (Done (), g') \<and> collector_ok h g' [1, 0] [] \<and>
    gc_events g' = [Finalized 2, Freed 2]"
proof -
  have roots: "root_addrs [c] [] = {0}" "fresh_addrs [c] = {}" "set (thread_roots c) = {RAddr 0}"
    by (auto simp: root_addrs_def fresh_addrs_def thread_roots_def c_def new_thread_context_def Let_def
        refs_of_values_def refs_of_refs_def List.map_filter_def initial_regs_def no_return_value_def)
  have ch: "children h 0 = {1}" "children h 1 = {}"
    by (auto simp: children_def h_def child_refs_def refs_of_refs_def)
  have "reach h {} {0} = {0, 1}"
  proof
    show "reach h {} {0} \<subseteq> {0, 1}" by (rule reach_least) (auto simp: ch [unfolded One_nat_def])
    show "{0, 1} \<subseteq> reach h {} {0}"
      using reach.root [of 0 "{0}" h "{}"] reach.child [of 0 h "{}" "{0}" 1] ch by auto
  qed
  note R = this roots
  have gh: "headers g = [HNil \<mapsto> new_header, HAt 0 \<mapsto> \<lparr>list_next = HNil, stack_prev = HNull\<rparr>,
        HAt 1 \<mapsto> \<lparr>list_next = HAt 0, stack_prev = HNull\<rparr>, HAt 2 \<mapsto> \<lparr>list_next = HAt 1, stack_prev = HNull\<rparr>]"
      "list_first g = HAt 2" "immortal_list_first g = HNil" "stack_top g = HNil" "gc_events g = []"
    by (simp_all add: g_def new_collector_def ms_allocate_def init_header_def add_header_def set_header_def
        new_header_def run)
  have kn: "known g = {0, 1, 2}" "marked g = {}"
    by (auto simp: known_def marked_def gh split: if_splits)
  have "collector_ok h g [2, 1, 0] []"
    by (auto simp: collector_ok_def kn gh h_def heap_closed_def)
  moreover have "heap_closed h {0, 1}"
    by (simp add: heap_closed_def h_def child_refs_def refs_of_refs_def)
  then have "roots_ok h [c] [] (known g)" unfolding roots_ok_def R(2,3) R(1) kn by (simp add: R(4))
  moreover have "constructions_ok h [c] []"
    by (simp add: constructions_ok_def R)
  moreover have "live h [c] [] = {0, 1}" unfolding live_def R(2,3) R(1) by simp
  moreover have "free_events h 2 = [Finalized 2, Freed 2]" by (simp add: free_events_def h_def)
  ultimately show ?thesis
    using collection_exact [of h g "[2, 1, 0]" "[]" "[c]" "[]"] gh(5) by simp
qed

text \<open>Deleting the collector frees what is left.\<close>

lemma free_list_run:
  assumes "chain (headers g) list_next p as" "distinct as" "\<forall>a\<in>set as. a < length h" "length as < k"
  shows "\<exists>g'. free_list h k p g = (Done (), g') \<and>
    headers g' = (\<lambda>q. if q \<in> HAt ` set as then None else headers g q) \<and>
    gc_events g' = gc_events g @ concat (map (free_events h) as) \<and> immortal_list_first g' = immortal_list_first g"
  using assms
proof (induction as arbitrary: k p g)
  case Nil
  then obtain j where "k = Suc j" by (cases k) auto
  then show ?case using Nil by (simp add: run)
next
  case (Cons a as)
  obtain j where k: "k = Suc j" "length as < j" using Cons.prems(4) by (cases k) auto
  obtain x where p: "p = HAt a" and x: "headers g (HAt a) = Some x" "chain (headers g) list_next (list_next x) as"
    using Cons.prems(1) by auto
  let ?g = "g\<lparr>headers := (headers g)(HAt a := None), gc_events := gc_events g @ free_events h a\<rparr>"
  have c: "chain (headers ?g) list_next (list_next x) as" using x Cons.prems(2) by simp
  have "seqM (finalize_object h a) (seqM (free_header a) f) g = f ?g" for f :: "unit gc"
    using finalize_free_run [of a h HNull "\<lambda>_. f" g] Cons.prems(3)
    by (auto simp: finalize_object_def free_events_def free_header_def log_event_def run split: body.splits)
  then have s: "free_list h k p g = free_list h j (list_next x) ?g"
    by (simp add: k p bindM_run header_m_def x)
  obtain g' where 1: "free_list h j (list_next x) ?g = (Done (), g')"
      "headers g' = (\<lambda>q. if q \<in> HAt ` set as then None else headers ?g q)"
      "gc_events g' = gc_events ?g @ concat (map (free_events h) as)"
      "immortal_list_first g' = immortal_list_first ?g"
    using Cons.IH [OF c _ _ k(2)] Cons.prems(2,3) by auto
  then show ?case using s by (intro exI [of _ g']) (auto simp: fun_eq_iff)
qed

text \<open>C23: The destructor of the collector frees every object that is left, collected or immortal, once,
  after its finalizer.\<close>

theorem delete_frees_all:
  assumes g: "collector_ok h g xs ys"
  shows "\<exists>g'. delete_collector h g = (Done (), g') \<and> known g' = {} \<and>
    gc_events g' = gc_events g @ concat (map (free_events h) (xs @ ys))"
proof -
  note gd = g [unfolded collector_ok_def]
  have lt: "\<forall>a\<in>set xs. a < length h" "\<forall>a\<in>set ys. a < length h" using gd by (auto simp: heap_closed_def)
  have len: "length as < Suc (length h)" if "distinct as" "\<forall>a\<in>set as. a < length h" for as
    using that card_mono [of "{..<length h}" "set as"] by (auto simp: distinct_card less_Suc_eq_le)
  obtain g1 where 1: "free_list h (Suc (length h)) (list_first g) g = (Done (), g1)"
      "headers g1 = (\<lambda>q. if q \<in> HAt ` set xs then None else headers g q)"
      "gc_events g1 = gc_events g @ concat (map (free_events h) xs)" "immortal_list_first g1 = immortal_list_first g"
    using free_list_run [of g "list_first g" xs h "Suc (length h)"] gd lt len [of xs] by auto
  have "chain (headers g1) list_next (immortal_list_first g1) ys"
  proof -
    have "chain (headers g1) list_next p ys = chain (headers g) list_next p ys" for p
      by (rule chain_cong) (use gd in \<open>auto simp: 1(2)\<close>)
    then show ?thesis using gd 1(4) by simp
  qed
  then obtain g2 where 2: "free_list h (Suc (length h)) (immortal_list_first g1) g1 = (Done (), g2)"
      "headers g2 = (\<lambda>q. if q \<in> HAt ` set ys then None else headers g1 q)"
      "gc_events g2 = gc_events g1 @ concat (map (free_events h) ys)"
    using free_list_run [of g1 "immortal_list_first g1" ys h "Suc (length h)"] gd lt len [of ys] by auto
  have "known g2 = {}" using gd by (auto simp: known_def 1(2) 2(2) split: if_splits)
  moreover have "delete_collector h g = (Done (), g2)"
    using 1(1) 2(1) unfolding delete_collector_def by (simp add: run del: free_list.simps)
  ultimately show ?thesis using 1(3) 2(3) by simp
qed

lemma delete_frees_all_witness:
  "\<exists>g'. delete_collector [Object False (NativeObject 1 2 [])]
      (new_collector\<lparr>headers := [HNil \<mapsto> new_header, HAt 0 \<mapsto> \<lparr>list_next = HNil, stack_prev = HNull\<rparr>],
         list_first := HAt 0\<rparr>) = (Done (), g') \<and> gc_events g' = [Finalized 0, Freed 0]"
proof -
  let ?g = "new_collector\<lparr>headers := [HNil \<mapsto> new_header, HAt 0 \<mapsto> \<lparr>list_next = HNil, stack_prev = HNull\<rparr>],
    list_first := HAt 0\<rparr>"
  have "collector_ok [Object False (NativeObject 1 2 [])] ?g [0] []"
    by (auto simp: collector_ok_def new_collector_def known_def marked_def heap_closed_def split: if_splits)
  from delete_frees_all [OF this] show ?thesis
    by (auto simp: new_collector_def free_events_def)
qed

section \<open>Allocation between collections\<close>

lemma bucket_entries_grow:
  "bucket_entries h k q = Done qs \<Longrightarrow> k \<le> k' \<Longrightarrow> bucket_entries (h @ h') k' q = Done qs"
proof (induction k arbitrary: k' q qs)
  case (Suc k)
  obtain j where j: "k' = Suc j" "k \<le> j" using Suc.prems(2) by (cases k') auto
  show ?case
  proof (cases "q = RNil")
    case False
    then obtain u p n kr v qs' where e: "deref h q = Some (Object u (HashEntry p n kr v))"
        "bucket_entries h k n = Done qs'" "qs = q # qs'"
      using Suc.prems(1) by (auto simp: map_outcome_def split: option.splits object.splits body.splits outcome.splits)
    then have "deref (h @ h') q = Some (Object u (HashEntry p n kr v))"
      by (cases q) (auto simp: nth_append split: if_splits)
    then show ?thesis using False e Suc.IH [OF e(2) j(2)] j by (simp add: map_outcome_def)
  qed (use Suc.prems j in simp)
qed simp

lemma buckets_entries_grow:
  "buckets_entries h bs = Done qs \<Longrightarrow> buckets_entries (h @ h') bs = Done qs"
proof (induction bs arbitrary: qs)
  case (Cons b bs)
  obtain first last where b: "b = (first, last)" by (cases b)
  obtain q1 q2 where q: "bucket_entries h (Suc (length h)) first = Done q1" "buckets_entries h bs = Done q2" "qs = q1 @ q2"
    using Cons.prems by (auto simp: b map_outcome_def simp del: bucket_entries.simps split: outcome.splits)
  have "bucket_entries (h @ h') (Suc (length (h @ h'))) first = Done q1"
    by (rule bucket_entries_grow [OF q(1)]) simp
  then show ?case using Cons.IH [OF q(2)] q(3) by (simp add: b map_outcome_def del: bucket_entries.simps)
qed simp

lemma child_refs_grow: "child_refs h ob = Done qs \<Longrightarrow> child_refs (h @ h') ob = Done qs"
  using buckets_entries_grow by (auto simp: child_refs_def split: body.splits table_value.splits)

lemma closed_grow:
  assumes "heap_closed h A"
  shows "heap_closed (h @ h') A" and "a \<in> A \<Longrightarrow> children (h @ h') a = children h a"
proof -
  have c: "\<exists>qs. a < length h \<and> child_refs h (h ! a) = Done qs \<and> child_refs (h @ h') ((h @ h') ! a) = Done qs \<and>
      set qs \<subseteq> RAddr ` A" if "a \<in> A" for a
    using that assms child_refs_grow [of h "h ! a" _ h'] by (fastforce simp: heap_closed_def nth_append)
  show "heap_closed (h @ h') A" using c by (fastforce simp: heap_closed_def)
  show "a \<in> A \<Longrightarrow> children (h @ h') a = children h a" using c [of a] by (auto simp: children_def)
qed

text \<open>C21: Allocating an object puts its header, unmarked, at the front of the list and keeps the
  invariant of the collector, whatever the new memory holds; the object is the temporary root of the
  context. When there is no memory, nothing changes.\<close>

theorem allocate_keeps_collector:
  assumes g: "collector_ok h g xs ys"
  shows "(\<exists>g' c'. ms_allocate True (length h) (Some c) g = (Done (Some (length h), Some c'), g') \<and>
      collector_ok (h @ [ob]) g' (length h # xs) ys \<and> gc_events g' = gc_events g \<and>
      length h \<in> live (h @ [ob]) (c' # cs) vs) \<and>
    ms_allocate False (length h) (Some c) g = (Done (None, Some c), g)"
proof -
  let ?a = "length h"
  note gd = g [unfolded collector_ok_def]
  have fresh: "?a \<notin> known g" using gd by (auto simp: heap_closed_def)
  let ?g = "g\<lparr>headers := (headers g)(HAt ?a \<mapsto> \<lparr>list_next = list_first g, stack_prev = HNull\<rparr>), list_first := HAt ?a\<rparr>"
  let ?c = "c\<lparr>regs := (regs c)\<lparr>gc_tmp_ptr := Some ?a\<rparr>\<rparr>"
  have r: "ms_allocate True ?a (Some c) g = (Done (Some ?a, Some ?c), ?g)"
    by (simp add: ms_allocate_def init_header_def add_header_def set_header_def new_header_def run)
  have kn: "known ?g = insert ?a (known g)" by (auto simp: known_def)
  have mk: "marked ?g = marked g" using fresh by (auto simp: marked_def known_def)
  have "chain (headers ?g) list_next (list_first ?g) (?a # xs)" "chain (headers ?g) list_next (immortal_list_first ?g) ys"
    using gd fresh by (auto simp: known_def)
  moreover have "\<forall>b\<in>marked g. children (h @ [ob]) b \<subseteq> marked g"
    using gd closed_grow(2) by (metis subset_iff)
  moreover have "heap_closed (h @ [ob]) (set ys)" using gd closed_grow(1) by blast
  moreover have "distinct ((?a # xs) @ ys)" "\<forall>a\<in>set (?a # xs). a < length (h @ [ob])" using gd fresh by auto
  ultimately have "collector_ok (h @ [ob]) ?g (?a # xs) ys"
    using gd kn mk unfolding collector_ok_def by simp
  moreover have "?a \<in> live (h @ [ob]) (?c # cs) vs" by (simp add: live_def fresh_addrs_def)
  ultimately have "\<exists>g' c'. ms_allocate True ?a (Some c) g = (Done (Some ?a, Some c'), g') \<and>
      collector_ok (h @ [ob]) g' (?a # xs) ys \<and> gc_events g' = gc_events g \<and>
      ?a \<in> live (h @ [ob]) (c' # cs) vs"
    using r by (intro exI [of _ ?g] exI [of _ ?c]) simp
  moreover have "ms_allocate False (length h) (Some c) g = (Done (None, Some c), g)"
    by (simp add: ms_allocate_def run)
  ultimately show ?thesis ..
qed

lemma allocate_keeps_collector_witness:
  "\<exists>g' c'. ms_allocate True 0 (Some (new_thread_context 4 4 [])) new_collector = (Done (Some 0, Some c'), g') \<and>
     collector_ok [Object False IO] g' [0] []"
proof -
  have "collector_ok [] new_collector [] []"
    by (auto simp: collector_ok_def new_collector_def known_def marked_def heap_closed_def split: if_splits)
  from allocate_keeps_collector [OF this, of "new_thread_context 4 4 []" "Object False IO" "[]" "[]"]
  show ?thesis by auto
qed

end
