(* ===== verification/Weakest_Pre.thy ===== *)
theory Weakest_Pre
  imports Letin_Prelude
begin

text \<open>
  Functions that test conditions and return a failure when one does not hold, and loops that collect
  results: the style of the loader, of relocating and of linking. Their proofs compute weakest
  preconditions along the combinators.
\<close>

section \<open>Tests and loops\<close>

text \<open>\<open>check b\<close> is the pattern \<open>if(!b) return false;\<close>.\<close>

definition check :: "bool \<Rightarrow> ('s, unit) m" where
  "check b = (if b then ret () else fail)"

text \<open>The results of a loop over the indexes of an array.\<close>

primrec collectM :: "('i \<Rightarrow> ('s, 'a) m) \<Rightarrow> 'i list \<Rightarrow> ('s, 'a list) m" where
  "collectM f [] = ret []"
| "collectM f (i # is) = bindM (f i) (\<lambda>x. bindM (collectM f is) (\<lambda>xs. ret (x # xs)))"

text \<open>A loop that goes on after an error and answers whether there was none.\<close>

primrec allM :: "('i \<Rightarrow> ('s, bool) m) \<Rightarrow> 'i list \<Rightarrow> ('s, bool) m" where
  "allM f [] = ret True"
| "allM f (x # xs) = bindM (f x) (\<lambda>b. bindM (allM f xs) (\<lambda>c. ret (b \<and> c)))"

section \<open>Weakest preconditions\<close>

text \<open>\<open>wp c Q s\<close>: from \<open>s\<close> the function \<open>c\<close> is neither undefined nor out of fuel, and when it
  does not fail, its result and state satisfy \<open>Q\<close>.\<close>

definition wp :: "('s, 'a) m \<Rightarrow> ('a \<Rightarrow> 's \<Rightarrow> bool) \<Rightarrow> 's \<Rightarrow> bool" where
  "wp c Q s \<longleftrightarrow> (case c s of (Done x, t) \<Rightarrow> Q x t | (Failed, t) \<Rightarrow> True | _ \<Rightarrow> False)"

named_theorems wp_rules "weakest preconditions of the combinators"

lemma wp_ret [wp_rules]: "wp (ret x) Q = Q x" by (simp add: wp_def run fun_eq_iff)
lemma wp_fail [wp_rules]: "wp fail Q = (\<lambda>s. True)" by (simp add: wp_def run fun_eq_iff)
lemma wp_reading [wp_rules]: "wp (reading f) Q = (\<lambda>s. Q (f s) s)" by (simp add: wp_def run fun_eq_iff)
lemma wp_modify [wp_rules]: "wp (modify f) Q = (\<lambda>s. Q () (f s))" by (simp add: wp_def run fun_eq_iff)
lemma wp_bindM [wp_rules]: "wp (bindM c f) Q = wp c (\<lambda>x. wp (f x) Q)"
  by (simp add: wp_def run fun_eq_iff split: prod.splits outcome.splits)
lemma wp_seqM [wp_rules]: "wp (seqM c d) Q = wp c (\<lambda>_. wp d Q)"
  by (simp add: wp_def run fun_eq_iff split: prod.splits outcome.splits)
lemma wp_check [wp_rules]: "wp (check b) Q = (\<lambda>s. b \<longrightarrow> Q () s)"
  by (simp add: wp_def run check_def fun_eq_iff)
lemma wp_mono: "wp c Q s \<Longrightarrow> (\<And>x t. Q x t \<Longrightarrow> Q' x t) \<Longrightarrow> wp c Q' s"
  by (auto simp: wp_def split: prod.splits outcome.splits)

lemma wp_collectM:
  assumes "\<And>i. i \<in> set is \<Longrightarrow> wp (f i) (\<lambda>x t. t = s \<and> R i x) s"
    and "\<And>xs. list_all2 R is xs \<Longrightarrow> Q xs s"
  shows "wp (collectM f is) Q s"
  using assms
proof (induction "is" arbitrary: Q)
  case (Cons i js)
  have "wp (f i) (\<lambda>x t. t = s \<and> R i x) s" by (rule Cons.prems(1)) simp
  then show ?case
    by (auto simp: wp_rules elim!: wp_mono intro!: Cons.IH Cons.prems)
qed (simp add: wp_rules)

lemma list_all2_upt: "list_all2 R [0..<n] xs \<longleftrightarrow> length xs = n \<and> (\<forall>i<n. R i (xs ! i))"
  by (auto simp: list_all2_conv_all_nth)

text \<open>A loop that only changes the state keeps an invariant that each round keeps.\<close>

lemma wp_forM:
  assumes "\<And>i s. i \<in> set is \<Longrightarrow> I s \<Longrightarrow> wp (f i) (\<lambda>_. I) s" and "I s" and "\<And>t. I t \<Longrightarrow> Q () t"
  shows "wp (forM is f) Q s"
  using assms(1,2)
proof (induction "is" arbitrary: s)
  case (Cons i js)
  have "wp (f i) (\<lambda>_. I) s" using Cons.prems by simp
  then show ?case
    by (auto simp: wp_rules elim!: wp_mono intro!: Cons.IH Cons.prems(1))
qed (simp add: wp_rules assms(3))

section \<open>Weakest preconditions with a condition on failure\<close>

definition wpx :: "('s, 'a) m \<Rightarrow> ('a \<Rightarrow> 's \<Rightarrow> bool) \<Rightarrow> ('s \<Rightarrow> bool) \<Rightarrow> 's \<Rightarrow> bool" where
  "wpx c Q F s \<longleftrightarrow> (case c s of (Done x, t) \<Rightarrow> Q x t | (Failed, t) \<Rightarrow> F t | _ \<Rightarrow> False)"

named_theorems wpx_rules "weakest preconditions, with failure, of the combinators"

lemma wpx_ret [wpx_rules]: "wpx (ret x) Q F = Q x" by (simp add: wpx_def run fun_eq_iff)
lemma wpx_fail [wpx_rules]: "wpx fail Q F = F" by (simp add: wpx_def run fun_eq_iff)
lemma wpx_undef [wpx_rules]: "wpx undef Q F = (\<lambda>s. False)" by (simp add: wpx_def run fun_eq_iff)
lemma wpx_reading [wpx_rules]: "wpx (reading f) Q F = (\<lambda>s. Q (f s) s)" by (simp add: wpx_def run fun_eq_iff)
lemma wpx_modify [wpx_rules]: "wpx (modify f) Q F = (\<lambda>s. Q () (f s))" by (simp add: wpx_def run fun_eq_iff)
lemma wpx_bindM [wpx_rules]: "wpx (bindM c f) Q F = wpx c (\<lambda>x. wpx (f x) Q F) F"
  by (simp add: wpx_def run fun_eq_iff split: prod.splits outcome.splits)
lemma wpx_seqM [wpx_rules]: "wpx (seqM c d) Q F = wpx c (\<lambda>_. wpx d Q F) F"
  by (simp add: wpx_def run fun_eq_iff split: prod.splits outcome.splits)
lemma wpx_attempt [wpx_rules]: "wpx (attempt c) Q F = wpx c (\<lambda>x. Q (Some x)) (Q None)"
  by (simp add: wpx_def run fun_eq_iff split: prod.splits outcome.splits)
lemma wpx_whenM [wpx_rules]: "wpx (whenM b c) Q F = (if b then wpx c Q F else Q ())"
  by (simp add: wpx_def run fun_eq_iff)
lemma wpx_mono: "wpx c Q F s \<Longrightarrow> (\<And>x t. Q x t \<Longrightarrow> Q' x t) \<Longrightarrow> (\<And>t. F t \<Longrightarrow> F' t) \<Longrightarrow> wpx c Q' F' s"
  by (auto simp: wpx_def split: prod.splits outcome.splits)

text \<open>A loop over indexes, or over a list, with an invariant on how far it is.\<close>

lemma wpx_forM:
  assumes "\<And>k s. k < length xs \<Longrightarrow> I k s \<Longrightarrow> wpx (f (xs ! k)) (\<lambda>_. I (Suc k)) F s"
    and "I 0 s" "\<And>s. I (length xs) s \<Longrightarrow> Q () s"
  shows "wpx (forM xs f) Q F s"
  using assms
proof (induction xs arbitrary: s I)
  case (Cons x xs)
  have "wpx (f x) (\<lambda>_. I (Suc 0)) F s" using Cons.prems(1) [of 0] Cons.prems(2) by simp
  moreover have "wpx (forM xs f) Q F t" if "I (Suc 0) t" for t
    by (rule Cons.IH [where I = "\<lambda>k. I (Suc k)"]) (use Cons.prems that in \<open>fastforce+\<close>)
  ultimately show ?case by (auto simp: wpx_rules elim: wpx_mono)
qed (simp add: wpx_rules)

lemma wpx_collectM:
  assumes "\<And>k ys s. k < length xs \<Longrightarrow> I k ys s \<Longrightarrow> wpx (f (xs ! k)) (\<lambda>y. I (Suc k) (ys @ [y])) F s"
    and "I 0 [] s" "\<And>ys s. I (length xs) ys s \<Longrightarrow> Q ys s"
  shows "wpx (collectM f xs) Q F s"
  using assms
proof (induction xs arbitrary: s I Q)
  case (Cons x xs)
  have "wpx (f x) (\<lambda>y. I (Suc 0) [y]) F s" using Cons.prems(1) [of 0 "[]"] Cons.prems(2) by simp
  moreover have "wpx (collectM f xs) (\<lambda>ys. Q (y # ys)) F t" if "I (Suc 0) [y] t" for y t
    by (rule Cons.IH [where I = "\<lambda>k ys. I (Suc k) (y # ys)"])
      (use Cons.prems(1) [of "Suc k" "y # ys" for k ys] Cons.prems(3) that in auto)
  ultimately show ?case by (auto simp: wpx_rules elim!: wpx_mono)
qed (simp add: wpx_rules)

lemma wpx_allM:
  assumes "\<And>k ok s. k < length xs \<Longrightarrow> I k ok s \<Longrightarrow> wpx (f (xs ! k)) (\<lambda>b. I (Suc k) (ok \<and> b)) F s"
    and "I 0 True s" "\<And>ok s. I (length xs) ok s \<Longrightarrow> Q ok s"
  shows "wpx (allM f xs) Q F s"
  using assms
proof (induction xs arbitrary: s I Q)
  case (Cons x xs)
  have "wpx (f x) (\<lambda>b. I (Suc 0) b) F s" using Cons.prems(1) [of 0 True] Cons.prems(2) by simp
  moreover have "wpx (allM f xs) (\<lambda>c. Q (b \<and> c)) F t" if "I (Suc 0) b t" for b t
    by (rule Cons.IH [where I = "\<lambda>k c. I (Suc k) (b \<and> c)"])
      (use Cons.prems(1) [of "Suc k" "b \<and> c" for k c] Cons.prems(3) that in \<open>auto simp: conj_assoc\<close>)
  ultimately show ?case by (auto simp: wpx_rules elim!: wpx_mono)
qed (simp add: wpx_rules)

end
