(* ===== verification/Program_File.thy ===== *)
theory Program_File
  imports Thread_Context Weakest_Pre
begin

unbundle bit_operations_syntax

text \<open>
  Program files (include/letin/format.hpp, util.hpp): the structures of the file, its byte order, the
  alignment of its sections, and the program the loader makes of it (class \<open>Program\<close> of vm/vm.hpp).
  The loader converts the file in place into the byte order of the machine and hands out pointers into it;
  here it hands out the converted values. A structure of the file is a record of its fields.
\<close>

section \<open>Constants\<close>

abbreviation (input) HEADER_FLAG_LIBRARY :: u32 where "HEADER_FLAG_LIBRARY \<equiv> 1"
abbreviation (input) HEADER_FLAG_RELOCATABLE :: u32 where "HEADER_FLAG_RELOCATABLE \<equiv> 2"
abbreviation (input) HEADER_FLAG_NATIVE_FUN_SYMBOLS :: u32 where "HEADER_FLAG_NATIVE_FUN_SYMBOLS \<equiv> 4"
abbreviation (input) HEADER_FLAG_FUN_INFOS :: u32 where "HEADER_FLAG_FUN_INFOS \<equiv> 8"
abbreviation (input) RELOC_TYPE_ARG1_FUN :: u32 where "RELOC_TYPE_ARG1_FUN \<equiv> 0"
abbreviation (input) RELOC_TYPE_ARG2_FUN :: u32 where "RELOC_TYPE_ARG2_FUN \<equiv> 1"
abbreviation (input) RELOC_TYPE_ARG1_VAR :: u32 where "RELOC_TYPE_ARG1_VAR \<equiv> 2"
abbreviation (input) RELOC_TYPE_ARG2_VAR :: u32 where "RELOC_TYPE_ARG2_VAR \<equiv> 3"
abbreviation (input) RELOC_TYPE_ELEM_FUN :: u32 where "RELOC_TYPE_ELEM_FUN \<equiv> 4"
abbreviation (input) RELOC_TYPE_VAR_FUN :: u32 where "RELOC_TYPE_VAR_FUN \<equiv> 5"
abbreviation (input) RELOC_TYPE_ARG1_NATIVE_FUN :: u32 where "RELOC_TYPE_ARG1_NATIVE_FUN \<equiv> 6"
abbreviation (input) RELOC_TYPE_ARG2_NATIVE_FUN :: u32 where "RELOC_TYPE_ARG2_NATIVE_FUN \<equiv> 7"
abbreviation (input) RELOC_TYPE_ELEM_NATIVE_FUN :: u32 where "RELOC_TYPE_ELEM_NATIVE_FUN \<equiv> 8"
abbreviation (input) RELOC_TYPE_VAR_NATIVE_FUN :: u32 where "RELOC_TYPE_VAR_NATIVE_FUN \<equiv> 9"
abbreviation (input) RELOC_TYPE_SYMBOLIC :: u32 where "RELOC_TYPE_SYMBOLIC \<equiv> 256"
abbreviation (input) SYMBOL_TYPE_FUN :: u8 where "SYMBOL_TYPE_FUN \<equiv> 0"
abbreviation (input) SYMBOL_TYPE_VAR :: u8 where "SYMBOL_TYPE_VAR \<equiv> 1"
abbreviation (input) SYMBOL_TYPE_NATIVE_FUN :: u8 where "SYMBOL_TYPE_NATIVE_FUN \<equiv> 2"
abbreviation (input) SYMBOL_TYPE_DEFINED :: u8 where "SYMBOL_TYPE_DEFINED \<equiv> 16"

text \<open>\<open>HEADER_MAGIC\<close>: 0x33, ``LET'', 0x77, ``IN'', 0xff.\<close>

definition HEADER_MAGIC :: "u8 list" where
  "HEADER_MAGIC = [0x33, 0x4c, 0x45, 0x54, 0x77, 0x49, 0x4e, 0xff]"

section \<open>Structures\<close>

record format_header =
  fh_flags :: u32
  fh_entry :: u32
  fh_fun_count :: u32
  fh_var_count :: u32
  fh_code_size :: u32
  fh_data_size :: u32
  fh_reloc_count :: u32
  fh_symbol_count :: u32
  fh_fun_info_count :: u32

record format_function =
  ff_addr :: u32
  ff_arg_count :: u32
  ff_instr_count :: u32

record format_value =
  fv_type :: u32
  fv_i :: u64

text \<open>The elements of an object by its type; a tuple has the type of each element beside it.\<close>

datatype format_object =
    FIArray8 "u8 list"
  | FIArray16 "u16 list"
  | FIArray32 "u32 list"
  | FIArray64 "u64 list"
  | FSFArray "u32 list"
  | FDFArray "u64 list"
  | FRArray "u32 list"
  | FTuple "(u64 \<times> u8) list"

record format_reloc =
  rl_type :: u32
  rl_addr :: u32
  rl_symbol :: u32

text \<open>A name is its bytes; \<open>length\<close> is the number of them.\<close>

type_synonym symbol_name = "u8 list"

record format_symbol =
  sy_index :: u32
  sy_type :: u8
  sy_name :: symbol_name

record format_fun_info =
  fi_fun_index :: u32
  fi_eval_strategy :: u8
  fi_eval_strategy_mask :: u8

text \<open>A program; \<open>pg_data\<close> are the objects with their addresses, in ascending order (the set
  \<open>data_addrs\<close> and what is found at its elements).\<close>

record program =
  pg_flags :: u32
  pg_entry :: u64
  pg_funs :: "format_function list"
  pg_vars :: "format_value list"
  pg_code :: "instruction list"
  pg_data :: "(u32 \<times> format_object) list"
  pg_relocs :: "format_reloc list"
  pg_symbols :: "format_symbol list"
  pg_fun_infos :: "format_fun_info list"
  pg_fun_offset :: u64
  pg_var_offset :: u64

section \<open>Byte order and alignment\<close>

text \<open>\<open>ntohs\<close>, \<open>ntohl\<close> and \<open>ntohll\<close> of what is in memory: the most significant byte comes
  first, on every machine.\<close>

fun from_bytes :: "u8 list \<Rightarrow> 'a::len word" where
  "from_bytes [] = 0"
| "from_bytes (b # bs) = (push_bit (8 * length bs) (ucast b)) OR from_bytes bs"

text \<open>The bytes \<open>p\<close> to \<open>p + n - 1\<close> of the buffer; outside of it the read is undefined.\<close>

definition load_bytes :: "u8 list \<Rightarrow> nat \<Rightarrow> nat \<Rightarrow> ('s, u8 list) m" where
  "load_bytes bs n p = (if p + n \<le> length bs then ret (take n (drop p bs)) else undef)"

definition load_u8 :: "u8 list \<Rightarrow> nat \<Rightarrow> ('s, u8) m" where
  "load_u8 bs p = bindM (load_bytes bs 1 p) (\<lambda>xs. ret (from_bytes xs))"

definition load_u16 :: "u8 list \<Rightarrow> nat \<Rightarrow> ('s, u16) m" where
  "load_u16 bs p = bindM (load_bytes bs 2 p) (\<lambda>xs. ret (from_bytes xs))"

definition load_u32 :: "u8 list \<Rightarrow> nat \<Rightarrow> ('s, u32) m" where
  "load_u32 bs p = bindM (load_bytes bs 4 p) (\<lambda>xs. ret (from_bytes xs))"

definition load_u64 :: "u8 list \<Rightarrow> nat \<Rightarrow> ('s, u64) m" where
  "load_u64 bs p = bindM (load_bytes bs 8 p) (\<lambda>xs. ret (from_bytes xs))"

text \<open>\<open>align\<close> of util.hpp, in \<open>size_t\<close>.\<close>

definition align :: "u64 \<Rightarrow> u64 \<Rightarrow> u64" where
  "align x y = ((x + (y - 1)) div y) * y"

end
