(* ===== verification/Loader.thy ===== *)
theory Loader
  imports Program_File
begin

unbundle bit_operations_syntax

text \<open>
  The loader of program files (vm/impl_loader.cpp). \<open>bs\<close> is the buffer and its length is the
  argument \<open>size\<close>. The state of the functions is \<open>tmp_idx\<close>. Failing is the returned null pointer.
\<close>

type_synonym 'a loader = "(u64, 'a) m"

definition size_of :: "u8 list \<Rightarrow> u64" where
  "size_of bs = of_nat (length bs)"

section \<open>Sections\<close>

text \<open>Skipping a section of the given size, with the three checks; the result is where it begins.\<close>

definition skip_section :: "u8 list \<Rightarrow> u64 \<Rightarrow> nat loader" where
  "skip_section bs n = bindM (reading id) (\<lambda>i.
     seqM (check (\<not> (n \<noteq> 0 \<and> align n 8 = 0)))
    (let j = i + align n 8 in
     seqM (check (\<not> (i OR align n 8) > j))
    (seqM (modify (\<lambda>_. j))
    (seqM (check (\<not> j > size_of bs))
     (ret (unat i))))))"

definition array_section :: "u8 list \<Rightarrow> u64 \<Rightarrow> u64 \<Rightarrow> nat loader" where
  "array_section bs esize count =
     (let n = esize * count in
      seqM (check (n div esize = count)) (skip_section bs n))"

definition load_header :: "u8 list \<Rightarrow> format_header loader" where
  "load_header bs =
     seqM (modify (\<lambda>i. i + align 48 8))
    (bindM (reading id) (\<lambda>i.
     seqM (check (\<not> i > size_of bs))
    (bindM (load_bytes bs 8 0) (\<lambda>magic.
     seqM (check (magic = HEADER_MAGIC))
    (bindM (load_u32 bs 8) (\<lambda>flags.
     bindM (load_u32 bs 12) (\<lambda>entry.
     bindM (load_u32 bs 16) (\<lambda>fun_count.
     bindM (load_u32 bs 20) (\<lambda>var_count.
     bindM (load_u32 bs 24) (\<lambda>code_size.
     bindM (load_u32 bs 28) (\<lambda>data_size.
     bindM (load_u32 bs 32) (\<lambda>reloc_count.
     bindM (load_u32 bs 36) (\<lambda>symbol_count.
     bindM (load_u32 bs 40) (\<lambda>fun_info_count.
     ret \<lparr>fh_flags = flags, fh_entry = entry, fh_fun_count = fun_count, fh_var_count = var_count,
       fh_code_size = code_size, fh_data_size = data_size, fh_reloc_count = reloc_count,
       fh_symbol_count = symbol_count, fh_fun_info_count = fun_info_count\<rparr>))))))))))))))"

section \<open>Functions, variables and code\<close>

text \<open>The sum of the address and the count is computed in \<open>uint32_t\<close>.\<close>

definition load_function :: "u8 list \<Rightarrow> u32 \<Rightarrow> nat \<Rightarrow> format_function loader" where
  "load_function bs code_size p =
     bindM (load_u32 bs p) (\<lambda>addr.
     bindM (load_u32 bs (p + 4)) (\<lambda>arg_count.
     bindM (load_u32 bs (p + 8)) (\<lambda>instr_count.
     seqM (check (\<not> addr \<ge> code_size))
    (let instr_end_addr = addr + instr_count in
     seqM (check (\<not> (addr OR instr_count) > instr_end_addr))
    (seqM (check (\<not> instr_end_addr > code_size))
     (ret \<lparr>ff_addr = addr, ff_arg_count = arg_count, ff_instr_count = instr_count\<rparr>))))))"

definition load_functions :: "u8 list \<Rightarrow> format_header \<Rightarrow> format_function list loader" where
  "load_functions bs hdr = bindM (array_section bs 12 (ucast (fh_fun_count hdr))) (\<lambda>p.
     collectM (\<lambda>i. load_function bs (fh_code_size hdr) (p + 12 * i)) [0..<unat (fh_fun_count hdr)])"

abbreviation (input) VALUE_TYPES :: "u32 set" where "VALUE_TYPES \<equiv> {0, 1, 2}"

definition load_var :: "u8 list \<Rightarrow> nat \<Rightarrow> format_value loader" where
  "load_var bs p =
     bindM (load_u32 bs p) (\<lambda>t.
     bindM (load_u64 bs (p + 8)) (\<lambda>i.
     seqM (check (t \<in> VALUE_TYPES)) (ret \<lparr>fv_type = t, fv_i = i\<rparr>)))"

definition load_vars :: "u8 list \<Rightarrow> format_header \<Rightarrow> format_value list loader" where
  "load_vars bs hdr = bindM (array_section bs 16 (ucast (fh_var_count hdr))) (\<lambda>p.
     collectM (\<lambda>i. load_var bs (p + 16 * i)) [0..<unat (fh_var_count hdr)])"

text \<open>The addresses variables refer to, as elements of a set of \<open>uint32_t\<close>.\<close>

definition var_addrs :: "format_value list \<Rightarrow> u32 list" where
  "var_addrs vars = map (\<lambda>v. ucast (fv_i v)) (filter (\<lambda>v. fv_type v = 2) vars)"

definition load_instr :: "u8 list \<Rightarrow> nat \<Rightarrow> instruction loader" where
  "load_instr bs p =
     bindM (load_u32 bs p) (\<lambda>oc.
     bindM (load_u32 bs (p + 4)) (\<lambda>a1.
     bindM (load_u32 bs (p + 8)) (\<lambda>a2.
     ret \<lparr>i_opcode = oc, i_arg1 = a1, i_arg2 = a2\<rparr>)))"

definition load_code :: "u8 list \<Rightarrow> format_header \<Rightarrow> instruction list loader" where
  "load_code bs hdr = bindM (array_section bs 12 (ucast (fh_code_size hdr))) (\<lambda>p.
     collectM (\<lambda>i. load_instr bs (p + 12 * i)) [0..<unat (fh_code_size hdr)])"

section \<open>Objects\<close>

definition elem_size_of_type :: "u32 \<Rightarrow> u64 option" where
  "elem_size_of_type t = (let k = sint t in
     if k = OBJECT_TYPE_IARRAY8 then Some 1
     else if k = OBJECT_TYPE_IARRAY16 then Some 2
     else if k = OBJECT_TYPE_IARRAY32 then Some 4
     else if k = OBJECT_TYPE_IARRAY64 then Some 8
     else if k = OBJECT_TYPE_SFARRAY then Some 4
     else if k = OBJECT_TYPE_DFARRAY then Some 8
     else if k = OBJECT_TYPE_RARRAY then Some 4
     else if k = OBJECT_TYPE_TUPLE then Some 9
     else None)"

definition load_tuple_elem :: "u8 list \<Rightarrow> nat \<Rightarrow> nat \<Rightarrow> nat \<Rightarrow> (u64 \<times> u8) loader" where
  "load_tuple_elem bs p n j =
     bindM (load_u64 bs (p + 8 * j)) (\<lambda>x.
     bindM (load_u8 bs (p + 8 * n + j)) (\<lambda>t.
     seqM (check (t = 0 \<or> t = 1 \<or> t = 2)) (ret (x, t))))"

text \<open>The elements, from the pointer \<open>p\<close>.\<close>

definition load_elems :: "u8 list \<Rightarrow> u32 \<Rightarrow> nat \<Rightarrow> nat \<Rightarrow> format_object loader" where
  "load_elems bs t n p = (let k = sint t in
     if k = OBJECT_TYPE_IARRAY8 then bindM (load_bytes bs n p) (\<lambda>xs. ret (FIArray8 xs))
     else if k = OBJECT_TYPE_IARRAY16 then bindM (collectM (\<lambda>j. load_u16 bs (p + 2 * j)) [0..<n]) (\<lambda>xs. ret (FIArray16 xs))
     else if k = OBJECT_TYPE_IARRAY32 then bindM (collectM (\<lambda>j. load_u32 bs (p + 4 * j)) [0..<n]) (\<lambda>xs. ret (FIArray32 xs))
     else if k = OBJECT_TYPE_IARRAY64 then bindM (collectM (\<lambda>j. load_u64 bs (p + 8 * j)) [0..<n]) (\<lambda>xs. ret (FIArray64 xs))
     else if k = OBJECT_TYPE_SFARRAY then bindM (collectM (\<lambda>j. load_u32 bs (p + 4 * j)) [0..<n]) (\<lambda>xs. ret (FSFArray xs))
     else if k = OBJECT_TYPE_DFARRAY then bindM (collectM (\<lambda>j. load_u64 bs (p + 8 * j)) [0..<n]) (\<lambda>xs. ret (FDFArray xs))
     else if k = OBJECT_TYPE_RARRAY then bindM (collectM (\<lambda>j. load_u32 bs (p + 4 * j)) [0..<n]) (\<lambda>xs. ret (FRArray xs))
     else if k = OBJECT_TYPE_TUPLE then bindM (collectM (load_tuple_elem bs p n) [0..<n]) (\<lambda>xs. ret (FTuple xs))
     else fail)"

text \<open>The object at the index \<open>i\<close> of the data, which begin at \<open>base\<close>, and the index of the next.\<close>

definition load_object :: "u8 list \<Rightarrow> nat \<Rightarrow> u64 \<Rightarrow> u64 \<Rightarrow> (format_object \<times> u64) loader" where
  "load_object bs base data_size i =
     (let p = base + unat i in
      bindM (load_u32 bs p) (\<lambda>t.
      bindM (load_u32 bs (p + 4)) (\<lambda>n.
      let i1 = i + 8 in
      seqM (check (\<not> (i OR 8) > i1))
     (case elem_size_of_type t of
        None \<Rightarrow> fail
      | Some esize \<Rightarrow>
          let elem_array_size = ucast n * esize in
          seqM (check (elem_array_size div esize = ucast n))
         (let i2 = i1 + elem_array_size in
          seqM (check (\<not> (i1 OR elem_array_size) > i2))
         (seqM (check (\<not> i2 > data_size))
         (bindM (load_elems bs t (unat n) (p + 8)) (\<lambda>ob.
          seqM (check (\<not> (i2 \<noteq> 0 \<and> align i2 8 = 0)))
          (ret (ob, align i2 8))))))))))"

fun load_objects :: "u8 list \<Rightarrow> nat \<Rightarrow> u64 \<Rightarrow> nat \<Rightarrow> u64 \<Rightarrow> (u32 \<times> format_object) list loader" where
  "load_objects bs base data_size 0 i = nofuel"
| "load_objects bs base data_size (Suc k) i =
     (if i < data_size
      then bindM (load_object bs base data_size i) (\<lambda>(ob, i').
        bindM (load_objects bs base data_size k i') (\<lambda>obs. ret ((ucast i, ob) # obs)))
      else ret [])"

text \<open>Every address a variable refers to must be the address of an object.\<close>

definition load_data :: "u8 list \<Rightarrow> format_header \<Rightarrow> format_value list \<Rightarrow> (u32 \<times> format_object) list loader" where
  "load_data bs hdr vars =
     (let data_size = ucast (fh_data_size hdr) in
      bindM (skip_section bs data_size) (\<lambda>base.
      bindM (load_objects bs base data_size (Suc (length bs)) 0) (\<lambda>obs.
      seqM (check (filter (\<lambda>a. a \<notin> fst ` set obs) (var_addrs vars) = []))
      (ret obs))))"

section \<open>Relocations and symbols\<close>

definition reloc_type_ok :: "u32 \<Rightarrow> u32 \<Rightarrow> bool" where
  "reloc_type_ok flags t \<longleftrightarrow>
     (let k = t AND NOT RELOC_TYPE_SYMBOLIC in
      k = RELOC_TYPE_ARG1_FUN \<or> k = RELOC_TYPE_ARG2_FUN \<or> k = RELOC_TYPE_ARG1_VAR \<or> k = RELOC_TYPE_ARG2_VAR \<or>
      k = RELOC_TYPE_ELEM_FUN \<or> k = RELOC_TYPE_VAR_FUN) \<or>
     (flags AND HEADER_FLAG_NATIVE_FUN_SYMBOLS \<noteq> 0 \<and>
      (t = RELOC_TYPE_ARG1_NATIVE_FUN OR RELOC_TYPE_SYMBOLIC \<or> t = RELOC_TYPE_ARG2_NATIVE_FUN OR RELOC_TYPE_SYMBOLIC \<or>
       t = RELOC_TYPE_ELEM_NATIVE_FUN OR RELOC_TYPE_SYMBOLIC \<or> t = RELOC_TYPE_VAR_NATIVE_FUN OR RELOC_TYPE_SYMBOLIC))"

definition load_reloc :: "u8 list \<Rightarrow> u32 \<Rightarrow> nat \<Rightarrow> format_reloc loader" where
  "load_reloc bs flags p =
     bindM (load_u32 bs p) (\<lambda>t.
     bindM (load_u32 bs (p + 4)) (\<lambda>addr.
     bindM (load_u32 bs (p + 8)) (\<lambda>sym.
     seqM (check (reloc_type_ok flags t))
     (ret \<lparr>rl_type = t, rl_addr = addr, rl_symbol = sym\<rparr>))))"

definition is_symbolic :: "format_reloc \<Rightarrow> bool" where
  "is_symbolic r \<longleftrightarrow> rl_type r AND RELOC_TYPE_SYMBOLIC \<noteq> 0"

definition load_relocs :: "u8 list \<Rightarrow> format_header \<Rightarrow> format_reloc list loader" where
  "load_relocs bs hdr = bindM (array_section bs 12 (ucast (fh_reloc_count hdr))) (\<lambda>p.
     collectM (\<lambda>i. load_reloc bs (fh_flags hdr) (p + 12 * i)) [0..<unat (fh_reloc_count hdr)])"

definition symbol_type_ok :: "u32 \<Rightarrow> u8 \<Rightarrow> bool" where
  "symbol_type_ok flags t \<longleftrightarrow>
     (let k = t AND NOT SYMBOL_TYPE_DEFINED in k = SYMBOL_TYPE_FUN \<or> k = SYMBOL_TYPE_VAR) \<or>
     (flags AND HEADER_FLAG_NATIVE_FUN_SYMBOLS \<noteq> 0 \<and> t = SYMBOL_TYPE_NATIVE_FUN)"

text \<open>One symbol at the index \<open>i\<close> of the symbols, which begin at \<open>base\<close>; \<open>final\<close> says that
  no symbol follows, so that the file need not be padded after it. The result has the next index.\<close>

definition load_symbol :: "u8 list \<Rightarrow> u32 \<Rightarrow> nat \<Rightarrow> bool \<Rightarrow> u64 \<Rightarrow> (format_symbol \<times> u64) loader" where
  "load_symbol bs flags base final i =
     bindM (reading id) (\<lambda>tmp_idx.
     let p = base + unat i in
     seqM (check (\<not> tmp_idx + 7 > size_of bs))
    (bindM (load_u8 bs (p + 6)) (\<lambda>t.
     seqM (check (symbol_type_ok flags t))
    (bindM (load_u32 bs p) (\<lambda>index.
     bindM (load_u16 bs (p + 4)) (\<lambda>len.
     let symbol_size = 7 + ucast len in
     seqM (check (\<not> (7 OR ucast len) > symbol_size))
    (seqM (check (\<not> (\<not> final \<and> symbol_size \<noteq> 0 \<and> align symbol_size 8 = 0)))
    (let tmp_symbol_size = (if final then symbol_size else align symbol_size 8);
         tmp_idx2 = tmp_idx + tmp_symbol_size in
     seqM (check (\<not> (tmp_idx OR tmp_symbol_size) > tmp_idx2))
    (seqM (modify (\<lambda>_. tmp_idx2))
    (seqM (check (\<not> tmp_idx2 > size_of bs))
    (seqM (check (\<not> (symbol_size \<noteq> 0 \<and> align symbol_size 8 = 0)))
    (let tmp_i = i + align symbol_size 8 in
     seqM (check (\<not> (i OR align symbol_size 8) > tmp_i))
    (bindM (load_bytes bs (unat len) (p + 7)) (\<lambda>name.
     ret (\<lparr>sy_index = index, sy_type = t, sy_name = name\<rparr>, tmp_i)))))))))))))))"

primrec load_symbols :: "u8 list \<Rightarrow> u32 \<Rightarrow> nat \<Rightarrow> nat \<Rightarrow> u64 \<Rightarrow> format_symbol list loader" where
  "load_symbols bs flags base 0 i = ret []"
| "load_symbols bs flags base (Suc n) i =
     bindM (load_symbol bs flags base (n = 0) i) (\<lambda>(sym, i').
     bindM (load_symbols bs flags base n i') (\<lambda>syms. ret (sym # syms)))"

text \<open>Every symbol a relocation names must exist.\<close>

definition load_relocs_and_symbols :: "u8 list \<Rightarrow> format_header \<Rightarrow> (format_reloc list \<times> format_symbol list) loader" where
  "load_relocs_and_symbols bs hdr =
     (if fh_flags hdr AND HEADER_FLAG_RELOCATABLE \<noteq> 0
      then bindM (load_relocs bs hdr) (\<lambda>relocs.
        bindM (reading unat) (\<lambda>base.
        bindM (load_symbols bs (fh_flags hdr) base (unat (fh_symbol_count hdr)) 0) (\<lambda>symbols.
        bindM (reading id) (\<lambda>i.
        seqM (check (\<not> i > size_of bs))
       (seqM (check (filter (\<lambda>r. is_symbolic r \<and> unat (rl_symbol r) \<ge> length symbols) relocs = []))
        (ret (relocs, symbols)))))))
      else ret ([], []))"

section \<open>Function information and the program\<close>

definition load_fun_info :: "u8 list \<Rightarrow> u32 \<Rightarrow> nat \<Rightarrow> format_fun_info loader" where
  "load_fun_info bs fun_count p =
     bindM (load_u32 bs p) (\<lambda>i.
     seqM (check (\<not> i \<ge> fun_count))
    (bindM (load_u8 bs (p + 4)) (\<lambda>s.
     bindM (load_u8 bs (p + 5)) (\<lambda>k.
     ret \<lparr>fi_fun_index = i, fi_eval_strategy = s, fi_eval_strategy_mask = k\<rparr>))))"

definition load_fun_infos :: "u8 list \<Rightarrow> format_header \<Rightarrow> format_fun_info list loader" where
  "load_fun_infos bs hdr =
     (if fh_flags hdr AND HEADER_FLAG_FUN_INFOS \<noteq> 0
      then bindM (reading id) (\<lambda>i.
        seqM (check (\<not> (i \<noteq> 0 \<and> align i 8 = 0)))
       (seqM (modify (\<lambda>i. align i 8))
       (bindM (array_section bs 12 (ucast (fh_fun_info_count hdr))) (\<lambda>p.
        collectM (\<lambda>i. load_fun_info bs (fh_fun_count hdr) (p + 12 * i)) [0..<unat (fh_fun_info_count hdr)]))))
      else ret [])"

definition load_program :: "u8 list \<Rightarrow> program loader" where
  "load_program bs =
     bindM (load_header bs) (\<lambda>hdr.
     bindM (load_functions bs hdr) (\<lambda>funs.
     bindM (load_vars bs hdr) (\<lambda>vars.
     bindM (load_code bs hdr) (\<lambda>code.
     bindM (load_data bs hdr vars) (\<lambda>data.
     bindM (load_relocs_and_symbols bs hdr) (\<lambda>(relocs, symbols).
     bindM (load_fun_infos bs hdr) (\<lambda>fun_infos.
     ret \<lparr>pg_flags = fh_flags hdr, pg_entry = ucast (fh_entry hdr), pg_funs = funs, pg_vars = vars,
       pg_code = code, pg_data = data, pg_relocs = relocs, pg_symbols = symbols,
       pg_fun_infos = fun_infos, pg_fun_offset = 0, pg_var_offset = 0\<rparr>)))))))"

text \<open>\<open>ImplLoader::load\<close>.\<close>

definition load :: "u8 list \<Rightarrow> program outcome" where
  "load bs = fst (load_program bs 0)"

end
