(* ===== verification/Loader_Safe.thy ===== *)
theory Loader_Safe
  imports Loader Weakest_Pre
begin

unbundle bit_operations_syntax

text \<open>
  The loader never reads outside of the buffer and always ends, whatever bytes it is given, and every
  program it accepts has the properties that relocating, linking and running it rely on.
\<close>

section \<open>Reads\<close>

lemma wp_load_bytes [wp_rules]:
  "wp (load_bytes bs n p) Q = (\<lambda>s. p + n \<le> length bs \<and> Q (take n (drop p bs)) s)"
  by (simp add: wp_def run load_bytes_def fun_eq_iff)

text \<open>A read of a word inside the buffer.\<close>

lemma wp_load_u8 [wp_rules]:
  "wp (load_u8 bs p) Q = (\<lambda>s. p + 1 \<le> length bs \<and> Q (from_bytes (take 1 (drop p bs))) s)"
  by (simp add: load_u8_def wp_rules)

lemma wp_load_u16 [wp_rules]:
  "wp (load_u16 bs p) Q = (\<lambda>s. p + 2 \<le> length bs \<and> Q (from_bytes (take 2 (drop p bs))) s)"
  by (simp add: load_u16_def wp_rules)

lemma wp_load_u32 [wp_rules]:
  "wp (load_u32 bs p) Q = (\<lambda>s. p + 4 \<le> length bs \<and> Q (from_bytes (take 4 (drop p bs))) s)"
  by (simp add: load_u32_def wp_rules)

lemma wp_load_u64 [wp_rules]:
  "wp (load_u64 bs p) Q = (\<lambda>s. p + 8 \<le> length bs \<and> Q (from_bytes (take 8 (drop p bs))) s)"
  by (simp add: load_u64_def wp_rules)

section \<open>Alignment and sections\<close>

lemma unat_u64_of_u32 [simp]: "unat (ucast (x :: u32) :: u64) = unat x"
  using unsigned_less [of x, where 'a = nat] by (simp add: unsigned_ucast_eq take_bit_nat_eq_self)

lemma unat_u64_of_u16 [simp]: "unat (ucast (x :: u16) :: u64) = unat x"
  using unsigned_less [of x, where 'a = nat] by (simp add: unsigned_ucast_eq take_bit_nat_eq_self)

definition up8 :: "nat \<Rightarrow> nat" where
  "up8 n = (n + 7) div 8 * 8"

lemma up8_le: "n \<le> up8 n" unfolding up8_def by presburger
lemma up8_dvd: "8 dvd up8 n" unfolding up8_def by simp
lemma up8_id: "8 dvd n \<Longrightarrow> up8 n = n" unfolding up8_def by presburger
lemma up8_mono: "m \<le> n \<Longrightarrow> up8 m \<le> up8 n"
  unfolding up8_def by (intro mult_le_mono div_le_mono) simp_all

lemma align_exact:
  assumes "\<not> (n \<noteq> 0 \<and> align n 8 = 0)"
  shows "unat (align n 8) = up8 (unat n)"
proof (cases "unat n + 7 < 2 ^ 64")
  case True
  then have 1: "unat (n + 7) = unat n + 7" by (simp add: unat_word_ariths)
  have "(unat n + 7) div 8 * 8 < 2 ^ 64" using True by presburger
  then show ?thesis using 1 by (simp add: align_def up8_def unat_word_ariths unat_div)
next
  case False
  moreover have "unat n < 2 ^ 64" using unsigned_less [of n, where 'a = nat] by simp
  ultimately have "(unat n + 7) mod 2 ^ 64 = (unat n + 7 - 2 ^ 64) mod 2 ^ 64" "unat n + 7 - 2 ^ 64 < 8"
    by (simp_all add: le_mod_geq)
  then have "(unat n + 7) mod 2 ^ 64 < 8" by (metis mod_less_eq_dividend order_le_less_trans)
  then have "unat (n + 7) < 8" by (simp add: unat_word_ariths)
  then have "align n 8 = 0" by (simp add: align_def word_unat_eq_iff unat_word_ariths unat_div)
  moreover have "n \<noteq> 0" using False by (auto simp: word_unat_eq_iff)
  ultimately show ?thesis using assms by blast
qed

lemma sum_check:
  fixes a b :: u64
  shows "\<not> (a OR b) > a + b \<Longrightarrow> unat (a + b) = unat a + unat b"
  using add_check [of a b] by (simp add: unat_word_ariths)

lemma size_of_le: "length bs < 2 ^ 63 \<Longrightarrow> \<not> j > size_of bs \<Longrightarrow> unat j \<le> length bs"
  by (simp add: size_of_def word_le_nat_alt not_less)

lemma wp_skip_section:
  assumes L: "length bs < 2 ^ 63"
    and Q: "\<And>t. unat t = unat s + up8 (unat n) \<Longrightarrow> unat t \<le> length bs \<Longrightarrow> Q (unat s) t"
  shows "wp (skip_section bs n) Q s"
proof -
  have "Q (unat s) (s + align n 8)"
    if "\<not> (n \<noteq> 0 \<and> align n 8 = 0)" "\<not> (s OR align n 8) > s + align n 8" "\<not> s + align n 8 > size_of bs"
    using Q [of "s + align n 8"] align_exact [OF that(1)] sum_check [OF that(2)] size_of_le [OF L that(3)]
    by simp
  then show ?thesis unfolding skip_section_def by (auto simp: wp_rules Let_def)
qed

lemma wp_array_section:
  assumes L: "length bs < 2 ^ 63" and e: "e \<noteq> 0"
    and Q: "\<And>t. unat t = unat s + up8 (unat e * unat n) \<Longrightarrow> unat t \<le> length bs \<Longrightarrow> Q (unat s) t"
  shows "wp (array_section bs e n) Q s"
proof -
  have "unat (e * n) = unat e * unat n" if "(e * n) div e = n"
    using that mul_check [OF e, of n] by (simp add: unat_word_ariths mult.commute)
  then show ?thesis using Q unfolding array_section_def
    by (auto simp: wp_rules Let_def intro!: wp_skip_section [OF L])
qed

text \<open>The entry \<open>i\<close> of an array of \<open>n\<close> entries of \<open>e\<close> bytes inside the buffer.\<close>

lemma entry_within:
  assumes "base + up8 (e * n) \<le> len" "i < n"
  shows "base + e * i + e \<le> len"
proof -
  have "e * (i + 1) \<le> e * n" using assms(2) by (intro mult_le_mono) auto
  then show ?thesis using assms(1) up8_le [of "e * n"] by (simp add: algebra_simps)
qed

section \<open>Well-formed programs\<close>

text \<open>The number of bytes of the elements, and the types of the elements of a tuple.\<close>

fun elems_size :: "format_object \<Rightarrow> nat" where
  "elems_size (FIArray8 xs) = length xs"
| "elems_size (FIArray16 xs) = 2 * length xs"
| "elems_size (FIArray32 xs) = 4 * length xs"
| "elems_size (FIArray64 xs) = 8 * length xs"
| "elems_size (FSFArray xs) = 4 * length xs"
| "elems_size (FDFArray xs) = 8 * length xs"
| "elems_size (FRArray xs) = 4 * length xs"
| "elems_size (FTuple xs) = 9 * length xs"

fun elem_types_ok :: "format_object \<Rightarrow> bool" where
  "elem_types_ok (FTuple xs) \<longleftrightarrow> (\<forall>x\<in>set xs. snd x \<in> {0, 1, 2})"
| "elem_types_ok _ \<longleftrightarrow> True"

text \<open>The objects do not overlap: each one begins, aligned, behind the elements of the one before, and
  ends before \<open>hi\<close>.\<close>

fun objects_apart :: "nat \<Rightarrow> nat \<Rightarrow> (u32 \<times> format_object) list \<Rightarrow> bool" where
  "objects_apart lo hi [] \<longleftrightarrow> True"
| "objects_apart lo hi ((a, ob) # obs) \<longleftrightarrow>
     lo \<le> unat a \<and> 8 dvd unat a \<and> elem_types_ok ob \<and> unat a + 8 + elems_size ob \<le> hi \<and>
     objects_apart (unat a + 8 + elems_size ob) hi obs"

definition program_ok :: "program \<Rightarrow> bool" where
  "program_ok p \<longleftrightarrow>
     (\<forall>f\<in>set (pg_funs p). unat (ff_addr f) < length (pg_code p) \<and>
        unat (ff_addr f) + unat (ff_instr_count f) \<le> length (pg_code p)) \<and>
     (\<forall>v\<in>set (pg_vars p). fv_type v \<in> VALUE_TYPES \<and> (fv_type v = 2 \<longrightarrow> ucast (fv_i v) \<in> fst ` set (pg_data p))) \<and>
     (\<exists>hi < 2 ^ 32. objects_apart 0 hi (pg_data p)) \<and>
     (\<forall>r\<in>set (pg_relocs p). reloc_type_ok (pg_flags p) (rl_type r) \<and>
        (is_symbolic r \<longrightarrow> unat (rl_symbol r) < length (pg_symbols p))) \<and>
     (\<forall>y\<in>set (pg_symbols p). symbol_type_ok (pg_flags p) (sy_type y)) \<and>
     (\<forall>i\<in>set (pg_fun_infos p). unat (fi_fun_index i) < length (pg_funs p)) \<and>
     length (pg_funs p) < 2 ^ 32 \<and> length (pg_vars p) < 2 ^ 32 \<and> length (pg_code p) < 2 ^ 32"

section \<open>The parts of the file\<close>

definition cursor :: "u8 list \<Rightarrow> u64 \<Rightarrow> bool" where
  "cursor bs t \<longleftrightarrow> unat t \<le> length bs \<and> 8 dvd unat t"

lemma cursor_section: "8 dvd unat s \<Longrightarrow> unat t = unat s + up8 n \<Longrightarrow> unat t \<le> length bs \<Longrightarrow> cursor bs t"
  by (simp add: cursor_def up8_dvd)

lemma cursorD: "cursor bs s \<Longrightarrow> 8 dvd unat s"
  by (simp add: cursor_def)

lemma wp_load_header:
  assumes L: "length bs < 2 ^ 63" and Q: "\<And>hdr t. cursor bs t \<Longrightarrow> Q hdr t"
  shows "wp (load_header bs) Q 0"
proof -
  have a: "align 48 8 = 48" by (simp add: align_def)
  have "48 \<le> length bs" if "\<not> (48 :: u64) > size_of bs" using size_of_le [OF L that] by simp
  then show ?thesis using Q by (auto simp: load_header_def wp_rules a cursor_def)
qed

text \<open>A section that is an array: every entry is read by \<open>f\<close> at its address.\<close>

lemma wp_array:
  assumes L: "length bs < 2 ^ 63" and s: "8 dvd unat s" and e: "0 < e" "e < 2 ^ 32"
    and f: "\<And>p t. p + e \<le> length bs \<Longrightarrow> wp (f p) (\<lambda>x t'. t' = t \<and> R x) t"
    and Q: "\<And>xs t. cursor bs t \<Longrightarrow> length xs = unat n \<Longrightarrow> \<forall>x\<in>set xs. R x \<Longrightarrow> Q xs t"
  shows "wp (bindM (array_section bs (of_nat e) (ucast (n :: u32))) (\<lambda>p. collectM (\<lambda>i. f (p + e * i)) [0..<unat n])) Q s"
  unfolding wp_bindM
proof (rule wp_array_section [OF L])
  show "of_nat e \<noteq> (0 :: u64)" using e by (simp add: word_unat_eq_iff unat_of_nat)
  fix t :: u64 assume t: "unat t = unat s + up8 (unat (of_nat e :: u64) * unat (ucast n :: u64))" "unat t \<le> length bs"
  have "unat (of_nat e :: u64) = e" using e by simp
  then have t': "unat t = unat s + up8 (e * unat n)" using t by simp
  show "wp (collectM (\<lambda>i. f (unat s + e * i)) [0..<unat n]) Q t"
  proof (rule wp_collectM)
    fix i assume "i \<in> set [0..<unat n]"
    then show "wp (f (unat s + e * i)) (\<lambda>x t'. t' = t \<and> R x) t"
      using t(2) t' by (intro f entry_within [of _ _ "unat n"]) simp_all
  next
    fix xs assume "list_all2 (\<lambda>i. R) [0..<unat n] xs"
    then show "Q xs t" using cursor_section [OF s t' t(2)]
      by (intro Q) (auto simp: list_all2_upt in_set_conv_nth)
  qed
qed

definition function_ok :: "u32 \<Rightarrow> format_function \<Rightarrow> bool" where
  "function_ok n f \<longleftrightarrow> unat (ff_addr f) < unat n \<and> unat (ff_addr f) + unat (ff_instr_count f) \<le> unat n"

lemma wp_load_function:
  assumes "p + 12 \<le> length bs"
  shows "wp (load_function bs n p) (\<lambda>f t. t = s \<and> function_ok n f) s"
proof -
  have "unat a + unat c \<le> unat n" if "\<not> (a OR c) > a + c" "\<not> a + c > n" for a c :: u32
    using that add_check [of a c] by (simp add: word_le_nat_alt not_less unat_word_ariths)
  then show ?thesis using assms
    by (auto simp: load_function_def wp_rules Let_def function_ok_def word_le_nat_alt not_le)
qed

lemma wp_load_functions:
  assumes "length bs < 2 ^ 63" "cursor bs s"
    and "\<And>funs t. cursor bs t \<Longrightarrow> length funs = unat (fh_fun_count hdr) \<Longrightarrow>
      \<forall>f\<in>set funs. function_ok (fh_code_size hdr) f \<Longrightarrow> Q funs t"
  shows "wp (load_functions bs hdr) Q s"
  unfolding load_functions_def
  using wp_array [OF assms(1) cursorD [OF assms(2)], of 12 "load_function bs (fh_code_size hdr)", OF _ _ wp_load_function] assms(3)
  by simp

lemma wp_load_vars:
  assumes "length bs < 2 ^ 63" "cursor bs s"
    and "\<And>vars t. cursor bs t \<Longrightarrow> length vars = unat (fh_var_count hdr) \<Longrightarrow>
      \<forall>v\<in>set vars. fv_type v \<in> VALUE_TYPES \<Longrightarrow> Q vars t"
  shows "wp (load_vars bs hdr) Q s"
proof -
  have "wp (load_var bs p) (\<lambda>v t. t = s \<and> fv_type v \<in> VALUE_TYPES) s" if "p + 16 \<le> length bs" for p s
    using that by (simp add: load_var_def wp_rules)
  from wp_array [OF assms(1) cursorD [OF assms(2)], of 16 "load_var bs" "\<lambda>v. fv_type v \<in> VALUE_TYPES", OF _ _ this] show ?thesis
    unfolding load_vars_def using assms(3) by simp
qed

lemma wp_load_code:
  assumes "length bs < 2 ^ 63" "cursor bs s"
    and "\<And>code t. cursor bs t \<Longrightarrow> length code = unat (fh_code_size hdr) \<Longrightarrow> Q code t"
  shows "wp (load_code bs hdr) Q s"
proof -
  have "wp (load_instr bs p) (\<lambda>v t. t = s \<and> True) s" if "p + 12 \<le> length bs" for p s
    using that by (simp add: load_instr_def wp_rules)
  from wp_array [OF assms(1) cursorD [OF assms(2)], of 12 "load_instr bs" "\<lambda>_. True", OF _ _ this] show ?thesis
    unfolding load_code_def using assms(3) by simp
qed

section \<open>The objects\<close>

lemma wp_words:
  fixes g :: "nat \<Rightarrow> ('s, 'a) m"
  assumes "\<And>q. q + w \<le> length bs \<Longrightarrow> wp (g q) (\<lambda>x t. t = s) s" "p + w * n \<le> length bs"
    and "\<And>xs. length xs = n \<Longrightarrow> Q xs s"
  shows "wp (collectM (\<lambda>j. g (p + w * j)) [0..<n]) Q s"
proof (rule wp_collectM)
  fix j assume "j \<in> set [0..<n]"
  then have "w * (j + 1) \<le> w * n" by (intro mult_le_mono) auto
  then show "wp (g (p + w * j)) (\<lambda>x t. t = s \<and> True) s"
    using assms(1) [of "p + w * j"] assms(2) by (simp add: algebra_simps)
next
  fix xs :: "'a list" assume "list_all2 (\<lambda>j x. True) [0..<n] xs"
  then show "Q xs s" by (intro assms(3)) (simp add: list_all2_upt)
qed

lemma wp_tuple_elems:
  assumes "p + 9 * n \<le> length bs"
    and "\<And>xs. length xs = n \<Longrightarrow> \<forall>x\<in>set xs. snd x \<in> {0, 1, 2} \<Longrightarrow> Q xs s"
  shows "wp (collectM (load_tuple_elem bs p n) [0..<n]) Q s"
proof (rule wp_collectM [where R = "\<lambda>_ x. snd x \<in> {0, 1, 2}"])
  fix j assume "j \<in> set [0..<n]"
  then show "wp (load_tuple_elem bs p n j) (\<lambda>x t. t = s \<and> snd x \<in> {0, 1, 2}) s"
    using assms(1) by (auto simp: load_tuple_elem_def wp_rules)
next
  fix xs assume "list_all2 (\<lambda>j x. snd x \<in> {0, 1, 2}) [0..<n] (xs :: (u64 \<times> u8) list)"
  then show "Q xs s" by (intro assms(2)) (auto simp: list_all2_upt all_set_conv_all_nth)
qed

lemma wp_load_elems:
  assumes "elem_size_of_type t = Some e" "p + unat e * n \<le> length bs"
    and "\<And>ob. elem_types_ok ob \<Longrightarrow> elems_size ob = unat e * n \<Longrightarrow> Q ob s"
  shows "wp (load_elems bs t n p) Q s"
  using assms unfolding elem_size_of_type_def Let_def
  by (auto simp: load_elems_def Let_def wp_rules split: if_splits
      intro!: wp_words wp_tuple_elems)

lemma next_object:
  assumes "8 dvd i" "i < (d :: nat)" shows "i + 8 \<le> up8 d"
  using assms unfolding up8_def by presburger

lemma wp_load_object:
  assumes b: "base + up8 (unat d) \<le> length bs" and i: "8 dvd unat i" "i < d"
    and Q: "\<And>ob i'. elem_types_ok ob \<Longrightarrow> unat i + 8 + elems_size ob \<le> unat d \<Longrightarrow>
      unat i' = up8 (unat i + 8 + elems_size ob) \<Longrightarrow> Q (ob, i') s"
  shows "wp (load_object bs base d i) Q s"
proof -
  have "unat i + 8 \<le> up8 (unat d)" using next_object i by (simp add: word_less_nat_alt)
  then have rd: "base + unat i + 4 \<le> length bs" "base + unat i + 4 + 4 \<le> length bs" using b by simp_all
  show ?thesis unfolding load_object_def Let_def wp_bindM wp_seqM wp_check wp_load_u32
  proof (intro conjI impI rd)
    let ?t = "from_bytes (take 4 (drop (base + unat i) bs)) :: u32"
    let ?n = "from_bytes (take 4 (drop (base + unat i + 4) bs)) :: u32"
    assume c1: "\<not> (i OR 8) > i + 8"
    show "wp (case elem_size_of_type ?t of None \<Rightarrow> fail | Some e \<Rightarrow>
        seqM (check (ucast ?n * e div e = ucast ?n))
       (seqM (check (\<not> ((i + 8) OR ucast ?n * e) > i + 8 + ucast ?n * e))
       (seqM (check (\<not> i + 8 + ucast ?n * e > d))
       (bindM (load_elems bs ?t (unat ?n) (base + unat i + 8)) (\<lambda>ob.
        seqM (check (\<not> (i + 8 + ucast ?n * e \<noteq> 0 \<and> align (i + 8 + ucast ?n * e) 8 = 0)))
        (ret (ob, align (i + 8 + ucast ?n * e) 8))))))) Q s"
    proof (cases "elem_size_of_type ?t")
      case (Some e)
      let ?i2 = "i + 8 + ucast ?n * e"
      have "wp (load_elems bs ?t (unat ?n) (base + unat i + 8))
          (\<lambda>ob t. \<not> (?i2 \<noteq> 0 \<and> align ?i2 8 = 0) \<longrightarrow> Q (ob, align ?i2 8) t) s"
        if c: "ucast ?n * e div e = ucast ?n" "\<not> ((i + 8) OR ucast ?n * e) > ?i2" "\<not> ?i2 > d"
      proof (rule wp_load_elems [OF Some])
        have e0: "e \<noteq> 0" using Some by (auto simp: elem_size_of_type_def Let_def split: if_splits)
        have "unat (ucast ?n * e) = unat e * unat ?n"
          using c(1) mul_check [OF e0, of "ucast ?n"] by (simp add: unat_word_ariths mult.commute)
        then have u: "unat ?i2 = unat i + 8 + unat e * unat ?n"
          using sum_check [OF c1] sum_check [OF c(2)] by simp
        have le: "unat ?i2 \<le> unat d" using c(3) by (simp add: word_le_nat_alt not_less)
        then show "base + unat i + 8 + unat e * unat ?n \<le> length bs"
          using u b up8_le [of "unat d"] by simp
        show "\<not> (?i2 \<noteq> 0 \<and> align ?i2 8 = 0) \<longrightarrow> Q (ob, align ?i2 8) s"
          if "elem_types_ok ob" "elems_size ob = unat e * unat ?n" for ob
          using that u le align_exact [of ?i2] by (intro impI Q) simp_all
      qed
      then show ?thesis by (simp only: Some option.simps wp_rules) blast
    qed (simp add: wp_rules)
  qed
qed

lemma wp_load_objects:
  assumes "base + up8 (unat d) \<le> length bs" "unat d < 2 ^ 32" "8 dvd unat i" "unat d - unat i < k"
    and "\<And>obs. objects_apart (unat i) (unat d) obs \<Longrightarrow> Q obs s"
  shows "wp (load_objects bs base d k i) Q s"
  using assms(3-5)
proof (induction k arbitrary: i Q)
  case (Suc k)
  show ?case
  proof (cases "i < d")
    case True
    have "wp (load_object bs base d i) (\<lambda>(ob, i'). wp (bindM (load_objects bs base d k i')
        (\<lambda>obs. ret ((ucast i, ob) # obs))) Q) s"
    proof (rule wp_load_object [OF assms(1) Suc.prems(1) True])
      fix ob and i' :: u64 assume ob: "elem_types_ok ob" "unat i + 8 + elems_size ob \<le> unat d"
        "unat i' = up8 (unat i + 8 + elems_size ob)"
      have i: "unat (ucast i :: u32) = unat i"
        using True assms(2) by (simp add: unsigned_ucast_eq take_bit_nat_eq_self word_less_nat_alt)
      have ge: "unat i + 8 + elems_size ob \<le> unat i'" using ob(3) up8_le by simp
      have "wp (load_objects bs base d k i') (\<lambda>obs. Q ((ucast i, ob) # obs)) s"
      proof (rule Suc.IH)
        show "8 dvd unat i'" using ob(3) up8_dvd by simp
        show "unat d - unat i' < k" using ge Suc.prems(2) True by (simp add: word_less_nat_alt)
        fix obs assume a: "objects_apart (unat i') (unat d) obs"
        have "objects_apart (unat i + 8 + elems_size ob) (unat d) obs"
          using a ge by (cases obs) auto
        then show "Q ((ucast i, ob) # obs) s" using ob Suc.prems(1) by (intro Suc.prems(3)) (simp add: i)
      qed
      then show "(case (ob, i') of (ob, i') \<Rightarrow> wp (bindM (load_objects bs base d k i')
        (\<lambda>obs. ret ((ucast i, ob) # obs))) Q) s" by (simp add: wp_rules)
    qed
    then show ?thesis using True by (simp add: wp_rules case_prod_beta')
  next
    case False
    then show ?thesis using Suc.prems(3) [of "[]"] by (simp add: wp_rules)
  qed
qed simp

lemma wp_load_data:
  assumes L: "length bs < 2 ^ 63" and s: "cursor bs s"
    and Q: "\<And>obs t hi. cursor bs t \<Longrightarrow> objects_apart 0 (unat (fh_data_size hdr)) obs \<Longrightarrow>
      \<forall>a\<in>set (var_addrs vars). a \<in> fst ` set obs \<Longrightarrow> Q obs t"
  shows "wp (load_data bs hdr vars) Q s"
  unfolding load_data_def Let_def wp_bindM
proof (rule wp_skip_section [OF L])
  fix t :: u64
  assume t: "unat t = unat s + up8 (unat (ucast (fh_data_size hdr) :: u64))" "unat t \<le> length bs"
  show "wp (load_objects bs (unat s) (ucast (fh_data_size hdr)) (Suc (length bs)) 0)
     (\<lambda>obs. wp (seqM (check (filter (\<lambda>a. a \<notin> fst ` set obs) (var_addrs vars) = [])) (ret obs)) Q) t"
  proof (rule wp_load_objects)
    have "up8 (unat (fh_data_size hdr)) \<le> length bs" using t by simp
    then show "unat (ucast (fh_data_size hdr) :: u64) - unat (0 :: u64) < Suc (length bs)"
      using up8_le [of "unat (fh_data_size hdr)"] by simp
    show "unat (ucast (fh_data_size hdr) :: u64) < 2 ^ 32"
      using unsigned_less [of "fh_data_size hdr", where 'a = nat] by simp
    fix obs assume "objects_apart (unat (0 :: u64)) (unat (ucast (fh_data_size hdr) :: u64)) obs"
    then show "wp (seqM (check (filter (\<lambda>a. a \<notin> fst ` set obs) (var_addrs vars) = [])) (ret obs)) Q t"
      using cursor_section [OF cursorD [OF s] t] by (auto simp: wp_rules filter_empty_conv intro!: Q)
  qed (use t in simp_all)
qed

section \<open>Relocations, symbols and function information\<close>

lemma wp_load_relocs:
  assumes "length bs < 2 ^ 63" "cursor bs s"
    and "\<And>rs t. cursor bs t \<Longrightarrow> \<forall>r\<in>set rs. reloc_type_ok (fh_flags hdr) (rl_type r) \<Longrightarrow> Q rs t"
  shows "wp (load_relocs bs hdr) Q s"
proof -
  have "wp (load_reloc bs (fh_flags hdr) p) (\<lambda>r t. t = s \<and> reloc_type_ok (fh_flags hdr) (rl_type r)) s"
    if "p + 12 \<le> length bs" for p s
    using that by (simp add: load_reloc_def wp_rules)
  from wp_array [OF assms(1) cursorD [OF assms(2)], of 12 "load_reloc bs (fh_flags hdr)" "\<lambda>r. reloc_type_ok (fh_flags hdr) (rl_type r)",
      OF _ _ this] show ?thesis
    unfolding load_relocs_def using assms(3) by simp
qed

lemma wp_load_symbol:
  assumes L: "length bs < 2 ^ 63" and s: "unat s = base + unat i" "unat s \<le> length bs"
    and Q: "\<And>sym i' t. symbol_type_ok flags (sy_type sym) \<Longrightarrow> unat t \<le> length bs \<Longrightarrow>
      (\<not> final \<Longrightarrow> unat t = base + unat i') \<Longrightarrow> Q (sym, i') t"
  shows "wp (load_symbol bs flags base final i) Q s"
proof -
  let ?p = "base + unat i"
  let ?len = "from_bytes (take 2 (drop (?p + 4) bs)) :: u16"
  let ?n = "7 + ucast ?len :: u64"
  let ?t = "s + (if final then ?n else align ?n 8)"
  have hdr: "?p + 7 \<le> length bs" if "\<not> s + 7 > size_of bs"
  proof -
    have "unat (s + 7) = unat s + 7" using s(2) L by (simp add: unat_word_ariths)
    then show ?thesis using size_of_le [OF L that] s(1) by simp
  qed
  have n: "unat ?n = 7 + unat ?len"
    using unsigned_less [of ?len, where 'a = nat] by (simp add: unat_word_ariths)
  have fin: "?p + 7 + unat ?len \<le> length bs \<and> unat ?t \<le> length bs \<and>
      (\<not> final \<longrightarrow> unat ?t = base + unat (i + align ?n 8))"
    if "\<not> (s OR (if final then ?n else align ?n 8)) > ?t" "\<not> ?t > size_of bs"
      "\<not> (?n \<noteq> 0 \<and> align ?n 8 = 0)" "\<not> (i OR align ?n 8) > i + align ?n 8"
    using sum_check [OF that(1)] size_of_le [OF L that(2)] align_exact [OF that(3)] sum_check [OF that(4)] n s(1)
      up8_le [of "unat ?n"] by (cases final) simp_all
  show ?thesis unfolding load_symbol_def Let_def wp_rules
    using hdr fin by (intro conjI impI Q) (simp_all add: id_def del: not_less)
qed

lemma wp_load_symbols:
  assumes L: "length bs < 2 ^ 63" and s: "0 < n \<Longrightarrow> unat s = base + unat i" "unat s \<le> length bs"
    and Q: "\<And>syms t. unat t \<le> length bs \<Longrightarrow> length syms = n \<Longrightarrow> \<forall>y\<in>set syms. symbol_type_ok flags (sy_type y) \<Longrightarrow> Q syms t"
  shows "wp (load_symbols bs flags base n i) Q s"
  using s Q
proof (induction n arbitrary: i s Q)
  case (Suc n)
  have "wp (load_symbol bs flags base (n = 0) i) (\<lambda>(sym, i') t. wp (load_symbols bs flags base n i')
      (\<lambda>syms. Q (sym # syms)) t) s"
  proof (rule wp_load_symbol [OF L])
    fix sym :: format_symbol and i' t :: u64
    assume a: "symbol_type_ok flags (sy_type sym)" "unat t \<le> length bs" "\<not> n = 0 \<Longrightarrow> unat t = base + unat i'"
    have "wp (load_symbols bs flags base n i') (\<lambda>syms. Q (sym # syms)) t"
      by (rule Suc.IH) (use a Suc.prems(3) in auto)
    then show "(case (sym, i') of (sym, i') \<Rightarrow> \<lambda>t. wp (load_symbols bs flags base n i') (\<lambda>syms. Q (sym # syms)) t) t"
      by simp
  qed (use Suc.prems in auto)
  then show ?case by (simp add: wp_rules case_prod_beta')
qed (simp add: wp_rules)

lemma wp_load_relocs_and_symbols:
  assumes L: "length bs < 2 ^ 63" and s: "cursor bs s"
    and Q: "\<And>rs syms t. unat t \<le> length bs \<Longrightarrow>
      \<forall>r\<in>set rs. reloc_type_ok (fh_flags hdr) (rl_type r) \<and> (is_symbolic r \<longrightarrow> unat (rl_symbol r) < length syms) \<Longrightarrow>
      \<forall>y\<in>set syms. symbol_type_ok (fh_flags hdr) (sy_type y) \<Longrightarrow> Q (rs, syms) t"
  shows "wp (load_relocs_and_symbols bs hdr) Q s"
proof (cases "fh_flags hdr AND HEADER_FLAG_RELOCATABLE \<noteq> 0")
  case True
  have "wp (load_relocs bs hdr) (\<lambda>rs. wp (bindM (reading unat) (\<lambda>base.
        bindM (load_symbols bs (fh_flags hdr) base (unat (fh_symbol_count hdr)) 0) (\<lambda>symbols.
        bindM (reading id) (\<lambda>i.
        seqM (check (\<not> i > size_of bs))
       (seqM (check (filter (\<lambda>r. is_symbolic r \<and> unat (rl_symbol r) \<ge> length symbols) rs = []))
        (ret (rs, symbols))))))) Q) s"
  proof (rule wp_load_relocs [OF L s])
    fix rs :: "format_reloc list" and t assume t: "cursor bs t" and rs: "\<forall>r\<in>set rs. reloc_type_ok (fh_flags hdr) (rl_type r)"
    have "wp (load_symbols bs (fh_flags hdr) (unat t) (unat (fh_symbol_count hdr)) 0) (\<lambda>symbols u.
        \<not> u > size_of bs \<longrightarrow> filter (\<lambda>r. is_symbolic r \<and> unat (rl_symbol r) \<ge> length symbols) rs = [] \<longrightarrow>
        Q (rs, symbols) u) t"
    proof (rule wp_load_symbols [OF L])
      fix syms :: "format_symbol list" and u :: u64
      assume "unat u \<le> length bs" "\<forall>y\<in>set syms. symbol_type_ok (fh_flags hdr) (sy_type y)"
      then show "\<not> u > size_of bs \<longrightarrow> filter (\<lambda>r. is_symbolic r \<and> unat (rl_symbol r) \<ge> length syms) rs = [] \<longrightarrow>
          Q (rs, syms) u"
        using rs by (auto simp: filter_empty_conv not_le intro!: Q)
    qed (use t in \<open>simp_all add: cursor_def\<close>)
    then show "wp (bindM (reading unat) (\<lambda>base.
        bindM (load_symbols bs (fh_flags hdr) base (unat (fh_symbol_count hdr)) 0) (\<lambda>symbols.
        bindM (reading id) (\<lambda>i.
        seqM (check (\<not> i > size_of bs))
       (seqM (check (filter (\<lambda>r. is_symbolic r \<and> unat (rl_symbol r) \<ge> length symbols) rs = []))
        (ret (rs, symbols))))))) Q t"
      by (simp only: wp_rules id_apply)
  qed
  then show ?thesis unfolding load_relocs_and_symbols_def using True by (simp only: if_True wp_bindM not_False_eq_True)
next
  case False
  then show ?thesis using s by (auto simp: load_relocs_and_symbols_def wp_rules cursor_def intro!: Q)
qed

lemma wp_load_fun_infos:
  assumes L: "length bs < 2 ^ 63"
    and Q: "\<And>is t. \<forall>i\<in>set is. fi_fun_index i < fh_fun_count hdr \<Longrightarrow> Q is t"
  shows "wp (load_fun_infos bs hdr) Q s"
proof -
  have f: "wp (load_fun_info bs (fh_fun_count hdr) p) (\<lambda>i t. t = s \<and> fi_fun_index i < fh_fun_count hdr) s"
    if "p + 12 \<le> length bs" for p s
    using that by (simp add: load_fun_info_def wp_rules not_le)
  have "wp (bindM (array_section bs 12 (ucast (fh_fun_info_count hdr))) (\<lambda>p.
        collectM (\<lambda>i. load_fun_info bs (fh_fun_count hdr) (p + 12 * i)) [0..<unat (fh_fun_info_count hdr)])) Q
      (align s 8)" if "\<not> (s \<noteq> 0 \<and> align s 8 = 0)"
    using wp_array [OF L, of "align s 8" 12 "load_fun_info bs (fh_fun_count hdr)"
        "\<lambda>i. fi_fun_index i < fh_fun_count hdr", OF _ _ _ f] Q
    by (simp add: align_exact [OF that] up8_dvd)
  then show ?thesis using Q by (auto simp: load_fun_infos_def wp_rules)
qed

section \<open>The loader\<close>

lemma wp_load_program:
  assumes L: "length bs < 2 ^ 63"
  shows "wp (load_program bs) (\<lambda>p t. program_ok p) 0"
  unfolding load_program_def wp_bindM
proof (rule wp_load_header [OF L], rule wp_load_functions [OF L], assumption, rule wp_load_vars [OF L], assumption,
    rule wp_load_code [OF L], assumption, rule wp_load_data [OF L], assumption)
  fix hdr :: format_header and funs :: "format_function list" and vars :: "format_value list"
    and code :: "instruction list" and data :: "(u32 \<times> format_object) list" and t
  assume funs: "length funs = unat (fh_fun_count hdr)" "\<forall>f\<in>set funs. function_ok (fh_code_size hdr) f"
    and vars: "length vars = unat (fh_var_count hdr)" "\<forall>v\<in>set vars. fv_type v \<in> VALUE_TYPES"
    and code: "length code = unat (fh_code_size hdr)"
    and data: "cursor bs t" "objects_apart 0 (unat (fh_data_size hdr)) data"
      "\<forall>a\<in>set (var_addrs vars). a \<in> fst ` set data"
  show "wp (load_relocs_and_symbols bs hdr) (\<lambda>x. wp (case x of (relocs, symbols) \<Rightarrow>
      bindM (load_fun_infos bs hdr) (\<lambda>fun_infos.
        ret \<lparr>pg_flags = fh_flags hdr, pg_entry = ucast (fh_entry hdr), pg_funs = funs, pg_vars = vars,
          pg_code = code, pg_data = data, pg_relocs = relocs, pg_symbols = symbols,
          pg_fun_infos = fun_infos, pg_fun_offset = 0, pg_var_offset = 0\<rparr>)) (\<lambda>p t. program_ok p)) t"
  proof (rule wp_load_relocs_and_symbols [OF L data(1)])
    fix rs :: "format_reloc list" and syms :: "format_symbol list" and u
    assume rs: "\<forall>r\<in>set rs. reloc_type_ok (fh_flags hdr) (rl_type r) \<and> (is_symbolic r \<longrightarrow> unat (rl_symbol r) < length syms)"
      and syms: "\<forall>y\<in>set syms. symbol_type_ok (fh_flags hdr) (sy_type y)"
    have "program_ok \<lparr>pg_flags = fh_flags hdr, pg_entry = ucast (fh_entry hdr), pg_funs = funs, pg_vars = vars,
          pg_code = code, pg_data = data, pg_relocs = rs, pg_symbols = syms,
          pg_fun_infos = is, pg_fun_offset = 0, pg_var_offset = 0\<rparr>"
      if "\<forall>i\<in>set is. fi_fun_index i < fh_fun_count hdr" for "is"
    proof -
      have "ucast (fv_i v) \<in> fst ` set data" if "v \<in> set vars" "fv_type v = 2" for v
        using data(3) that by (auto simp: var_addrs_def)
      moreover have "unat x < 2 ^ 32" for x :: u32 using unsigned_less [of x, where 'a = nat] by simp
      ultimately show ?thesis
        using funs vars code data(2) rs syms that
        by (auto simp: program_ok_def function_ok_def word_less_nat_alt)
    qed
    then show "wp (case (rs, syms) of (relocs, symbols) \<Rightarrow>
      bindM (load_fun_infos bs hdr) (\<lambda>fun_infos.
        ret \<lparr>pg_flags = fh_flags hdr, pg_entry = ucast (fh_entry hdr), pg_funs = funs, pg_vars = vars,
          pg_code = code, pg_data = data, pg_relocs = relocs, pg_symbols = symbols,
          pg_fun_infos = fun_infos, pg_fun_offset = 0, pg_var_offset = 0\<rparr>)) (\<lambda>p t. program_ok p) u"
      by (simp add: wp_rules) (rule wp_load_fun_infos [OF L], simp)
  qed
qed

lemma load_outcome:
  assumes "length bs < 2 ^ 63"
  shows "(\<exists>p. load bs = Done p \<and> program_ok p) \<or> load bs = Failed"
  using wp_load_program [OF assms] unfolding wp_def load_def
  by (cases "load_program bs 0") (auto split: outcome.splits)

text \<open>C12: The loader ends on every buffer, never reads outside of it, and every program it accepts is
  well-formed: its functions lie in its code, its variables refer to its objects, the objects do not
  overlap and end before the data do, and relocations, symbols and function information name what exists.\<close>

theorem loader_safe:
  assumes "length bs < 2 ^ 63"
  shows "(\<exists>p. load bs = Done p \<and> program_ok p) \<or> load bs = Failed"
  using assms by (rule load_outcome)

text \<open>A file with one function of one instruction.\<close>

lemma loader_safe_witness:
  "\<exists>p. load (HEADER_MAGIC @ [0,0,0,0, 0,0,0,0, 0,0,0,1, 0,0,0,0, 0,0,0,1, 0,0,0,0, 0,0,0,0, 0,0,0,0, 0,0,0,0, 0,0,0,0,
      0,0,0,0, 0,0,0,2, 0,0,0,1, 0,0,0,0, 0,0,0,2, 0,0,0,7, 0,0,0,0, 0,0,0,0]) = Done p \<and>
     program_ok p \<and> pg_funs p = [\<lparr>ff_addr = 0, ff_arg_count = 2, ff_instr_count = 1\<rparr>] \<and>
     pg_code p = [\<lparr>i_opcode = 2, i_arg1 = 7, i_arg2 = 0\<rparr>]"
proof -
  let ?bs = "HEADER_MAGIC @ [0,0,0,0, 0,0,0,0, 0,0,0,1, 0,0,0,0, 0,0,0,1, 0,0,0,0, 0,0,0,0, 0,0,0,0, 0,0,0,0, 0,0,0,0,
      0,0,0,0, 0,0,0,2, 0,0,0,1, 0,0,0,0, 0,0,0,2, 0,0,0,7, 0,0,0,0, 0,0,0,0]"
  have run: "load ?bs = Done \<lparr>pg_flags = 0, pg_entry = 0,
      pg_funs = [\<lparr>ff_addr = 0, ff_arg_count = 2, ff_instr_count = 1\<rparr>], pg_vars = [],
      pg_code = [\<lparr>i_opcode = 2, i_arg1 = 7, i_arg2 = 0\<rparr>], pg_data = [], pg_relocs = [], pg_symbols = [],
      pg_fun_infos = [], pg_fun_offset = 0, pg_var_offset = 0\<rparr>"
    by code_simp
  have "length ?bs < 2 ^ 63" by (simp add: HEADER_MAGIC_def)
  from loader_safe [OF this] show ?thesis by (simp only: run) auto
qed

end
