(* ===== verification/Relocation.thy ===== *)
theory Relocation
  imports Loader_Safe Opcode
begin

unbundle bit_operations_syntax

text \<open>
  Relocating a program (class \<open>Program\<close>, vm/vm.cpp): the operands, elements and variables that hold the
  index of a function or a variable are changed from the numbering of the program to that of all loaded
  programs, or set to the index that a symbol names. The state is the program; failing is the returned
  \<open>false\<close>.
\<close>

type_synonym 'a reloc = "(program, 'a) m"

definition UINT32_MAX :: u64 where
  "UINT32_MAX = 0xffffffff"

section \<open>Indexes\<close>

definition reloc_symbol :: "format_reloc \<Rightarrow> format_symbol reloc" where
  "reloc_symbol r = (\<lambda>p. if unat (rl_symbol r) < length (pg_symbols p)
     then (Done (pg_symbols p ! unat (rl_symbol r)), p) else (Undefined, p))"

text \<open>An index is a \<open>size_t\<close>, and its relocation is computed with wrap-around.\<close>

definition relocate_index :: "u64 \<Rightarrow> u64 \<Rightarrow> (symbol_name \<Rightarrow> u64 option) \<Rightarrow> format_reloc \<Rightarrow> u8 \<Rightarrow> u64 reloc" where
  "relocate_index index offset indexes r symbol_type =
     (if is_symbolic r
      then bindM (reloc_symbol r) (\<lambda>y.
        seqM (check (\<not> sy_type y AND NOT SYMBOL_TYPE_DEFINED \<noteq> symbol_type))
       (case indexes (sy_name y) of
          None \<Rightarrow> fail
        | Some i \<Rightarrow> seqM (check (\<not> i > UINT32_MAX)) (ret i)))
      else bindM (reading (\<lambda>p. if symbol_type = SYMBOL_TYPE_FUN then pg_fun_offset p else pg_var_offset p)) (\<lambda>old_offset.
        let tmp_index = index - old_offset + offset in
        seqM (check (\<not> tmp_index > UINT32_MAX)) (ret tmp_index)))"

text \<open>A native function has an index of type \<open>int\<close>.\<close>

definition relocate_native_fun_index :: "u32 \<Rightarrow> (symbol_name \<Rightarrow> u32 option) \<Rightarrow> format_reloc \<Rightarrow> u32 reloc" where
  "relocate_native_fun_index index indexes r =
     (if is_symbolic r
      then bindM (reloc_symbol r) (\<lambda>y.
        seqM (check (\<not> sy_type y \<noteq> SYMBOL_TYPE_NATIVE_FUN))
       (case indexes (sy_name y) of None \<Rightarrow> fail | Some i \<Rightarrow> ret i))
      else ret index)"

section \<open>Elements of objects\<close>

text \<open>The last object whose address is not greater: \<open>upper_bound\<close> and one step back.\<close>

definition object_before :: "(u32 \<times> format_object) list \<Rightarrow> u32 \<Rightarrow> (u32 \<times> format_object) option" where
  "object_before obs addr = (case filter (\<lambda>(a, ob). a \<le> addr) obs of [] \<Rightarrow> None | xs \<Rightarrow> Some (last xs))"

text \<open>The index of the element at the address, in an object at \<open>a\<close> with \<open>n\<close> elements of
  \<open>2 ^ k\<close> bytes; the size of the elements is computed in \<open>uint32_t\<close>.\<close>

definition elem_at :: "u32 \<Rightarrow> u32 \<Rightarrow> nat \<Rightarrow> nat \<Rightarrow> nat reloc" where
  "elem_at addr a n k =
     (let start = ucast a + 8 :: u64 in
      seqM (check (\<not> start + ucast (of_nat n * push_bit k 1 :: u32) \<le> ucast addr))
     (seqM (check (\<not> (ucast addr - start) AND (push_bit k 1 - 1) \<noteq> 0))
      (ret (unat (drop_bit k (ucast addr - start))))))"

definition element :: "'a list \<Rightarrow> nat \<Rightarrow> 'a reloc" where
  "element xs j = (if j < length xs then ret (xs ! j) else undef)"

text \<open>\<open>get_elem_fun_index\<close>: the object, the element in it and the index it holds. An element of
  64 bits must fit into the type of an index; of a tuple it must be an integer.\<close>

definition locate_elem :: "u32 \<Rightarrow> (u32 \<times> nat \<times> bool \<times> u64) reloc" where
  "locate_elem addr =
     bindM (reading pg_data) (\<lambda>obs. case object_before obs addr of
       None \<Rightarrow> fail
     | Some (a, ob) \<Rightarrow>
         seqM (check (\<not> (ucast a + 8 :: u64) > ucast addr))
        (case ob of
           FIArray32 xs \<Rightarrow> bindM (elem_at addr a (length xs) 2) (\<lambda>j.
             bindM (element xs j) (\<lambda>x. ret (a, j, False, scast x)))
         | FIArray64 xs \<Rightarrow> bindM (elem_at addr a (length xs) 3) (\<lambda>j.
             bindM (element xs j) (\<lambda>x. ret (a, j, True, x)))
         | FTuple xs \<Rightarrow> bindM (elem_at addr a (length xs) 3) (\<lambda>j.
             bindM (element xs j) (\<lambda>(x, t). seqM (check (\<not> t \<noteq> 0)) (ret (a, j, True, x))))
         | _ \<Rightarrow> fail))"

definition get_elem_fun_index :: "u32 \<Rightarrow> bool \<Rightarrow> (u32 \<times> nat \<times> u64) reloc" where
  "get_elem_fun_index addr is_native =
     bindM (locate_elem addr) (\<lambda>(a, j, wide, x).
       seqM (check (\<not> (wide \<and> (if \<not> is_native then x <s 0 \<or> UINT32_MAX <s x
           else x <s - 0x80000000 \<or> 0x7fffffff <s x))))
       (ret (a, j, x)))"

fun put_elem :: "nat \<Rightarrow> u64 \<Rightarrow> format_object \<Rightarrow> format_object" where
  "put_elem j i (FIArray32 xs) = FIArray32 (xs[j := ucast i])"
| "put_elem j i (FIArray64 xs) = FIArray64 (xs[j := i])"
| "put_elem j i (FTuple xs) = FTuple (xs[j := (i, snd (xs ! j))])"
| "put_elem j i ob = ob"

definition set_elem_fun_index :: "u32 \<Rightarrow> nat \<Rightarrow> u64 \<Rightarrow> unit reloc" where
  "set_elem_fun_index a j i = modify (\<lambda>p. p\<lparr>pg_data :=
     map (\<lambda>(b, ob). (b, if b = a then put_elem j i ob else ob)) (pg_data p)\<rparr>)"

section \<open>Code and variables\<close>

definition code_at :: "u32 \<Rightarrow> instruction reloc" where
  "code_at addr = bindM (reading pg_code) (\<lambda>code.
     seqM (check (\<not> unat addr \<ge> length code)) (ret (code ! unat addr)))"

definition put_code :: "u32 \<Rightarrow> instruction \<Rightarrow> unit reloc" where
  "put_code addr x = modify (\<lambda>p. p\<lparr>pg_code := (pg_code p)[unat addr := x]\<rparr>)"

definition var_at :: "u32 \<Rightarrow> format_value reloc" where
  "var_at addr = bindM (reading pg_vars) (\<lambda>vars.
     seqM (check (\<not> unat addr \<ge> length vars)) (ret (vars ! unat addr)))"

definition put_var :: "u32 \<Rightarrow> u64 \<Rightarrow> unit reloc" where
  "put_var addr i = modify (\<lambda>p. p\<lparr>pg_vars := (pg_vars p)[unat addr := (pg_vars p ! unat addr)\<lparr>fv_i := i\<rparr>]\<rparr>)"

text \<open>The tables of indexes that a program is linked with.\<close>

record index_tables =
  it_funs :: "symbol_name \<Rightarrow> u64 option"
  it_vars :: "symbol_name \<Rightarrow> u64 option"
  it_natives :: "symbol_name \<Rightarrow> u32 option"

definition relocate_native :: "index_tables \<Rightarrow> format_reloc \<Rightarrow> unit reloc" where
  "relocate_native T r =
     (let k = rl_type r AND NOT RELOC_TYPE_SYMBOLIC; addr = rl_addr r in
      if k = RELOC_TYPE_ARG1_NATIVE_FUN then
        bindM (code_at addr) (\<lambda>x.
        seqM (check (\<not> opcode_to_arg_type1 (i_opcode x) \<noteq> ARG_TYPE_IMM))
       (bindM (relocate_native_fun_index (i_arg1 x) (it_natives T) r) (\<lambda>i. put_code addr (x\<lparr>i_arg1 := i\<rparr>))))
      else if k = RELOC_TYPE_ARG2_NATIVE_FUN then
        bindM (code_at addr) (\<lambda>x.
        seqM (check (\<not> opcode_to_arg_type2 (i_opcode x) \<noteq> ARG_TYPE_IMM))
       (bindM (relocate_native_fun_index (i_arg2 x) (it_natives T) r) (\<lambda>i. put_code addr (x\<lparr>i_arg2 := i\<rparr>))))
      else if k = RELOC_TYPE_ELEM_NATIVE_FUN then
        bindM (get_elem_fun_index addr False) (\<lambda>(a, j, x).
        bindM (relocate_native_fun_index (ucast x) (it_natives T) r) (\<lambda>i. set_elem_fun_index a j (scast i)))
      else if k = RELOC_TYPE_VAR_NATIVE_FUN then
        bindM (var_at addr) (\<lambda>v.
        seqM (check (\<not> fv_type v \<noteq> 0))
       (seqM (check (\<not> (fv_i v <s - 0x80000000 \<or> 0x7fffffff <s fv_i v)))
       (bindM (relocate_native_fun_index (ucast (fv_i v)) (it_natives T) r) (\<lambda>i. put_var addr (scast i)))))
      else ret ())"

text \<open>One relocation. An operand \<open>arg.i\<close> is signed, and an operand \<open>arg.gvar\<close> is not.\<close>

definition relocate_one :: "u64 \<Rightarrow> u64 \<Rightarrow> index_tables \<Rightarrow> format_reloc \<Rightarrow> unit reloc" where
  "relocate_one fun_offset var_offset T r =
     (let k = rl_type r AND NOT RELOC_TYPE_SYMBOLIC; addr = rl_addr r;
          reloc_fun = (\<lambda>i. relocate_index i fun_offset (it_funs T) r SYMBOL_TYPE_FUN);
          reloc_var = (\<lambda>i. relocate_index i var_offset (it_vars T) r SYMBOL_TYPE_VAR) in
      if k = RELOC_TYPE_ARG1_FUN then
        bindM (code_at addr) (\<lambda>x.
        seqM (check (\<not> opcode_to_arg_type1 (i_opcode x) \<noteq> ARG_TYPE_IMM))
       (bindM (reloc_fun (scast (i_arg1 x))) (\<lambda>i. put_code addr (x\<lparr>i_arg1 := ucast i\<rparr>))))
      else if k = RELOC_TYPE_ARG2_FUN then
        bindM (code_at addr) (\<lambda>x.
        seqM (check (\<not> opcode_to_arg_type2 (i_opcode x) \<noteq> ARG_TYPE_IMM))
       (bindM (reloc_fun (scast (i_arg2 x))) (\<lambda>i. put_code addr (x\<lparr>i_arg2 := ucast i\<rparr>))))
      else if k = RELOC_TYPE_ARG1_VAR then
        bindM (code_at addr) (\<lambda>x.
        seqM (check (\<not> opcode_to_arg_type1 (i_opcode x) \<noteq> ARG_TYPE_GVAR))
       (bindM (reloc_var (ucast (i_arg1 x))) (\<lambda>i. put_code addr (x\<lparr>i_arg1 := ucast i\<rparr>))))
      else if k = RELOC_TYPE_ARG2_VAR then
        bindM (code_at addr) (\<lambda>x.
        seqM (check (\<not> opcode_to_arg_type2 (i_opcode x) \<noteq> ARG_TYPE_GVAR))
       (bindM (reloc_var (ucast (i_arg2 x))) (\<lambda>i. put_code addr (x\<lparr>i_arg2 := ucast i\<rparr>))))
      else if k = RELOC_TYPE_ELEM_FUN then
        bindM (get_elem_fun_index addr False) (\<lambda>(a, j, x).
        bindM (reloc_fun x) (\<lambda>i. set_elem_fun_index a j i))
      else if k = RELOC_TYPE_VAR_FUN then
        bindM (var_at addr) (\<lambda>v.
        seqM (check (\<not> fv_type v \<noteq> 0))
       (seqM (check (\<not> (fv_i v <s 0 \<or> UINT32_MAX <s fv_i v)))
       (bindM (reloc_fun (fv_i v)) (\<lambda>i. put_var addr i))))
      else bindM (reading pg_flags) (\<lambda>flags.
        if flags AND HEADER_FLAG_NATIVE_FUN_SYMBOLS \<noteq> 0 then relocate_native T r else fail))"

text \<open>\<open>Program::relocate\<close>.\<close>

definition relocate :: "u64 \<Rightarrow> u64 \<Rightarrow> index_tables \<Rightarrow> unit reloc" where
  "relocate fun_offset var_offset T =
     bindM (reading pg_relocs) (\<lambda>rs.
     seqM (forM rs (relocate_one fun_offset var_offset T))
    (seqM (modify (\<lambda>p. if pg_flags p AND HEADER_FLAG_LIBRARY = 0
        then p\<lparr>pg_entry := pg_entry p - pg_fun_offset p + fun_offset\<rparr> else p))
     (modify (\<lambda>p. p\<lparr>pg_fun_offset := fun_offset, pg_var_offset := var_offset\<rparr>))))"

end
