(* ===== verification/Linking.thy ===== *)
theory Linking
  imports Relocation Strategies
begin

unbundle bit_operations_syntax

text \<open>
  Linking: the environment of loaded programs (class \<open>ImplEnvironment\<close>, vm/impl_env.cpp and
  vm/impl_env.hpp) and the loading of several programs into it (\<open>ImplVirtualMachineBase::load\<close> and
  \<open>load_prog\<close>, vm/impl_vm_base.cpp). The state is that of the virtual machine before its threads
  start; failing is the returned \<open>false\<close>.
\<close>

section \<open>The environment\<close>

text \<open>
  An array that is not allocated is the empty list, and the count of functions and of variables is the
  length of the list. Indexes and counts of type \<open>size_t\<close> are natural numbers: they number elements of
  arrays in memory. \<open>env_native_symbols\<close> and \<open>env_fun_symbols\<close> are the names by index, of which the first one
  stays. The caches of function results and the buffers to free are pointers that nothing here reads.
\<close>

record vm_env =
  env_funs :: "func list"
  env_vars :: "vm_value list"
  env_fun_infos :: "(u32 \<times> u32) list"
  env_fun_indexes :: "symbol_name \<Rightarrow> nat option"
  env_fun_symbols :: "nat \<Rightarrow> symbol_name option"
  env_var_indexes :: "symbol_name \<Rightarrow> nat option"
  env_native_indexes :: "symbol_name \<Rightarrow> u32 option"
  env_native_symbols :: "u32 \<Rightarrow> symbol_name option"
  env_data_to_free :: "nat list"

record loading_error =
  le_index :: nat
  le_error :: int
  le_symbol :: symbol_name

record vm_base =
  vb_env :: vm_env
  vb_heap :: heap
  vb_has_entry :: bool
  vb_entry :: u64
  vb_errors :: "loading_error list"
  vb_triples :: "fun_triple list"

type_synonym 'a link = "(vm_base, 'a) m"

definition no_func :: func where
  "no_func = \<lparr>f_arg_count = 0, f_instrs = None\<rparr>"

definition no_fun_info :: "u32 \<times> u32" where
  "no_fun_info = (0, 0xff)"

definition set_env :: "(vm_env \<Rightarrow> vm_env) \<Rightarrow> unit link" where
  "set_env f = modify (\<lambda>s. s\<lparr>vb_env := f (vb_env s)\<rparr>)"

definition set_fun_count :: "nat \<Rightarrow> vm_env \<Rightarrow> vm_env" where
  "set_fun_count n e = e\<lparr>env_funs := replicate n no_func, env_fun_infos := replicate n no_fun_info\<rparr>"

definition set_var_count :: "nat \<Rightarrow> vm_env \<Rightarrow> vm_env" where
  "set_var_count n e = e\<lparr>env_vars := replicate n VError\<rparr>"

definition env_fun :: "vm_env \<Rightarrow> nat \<Rightarrow> func" where
  "env_fun e i = (if i < length (env_funs e) then env_funs e ! i else no_func)"

definition env_var :: "vm_env \<Rightarrow> nat \<Rightarrow> vm_value" where
  "env_var e i = (if i < length (env_vars e) then env_vars e ! i else VError)"

definition env_fun_info :: "vm_env \<Rightarrow> nat \<Rightarrow> u32 \<times> u32" where
  "env_fun_info e i = (if i < length (env_fun_infos e) then env_fun_infos e ! i else no_fun_info)"

definition env_fun_named :: "vm_env \<Rightarrow> symbol_name \<Rightarrow> func" where
  "env_fun_named e name = (case env_fun_indexes e name of Some i \<Rightarrow> env_fun e i | None \<Rightarrow> no_func)"

definition env_var_named :: "vm_env \<Rightarrow> symbol_name \<Rightarrow> vm_value" where
  "env_var_named e name = (case env_var_indexes e name of Some i \<Rightarrow> env_var e i | None \<Rightarrow> VError)"

definition env_fun_info_named :: "vm_env \<Rightarrow> symbol_name \<Rightarrow> u32 \<times> u32" where
  "env_fun_info_named e name = (case env_fun_indexes e name of Some i \<Rightarrow> env_fun_info e i | None \<Rightarrow> no_fun_info)"

text \<open>Storing into an array is undefined beyond its end.\<close>

definition set_fun :: "nat \<Rightarrow> func \<Rightarrow> unit link" where
  "set_fun i f = (\<lambda>s. if i < length (env_funs (vb_env s))
     then set_env (\<lambda>e. e\<lparr>env_funs := (env_funs e)[i := f]\<rparr>) s else (Undefined, s))"

definition set_var :: "nat \<Rightarrow> vm_value \<Rightarrow> unit link" where
  "set_var i v = (\<lambda>s. if i < length (env_vars (vb_env s))
     then set_env (\<lambda>e. e\<lparr>env_vars := (env_vars e)[i := v]\<rparr>) s else (Undefined, s))"

definition set_fun_info :: "nat \<Rightarrow> u32 \<times> u32 \<Rightarrow> unit link" where
  "set_fun_info i info = (\<lambda>s. if i < length (env_fun_infos (vb_env s))
     then set_env (\<lambda>e. e\<lparr>env_fun_infos := (env_fun_infos e)[i := info]\<rparr>) s else (Undefined, s))"

text \<open>\<open>insert\<close> of a map keeps an entry that is already there.\<close>

definition insert_new :: "('k \<Rightarrow> 'v option) \<Rightarrow> 'k \<Rightarrow> 'v \<Rightarrow> 'k \<Rightarrow> 'v option" where
  "insert_new m k v = (if m k = None then m(k \<mapsto> v) else m)"

definition add_fun_index :: "symbol_name \<Rightarrow> nat \<Rightarrow> bool link" where
  "add_fun_index name i = bindM (reading vb_env) (\<lambda>e.
     if env_fun_indexes e name \<noteq> None then ret False
     else seqM (set_env (\<lambda>e. e\<lparr>env_fun_indexes := insert_new (env_fun_indexes e) name i,
                               env_fun_symbols := insert_new (env_fun_symbols e) i name\<rparr>)) (ret True))"

definition add_var_index :: "symbol_name \<Rightarrow> nat \<Rightarrow> bool link" where
  "add_var_index name i = bindM (reading vb_env) (\<lambda>e.
     if env_var_indexes e name \<noteq> None then ret False
     else seqM (set_env (\<lambda>e. e\<lparr>env_var_indexes := insert_new (env_var_indexes e) name i\<rparr>)) (ret True))"

definition add_native_fun_index :: "symbol_name \<Rightarrow> u32 \<Rightarrow> bool link" where
  "add_native_fun_index name i = bindM (reading vb_env) (\<lambda>e.
     if env_native_indexes e name \<noteq> None then ret False
     else seqM (set_env (\<lambda>e. e\<lparr>env_native_indexes := insert_new (env_native_indexes e) name i,
                               env_native_symbols := insert_new (env_native_symbols e) i name\<rparr>)) (ret True))"

definition reset_without_native_fun_indexes :: "vm_env \<Rightarrow> vm_env" where
  "reset_without_native_fun_indexes e =
     e\<lparr>env_funs := [], env_vars := [], env_fun_infos := [], env_fun_indexes := Map.empty,
       env_fun_symbols := Map.empty, env_var_indexes := Map.empty, env_data_to_free := []\<rparr>"

definition reset :: "vm_env \<Rightarrow> vm_env" where
  "reset e = (reset_without_native_fun_indexes e)\<lparr>env_native_indexes := Map.empty\<rparr>"

text \<open>The constructor of the virtual machine names its native functions: \<open>names\<close> are the names of the
  handler from its least to its greatest index.\<close>

definition new_vm_base :: "(u32 \<times> symbol_name option) list \<Rightarrow> unit link" where
  "new_vm_base names = forM names (\<lambda>(i, name). case name of
     None \<Rightarrow> ret ()
   | Some name \<Rightarrow> bindM (add_native_fun_index name i) (\<lambda>_. ret ()))"

section \<open>Errors\<close>

definition push_error :: "nat \<Rightarrow> int \<Rightarrow> symbol_name \<Rightarrow> unit link" where
  "push_error i err name = modify (\<lambda>s. s\<lparr>vb_errors := vb_errors s @ [\<lparr>le_index = i, le_error = err, le_symbol = name\<rparr>]\<rparr>)"

text \<open>\<open>if(!is_success) { _M_env.reset_without_native_fun_indexes(); return false; }\<close>\<close>

definition reset_unless :: "bool \<Rightarrow> unit link" where
  "reset_unless b = (if b then ret () else seqM (set_env reset_without_native_fun_indexes) fail)"

section \<open>The symbols of the programs\<close>

definition is_relocatable :: "program \<Rightarrow> bool" where
  "is_relocatable p \<longleftrightarrow> pg_flags p AND HEADER_FLAG_RELOCATABLE \<noteq> 0"

text \<open>Loading the buffers: the programs, whether all were accepted, and whether all are relocatable.
  A program that is not relocatable must be the only one.\<close>

fun load_programs :: "bool \<Rightarrow> nat \<Rightarrow> u8 list list \<Rightarrow> (program list \<times> bool \<times> bool) link" where
  "load_programs many i [] = ret ([], True, True)"
| "load_programs many i (bs # bss) = (case load bs of
     Done p \<Rightarrow>
       if \<not> is_relocatable p \<and> many
       then seqM (push_error i LOADING_ERROR_NO_RELOC []) (bindM (load_programs many (Suc i) bss) (\<lambda>(ps, ok, rel).
         ret (ps, False, False)))
       else bindM (load_programs many (Suc i) bss) (\<lambda>(ps, ok, rel). ret (p # ps, ok, is_relocatable p \<and> rel))
   | Failed \<Rightarrow> seqM (push_error i LOADING_ERROR_FORMAT []) (bindM (load_programs many (Suc i) bss) (\<lambda>(ps, ok, rel).
       ret (ps, False, rel)))
   | Undefined \<Rightarrow> undef
   | NoFuel \<Rightarrow> nofuel)"

text \<open>The programs with their numbers and the offsets of their functions and variables.\<close>

fun with_offsets :: "nat \<Rightarrow> nat \<Rightarrow> nat \<Rightarrow> program list \<Rightarrow> (nat \<times> nat \<times> nat \<times> program) list" where
  "with_offsets i fo vo [] = []"
| "with_offsets i fo vo (p # ps) =
     (i, fo, vo, p) # with_offsets (Suc i) (fo + length (pg_funs p)) (vo + length (pg_vars p)) ps"

definition define_symbol :: "nat \<times> nat \<times> nat \<times> program \<Rightarrow> format_symbol \<Rightarrow> bool link" where
  "define_symbol = (\<lambda>(i, fo, vo, p) y.
     if sy_type y = SYMBOL_TYPE_FUN OR SYMBOL_TYPE_DEFINED then
       (if unat (sy_index y) \<ge> length (pg_funs p)
        then seqM (push_error i LOADING_ERROR_FUN_INDEX (sy_name y)) (ret False)
        else bindM (add_fun_index (sy_name y) (fo + unat (sy_index y))) (\<lambda>b.
          if \<not> b then seqM (push_error i LOADING_ERROR_FUN_SYM (sy_name y)) (ret False) else ret True))
     else if sy_type y = SYMBOL_TYPE_VAR OR SYMBOL_TYPE_DEFINED then
       (if unat (sy_index y) \<ge> length (pg_vars p)
        then seqM (push_error i LOADING_ERROR_VAR_INDEX (sy_name y)) (ret False)
        else bindM (add_var_index (sy_name y) (vo + unat (sy_index y))) (\<lambda>b.
          if \<not> b then seqM (push_error i LOADING_ERROR_VAR_SYM (sy_name y)) (ret False) else ret True))
     else ret True)"

definition need_symbol :: "nat \<times> nat \<times> nat \<times> program \<Rightarrow> format_symbol \<Rightarrow> bool link" where
  "need_symbol = (\<lambda>(i, fo, vo, p) y. bindM (reading vb_env) (\<lambda>e.
     if sy_type y = SYMBOL_TYPE_FUN \<and> env_fun_indexes e (sy_name y) = None
     then seqM (push_error i LOADING_ERROR_NO_FUN_SYM (sy_name y)) (ret False)
     else if sy_type y = SYMBOL_TYPE_VAR \<and> env_var_indexes e (sy_name y) = None
     then seqM (push_error i LOADING_ERROR_NO_VAR_SYM (sy_name y)) (ret False)
     else ret True))"

definition for_symbols :: "(nat \<times> nat \<times> nat \<times> program \<Rightarrow> format_symbol \<Rightarrow> bool link) \<Rightarrow> program list \<Rightarrow> bool link" where
  "for_symbols f ps = allM (\<lambda>(i, fo, vo, p). allM (f (i, fo, vo, p)) (pg_symbols p)) (with_offsets 0 0 0 ps)"

text \<open>The tables of the environment as those that a program is relocated with.\<close>

definition env_tables :: "vm_env \<Rightarrow> index_tables" where
  "env_tables e = \<lparr>it_funs = map_option of_nat \<circ> env_fun_indexes e,
     it_vars = map_option of_nat \<circ> env_var_indexes e, it_natives = env_native_indexes e\<rparr>"

definition relocate_program :: "nat \<times> nat \<times> nat \<times> program \<Rightarrow> program option link" where
  "relocate_program = (\<lambda>(i, fo, vo, p). bindM (reading (\<lambda>s. env_tables (vb_env s))) (\<lambda>T.
     case relocate (of_nat fo) (of_nat vo) T p of
       (Done u, q) \<Rightarrow> ret (Some q)
     | (Failed, q) \<Rightarrow> seqM (push_error i LOADING_ERROR_RELOC []) (ret None)
     | (Undefined, q) \<Rightarrow> undef
     | (NoFuel, q) \<Rightarrow> nofuel))"

definition link_programs :: "program list \<Rightarrow> program list link" where
  "link_programs ps =
     bindM (for_symbols define_symbol ps) (\<lambda>b. seqM (reset_unless b)
    (bindM (for_symbols need_symbol ps) (\<lambda>b. seqM (reset_unless b)
    (bindM (collectM relocate_program (with_offsets 0 0 0 ps)) (\<lambda>qs.
       seqM (reset_unless (None \<notin> set qs)) (ret (map the qs)))))))"

section \<open>Loading a program\<close>

text \<open>What the code takes from outside: whether the allocator finds memory, and what it holds.\<close>

record memory =
  mem_alloc :: "nat \<Rightarrow> u64 \<Rightarrow> bool"
  mem_junk :: "nat \<Rightarrow> nat \<Rightarrow> u64"

fun format_type :: "format_object \<Rightarrow> int" where
  "format_type (FIArray8 _) = OBJECT_TYPE_IARRAY8"
| "format_type (FIArray16 _) = OBJECT_TYPE_IARRAY16"
| "format_type (FIArray32 _) = OBJECT_TYPE_IARRAY32"
| "format_type (FIArray64 _) = OBJECT_TYPE_IARRAY64"
| "format_type (FSFArray _) = OBJECT_TYPE_SFARRAY"
| "format_type (FDFArray _) = OBJECT_TYPE_DFARRAY"
| "format_type (FRArray _) = OBJECT_TYPE_RARRAY"
| "format_type (FTuple _) = OBJECT_TYPE_TUPLE"

fun format_length :: "format_object \<Rightarrow> nat" where
  "format_length (FIArray8 xs) = length xs"
| "format_length (FIArray16 xs) = length xs"
| "format_length (FIArray32 xs) = length xs"
| "format_length (FIArray64 xs) = length xs"
| "format_length (FSFArray xs) = length xs"
| "format_length (FDFArray xs) = length xs"
| "format_length (FRArray xs) = length xs"
| "format_length (FTuple xs) = length xs"

definition func_of :: "program \<Rightarrow> format_function \<Rightarrow> func" where
  "func_of p f = \<lparr>f_arg_count = unat (ff_arg_count f),
     f_instrs = Some (take (unat (ff_instr_count f)) (drop (unat (ff_addr f)) (pg_code p)))\<rparr>"

definition load_function_at :: "program \<Rightarrow> nat \<Rightarrow> nat \<Rightarrow> unit link" where
  "load_function_at p fo j = (if j < length (pg_funs p) then set_fun (fo + j) (func_of p (pg_funs p ! j)) else undef)"

text \<open>An object of the program is allocated before any of them is filled; its key is its address in the
  data of the program.\<close>

definition allocate_object :: "memory \<Rightarrow> nat \<Rightarrow> u32 \<times> format_object \<Rightarrow> (u32 \<times> nat) link" where
  "allocate_object M i = (\<lambda>(a, ob) s.
     let n = length (vb_heap s); size = object_size (format_type ob) (of_nat (format_length ob)) in
     if size \<noteq> 0 \<and> mem_alloc M n size
     then (Done (a, n), s\<lparr>vb_heap := vb_heap s @ [fresh_object (mem_junk M n) (format_type ob) (format_length ob)]\<rparr>)
     else seqM (push_error i LOADING_ERROR_ALLOC []) fail s)"

text \<open>The value of a word by its type; a reference is found by its address.\<close>

definition word_value :: "(u32 \<Rightarrow> nat option) \<Rightarrow> nat \<Rightarrow> u64 \<Rightarrow> vm_value option" where
  "word_value objs t w =
     (if t = 0 then Some (VInt w)
      else if t = 1 then Some (VFloat (format_double_to_double w))
      else if t = 2 then map_option (\<lambda>n. VRef (RAddr n)) (objs (ucast w))
      else None)"

text \<open>The elements of an object; \<open>None\<close> is the missing object that stops the loading.\<close>

fun filled_body :: "(u32 \<Rightarrow> nat option) \<Rightarrow> format_object \<Rightarrow> body option" where
  "filled_body objs (FIArray8 xs) = Some (IArray8 xs)"
| "filled_body objs (FIArray16 xs) = Some (IArray16 xs)"
| "filled_body objs (FIArray32 xs) = Some (IArray32 xs)"
| "filled_body objs (FIArray64 xs) = Some (IArray64 xs)"
| "filled_body objs (FSFArray xs) = Some (SFArray (map format_float_to_float xs))"
| "filled_body objs (FDFArray xs) = Some (DFArray (map format_double_to_double xs))"
| "filled_body objs (FRArray xs) = map_option RArray (those (map (\<lambda>x. map_option RAddr (objs x)) xs))"
| "filled_body objs (FTuple xs) = map_option Tuple (those (map (\<lambda>(w, t). word_value objs (unat t) w) xs))"

text \<open>Filling an object; when it fails, what it has filled before is garbage of the heap that nothing refers
  to, and is left as allocated here.\<close>

definition fill_object :: "nat \<Rightarrow> (u32 \<Rightarrow> nat option) \<Rightarrow> u32 \<times> format_object \<Rightarrow> unit link" where
  "fill_object i objs = (\<lambda>(a, ob). case objs a of
     None \<Rightarrow> undef
   | Some n \<Rightarrow> (case filled_body objs ob of
       None \<Rightarrow> seqM (push_error i LOADING_ERROR_FORMAT []) fail
     | Some b \<Rightarrow> (\<lambda>s. if n < length (vb_heap s)
         then (Done (), s\<lparr>vb_heap := (vb_heap s)[n := Object False b]\<rparr>) else (Undefined, s))))"

definition load_var_at :: "nat \<Rightarrow> (u32 \<Rightarrow> nat option) \<Rightarrow> program \<Rightarrow> nat \<Rightarrow> nat \<Rightarrow> unit link" where
  "load_var_at i objs p vo j = (if j < length (pg_vars p)
     then let v = pg_vars p ! j in case word_value objs (unat (fv_type v)) (fv_i v) of
       None \<Rightarrow> seqM (push_error i LOADING_ERROR_FORMAT []) fail
     | Some x \<Rightarrow> set_var (vo + j) x
     else undef)"

definition load_entry :: "nat \<Rightarrow> program \<Rightarrow> unit link" where
  "load_entry i p =
     (if pg_flags p AND HEADER_FLAG_LIBRARY = 0
      then bindM (reading vb_has_entry) (\<lambda>b.
        if b then seqM (push_error i LOADING_ERROR_ENTRY []) fail
        else modify (\<lambda>s. s\<lparr>vb_has_entry := True, vb_entry := pg_entry p\<rparr>))
      else ret ())"

definition load_prog :: "memory \<Rightarrow> bool \<Rightarrow> nat \<times> nat \<times> nat \<times> program \<Rightarrow> unit link" where
  "load_prog M is_auto_freeing = (\<lambda>(i, fo, vo, p).
     seqM (whenM is_auto_freeing (set_env (\<lambda>e. e\<lparr>env_data_to_free := env_data_to_free e @ [i]\<rparr>)))
    (seqM (forM [0..<length (pg_funs p)] (load_function_at p fo))
    (bindM (collectM (allocate_object M i) (pg_data p)) (\<lambda>objs.
     seqM (forM (pg_data p) (fill_object i (map_of objs)))
    (seqM (forM [0..<length (pg_vars p)] (load_var_at i (map_of objs) p vo))
    (seqM (load_entry i p)
     (whenM (pg_flags p AND HEADER_FLAG_FUN_INFOS \<noteq> 0)
       (forM (pg_fun_infos p) (\<lambda>info. set_fun_info (fo + unat (fi_fun_index info))
          (ucast (fi_eval_strategy info), ucast (fi_eval_strategy_mask info)))))))))))"

definition fun_count_of :: "program list \<Rightarrow> nat" where
  "fun_count_of ps = sum_list (map (\<lambda>p. length (pg_funs p)) ps)"

definition var_count_of :: "program list \<Rightarrow> nat" where
  "var_count_of ps = sum_list (map (\<lambda>p. length (pg_vars p)) ps)"

definition load_linked :: "memory \<Rightarrow> bool \<Rightarrow> u32 \<Rightarrow> program list \<Rightarrow> unit link" where
  "load_linked M is_auto_freeing default_strategy ps =
     seqM (set_env (\<lambda>e. set_var_count (var_count_of ps) (set_fun_count (fun_count_of ps) e)))
    (seqM (modify (\<lambda>s. s\<lparr>vb_has_entry := False\<rparr>))
    (bindM (allM (\<lambda>x. bindM (attempt (load_prog M is_auto_freeing x)) (\<lambda>r. ret (r \<noteq> None))) (with_offsets 0 0 0 ps)) (\<lambda>b.
     seqM (reset_unless b)
     (modify (\<lambda>s. s\<lparr>vb_triples := set_fun_infos_and_fun_count (env_fun_infos (vb_env s)) default_strategy\<rparr>)))))"

text \<open>\<open>ImplVirtualMachineBase::load\<close>.\<close>

definition load_vm :: "memory \<Rightarrow> bool \<Rightarrow> u32 \<Rightarrow> u8 list list \<Rightarrow> unit link" where
  "load_vm M is_auto_freeing default_strategy bss =
     bindM (load_programs (length bss > 1) 0 bss) (\<lambda>(ps, ok, is_relocable).
     seqM (reset_unless ok)
    (bindM (if is_relocable then link_programs ps else ret ps) (load_linked M is_auto_freeing default_strategy)))"

end
