(* ===== verification/Reloc_Correct.thy ===== *)
theory Reloc_Correct
  imports Relocation
begin

unbundle bit_operations_syntax

text \<open>
  Relocating a program that the loader accepted is safe and keeps it well-formed; and when it succeeds, every
  place that a relocation names holds the new index, and everything else is as before.
\<close>

section \<open>Safety\<close>

lemma wp_elem_at:
  assumes "\<not> (ucast a + 8 :: u64) > ucast addr" "k \<in> {2, 3}"
    and "\<And>j. j < n \<Longrightarrow> unat addr = unat a + 8 + j * 2 ^ k \<Longrightarrow> Q j p"
  shows "wp (elem_at addr a n k) Q p"
proof -
  let ?start = "ucast a + 8 :: u64" and ?d = "ucast addr - (ucast a + 8) :: u64"
  let ?n = "of_nat n * push_bit k 1 :: u32"
  have a: "unat ?start = unat a + 8"
    using unsigned_less [of a, where 'a = nat] by (simp add: unat_word_ariths)
  have d: "unat ?d = unat addr - (unat a + 8)" and le: "unat a + 8 \<le> unat addr"
    using assms(1) a by (simp_all add: unat_sub word_le_nat_alt not_less)
  have n: "unat ?n \<le> n * 2 ^ k" "unat (?start + ucast ?n) = unat a + 8 + unat ?n"
  proof -
    show "unat ?n \<le> n * 2 ^ k"
      using assms(2) by (auto simp: unat_word_ariths unat_of_nat push_bit_eq_mult mod_mult_left_eq)
    show "unat (?start + ucast ?n) = unat a + 8 + unat ?n"
      using a unsigned_less [of a, where 'a = nat] unsigned_less [of ?n, where 'a = nat]
      by (simp add: unat_word_ariths)
  qed
  have "Q (unat (drop_bit k ?d)) p" if c: "\<not> ?start + ucast ?n \<le> ucast addr" "\<not> ?d AND (push_bit k 1 - 1) \<noteq> 0"
  proof (rule assms(3))
    have lt: "unat addr < unat a + 8 + unat ?n" using c(1) n(2) by (simp add: word_le_nat_alt)
    have e: "unat (drop_bit k ?d) = (unat addr - (unat a + 8)) div 2 ^ k"
      using d assms(2) by (auto simp: drop_bit_eq_div unat_div)
    show "unat (drop_bit k ?d) < n"
      unfolding e using lt n(1) le by (simp add: less_mult_imp_div_less)
    have "take_bit k ?d = 0"
      using c(2) assms(2) by (auto simp: take_bit_eq_mask mask_eq_exp_minus_1 push_bit_eq_mult)
    then have "unat ?d mod 2 ^ k = 0"
      by (metis take_bit_eq_mod unat_0 unsigned_take_bit_eq)
    then have "(unat addr - (unat a + 8)) div 2 ^ k * 2 ^ k = unat addr - (unat a + 8)" using d by auto
    then show "unat addr = unat a + 8 + unat (drop_bit k ?d) * 2 ^ k" unfolding e using le by simp
  qed
  then show ?thesis unfolding elem_at_def Let_def by (auto simp: wp_rules)
qed

text \<open>What a relocation changes: an operand, an element of an object, or a variable.\<close>

datatype place = Arg1At nat | Arg2At nat | ElemAt u32 nat | VarAt nat

fun read_elem :: "nat \<Rightarrow> format_object \<Rightarrow> u64" where
  "read_elem j (FIArray32 xs) = scast (xs ! j)"
| "read_elem j (FIArray64 xs) = xs ! j"
| "read_elem j (FTuple xs) = fst (xs ! j)"
| "read_elem j _ = 0"

fun elem_valid :: "nat \<Rightarrow> format_object \<Rightarrow> bool" where
  "elem_valid j (FIArray32 xs) \<longleftrightarrow> j < length xs"
| "elem_valid j (FIArray64 xs) \<longleftrightarrow> j < length xs"
| "elem_valid j (FTuple xs) \<longleftrightarrow> j < length xs \<and> snd (xs ! j) = 0"
| "elem_valid j _ \<longleftrightarrow> False"

fun valid_place :: "program \<Rightarrow> place \<Rightarrow> bool" where
  "valid_place p (Arg1At i) \<longleftrightarrow> i < length (pg_code p)"
| "valid_place p (Arg2At i) \<longleftrightarrow> i < length (pg_code p)"
| "valid_place p (ElemAt a j) \<longleftrightarrow> (case map_of (pg_data p) a of Some ob \<Rightarrow> elem_valid j ob | None \<Rightarrow> False)"
| "valid_place p (VarAt i) \<longleftrightarrow> i < length (pg_vars p) \<and> fv_type (pg_vars p ! i) = 0"

fun read_place :: "program \<Rightarrow> place \<Rightarrow> u64" where
  "read_place p (Arg1At i) = ucast (i_arg1 (pg_code p ! i))"
| "read_place p (Arg2At i) = ucast (i_arg2 (pg_code p ! i))"
| "read_place p (ElemAt a j) = (case map_of (pg_data p) a of Some ob \<Rightarrow> read_elem j ob | None \<Rightarrow> 0)"
| "read_place p (VarAt i) = fv_i (pg_vars p ! i)"

fun write_place :: "place \<Rightarrow> u64 \<Rightarrow> program \<Rightarrow> program" where
  "write_place (Arg1At i) x p = p\<lparr>pg_code := (pg_code p)[i := (pg_code p ! i)\<lparr>i_arg1 := ucast x\<rparr>]\<rparr>"
| "write_place (Arg2At i) x p = p\<lparr>pg_code := (pg_code p)[i := (pg_code p ! i)\<lparr>i_arg2 := ucast x\<rparr>]\<rparr>"
| "write_place (ElemAt a j) x p = p\<lparr>pg_data := map (\<lambda>(b, ob). (b, if b = a then put_elem j x ob else ob)) (pg_data p)\<rparr>"
| "write_place (VarAt i) x p = p\<lparr>pg_vars := (pg_vars p)[i := (pg_vars p ! i)\<lparr>fv_i := x\<rparr>]\<rparr>"

text \<open>What is left of an index in a place: 32 bits in an operand and in an element of 32 bits.\<close>

fun stored :: "program \<Rightarrow> place \<Rightarrow> u64 \<Rightarrow> u64" where
  "stored p (Arg1At i) x = ucast (ucast x :: u32)"
| "stored p (Arg2At i) x = ucast (ucast x :: u32)"
| "stored p (ElemAt a j) x = (case map_of (pg_data p) a of Some (FIArray32 _) \<Rightarrow> scast (ucast x :: u32) | _ \<Rightarrow> x)"
| "stored p (VarAt i) x = x"

lemma map_of_set_elem:
  "map_of (map (\<lambda>(b, ob). (b, if b = a then f ob else ob)) obs) c
    = map_option (\<lambda>ob. if c = a then f ob else ob) (map_of obs c)"
  by (induction obs) auto

text \<open>Places are independent registers.\<close>

locale cells =
  fixes rd :: "'s \<Rightarrow> 'k \<Rightarrow> 'v" and wr :: "'k \<Rightarrow> 'v \<Rightarrow> 's \<Rightarrow> 's"
    and ok :: "'s \<Rightarrow> 'k \<Rightarrow> bool" and cut :: "'s \<Rightarrow> 'k \<Rightarrow> 'v \<Rightarrow> 'v"
  assumes rd_wr: "ok s k \<Longrightarrow> rd (wr k x s) k = cut s k x"
    and rd_wr_other: "ok s k \<Longrightarrow> j \<noteq> k \<Longrightarrow> rd (wr k x s) j = rd s j"
    and ok_wr: "ok s k \<Longrightarrow> ok (wr k x s) j = ok s j"
    and cut_wr: "ok s k \<Longrightarrow> cut (wr k x s) j = cut s j"
begin

lemma writes:
  assumes "distinct (map fst kxs)" "\<forall>k\<in>fst ` set kxs. ok s k"
  shows "rd (fold (\<lambda>(k, x). wr k x) kxs s) j = (case map_of kxs j of None \<Rightarrow> rd s j | Some x \<Rightarrow> cut s j x)"
  using assms
proof (induction kxs arbitrary: s)
  case (Cons kx kxs)
  obtain k x where kx: "kx = (k, x)" by (cases kx)
  have ok: "ok s k" using Cons.prems(2) kx by simp
  have "rd (fold (\<lambda>(k, x). wr k x) kxs (wr k x s)) j
      = (case map_of kxs j of None \<Rightarrow> rd (wr k x s) j | Some x' \<Rightarrow> cut (wr k x s) j x')"
    by (rule Cons.IH) (use Cons.prems ok_wr [OF ok] in auto)
  moreover have "map_of kxs k = None" using Cons.prems(1) kx by (auto simp: map_of_eq_None_iff)
  ultimately show ?case
    using kx rd_wr [OF ok] rd_wr_other [OF ok] cut_wr [OF ok] by (auto split: option.split)
qed simp

end

lemma elem_valid_set [simp]: "elem_valid j ob \<Longrightarrow> elem_valid i (put_elem j x ob) = elem_valid i ob"
  by (cases ob) (auto simp: nth_list_update)

lemma read_set_elem:
  "elem_valid j ob \<Longrightarrow> read_elem j (put_elem j x ob) = (case ob of FIArray32 _ \<Rightarrow> scast (ucast x :: u32) | _ \<Rightarrow> x)"
  "elem_valid j ob \<Longrightarrow> i \<noteq> j \<Longrightarrow> read_elem i (put_elem j x ob) = read_elem i ob"
  by (cases ob; auto)+

interpretation pl: cells read_place write_place valid_place stored
proof
  fix s k j x
  assume ok: "valid_place s k"
  show "read_place (write_place k x s) k = stored s k x"
    using ok by (cases k) (auto simp: map_of_set_elem read_set_elem split: option.splits format_object.split)
  show "read_place (write_place k x s) j = read_place s j" if "j \<noteq> k"
    using ok that by (cases k; cases j) (auto simp: nth_list_update map_of_set_elem read_set_elem split: option.splits)
  show "valid_place (write_place k x s) j = valid_place s j"
    using ok by (cases k; cases j) (auto simp: nth_list_update map_of_set_elem split: option.splits)
  show "stored (write_place k x s) j = stored s j"
    using ok by (cases k; cases j) (auto simp: fun_eq_iff map_of_set_elem split: option.splits format_object.split elim: elem_valid.elims)
qed

text \<open>Writing a place keeps a program well-formed.\<close>

lemma elems_set_elem [simp]:
  "elem_valid j ob \<Longrightarrow> elems_size (put_elem j x ob) = elems_size ob"
  "elem_valid j ob \<Longrightarrow> elem_types_ok ob \<Longrightarrow> elem_types_ok (put_elem j x ob)"
  by (cases ob; auto dest!: set_update_subset_insert [THEN subsetD])+

lemma objects_apart_addrs:
  "objects_apart lo hi obs \<Longrightarrow> (a, ob) \<in> set obs \<Longrightarrow> lo \<le> unat a"
proof (induction obs arbitrary: lo)
  case (Cons b obs)
  obtain c oc where b: "b = (c, oc)" by (cases b)
  show ?case using Cons.IH [of "unat c + 8 + elems_size oc"] Cons.prems b by auto
qed simp

lemma objects_apart_distinct: "objects_apart lo hi obs \<Longrightarrow> distinct (map fst obs)"
proof (induction lo hi obs rule: objects_apart.induct)
  case (2 lo hi a ob obs)
  then show ?case using objects_apart_addrs [of "unat a + 8 + elems_size ob" hi obs] by force
qed simp

lemma objects_apart_map:
  assumes "\<And>b ob. (b, ob) \<in> set obs \<Longrightarrow> elems_size (f b ob) = elems_size ob \<and> (elem_types_ok ob \<longrightarrow> elem_types_ok (f b ob))"
  shows "objects_apart lo hi obs \<Longrightarrow> objects_apart lo hi (map (\<lambda>(b, ob). (b, f b ob)) obs)"
  using assms by (induction lo hi obs rule: objects_apart.induct) auto

lemma program_ok_objects: "program_ok p \<Longrightarrow> distinct (map fst (pg_data p))"
  using objects_apart_distinct by (auto simp: program_ok_def)

lemma write_place_fields [simp]:
  "pg_flags (write_place k x p) = pg_flags p" "pg_entry (write_place k x p) = pg_entry p"
  "pg_funs (write_place k x p) = pg_funs p" "pg_relocs (write_place k x p) = pg_relocs p"
  "pg_symbols (write_place k x p) = pg_symbols p" "pg_fun_infos (write_place k x p) = pg_fun_infos p"
  "pg_fun_offset (write_place k x p) = pg_fun_offset p" "pg_var_offset (write_place k x p) = pg_var_offset p"
  "length (pg_code (write_place k x p)) = length (pg_code p)"
  "length (pg_vars (write_place k x p)) = length (pg_vars p)"
  "fst ` set (pg_data (write_place k x p)) = fst ` set (pg_data p)"
  by (cases k; force)+

lemma program_ok_write:
  assumes p: "program_ok p" and k: "valid_place p k"
  shows "program_ok (write_place k x p)"
proof -
  have "\<exists>hi < 2 ^ 32. objects_apart 0 hi (pg_data (write_place k x p))"
  proof (cases k)
    case (ElemAt a j)
    obtain hi where hi: "hi < 2 ^ 32" "objects_apart 0 hi (pg_data p)" using p by (auto simp: program_ok_def)
    have "map_of (pg_data p) a = Some ob" if "(a, ob) \<in> set (pg_data p)" for ob
      using that program_ok_objects [OF p] by simp
    then have "objects_apart 0 hi (map (\<lambda>(b, ob). (b, if b = a then put_elem j x ob else ob)) (pg_data p))"
      using hi(2) k ElemAt by (intro objects_apart_map) auto
    then show ?thesis using hi(1) ElemAt by auto
  qed (use p in \<open>auto simp: program_ok_def\<close>)
  moreover have "fv_type v \<in> VALUE_TYPES \<and> (fv_type v = 2 \<longrightarrow> ucast (fv_i v) \<in> fst ` set (pg_data p))"
    if v: "v \<in> set (pg_vars (write_place k x p))" for v
  proof (cases "v \<in> set (pg_vars p)")
    case False
    then obtain i where "k = VarAt i" "v = (pg_vars p ! i)\<lparr>fv_i := x\<rparr>" "fv_type (pg_vars p ! i) = 0"
      using v k by (cases k) (auto dest: set_update_subset_insert [THEN subsetD])
    then show ?thesis by simp
  qed (use p in \<open>simp add: program_ok_def\<close>)
  ultimately show ?thesis using p unfolding program_ok_def by simp
qed

section \<open>One relocation\<close>

fun elem_width :: "format_object \<Rightarrow> nat" where
  "elem_width (FIArray32 xs) = 4"
| "elem_width ob = 8"

text \<open>The place that a relocation names by its type and address.\<close>

fun names :: "program \<Rightarrow> format_reloc \<Rightarrow> place \<Rightarrow> bool" where
  "names p r (Arg1At i) \<longleftrightarrow> rl_type r AND NOT RELOC_TYPE_SYMBOLIC \<in> {0, 2, 6} \<and> unat (rl_addr r) = i"
| "names p r (Arg2At i) \<longleftrightarrow> rl_type r AND NOT RELOC_TYPE_SYMBOLIC \<in> {1, 3, 7} \<and> unat (rl_addr r) = i"
| "names p r (ElemAt a j) \<longleftrightarrow> rl_type r AND NOT RELOC_TYPE_SYMBOLIC \<in> {4, 8} \<and>
     (case map_of (pg_data p) a of Some ob \<Rightarrow> unat (rl_addr r) = unat a + 8 + j * elem_width ob | None \<Rightarrow> False)"
| "names p r (VarAt i) \<longleftrightarrow> rl_type r AND NOT RELOC_TYPE_SYMBOLIC \<in> {5, 9} \<and> unat (rl_addr r) = i"

text \<open>The index that a relocation makes of what its place holds.\<close>

definition target :: "u64 \<Rightarrow> u64 \<Rightarrow> index_tables \<Rightarrow> program \<Rightarrow> format_reloc \<Rightarrow> u64 \<Rightarrow> u64 option" where
  "target fun_offset var_offset T p r x =
     (let k = rl_type r AND NOT RELOC_TYPE_SYMBOLIC; name = sy_name (pg_symbols p ! unat (rl_symbol r)) in
      if k \<in> {6, 7, 8, 9} then
        (if is_symbolic r then map_option scast (it_natives T name) else Some (scast (ucast x :: u32)))
      else if k \<in> {2, 3} then
        (if is_symbolic r then it_vars T name else Some (x - pg_var_offset p + var_offset))
      else
        (if is_symbolic r then it_funs T name
         else Some ((if k \<in> {0, 1} then scast (ucast x :: u32) else x) - pg_fun_offset p + fun_offset)))"

lemma wp_locate_elem:
  assumes p: "program_ok p"
    and Q: "\<And>a j w ob. map_of (pg_data p) a = Some ob \<Longrightarrow> elem_valid j ob \<Longrightarrow>
      unat addr = unat a + 8 + j * elem_width ob \<Longrightarrow> Q (a, j, w, read_elem j ob) p"
  shows "wp (locate_elem addr) Q p"
proof (cases "object_before (pg_data p) addr")
  case None
  then show ?thesis by (simp add: locate_elem_def wp_rules)
next
  case (Some aob)
  obtain a ob where aob: "aob = (a, ob)" by (cases aob)
  have "(a, ob) \<in> set (pg_data p)"
  proof -
    let ?f = "filter (\<lambda>(a, ob). a \<le> addr) (pg_data p)"
    have "?f \<noteq> []" "(a, ob) = last ?f"
      using Some aob by (auto simp: object_before_def split: list.splits)
    then have "(a, ob) \<in> set ?f" using last_in_set by metis
    then show ?thesis by simp
  qed
  then have m: "map_of (pg_data p) a = Some ob" using program_ok_objects [OF p] by simp
  have Q': "elem_valid j ob \<Longrightarrow> unat addr = unat a + 8 + j * elem_width ob \<Longrightarrow> Q (a, j, w, read_elem j ob) p" for j w
    by (rule Q [OF m])
  show ?thesis
  proof (cases ob)
    case (FTuple xs)
    have "Q (a, j, True, fst (xs ! j)) p" if "j < length xs" "unat addr = unat a + 8 + j * 8" "snd (xs ! j) = 0" for j
      using Q' [of j True] that FTuple by simp
    then show ?thesis using Some aob FTuple unfolding locate_elem_def
      by (auto simp: wp_rules element_def not_less case_prod_beta' intro!: wp_elem_at)
  qed (use Some aob Q' in \<open>auto simp: locate_elem_def wp_rules element_def not_less intro!: wp_elem_at\<close>)
qed

lemma narrow_wide [simp]:
  "ucast (ucast (x :: u32) :: u64) = x" "ucast (scast (x :: u32) :: u64) = x"
  by (rule bit_word_eqI; simp add: bit_simps)+

lemma wp_reloc_symbol [wp_rules]:
  "wp (reloc_symbol r) Q = (\<lambda>p. unat (rl_symbol r) < length (pg_symbols p) \<and> Q (pg_symbols p ! unat (rl_symbol r)) p)"
  by (auto simp: wp_def reloc_symbol_def fun_eq_iff)

lemma wp_relocate_index:
  assumes "is_symbolic r \<Longrightarrow> unat (rl_symbol r) < length (pg_symbols p)"
    and "\<And>i. (if is_symbolic r then tbl (sy_name (pg_symbols p ! unat (rl_symbol r))) = Some i
        else i = x - (if st = SYMBOL_TYPE_FUN then pg_fun_offset p else pg_var_offset p) + off) \<Longrightarrow> Q i p"
  shows "wp (relocate_index x off tbl r st) Q p"
proof (cases "is_symbolic r")
  case True
  have "wp (reloc_symbol r) (\<lambda>y. wp (seqM (check (\<not> sy_type y AND NOT SYMBOL_TYPE_DEFINED \<noteq> st))
       (case tbl (sy_name y) of None \<Rightarrow> fail
        | Some i \<Rightarrow> seqM (check (\<not> i > UINT32_MAX)) (ret i))) Q) p"
    using assms True by (auto simp: wp_rules split: option.split)
  then show ?thesis using True by (simp add: relocate_index_def wp_rules)
next
  case False
  then show ?thesis using assms(2) by (auto simp: relocate_index_def wp_rules Let_def)
qed

lemma wp_relocate_native_fun_index:
  assumes "is_symbolic r \<Longrightarrow> unat (rl_symbol r) < length (pg_symbols p)"
    and "\<And>i. (if is_symbolic r then tbl (sy_name (pg_symbols p ! unat (rl_symbol r))) = Some i else i = x) \<Longrightarrow> Q i p"
  shows "wp (relocate_native_fun_index x tbl r) Q p"
proof (cases "is_symbolic r")
  case True
  have "wp (reloc_symbol r) (\<lambda>y. wp (seqM (check (\<not> sy_type y \<noteq> SYMBOL_TYPE_NATIVE_FUN))
       (case tbl (sy_name y) of None \<Rightarrow> fail | Some i \<Rightarrow> ret i)) Q) p"
    using assms True by (auto simp: wp_rules split: option.split)
  then show ?thesis using True by (simp add: relocate_native_fun_index_def wp_rules)
qed (use assms in \<open>simp add: relocate_native_fun_index_def wp_rules\<close>)

lemma wp_get_elem:
  assumes "program_ok p" "\<And>a j ob. map_of (pg_data p) a = Some ob \<Longrightarrow> elem_valid j ob \<Longrightarrow>
      unat addr = unat a + 8 + j * elem_width ob \<Longrightarrow> Q (a, j, read_elem j ob) p"
  shows "wp (get_elem_fun_index addr n) Q p"
  unfolding get_elem_fun_index_def wp_bindM
  by (rule wp_locate_elem [OF assms(1)]) (use assms(2) in \<open>auto simp: wp_rules\<close>)

text \<open>What one relocation does, when it does not fail.\<close>

definition relocated :: "u64 \<Rightarrow> u64 \<Rightarrow> index_tables \<Rightarrow> format_reloc \<Rightarrow> program \<Rightarrow> program \<Rightarrow> bool" where
  "relocated fun_offset var_offset T r p p' \<longleftrightarrow> (\<exists>k x. names p r k \<and> valid_place p k \<and>
     target fun_offset var_offset T p r (read_place p k) = Some x \<and> p' = write_place k x p)"

lemma relocatedI:
  "names p r k \<Longrightarrow> valid_place p k \<Longrightarrow> target fo vo T p r (read_place p k) = Some x \<Longrightarrow>
   p' = write_place k x p \<Longrightarrow> relocated fo vo T r p p'"
  unfolding relocated_def by blast

lemma wp_code_at: "(unat addr < length (pg_code p) \<Longrightarrow> Q (pg_code p ! unat addr) p) \<Longrightarrow> wp (code_at addr) Q p"
  by (auto simp: code_at_def wp_rules)

lemma wp_var_at: "(unat addr < length (pg_vars p) \<Longrightarrow> Q (pg_vars p ! unat addr) p) \<Longrightarrow> wp (var_at addr) Q p"
  by (auto simp: var_at_def wp_rules)

lemmas wp_changes = put_code_def put_var_def set_elem_fun_index_def

lemma reloc_kinds:
  assumes "reloc_type_ok flags t"
  shows "t AND NOT RELOC_TYPE_SYMBOLIC \<in> {0, 1, 2, 3, 4, 5} \<or>
    t AND NOT RELOC_TYPE_SYMBOLIC \<in> {6, 7, 8, 9} \<and> flags AND HEADER_FLAG_NATIVE_FUN_SYMBOLS \<noteq> 0"
  using assms by (auto simp: reloc_type_ok_def Let_def)

lemma wp_relocate_one:
  assumes p: "program_ok p" and r: "r \<in> set (pg_relocs p)"
  shows "wp (relocate_one fo vo T r) (\<lambda>_. relocated fo vo T r p) p"
proof -
  let ?k = "rl_type r AND NOT RELOC_TYPE_SYMBOLIC"
  have sym: "is_symbolic r \<Longrightarrow> unat (rl_symbol r) < length (pg_symbols p)"
    and kinds: "?k \<in> {0, 1, 2, 3, 4, 5} \<or> ?k \<in> {6, 7, 8, 9} \<and> pg_flags p AND HEADER_FLAG_NATIVE_FUN_SYMBOLS \<noteq> 0"
    using p r reloc_kinds by (auto simp: program_ok_def)
  have arg1: "relocated fo vo T r p (p\<lparr>pg_code := (pg_code p)[unat (rl_addr r) := (pg_code p ! unat (rl_addr r))\<lparr>i_arg1 := i\<rparr>]\<rparr>)"
    if "unat (rl_addr r) < length (pg_code p)" "?k \<in> {0, 2, 6}" "i = ucast x"
      "target fo vo T p r (ucast (i_arg1 (pg_code p ! unat (rl_addr r)))) = Some x" for i x
    by (rule relocatedI [of _ _ "Arg1At (unat (rl_addr r))"]) (use that in auto)
  have arg2: "relocated fo vo T r p (p\<lparr>pg_code := (pg_code p)[unat (rl_addr r) := (pg_code p ! unat (rl_addr r))\<lparr>i_arg2 := i\<rparr>]\<rparr>)"
    if "unat (rl_addr r) < length (pg_code p)" "?k \<in> {1, 3, 7}" "i = ucast x"
      "target fo vo T p r (ucast (i_arg2 (pg_code p ! unat (rl_addr r)))) = Some x" for i x
    by (rule relocatedI [of _ _ "Arg2At (unat (rl_addr r))"]) (use that in auto)
  have elem: "relocated fo vo T r p (p\<lparr>pg_data := map (\<lambda>(b, ob). (b, if b = a then put_elem j x ob else ob)) (pg_data p)\<rparr>)"
    if "map_of (pg_data p) a = Some ob" "elem_valid j ob" "unat (rl_addr r) = unat a + 8 + j * elem_width ob"
      "?k \<in> {4, 8}" "target fo vo T p r (read_elem j ob) = Some x" for a j ob x
    by (rule relocatedI [of _ _ "ElemAt a j"]) (use that in auto)
  have var: "relocated fo vo T r p (p\<lparr>pg_vars := (pg_vars p)[unat (rl_addr r) := (pg_vars p ! unat (rl_addr r))\<lparr>fv_i := x\<rparr>]\<rparr>)"
    if "unat (rl_addr r) < length (pg_vars p)" "fv_type (pg_vars p ! unat (rl_addr r)) = 0" "?k \<in> {5, 9}"
      "target fo vo T p r (fv_i (pg_vars p ! unat (rl_addr r))) = Some x" for x
    by (rule relocatedI [of _ _ "VarAt (unat (rl_addr r))"]) (use that in auto)
  consider "?k = 0" | "?k = 1" | "?k = 2" | "?k = 3" | "?k = 4" | "?k = 5"
    | "?k = 6" "pg_flags p AND HEADER_FLAG_NATIVE_FUN_SYMBOLS \<noteq> 0"
    | "?k = 7" "pg_flags p AND HEADER_FLAG_NATIVE_FUN_SYMBOLS \<noteq> 0"
    | "?k = 8" "pg_flags p AND HEADER_FLAG_NATIVE_FUN_SYMBOLS \<noteq> 0"
    | "?k = 9" "pg_flags p AND HEADER_FLAG_NATIVE_FUN_SYMBOLS \<noteq> 0"
    using kinds by auto
  then show ?thesis
  proof cases
    case 1
    then show ?thesis
      by (auto simp: relocate_one_def Let_def wp_rules wp_changes target_def split: if_splits
        intro!: wp_code_at wp_relocate_index [OF sym] arg1)
  next
    case 2
    then show ?thesis
      by (auto simp: relocate_one_def Let_def wp_rules wp_changes target_def split: if_splits
        intro!: wp_code_at wp_relocate_index [OF sym] arg2)
  next
    case 3
    then show ?thesis
      by (auto simp: relocate_one_def Let_def wp_rules wp_changes target_def split: if_splits
        intro!: wp_code_at wp_relocate_index [OF sym] arg1)
  next
    case 4
    then show ?thesis
      by (auto simp: relocate_one_def Let_def wp_rules wp_changes target_def split: if_splits
        intro!: wp_code_at wp_relocate_index [OF sym] arg2)
  next
    case 5
    then show ?thesis
      by (auto simp: relocate_one_def Let_def wp_rules wp_changes target_def split: if_splits
        intro!: wp_get_elem [OF p] wp_relocate_index [OF sym] elem)
  next
    case 6
    then show ?thesis
      by (auto simp: relocate_one_def Let_def wp_rules wp_changes target_def split: if_splits
        intro!: wp_var_at wp_relocate_index [OF sym] var)
  next
    case 7
    then show ?thesis
      by (auto simp: relocate_one_def Let_def wp_rules wp_changes target_def relocate_native_def split: if_splits
        intro!: wp_code_at wp_relocate_native_fun_index [OF sym] arg1 [where x = "scast _"])
  next
    case 8
    then show ?thesis
      by (auto simp: relocate_one_def Let_def wp_rules wp_changes target_def relocate_native_def split: if_splits
        intro!: wp_code_at wp_relocate_native_fun_index [OF sym] arg2 [where x = "scast _"])
  next
    case 9
    then show ?thesis
      by (auto simp: relocate_one_def Let_def wp_rules wp_changes target_def relocate_native_def split: if_splits
        intro!: wp_get_elem [OF p] wp_relocate_native_fun_index [OF sym] elem)
  next
    case 10
    then show ?thesis
      by (auto simp: relocate_one_def Let_def wp_rules wp_changes target_def relocate_native_def split: if_splits
        intro!: wp_var_at wp_relocate_native_fun_index [OF sym] var)
  qed
qed

section \<open>All relocations\<close>

lemma names_write [simp]: "valid_place p k \<Longrightarrow> names (write_place k x p) r l = names p r l"
proof -
  assume k: "valid_place p k"
  have "elem_width (put_elem j x ob) = elem_width ob" for j ob by (cases ob) auto
  then show ?thesis using k by (cases k; cases l) (auto simp: map_of_set_elem split: option.splits)
qed

lemma target_write [simp]: "target fo vo T (write_place k x p) = target fo vo T p"
  by (simp add: target_def fun_eq_iff Let_def cong: if_cong)

text \<open>Two relocations never name the same place.\<close>

definition separate :: "program \<Rightarrow> bool" where
  "separate p \<longleftrightarrow> sorted_wrt (\<lambda>r q. \<not> (\<exists>k. names p r k \<and> names p q k)) (pg_relocs p)"

lemma wp_relocations:
  assumes "program_ok p" "set rs \<subseteq> set (pg_relocs p)"
    and "sorted_wrt (\<lambda>r q. \<not> (\<exists>k. names p r k \<and> names p q k)) rs"
  shows "wp (forM rs (relocate_one fo vo T)) (\<lambda>_ p'. \<exists>kxs. distinct (map fst kxs) \<and>
    list_all2 (\<lambda>r kx. names p r (fst kx) \<and> valid_place p (fst kx) \<and>
      target fo vo T p r (read_place p (fst kx)) = Some (snd kx)) rs kxs \<and>
    p' = fold (\<lambda>(k, x). write_place k x) kxs p) p"
  using assms
proof (induction rs arbitrary: p)
  case Nil
  then show ?case by (simp add: wp_rules)
next
  case (Cons r rs)
  have "wp (forM rs (relocate_one fo vo T)) (\<lambda>_ p'. \<exists>kxs. distinct (map fst kxs) \<and>
      list_all2 (\<lambda>r kx. names p r (fst kx) \<and> valid_place p (fst kx) \<and>
        target fo vo T p r (read_place p (fst kx)) = Some (snd kx)) (r # rs) kxs \<and>
      p' = fold (\<lambda>(k, x). write_place k x) kxs p) p1" if p1: "relocated fo vo T r p p1" for p1
  proof -
    obtain k x where k: "names p r k" "valid_place p k" "target fo vo T p r (read_place p k) = Some x"
        "p1 = write_place k x p"
      using p1 by (auto simp: relocated_def)
    have "wp (forM rs (relocate_one fo vo T)) (\<lambda>_ p'. \<exists>kxs. distinct (map fst kxs) \<and>
        list_all2 (\<lambda>r kx. names p1 r (fst kx) \<and> valid_place p1 (fst kx) \<and>
          target fo vo T p1 r (read_place p1 (fst kx)) = Some (snd kx)) rs kxs \<and>
        p' = fold (\<lambda>(k, x). write_place k x) kxs p1) p1"
      using Cons.prems k(2) by (intro Cons.IH) (auto simp: k(4) intro: program_ok_write)
    then show ?thesis
    proof (rule wp_mono)
      fix p' assume "\<exists>kxs. distinct (map fst kxs) \<and>
        list_all2 (\<lambda>r kx. names p1 r (fst kx) \<and> valid_place p1 (fst kx) \<and>
          target fo vo T p1 r (read_place p1 (fst kx)) = Some (snd kx)) rs kxs \<and>
        p' = fold (\<lambda>(k, x). write_place k x) kxs p1"
      then obtain kxs where kxs: "distinct (map fst kxs)"
          "list_all2 (\<lambda>r kx. names p r (fst kx) \<and> valid_place p (fst kx) \<and>
            target fo vo T p r (read_place p1 (fst kx)) = Some (snd kx)) rs kxs"
          "p' = fold (\<lambda>(k, x). write_place k x) kxs p1"
        using k(2) by (auto simp: k(4) pl.ok_wr)
      have other: "fst kx \<noteq> k" if kx: "kx \<in> set kxs" for kx
      proof -
        obtain i where "i < length kxs" "kx = kxs ! i" using kx by (auto simp: in_set_conv_nth)
        then have "rs ! i \<in> set rs \<and> names p (rs ! i) (fst kx)"
          using kxs(2) by (auto simp: list_all2_conv_all_nth)
        then show ?thesis using Cons.prems(3) k(1) by auto
      qed
      have "read_place p1 (fst kx) = read_place p (fst kx)" if "kx \<in> set kxs" for kx
        using pl.rd_wr_other [OF k(2) other [OF that]] by (simp add: k(4))
      then have "read_place p1 (fst (kxs ! i)) = read_place p (fst (kxs ! i))" if "i < length kxs" for i
        using that nth_mem by blast
      then have "list_all2 (\<lambda>r kx. names p r (fst kx) \<and> valid_place p (fst kx) \<and>
          target fo vo T p r (read_place p (fst kx)) = Some (snd kx)) rs kxs"
        using kxs(2) unfolding list_all2_conv_all_nth by metis
      then show "\<exists>kxs. distinct (map fst kxs) \<and>
          list_all2 (\<lambda>r kx. names p r (fst kx) \<and> valid_place p (fst kx) \<and>
            target fo vo T p r (read_place p (fst kx)) = Some (snd kx)) (r # rs) kxs \<and>
          p' = fold (\<lambda>(k, x). write_place k x) kxs p"
        using kxs(1,3) k other by (intro exI [of _ "(k, x) # kxs"]) auto
    qed
  qed
  moreover have "wp (relocate_one fo vo T r) (\<lambda>_. relocated fo vo T r p) p"
    by (rule wp_relocate_one) (use Cons.prems in auto)
  ultimately show ?case by (auto simp: wp_rules elim!: wp_mono)
qed

lemma wp_relocate:
  assumes "\<And>q. program_ok q \<Longrightarrow> R q \<Longrightarrow> Q () q"
    and "wp (forM (pg_relocs p) (relocate_one fo vo T)) (\<lambda>_ q. program_ok q \<and>
      R (q\<lparr>pg_entry := (if pg_flags q AND HEADER_FLAG_LIBRARY = 0 then pg_entry q - pg_fun_offset q + fo else pg_entry q),
           pg_fun_offset := fo, pg_var_offset := vo\<rparr>)) p"
  shows "wp (relocate fo vo T) Q p"
  unfolding relocate_def wp_rules
proof (rule wp_mono [OF assms(2)])
  fix u and q :: program
  let ?q = "q\<lparr>pg_entry := (if pg_flags q AND HEADER_FLAG_LIBRARY = 0 then pg_entry q - pg_fun_offset q + fo else pg_entry q),
           pg_fun_offset := fo, pg_var_offset := vo\<rparr>"
  assume q: "program_ok q \<and> R ?q"
  have "program_ok ?q" using q unfolding program_ok_def by simp
  then show "Q () ((if pg_flags q AND HEADER_FLAG_LIBRARY = 0 then q\<lparr>pg_entry := pg_entry q - pg_fun_offset q + fo\<rparr> else q)
      \<lparr>pg_fun_offset := fo, pg_var_offset := vo\<rparr>)"
    using q assms(1) [of ?q] by (auto split: if_splits)
qed

lemma wp_relocations_safe:
  assumes p: "program_ok p"
  shows "wp (forM (pg_relocs p) (relocate_one fo vo T)) (\<lambda>_ q. program_ok q \<and> pg_relocs q = pg_relocs p \<and>
    pg_symbols q = pg_symbols p \<and> pg_flags q = pg_flags p \<and> pg_funs q = pg_funs p \<and>
    length (pg_vars q) = length (pg_vars p)) p"
proof (rule wp_forM [where I = "\<lambda>q. program_ok q \<and> pg_relocs q = pg_relocs p \<and>
    pg_symbols q = pg_symbols p \<and> pg_flags q = pg_flags p \<and> pg_funs q = pg_funs p \<and>
    length (pg_vars q) = length (pg_vars p)"])
  fix r q
  assume r: "r \<in> set (pg_relocs p)" and q: "program_ok q \<and> pg_relocs q = pg_relocs p \<and>
    pg_symbols q = pg_symbols p \<and> pg_flags q = pg_flags p \<and> pg_funs q = pg_funs p \<and>
    length (pg_vars q) = length (pg_vars p)"
  then have "wp (relocate_one fo vo T r) (\<lambda>_. relocated fo vo T r q) q" by (intro wp_relocate_one) auto
  then show "wp (relocate_one fo vo T r) (\<lambda>_ q. program_ok q \<and> pg_relocs q = pg_relocs p \<and>
    pg_symbols q = pg_symbols p \<and> pg_flags q = pg_flags p \<and> pg_funs q = pg_funs p \<and>
    length (pg_vars q) = length (pg_vars p)) q"
    using q by (auto simp: relocated_def elim!: wp_mono intro: program_ok_write)
qed (use p in auto)

text \<open>A program of one instruction and one variable that both hold the index of a function; the variable
  takes that of a symbol.\<close>

definition sample :: program where
  "sample = \<lparr>pg_flags = 3, pg_entry = 0,
     pg_funs = [\<lparr>ff_addr = 0, ff_arg_count = 0, ff_instr_count = 1\<rparr>],
     pg_vars = [\<lparr>fv_type = 0, fv_i = 0\<rparr>], pg_code = [\<lparr>i_opcode = 0x20000, i_arg1 = 1, i_arg2 = 9\<rparr>], pg_data = [],
     pg_relocs = [\<lparr>rl_type = 0, rl_addr = 0, rl_symbol = 0\<rparr>, \<lparr>rl_type = 5 OR RELOC_TYPE_SYMBOLIC, rl_addr = 0, rl_symbol = 0\<rparr>],
     pg_symbols = [\<lparr>sy_index = 0, sy_type = SYMBOL_TYPE_FUN, sy_name = [102]\<rparr>],
     pg_fun_infos = [], pg_fun_offset = 0, pg_var_offset = 0\<rparr>"

definition sample_tables :: index_tables where
  "sample_tables = \<lparr>it_funs = [[102] \<mapsto> 3], it_vars = (\<lambda>_. None), it_natives = (\<lambda>_. None)\<rparr>"

lemma sample_run:
  "relocate 7 8 sample_tables sample = (Done (), sample\<lparr>pg_vars := [\<lparr>fv_type = 0, fv_i = 3\<rparr>],
     pg_code := [\<lparr>i_opcode = 0x20000, i_arg1 = 8, i_arg2 = 9\<rparr>], pg_fun_offset := 7, pg_var_offset := 8\<rparr>)"
  by code_simp

lemma sample_ok: "program_ok sample" "separate sample"
proof -
  show "program_ok sample"
    unfolding program_ok_def sample_def by (auto intro: exI [of _ 0] simp: is_symbolic_def reloc_type_ok_def symbol_type_ok_def)
  have "\<not> (names p \<lparr>rl_type = 0, rl_addr = 0, rl_symbol = 0\<rparr> k \<and>
      names p \<lparr>rl_type = 5 OR RELOC_TYPE_SYMBOLIC, rl_addr = 0, rl_symbol = 0\<rparr> k)" for p k
    by (cases k) auto
  then show "separate sample" by (simp add: separate_def sample_def)
qed

lemma relocate_outcome:
  assumes "program_ok p"
  shows "(\<exists>u q. relocate fo vo T p = (Done u, q) \<and> program_ok q \<and> pg_relocs q = pg_relocs p \<and>
      pg_symbols q = pg_symbols p \<and> pg_flags q = pg_flags p \<and> pg_funs q = pg_funs p \<and>
      length (pg_vars q) = length (pg_vars p) \<and> pg_fun_offset q = fo \<and> pg_var_offset q = vo) \<or>
    fst (relocate fo vo T p) = Failed"
proof -
  have "wp (relocate fo vo T) (\<lambda>_ q. program_ok q \<and> pg_relocs q = pg_relocs p \<and>
      pg_symbols q = pg_symbols p \<and> pg_flags q = pg_flags p \<and> pg_funs q = pg_funs p \<and>
      length (pg_vars q) = length (pg_vars p) \<and> pg_fun_offset q = fo \<and> pg_var_offset q = vo) p"
    by (rule wp_relocate [where R = "\<lambda>q. pg_relocs q = pg_relocs p \<and>
      pg_symbols q = pg_symbols p \<and> pg_flags q = pg_flags p \<and> pg_funs q = pg_funs p \<and>
      length (pg_vars q) = length (pg_vars p) \<and> pg_fun_offset q = fo \<and> pg_var_offset q = vo"])
      (use wp_relocations_safe [OF assms] in auto)
  then show ?thesis
    by (cases "relocate fo vo T p") (auto simp: wp_def split: outcome.splits)
qed

text \<open>C25: Relocating a well-formed program never reads or writes outside of its arrays, and the
  result is a well-formed program with the same functions, symbols and relocations.\<close>

theorem relocate_safe:
  assumes "program_ok p"
  shows "(\<exists>u q. relocate fo vo T p = (Done u, q) \<and> program_ok q \<and> pg_relocs q = pg_relocs p \<and>
      pg_symbols q = pg_symbols p \<and> pg_flags q = pg_flags p \<and> pg_funs q = pg_funs p \<and>
      length (pg_vars q) = length (pg_vars p) \<and> pg_fun_offset q = fo \<and> pg_var_offset q = vo) \<or>
    fst (relocate fo vo T p) = Failed"
  using assms by (rule relocate_outcome)

lemma relocate_safe_witness:
  "fst (relocate 7 8 sample_tables sample) = Done () \<and> program_ok (snd (relocate 7 8 sample_tables sample))"
  using relocate_safe [OF sample_ok(1), of 7 8 sample_tables] by (simp add: sample_run)

lemma wp_conj: "wp c Q s \<Longrightarrow> wp c Q' s \<Longrightarrow> wp c (\<lambda>x t. Q x t \<and> Q' x t) s"
  by (simp add: wp_def split: prod.splits outcome.splits)

lemma read_place_upd [simp]: "read_place (q\<lparr>pg_entry := e, pg_fun_offset := fo, pg_var_offset := vo\<rparr>) k = read_place q k"
  by (cases k) auto

definition places_moved :: "u64 \<Rightarrow> u64 \<Rightarrow> index_tables \<Rightarrow> program \<Rightarrow> program \<Rightarrow> bool" where
  "places_moved fo vo T p q \<longleftrightarrow>
    (\<forall>r\<in>set (pg_relocs p). \<exists>k x. names p r k \<and> valid_place p k \<and>
      target fo vo T p r (read_place p k) = Some x \<and> read_place q k = stored p k x) \<and>
    (\<forall>k. (\<forall>r\<in>set (pg_relocs p). \<not> names p r k) \<longrightarrow> read_place q k = read_place p k)"

lemma places_moved_fold:
  assumes dist: "distinct (map fst kxs)" and len: "length kxs = length (pg_relocs p)"
    and all: "\<And>i. i < length kxs \<Longrightarrow> names p (pg_relocs p ! i) (fst (kxs ! i)) \<and> valid_place p (fst (kxs ! i)) \<and>
        target fo vo T p (pg_relocs p ! i) (read_place p (fst (kxs ! i))) = Some (snd (kxs ! i))"
  shows "places_moved fo vo T p (fold (\<lambda>(k, x). write_place k x) kxs p)"
proof -
  let ?q = "fold (\<lambda>(k, x). write_place k x) kxs p"
  have ok: "\<forall>k\<in>fst ` set kxs. valid_place p k"
  proof
    fix k assume "k \<in> fst ` set kxs"
    then obtain i where "i < length kxs" "k = fst (kxs ! i)" by (auto simp: in_set_conv_nth)
    then show "valid_place p k" using all by blast
  qed
  note rd = pl.writes [OF dist ok]
  have "\<exists>k x. names p r k \<and> valid_place p k \<and> target fo vo T p r (read_place p k) = Some x \<and>
      read_place ?q k = stored p k x" if r: "r \<in> set (pg_relocs p)" for r
  proof -
    obtain i where i: "i < length kxs" "r = pg_relocs p ! i" using r len by (metis in_set_conv_nth)
    obtain k x where kx: "kxs ! i = (k, x)" by (cases "kxs ! i")
    have mem: "(k, x) \<in> set kxs" using i(1) kx by (metis nth_mem)
    have "map_of kxs k = Some x" using dist mem by simp
    then have "read_place ?q k = stored p k x" using rd [of k] by simp
    then show ?thesis using all [OF i(1)] kx i(2) by auto
  qed
  moreover have "read_place ?q k = read_place p k" if no: "\<forall>r\<in>set (pg_relocs p). \<not> names p r k" for k
  proof -
    have "k \<notin> fst ` set kxs"
    proof
      assume "k \<in> fst ` set kxs"
      then obtain i where i: "i < length kxs" "k = fst (kxs ! i)" by (auto simp: in_set_conv_nth)
      then have "pg_relocs p ! i \<in> set (pg_relocs p)" using len by simp
      then show False using no all [OF i(1)] i(2) by blast
    qed
    then have "map_of kxs k = None" by (simp add: map_of_eq_None_iff)
    then show ?thesis using rd [of k] by simp
  qed
  ultimately show ?thesis unfolding places_moved_def by blast
qed

lemma wp_places_moved:
  assumes p: "program_ok p" "separate p"
  shows "wp (relocate fo vo T) (\<lambda>_. places_moved fo vo T p) p"
proof (rule wp_relocate [where R = "places_moved fo vo T p"])
  have upd: "places_moved fo vo T p (q\<lparr>pg_entry := e, pg_fun_offset := fo', pg_var_offset := vo'\<rparr>)
      = places_moved fo vo T p q" for q e fo' vo'
    unfolding places_moved_def by simp
  have rel: "wp (forM (pg_relocs p) (relocate_one fo vo T)) (\<lambda>_. places_moved fo vo T p) p"
  proof (rule wp_mono [OF wp_relocations [OF p(1) subset_refl]])
    show "sorted_wrt (\<lambda>r q. \<not> (\<exists>k. names p r k \<and> names p q k)) (pg_relocs p)"
      using p(2) by (simp add: separate_def)
  qed (auto simp: list_all2_conv_all_nth intro!: places_moved_fold)
  show "wp (forM (pg_relocs p) (relocate_one fo vo T)) (\<lambda>_ q. program_ok q \<and>
      places_moved fo vo T p (q\<lparr>pg_entry := (if pg_flags q AND HEADER_FLAG_LIBRARY = 0 then pg_entry q - pg_fun_offset q + fo else pg_entry q),
           pg_fun_offset := fo, pg_var_offset := vo\<rparr>)) p"
    unfolding upd by (rule wp_conj [OF wp_mono [OF wp_relocations_safe [OF p(1)]] rel]) simp
qed simp_all

text \<open>What no relocation may touch: a program without its operands, the elements of its objects that may be
  indices, the contents of its variables, and what relocating itself keeps up to date.\<close>

fun without_indices :: "format_object \<Rightarrow> format_object" where
  "without_indices (FIArray32 xs) = FIArray32 (map (\<lambda>_. 0) xs)"
| "without_indices (FIArray64 xs) = FIArray64 (map (\<lambda>_. 0) xs)"
| "without_indices (FTuple xs) = FTuple (map (\<lambda>x. (0, snd x)) xs)"
| "without_indices ob = ob"

definition outside_places :: "program \<Rightarrow> program" where
  "outside_places p = p\<lparr>pg_code := map (\<lambda>i. i\<lparr>i_arg1 := 0, i_arg2 := 0\<rparr>) (pg_code p),
     pg_data := map (\<lambda>(a, ob). (a, without_indices ob)) (pg_data p), pg_vars := map (\<lambda>v. v\<lparr>fv_i := 0\<rparr>) (pg_vars p),
     pg_entry := 0, pg_fun_offset := 0, pg_var_offset := 0\<rparr>"

lemma map_update_same: "(j < length xs \<Longrightarrow> f x = f (xs ! j)) \<Longrightarrow> map f (xs[j := x]) = map f xs"
  by (cases "j < length xs") (simp_all add: map_update list_update_beyond, metis length_map list_update_id nth_map)

lemma outside_write:
  assumes "program_ok p" "valid_place p k"
  shows "outside_places (write_place k x p) = outside_places p"
proof (cases k)
  case (ElemAt a j)
  have "without_indices (put_elem j x ob) = without_indices ob" for ob
    by (cases ob) (auto intro!: map_update_same)
  then have "map (\<lambda>(b, ob). (b, without_indices ob)) (map (\<lambda>(b, ob). (b, if b = a then put_elem j x ob else ob)) obs)
      = map (\<lambda>(b, ob). (b, without_indices ob)) obs" for obs by (induction obs) auto
  then show ?thesis unfolding ElemAt outside_places_def by simp
qed (simp_all add: outside_places_def map_update_same)

lemma wp_outside:
  assumes p: "program_ok p"
  shows "wp (forM (pg_relocs p) (relocate_one fo vo T)) (\<lambda>_ q. program_ok q \<and> pg_relocs q = pg_relocs p \<and>
    pg_entry q = pg_entry p \<and> pg_fun_offset q = pg_fun_offset p \<and> pg_flags q = pg_flags p \<and> outside_places q = outside_places p) p"
proof (rule wp_forM [where I = "\<lambda>q. program_ok q \<and> pg_relocs q = pg_relocs p \<and>
    pg_entry q = pg_entry p \<and> pg_fun_offset q = pg_fun_offset p \<and> pg_flags q = pg_flags p \<and> outside_places q = outside_places p"])
  fix r q
  assume r: "r \<in> set (pg_relocs p)" and q: "program_ok q \<and> pg_relocs q = pg_relocs p \<and>
    pg_entry q = pg_entry p \<and> pg_fun_offset q = pg_fun_offset p \<and> pg_flags q = pg_flags p \<and> outside_places q = outside_places p"
  have "wp (relocate_one fo vo T r) (\<lambda>_. relocated fo vo T r q) q" by (rule wp_relocate_one) (use r q in auto)
  moreover have "pg_relocs (write_place k x q) = pg_relocs q \<and> pg_entry (write_place k x q) = pg_entry q \<and>
      pg_fun_offset (write_place k x q) = pg_fun_offset q \<and> pg_flags (write_place k x q) = pg_flags q" for k x
    by (cases k) simp_all
  ultimately show "wp (relocate_one fo vo T r) (\<lambda>_ q. program_ok q \<and> pg_relocs q = pg_relocs p \<and>
    pg_entry q = pg_entry p \<and> pg_fun_offset q = pg_fun_offset p \<and> pg_flags q = pg_flags p \<and> outside_places q = outside_places p) q"
    using q by (auto simp: relocated_def outside_write elim!: wp_mono intro: program_ok_write)
qed (use p in auto)

definition entry_moved :: "u64 \<Rightarrow> u64 \<Rightarrow> program \<Rightarrow> program \<Rightarrow> bool" where
  "entry_moved fo vo p q \<longleftrightarrow>
    pg_entry q = (if pg_flags p AND HEADER_FLAG_LIBRARY = 0 then pg_entry p - pg_fun_offset p + fo else pg_entry p) \<and>
    pg_fun_offset q = fo \<and> pg_var_offset q = vo \<and> outside_places q = outside_places p"

lemma wp_entry_moved:
  assumes "program_ok p"
  shows "wp (relocate fo vo T) (\<lambda>_. entry_moved fo vo p) p"
proof (rule wp_relocate [where R = "entry_moved fo vo p"])
  have "outside_places (q\<lparr>pg_entry := e, pg_fun_offset := fo, pg_var_offset := vo\<rparr>) = outside_places q" for q e
    by (simp add: outside_places_def)
  then show "wp (forM (pg_relocs p) (relocate_one fo vo T)) (\<lambda>_ q. program_ok q \<and>
      entry_moved fo vo p (q\<lparr>pg_entry := (if pg_flags q AND HEADER_FLAG_LIBRARY = 0 then pg_entry q - pg_fun_offset q + fo else pg_entry q),
           pg_fun_offset := fo, pg_var_offset := vo\<rparr>)) p"
    by (intro wp_mono [OF wp_outside [OF assms]]) (auto simp: entry_moved_def)
qed simp

text \<open>C15: When relocating a well-formed program succeeds and no two relocations name the same place (\<open>separate\<close>), every
  place that a relocation names holds the index that the relocation asks for (that of the named symbol, or the
  old one moved by the offsets), as far as the place is wide enough, and every other place is unchanged. The entry of a
  program that is not a library is moved by the offset of functions, both offsets are noted, and all that is not a place
  is unchanged: operations and kinds of arguments, types and lengths of objects, types of variables, functions,
  symbols, relocations, annotations and flags.\<close>

theorem relocate_correct:
  assumes "program_ok p" "separate p" "relocate fo vo T p = (Done u, q)"
  shows "(\<forall>r\<in>set (pg_relocs p). \<exists>k x. names p r k \<and> valid_place p k \<and>
      target fo vo T p r (read_place p k) = Some x \<and> read_place q k = stored p k x) \<and>
    (\<forall>k. (\<forall>r\<in>set (pg_relocs p). \<not> names p r k) \<longrightarrow> read_place q k = read_place p k) \<and>
    pg_entry q = (if pg_flags p AND HEADER_FLAG_LIBRARY = 0 then pg_entry p - pg_fun_offset p + fo else pg_entry p) \<and>
    pg_fun_offset q = fo \<and> pg_var_offset q = vo \<and> outside_places q = outside_places p"
  using wp_places_moved [OF assms(1,2), of fo vo T] wp_entry_moved [OF assms(1), of fo vo T] assms(3)
  unfolding wp_def places_moved_def entry_moved_def by simp

lemma relocate_correct_witness:
  "\<exists>q. relocate 7 8 sample_tables sample = (Done (), q) \<and> read_place q (Arg1At 0) = 8 \<and> read_place q (Arg2At 0) = 9 \<and>
    pg_fun_offset q = 7 \<and> i_opcode (pg_code q ! 0) = 0x20000"
proof -
  define q where "q = snd (relocate 7 8 sample_tables sample)"
  have run: "relocate 7 8 sample_tables sample = (Done (), q)" by (simp add: q_def sample_run)
  have "read_place q (Arg2At 0) = read_place sample (Arg2At 0)"
    by (rule relocate_correct [OF sample_ok run, THEN conjunct2, THEN conjunct1, rule_format]) (auto simp: sample_def)
  moreover have "pg_fun_offset q = 7" using relocate_correct [OF sample_ok run] by simp
  ultimately show ?thesis using run by (auto simp: q_def sample_run)
qed

text \<open>An operand that is negative is not refused as an index: it wraps to one before the offset.\<close>

lemma negative_operand_relocates:
  "fst (relocate_index (scast (- 1 :: u32)) 5 (\<lambda>_. None) \<lparr>rl_type = 0, rl_addr = 0, rl_symbol = 0\<rparr> SYMBOL_TYPE_FUN sample) = Done 4"
  by code_simp

end
