(* ===== verification/Linking_Correct.thy ===== *)
theory Linking_Correct
  imports Linking Reloc_Correct
begin

unbundle bit_operations_syntax

text \<open>
  Loading several programs never does anything undefined; when it fails, the environment is empty but for
  the names of the native functions; and when it succeeds, the environment holds the functions and the
  variables of the relocated programs one after another, and the heap the objects of their data.
\<close>

section \<open>Weakest preconditions of the steps\<close>

lemma wpx_set_env [wpx_rules]: "wpx (set_env f) Q F = (\<lambda>s. Q () (s\<lparr>vb_env := f (vb_env s)\<rparr>))"
  by (simp add: set_env_def wpx_rules)
lemma wpx_push_error [wpx_rules]: "wpx (push_error i e n) Q F =
    (\<lambda>s. Q () (s\<lparr>vb_errors := vb_errors s @ [\<lparr>le_index = i, le_error = e, le_symbol = n\<rparr>]\<rparr>))"
  by (simp add: push_error_def wpx_rules)
lemma wpx_set_fun [wpx_rules]: "wpx (set_fun i f) Q F = (\<lambda>s. i < length (env_funs (vb_env s)) \<and>
    Q () (s\<lparr>vb_env := (vb_env s)\<lparr>env_funs := (env_funs (vb_env s))[i := f]\<rparr>\<rparr>))"
  by (auto simp: wpx_def set_fun_def set_env_def run fun_eq_iff)
lemma wpx_set_var [wpx_rules]: "wpx (set_var i v) Q F = (\<lambda>s. i < length (env_vars (vb_env s)) \<and>
    Q () (s\<lparr>vb_env := (vb_env s)\<lparr>env_vars := (env_vars (vb_env s))[i := v]\<rparr>\<rparr>))"
  by (auto simp: wpx_def set_var_def set_env_def run fun_eq_iff)
lemma wpx_set_fun_info [wpx_rules]: "wpx (set_fun_info i v) Q F = (\<lambda>s. i < length (env_fun_infos (vb_env s)) \<and>
    Q () (s\<lparr>vb_env := (vb_env s)\<lparr>env_fun_infos := (env_fun_infos (vb_env s))[i := v]\<rparr>\<rparr>))"
  by (auto simp: wpx_def set_fun_info_def set_env_def run fun_eq_iff)

section \<open>Loading one program\<close>

definition overwrite :: "nat \<Rightarrow> 'a list \<Rightarrow> 'a list \<Rightarrow> 'a list" where
  "overwrite k ys xs = take k xs @ ys @ drop (k + length ys) xs"

lemma length_overwrite [simp]: "k + length ys \<le> length xs \<Longrightarrow> length (overwrite k ys xs) = length xs"
  by (simp add: overwrite_def)

lemma overwrite_nil [simp]: "overwrite k [] xs = xs"
  by (simp add: overwrite_def)

lemma overwrite_step:
  assumes "k + length ys < length xs"
  shows "(overwrite k ys xs)[k + length ys := y] = overwrite k (ys @ [y]) xs"
proof -
  have "drop (k + length ys) xs = xs ! (k + length ys) # drop (Suc (k + length ys)) xs"
    using assms by (simp add: Cons_nth_drop_Suc)
  then show ?thesis using assms by (simp add: overwrite_def list_update_append)
qed

lemma overwrite_replicate:
  "overwrite (length xs) ys (xs @ replicate (length ys + n) z) = xs @ ys @ replicate n z"
  by (simp add: overwrite_def)

text \<open>The names of an environment, without its arrays.\<close>

definition env_names :: "vm_env \<Rightarrow> vm_env" where
  "env_names e = e\<lparr>env_funs := [], env_vars := [], env_fun_infos := [], env_data_to_free := []\<rparr>"

lemma env_names_eq:
  assumes "env_names e = env_names e'"
  shows "reset_without_native_fun_indexes e = reset_without_native_fun_indexes e'"
    "env_fun_indexes e = env_fun_indexes e'" "env_var_indexes e = env_var_indexes e'" "env_tables e = env_tables e'"
proof -
  have "reset_without_native_fun_indexes x = reset_without_native_fun_indexes (env_names x)"
    "env_fun_indexes x = env_fun_indexes (env_names x)" "env_var_indexes x = env_var_indexes (env_names x)"
    "env_tables x = env_tables (env_names x)" for x
    by (simp_all add: env_names_def reset_without_native_fun_indexes_def env_tables_def)
  then show "reset_without_native_fun_indexes e = reset_without_native_fun_indexes e'"
    "env_fun_indexes e = env_fun_indexes e'" "env_var_indexes e = env_var_indexes e'" "env_tables e = env_tables e'"
    using assms by metis+
qed

text \<open>What a step of loading never changes, even when it fails.\<close>

definition frame :: "vm_base \<Rightarrow> vm_base \<Rightarrow> bool" where
  "frame s t \<longleftrightarrow> env_names (vb_env t) = env_names (vb_env s) \<and>
     length (env_funs (vb_env t)) = length (env_funs (vb_env s)) \<and>
     length (env_vars (vb_env t)) = length (env_vars (vb_env s)) \<and>
     length (env_fun_infos (vb_env t)) = length (env_fun_infos (vb_env s)) \<and>
     take (length (vb_heap s)) (vb_heap t) = vb_heap s"

lemma frame_refl [simp]: "frame s s"
  by (simp add: frame_def)

lemma take_prefix: "take (length xs) ys = xs \<Longrightarrow> take (length ys) zs = ys \<Longrightarrow> take (length xs) zs = xs"
  by (metis append_take_drop_id length_take min.cobounded2 min_def take_all_iff take_append take_take)

lemma frame_trans: "frame s t \<Longrightarrow> frame t u \<Longrightarrow> frame s u"
  unfolding frame_def using take_prefix by metis

lemma wpx_load_functions:
  assumes "fo + length (pg_funs q) \<le> length (env_funs (vb_env s))"
    and "Q () (s\<lparr>vb_env := (vb_env s)\<lparr>env_funs := overwrite fo (map (func_of q) (pg_funs q)) (env_funs (vb_env s))\<rparr>\<rparr>)"
  shows "wpx (forM [0..<length (pg_funs q)] (load_function_at q fo)) Q F s"
proof (rule wpx_forM [where I = "\<lambda>k t. t = s\<lparr>vb_env := (vb_env s)\<lparr>env_funs :=
    overwrite fo (map (func_of q) (take k (pg_funs q))) (env_funs (vb_env s))\<rparr>\<rparr>"])
  fix k t assume k: "k < length [0..<length (pg_funs q)]" and t: "t = s\<lparr>vb_env := (vb_env s)\<lparr>env_funs :=
    overwrite fo (map (func_of q) (take k (pg_funs q))) (env_funs (vb_env s))\<rparr>\<rparr>"
  show "wpx (load_function_at q fo ([0..<length (pg_funs q)] ! k)) (\<lambda>_ t. t = s\<lparr>vb_env := (vb_env s)\<lparr>env_funs :=
    overwrite fo (map (func_of q) (take (Suc k) (pg_funs q))) (env_funs (vb_env s))\<rparr>\<rparr>) F t"
    using assms(1) k overwrite_step [of fo "map (func_of q) (take k (pg_funs q))" "env_funs (vb_env s)"]
    by (simp add: load_function_at_def wpx_rules t take_Suc_conv_app_nth min_def)
qed (use assms in simp_all)

text \<open>The objects of a program in the heap, from the number \<open>base\<close> on.\<close>

definition data_loaded :: "nat \<Rightarrow> (u32 \<Rightarrow> nat option) \<Rightarrow> heap \<Rightarrow> program \<Rightarrow> bool" where
  "data_loaded base objs h p \<longleftrightarrow> dom objs = fst ` set (pg_data p) \<and> inj_on objs (dom objs) \<and>
     (\<forall>(a, ob)\<in>set (pg_data p). \<exists>n b. objs a = Some n \<and> base \<le> n \<and> n < length h \<and>
        filled_body objs ob = Some b \<and> h ! n = Object False b)"

lemma data_loaded_mono:
  assumes "data_loaded base objs h p" "take (length h) h' = h"
  shows "data_loaded base objs h' p"
proof -
  have "h' ! n = h ! n \<and> n < length h'" if "n < length h" for n
    using assms(2) that by (metis length_take min_less_iff_conj nth_take)
  then show ?thesis using assms(1) unfolding data_loaded_def by fastforce
qed

definition data_map :: "nat \<Rightarrow> program \<Rightarrow> u32 \<Rightarrow> nat option" where
  "data_map base p = map_of (zip (map fst (pg_data p)) [base..<base + length (pg_data p)])"

lemma data_map_nth:
  assumes "distinct (map fst (pg_data p))" "j < length (pg_data p)"
  shows "data_map base p (fst (pg_data p ! j)) = Some (base + j)"
  using map_of_zip_nth [of "map fst (pg_data p)" "[base..<base + length (pg_data p)]" j] assms by (simp add: data_map_def)

definition grown :: "vm_base \<Rightarrow> nat \<Rightarrow> vm_base \<Rightarrow> bool" where
  "grown s k t \<longleftrightarrow> (\<exists>news. length news = k \<and> t = s\<lparr>vb_heap := vb_heap s @ news\<rparr>)"

lemma grown_0 [simp]: "grown s 0 s"
  by (simp add: grown_def)

lemma grown_Suc: "grown s k t \<Longrightarrow> grown s (Suc k) (t\<lparr>vb_heap := vb_heap t @ [x]\<rparr>)"
  unfolding grown_def by (elim exE conjE, rule_tac x = "news @ [x]" in exI) simp

lemma grown_heap: "grown s k t \<Longrightarrow> length (vb_heap t) = length (vb_heap s) + k"
  by (auto simp: grown_def)

lemma grown_frame: "grown s k t \<Longrightarrow> frame s (t\<lparr>vb_errors := errs\<rparr>)"
  by (auto simp: grown_def frame_def)

lemma wpx_allocate:
  assumes Q: "\<And>t. grown s (length (pg_data p)) t \<Longrightarrow>
      Q (zip (map fst (pg_data p)) [length (vb_heap s)..<length (vb_heap s) + length (pg_data p)]) t"
    and F: "\<And>t. frame s t \<Longrightarrow> F t"
  shows "wpx (collectM (allocate_object M i) (pg_data p)) Q F s"
proof (rule wpx_collectM [where I = "\<lambda>k ys t. grown s k t \<and>
    ys = zip (map fst (take k (pg_data p))) [length (vb_heap s)..<length (vb_heap s) + k]"])
  fix k ys t
  assume k: "k < length (pg_data p)" and t: "grown s k t \<and>
    ys = zip (map fst (take k (pg_data p))) [length (vb_heap s)..<length (vb_heap s) + k]"
  obtain a ob where ob: "pg_data p ! k = (a, ob)" by (cases "pg_data p ! k")
  show "wpx (allocate_object M i (pg_data p ! k)) (\<lambda>y t. grown s (Suc k) t \<and>
    ys @ [y] = zip (map fst (take (Suc k) (pg_data p))) [length (vb_heap s)..<length (vb_heap s) + Suc k]) F t"
    using k t F [OF grown_frame] ob
    by (auto simp: wpx_def allocate_object_def Let_def push_error_def run take_Suc_conv_app_nth grown_heap intro: grown_Suc)
qed (use Q in auto)

lemma wpx_fill:
  assumes p: "distinct (map fst (pg_data p))" and g: "grown s (length (pg_data p)) s'"
    and Q: "\<And>t. t = s'\<lparr>vb_heap := vb_heap t\<rparr> \<Longrightarrow> take (length (vb_heap s)) (vb_heap t) = vb_heap s \<Longrightarrow>
      data_loaded (length (vb_heap s)) (data_map (length (vb_heap s)) p) (vb_heap t) p \<Longrightarrow> Q () t"
    and F: "\<And>t. frame s t \<Longrightarrow> F t"
  shows "wpx (forM (pg_data p) (fill_object i (data_map (length (vb_heap s)) p))) Q F s'"
proof -
  let ?base = "length (vb_heap s)" and ?objs = "data_map (length (vb_heap s)) p"
  have s': "length (vb_heap s') = ?base + length (pg_data p)" "take ?base (vb_heap s') = vb_heap s"
    using g by (auto simp: grown_def)
  show ?thesis
  proof (rule wpx_forM [where I = "\<lambda>k t. t = s'\<lparr>vb_heap := vb_heap t\<rparr> \<and> length (vb_heap t) = length (vb_heap s') \<and>
      take ?base (vb_heap t) = vb_heap s \<and>
      (\<forall>j<k. \<exists>b. filled_body ?objs (snd (pg_data p ! j)) = Some b \<and> vb_heap t ! (?base + j) = Object False b)"])
    fix k t
    assume k: "k < length (pg_data p)" and t: "t = s'\<lparr>vb_heap := vb_heap t\<rparr> \<and> length (vb_heap t) = length (vb_heap s') \<and>
      take ?base (vb_heap t) = vb_heap s \<and>
      (\<forall>j<k. \<exists>b. filled_body ?objs (snd (pg_data p ! j)) = Some b \<and> vb_heap t ! (?base + j) = Object False b)"
    obtain a ob where ob: "pg_data p ! k = (a, ob)" by (cases "pg_data p ! k")
    have a: "?objs a = Some (?base + k)" using data_map_nth [OF p k, of ?base] ob by simp
    obtain h where h: "t = s'\<lparr>vb_heap := h\<rparr>" using t by metis
    have fr: "frame s (t\<lparr>vb_errors := errs\<rparr>)" for errs
      using t g unfolding h by (auto simp: frame_def grown_def)
    show "wpx (fill_object i ?objs (pg_data p ! k)) (\<lambda>_ t. t = s'\<lparr>vb_heap := vb_heap t\<rparr> \<and>
        length (vb_heap t) = length (vb_heap s') \<and> take ?base (vb_heap t) = vb_heap s \<and>
      (\<forall>j<Suc k. \<exists>b. filled_body ?objs (snd (pg_data p ! j)) = Some b \<and> vb_heap t ! (?base + j) = Object False b)) F t"
    proof (cases "filled_body ?objs ob")
      case None
      then show ?thesis using F [OF fr] by (simp add: ob fill_object_def a wpx_rules)
    next
      case (Some b)
      have lt: "?base + k < length (vb_heap t)" using t k s'(1) by simp
      have "vb_heap t = h" by (simp add: h)
      then show ?thesis using Some lt t k
        by (auto simp: ob fill_object_def a wpx_def less_Suc_eq h nth_list_update)
    qed
  next
    fix t
    assume t: "t = s'\<lparr>vb_heap := vb_heap t\<rparr> \<and> length (vb_heap t) = length (vb_heap s') \<and>
      take ?base (vb_heap t) = vb_heap s \<and>
      (\<forall>j<length (pg_data p). \<exists>b. filled_body ?objs (snd (pg_data p ! j)) = Some b \<and> vb_heap t ! (?base + j) = Object False b)"
    have "data_loaded ?base ?objs (vb_heap t) p"
      unfolding data_loaded_def
    proof (intro conjI ballI)
      show "dom ?objs = fst ` set (pg_data p)" by (simp add: data_map_def)
      show "inj_on ?objs (dom ?objs)"
      proof (rule inj_onI)
        fix a b assume "a \<in> dom ?objs" "b \<in> dom ?objs" "?objs a = ?objs b"
        moreover from this(1,2) obtain j l where "j < length (pg_data p)" "a = fst (pg_data p ! j)"
            "l < length (pg_data p)" "b = fst (pg_data p ! l)"
          by (auto simp: data_map_def in_set_conv_nth)
        ultimately show "a = b" using data_map_nth [OF p, of _ ?base] by auto
      qed
      fix x assume "x \<in> set (pg_data p)"
      then obtain j where j: "j < length (pg_data p)" "x = pg_data p ! j" by (auto simp: in_set_conv_nth)
      then show "case x of (a, ob) \<Rightarrow> \<exists>n b. ?objs a = Some n \<and> ?base \<le> n \<and> n < length (vb_heap t) \<and>
          filled_body ?objs ob = Some b \<and> vb_heap t ! n = Object False b"
        using data_map_nth [OF p j(1), of ?base] t s'(1) by (cases x) auto
    qed
    then show "Q () t" using t Q by blast
  qed (use s' in auto)
qed

definition var_value :: "(u32 \<Rightarrow> nat option) \<Rightarrow> format_value \<Rightarrow> vm_value option" where
  "var_value objs v = word_value objs (unat (fv_type v)) (fv_i v)"

lemma wpx_load_vars:
  assumes len: "vo + length (pg_vars q) \<le> length (env_vars (vb_env s))"
    and Q: "\<And>vs. map (var_value objs) (pg_vars q) = map Some vs \<Longrightarrow>
      Q () (s\<lparr>vb_env := (vb_env s)\<lparr>env_vars := overwrite vo vs (env_vars (vb_env s))\<rparr>\<rparr>)"
    and F: "\<And>vs errs. vo + length vs \<le> length (env_vars (vb_env s)) \<Longrightarrow>
      F (s\<lparr>vb_env := (vb_env s)\<lparr>env_vars := overwrite vo vs (env_vars (vb_env s))\<rparr>, vb_errors := errs\<rparr>)"
  shows "wpx (forM [0..<length (pg_vars q)] (load_var_at i objs q vo)) Q F s"
proof (rule wpx_forM [where I = "\<lambda>k t. \<exists>vs. map (var_value objs) (take k (pg_vars q)) = map Some vs \<and>
    t = s\<lparr>vb_env := (vb_env s)\<lparr>env_vars := overwrite vo vs (env_vars (vb_env s))\<rparr>\<rparr>"])
  fix k t assume k: "k < length [0..<length (pg_vars q)]" and
    "\<exists>vs. map (var_value objs) (take k (pg_vars q)) = map Some vs \<and>
      t = s\<lparr>vb_env := (vb_env s)\<lparr>env_vars := overwrite vo vs (env_vars (vb_env s))\<rparr>\<rparr>"
  then obtain vs where vs: "map (var_value objs) (take k (pg_vars q)) = map Some vs"
    "t = s\<lparr>vb_env := (vb_env s)\<lparr>env_vars := overwrite vo vs (env_vars (vb_env s))\<rparr>\<rparr>" by auto
  have l: "length vs = k" using arg_cong [OF vs(1), of length] k by simp
  show "wpx (load_var_at i objs q vo ([0..<length (pg_vars q)] ! k)) (\<lambda>_ t. \<exists>vs.
      map (var_value objs) (take (Suc k) (pg_vars q)) = map Some vs \<and>
      t = s\<lparr>vb_env := (vb_env s)\<lparr>env_vars := overwrite vo vs (env_vars (vb_env s))\<rparr>\<rparr>) F t"
  proof (cases "var_value objs (pg_vars q ! k)")
    case None
    then show ?thesis using k l len F [of vs] by (simp add: load_var_at_def Let_def wpx_rules vs(2) var_value_def)
  next
    case (Some x)
    have "(overwrite vo vs (env_vars (vb_env s)))[vo + k := x] = overwrite vo (vs @ [x]) (env_vars (vb_env s))"
      using overwrite_step [of vo vs "env_vars (vb_env s)" x] k l len by simp
    then show ?thesis using Some k l len vs(1)
      by (auto simp: load_var_at_def Let_def wpx_rules vs(2) var_value_def take_Suc_conv_app_nth
          intro!: exI [of _ "vs @ [x]"])
  qed
qed (use Q in auto)

definition put_infos :: "nat \<Rightarrow> format_fun_info list \<Rightarrow> (u32 \<times> u32) list \<Rightarrow> (u32 \<times> u32) list" where
  "put_infos fo infos l = fold (\<lambda>info l. l[fo + unat (fi_fun_index info) :=
     (ucast (fi_eval_strategy info), ucast (fi_eval_strategy_mask info))]) infos l"

lemma length_put_infos [simp]: "length (put_infos fo infos l) = length l"
  unfolding put_infos_def by (induction infos arbitrary: l) auto

lemma wpx_load_infos:
  assumes "\<forall>info\<in>set infos. fo + unat (fi_fun_index info) < length (env_fun_infos (vb_env s))"
    and "Q () (s\<lparr>vb_env := (vb_env s)\<lparr>env_fun_infos := put_infos fo infos (env_fun_infos (vb_env s))\<rparr>\<rparr>)"
  shows "wpx (forM infos (\<lambda>info. set_fun_info (fo + unat (fi_fun_index info))
    (ucast (fi_eval_strategy info), ucast (fi_eval_strategy_mask info)))) Q F s"
  using assms by (induction infos arbitrary: s) (simp_all add: wpx_rules put_infos_def)

text \<open>What loading a program adds.\<close>

definition entry_after :: "program \<Rightarrow> vm_base \<Rightarrow> vm_base \<Rightarrow> bool" where
  "entry_after q s t \<longleftrightarrow> (if pg_flags q AND HEADER_FLAG_LIBRARY = 0
     then \<not> vb_has_entry s \<and> vb_has_entry t \<and> vb_entry t = pg_entry q
     else vb_has_entry t = vb_has_entry s \<and> vb_entry t = vb_entry s)"

definition prog_loaded :: "nat \<Rightarrow> nat \<Rightarrow> program \<Rightarrow> vm_base \<Rightarrow> vm_base \<Rightarrow> bool" where
  "prog_loaded fo vo q s t \<longleftrightarrow>
     env_funs (vb_env t) = overwrite fo (map (func_of q) (pg_funs q)) (env_funs (vb_env s)) \<and>
     (\<exists>objs vs. env_vars (vb_env t) = overwrite vo vs (env_vars (vb_env s)) \<and>
        map (var_value objs) (pg_vars q) = map Some vs \<and> data_loaded (length (vb_heap s)) objs (vb_heap t) q) \<and>
     env_fun_infos (vb_env t) = (if pg_flags q AND HEADER_FLAG_FUN_INFOS \<noteq> 0
       then put_infos fo (pg_fun_infos q) (env_fun_infos (vb_env s)) else env_fun_infos (vb_env s)) \<and>
     entry_after q s t"

lemma wpx_load_entry:
  assumes "pg_flags q AND HEADER_FLAG_LIBRARY = 0 \<Longrightarrow> \<not> vb_has_entry s \<Longrightarrow> Q () (s\<lparr>vb_has_entry := True, vb_entry := pg_entry q\<rparr>)"
    and "pg_flags q AND HEADER_FLAG_LIBRARY \<noteq> 0 \<Longrightarrow> Q () s" and "\<And>errs. F (s\<lparr>vb_errors := errs\<rparr>)"
  shows "wpx (load_entry i q) Q F s"
  using assms by (simp add: load_entry_def wpx_rules)

lemma wpx_load_prog:
  assumes q: "program_ok q"
    and funs: "fo + length (pg_funs q) \<le> length (env_funs (vb_env s))"
    and infos: "length (env_fun_infos (vb_env s)) = length (env_funs (vb_env s))"
    and vars: "vo + length (pg_vars q) \<le> length (env_vars (vb_env s))"
  shows "wpx (load_prog M auto (i, fo, vo, q)) (\<lambda>_ t. frame s t \<and> prog_loaded fo vo q s t) (frame s) s"
proof -
  define s1 where "s1 = (if auto then s\<lparr>vb_env := (vb_env s)\<lparr>env_data_to_free := env_data_to_free (vb_env s) @ [i]\<rparr>\<rparr> else s)"
  define s2 where "s2 = s1\<lparr>vb_env := (vb_env s1)\<lparr>env_funs := overwrite fo (map (func_of q) (pg_funs q)) (env_funs (vb_env s1))\<rparr>\<rparr>"
  have s1: "frame s s1" "env_funs (vb_env s1) = env_funs (vb_env s)" "env_vars (vb_env s1) = env_vars (vb_env s)"
    "env_fun_infos (vb_env s1) = env_fun_infos (vb_env s)" "vb_heap s1 = vb_heap s"
    "vb_has_entry s1 = vb_has_entry s" "vb_entry s1 = vb_entry s"
    by (simp_all add: s1_def frame_def env_names_def)
  have s2: "frame s1 s2"
    using funs s1(2) by (simp add: s2_def frame_def env_names_def)
  note fr2 = frame_trans [OF s1(1) s2]
  have dist: "distinct (map fst (pg_data q))" by (rule program_ok_objects [OF q])
  let ?b = "length (vb_heap s2)" and ?objs = "data_map (length (vb_heap s2)) q"
  let ?Q = "\<lambda>_ t. frame s t \<and> prog_loaded fo vo q s t"
  let ?infos = "whenM (pg_flags q AND HEADER_FLAG_FUN_INFOS \<noteq> 0) (forM (pg_fun_infos q) (\<lambda>info.
      set_fun_info (fo + unat (fi_fun_index info)) (ucast (fi_eval_strategy info), ucast (fi_eval_strategy_mask info))))"
  have infos_ok: "wpx ?infos ?Q (frame s) t"
    if t: "frame s2 t" "env_funs (vb_env t) = env_funs (vb_env s2)" "env_fun_infos (vb_env t) = env_fun_infos (vb_env s2)"
      "env_vars (vb_env t) = overwrite vo vs (env_vars (vb_env s2))" "map (var_value ?objs) (pg_vars q) = map Some vs"
      "data_loaded ?b ?objs (vb_heap t) q" "entry_after q s2 t" for t vs
  proof -
    let ?u = "t\<lparr>vb_env := (vb_env t)\<lparr>env_fun_infos := put_infos fo (pg_fun_infos q) (env_fun_infos (vb_env t))\<rparr>\<rparr>"
    have "?Q () t" if "pg_flags q AND HEADER_FLAG_FUN_INFOS = 0"
      using frame_trans [OF fr2 t(1)] t s1 that
      by (auto simp: prog_loaded_def s2_def entry_after_def)
    moreover have "?Q () ?u" if "pg_flags q AND HEADER_FLAG_FUN_INFOS \<noteq> 0"
    proof
      have "frame t ?u" by (simp add: frame_def env_names_def)
      then show "frame s ?u" using frame_trans [OF fr2 t(1)] frame_trans by blast
      show "prog_loaded fo vo q s ?u" using t s1 that by (auto simp: prog_loaded_def s2_def entry_after_def)
    qed
    moreover have "fo + unat (fi_fun_index info) < length (env_fun_infos (vb_env t))" if "info \<in> set (pg_fun_infos q)" for info
      using q that funs infos t(3) s1 by (force simp: program_ok_def s2_def)
    ultimately show ?thesis by (auto simp: wpx_rules intro!: wpx_load_infos)
  qed
  have rest: "wpx (forM [0..<length (pg_vars q)] (load_var_at i ?objs q vo))
      (\<lambda>_. wpx (seqM (load_entry i q) ?infos) ?Q (frame s)) (frame s) t"
    if t: "frame s2 t" "vb_env t = vb_env s2" "vb_has_entry t = vb_has_entry s2" "vb_entry t = vb_entry s2"
      "data_loaded ?b ?objs (vb_heap t) q" for t
  proof (rule wpx_load_vars)
    show "vo + length (pg_vars q) \<le> length (env_vars (vb_env t))" using vars t(2) s1 by (simp add: s2_def)
  next
    fix vs :: "vm_value list" and errs assume len: "vo + length vs \<le> length (env_vars (vb_env t))"
    let ?u = "t\<lparr>vb_env := (vb_env t)\<lparr>env_vars := overwrite vo vs (env_vars (vb_env t))\<rparr>, vb_errors := errs\<rparr>"
    have "frame t ?u" using len by (simp add: frame_def env_names_def)
    then show "frame s ?u" using frame_trans [OF fr2 t(1)] frame_trans by blast
  next
    fix vs :: "vm_value list" assume vs: "map (var_value ?objs) (pg_vars q) = map Some vs"
    let ?u = "t\<lparr>vb_env := (vb_env t)\<lparr>env_vars := overwrite vo vs (env_vars (vb_env t))\<rparr>\<rparr>"
    have len: "vo + length vs \<le> length (env_vars (vb_env t))"
      using vars t(2) s1 arg_cong [OF vs, of length] by (simp add: s2_def)
    have u: "frame s2 (?u\<lparr>vb_errors := errs\<rparr>)" "frame s2 (?u\<lparr>vb_has_entry := h, vb_entry := e\<rparr>)" "frame s2 ?u" for errs h e
      by (rule frame_trans [OF t(1)];
        use len in \<open>simp add: frame_def env_names_def\<close>)+
    show "wpx (seqM (load_entry i q) ?infos) ?Q (frame s) ?u"
      unfolding wpx_seqM
    proof (rule wpx_load_entry)
      show "frame s (?u\<lparr>vb_errors := errs\<rparr>)" for errs using frame_trans [OF fr2 u(1)] .
    next
      assume "pg_flags q AND HEADER_FLAG_LIBRARY = 0" "\<not> vb_has_entry ?u"
      then show "wpx ?infos ?Q (frame s) (?u\<lparr>vb_has_entry := True, vb_entry := pg_entry q\<rparr>)"
        using u(2) t vs by (intro infos_ok [of _ vs]) (simp_all add: entry_after_def)
    next
      assume "pg_flags q AND HEADER_FLAG_LIBRARY \<noteq> 0"
      then show "wpx ?infos ?Q (frame s) ?u"
        using u(3) t vs by (intro infos_ok [of _ vs]) (simp_all add: entry_after_def)
    qed
  qed
  have main: "wpx (forM [0..<length (pg_funs q)] (load_function_at q fo))
      (\<lambda>_. wpx (bindM (collectM (allocate_object M i) (pg_data q)) (\<lambda>objs.
        seqM (forM (pg_data q) (fill_object i (map_of objs)))
        (seqM (forM [0..<length (pg_vars q)] (load_var_at i (map_of objs) q vo))
        (seqM (load_entry i q) ?infos)))) ?Q (frame s)) (frame s) s1"
  proof (rule wpx_load_functions)
    show "fo + length (pg_funs q) \<le> length (env_funs (vb_env s1))" using funs s1 by simp
    show "wpx (bindM (collectM (allocate_object M i) (pg_data q)) (\<lambda>objs.
        seqM (forM (pg_data q) (fill_object i (map_of objs)))
        (seqM (forM [0..<length (pg_vars q)] (load_var_at i (map_of objs) q vo))
        (seqM (load_entry i q) ?infos)))) ?Q (frame s)
      (s1\<lparr>vb_env := (vb_env s1)\<lparr>env_funs := overwrite fo (map (func_of q) (pg_funs q)) (env_funs (vb_env s1))\<rparr>\<rparr>)"
      unfolding wpx_bindM s2_def [symmetric]
    proof (rule wpx_allocate)
      fix t assume g: "grown s2 (length (pg_data q)) t"
      show "wpx (seqM (forM (pg_data q) (fill_object i (map_of (zip (map fst (pg_data q)) [?b..<?b + length (pg_data q)]))))
        (seqM (forM [0..<length (pg_vars q)] (load_var_at i (map_of (zip (map fst (pg_data q)) [?b..<?b + length (pg_data q)])) q vo))
        (seqM (load_entry i q) ?infos))) ?Q (frame s) t"
        unfolding wpx_seqM data_map_def [symmetric]
      proof (rule wpx_fill [OF dist g])
        fix u assume u: "u = t\<lparr>vb_heap := vb_heap u\<rparr>" "take ?b (vb_heap u) = vb_heap s2" "data_loaded ?b ?objs (vb_heap u) q"
        obtain h where h: "u = t\<lparr>vb_heap := h\<rparr>" using u(1) by metis
        have t: "vb_env t = vb_env s2" "vb_has_entry t = vb_has_entry s2" "vb_entry t = vb_entry s2"
          using g by (auto simp: grown_def)
        have "frame s2 u" using u(2) t by (simp add: frame_def h)
        then show "wpx (forM [0..<length (pg_vars q)] (load_var_at i ?objs q vo))
           (\<lambda>_. wpx (load_entry i q) (\<lambda>_. wpx ?infos ?Q (frame s)) (frame s)) (frame s) u"
          using rest [of u] u(3) t unfolding wpx_seqM by (simp add: h)
      qed (rule frame_trans [OF fr2])
    qed (rule frame_trans [OF fr2])
  qed
  then show ?thesis by (auto simp: load_prog_def wpx_rules s1_def)
qed

section \<open>Loading the programs one after another\<close>

lemma counts_simps [simp]:
  "fun_count_of [] = 0" "fun_count_of (p # ps) = length (pg_funs p) + fun_count_of ps"
  "fun_count_of (ps @ qs) = fun_count_of ps + fun_count_of qs"
  "var_count_of [] = 0" "var_count_of (p # ps) = length (pg_vars p) + var_count_of ps"
  "var_count_of (ps @ qs) = var_count_of ps + var_count_of qs"
  by (simp_all add: fun_count_of_def var_count_of_def)

lemma counts_take:
  assumes "k < length ps"
  shows "fun_count_of (take k ps) + length (pg_funs (ps ! k)) + fun_count_of (drop (Suc k) ps) = fun_count_of ps"
    and "var_count_of (take k ps) + length (pg_vars (ps ! k)) + var_count_of (drop (Suc k) ps) = var_count_of ps"
  using arg_cong [OF id_take_nth_drop [OF assms], of fun_count_of]
    arg_cong [OF id_take_nth_drop [OF assms], of var_count_of] by simp_all

lemma with_offsets_nth:
  "k < length ps \<Longrightarrow> with_offsets i fo vo ps ! k = (i + k, fo + fun_count_of (take k ps), vo + var_count_of (take k ps), ps ! k)"
  by (induction ps arbitrary: i fo vo k) (auto simp: nth_Cons split: nat.splits)

lemma length_with_offsets [simp]: "length (with_offsets i fo vo ps) = length ps"
  by (induction ps arbitrary: i fo vo) auto

text \<open>The values of the variables of programs whose objects are in the heap.\<close>

definition vars_loaded :: "heap \<Rightarrow> program list \<Rightarrow> vm_value list list \<Rightarrow> bool" where
  "vars_loaded h qs vss \<longleftrightarrow> list_all2 (\<lambda>q vs. \<exists>base objs. data_loaded base objs h q \<and>
     map (var_value objs) (pg_vars q) = map Some vs) qs vss"

definition linked :: "program list \<Rightarrow> vm_base \<Rightarrow> bool" where
  "linked qs t \<longleftrightarrow> env_funs (vb_env t) = concat (map (\<lambda>q. map (func_of q) (pg_funs q)) qs) \<and>
     (\<exists>vss. env_vars (vb_env t) = concat vss \<and> vars_loaded (vb_heap t) qs vss) \<and>
     length (env_fun_infos (vb_env t)) = fun_count_of qs \<and>
     vb_has_entry t = (\<exists>q\<in>set qs. pg_flags q AND HEADER_FLAG_LIBRARY = 0) \<and>
     (\<forall>q\<in>set qs. pg_flags q AND HEADER_FLAG_LIBRARY = 0 \<longrightarrow> vb_entry t = pg_entry q)"

text \<open>After the first programs: their part is in place, the rest of the arrays is as it was made.\<close>

definition linked_upto :: "program list \<Rightarrow> nat \<Rightarrow> vm_base \<Rightarrow> bool" where
  "linked_upto qs k t \<longleftrightarrow>
     env_funs (vb_env t) = concat (map (\<lambda>q. map (func_of q) (pg_funs q)) (take k qs)) @
       replicate (fun_count_of (drop k qs)) no_func \<and>
     (\<exists>vss. env_vars (vb_env t) = concat vss @ replicate (var_count_of (drop k qs)) VError \<and>
        vars_loaded (vb_heap t) (take k qs) vss) \<and>
     vb_has_entry t = (\<exists>q\<in>set (take k qs). pg_flags q AND HEADER_FLAG_LIBRARY = 0) \<and>
     (\<forall>q\<in>set (take k qs). pg_flags q AND HEADER_FLAG_LIBRARY = 0 \<longrightarrow> vb_entry t = pg_entry q)"

definition sizes_ok :: "program list \<Rightarrow> vm_base \<Rightarrow> bool" where
  "sizes_ok qs t \<longleftrightarrow> length (env_funs (vb_env t)) = fun_count_of qs \<and> length (env_vars (vb_env t)) = var_count_of qs \<and>
     length (env_fun_infos (vb_env t)) = fun_count_of qs"

lemma sizes_frame: "frame s t \<Longrightarrow> sizes_ok qs s \<Longrightarrow> sizes_ok qs t"
  by (simp add: frame_def sizes_ok_def)

lemma length_funcs [simp]: "length (concat (map (\<lambda>q. map (func_of q) (pg_funs q)) qs)) = fun_count_of qs"
  by (induction qs) auto

lemma vars_loaded_length: "vars_loaded h qs vss \<Longrightarrow> length (concat vss) = var_count_of qs"
proof (induction qs arbitrary: vss)
  case (Cons q qs)
  then obtain vs vss' where v: "vss = vs # vss'" "vars_loaded h qs vss'"
      "\<exists>objs. map (var_value objs) (pg_vars q) = map Some vs"
    by (auto simp: vars_loaded_def list_all2_Cons1)
  then have "length vs = length (pg_vars q)" by (metis length_map)
  then show ?case using Cons.IH [OF v(2)] v(1) by simp
qed (simp add: vars_loaded_def)

lemma vars_loaded_mono: "vars_loaded h qs vss \<Longrightarrow> take (length h) h' = h \<Longrightarrow> vars_loaded h' qs vss"
  unfolding vars_loaded_def by (erule list_all2_mono) (blast intro: data_loaded_mono)

lemma linked_upto_Suc:
  assumes k: "k < length qs" and l: "linked_upto qs k s" and fr: "frame s t"
    and p: "prog_loaded (fun_count_of (take k qs)) (var_count_of (take k qs)) (qs ! k) s t"
  shows "linked_upto qs (Suc k) t"
proof -
  let ?q = "qs ! k"
  have drop: "drop k qs = ?q # drop (Suc k) qs" using k by (simp add: Cons_nth_drop_Suc)
  have take: "take (Suc k) qs = take k qs @ [?q]" using k by (rule take_Suc_conv_app_nth)
  have heap: "take (length (vb_heap s)) (vb_heap t) = vb_heap s" using fr by (simp add: frame_def)
  obtain vss where vss: "env_vars (vb_env s) = concat vss @ replicate (var_count_of (drop k qs)) VError"
      "vars_loaded (vb_heap s) (take k qs) vss"
    using l by (auto simp: linked_upto_def)
  obtain objs vs where vs: "env_vars (vb_env t) = overwrite (var_count_of (take k qs)) vs (env_vars (vb_env s))"
      "map (var_value objs) (pg_vars ?q) = map Some vs" "data_loaded (length (vb_heap s)) objs (vb_heap t) ?q"
    using p by (auto simp: prog_loaded_def)
  have "length vs = length (pg_vars ?q)" using vs(2) by (metis length_map)
  then have "env_vars (vb_env t) = concat (vss @ [vs]) @ replicate (var_count_of (drop (Suc k) qs)) VError"
    using overwrite_replicate [of "concat vss" vs] vars_loaded_length [OF vss(2)] by (simp add: vs(1) vss(1) drop)
  moreover have "vars_loaded (vb_heap t) (take (Suc k) qs) (vss @ [vs])"
    using vars_loaded_mono [OF vss(2) heap] vs(2,3) unfolding take
    by (auto simp: vars_loaded_def intro!: list_all2_appendI)
  moreover have "env_funs (vb_env t) = concat (map (\<lambda>q. map (func_of q) (pg_funs q)) (take (Suc k) qs)) @
      replicate (fun_count_of (drop (Suc k) qs)) no_func"
    using p l overwrite_replicate [of "concat (map (\<lambda>q. map (func_of q) (pg_funs q)) (take k qs))" "map (func_of ?q) (pg_funs ?q)"]
    by (simp add: prog_loaded_def linked_upto_def drop take)
  moreover have "vb_has_entry t = (\<exists>q\<in>set (take (Suc k) qs). pg_flags q AND HEADER_FLAG_LIBRARY = 0) \<and>
     (\<forall>q\<in>set (take (Suc k) qs). pg_flags q AND HEADER_FLAG_LIBRARY = 0 \<longrightarrow> vb_entry t = pg_entry q)"
    using p l unfolding take by (auto simp: prog_loaded_def linked_upto_def entry_after_def split: if_splits)
  ultimately show ?thesis unfolding linked_upto_def by blast
qed

lemma linked_triples [simp]: "linked qs (t\<lparr>vb_triples := x\<rparr>) = linked qs t"
  by (simp add: linked_def)

lemma linked_all: "linked_upto qs (length qs) t \<Longrightarrow> sizes_ok qs t \<Longrightarrow> linked qs t"
  by (simp add: linked_upto_def linked_def sizes_ok_def)

text \<open>A failed load leaves an environment without functions, variables and names, except those of the
  native functions.\<close>

definition cleared :: "vm_base \<Rightarrow> vm_base \<Rightarrow> bool" where
  "cleared s t \<longleftrightarrow> vb_env t = reset_without_native_fun_indexes (vb_env s) \<and>
     take (length (vb_heap s)) (vb_heap t) = vb_heap s"

lemma wpx_reset_unless [wpx_rules]: "wpx (reset_unless b) Q F = (\<lambda>s. if b then Q () s
    else F (s\<lparr>vb_env := reset_without_native_fun_indexes (vb_env s)\<rparr>))"
  by (simp add: reset_unless_def wpx_rules)

lemma wpx_load_linked:
  assumes ok: "\<forall>q\<in>set qs. program_ok q"
  shows "wpx (load_linked M auto d qs) (\<lambda>_ t. linked qs t \<and> env_names (vb_env t) = env_names (vb_env s) \<and>
      take (length (vb_heap s)) (vb_heap t) = vb_heap s \<and>
      vb_triples t = set_fun_infos_and_fun_count (env_fun_infos (vb_env t)) d) (cleared s) s"
proof -
  let ?s = "s\<lparr>vb_env := set_var_count (var_count_of qs) (set_fun_count (fun_count_of qs) (vb_env s)), vb_has_entry := False\<rparr>"
  let ?I = "\<lambda>t. env_names (vb_env t) = env_names (vb_env s) \<and> take (length (vb_heap s)) (vb_heap t) = vb_heap s \<and> sizes_ok qs t"
  have step: "?I u" if "frame t u" "?I t" for t u
    using that sizes_frame [OF that(1), of qs] take_prefix [of "vb_heap s" "vb_heap t" "vb_heap u"] by (simp add: frame_def)
  have loop: "wpx (allM (\<lambda>x. bindM (attempt (load_prog M auto x)) (\<lambda>r. ret (r \<noteq> None))) (with_offsets 0 0 0 qs))
      (\<lambda>b t. ?I t \<and> (b \<longrightarrow> linked_upto qs (length qs) t)) (\<lambda>_. False) ?s"
  proof (rule wpx_allM [where I = "\<lambda>k b t. ?I t \<and> (b \<longrightarrow> linked_upto qs k t)"])
    fix k b t assume k: "k < length (with_offsets 0 0 0 qs)" and t: "?I t \<and> (b \<longrightarrow> linked_upto qs k t)"
    let ?fo = "fun_count_of (take k qs)" and ?vo = "var_count_of (take k qs)"
    have kq: "k < length qs" using k by simp
    have q: "program_ok (qs ! k)" using ok kq by simp
    have sz: "?fo + length (pg_funs (qs ! k)) \<le> length (env_funs (vb_env t))"
        "length (env_fun_infos (vb_env t)) = length (env_funs (vb_env t))"
        "?vo + length (pg_vars (qs ! k)) \<le> length (env_vars (vb_env t))"
      using t counts_take [OF kq] by (auto simp: sizes_ok_def)
    show "wpx (bindM (attempt (load_prog M auto (with_offsets 0 0 0 qs ! k))) (\<lambda>r. ret (r \<noteq> None)))
        (\<lambda>c u. ?I u \<and> (b \<and> c \<longrightarrow> linked_upto qs (Suc k) u)) (\<lambda>_. False) t"
      using wpx_load_prog [OF q sz, of M auto k] step t linked_upto_Suc [OF kq]
      by (auto simp: wpx_rules with_offsets_nth [OF kq] elim!: wpx_mono)
  qed (auto simp: env_names_def set_var_count_def set_fun_count_def
      sizes_ok_def linked_upto_def vars_loaded_def)
  show ?thesis
    using loop linked_all [of qs]
    by (auto simp: load_linked_def wpx_rules cleared_def elim!: wpx_mono dest: env_names_eq(1))
qed

section \<open>Symbols\<close>

text \<open>The names only grow, and by indexes of the programs only.\<close>

definition names_step :: "program list \<Rightarrow> vm_base \<Rightarrow> vm_base \<Rightarrow> bool" where
  "names_step ps s t \<longleftrightarrow>
     reset_without_native_fun_indexes (vb_env t) = reset_without_native_fun_indexes (vb_env s) \<and> vb_heap t = vb_heap s \<and>
     env_fun_indexes (vb_env s) \<subseteq>\<^sub>m env_fun_indexes (vb_env t) \<and> env_var_indexes (vb_env s) \<subseteq>\<^sub>m env_var_indexes (vb_env t) \<and>
     (\<forall>n i. env_fun_indexes (vb_env t) n = Some i \<longrightarrow> env_fun_indexes (vb_env s) n = Some i \<or> i < fun_count_of ps) \<and>
     (\<forall>n i. env_var_indexes (vb_env t) n = Some i \<longrightarrow> env_var_indexes (vb_env s) n = Some i \<or> i < var_count_of ps)"

lemma names_refl [simp]: "names_step ps s s"
  by (simp add: names_step_def)

lemma names_trans: "names_step ps s t \<Longrightarrow> names_step ps t u \<Longrightarrow> names_step ps s u"
  unfolding names_step_def by (elim conjE, intro conjI allI impI; (metis map_le_trans)?)

lemma names_errors [simp]: "names_step ps s (t\<lparr>vb_errors := e\<rparr>) = names_step ps s t"
  by (simp add: names_step_def)

lemma map_le_Some: "m k = Some v \<Longrightarrow> m \<subseteq>\<^sub>m m' \<Longrightarrow> m' k = Some v"
  by (metis domI map_le_def)

definition symbol_defined :: "nat \<Rightarrow> nat \<Rightarrow> program \<Rightarrow> vm_env \<Rightarrow> format_symbol \<Rightarrow> bool" where
  "symbol_defined fo vo p e y \<longleftrightarrow>
     (sy_type y = SYMBOL_TYPE_FUN OR SYMBOL_TYPE_DEFINED \<longrightarrow> unat (sy_index y) < length (pg_funs p) \<and>
        env_fun_indexes e (sy_name y) = Some (fo + unat (sy_index y))) \<and>
     (sy_type y = SYMBOL_TYPE_VAR OR SYMBOL_TYPE_DEFINED \<longrightarrow> unat (sy_index y) < length (pg_vars p) \<and>
        env_var_indexes e (sy_name y) = Some (vo + unat (sy_index y)))"

lemma symbol_defined_mono: "names_step ps s t \<Longrightarrow> symbol_defined fo vo p (vb_env s) y \<Longrightarrow> symbol_defined fo vo p (vb_env t) y"
  unfolding names_step_def symbol_defined_def by (auto dest: map_le_Some)

lemma wpx_define_symbol:
  assumes "fo + length (pg_funs p) \<le> fun_count_of ps" "vo + length (pg_vars p) \<le> var_count_of ps"
  shows "wpx (define_symbol (i, fo, vo, p) y)
    (\<lambda>b t. names_step ps s t \<and> (b \<longrightarrow> symbol_defined fo vo p (vb_env t) y)) F s"
proof -
  let ?i = "unat (sy_index y)" and ?n = "sy_name y" and ?e = "vb_env s"
  have f: "names_step ps s (s\<lparr>vb_env := ?e\<lparr>env_fun_indexes := (env_fun_indexes ?e)(?n \<mapsto> fo + ?i), env_fun_symbols := m\<rparr>\<rparr>)"
    if "env_fun_indexes ?e ?n = None" "?i < length (pg_funs p)" for m
    using assms that by (auto simp: names_step_def map_le_def reset_without_native_fun_indexes_def)
  have v: "names_step ps s (s\<lparr>vb_env := ?e\<lparr>env_var_indexes := (env_var_indexes ?e)(?n \<mapsto> vo + ?i)\<rparr>\<rparr>)"
    if "env_var_indexes ?e ?n = None" "?i < length (pg_vars p)"
    using assms that by (auto simp: names_step_def map_le_def reset_without_native_fun_indexes_def)
  show ?thesis
    using f v by (auto simp: define_symbol_def wpx_rules add_fun_index_def add_var_index_def insert_new_def
        symbol_defined_def)
qed

definition symbols_defined :: "program list \<Rightarrow> nat \<Rightarrow> vm_env \<Rightarrow> bool" where
  "symbols_defined ps n e \<longleftrightarrow> (\<forall>k<n. \<forall>y\<in>set (pg_symbols (ps ! k)).
     symbol_defined (fun_count_of (take k ps)) (var_count_of (take k ps)) (ps ! k) e y)"

lemma wpx_define_symbols:
  "wpx (for_symbols define_symbol ps) (\<lambda>b t. names_step ps s t \<and> (b \<longrightarrow> symbols_defined ps (length ps) (vb_env t))) F s"
  unfolding for_symbols_def
proof (rule wpx_allM [where I = "\<lambda>k b t. names_step ps s t \<and> (b \<longrightarrow> symbols_defined ps k (vb_env t))"])
  fix k b t assume "k < length (with_offsets 0 0 0 ps)" and t: "names_step ps s t \<and> (b \<longrightarrow> symbols_defined ps k (vb_env t))"
  then have k: "k < length ps" by simp
  let ?p = "ps ! k" and ?fo = "fun_count_of (take k ps)" and ?vo = "var_count_of (take k ps)"
  have le: "?fo + length (pg_funs ?p) \<le> fun_count_of ps" "?vo + length (pg_vars ?p) \<le> var_count_of ps"
    using counts_take [OF k] by simp_all
  have "wpx (allM (define_symbol (k, ?fo, ?vo, ?p)) (pg_symbols ?p)) (\<lambda>c u. names_step ps t u \<and>
      (c \<longrightarrow> (\<forall>y\<in>set (pg_symbols ?p). symbol_defined ?fo ?vo ?p (vb_env u) y))) F t"
  proof (rule wpx_allM [where I = "\<lambda>l c u. names_step ps t u \<and>
      (c \<longrightarrow> (\<forall>y\<in>set (take l (pg_symbols ?p)). symbol_defined ?fo ?vo ?p (vb_env u) y))"])
    fix l c u assume l: "l < length (pg_symbols ?p)" and u: "names_step ps t u \<and>
      (c \<longrightarrow> (\<forall>y\<in>set (take l (pg_symbols ?p)). symbol_defined ?fo ?vo ?p (vb_env u) y))"
    show "wpx (define_symbol (k, ?fo, ?vo, ?p) (pg_symbols ?p ! l)) (\<lambda>d v. names_step ps t v \<and>
        (c \<and> d \<longrightarrow> (\<forall>y\<in>set (take (Suc l) (pg_symbols ?p)). symbol_defined ?fo ?vo ?p (vb_env v) y))) F u"
      using u names_trans [of ps t u] symbol_defined_mono [of ps u]
      by (auto simp: take_Suc_conv_app_nth [OF l] intro: wpx_mono [OF wpx_define_symbol [OF le]])
  qed auto
  then show "wpx ((\<lambda>(i, fo, vo, p). allM (define_symbol (i, fo, vo, p)) (pg_symbols p)) (with_offsets 0 0 0 ps ! k))
      (\<lambda>c u. names_step ps s u \<and> (b \<and> c \<longrightarrow> symbols_defined ps (Suc k) (vb_env u))) F t"
    using t names_trans [of ps s t] symbol_defined_mono [of ps t]
    by (auto simp: with_offsets_nth [OF k] symbols_defined_def less_Suc_eq elim!: wpx_mono)
qed (auto simp: symbols_defined_def)

definition symbols_found :: "program \<Rightarrow> vm_env \<Rightarrow> bool" where
  "symbols_found p e \<longleftrightarrow> (\<forall>y\<in>set (pg_symbols p). (sy_type y = SYMBOL_TYPE_FUN \<longrightarrow> env_fun_indexes e (sy_name y) \<noteq> None) \<and>
     (sy_type y = SYMBOL_TYPE_VAR \<longrightarrow> env_var_indexes e (sy_name y) \<noteq> None))"

definition but_errors :: "vm_base \<Rightarrow> vm_base \<Rightarrow> bool" where
  "but_errors s t \<longleftrightarrow> (\<exists>e. t = s\<lparr>vb_errors := e\<rparr>)"

lemma but_errors_refl [simp]: "but_errors s s"
  by (auto simp: but_errors_def intro: exI [of _ "vb_errors s"])

lemma but_errors_errors [simp]: "but_errors s t \<Longrightarrow> but_errors s (t\<lparr>vb_errors := e\<rparr>)"
  by (auto simp: but_errors_def)

lemma but_errors_env: "but_errors s t \<Longrightarrow> vb_env t = vb_env s \<and> vb_heap t = vb_heap s"
  by (auto simp: but_errors_def)

lemma wpx_need_symbols:
  "wpx (for_symbols need_symbol ps) (\<lambda>b t. but_errors s t \<and> (b \<longrightarrow> (\<forall>p\<in>set ps. symbols_found p (vb_env s)))) F s"
  unfolding for_symbols_def
proof (rule wpx_allM [where I = "\<lambda>k b t. but_errors s t \<and> (b \<longrightarrow> (\<forall>p\<in>set (take k ps). symbols_found p (vb_env s)))"])
  fix k b t assume "k < length (with_offsets 0 0 0 ps)"
    and t: "but_errors s t \<and> (b \<longrightarrow> (\<forall>p\<in>set (take k ps). symbols_found p (vb_env s)))"
  then have k: "k < length ps" by simp
  let ?p = "ps ! k"
  have inner: "wpx (allM (need_symbol (k, fo, vo, ?p)) (pg_symbols ?p)) (\<lambda>c u. but_errors s u \<and> (c \<longrightarrow> symbols_found ?p (vb_env s))) F t" for fo vo
  proof (rule wpx_allM [where I = "\<lambda>l c u. but_errors s u \<and> (c \<longrightarrow> (\<forall>y\<in>set (take l (pg_symbols ?p)).
      (sy_type y = SYMBOL_TYPE_FUN \<longrightarrow> env_fun_indexes (vb_env s) (sy_name y) \<noteq> None) \<and>
      (sy_type y = SYMBOL_TYPE_VAR \<longrightarrow> env_var_indexes (vb_env s) (sy_name y) \<noteq> None)))"], goal_cases)
    case (1 l c u)
    then show ?case using but_errors_env [of s u]
      by (auto simp: need_symbol_def wpx_rules take_Suc_conv_app_nth [OF 1(1)])
  qed (use t in \<open>auto simp: symbols_found_def\<close>)
  then show "wpx ((\<lambda>(i, fo, vo, p). allM (need_symbol (i, fo, vo, p)) (pg_symbols p)) (with_offsets 0 0 0 ps ! k))
      (\<lambda>c u. but_errors s u \<and> (b \<and> c \<longrightarrow> (\<forall>p\<in>set (take (Suc k) ps). symbols_found p (vb_env s)))) F t"
    using t by (auto simp: with_offsets_nth [OF k] take_Suc_conv_app_nth [OF k] intro: wpx_mono [OF inner])
qed auto

section \<open>Relocating all programs\<close>

text \<open>Every program relocated by the counts of functions and variables of the programs before it.\<close>

definition relocated_all :: "index_tables \<Rightarrow> program list \<Rightarrow> program list \<Rightarrow> bool" where
  "relocated_all T ps qs \<longleftrightarrow> length qs = length ps \<and> (\<forall>k<length ps.
     relocate (of_nat (fun_count_of (take k ps))) (of_nat (var_count_of (take k ps))) T (ps ! k) = (Done (), qs ! k))"

lemma wpx_relocate_program:
  assumes "program_ok p"
  shows "wpx (relocate_program (i, fo, vo, p)) (\<lambda>r t. but_errors s t \<and>
    (\<forall>q. r = Some q \<longrightarrow> relocate (of_nat fo) (of_nat vo) (env_tables (vb_env s)) p = (Done (), q))) F s"
  using relocate_outcome [OF assms, of "of_nat fo" "of_nat vo" "env_tables (vb_env s)"]
  by (cases "relocate (of_nat fo) (of_nat vo) (env_tables (vb_env s)) p")
    (auto simp: relocate_program_def wpx_rules)

lemma wpx_relocate_programs:
  assumes "\<forall>p\<in>set ps. program_ok p"
  shows "wpx (collectM relocate_program (with_offsets 0 0 0 ps)) (\<lambda>qs t. but_errors s t \<and>
    (None \<notin> set qs \<longrightarrow> relocated_all (env_tables (vb_env s)) ps (map the qs))) F s"
proof (rule wpx_collectM [where I = "\<lambda>k qs t. but_errors s t \<and> length qs = k \<and> (\<forall>l<k. \<forall>q. qs ! l = Some q \<longrightarrow>
    relocate (of_nat (fun_count_of (take l ps))) (of_nat (var_count_of (take l ps))) (env_tables (vb_env s)) (ps ! l) = (Done (), q))"])
  fix k qs t assume "k < length (with_offsets 0 0 0 ps)" and t: "but_errors s t \<and> length qs = k \<and> (\<forall>l<k. \<forall>q. qs ! l = Some q \<longrightarrow>
    relocate (of_nat (fun_count_of (take l ps))) (of_nat (var_count_of (take l ps))) (env_tables (vb_env s)) (ps ! l) = (Done (), q))"
  then have k: "k < length ps" by simp
  have ok: "program_ok (ps ! k)" using assms k by simp
  have trans: "but_errors t u \<Longrightarrow> but_errors s u" for u using t by (auto simp: but_errors_def)
  show "wpx (relocate_program (with_offsets 0 0 0 ps ! k)) (\<lambda>q u. but_errors s u \<and> length (qs @ [q]) = Suc k \<and>
      (\<forall>l<Suc k. \<forall>r. (qs @ [q]) ! l = Some r \<longrightarrow> relocate (of_nat (fun_count_of (take l ps)))
        (of_nat (var_count_of (take l ps))) (env_tables (vb_env s)) (ps ! l) = (Done (), r))) F t"
    unfolding with_offsets_nth [OF k]
    by (rule wpx_mono [OF wpx_relocate_program [OF ok]])
      (use t trans but_errors_env [of s t] in \<open>auto simp: less_Suc_eq nth_append\<close>)
next
  fix qs t assume "but_errors s t \<and> length qs = length (with_offsets 0 0 0 ps) \<and>
    (\<forall>l<length (with_offsets 0 0 0 ps). \<forall>q. qs ! l = Some q \<longrightarrow>
    relocate (of_nat (fun_count_of (take l ps))) (of_nat (var_count_of (take l ps))) (env_tables (vb_env s)) (ps ! l) = (Done (), q))"
  moreover have "\<exists>q. qs ! l = Some q" if "None \<notin> set qs" "l < length qs" for l
    using that nth_mem [of l qs] by (cases "qs ! l") auto
  ultimately show "but_errors s t \<and> (None \<notin> set qs \<longrightarrow> relocated_all (env_tables (vb_env s)) ps (map the qs))"
    by (fastforce simp: relocated_all_def)
qed simp

lemma relocated_all_ok:
  assumes ok: "\<forall>p\<in>set ps. program_ok p" and r: "relocated_all T ps qs"
  shows "\<forall>q\<in>set qs. program_ok q" and "fun_count_of qs = fun_count_of ps" and "var_count_of qs = var_count_of ps"
proof -
  have k: "program_ok (qs ! k) \<and> length (pg_funs (qs ! k)) = length (pg_funs (ps ! k)) \<and>
      length (pg_vars (qs ! k)) = length (pg_vars (ps ! k))" if "k < length ps" for k
    using relocate_outcome [of "ps ! k" "of_nat (fun_count_of (take k ps))" "of_nat (var_count_of (take k ps))" T]
      ok r that by (auto simp: relocated_all_def)
  then show "\<forall>q\<in>set qs. program_ok q"
    using r by (auto simp: in_set_conv_nth relocated_all_def)
  have "map (\<lambda>q. length (pg_funs q)) qs = map (\<lambda>q. length (pg_funs q)) ps"
    "map (\<lambda>q. length (pg_vars q)) qs = map (\<lambda>q. length (pg_vars q)) ps"
    using k r by (auto simp: list_eq_iff_nth_eq relocated_all_def)
  then show "fun_count_of qs = fun_count_of ps" "var_count_of qs = var_count_of ps"
    by (simp_all add: fun_count_of_def var_count_of_def)
qed

section \<open>Loading several programs\<close>

definition names_linked :: "program list \<Rightarrow> program list \<Rightarrow> vm_env \<Rightarrow> bool" where
  "names_linked ps qs e \<longleftrightarrow> relocated_all (env_tables e) ps qs \<and> symbols_defined ps (length ps) e \<and>
     (\<forall>p\<in>set ps. symbols_found p e)"

lemma wpx_link_programs:
  assumes "\<forall>p\<in>set ps. program_ok p"
  shows "wpx (link_programs ps) (\<lambda>qs t. names_step ps s t \<and> names_linked ps qs (vb_env t)) (cleared s) s"
proof -
  have clear: "cleared s (u\<lparr>vb_env := reset_without_native_fun_indexes (vb_env u)\<rparr>)" if "names_step ps s t" "but_errors t u" for t u
    using that but_errors_env [OF that(2)] by (auto simp: names_step_def cleared_def)
  have reloc: "wpx (collectM relocate_program (with_offsets 0 0 0 ps)) (\<lambda>qs. wpx (reset_unless (None \<notin> set qs))
      (\<lambda>_ v. names_step ps s v \<and> names_linked ps (map the qs) (vb_env v)) (cleared s)) (cleared s) u"
    if t: "names_step ps s t" "symbols_defined ps (length ps) (vb_env t)" "but_errors t u" "\<forall>p\<in>set ps. symbols_found p (vb_env t)" for t u
  proof (rule wpx_mono [OF wpx_relocate_programs [OF assms]])
    fix qs v assume v: "but_errors u v \<and> (None \<notin> set qs \<longrightarrow> relocated_all (env_tables (vb_env u)) ps (map the qs))"
    have "but_errors t v" using t(3) v by (auto simp: but_errors_def)
    note tv = but_errors_env [OF this] clear [OF t(1) this]
    have "vb_env u = vb_env t" using but_errors_env [OF t(3)] by simp
    then show "wpx (reset_unless (None \<notin> set qs))
      (\<lambda>_ v. names_step ps s v \<and> names_linked ps (map the qs) (vb_env v)) (cleared s) v"
      using t v tv by (auto simp: wpx_rules names_linked_def names_step_def)
  qed assumption
  have need: "wpx (for_symbols need_symbol ps) (\<lambda>b. wpx (seqM (reset_unless b)
      (bindM (collectM relocate_program (with_offsets 0 0 0 ps)) (\<lambda>qs. seqM (reset_unless (None \<notin> set qs)) (ret (map the qs)))))
      (\<lambda>qs v. names_step ps s v \<and> names_linked ps qs (vb_env v)) (cleared s)) (cleared s) t"
    if t: "names_step ps s t" "symbols_defined ps (length ps) (vb_env t)" for t
    by (rule wpx_mono [OF wpx_need_symbols]) (use reloc [OF t] clear [OF t(1)] in \<open>auto simp: wpx_rules\<close>)
  have cl: "cleared s (t\<lparr>vb_env := reset_without_native_fun_indexes (vb_env t)\<rparr>)" if "names_step ps s t" for t
    using clear [OF that but_errors_refl] .
  show ?thesis
    unfolding link_programs_def wpx_bindM
    by (rule wpx_mono [OF wpx_define_symbols]) (use need cl in \<open>auto simp: wpx_rules\<close>)
qed

lemma wpx_load_programs:
  assumes "\<forall>bs\<in>set bss. length bs < 2 ^ 63"
  shows "wpx (load_programs many i bss) (\<lambda>(ps, ok, rel) t. but_errors s t \<and> (\<forall>p\<in>set ps. program_ok p) \<and>
    (ok \<longrightarrow> list_all2 (\<lambda>bs p. load bs = Done p) bss ps \<and> rel = list_all is_relocatable ps \<and>
      (many \<longrightarrow> list_all is_relocatable ps))) F s"
  using assms
proof (induction bss arbitrary: i s many)
  case (Cons bs bss)
  have trans: "but_errors (s\<lparr>vb_errors := e\<rparr>) t \<Longrightarrow> but_errors s t" for e t by (auto simp: but_errors_def)
  have IH: "wpx (load_programs m j bss) (\<lambda>(ps, ok, rel) t. but_errors u t \<and> (\<forall>p\<in>set ps. program_ok p) \<and>
    (ok \<longrightarrow> list_all2 (\<lambda>bs p. load bs = Done p) bss ps \<and> rel = list_all is_relocatable ps \<and>
      (m \<longrightarrow> list_all is_relocatable ps))) F u" for m j u
    using Cons.IH Cons.prems by simp
  consider p where "load bs = Done p" "program_ok p" | "load bs = Failed"
    using load_outcome [of bs] Cons.prems by auto
  then show ?case
  proof cases
    case (1 p)
    show ?thesis
    proof (cases "\<not> is_relocatable p \<and> many")
      case True
      then show ?thesis using 1 by (simp add: wpx_rules, intro wpx_mono [OF IH]) (auto simp: wpx_rules dest!: trans)
    next
      case False
      then show ?thesis
        by (simp add: 1 False wpx_rules, intro wpx_mono [OF IH]) (use False 1 in \<open>auto simp: wpx_rules\<close>)
    qed
  next
    case 2
    then show ?thesis by (simp add: wpx_rules, intro wpx_mono [OF IH]) (auto simp: wpx_rules dest!: trans)
  qed
qed (simp add: wpx_rules)

lemma names_linked_env:
  assumes "env_names e = env_names e'"
  shows "names_linked ps qs e = names_linked ps qs e'"
  unfolding names_linked_def symbols_defined_def symbol_defined_def symbols_found_def
  by (simp only: env_names_eq [OF assms])

text \<open>Every name is one from before or leads to an element.\<close>

definition names_bound :: "vm_base \<Rightarrow> vm_base \<Rightarrow> bool" where
  "names_bound s t \<longleftrightarrow>
     (\<forall>n i. env_fun_indexes (vb_env t) n = Some i \<longrightarrow> env_fun_indexes (vb_env s) n = Some i \<or> i < length (env_funs (vb_env t))) \<and>
     (\<forall>n i. env_var_indexes (vb_env t) n = Some i \<longrightarrow> env_var_indexes (vb_env s) n = Some i \<or> i < length (env_vars (vb_env t)))"

lemma linked_lengths: "linked qs t \<Longrightarrow> length (env_funs (vb_env t)) = fun_count_of qs \<and> length (env_vars (vb_env t)) = var_count_of qs"
  unfolding linked_def using vars_loaded_length length_funcs by metis

lemma names_bound_step:
  assumes "but_errors s t" "names_step ps t u" "env_names (vb_env v) = env_names (vb_env u)" "linked qs v"
    and "fun_count_of qs = fun_count_of ps" "var_count_of qs = var_count_of ps"
  shows "names_bound s v"
  using assms(2) linked_lengths [OF assms(4)] env_names_eq(2,3) [OF assms(3)] but_errors_env [OF assms(1)] assms(5,6)
  unfolding names_bound_def names_step_def by simp

lemma wpx_load_vm:
  assumes "\<forall>bs\<in>set bss. length bs < 2 ^ 63"
  shows "wpx (load_vm M auto d bss) (\<lambda>_ t. \<exists>ps qs. list_all2 (\<lambda>bs p. load bs = Done p) bss ps \<and>
      (if list_all is_relocatable ps then names_linked ps qs (vb_env t) else qs = ps \<and> length ps = 1) \<and>
      linked qs t \<and> take (length (vb_heap s)) (vb_heap t) = vb_heap s \<and> names_bound s t) (cleared s) s"
  unfolding load_vm_def wpx_bindM
proof (rule wpx_mono [OF wpx_load_programs [OF assms]])
  fix x t
  assume xt: "(case x of (ps, ok, rel) \<Rightarrow> \<lambda>t. but_errors s t \<and> (\<forall>p\<in>set ps. program_ok p) \<and>
    (ok \<longrightarrow> list_all2 (\<lambda>bs p. load bs = Done p) bss ps \<and> rel = list_all is_relocatable ps \<and>
      (length bss > 1 \<longrightarrow> list_all is_relocatable ps))) t"
  obtain ps ok rel where x: "x = (ps, ok, rel)" by (cases x)
  have t: "but_errors s t" "\<forall>p\<in>set ps. program_ok p"
    and ok: "ok \<longrightarrow> list_all2 (\<lambda>bs p. load bs = Done p) bss ps \<and> rel = list_all is_relocatable ps \<and>
      (1 < length bss \<longrightarrow> list_all is_relocatable ps)"
    using xt by (simp_all add: x)
  let ?Q = "\<lambda>_ t. \<exists>ps qs. list_all2 (\<lambda>bs p. load bs = Done p) bss ps \<and>
      (if list_all is_relocatable ps then names_linked ps qs (vb_env t) else qs = ps \<and> length ps = 1) \<and>
      linked qs t \<and> take (length (vb_heap s)) (vb_heap t) = vb_heap s \<and> names_bound s t"
  note env = but_errors_env [OF t(1)]
  have clear: "cleared u v \<Longrightarrow> cleared s v" if "names_step ps t u" for u v
    using that env by (auto simp: cleared_def names_step_def)
  have heap: "vb_heap u = vb_heap s" if "names_step ps t u" for u
    using that env by (simp add: names_step_def)
  have "wpx (bindM (if rel then link_programs ps else ret ps) (load_linked M auto d)) ?Q (cleared s) t" if okt: ok
  proof (cases rel)
    case True
    have lk: "wpx (load_linked M auto d qs) ?Q (cleared s) u" if u: "names_step ps t u" "names_linked ps qs (vb_env u)" for qs u
    proof -
      have qs: "\<forall>q\<in>set qs. program_ok q"
        using relocated_all_ok(1) [OF t(2)] u(2) by (auto simp: names_linked_def)
      show ?thesis
      proof (rule wpx_mono [OF wpx_load_linked [OF qs]])
        fix v assume v: "linked qs v \<and> env_names (vb_env v) = env_names (vb_env u) \<and>
          take (length (vb_heap u)) (vb_heap v) = vb_heap u \<and>
          vb_triples v = set_fun_infos_and_fun_count (env_fun_infos (vb_env v)) d"
        then show "?Q () v"
        proof (intro exI conjI)
          show "list_all2 (\<lambda>bs p. load bs = Done p) bss ps" using ok okt by simp
          show "if list_all is_relocatable ps then names_linked ps qs (vb_env v) else qs = ps \<and> length ps = 1"
            using True ok okt u(2) names_linked_env [of "vb_env v" "vb_env u"] v by simp
          show "linked qs v" "take (length (vb_heap s)) (vb_heap v) = vb_heap s" using v heap [OF u(1)] by simp_all
          show "names_bound s v"
            using names_bound_step [OF t(1) u(1)] v relocated_all_ok(2,3) [OF t(2)] u(2) unfolding names_linked_def by blast
        qed
      qed (rule clear [OF u(1)])
    qed
    have "wpx (link_programs ps) (\<lambda>qs. wpx (load_linked M auto d qs) ?Q (cleared s)) (cleared s) t"
    proof (rule wpx_mono [OF wpx_link_programs [OF t(2)]])
      fix qs u assume "names_step ps t u \<and> names_linked ps qs (vb_env u)"
      then show "wpx (load_linked M auto d qs) ?Q (cleared s) u" using lk by blast
    qed (rule clear [OF names_refl])
    then show ?thesis using True by (simp only: if_True wpx_bindM)
  next
    case False
    then have "\<not> length bss > 1" "length ps = length bss" "ps \<noteq> []" using ok okt by (auto dest: list_all2_lengthD)
    then have one: "length ps = 1" by (cases ps) auto
    have fin: "?Q () v" if v: "linked ps v \<and> env_names (vb_env v) = env_names (vb_env t) \<and>
        take (length (vb_heap t)) (vb_heap v) = vb_heap t \<and>
        vb_triples v = set_fun_infos_and_fun_count (env_fun_infos (vb_env v)) d" for v
    proof (intro exI conjI)
      show "list_all2 (\<lambda>bs p. load bs = Done p) bss ps" using ok okt by simp
      show "if list_all is_relocatable ps then names_linked ps ps (vb_env v) else ps = ps \<and> length ps = 1"
        using False ok okt one by simp
      show "linked ps v" "take (length (vb_heap s)) (vb_heap v) = vb_heap s" using v env by simp_all
      show "names_bound s v" using names_bound_step [OF t(1) names_refl] v by blast
    qed
    have "wpx (load_linked M auto d ps) ?Q (cleared s) t"
      by (rule wpx_mono [OF wpx_load_linked [OF t(2)]]) (use fin clear [OF names_refl] in blast)+
    then show ?thesis using False by (simp only: if_False wpx_bindM wpx_ret)
  qed
  moreover have "cleared s (t\<lparr>vb_env := reset_without_native_fun_indexes (vb_env t)\<rparr>)"
    using env by (simp add: cleared_def)
  ultimately show "wpx (case x of (ps, ok, rel) \<Rightarrow>
      seqM (reset_unless ok) (bindM (if rel then link_programs ps else ret ps) (load_linked M auto d))) ?Q (cleared s) t"
    unfolding x prod.case by (cases ok; simp only: wpx_seqM wpx_reset_unless if_True if_False simp_thms)
qed assumption

text \<open>Two relocatable programs: the function of the first one has an operand that names the function of the
  second one, which is a library.\<close>

definition caller_file :: "u8 list" where
  "caller_file = HEADER_MAGIC @ [0, 0, 0, 2, 0, 0, 0, 0, 0, 0, 0, 1, 0, 0, 0, 0, 0, 0, 0, 1, 0, 0, 0, 0, 0, 0, 0, 1, 0, 0, 0, 1] @ replicate 19 0 @ [1, 0, 0, 0, 0, 0, 2] @ replicate 16 0 @ [1] @ replicate 18 0 @ [1, 0, 102]"

definition library_file :: "u8 list" where
  "library_file = HEADER_MAGIC @ [0, 0, 0, 3, 0, 0, 0, 0, 0, 0, 0, 1, 0, 0, 0, 0, 0, 0, 0, 1] @ replicate 11 0 @ [1] @ replicate 19 0 @ [1, 0, 0, 0, 0, 0, 2, 0, 0, 0, 0, 0, 7] @ replicate 13 0 @ [1, 16, 102]"

definition empty_vm :: vm_base where
  "empty_vm = \<lparr>vb_env = \<lparr>env_funs = [], env_vars = [], env_fun_infos = [], env_fun_indexes = Map.empty,
     env_fun_symbols = Map.empty, env_var_indexes = Map.empty, env_native_indexes = Map.empty,
     env_native_symbols = Map.empty, env_data_to_free = []\<rparr>, vb_heap = [], vb_has_entry = False, vb_entry = 0,
     vb_errors = [], vb_triples = []\<rparr>"

definition roomy :: memory where
  "roomy = \<lparr>mem_alloc = (\<lambda>_ _. True), mem_junk = (\<lambda>_ _. 0)\<rparr>"

lemma files_load:
  "fst (load_vm roomy False 0 [caller_file, library_file] empty_vm) = Done ()"
  "map f_instrs (env_funs (vb_env (snd (load_vm roomy False 0 [caller_file, library_file] empty_vm)))) =
     [Some [\<lparr>i_opcode = 0x20000, i_arg1 = 1, i_arg2 = 0\<rparr>], Some [\<lparr>i_opcode = 0x20000, i_arg1 = 7, i_arg2 = 0\<rparr>]]"
  by code_simp+

lemma caller_alone:
  "fst (load_vm roomy False 0 [caller_file] empty_vm) = Failed"
  "vb_errors (snd (load_vm roomy False 0 [caller_file] empty_vm)) = [\<lparr>le_index = 0, le_error = LOADING_ERROR_NO_FUN_SYM, le_symbol = [102]\<rparr>]"
  by code_simp+

text \<open>C20: Loading always ends without anything undefined; when it fails, the environment has no function, no
  variable and no name but those of the native functions, and the objects that were in the heap are as before.\<close>

theorem load_fails_clean:
  assumes "\<forall>bs\<in>set bss. length bs < 2 ^ 63"
  shows "\<exists>t. load_vm M auto d bss s = (Done (), t) \<or> load_vm M auto d bss s = (Failed, t) \<and>
    vb_env t = reset_without_native_fun_indexes (vb_env s) \<and> take (length (vb_heap s)) (vb_heap t) = vb_heap s"
  using wpx_load_vm [OF assms, of M auto d s] unfolding wpx_def cleared_def
  by (auto split: prod.splits outcome.splits)

lemma load_fails_clean_witness:
  "\<exists>t. load_vm roomy False 0 [caller_file] empty_vm = (Failed, t) \<and> env_fun_indexes (vb_env t) = Map.empty \<and>
     env_funs (vb_env t) = []"
proof -
  have "\<forall>bs\<in>set [caller_file]. length bs < 2 ^ 63" by (simp add: caller_file_def HEADER_MAGIC_def)
  from load_fails_clean [OF this, of roomy False 0 empty_vm] caller_alone(1)
  show ?thesis by (auto simp: reset_without_native_fun_indexes_def)
qed

text \<open>C3: When loading succeeds, the environment holds the functions of the loaded and relocated programs one
  after another, and their variables, whose references lead to the objects of their data; every relocation was made with
  the names of all programs; and the heap before the loading is unchanged.\<close>

theorem load_links_programs:
  assumes "\<forall>bs\<in>set bss. length bs < 2 ^ 63" "load_vm M auto d bss s = (Done (), t)"
  shows "\<exists>ps qs. list_all2 (\<lambda>bs p. load bs = Done p) bss ps \<and>
    (if list_all is_relocatable ps then names_linked ps qs (vb_env t) else qs = ps \<and> length ps = 1) \<and>
    linked qs t \<and> take (length (vb_heap s)) (vb_heap t) = vb_heap s"
  using wpx_load_vm [OF assms(1), of M auto d s] assms(2) unfolding wpx_def by (simp only: prod.case outcome.case) blast

lemma load_links_programs_witness:
  "\<exists>ps qs. list_all2 (\<lambda>bs p. load bs = Done p) [caller_file, library_file] ps \<and> fun_count_of qs = 2 \<and>
     linked qs (snd (load_vm roomy False 0 [caller_file, library_file] empty_vm))"
proof -
  let ?t = "snd (load_vm roomy False 0 [caller_file, library_file] empty_vm)"
  have len: "\<forall>bs\<in>set [caller_file, library_file]. length bs < 2 ^ 63"
    by (simp add: caller_file_def library_file_def HEADER_MAGIC_def)
  have "load_vm roomy False 0 [caller_file, library_file] empty_vm = (Done (), ?t)"
    using files_load(1) by (simp add: prod_eq_iff)
  from load_links_programs [OF len this] obtain ps qs where q:
    "list_all2 (\<lambda>bs p. load bs = Done p) [caller_file, library_file] ps" "linked qs ?t" by blast
  have "length (env_funs (vb_env ?t)) = 2"
    using arg_cong [OF files_load(2), of length] by simp
  then have "fun_count_of qs = 2" using q(2) unfolding linked_def by (metis length_funcs)
  then show ?thesis using q by blast
qed

text \<open>C26: After the first successful loading, every name of a function or a variable leads to an element of
  the environment.\<close>

theorem loaded_names_in_bounds:
  assumes "\<forall>bs\<in>set bss. length bs < 2 ^ 63" "load_vm M auto d bss s = (Done (), t)"
    and "env_fun_indexes (vb_env s) = Map.empty" "env_var_indexes (vb_env s) = Map.empty"
  shows "(env_fun_indexes (vb_env t) name = Some i \<longrightarrow> i < length (env_funs (vb_env t)) \<and>
      env_fun_named (vb_env t) name = env_funs (vb_env t) ! i) \<and>
    (env_var_indexes (vb_env t) name = Some i \<longrightarrow> i < length (env_vars (vb_env t)) \<and>
      env_var_named (vb_env t) name = env_vars (vb_env t) ! i)"
  using wpx_load_vm [OF assms(1), of M auto d s] assms(2-4) unfolding wpx_def names_bound_def
  by (auto simp: env_fun_named_def env_fun_def env_var_named_def env_var_def)

lemma loaded_names_in_bounds_witness:
  "env_fun_named (vb_env (snd (load_vm roomy False 0 [caller_file, library_file] empty_vm))) [102]
    = \<lparr>f_arg_count = 0, f_instrs = Some [\<lparr>i_opcode = 0x20000, i_arg1 = 7, i_arg2 = 0\<rparr>]\<rparr>"
proof -
  let ?t = "snd (load_vm roomy False 0 [caller_file, library_file] empty_vm)"
  have len: "\<forall>bs\<in>set [caller_file, library_file]. length bs < 2 ^ 63"
    by (simp add: caller_file_def library_file_def HEADER_MAGIC_def)
  have run: "load_vm roomy False 0 [caller_file, library_file] empty_vm = (Done (), ?t)"
    using files_load(1) by (simp add: prod_eq_iff)
  have idx: "env_fun_indexes (vb_env ?t) [102] = Some 1" "env_funs (vb_env ?t) ! 1
      = \<lparr>f_arg_count = 0, f_instrs = Some [\<lparr>i_opcode = 0x20000, i_arg1 = 7, i_arg2 = 0\<rparr>]\<rparr>" by code_simp+
  show ?thesis
    using loaded_names_in_bounds [OF len run, of "[102]" 1] idx by (simp add: empty_vm_def)
qed

text \<open>Loading once more replaces the functions and keeps the names of the replaced ones.\<close>

definition plain_file :: "u8 list" where
  "plain_file = HEADER_MAGIC @ replicate 11 0 @ [1] @ replicate 7 0 @ [1] @ replicate 31 0 @ [1] @ replicate 20 0"

lemma reload_keeps_names:
  "let t = snd (load_vm roomy False 0 [plain_file] (snd (load_vm roomy False 0 [caller_file, library_file] empty_vm))) in
   env_fun_indexes (vb_env t) [102] = Some 1 \<and> length (env_funs (vb_env t)) = 1"
  by code_simp

end
