(* ===== verification/Program_Writer.thy ===== *)
theory Program_Writer
  imports Loader_Safe
begin

unbundle bit_operations_syntax

text \<open>
  Writing a program file: the bytes that the compiler makes of the parts of a program
  (\<open>generate_prog\<close>, comp/impl_comp.cpp). Every structure is written with the most significant byte of a
  number first, every section and every object and symbol is padded with zeros to a multiple of 8 bytes.
\<close>

section \<open>Bytes\<close>

text \<open>\<open>htons\<close>, \<open>htonl\<close> and \<open>htonll\<close> as they stand in memory.\<close>

definition to_bytes :: "nat \<Rightarrow> 'a::len word \<Rightarrow> u8 list" where
  "to_bytes n w = map (\<lambda>i. ucast (drop_bit (8 * (n - 1 - i)) w)) [0..<n]"

definition pad8 :: "u8 list \<Rightarrow> u8 list" where
  "pad8 bs = bs @ replicate (up8 (length bs) - length bs) 0"

section \<open>Structures\<close>

definition write_function :: "format_function \<Rightarrow> u8 list" where
  "write_function f = to_bytes 4 (ff_addr f) @ to_bytes 4 (ff_arg_count f) @ to_bytes 4 (ff_instr_count f)"

definition write_var :: "format_value \<Rightarrow> u8 list" where
  "write_var v = to_bytes 4 (fv_type v) @ replicate 4 0 @ to_bytes 8 (fv_i v)"

definition write_instr :: "instruction \<Rightarrow> u8 list" where
  "write_instr x = to_bytes 4 (i_opcode x) @ to_bytes 4 (i_arg1 x) @ to_bytes 4 (i_arg2 x)"

fun object_number :: "format_object \<Rightarrow> u32" where
  "object_number (FIArray8 _) = 0"
| "object_number (FIArray16 _) = 1"
| "object_number (FIArray32 _) = 2"
| "object_number (FIArray64 _) = 3"
| "object_number (FSFArray _) = 4"
| "object_number (FDFArray _) = 5"
| "object_number (FRArray _) = 6"
| "object_number (FTuple _) = 7"

fun object_count :: "format_object \<Rightarrow> nat" where
  "object_count (FIArray8 xs) = length xs"
| "object_count (FIArray16 xs) = length xs"
| "object_count (FIArray32 xs) = length xs"
| "object_count (FIArray64 xs) = length xs"
| "object_count (FSFArray xs) = length xs"
| "object_count (FDFArray xs) = length xs"
| "object_count (FRArray xs) = length xs"
| "object_count (FTuple xs) = length xs"

fun write_elems :: "format_object \<Rightarrow> u8 list" where
  "write_elems (FIArray8 xs) = xs"
| "write_elems (FIArray16 xs) = concat (map (to_bytes 2) xs)"
| "write_elems (FIArray32 xs) = concat (map (to_bytes 4) xs)"
| "write_elems (FIArray64 xs) = concat (map (to_bytes 8) xs)"
| "write_elems (FSFArray xs) = concat (map (to_bytes 4) xs)"
| "write_elems (FDFArray xs) = concat (map (to_bytes 8) xs)"
| "write_elems (FRArray xs) = concat (map (to_bytes 4) xs)"
| "write_elems (FTuple xs) = concat (map (\<lambda>x. to_bytes 8 (fst x)) xs) @ map snd xs"

definition write_object :: "format_object \<Rightarrow> u8 list" where
  "write_object ob = pad8 (to_bytes 4 (object_number ob) @ to_bytes 4 (of_nat (object_count ob) :: u32) @ write_elems ob)"

definition write_reloc :: "format_reloc \<Rightarrow> u8 list" where
  "write_reloc r = to_bytes 4 (rl_type r) @ to_bytes 4 (rl_addr r) @ to_bytes 4 (rl_symbol r)"

definition write_symbol :: "format_symbol \<Rightarrow> u8 list" where
  "write_symbol y = pad8 (to_bytes 4 (sy_index y) @ to_bytes 2 (of_nat (length (sy_name y)) :: u16) @ [sy_type y] @ sy_name y)"

definition write_fun_info :: "format_fun_info \<Rightarrow> u8 list" where
  "write_fun_info i = to_bytes 4 (fi_fun_index i) @ [fi_eval_strategy i, fi_eval_strategy_mask i] @ replicate 6 0"

section \<open>The file\<close>

definition write_data :: "program \<Rightarrow> u8 list" where
  "write_data p = concat (map (\<lambda>(a, ob). write_object ob) (pg_data p))"

definition write_header :: "program \<Rightarrow> u8 list" where
  "write_header p = HEADER_MAGIC @ to_bytes 4 (pg_flags p) @ to_bytes 4 (ucast (pg_entry p) :: u32) @
     to_bytes 4 (of_nat (length (pg_funs p)) :: u32) @ to_bytes 4 (of_nat (length (pg_vars p)) :: u32) @
     to_bytes 4 (of_nat (length (pg_code p)) :: u32) @ to_bytes 4 (of_nat (length (write_data p)) :: u32) @
     to_bytes 4 (of_nat (length (pg_relocs p)) :: u32) @ to_bytes 4 (of_nat (length (pg_symbols p)) :: u32) @
     to_bytes 4 (of_nat (length (pg_fun_infos p)) :: u32) @ replicate 4 0"

definition write_program :: "program \<Rightarrow> u8 list" where
  "write_program p = write_header p @
     pad8 (concat (map write_function (pg_funs p))) @ pad8 (concat (map write_var (pg_vars p))) @
     pad8 (concat (map write_instr (pg_code p))) @ pad8 (write_data p) @
     pad8 (concat (map write_reloc (pg_relocs p))) @ concat (map write_symbol (pg_symbols p)) @
     pad8 (concat (map write_fun_info (pg_fun_infos p)))"

section \<open>Reading what was written\<close>

lemma length_to_bytes [simp]: "length (to_bytes n w) = n"
  by (simp add: to_bytes_def)

lemma from_to_bytes [simp]:
  "from_bytes (to_bytes 2 w) = (w :: u16)" "from_bytes (to_bytes 4 v) = (v :: u32)" "from_bytes (to_bytes 8 x) = (x :: u64)"
proof -
  have u: "[0..<2] = [0, Suc 0]" "[0..<4] = [0, 1, 2, 3::nat]" "[0..<8] = [0, 1, 2, 3, 4, 5, 6, 7::nat]"
    by (simp_all add: upt_rec)
  show "from_bytes (to_bytes 2 w) = w"
    by (rule bit_word_eqI, rename_tac n, case_tac "n < 8") (auto simp: to_bytes_def u bit_simps)
  show "from_bytes (to_bytes 4 v) = v"
  proof (rule bit_word_eqI)
    fix n assume "n < LENGTH(32)"
    then consider "n < 8" | "8 \<le> n" "n < 16" | "16 \<le> n" "n < 24" | "24 \<le> n" "n < 32" by fastforce
    then show "bit (from_bytes (to_bytes 4 v) :: u32) n = bit v n"
      by cases (auto simp: to_bytes_def u bit_simps)
  qed
  show "from_bytes (to_bytes 8 x) = x"
  proof (rule bit_word_eqI)
    fix n assume "n < LENGTH(64)"
    then consider "n < 8" | "8 \<le> n" "n < 16" | "16 \<le> n" "n < 24" | "24 \<le> n" "n < 32"
      | "32 \<le> n" "n < 40" | "40 \<le> n" "n < 48" | "48 \<le> n" "n < 56" | "56 \<le> n" "n < 64" by fastforce
    then show "bit (from_bytes (to_bytes 8 x) :: u64) n = bit x n"
      by cases (auto simp: to_bytes_def u bit_simps)
  qed
qed

end
