(* ===== verification/Write_Load.thy ===== *)
theory Write_Load
  imports Program_Writer
begin

unbundle bit_operations_syntax

text \<open>
  The loader reads back every program that the writer writes, followed by any number of zeros.
\<close>

section \<open>Words and arrays in a buffer\<close>

text \<open>\<open>holds bs k xs\<close>: the bytes \<open>xs\<close> stand in the buffer from \<open>k\<close> on.\<close>

definition holds :: "u8 list \<Rightarrow> nat \<Rightarrow> u8 list \<Rightarrow> bool" where
  "holds bs k xs \<longleftrightarrow> k + length xs \<le> length bs \<and> take (length xs) (drop k bs) = xs"

lemma holds_append: "holds bs k (xs @ ys) \<longleftrightarrow> holds bs k xs \<and> holds bs (k + length xs) ys"
proof
  assume h: "holds bs k (xs @ ys)"
  then have t: "take (length xs + length ys) (drop k bs) = xs @ ys" and l: "k + length xs + length ys \<le> length bs"
    by (simp_all add: holds_def)
  have "take (length xs) (drop k bs) = take (length xs) (take (length xs + length ys) (drop k bs))" by (simp add: min_def)
  then have 1: "take (length xs) (drop k bs) = xs" using t by simp
  have "take (length ys) (drop (k + length xs) bs) = drop (length xs) (take (length xs + length ys) (drop k bs))"
    by (simp add: drop_take add.commute)
  then have "take (length ys) (drop (k + length xs) bs) = ys" using t by simp
  with 1 l show "holds bs k xs \<and> holds bs (k + length xs) ys" by (simp add: holds_def)
next
  assume h: "holds bs k xs \<and> holds bs (k + length xs) ys"
  then have "take (length xs + length ys) (drop k bs) = xs @ ys"
    by (simp add: holds_def take_add add.commute)
  with h show "holds bs k (xs @ ys)" by (simp add: holds_def)
qed

lemma holds_Cons: "holds bs k (x # xs) \<longleftrightarrow> holds bs k [x] \<and> holds bs (Suc k) xs"
  using holds_append [of bs k "[x]" xs] by simp

lemma holds_here [simp]: "holds (pre @ xs @ post) (length pre) xs"
  by (simp add: holds_def)

lemma load_words:
  "holds bs k (to_bytes 2 w2) \<Longrightarrow> load_u16 bs k s = (Done w2, s)"
  "holds bs k (to_bytes 4 w4) \<Longrightarrow> load_u32 bs k s = (Done w4, s)"
  "holds bs k (to_bytes 8 w8) \<Longrightarrow> load_u64 bs k s = (Done w8, s)"
  "holds bs k [b] \<Longrightarrow> load_u8 bs k s = (Done b, s)"
  "holds bs k xs \<Longrightarrow> length xs = n \<Longrightarrow> load_bytes bs n k s = (Done xs, s)"
  by (auto simp: holds_def load_u16_def load_u32_def load_u64_def load_u8_def load_bytes_def run)

lemma length_concat_const: "\<forall>x\<in>set xs. length (enc x) = e \<Longrightarrow> length (concat (map enc xs)) = e * length xs"
  by (induction xs) auto

lemma holds_concat:
  assumes "holds bs k (concat (map enc xs))" "\<forall>x\<in>set xs. length (enc x) = e" "i < length xs"
  shows "holds bs (k + e * i) (enc (xs ! i))"
proof -
  have "length (concat (map enc (take i xs))) = e * i"
    using length_concat_const [of "take i xs" enc e] assms(2,3) in_set_takeD [of _ i xs] by auto
  moreover have "concat (map enc xs) = concat (map enc (take i xs)) @ enc (xs ! i) @ concat (map enc (drop (Suc i) xs))"
    by (subst id_take_nth_drop [OF assms(3)]) simp
  ultimately show ?thesis using assms(1) by (simp add: holds_append)
qed

lemma collectM_array:
  assumes "\<And>i. i < n \<Longrightarrow> f (h i) s = (Done (xs ! i), s)" "length xs = n"
  shows "collectM f (map h [0..<n]) s = (Done xs, s)"
proof -
  have "collectM f (map h is) s = (Done (map ((!) xs) is), s)" if "set is \<subseteq> {..<n}" for "is"
    using that by (induction "is") (simp_all add: run assms(1))
  from this [of "[0..<n]"] show ?thesis using assms(2) map_nth [of xs] by (simp add: atLeast0LessThan)
qed

lemma collectM_upt:
  assumes "\<And>i. i < n \<Longrightarrow> f i s = (Done (xs ! i), s)" "length xs = n"
  shows "collectM f [0..<n] s = (Done xs, s)"
  using collectM_array [of n f "\<lambda>i. i" s xs] assms by simp

section \<open>Sections\<close>

text \<open>The state of the loader is a position in the buffer.\<close>

lemma unat_pos: "k < 2 ^ 63 \<Longrightarrow> unat (of_nat k :: u64) = k"
  by (simp add: unat_of_nat)

lemma unat_pos2: "k < 2 ^ 64 \<Longrightarrow> unat (of_nat k :: u64) = k"
  by (simp add: unat_of_nat)

lemma unat_le32: "k \<le> n \<Longrightarrow> n < 2 ^ 32 \<Longrightarrow> unat (of_nat k :: u64) = k"
  by (rule unat_pos2) simp

lemma align_pos:
  assumes "n < 2 ^ 63"
  shows "align (of_nat n) 8 = of_nat (up8 n)" "up8 n < 2 ^ 64"
proof -
  have "up8 n \<le> n + 7" by (simp add: up8_def)
  then show "up8 n < 2 ^ 64" using assms by simp
  have u: "unat (of_nat n + 7 :: u64) = n + 7" using assms by (simp add: unat_word_ariths unat_of_nat)
  have "unat (align (of_nat n) 8 :: u64) = up8 n"
    using u \<open>up8 n < 2 ^ 64\<close> by (simp add: align_def unat_word_ariths unat_div up8_def)
  then show "align (of_nat n) 8 = of_nat (up8 n)" using \<open>up8 n < 2 ^ 64\<close> by (simp add: word_unat_eq_iff unat_pos2)
qed

lemma add_no_wrap:
  fixes a b :: u64
  shows "unat a + unat b < 2 ^ 63 \<Longrightarrow> \<not> (a OR b) > a + b"
  using add_check [of a b] by simp

lemma nat_add_check: "a + b < 2 ^ 63 \<Longrightarrow> \<not> ((of_nat a :: u64) OR of_nat b) > of_nat a + of_nat b"
  by (rule add_no_wrap) (simp add: unat_pos)

lemma nat_le_check: "a \<le> b \<Longrightarrow> b < 2 ^ 63 \<Longrightarrow> \<not> (of_nat a :: u64) > of_nat b"
  using unat_pos [of a] unat_pos [of b] by (simp add: word_less_nat_alt)

lemma nat_nonzero: "n \<noteq> 0 \<Longrightarrow> n < 2 ^ 63 \<Longrightarrow> (of_nat n :: u64) \<noteq> 0"
  by (metis unat_pos unsigned_0)

lemma skip_section_run:
  assumes "k + up8 n \<le> length bs" "length bs < 2 ^ 63"
  shows "skip_section bs (of_nat n) (of_nat k) = (Done k, of_nat (k + up8 n))"
proof -
  have n: "n < 2 ^ 63" "up8 n < 2 ^ 63" "k < 2 ^ 63" using assms up8_le [of n] by linarith+
  have a: "align (of_nat n) 8 = (of_nat (up8 n) :: u64)" by (rule align_pos [OF n(1)])
  have 1: "\<not> ((of_nat n :: u64) \<noteq> 0 \<and> align (of_nat n) 8 = 0)"
    using n up8_le [of n] unat_pos [of n] unat_pos [of "up8 n"] unfolding a by (auto simp: word_unat_eq_iff)
  have 2: "\<not> ((of_nat k :: u64) OR of_nat (up8 n)) > of_nat k + of_nat (up8 n)"
    by (rule add_no_wrap) (use assms n in \<open>simp add: unat_pos\<close>)
  have 3: "\<not> (of_nat k + of_nat (up8 n) :: u64) > size_of bs"
    using assms n unat_pos [of "k + up8 n"] unat_pos [of "length bs"]
    by (simp add: size_of_def word_less_nat_alt not_less flip: of_nat_add)
  show ?thesis
    using 1 2 3 n by (simp add: skip_section_def Let_def run check_def a unat_pos)
qed

lemma length_pad8 [simp]: "length (pad8 xs) = up8 (length xs)"
  using up8_le [of "length xs"] by (simp add: pad8_def)

lemma holds_pad8: "holds bs k (pad8 xs) \<Longrightarrow> holds bs k xs \<and> k + up8 (length xs) \<le> length bs"
proof -
  assume h: "holds bs k (pad8 xs)"
  then have "k + length (pad8 xs) \<le> length bs" by (simp add: holds_def del: length_pad8)
  then show ?thesis using h by (simp add: pad8_def holds_append)
qed

lemma ucast_count: "n < 2 ^ 32 \<Longrightarrow> (ucast (of_nat n :: u32) :: u64) = of_nat n"
  by (simp add: word_unat_eq_iff unsigned_ucast_eq unat_of_nat take_bit_nat_eq_self)

lemma ucast_back: "unat e < 2 ^ 32 \<Longrightarrow> ucast (ucast (e :: u64) :: u32) = e"
  by (rule word_unat_eq_iff [THEN iffD2]) (simp add: unsigned_ucast_eq unsigned_take_bit_eq take_bit_nat_eq_self)

lemma unat_count: "n < 2 ^ 32 \<Longrightarrow> unat (of_nat n :: u32) = n"
  by (simp add: unat_of_nat)

lemma array_section_run:
  assumes "k + up8 (e * n) \<le> length bs" "length bs < 2 ^ 63" "n < 2 ^ 32" "unat w = e" "e \<noteq> 0"
  shows "array_section bs w (ucast (of_nat n :: u32)) (of_nat k) = (Done k, of_nat (k + up8 (e * n)))"
proof -
  have l: "e * n < 2 ^ 63" using assms(1,2) up8_le [of "e * n"] by linarith
  have w: "w * of_nat n = of_nat (e * n)"
    using assms(4) by (metis of_nat_mult word_of_nat_eq_iff word_unat_eq_iff unat_of_nat of_nat_unat ucast_id)
  have "w \<noteq> 0" using assms(4,5) by auto
  then have "(of_nat n * w) div w = of_nat n"
    using l assms(3,4) by (subst mul_check) (simp_all add: unat_pos2 mult.commute)
  then have "w * of_nat n div w = of_nat n" by (simp add: mult.commute)
  then show ?thesis
    using skip_section_run [OF assms(1,2)] by (simp add: array_section_def Let_def run check_def ucast_count [OF assms(3)] w)
qed

lemma load_array:
  assumes h: "holds bs k (pad8 (concat (map enc xs)))" and bs: "length bs < 2 ^ 63"
    and enc: "\<forall>x\<in>set xs. length (enc x) = e" and n: "length xs < 2 ^ 32" and e: "unat w = e" "e \<noteq> 0"
    and rd: "\<And>p x s. x \<in> set xs \<Longrightarrow> holds bs p (enc x) \<Longrightarrow> f p s = (Done x, s)"
  shows "bindM (array_section bs w (ucast (of_nat (length xs) :: u32))) (\<lambda>p. collectM (\<lambda>i. f (p + e * i)) [0..<length xs]) (of_nat k)
    = (Done xs, of_nat (k + length (pad8 (concat (map enc xs)))))"
proof -
  have len: "length (concat (map enc xs)) = e * length xs" by (rule length_concat_const [OF enc])
  have h': "holds bs k (concat (map enc xs))" "k + up8 (e * length xs) \<le> length bs"
    using holds_pad8 [OF h] len by simp_all
  have "collectM (\<lambda>i. f (k + e * i)) [0..<length xs] t = (Done xs, t)" for t
    by (rule collectM_upt) (use holds_concat [OF h'(1) enc] rd in auto)
  then show ?thesis
    using array_section_run [OF h'(2) bs n e] len by (simp add: run)
qed

section \<open>The sections of the file\<close>

lemma read_function:
  assumes "holds bs p (write_function f)" "unat (ff_addr f) < unat c" "unat (ff_addr f) + unat (ff_instr_count f) \<le> unat c"
  shows "load_function bs c p s = (Done f, s)"
proof -
  have r: "load_u32 bs p s = (Done (ff_addr f), s)" "load_u32 bs (p + 4) s = (Done (ff_arg_count f), s)"
    "load_u32 bs (p + 8) s = (Done (ff_instr_count f), s)"
    using assms(1) by (auto simp: write_function_def holds_append add.commute [of p] intro!: load_words)
  have lt: "unat (ff_addr f) + unat (ff_instr_count f) < 2 ^ 32"
    using assms(3) unsigned_less [of c, where 'a = nat] by simp
  then have "unat (ff_addr f + ff_instr_count f) = unat (ff_addr f) + unat (ff_instr_count f)"
    by (simp add: unat_word_ariths)
  then show ?thesis using assms(2,3) lt add_check [of "ff_addr f" "ff_instr_count f"]
    by (simp add: load_function_def run r check_def Let_def word_le_nat_alt word_less_nat_alt)
qed

lemma read_var:
  assumes "holds bs p (write_var v)" "fv_type v \<in> VALUE_TYPES"
  shows "load_var bs p s = (Done v, s)"
proof -
  have r: "load_u32 bs p s = (Done (fv_type v), s)" "load_u64 bs (p + 8) s = (Done (fv_i v), s)"
    using assms(1) by (auto simp: write_var_def holds_append add.commute [of p] intro!: load_words)
  show ?thesis using assms(2) by (auto simp: load_var_def run r check_def)
qed

lemma read_instr:
  assumes "holds bs p (write_instr x)"
  shows "load_instr bs p s = (Done x, s)"
proof -
  have r: "load_u32 bs p s = (Done (i_opcode x), s)" "load_u32 bs (p + 4) s = (Done (i_arg1 x), s)"
    "load_u32 bs (p + 8) s = (Done (i_arg2 x), s)"
    using assms(1) by (auto simp: write_instr_def holds_append add.commute [of p] intro!: load_words)
  show ?thesis by (simp add: load_instr_def run r)
qed

lemma read_reloc:
  assumes "holds bs p (write_reloc x)" "reloc_type_ok flags (rl_type x)"
  shows "load_reloc bs flags p s = (Done x, s)"
proof -
  have r: "load_u32 bs p s = (Done (rl_type x), s)" "load_u32 bs (p + 4) s = (Done (rl_addr x), s)"
    "load_u32 bs (p + 8) s = (Done (rl_symbol x), s)"
    using assms(1) by (auto simp: write_reloc_def holds_append add.commute [of p] intro!: load_words)
  show ?thesis using assms(2) by (simp add: load_reloc_def run r check_def)
qed

lemma read_fun_info:
  assumes "holds bs p (write_fun_info x)" "unat (fi_fun_index x) < unat c"
  shows "load_fun_info bs c p s = (Done x, s)"
proof -
  have r: "load_u32 bs p s = (Done (fi_fun_index x), s)" "load_u8 bs (p + 4) s = (Done (fi_eval_strategy x), s)"
    "load_u8 bs (p + 5) s = (Done (fi_eval_strategy_mask x), s)"
    using assms(1) by (auto simp: write_fun_info_def holds_append holds_Cons [of bs _ _ "_ # _"] holds_Cons [of bs _ _ "replicate 6 0"] add.commute [of p] intro!: load_words)
  show ?thesis using assms(2) by (simp add: load_fun_info_def run r check_def word_le_nat_alt)
qed

section \<open>Objects\<close>

lemma length_write_elems [simp]: "length (write_elems ob) = elems_size ob"
  by (cases ob) (simp_all add: length_concat_const [where e = 2] length_concat_const [where e = 4] length_concat_const [where e = 8])

lemma read_words:
  "holds bs p (concat (map (to_bytes 2) xs)) \<Longrightarrow> collectM (\<lambda>j. load_u16 bs (p + 2 * j)) [0..<length xs] s = (Done xs, s)"
  "holds bs p (concat (map (to_bytes 4) ys)) \<Longrightarrow> collectM (\<lambda>j. load_u32 bs (p + 4 * j)) [0..<length ys] s = (Done ys, s)"
  "holds bs p (concat (map (to_bytes 8) zs)) \<Longrightarrow> collectM (\<lambda>j. load_u64 bs (p + 8 * j)) [0..<length zs] s = (Done zs, s)"
  by (rule collectM_upt; simp add: load_words holds_concat)+

lemma holds_nth: "holds bs k xs \<Longrightarrow> i < length xs \<Longrightarrow> holds bs (k + i) [xs ! i]"
  using holds_concat [of bs k "\<lambda>x. [x]" xs 1 i] by simp

lemma read_elems:
  assumes h: "holds bs p (write_elems ob)" and t: "elem_types_ok ob"
  shows "load_elems bs (object_number ob) (object_count ob) p s = (Done ob, s)"
proof (cases ob)
  case (FTuple xs)
  have 1: "holds bs p (concat (map (\<lambda>x. to_bytes 8 (fst x)) xs))" "holds bs (p + 8 * length xs) (map snd xs)"
    using h length_concat_const [of xs "\<lambda>x. to_bytes 8 (fst x)" 8] by (simp_all add: FTuple holds_append)
  have "collectM (load_tuple_elem bs p (length xs)) [0..<length xs] s = (Done xs, s)"
  proof (rule collectM_upt)
    fix i assume i: "i < length xs"
    have "holds bs (p + 8 * i) (to_bytes 8 (fst (xs ! i)))"
      using holds_concat [OF 1(1) _ i, of 8] by simp
    moreover have "holds bs (p + 8 * length xs + i) [snd (xs ! i)]"
      using holds_nth [OF 1(2)] i by simp
    moreover have "snd (xs ! i) = 0 \<or> snd (xs ! i) = 1 \<or> snd (xs ! i) = 2"
      using t i nth_mem [OF i] by (auto simp: FTuple)
    ultimately show "load_tuple_elem bs p (length xs) i s = (Done (xs ! i), s)"
      by (simp add: load_tuple_elem_def run check_def load_words)
  qed simp
  then show ?thesis by (simp add: FTuple load_elems_def run)
qed (use h in \<open>simp_all add: load_elems_def run load_words read_words\<close>)

lemma elem_size_of_number:
  obtains e where "elem_size_of_type (object_number ob) = Some e" "unat e * object_count ob = elems_size ob" "e \<noteq> 0"
proof -
  have "\<exists>e. elem_size_of_type (object_number ob) = Some e \<and> unat e * object_count ob = elems_size ob \<and> e \<noteq> 0"
    by (cases ob) (simp_all add: elem_size_of_type_def)
  then show ?thesis using that by blast
qed

lemma length_write_object: "length (write_object ob) = up8 (8 + elems_size ob)"
  by (simp add: write_object_def)

lemma up8_add: "8 dvd i \<Longrightarrow> up8 (i + n) = i + up8 n"
  unfolding up8_def by presburger

lemma read_object:
  assumes h: "holds bs (base + i) (write_object ob)" and t: "elem_types_ok ob" and i: "8 dvd i"
    and ds: "i + up8 (8 + elems_size ob) \<le> ds" "ds < 2 ^ 32"
  shows "load_object bs base (of_nat ds) (of_nat i) s = (Done (ob, of_nat (i + up8 (8 + elems_size ob))), s)"
proof -
  obtain e where e: "elem_size_of_type (object_number ob) = Some e" "unat e * object_count ob = elems_size ob" "e \<noteq> 0"
    by (rule elem_size_of_number)
  have le: "8 + elems_size ob \<le> up8 (8 + elems_size ob)" by (rule up8_le)
  have n: "object_count ob < 2 ^ 32"
  proof -
    have "object_count ob \<le> elems_size ob" by (cases ob) auto
    then show ?thesis using ds le by linarith
  qed
  have h': "holds bs (base + i) (to_bytes 4 (object_number ob))" "holds bs (base + i + 4) (to_bytes 4 (of_nat (object_count ob) :: u32))"
    "holds bs (base + i + 8) (write_elems ob)"
    using holds_pad8 [OF h [unfolded write_object_def]] by (simp_all add: holds_append ac_simps)
  have u: "unat (of_nat i :: u64) = i" "unat (of_nat (object_count ob) :: u32) = object_count ob"
    using ds n by (simp_all add: unat_pos2 unat_count)
  have sz: "(ucast (of_nat (object_count ob) :: u32) :: u64) * e = of_nat (elems_size ob)"
    using e(2) by (simp add: ucast_count [OF n]) (metis of_nat_mult word_of_nat_eq_iff of_nat_unat ucast_id mult.commute)
  have "(of_nat (object_count ob) * e) div e = (of_nat (object_count ob) :: u64)"
    using e(2,3) ds le n by (subst mult.commute, subst mult.commute, subst mul_check) (simp_all add: unat_pos2 mult.commute)
  then have dv: "(of_nat (elems_size ob) :: u64) div e = ucast (of_nat (object_count ob) :: u32)"
    using sz by (simp add: ucast_count [OF n])
  have c1: "\<not> ((of_nat i :: u64) OR 8) > of_nat i + 8"
    by (rule add_no_wrap) (use ds in \<open>simp add: u\<close>)
  have c2: "\<not> ((of_nat i + 8 :: u64) OR of_nat (elems_size ob)) > of_nat i + 8 + of_nat (elems_size ob)"
  proof (rule add_no_wrap)
    have "unat (of_nat (i + 8) :: u64) = i + 8" "unat (of_nat (elems_size ob) :: u64) = elems_size ob"
      by (rule unat_le32 [OF _ ds(2)], use ds le in linarith)+
    then show "unat (of_nat i + 8 :: u64) + unat (of_nat (elems_size ob) :: u64) < 2 ^ 63" using ds le by simp
  qed
  have c3: "\<not> (of_nat i + 8 + of_nat (elems_size ob) :: u64) > of_nat ds"
  proof -
    have "unat (of_nat (i + 8 + elems_size ob) :: u64) = i + 8 + elems_size ob" "unat (of_nat ds :: u64) = ds"
      by (rule unat_le32 [OF _ ds(2)], use ds le in linarith)+
    then show ?thesis using ds le by (simp add: word_less_nat_alt)
  qed
  have al: "align (of_nat i + 8 + of_nat (elems_size ob)) 8 = (of_nat (i + up8 (8 + elems_size ob)) :: u64)"
    using align_pos(1) [of "i + (8 + elems_size ob)"] ds le up8_add [OF i, of "8 + elems_size ob"] by (simp add: ac_simps)
  have c4: "(of_nat (i + up8 (8 + elems_size ob)) :: u64) \<noteq> 0"
    using unat_pos2 [of "i + up8 (8 + elems_size ob)"] ds le by (auto simp: word_unat_eq_iff)
  show ?thesis
    using c1 c2 c3 c4 h' e(1) read_elems [OF h'(3) t]
    by (simp add: load_object_def Let_def run check_def load_words u sz dv al del: of_nat_add)
qed

text \<open>The addresses of objects that stand one behind the other.\<close>

fun layout :: "nat \<Rightarrow> format_object list \<Rightarrow> (u32 \<times> format_object) list" where
  "layout i [] = []"
| "layout i (ob # obs) = (of_nat i, ob) # layout (i + up8 (8 + elems_size ob)) obs"

lemma snd_layout [simp]: "map snd (layout i obs) = obs"
  by (induction obs arbitrary: i) auto

lemma dvd_up8 [simp]: "8 dvd up8 n"
  by (simp add: up8_def)

lemma read_objects:
  assumes "holds bs (base + i) (concat (map write_object obs))" "list_all elem_types_ok obs" "8 dvd i"
    "i + length (concat (map write_object obs)) = ds" "ds < 2 ^ 32" "length obs < k"
  shows "load_objects bs base (of_nat ds) k (of_nat i) s = (Done (layout i obs), s)"
  using assms
proof (induction obs arbitrary: i k)
  case Nil
  then obtain k' where "k = Suc k'" by (cases k) auto
  then show ?case using Nil by (simp add: run)
next
  case (Cons ob obs)
  obtain k' where k: "k = Suc k'" "length obs < k'" using Cons.prems by (cases k) auto
  let ?n = "up8 (8 + elems_size ob)"
  have h: "holds bs (base + i) (write_object ob)" "holds bs (base + (i + ?n)) (concat (map write_object obs))"
    using Cons.prems(1) by (simp_all add: holds_append length_write_object add.assoc)
  have ds: "i + ?n \<le> ds" using Cons.prems(4) by (simp add: length_write_object)
  have "unat (of_nat i :: u64) = i" "unat (of_nat ds :: u64) = ds"
    by (rule unat_le32 [OF _ Cons.prems(5)], use ds in linarith)+
  moreover have "i < ds" using ds up8_le [of "8 + elems_size ob"] by linarith
  ultimately have lt: "(of_nat i :: u64) < of_nat ds" by (simp add: word_less_nat_alt)
  have o1: "load_object bs base (of_nat ds) (of_nat i) s = (Done (ob, of_nat (i + ?n)), s)"
    using read_object [OF h(1) _ Cons.prems(3) ds Cons.prems(5)] Cons.prems(2) by simp
  have o2: "load_objects bs base (of_nat ds) k' (of_nat (i + ?n)) s = (Done (layout (i + ?n) obs), s)"
    by (rule Cons.IH [OF h(2)]) (use Cons.prems k in \<open>simp_all add: length_write_object\<close>)
  have "(ucast (of_nat i :: u64) :: u32) = of_nat i"
    using ds Cons.prems(5) by (simp add: word_unat_eq_iff unsigned_ucast_eq unat_of_nat take_bit_nat_eq_self)
  then show ?case using lt o1 o2 by (simp add: k run del: of_nat_add)
qed

section \<open>Symbols\<close>

lemma load_symbol_run:
  assumes "\<And>s :: u64. load_u8 bs (base + unat j + 6) s = (Done (sy_type y), s)" "\<And>s :: u64. load_u32 bs (base + unat j) s = (Done (sy_index y), s)"
    "\<And>s :: u64. load_u16 bs (base + unat j + 4) s = (Done l, s)" "\<And>s :: u64. load_bytes bs (unat l) (base + unat j + 7) s = (Done (sy_name y), s)"
    "symbol_type_ok flags (sy_type y)" "\<not> w + 7 > size_of bs" "7 + ucast l = (z :: u64)" "\<not> (7 OR ucast l) > z" "align z 8 = a" "a \<noteq> 0"
    "m = (if final then z else a)" "\<not> (w OR m) > w + m" "\<not> w + m > size_of bs" "\<not> (j OR a) > j + a"
  shows "load_symbol bs flags base final j w = (Done (y, j + a), w + m)"
  using assms by (cases final) (simp_all add: load_symbol_def Let_def run check_def)

lemma read_symbol:
  assumes h: "holds bs (base + i) (write_symbol y)" and bs: "length bs < 2 ^ 63"
    and n: "length (sy_name y) < 2 ^ 16" and t: "symbol_type_ok flags (sy_type y)"
  shows "load_symbol bs flags base final (of_nat i) (of_nat (base + i)) = (Done (y, of_nat (i + up8 (7 + length (sy_name y)))),
    of_nat (base + i + (if final then 7 + length (sy_name y) else up8 (7 + length (sy_name y)))))"
proof -
  let ?n = "length (sy_name y)" and ?p = "base + i"
  let ?len = "of_nat ?n :: u16" and ?up = "up8 (7 + ?n)"
  have le: "7 + ?n \<le> ?up" by (rule up8_le)
  have en: "?p + ?up \<le> length bs"
    and h': "holds bs ?p (to_bytes 4 (sy_index y))" "holds bs (?p + 4) (to_bytes 2 ?len)" "holds bs (?p + 6) [sy_type y]"
      "holds bs (?p + 7) (sy_name y)"
    using holds_pad8 [OF h [unfolded write_symbol_def]] by (simp_all add: holds_append holds_Cons [of bs _ _ "sy_name y"] ac_simps)
  have u: "unat (of_nat i :: u64) = i" "unat ?len = ?n" 
    using n bs en by (simp_all add: unat_of_nat)
  have len: "(ucast ?len :: u64) = of_nat ?n" "(7 + of_nat ?n :: u64) = of_nat (7 + ?n)"
    using n by (simp_all add: word_unat_eq_iff unsigned_ucast_eq unat_of_nat take_bit_nat_eq_self)
  have a: "align (of_nat (7 + ?n)) 8 = (of_nat ?up :: u64)"
    by (rule align_pos) (use n in simp)
  have c1: "\<not> (of_nat ?p + 7 :: u64) > size_of bs"
    using nat_le_check [of "?p + 7" "length bs"] le en bs by (simp add: size_of_def)
  have c2: "\<not> ((7 :: u64) OR of_nat ?n) > of_nat (7 + ?n)"
    using nat_add_check [of 7 ?n] n by simp
  have nz: "(of_nat ?up :: u64) \<noteq> 0"
    by (rule nat_nonzero) (use le en bs in linarith)+
  have c3: "\<not> ((of_nat i :: u64) OR of_nat ?up) > of_nat i + of_nat ?up"
    by (rule nat_add_check) (use en bs in linarith)
  define m where "m = (if final then 7 + ?n else ?up)"
  have m: "?p + m \<le> length bs" "(if final then of_nat (7 + ?n) else of_nat ?up) = (of_nat m :: u64)"
    using le en by (simp_all add: m_def)
  have c4: "\<not> ((of_nat ?p :: u64) OR of_nat m) > of_nat ?p + of_nat m"
    using m(1) bs by (intro nat_add_check) linarith
  have c5: "\<not> (of_nat ?p + of_nat m :: u64) > size_of bs"
    using nat_le_check [OF m(1) bs] by (simp add: size_of_def)
  have r: "load_u8 bs (?p + 6) s = (Done (sy_type y), s)" "load_u32 bs ?p s = (Done (sy_index y), s)"
    "load_u16 bs (?p + 4) s = (Done ?len, s)" "load_bytes bs ?n (?p + 7) s = (Done (sy_name y), s)" for s :: u64
    using h' by (simp_all add: load_words)
  have "load_symbol bs flags base final (of_nat i) (of_nat ?p) = (Done (y, of_nat i + of_nat ?up), of_nat ?p + of_nat m)"
    by (rule load_symbol_run [where l = ?len, OF _ _ _ _ t c1 _ _ a nz _ c4 c5 c3]) (use c2 in \<open>simp_all add: r u len m(2) del: of_nat_add\<close>)
  then show ?thesis by (simp add: m_def)
qed

text \<open>The symbols end at \<open>e\<close>, and with the padding of the last of them where they end in the file.\<close>

lemma read_symbols:
  assumes "holds bs (base + i) (concat (map write_symbol ys))" "length bs < 2 ^ 63"
    "list_all (\<lambda>y. length (sy_name y) < 2 ^ 16 \<and> symbol_type_ok flags (sy_type y)) ys" "8 dvd base + i"
  shows "\<exists>e. load_symbols bs flags base (length ys) (of_nat i) (of_nat (base + i)) = (Done ys, of_nat e) \<and>
    up8 e = base + i + length (concat (map write_symbol ys))"
  using assms
proof (induction ys arbitrary: i)
  case Nil
  then show ?case using up8_add [of "base + i" 0] by (auto simp: run up8_def intro!: exI [of _ "base + i"])
next
  case (Cons y ys)
  let ?n = "7 + length (sy_name y)"
  have len: "length (write_symbol y) = up8 ?n" by (simp add: write_symbol_def)
  have h: "holds bs (base + i) (write_symbol y)" "holds bs (base + (i + up8 ?n)) (concat (map write_symbol ys))"
    using Cons.prems(1) by (simp_all add: holds_append len add.assoc)
  note s1 = read_symbol [OF h(1) Cons.prems(2), of flags "ys = []"]
  show ?case
  proof (cases "ys = []")
    case True
    then show ?thesis
      using s1 Cons.prems(3) len up8_add [OF Cons.prems(4), of ?n]
      by (auto simp: run simp del: of_nat_add intro!: exI [of _ "base + i + ?n"])
  next
    case False
    have "8 dvd base + (i + up8 ?n)" using Cons.prems(4) by (simp add: add.assoc [symmetric])
    then obtain e where e: "load_symbols bs flags base (length ys) (of_nat (i + up8 ?n)) (of_nat (base + (i + up8 ?n))) = (Done ys, of_nat e)"
      "up8 e = base + (i + up8 ?n) + length (concat (map write_symbol ys))"
      using Cons.IH [OF h(2) Cons.prems(2)] Cons.prems(3) by auto
    show ?thesis
      using s1 e False Cons.prems(3) len by (intro exI [of _ e]) (simp add: run add.assoc del: of_nat_add)
  qed
qed

section \<open>The program\<close>

text \<open>The header that is written for a program.\<close>

definition header :: "program \<Rightarrow> format_header" where
  "header p = \<lparr>fh_flags = pg_flags p, fh_entry = ucast (pg_entry p), fh_fun_count = of_nat (length (pg_funs p)),
     fh_var_count = of_nat (length (pg_vars p)), fh_code_size = of_nat (length (pg_code p)),
     fh_data_size = of_nat (length (write_data p)), fh_reloc_count = of_nat (length (pg_relocs p)),
     fh_symbol_count = of_nat (length (pg_symbols p)), fh_fun_info_count = of_nat (length (pg_fun_infos p))\<rparr>"

text \<open>A program that a file can hold: its numbers fit into the fields of the header, and it is what the
  loader accepts.\<close>

definition file_ok :: "program \<Rightarrow> bool" where
  "file_ok p \<longleftrightarrow>
     unat (pg_entry p) < 2 ^ 32 \<and> length (pg_funs p) < 2 ^ 32 \<and> length (pg_vars p) < 2 ^ 32 \<and> length (pg_code p) < 2 ^ 32 \<and>
     length (write_data p) < 2 ^ 32 \<and> length (pg_relocs p) < 2 ^ 32 \<and> length (pg_symbols p) < 2 ^ 32 \<and>
     length (pg_fun_infos p) < 2 ^ 32 \<and> pg_fun_offset p = 0 \<and> pg_var_offset p = 0 \<and>
     list_all (\<lambda>f. unat (ff_addr f) < length (pg_code p) \<and> unat (ff_addr f) + unat (ff_instr_count f) \<le> length (pg_code p)) (pg_funs p) \<and>
     list_all (\<lambda>v. fv_type v \<in> VALUE_TYPES) (pg_vars p) \<and>
     pg_data p = layout 0 (map snd (pg_data p)) \<and> list_all elem_types_ok (map snd (pg_data p)) \<and>
     list_all (\<lambda>a. a \<in> fst ` set (pg_data p)) (var_addrs (pg_vars p)) \<and>
     (if pg_flags p AND HEADER_FLAG_RELOCATABLE \<noteq> 0
      then list_all (\<lambda>r. reloc_type_ok (pg_flags p) (rl_type r) \<and> (is_symbolic r \<longrightarrow> unat (rl_symbol r) < length (pg_symbols p))) (pg_relocs p) \<and>
           list_all (\<lambda>y. length (sy_name y) < 2 ^ 16 \<and> symbol_type_ok (pg_flags p) (sy_type y)) (pg_symbols p)
      else pg_relocs p = [] \<and> pg_symbols p = []) \<and>
     (if pg_flags p AND HEADER_FLAG_FUN_INFOS \<noteq> 0
      then list_all (\<lambda>i. unat (fi_fun_index i) < length (pg_funs p)) (pg_fun_infos p)
      else pg_fun_infos p = [])"

lemma length_write_header [simp]: "length (write_header p) = 48"
  by (simp add: write_header_def HEADER_MAGIC_def)

lemma read_header:
  assumes "holds bs 0 (write_header p)" "length bs < 2 ^ 63"
  shows "load_header bs 0 = (Done (header p), 48)"
proof -
  have a: "align 48 8 = (48 :: u64)" by (simp add: align_def)
  have le: "48 \<le> length bs" using assms(1) by (simp add: holds_def)
  then have c: "\<not> (48 :: u64) > size_of bs" using nat_le_check [of 48 "length bs"] assms(2) by (simp add: size_of_def)
  have m: "length HEADER_MAGIC = 8" by (simp add: HEADER_MAGIC_def)
  have r: "load_bytes bs 8 0 s = (Done HEADER_MAGIC, s)" "load_u32 bs 8 s = (Done (pg_flags p), s)"
    "load_u32 bs 12 s = (Done (ucast (pg_entry p)), s)" "load_u32 bs 16 s = (Done (of_nat (length (pg_funs p))), s)"
    "load_u32 bs 20 s = (Done (of_nat (length (pg_vars p))), s)" "load_u32 bs 24 s = (Done (of_nat (length (pg_code p))), s)"
    "load_u32 bs 28 s = (Done (of_nat (length (write_data p))), s)" "load_u32 bs 32 s = (Done (of_nat (length (pg_relocs p))), s)"
    "load_u32 bs 36 s = (Done (of_nat (length (pg_symbols p))), s)" "load_u32 bs 40 s = (Done (of_nat (length (pg_fun_infos p))), s)"
    for s :: u64
    using assms(1) m by (simp_all add: write_header_def holds_append load_words)
  show ?thesis by (simp add: load_header_def run a c check_def r header_def)
qed

lemma length_writes:
  "length (write_function f) = 12" "length (write_var v) = 16" "length (write_instr x) = 12" "length (write_reloc r) = 12"
  "length (write_fun_info i) = 12"
  by (simp_all add: write_function_def write_var_def write_instr_def write_reloc_def write_fun_info_def)

lemma load_functions_run:
  assumes "file_ok p" "length bs < 2 ^ 63" "holds bs k (pad8 (concat (map write_function (pg_funs p))))"
  shows "load_functions bs (header p) (of_nat k) = (Done (pg_funs p), of_nat (k + length (pad8 (concat (map write_function (pg_funs p))))))"
proof -
  have ok: "length (pg_funs p) < 2 ^ 32" "length (pg_code p) < 2 ^ 32"
    and f: "list_all (\<lambda>f. unat (ff_addr f) < length (pg_code p) \<and> unat (ff_addr f) + unat (ff_instr_count f) \<le> length (pg_code p)) (pg_funs p)"
    using assms(1) by (simp_all only: file_ok_def)
  have "load_function bs (of_nat (length (pg_code p))) q s = (Done f, s)" if "f \<in> set (pg_funs p)" "holds bs q (write_function f)" for q f s
    by (rule read_function [OF that(2)]) (use f that(1) ok in \<open>auto simp: list_all_iff unat_count\<close>)
  then show ?thesis
    using load_array [OF assms(3,2), of 12 12] ok by (simp add: load_functions_def header_def unat_count length_writes)
qed

lemma load_vars_run:
  assumes "file_ok p" "length bs < 2 ^ 63" "holds bs k (pad8 (concat (map write_var (pg_vars p))))"
  shows "load_vars bs (header p) (of_nat k) = (Done (pg_vars p), of_nat (k + length (pad8 (concat (map write_var (pg_vars p))))))"
proof -
  have ok: "length (pg_vars p) < 2 ^ 32" and f: "list_all (\<lambda>v. fv_type v \<in> VALUE_TYPES) (pg_vars p)"
    using assms(1) by (simp_all only: file_ok_def)
  have "load_var bs q s = (Done v, s)" if "v \<in> set (pg_vars p)" "holds bs q (write_var v)" for q v s
    by (rule read_var [OF that(2)]) (use f that(1) in \<open>simp add: list_all_iff\<close>)
  then show ?thesis
    using load_array [OF assms(3,2), of 16 16] ok by (simp add: load_vars_def header_def unat_count length_writes)
qed

lemma load_code_run:
  assumes "file_ok p" "length bs < 2 ^ 63" "holds bs k (pad8 (concat (map write_instr (pg_code p))))"
  shows "load_code bs (header p) (of_nat k) = (Done (pg_code p), of_nat (k + length (pad8 (concat (map write_instr (pg_code p))))))"
proof -
  have ok: "length (pg_code p) < 2 ^ 32" using assms(1) by (simp only: file_ok_def)
  then show ?thesis
    using load_array [OF assms(3,2), of 12 12 "load_instr bs"] read_instr by (simp add: load_code_def header_def unat_count length_writes)
qed

lemma count_le_data: "length obs \<le> length (concat (map write_object obs))"
proof (induction obs)
  case (Cons ob obs)
  then show ?case using up8_le [of "8 + elems_size ob"] by (simp add: length_write_object)
qed simp

lemma load_data_run:
  assumes "file_ok p" "length bs < 2 ^ 63" "holds bs k (pad8 (write_data p))"
  shows "load_data bs (header p) (pg_vars p) (of_nat k) = (Done (pg_data p), of_nat (k + length (pad8 (write_data p))))"
proof -
  let ?obs = "map snd (pg_data p)"
  have ok: "length (write_data p) < 2 ^ 32" "pg_data p = layout 0 ?obs" "list_all elem_types_ok ?obs"
      "list_all (\<lambda>a. a \<in> fst ` set (pg_data p)) (var_addrs (pg_vars p))"
    using assms(1) by (simp_all only: file_ok_def)
  have w: "write_data p = concat (map write_object ?obs)" by (simp add: write_data_def comp_def split_def)
  note h = holds_pad8 [OF assms(3)]
  have "length ?obs \<le> length (write_data p)" unfolding w by (rule count_le_data)
  then have n: "length ?obs < Suc (length bs)" using h up8_le [of "length (write_data p)"] by linarith
  have "load_objects bs k (of_nat (length (write_data p))) (Suc (length bs)) (of_nat 0) s = (Done (layout 0 ?obs), s)" for s
    by (rule read_objects [OF _ ok(3) _ _ ok(1) n]) (use h w in simp_all)
  then have r: "load_objects bs k (of_nat (length (write_data p))) (Suc (length bs)) 0 s = (Done (pg_data p), s)" for s
    using ok(2) by simp
  have s: "skip_section bs (of_nat (length (write_data p))) (of_nat k) = (Done k, of_nat (k + length (pad8 (write_data p))))"
    using skip_section_run [of k "length (write_data p)"] h assms(2) by simp
  have f: "filter (\<lambda>a. a \<notin> fst ` set (pg_data p)) (var_addrs (pg_vars p)) = []"
    using ok(4) by (auto simp: list_all_iff filter_empty_conv)
  show ?thesis
    by (simp add: load_data_def header_def Let_def ucast_count [OF ok(1)] run s r f check_def del: load_objects.simps)
qed

text \<open>Behind the symbols the position need not be aligned.\<close>

lemma load_relocs_and_symbols_run:
  assumes "file_ok p" "length bs < 2 ^ 63" "8 dvd k" "holds bs k (pad8 (concat (map write_reloc (pg_relocs p))))"
    "holds bs (k + length (pad8 (concat (map write_reloc (pg_relocs p))))) (concat (map write_symbol (pg_symbols p)))"
  shows "\<exists>e. load_relocs_and_symbols bs (header p) (of_nat k) = (Done (pg_relocs p, pg_symbols p), of_nat e) \<and>
    up8 e = k + length (pad8 (concat (map write_reloc (pg_relocs p)))) + length (concat (map write_symbol (pg_symbols p)))"
proof (cases "pg_flags p AND HEADER_FLAG_RELOCATABLE = 0")
  case True
  then have "pg_relocs p = []" "pg_symbols p = []" using assms(1) by (simp_all add: file_ok_def)
  then show ?thesis
    using True up8_add [OF assms(3), of 0] by (auto simp: load_relocs_and_symbols_def header_def run up8_def intro!: exI [of _ k])
next
  case False
  then have ok: "length (pg_relocs p) < 2 ^ 32" "length (pg_symbols p) < 2 ^ 32"
    and r: "list_all (\<lambda>r. reloc_type_ok (pg_flags p) (rl_type r) \<and> (is_symbolic r \<longrightarrow> unat (rl_symbol r) < length (pg_symbols p))) (pg_relocs p)"
    and y: "list_all (\<lambda>y. length (sy_name y) < 2 ^ 16 \<and> symbol_type_ok (pg_flags p) (sy_type y)) (pg_symbols p)"
    using assms(1) by (simp_all add: file_ok_def)
  let ?b = "k + length (pad8 (concat (map write_reloc (pg_relocs p))))"
  have "load_reloc bs (pg_flags p) q s = (Done x, s)" if "x \<in> set (pg_relocs p)" "holds bs q (write_reloc x)" for q x s
    by (rule read_reloc [OF that(2)]) (use r that(1) in \<open>simp add: list_all_iff\<close>)
  then have l: "load_relocs bs (header p) (of_nat k) = (Done (pg_relocs p), of_nat ?b)"
    using load_array [OF assms(4,2), of 12 12] ok by (simp add: load_relocs_def header_def unat_count length_writes)
  have "8 dvd ?b + 0" using assms(3) by simp
  then obtain e where e: "load_symbols bs (pg_flags p) ?b (length (pg_symbols p)) 0 (of_nat ?b) = (Done (pg_symbols p), of_nat e)"
      "up8 e = ?b + length (concat (map write_symbol (pg_symbols p)))"
    using read_symbols [OF _ assms(2) y, of ?b 0] assms(5) by auto
  have b: "?b \<le> length bs" "up8 e \<le> length bs" using assms(5) e(2) by (simp_all add: holds_def)
  have u: "unat (of_nat ?b :: u64) = ?b" by (rule unat_pos) (use b assms(2) in linarith)
  have c: "\<not> (of_nat e :: u64) > size_of bs"
    using nat_le_check [OF _ assms(2), of e] up8_le [of e] b by (simp add: size_of_def)
  have f: "filter (\<lambda>r. is_symbolic r \<and> unat (rl_symbol r) \<ge> length (pg_symbols p)) (pg_relocs p) = []"
    using r by (auto simp: list_all_iff filter_empty_conv)
  have h: "fh_flags (header p) = pg_flags p" "unat (fh_symbol_count (header p)) = length (pg_symbols p)"
    using ok by (simp_all add: header_def unat_count)
  show ?thesis
    using e(2) False
    by (intro exI [of _ e]) (simp add: load_relocs_and_symbols_def run check_def h l u e(1) c f del: of_nat_add length_pad8)
qed

lemma load_fun_infos_run:
  assumes "file_ok p" "length bs < 2 ^ 63" "up8 e = k" "holds bs k (pad8 (concat (map write_fun_info (pg_fun_infos p))))"
  shows "\<exists>t. load_fun_infos bs (header p) (of_nat e) = (Done (pg_fun_infos p), t)"
proof (cases "pg_flags p AND HEADER_FLAG_FUN_INFOS = 0")
  case True
  then have "pg_fun_infos p = []" using assms(1) by (simp add: file_ok_def)
  then show ?thesis using True by (auto simp: load_fun_infos_def header_def run)
next
  case False
  then have ok: "length (pg_fun_infos p) < 2 ^ 32" "length (pg_funs p) < 2 ^ 32"
    and r: "list_all (\<lambda>i. unat (fi_fun_index i) < length (pg_funs p)) (pg_fun_infos p)"
    using assms(1) by (simp_all add: file_ok_def)
  have k: "k \<le> length bs" using assms(4) by (simp add: holds_def)
  have e: "e < 2 ^ 63" using up8_le [of e] k assms(2,3) by linarith
  have a: "align (of_nat e) 8 = (of_nat k :: u64)" using align_pos(1) [OF e] assms(3) by simp
  have c: "\<not> ((of_nat e :: u64) \<noteq> 0 \<and> (of_nat k :: u64) = 0)"
    using nat_nonzero [of k] up8_le [of e] k assms(2,3) by (cases "e = 0") auto
  have "load_fun_info bs (of_nat (length (pg_funs p))) q s = (Done x, s)" if "x \<in> set (pg_fun_infos p)" "holds bs q (write_fun_info x)" for q x s
    by (rule read_fun_info [OF that(2)]) (use r ok that(1) in \<open>simp add: list_all_iff unat_count\<close>)
  then show ?thesis
    using load_array [OF assms(4,2), of 12 12] ok False c
    by (simp add: load_fun_infos_def header_def unat_count length_writes run check_def a)
qed

section \<open>The file is read back\<close>

lemma written_program_loads:
  assumes ok: "file_ok p" and len: "length (write_program p) + z < 2 ^ 63"
  shows "load (write_program p @ replicate z 0) = Done p"
proof -
  let ?bs = "write_program p @ replicate z 0"
  let ?f = "pad8 (concat (map write_function (pg_funs p)))" and ?v = "pad8 (concat (map write_var (pg_vars p)))"
    and ?c = "pad8 (concat (map write_instr (pg_code p)))" and ?d = "pad8 (write_data p)"
    and ?r = "pad8 (concat (map write_reloc (pg_relocs p)))" and ?y = "concat (map write_symbol (pg_symbols p))"
    and ?i = "pad8 (concat (map write_fun_info (pg_fun_infos p)))"
  define kf kv kc kd kr ky ki where k: "kf = (48::nat)" "kv = kf + length ?f" "kc = kv + length ?v" "kd = kc + length ?c"
    "kr = kd + length ?d" "ky = kr + length ?r" "ki = ky + length ?y"
  have l: "length ?bs < 2 ^ 63" using len by simp
  have "holds ?bs 0 (write_program p)" using holds_here [of "[]" "write_program p"] by simp
  then have h: "holds ?bs 0 (write_header p)" "holds ?bs kf ?f" "holds ?bs kv ?v" "holds ?bs kc ?c" "holds ?bs kd ?d" "holds ?bs kr ?r"
      "holds ?bs (kr + length ?r) ?y" "holds ?bs ki ?i"
    unfolding write_program_def by (simp_all add: holds_append k add.assoc del: length_pad8)
  have k8: "8 dvd kr" by (simp add: k)
  obtain e where e: "load_relocs_and_symbols ?bs (header p) (of_nat kr) = (Done (pg_relocs p, pg_symbols p), of_nat e)" "up8 e = ki"
    using load_relocs_and_symbols_run [OF ok l k8 h(6,7)] unfolding k by blast
  obtain t where t: "load_fun_infos ?bs (header p) (of_nat e) = (Done (pg_fun_infos p), t)"
    using load_fun_infos_run [OF ok l e(2) h(8)] by blast
  note runs = load_functions_run [OF ok l h(2), folded k(2)] load_vars_run [OF ok l h(3), folded k(3)]
    load_code_run [OF ok l h(4), folded k(4)] load_data_run [OF ok l h(5), folded k(5)]
  have "load_header ?bs 0 = (Done (header p), of_nat kf)" using read_header [OF h(1) l] by (simp add: k(1))
  moreover have "ucast (ucast (pg_entry p) :: u32) = pg_entry p"
    by (rule ucast_back) (use ok in \<open>simp only: file_ok_def\<close>)
  moreover have "pg_fun_offset p = 0" "pg_var_offset p = 0" using ok by (simp_all add: file_ok_def)
  ultimately show ?thesis
    by (simp add: load_def load_program_def run runs e(1) t del: of_nat_add) (simp add: header_def)
qed

text \<open>C22: Writing a program file and loading it gives the program back, with any number of zeros after the
  file: for every program that a file can hold, whatever functions, variables, objects, relocations and
  symbols it has.\<close>

theorem load_written_program:
  "file_ok p \<Longrightarrow> length (write_program p) + z < 2 ^ 63 \<Longrightarrow> load (write_program p @ replicate z 0) = Done p"
  by (rule written_program_loads)

text \<open>One function, a variable that refers to the second of two objects, a relocation and two symbols.\<close>

definition sample_program :: program where
  "sample_program = \<lparr>pg_flags = 14, pg_entry = 0,
     pg_funs = [\<lparr>ff_addr = 0, ff_arg_count = 1, ff_instr_count = 2\<rparr>],
     pg_vars = [\<lparr>fv_type = 2, fv_i = 16\<rparr>],
     pg_code = [\<lparr>i_opcode = 258, i_arg1 = 7, i_arg2 = 0\<rparr>, \<lparr>i_opcode = 2, i_arg1 = 0, i_arg2 = 0\<rparr>],
     pg_data = [(0, FIArray8 [1, 2, 3]), (16, FTuple [(5, 0), (0, 2)])],
     pg_relocs = [\<lparr>rl_type = 256, rl_addr = 0, rl_symbol = 1\<rparr>],
     pg_symbols = [\<lparr>sy_index = 0, sy_type = 16, sy_name = [97]\<rparr>, \<lparr>sy_index = 0, sy_type = 0, sy_name = [98, 99]\<rparr>],
     pg_fun_infos = [\<lparr>fi_fun_index = 0, fi_eval_strategy = 1, fi_eval_strategy_mask = 255\<rparr>],
     pg_fun_offset = 0, pg_var_offset = 0\<rparr>"

lemma load_written_program_witness: "load (write_program sample_program @ replicate 8 0) = Done sample_program"
proof (rule load_written_program)
  show "file_ok sample_program"
    by (simp add: file_ok_def sample_program_def write_data_def length_write_object up8_def var_addrs_def is_symbolic_def
        reloc_type_ok_def symbol_type_ok_def)
  show "length (write_program sample_program) + 8 < 2 ^ 63"
    by (simp add: write_program_def sample_program_def write_data_def length_write_object length_writes write_symbol_def up8_def)
qed

end
