(* ===== verification/List_Sort.thy ===== *)
theory List_Sort
  imports "HOL-Library.Multiset"
begin

text \<open>
  \<open>std::list::sort\<close> with a comparator: a stable merge sort, and what it gives for every comparator that is a
  strict weak order, as the standard library asks (locale \<open>strict_weak_order\<close>).
\<close>

section \<open>Sorting\<close>

text \<open>Of two equivalent elements the one of the first list comes first.\<close>

fun merge_lists :: "('a \<Rightarrow> 'a \<Rightarrow> bool) \<Rightarrow> 'a list \<Rightarrow> 'a list \<Rightarrow> 'a list" where
  "merge_lists lt [] ys = ys"
| "merge_lists lt xs [] = xs"
| "merge_lists lt (x # xs) (y # ys) =
     (if lt y x then y # merge_lists lt (x # xs) ys else x # merge_lists lt xs (y # ys))"

function list_sort :: "('a \<Rightarrow> 'a \<Rightarrow> bool) \<Rightarrow> 'a list \<Rightarrow> 'a list" where
  "list_sort lt xs = (if length xs < 2 then xs
     else merge_lists lt (list_sort lt (take (length xs div 2) xs)) (list_sort lt (drop (length xs div 2) xs)))"
  by pat_completeness auto
termination
  by (relation "measure (length \<circ> snd)") auto

declare list_sort.simps [simp del]

lemma merge_lists_Nil [simp]: "merge_lists lt xs [] = xs"
  by (cases xs) simp_all

lemma mset_merge_lists [simp]: "mset (merge_lists lt xs ys) = mset xs + mset ys"
  by (induction lt xs ys rule: merge_lists.induct) auto

lemma set_merge_lists [simp]: "set (merge_lists lt xs ys) = set xs \<union> set ys"
  by (metis mset_merge_lists set_mset_mset set_mset_union)

text \<open>What both halves have, the sorted list has.\<close>

lemma list_sort_induct:
  assumes "\<And>xs. length xs < 2 \<Longrightarrow> P xs xs" and "\<And>as bs cs ds. P as cs \<Longrightarrow> P bs ds \<Longrightarrow> P (as @ bs) (merge_lists lt cs ds)"
  shows "P xs (list_sort lt xs)"
proof (induction "length xs" arbitrary: xs rule: less_induct)
  case less
  show ?case
  proof (cases "length xs < 2")
    case False
    let ?n = "length xs div 2"
    have "P (take ?n xs @ drop ?n xs) (merge_lists lt (list_sort lt (take ?n xs)) (list_sort lt (drop ?n xs)))"
      using False by (intro assms(2) less) auto
    then show ?thesis using False by (subst list_sort.simps) simp
  qed (simp add: assms(1) list_sort.simps)
qed

lemma mset_list_sort [simp]: "mset (list_sort lt xs) = mset xs"
  by (rule list_sort_induct [where P = "\<lambda>xs ys. mset ys = mset xs"]) simp_all

lemma list_sort_Nil [simp]: "list_sort lt [] = []"
  by (simp add: list_sort.simps)

section \<open>Strict weak orders\<close>

text \<open>What the standard library asks of a comparator.\<close>

locale strict_weak_order =
  fixes lt :: "'a \<Rightarrow> 'a \<Rightarrow> bool"
  assumes asym: "lt x y \<Longrightarrow> \<not> lt y x"
    and not_lt_trans: "\<not> lt y x \<Longrightarrow> \<not> lt z y \<Longrightarrow> \<not> lt z x"
begin

lemma sorted_merge:
  "sorted_wrt (\<lambda>x y. \<not> lt y x) xs \<Longrightarrow> sorted_wrt (\<lambda>x y. \<not> lt y x) ys \<Longrightarrow> sorted_wrt (\<lambda>x y. \<not> lt y x) (merge_lists lt xs ys)"
proof (induction xs arbitrary: ys)
  case xs: (Cons x xs)
  from xs.prems(2) show ?case
  proof (induction ys)
    case (Cons y ys)
    then show ?case using xs asym [of y x] not_lt_trans [of x y] not_lt_trans [of y x] by auto
  qed (use xs.prems in simp)
qed simp

text \<open>The elements that are equivalent to \<open>a\<close> keep their order.\<close>

lemma stable_merge:
  "sorted_wrt (\<lambda>x y. \<not> lt y x) xs \<Longrightarrow>
    filter (\<lambda>x. \<not> lt x a \<and> \<not> lt a x) (merge_lists lt xs ys) = filter (\<lambda>x. \<not> lt x a \<and> \<not> lt a x) (xs @ ys)"
proof (induction xs arbitrary: ys)
  case xs: (Cons x xs)
  show ?case
  proof (induction ys)
    case (Cons y ys)
    have "filter (\<lambda>x. \<not> lt x a \<and> \<not> lt a x) (x # xs) = []" if "lt y x" "\<not> lt y a" "\<not> lt a y"
      using that xs.prems not_lt_trans [of a _ y] not_lt_trans [of _ x y] by (auto simp: filter_empty_conv)
    then show ?case using Cons xs by auto
  qed simp
qed simp

lemma sorted_list_sort: "sorted_wrt (\<lambda>x y. \<not> lt y x) (list_sort lt xs)"
  by (rule list_sort_induct [where P = "\<lambda>_ ys. sorted_wrt (\<lambda>x y. \<not> lt y x) ys"])
    (auto simp: sorted_merge less_2_cases_iff length_Suc_conv)

lemma stable_list_sort:
  "filter (\<lambda>x. \<not> lt x a \<and> \<not> lt a x) (list_sort lt xs) = filter (\<lambda>x. \<not> lt x a \<and> \<not> lt a x) xs"
proof -
  have "sorted_wrt (\<lambda>x y. \<not> lt y x) (list_sort lt xs) \<and>
      filter (\<lambda>x. \<not> lt x a \<and> \<not> lt a x) (list_sort lt xs) = filter (\<lambda>x. \<not> lt x a \<and> \<not> lt a x) xs"
    by (rule list_sort_induct [where P = "\<lambda>xs ys. sorted_wrt (\<lambda>x y. \<not> lt y x) ys \<and>
      filter (\<lambda>x. \<not> lt x a \<and> \<not> lt a x) ys = filter (\<lambda>x. \<not> lt x a \<and> \<not> lt a x) xs"])
      (auto simp: sorted_merge stable_merge less_2_cases_iff length_Suc_conv)
  then show ?thesis by blast
qed

end

end
