(* ===== verification/Parse_Tree.thy ===== *)
theory Parse_Tree
  imports Values List_Sort "HOL-Library.Char_ord" "HOL-Library.List_Lexorder"
begin

text \<open>
  The parse tree of the compiler (comp/parse_tree.hpp) and the positions and errors it reports
  (letin/comp.hpp). A class whose constructors set a type tag and one member of a union is a datatype.
  A pointer that may be null is an option.
\<close>

section \<open>Positions and errors\<close>

text \<open>A position in a source is the name of its file, a line and a column. Names are compared as byte
  strings; this is the order in which errors are reported (the comparison in \<open>sort_errors\<close>).\<close>

datatype position = Position (pos_file: string) (pos_line: nat) (pos_column: nat)

definition position_before :: "position \<Rightarrow> position \<Rightarrow> bool" where
  "position_before p q \<longleftrightarrow>
     (if pos_file p < pos_file q then True
      else if pos_file p = pos_file q
      then if pos_line p < pos_line q then True
        else if pos_line p = pos_line q then pos_column p < pos_column q else False
      else False)"

instantiation position :: linorder
begin

definition less_eq_position :: "position \<Rightarrow> position \<Rightarrow> bool" where
  "less_eq_position p q \<longleftrightarrow> p = q \<or> position_before p q"

definition less_position :: "position \<Rightarrow> position \<Rightarrow> bool" where
  "less_position p q \<longleftrightarrow> position_before p q"

instance
  by standard (auto simp: less_eq_position_def less_position_def position_before_def position.expand split: if_splits)

end

type_synonym comp_error = "position \<times> string"

interpretation by_position: strict_weak_order "\<lambda>e1 e2 :: comp_error. position_before (fst e1) (fst e2)"
  by unfold_locales (auto simp: position_before_def split: if_splits)

section \<open>Values and objects\<close>

text \<open>An argument value; a number is the 64 bits of an \<open>int64_t\<close> or of a double.\<close>

datatype arg_value = AVInt u64 | AVFloat float64 | AVFun string | AVNativeFun string

text \<open>The compiler tells objects apart by their address, \<open>ob_id\<close>.\<close>

datatype cvalue =
    CInt u64 (value_pos: position)
  | CFloat float64 (value_pos: position)
  | CRef cobject (value_pos: position)
  | CFun string (value_pos: position)
  | CNativeFun string (value_pos: position)
and cobject = CObject (ob_id: nat) (ob_type: string) (ob_elems: "cvalue list") (ob_pos: position)

datatype value_tag = TYPE_INT | TYPE_FLOAT | TYPE_REF | TYPE_FUN_INDEX | TYPE_NATIVE_FUN_INDEX

fun cvalue_type :: "cvalue \<Rightarrow> value_tag" where
  "cvalue_type (CInt _ _) = TYPE_INT"
| "cvalue_type (CFloat _ _) = TYPE_FLOAT"
| "cvalue_type (CRef _ _) = TYPE_REF"
| "cvalue_type (CFun _ _) = TYPE_FUN_INDEX"
| "cvalue_type (CNativeFun _ _) = TYPE_NATIVE_FUN_INDEX"

text \<open>The accessors \<open>i\<close>, \<open>f\<close> and \<open>fun\<close> answer a default for the other types.\<close>

fun cvalue_i :: "cvalue \<Rightarrow> u64" where
  "cvalue_i (CInt i _) = i"
| "cvalue_i _ = 0"

fun cvalue_f :: "cvalue \<Rightarrow> float64" where
  "cvalue_f (CFloat f _) = f"
| "cvalue_f _ = 0"

fun cvalue_fun :: "cvalue \<Rightarrow> string" where
  "cvalue_fun (CFun n _) = n"
| "cvalue_fun (CNativeFun n _) = n"
| "cvalue_fun _ = []"

section \<open>Instructions and functions\<close>

datatype carg =
    AImm arg_value (arg_pos: position)
  | ALVar u32 (arg_pos: position)
  | AArg u32 (arg_pos: position)
  | AIdent string (arg_pos: position)
  | APop (arg_pos: position)
  | AEval u32 (arg_pos: position)

record cinstr =
  ci_instr :: string
  ci_op :: "string option"
  ci_arg1 :: "carg option"
  ci_arg2 :: "carg option"
  ci_local_var_count :: "u32 option"
  ci_pos :: position

record fun_line =
  fl_label :: "(string \<times> position) option"
  fl_instr :: "cinstr option"

record cfun =
  cf_arg_count :: u32
  cf_lines :: "fun_line list"

section \<open>Definitions\<close>

type_synonym annotation = "string \<times> position"

datatype modifier = PRIVATE | PUBLIC

datatype comp_def =
    FunDef "annotation list" modifier string cfun position
  | VarDef modifier string cvalue position
  | EntryDef string position

type_synonym parse_tree = "comp_def list"

end
