(* ===== verification/Comp_Tables.thy ===== *)
theory Comp_Tables
  imports Parse_Tree Opcode Letin_Prelude
begin

unbundle bit_operations_syntax

text \<open>
  The tables of the compiler (comp/impl_comp.cpp): the operations by their names, with the types of their
  arguments, and what the annotations of a function say about its evaluation strategy.
\<close>

section \<open>Operations\<close>

type_synonym op_desc = "u32 \<times> int \<times> int"

text \<open>\<open>op_descs\<close>: the name, the operation, the types of the two arguments; \<open>VALUE_TYPE_ERROR\<close>
  stands for no argument.\<close>

definition op_descs :: "(string \<times> op_desc) list" where
  "op_descs = [
     (''iload'', OP_ILOAD, VALUE_TYPE_INT, VALUE_TYPE_ERROR),
     (''iload2'', OP_ILOAD2, VALUE_TYPE_INT, VALUE_TYPE_INT),
     (''ineg'', OP_INEG, VALUE_TYPE_INT, VALUE_TYPE_ERROR),
     (''iadd'', OP_IADD, VALUE_TYPE_INT, VALUE_TYPE_INT),
     (''isub'', OP_ISUB, VALUE_TYPE_INT, VALUE_TYPE_INT),
     (''imul'', OP_IMUL, VALUE_TYPE_INT, VALUE_TYPE_INT),
     (''idiv'', OP_IDIV, VALUE_TYPE_INT, VALUE_TYPE_INT),
     (''imod'', OP_IMOD, VALUE_TYPE_INT, VALUE_TYPE_INT),
     (''inot'', OP_INOT, VALUE_TYPE_INT, VALUE_TYPE_ERROR),
     (''iand'', OP_IAND, VALUE_TYPE_INT, VALUE_TYPE_INT),
     (''ior'', OP_IOR, VALUE_TYPE_INT, VALUE_TYPE_INT),
     (''ixor'', OP_IXOR, VALUE_TYPE_INT, VALUE_TYPE_INT),
     (''ishl'', OP_ISHL, VALUE_TYPE_INT, VALUE_TYPE_INT),
     (''ishr'', OP_ISHR, VALUE_TYPE_INT, VALUE_TYPE_INT),
     (''ishru'', OP_ISHRU, VALUE_TYPE_INT, VALUE_TYPE_INT),
     (''ieq'', OP_IEQ, VALUE_TYPE_INT, VALUE_TYPE_INT),
     (''ine'', OP_INE, VALUE_TYPE_INT, VALUE_TYPE_INT),
     (''ilt'', OP_ILT, VALUE_TYPE_INT, VALUE_TYPE_INT),
     (''ige'', OP_IGE, VALUE_TYPE_INT, VALUE_TYPE_INT),
     (''igt'', OP_IGT, VALUE_TYPE_INT, VALUE_TYPE_INT),
     (''ile'', OP_ILE, VALUE_TYPE_INT, VALUE_TYPE_INT),
     (''fload'', OP_FLOAD, VALUE_TYPE_FLOAT, VALUE_TYPE_ERROR),
     (''fload2'', OP_FLOAD2, VALUE_TYPE_INT, VALUE_TYPE_INT),
     (''fneg'', OP_FNEG, VALUE_TYPE_FLOAT, VALUE_TYPE_ERROR),
     (''fadd'', OP_FADD, VALUE_TYPE_FLOAT, VALUE_TYPE_FLOAT),
     (''fsub'', OP_FSUB, VALUE_TYPE_FLOAT, VALUE_TYPE_FLOAT),
     (''fmul'', OP_FMUL, VALUE_TYPE_FLOAT, VALUE_TYPE_FLOAT),
     (''fdiv'', OP_FDIV, VALUE_TYPE_FLOAT, VALUE_TYPE_FLOAT),
     (''feq'', OP_FEQ, VALUE_TYPE_FLOAT, VALUE_TYPE_FLOAT),
     (''fne'', OP_FNE, VALUE_TYPE_FLOAT, VALUE_TYPE_FLOAT),
     (''flt'', OP_FLT, VALUE_TYPE_FLOAT, VALUE_TYPE_FLOAT),
     (''fge'', OP_FGE, VALUE_TYPE_FLOAT, VALUE_TYPE_FLOAT),
     (''fgt'', OP_FGT, VALUE_TYPE_FLOAT, VALUE_TYPE_FLOAT),
     (''fle'', OP_FLE, VALUE_TYPE_FLOAT, VALUE_TYPE_FLOAT),
     (''rload'', OP_RLOAD, VALUE_TYPE_REF, VALUE_TYPE_ERROR),
     (''req'', OP_REQ, VALUE_TYPE_REF, VALUE_TYPE_REF),
     (''rne'', OP_RNE, VALUE_TYPE_REF, VALUE_TYPE_REF),
     (''riarray8'', OP_RIARRAY8, VALUE_TYPE_ERROR, VALUE_TYPE_ERROR),
     (''riarray16'', OP_RIARRAY16, VALUE_TYPE_ERROR, VALUE_TYPE_ERROR),
     (''riarray32'', OP_RIARRAY32, VALUE_TYPE_ERROR, VALUE_TYPE_ERROR),
     (''riarray64'', OP_RIARRAY64, VALUE_TYPE_ERROR, VALUE_TYPE_ERROR),
     (''rsfarray'', OP_RSFARRAY, VALUE_TYPE_ERROR, VALUE_TYPE_ERROR),
     (''rdfarray'', OP_RDFARRAY, VALUE_TYPE_ERROR, VALUE_TYPE_ERROR),
     (''rrarray'', OP_RRARRAY, VALUE_TYPE_ERROR, VALUE_TYPE_ERROR),
     (''rtuple'', OP_RTUPLE, VALUE_TYPE_ERROR, VALUE_TYPE_ERROR),
     (''rianth8'', OP_RIANTH8, VALUE_TYPE_REF, VALUE_TYPE_INT),
     (''rianth16'', OP_RIANTH16, VALUE_TYPE_REF, VALUE_TYPE_INT),
     (''rianth32'', OP_RIANTH32, VALUE_TYPE_REF, VALUE_TYPE_INT),
     (''rianth64'', OP_RIANTH64, VALUE_TYPE_REF, VALUE_TYPE_INT),
     (''rsfanth'', OP_RSFANTH, VALUE_TYPE_REF, VALUE_TYPE_INT),
     (''rdfanth'', OP_RDFANTH, VALUE_TYPE_REF, VALUE_TYPE_INT),
     (''rranth'', OP_RRANTH, VALUE_TYPE_REF, VALUE_TYPE_INT),
     (''rtnth'', OP_RTNTH, VALUE_TYPE_REF, VALUE_TYPE_INT),
     (''rialen8'', OP_RIALEN8, VALUE_TYPE_REF, VALUE_TYPE_ERROR),
     (''rialen16'', OP_RIALEN16, VALUE_TYPE_REF, VALUE_TYPE_ERROR),
     (''rialen32'', OP_RIALEN32, VALUE_TYPE_REF, VALUE_TYPE_ERROR),
     (''rialen64'', OP_RIALEN64, VALUE_TYPE_REF, VALUE_TYPE_ERROR),
     (''rsfalen'', OP_RSFALEN, VALUE_TYPE_REF, VALUE_TYPE_ERROR),
     (''rdfalen'', OP_RDFALEN, VALUE_TYPE_REF, VALUE_TYPE_ERROR),
     (''rralen'', OP_RRALEN, VALUE_TYPE_REF, VALUE_TYPE_ERROR),
     (''rtlen'', OP_RTLEN, VALUE_TYPE_REF, VALUE_TYPE_ERROR),
     (''riacat8'', OP_RIACAT8, VALUE_TYPE_REF, VALUE_TYPE_REF),
     (''riacat16'', OP_RIACAT16, VALUE_TYPE_REF, VALUE_TYPE_REF),
     (''riacat32'', OP_RIACAT32, VALUE_TYPE_REF, VALUE_TYPE_REF),
     (''riacat64'', OP_RIACAT64, VALUE_TYPE_REF, VALUE_TYPE_REF),
     (''rsfacat'', OP_RSFACAT, VALUE_TYPE_REF, VALUE_TYPE_REF),
     (''rdfacat'', OP_RDFACAT, VALUE_TYPE_REF, VALUE_TYPE_REF),
     (''rracat'', OP_RRACAT, VALUE_TYPE_REF, VALUE_TYPE_REF),
     (''rtcat'', OP_RTCAT, VALUE_TYPE_REF, VALUE_TYPE_REF),
     (''rtype'', OP_RTYPE, VALUE_TYPE_REF, VALUE_TYPE_ERROR),
     (''icall'', OP_ICALL, VALUE_TYPE_INT, VALUE_TYPE_ERROR),
     (''fcall'', OP_FCALL, VALUE_TYPE_INT, VALUE_TYPE_ERROR),
     (''rcall'', OP_RCALL, VALUE_TYPE_INT, VALUE_TYPE_ERROR),
     (''itof'', OP_ITOF, VALUE_TYPE_INT, VALUE_TYPE_ERROR),
     (''ftoi'', OP_FTOI, VALUE_TYPE_FLOAT, VALUE_TYPE_ERROR),
     (''incall'', OP_INCALL, VALUE_TYPE_INT, VALUE_TYPE_ERROR),
     (''fncall'', OP_FNCALL, VALUE_TYPE_INT, VALUE_TYPE_ERROR),
     (''rncall'', OP_RNCALL, VALUE_TYPE_INT, VALUE_TYPE_ERROR),
     (''ruiafill8'', OP_RUIAFILL8, VALUE_TYPE_INT, VALUE_TYPE_INT),
     (''ruiafill16'', OP_RUIAFILL16, VALUE_TYPE_INT, VALUE_TYPE_INT),
     (''ruiafill32'', OP_RUIAFILL32, VALUE_TYPE_INT, VALUE_TYPE_INT),
     (''ruiafill64'', OP_RUIAFILL64, VALUE_TYPE_INT, VALUE_TYPE_INT),
     (''rusfafill'', OP_RUSFAFILL, VALUE_TYPE_INT, VALUE_TYPE_FLOAT),
     (''rudfafill'', OP_RUDFAFILL, VALUE_TYPE_INT, VALUE_TYPE_FLOAT),
     (''rurafill'', OP_RURAFILL, VALUE_TYPE_INT, VALUE_TYPE_REF),
     (''rutfilli'', OP_RUTFILLI, VALUE_TYPE_INT, VALUE_TYPE_INT),
     (''rutfillf'', OP_RUTFILLF, VALUE_TYPE_INT, VALUE_TYPE_FLOAT),
     (''rutfillr'', OP_RUTFILLR, VALUE_TYPE_INT, VALUE_TYPE_REF),
     (''ruianth8'', OP_RUIANTH8, VALUE_TYPE_REF, VALUE_TYPE_INT),
     (''ruianth16'', OP_RUIANTH16, VALUE_TYPE_REF, VALUE_TYPE_INT),
     (''ruianth32'', OP_RUIANTH32, VALUE_TYPE_REF, VALUE_TYPE_INT),
     (''ruianth64'', OP_RUIANTH64, VALUE_TYPE_REF, VALUE_TYPE_INT),
     (''rusfanth'', OP_RUSFANTH, VALUE_TYPE_REF, VALUE_TYPE_INT),
     (''rudfanth'', OP_RUDFANTH, VALUE_TYPE_REF, VALUE_TYPE_INT),
     (''ruranth'', OP_RURANTH, VALUE_TYPE_REF, VALUE_TYPE_INT),
     (''rutnth'', OP_RUTNTH, VALUE_TYPE_REF, VALUE_TYPE_INT),
     (''ruiasnth8'', OP_RUIASNTH8, VALUE_TYPE_REF, VALUE_TYPE_INT),
     (''ruiasnth16'', OP_RUIASNTH16, VALUE_TYPE_REF, VALUE_TYPE_INT),
     (''ruiasnth32'', OP_RUIASNTH32, VALUE_TYPE_REF, VALUE_TYPE_INT),
     (''ruiasnth64'', OP_RUIASNTH64, VALUE_TYPE_REF, VALUE_TYPE_INT),
     (''rusfasnth'', OP_RUSFASNTH, VALUE_TYPE_REF, VALUE_TYPE_INT),
     (''rudfasnth'', OP_RUDFASNTH, VALUE_TYPE_REF, VALUE_TYPE_INT),
     (''rurasnth'', OP_RURASNTH, VALUE_TYPE_REF, VALUE_TYPE_INT),
     (''rutsnth'', OP_RUTSNTH, VALUE_TYPE_REF, VALUE_TYPE_INT),
     (''ruialen8'', OP_RUIALEN8, VALUE_TYPE_REF, VALUE_TYPE_ERROR),
     (''ruialen16'', OP_RUIALEN16, VALUE_TYPE_REF, VALUE_TYPE_ERROR),
     (''ruialen32'', OP_RUIALEN32, VALUE_TYPE_REF, VALUE_TYPE_ERROR),
     (''ruialen64'', OP_RUIALEN64, VALUE_TYPE_REF, VALUE_TYPE_ERROR),
     (''rusfalen'', OP_RUSFALEN, VALUE_TYPE_REF, VALUE_TYPE_ERROR),
     (''rudfalen'', OP_RUDFALEN, VALUE_TYPE_REF, VALUE_TYPE_ERROR),
     (''ruralen'', OP_RURALEN, VALUE_TYPE_REF, VALUE_TYPE_ERROR),
     (''rutlen'', OP_RUTLEN, VALUE_TYPE_REF, VALUE_TYPE_ERROR),
     (''rutype'', OP_RUTYPE, VALUE_TYPE_REF, VALUE_TYPE_ERROR),
     (''ruiatoia8'', OP_RUIATOIA8, VALUE_TYPE_REF, VALUE_TYPE_ERROR),
     (''ruiatoia16'', OP_RUIATOIA16, VALUE_TYPE_REF, VALUE_TYPE_ERROR),
     (''ruiatoia32'', OP_RUIATOIA32, VALUE_TYPE_REF, VALUE_TYPE_ERROR),
     (''ruiatoia64'', OP_RUIATOIA64, VALUE_TYPE_REF, VALUE_TYPE_ERROR),
     (''rusfatosfa'', OP_RUSFATOSFA, VALUE_TYPE_REF, VALUE_TYPE_ERROR),
     (''rudfatodfa'', OP_RUDFATODFA, VALUE_TYPE_REF, VALUE_TYPE_ERROR),
     (''ruratora'', OP_RURATORA, VALUE_TYPE_REF, VALUE_TYPE_ERROR),
     (''ruttot'', OP_RUTTOT, VALUE_TYPE_REF, VALUE_TYPE_ERROR),
     (''fpow'', OP_FPOW, VALUE_TYPE_FLOAT, VALUE_TYPE_FLOAT),
     (''fsqrt'', OP_FSQRT, VALUE_TYPE_FLOAT, VALUE_TYPE_ERROR),
     (''fexp'', OP_FEXP, VALUE_TYPE_FLOAT, VALUE_TYPE_ERROR),
     (''flog'', OP_FLOG, VALUE_TYPE_FLOAT, VALUE_TYPE_ERROR),
     (''fcos'', OP_FCOS, VALUE_TYPE_FLOAT, VALUE_TYPE_ERROR),
     (''fsin'', OP_FSIN, VALUE_TYPE_FLOAT, VALUE_TYPE_ERROR),
     (''ftan'', OP_FTAN, VALUE_TYPE_FLOAT, VALUE_TYPE_ERROR),
     (''facos'', OP_FACOS, VALUE_TYPE_FLOAT, VALUE_TYPE_ERROR),
     (''fasin'', OP_FASIN, VALUE_TYPE_FLOAT, VALUE_TYPE_ERROR),
     (''fatan'', OP_FATAN, VALUE_TYPE_FLOAT, VALUE_TYPE_ERROR),
     (''fceil'', OP_FCEIL, VALUE_TYPE_FLOAT, VALUE_TYPE_ERROR),
     (''ffloor'', OP_FFLOOR, VALUE_TYPE_FLOAT, VALUE_TYPE_ERROR),
     (''fround'', OP_FROUND, VALUE_TYPE_FLOAT, VALUE_TYPE_ERROR),
     (''ftrunc'', OP_FTRUNC, VALUE_TYPE_FLOAT, VALUE_TYPE_ERROR),
     (''try'', OP_TRY, VALUE_TYPE_INT, VALUE_TYPE_INT),
     (''iforce'', OP_IFORCE, VALUE_TYPE_INT, VALUE_TYPE_ERROR),
     (''fforce'', OP_FFORCE, VALUE_TYPE_FLOAT, VALUE_TYPE_ERROR),
     (''rforce'', OP_RFORCE, VALUE_TYPE_REF, VALUE_TYPE_ERROR),
     (''stacktrace'', OP_STACKTRACE, VALUE_TYPE_REF, VALUE_TYPE_ERROR)]"

section \<open>Annotations\<close>

abbreviation (input) LAZY_FLAG :: u32 where "LAZY_FLAG \<equiv> 1"
abbreviation (input) MEMO_FLAG :: u32 where "MEMO_FLAG \<equiv> 2"

record annot_info =
  an_strategy :: u32
  an_mask :: u32
  an_mask2 :: u32

definition no_annot_info :: annot_info where
  "no_annot_info = \<lparr>an_strategy = 0, an_mask = NOT 0, an_mask2 = 0\<rparr>"

text \<open>\<open>operator|=\<close>.\<close>

definition merge_annot_info :: "annot_info \<Rightarrow> annot_info \<Rightarrow> annot_info" where
  "merge_annot_info a b = \<lparr>an_strategy = an_strategy a OR an_strategy b, an_mask = an_mask a AND an_mask b,
     an_mask2 = an_mask2 a OR an_mask2 b\<rparr>"

definition annotation_fun_infos :: "(string \<times> annot_info) list" where
  "annotation_fun_infos = [
     (''eager'', \<lparr>an_strategy = 0, an_mask = NOT LAZY_FLAG, an_mask2 = 0\<rparr>),
     (''lazy'', \<lparr>an_strategy = LAZY_FLAG, an_mask = NOT 0, an_mask2 = 0\<rparr>),
     (''memoized'', \<lparr>an_strategy = MEMO_FLAG, an_mask = NOT 0, an_mask2 = 0\<rparr>),
     (''unmemoized'', \<lparr>an_strategy = 0, an_mask = NOT MEMO_FLAG, an_mask2 = 0\<rparr>),
     (''onlyeager'', \<lparr>an_strategy = 0, an_mask = NOT LAZY_FLAG, an_mask2 = 256\<rparr>),
     (''onlylazy'', \<lparr>an_strategy = LAZY_FLAG, an_mask = NOT 0, an_mask2 = LAZY_FLAG\<rparr>),
     (''onlymemoized'', \<lparr>an_strategy = MEMO_FLAG, an_mask = NOT 0, an_mask2 = MEMO_FLAG\<rparr>)]"

text \<open>The two bytes that are written for a function. A mask of the annotations with the prefix ``only''
  stands in place of the other.\<close>

definition strategy_byte :: "annot_info \<Rightarrow> u8" where
  "strategy_byte a = ucast (an_strategy a AND 0xff)"

definition mask_byte :: "annot_info \<Rightarrow> u8" where
  "mask_byte a = (if an_mask2 a = 0 then ucast (an_mask a AND 0xff) else ucast (an_mask2 a AND 0xff))"

end
