(* ===== verification/Comp_Objects.thy ===== *)
theory Comp_Objects
  imports Comp_Tables Program_Writer
begin

unbundle bit_operations_syntax

text \<open>
  The first half of the compiler (comp/impl_comp.cpp): the state it builds (\<open>UngeneratedProgram\<close>),
  the definitions of functions, variables and the entry it collects, the objects of the variables, the
  size of the buffer it computes before it generates the program, and the relocations and symbols it adds.

  The functions return \<open>false\<close> after they have added an error to the list; that is a failure here, and
  the list is part of the state.
\<close>

section \<open>State\<close>

text \<open>A symbol keeps its name as a string.\<close>

record csymbol =
  cs_type :: u32
  cs_name :: string
  cs_index :: u32

text \<open>The hash tables of functions and variables are association lists in the order of insertion; where
  the compiler iterates over them, the order of the iteration is a parameter. The objects have their type
  and their size in bytes.\<close>

type_synonym object_pair = "cobject \<times> int \<times> u32"

record cstate =
  c_relocatable :: bool
  c_fun_pairs :: "(string \<times> u32 \<times> cfun) list"
  c_var_pairs :: "(string \<times> u32 \<times> cvalue) list"
  c_object_pairs :: "object_pair list"
  c_object_addrs :: "nat \<rightharpoonup> u32"
  c_relocs :: "format_reloc list"
  c_symbols :: "csymbol list"
  c_extern_funs :: "string \<rightharpoonup> u32"
  c_extern_vars :: "string \<rightharpoonup> u32"
  c_extern_native_funs :: "string \<rightharpoonup> u32"
  c_fun_infos :: "(u32 \<times> annot_info) list"
  c_errors :: "comp_error list"

type_synonym 'a comp = "(cstate, 'a) m"

definition init_cstate :: "bool \<Rightarrow> comp_error list \<Rightarrow> cstate" where
  "init_cstate rel errs = \<lparr>c_relocatable = rel, c_fun_pairs = [], c_var_pairs = [], c_object_pairs = [],
     c_object_addrs = Map.empty, c_relocs = [], c_symbols = [], c_extern_funs = Map.empty,
     c_extern_vars = Map.empty, c_extern_native_funs = Map.empty, c_fun_infos = [], c_errors = errs\<rparr>"

text \<open>\<open>errors.push_back\<close>, alone and before \<open>return false\<close>.\<close>

definition report :: "position \<Rightarrow> string \<Rightarrow> unit comp" where
  "report p msg = modify (\<lambda>c. c\<lparr>c_errors := c_errors c @ [(p, msg)]\<rparr>)"

definition comp_error :: "position \<Rightarrow> string \<Rightarrow> 'a comp" where
  "comp_error p msg = seqM (report p msg) fail"

text \<open>A part that fails does not end the caller, which only notes it.\<close>

definition succeeds :: "unit comp \<Rightarrow> bool comp" where
  "succeeds c = bindM (attempt c) (\<lambda>x. ret (x \<noteq> None))"

section \<open>Objects of the variables\<close>

primrec check_object_elems :: "value_tag set \<Rightarrow> cvalue list \<Rightarrow> unit comp" where
  "check_object_elems ts [] = ret ()"
| "check_object_elems ts (e # es) =
     (if cvalue_type e \<in> ts then check_object_elems ts es else comp_error (value_pos e) ''incorrect value'')"

definition push_object :: "cobject \<Rightarrow> int \<Rightarrow> nat \<Rightarrow> unit comp" where
  "push_object ob t esize = modify (\<lambda>c. c\<lparr>c_object_pairs := c_object_pairs c @ [(ob, t, of_nat (8 + length (ob_elems ob) * esize))]\<rparr>)"

text \<open>\<open>strict\<close> says that every element must be a reference (the elements of an rarray).\<close>

fun add_object_pairs_from_object :: "cobject \<Rightarrow> unit comp" and add_elem_objects :: "bool \<Rightarrow> cvalue list \<Rightarrow> unit comp" where
  "add_object_pairs_from_object (CObject k t es p) =
     (let ob = CObject k t es p;
          ints = {TYPE_INT, TYPE_FUN_INDEX, TYPE_NATIVE_FUN_INDEX} in
      if t = ''iarray8'' then seqM (check_object_elems {TYPE_INT} es) (push_object ob OBJECT_TYPE_IARRAY8 1)
      else if t = ''iarray16'' then seqM (check_object_elems {TYPE_INT} es) (push_object ob OBJECT_TYPE_IARRAY16 2)
      else if t = ''iarray32'' then seqM (check_object_elems ints es) (push_object ob OBJECT_TYPE_IARRAY32 4)
      else if t = ''iarray64'' then seqM (check_object_elems ints es) (push_object ob OBJECT_TYPE_IARRAY64 8)
      else if t = ''sfarray'' then seqM (check_object_elems {TYPE_FLOAT} es) (push_object ob OBJECT_TYPE_SFARRAY 4)
      else if t = ''dfarray'' then seqM (check_object_elems {TYPE_FLOAT} es) (push_object ob OBJECT_TYPE_DFARRAY 8)
      else if t = ''rarray'' then seqM (add_elem_objects True es) (push_object ob OBJECT_TYPE_RARRAY 4)
      else if t = ''tuple'' then seqM (add_elem_objects False es) (push_object ob OBJECT_TYPE_TUPLE 9)
      else comp_error p ''incorrect object type'')"
| "add_elem_objects strict [] = ret ()"
| "add_elem_objects strict (e # es) =
     (case e of
        CRef ob _ \<Rightarrow> seqM (add_object_pairs_from_object ob) (add_elem_objects strict es)
      | _ \<Rightarrow> if strict then comp_error (value_pos e) ''incorrect value'' else add_elem_objects strict es)"

section \<open>Definitions\<close>

text \<open>\<open>annotations_to_fun_info\<close>; the boolean is its result.\<close>

primrec annotations_to_fun_info :: "annotation list \<Rightarrow> annot_info \<Rightarrow> (annot_info \<times> bool) comp" where
  "annotations_to_fun_info [] a = ret (a, True)"
| "annotations_to_fun_info (x # xs) a =
     (case map_of annotation_fun_infos (fst x) of
        None \<Rightarrow> seqM (report (snd x) ''unknown annotation'') (bindM (annotations_to_fun_info xs a) (\<lambda>(b, _). ret (b, False)))
      | Some i \<Rightarrow>
          let a' = merge_annot_info a i in
          if (an_strategy i = LAZY_FLAG \<or> an_mask i = NOT LAZY_FLAG) \<and> an_strategy a' AND LAZY_FLAG \<noteq> 0 \<and>
             (an_mask a' AND LAZY_FLAG = 0 \<or> an_mask2 a' AND 256 \<noteq> 0)
          then seqM (report (snd x) ''function can't be eager and lazy'')
            (bindM (annotations_to_fun_info xs a') (\<lambda>(b, _). ret (b, False)))
          else if (an_strategy i = MEMO_FLAG \<or> an_mask i = NOT MEMO_FLAG) \<and> an_strategy a' AND MEMO_FLAG \<noteq> 0 \<and>
             an_mask a' AND MEMO_FLAG = 0
          then seqM (report (snd x) ''function can't be unmemoized and memoized'')
            (bindM (annotations_to_fun_info xs a') (\<lambda>(b, _). ret (b, False)))
          else annotations_to_fun_info xs a')"

definition add_symbol :: "u32 \<Rightarrow> string \<Rightarrow> u32 \<Rightarrow> unit comp" where
  "add_symbol t n i = modify (\<lambda>c. c\<lparr>c_symbols := c_symbols c @ [\<lparr>cs_type = t, cs_name = n, cs_index = i\<rparr>]\<rparr>)"

definition add_fun_def :: "annotation list \<Rightarrow> modifier \<Rightarrow> string \<Rightarrow> cfun \<Rightarrow> position \<Rightarrow> unit comp" where
  "add_fun_def ans md n f p = bindM (reading c_fun_pairs) (\<lambda>fs.
     if map_of fs n \<noteq> None then comp_error p (''already defined function '' @ n)
     else let i = of_nat (length fs) in
       seqM (modify (\<lambda>c. c\<lparr>c_fun_pairs := fs @ [(n, i, f)]\<rparr>))
      (bindM (annotations_to_fun_info ans no_annot_info) (\<lambda>(a, ok).
       if ok then
         seqM (whenM (an_strategy a \<noteq> 0 \<or> an_mask a \<noteq> NOT 0) (modify (\<lambda>c. c\<lparr>c_fun_infos := c_fun_infos c @ [(i, a)]\<rparr>)))
        (bindM (reading c_relocatable) (\<lambda>rel.
         whenM (rel \<and> md = PUBLIC) (add_symbol (ucast (SYMBOL_TYPE_FUN OR SYMBOL_TYPE_DEFINED)) n i)))
       else fail)))"

definition add_var_def :: "modifier \<Rightarrow> string \<Rightarrow> cvalue \<Rightarrow> position \<Rightarrow> unit comp" where
  "add_var_def md n v p = bindM (reading c_var_pairs) (\<lambda>vs.
     if map_of vs n \<noteq> None then comp_error p (''already defined variable '' @ n)
     else let i = of_nat (length vs) in
       seqM (modify (\<lambda>c. c\<lparr>c_var_pairs := vs @ [(n, i, v)]\<rparr>))
      (bindM (reading c_relocatable) (\<lambda>rel.
       whenM (rel \<and> md = PUBLIC) (add_symbol (ucast (SYMBOL_TYPE_VAR OR SYMBOL_TYPE_DEFINED)) n i))))"

text \<open>The entry found so far, with its position, goes along.\<close>

primrec add_defs :: "parse_tree \<Rightarrow> (string \<times> position) option \<Rightarrow> ((string \<times> position) option \<times> bool) comp" where
  "add_defs [] entry = ret (entry, True)"
| "add_defs (d # ds) entry =
     (case d of
        FunDef ans md n f p \<Rightarrow>
          bindM (succeeds (add_fun_def ans md n f p)) (\<lambda>ok.
          bindM (add_defs ds entry) (\<lambda>(e, oks). ret (e, ok \<and> oks)))
      | VarDef md n v p \<Rightarrow>
          bindM (succeeds (add_var_def md n v p)) (\<lambda>ok.
          bindM (add_defs ds entry) (\<lambda>(e, oks). ret (e, ok \<and> oks)))
      | EntryDef n p \<Rightarrow>
          (case entry of
             None \<Rightarrow> add_defs ds (Some (n, p))
           | Some _ \<Rightarrow> seqM (report p ''already defined entry'') (bindM (add_defs ds entry) (\<lambda>(e, _). ret (e, False)))))"

definition add_var_objects :: "string \<times> u32 \<times> cvalue \<Rightarrow> bool comp" where
  "add_var_objects v = (case snd (snd v) of CRef ob _ \<Rightarrow> succeeds (add_object_pairs_from_object ob) | _ \<Rightarrow> ret True)"

section \<open>The size of the buffer\<close>

definition fun_instrs :: "cfun \<Rightarrow> cinstr list" where
  "fun_instrs f = concat (map (\<lambda>l. case fl_instr l of None \<Rightarrow> [] | Some x \<Rightarrow> [x]) (cf_lines f))"

fun reloc_size_from_arg :: "carg \<Rightarrow> nat" where
  "reloc_size_from_arg (AIdent _ _) = 12"
| "reloc_size_from_arg (AImm (AVFun _) _) = 12"
| "reloc_size_from_arg (AImm (AVNativeFun _) _) = 12"
| "reloc_size_from_arg _ = 0"

text \<open>The arguments of an instruction that may need relocations.\<close>

definition reloc_args :: "cinstr \<Rightarrow> carg list" where
  "reloc_args x =
     (if ci_instr x \<in> {''let'', ''arg'', ''ret'', ''lettuple'', ''push''}
      then (case ci_arg1 x of None \<Rightarrow> [] | Some a \<Rightarrow> [a]) @ (case ci_arg2 x of None \<Rightarrow> [] | Some a \<Rightarrow> [a])
      else if ci_instr x \<in> {''jc'', ''throw'', ''rethrow''} then (case ci_arg1 x of None \<Rightarrow> [] | Some a \<Rightarrow> [a])
      else [])"

text \<open>\<open>add_symbol_name_from_arg\<close>: the names of the three sets that an argument adds.\<close>

definition fun_name_of_arg :: "cstate \<Rightarrow> carg \<Rightarrow> string list" where
  "fun_name_of_arg c a = (case a of AImm (AVFun n) _ \<Rightarrow> if map_of (c_fun_pairs c) n = None then [n] else [] | _ \<Rightarrow> [])"

definition var_name_of_arg :: "cstate \<Rightarrow> carg \<Rightarrow> string list" where
  "var_name_of_arg c a = (case a of AIdent n _ \<Rightarrow> if map_of (c_var_pairs c) n = None then [n] else [] | _ \<Rightarrow> [])"

definition native_fun_name_of_arg :: "carg \<Rightarrow> string list" where
  "native_fun_name_of_arg a = (case a of AImm (AVNativeFun n) _ \<Rightarrow> [n] | _ \<Rightarrow> [])"

text \<open>Variables and elements that stand for functions, native or not.\<close>

definition is_fun_value :: "cvalue \<Rightarrow> bool" where
  "is_fun_value v \<longleftrightarrow> cvalue_type v = TYPE_FUN_INDEX \<or> cvalue_type v = TYPE_NATIVE_FUN_INDEX"

definition fun_name_of_value :: "cstate \<Rightarrow> cvalue \<Rightarrow> string list" where
  "fun_name_of_value c v = (if is_fun_value v \<and> map_of (c_fun_pairs c) (cvalue_fun v) = None then [cvalue_fun v] else [])"

definition all_reloc_args :: "cstate \<Rightarrow> carg list" where
  "all_reloc_args c = concat (map (\<lambda>(n, i, f). concat (map reloc_args (fun_instrs f))) (c_fun_pairs c))"

definition all_values :: "cstate \<Rightarrow> cvalue list" where
  "all_values c = map (\<lambda>(n, i, v). v) (c_var_pairs c) @ concat (map (\<lambda>(ob, t, n). ob_elems ob) (c_object_pairs c))"

definition symbol_names :: "u8 \<Rightarrow> csymbol list \<Rightarrow> string list" where
  "symbol_names t ys = map cs_name (filter (\<lambda>y. cs_type y AND NOT (ucast SYMBOL_TYPE_DEFINED) = ucast t) ys)"

definition names_size :: "string list \<Rightarrow> nat" where
  "names_size ns = sum_list (map (\<lambda>n. up8 (7 + length n)) (remdups ns))"

definition comp_code_size :: "cstate \<Rightarrow> nat" where
  "comp_code_size c = sum_list (map (\<lambda>(n, i, f). length (fun_instrs f)) (c_fun_pairs c))"

definition comp_data_size :: "cstate \<Rightarrow> nat" where
  "comp_data_size c = sum_list (map (\<lambda>(ob, t, n). up8 (unat n)) (c_object_pairs c))"

text \<open>\<open>prog_size_and_other_sizes\<close>. The names of native functions that variables and elements stand for
  are counted among the names of functions.\<close>

definition prog_size :: "cstate \<Rightarrow> nat" where
  "prog_size c = up8 48 + up8 (length (c_fun_pairs c) * 12) + up8 (length (c_var_pairs c) * 16) +
     up8 (comp_code_size c * 12) + comp_data_size c +
     (if c_relocatable c then
        up8 (sum_list (map reloc_size_from_arg (all_reloc_args c)) + 12 * length (filter is_fun_value (all_values c))) +
        names_size (symbol_names SYMBOL_TYPE_FUN (c_symbols c) @ concat (map (fun_name_of_arg c) (all_reloc_args c)) @
          concat (map (fun_name_of_value c) (all_values c))) +
        names_size (symbol_names SYMBOL_TYPE_VAR (c_symbols c) @ concat (map (var_name_of_arg c) (all_reloc_args c))) +
        names_size (concat (map native_fun_name_of_arg (all_reloc_args c)))
      else 0) +
     up8 (length (c_fun_infos c) * 12)"

section \<open>Relocations and indexes\<close>

definition push_reloc :: "u32 \<Rightarrow> u32 \<Rightarrow> u32 \<Rightarrow> unit comp" where
  "push_reloc t a y = modify (\<lambda>c. c\<lparr>c_relocs := c_relocs c @ [\<lparr>rl_type = t, rl_addr = a, rl_symbol = y\<rparr>]\<rparr>)"

text \<open>\<open>add_reloc\<close>. A symbol of another module is added where it is named first.\<close>

definition add_reloc :: "u32 \<Rightarrow> u32 \<Rightarrow> string \<Rightarrow> unit comp" where
  "add_reloc t a n =
     (if t AND RELOC_TYPE_SYMBOLIC \<noteq> 0 then
        let k = t AND NOT RELOC_TYPE_SYMBOLIC in
        bindM (reading (\<lambda>c. of_nat (length (c_symbols c)))) (\<lambda>i.
        if k = RELOC_TYPE_ARG1_FUN \<or> k = RELOC_TYPE_ARG2_FUN \<or> k = RELOC_TYPE_ELEM_FUN \<or> k = RELOC_TYPE_VAR_FUN then
          bindM (reading (\<lambda>c. c_extern_funs c n)) (\<lambda>x. case x of
            Some y \<Rightarrow> push_reloc t a y
          | None \<Rightarrow> seqM (modify (\<lambda>c. c\<lparr>c_extern_funs := (c_extern_funs c)(n \<mapsto> i)\<rparr>))
             (seqM (add_symbol (ucast SYMBOL_TYPE_FUN) n 0) (push_reloc t a i)))
        else if k = RELOC_TYPE_ARG1_VAR \<or> k = RELOC_TYPE_ARG2_VAR then
          bindM (reading (\<lambda>c. c_extern_vars c n)) (\<lambda>x. case x of
            Some y \<Rightarrow> push_reloc t a y
          | None \<Rightarrow> seqM (modify (\<lambda>c. c\<lparr>c_extern_vars := (c_extern_vars c)(n \<mapsto> i)\<rparr>))
             (seqM (add_symbol (ucast SYMBOL_TYPE_VAR) n 0) (push_reloc t a i)))
        else if k = RELOC_TYPE_ARG1_NATIVE_FUN \<or> k = RELOC_TYPE_ARG2_NATIVE_FUN \<or> k = RELOC_TYPE_ELEM_NATIVE_FUN \<or>
            k = RELOC_TYPE_VAR_NATIVE_FUN then
          bindM (reading (\<lambda>c. c_extern_native_funs c n)) (\<lambda>x. case x of
            Some y \<Rightarrow> push_reloc t a y
          | None \<Rightarrow> seqM (modify (\<lambda>c. c\<lparr>c_extern_native_funs := (c_extern_native_funs c)(n \<mapsto> i)\<rparr>))
             (seqM (add_symbol (ucast SYMBOL_TYPE_NATIVE_FUN) n 0) (push_reloc t a i)))
        else push_reloc t a i)
      else push_reloc t a 0)"

definition get_fun_index :: "string \<Rightarrow> position \<Rightarrow> u32 comp" where
  "get_fun_index n p = bindM (reading c_fun_pairs) (\<lambda>fs. case map_of fs n of
     None \<Rightarrow> comp_error p (''undefined function '' @ n)
   | Some (i, f) \<Rightarrow> ret i)"

definition get_fun_index_and_add_reloc :: "string \<Rightarrow> u32 \<Rightarrow> u32 \<Rightarrow> position \<Rightarrow> u32 comp" where
  "get_fun_index_and_add_reloc n rt a p = bindM (reading (\<lambda>c. (c_relocatable c, map_of (c_fun_pairs c) n))) (\<lambda>(rel, x). case x of
     None \<Rightarrow> if rel then seqM (add_reloc (rt OR RELOC_TYPE_SYMBOLIC) a n) (ret 0) else comp_error p (''undefined function '' @ n)
   | Some (i, f) \<Rightarrow> seqM (whenM rel (add_reloc rt a [])) (ret i))"

definition get_var_index_and_add_reloc :: "string \<Rightarrow> u32 \<Rightarrow> u32 \<Rightarrow> position \<Rightarrow> u32 comp" where
  "get_var_index_and_add_reloc n rt a p = bindM (reading (\<lambda>c. (c_relocatable c, map_of (c_var_pairs c) n))) (\<lambda>(rel, x). case x of
     None \<Rightarrow> if rel then seqM (add_reloc (rt OR RELOC_TYPE_SYMBOLIC) a n) (ret 0) else comp_error p (''undefined variable '' @ n)
   | Some (i, v) \<Rightarrow> seqM (whenM rel (add_reloc rt a [])) (ret i))"

definition get_native_fun_index_and_add_reloc :: "string \<Rightarrow> u32 \<Rightarrow> u32 \<Rightarrow> position \<Rightarrow> u32 comp" where
  "get_native_fun_index_and_add_reloc n rt a p = bindM (reading c_relocatable) (\<lambda>rel.
     if rel then seqM (add_reloc (rt OR RELOC_TYPE_SYMBOLIC) a n) (ret 0)
     else comp_error p ''unsupported native function symbols for unrelocable program'')"

text \<open>\<open>value_to_format_value\<close>. An index is extended with its sign; the address of an object that has
  none is read from the end of the table.\<close>

fun value_to_format_value :: "cvalue \<Rightarrow> u32 option \<Rightarrow> bool \<Rightarrow> format_value comp" where
  "value_to_format_value (CInt i p) addr is_var = ret \<lparr>fv_type = 0, fv_i = i\<rparr>"
| "value_to_format_value (CFloat f p) addr is_var = ret \<lparr>fv_type = 1, fv_i = f\<rparr>"
| "value_to_format_value (CRef ob p) addr is_var = bindM (reading (\<lambda>c. c_object_addrs c (ob_id ob))) (\<lambda>x. case x of
     None \<Rightarrow> undef
   | Some a \<Rightarrow> ret \<lparr>fv_type = 2, fv_i = ucast a\<rparr>)"
| "value_to_format_value (CFun n p) addr is_var =
     bindM (case addr of
         Some a \<Rightarrow> get_fun_index_and_add_reloc n (if is_var then RELOC_TYPE_VAR_FUN else RELOC_TYPE_ELEM_FUN) a p
       | None \<Rightarrow> get_fun_index n p) (\<lambda>u. ret \<lparr>fv_type = 0, fv_i = scast u\<rparr>)"
| "value_to_format_value (CNativeFun n p) addr is_var =
     bindM (case addr of
         Some a \<Rightarrow> get_native_fun_index_and_add_reloc n (if is_var then RELOC_TYPE_VAR_NATIVE_FUN else RELOC_TYPE_ELEM_NATIVE_FUN) a p
       | None \<Rightarrow> comp_error p ''incorrect value'') (\<lambda>u. ret \<lparr>fv_type = 0, fv_i = scast u\<rparr>)"

end
