(* ===== verification/Comp_Generate.thy ===== *)
theory Comp_Generate
  imports Comp_Objects
begin

unbundle bit_operations_syntax

text \<open>
  The second half of the compiler (comp/impl_comp.cpp): the instructions, the objects, the variables and the
  whole program. What the compiler writes through pointers into its buffer is collected here as the parts of
  a program, which \<open>write_program\<close> lays out; whether the buffer is large enough is tested at the end.
\<close>

section \<open>Instructions\<close>

abbreviation (input) INT32_MIN :: int where "INT32_MIN \<equiv> - (2 ^ 31)"
abbreviation (input) UINT32_TOP :: int where "UINT32_TOP \<equiv> 2 ^ 32 - 1"

text \<open>\<open>get_instr_addr\<close>; \<open>labels\<close> are the addresses of the labels in the function.\<close>

definition get_instr_addr :: "(string \<rightharpoonup> u32) \<Rightarrow> string \<Rightarrow> position \<Rightarrow> u32 comp" where
  "get_instr_addr labels n p = (case labels n of None \<Rightarrow> comp_error p (''undefined label '' @ n) | Some a \<Rightarrow> ret a)"

text \<open>\<open>arg_to_format_arg\<close>: the argument and its type. \<open>F\<close> is the floating-point unit, \<open>vt\<close> the
  type of value the operation takes, \<open>pc\<close> the address of the instruction.\<close>

definition imm_to_format_arg :: "fpu \<Rightarrow> arg_value \<Rightarrow> int \<Rightarrow> u32 \<Rightarrow> bool \<Rightarrow> position \<Rightarrow> u32 comp" where
  "imm_to_format_arg F v vt pc is_first p =
     (if vt = VALUE_TYPE_INT then
        (case v of
           AVInt i \<Rightarrow>
             if sint i < INT32_MIN then comp_error p ''integer number is too small''
             else if sint i > UINT32_TOP then comp_error p ''integer number is too large''
             else ret (ucast i)
         | AVFun n \<Rightarrow> get_fun_index_and_add_reloc n (if is_first then RELOC_TYPE_ARG1_FUN else RELOC_TYPE_ARG2_FUN) pc p
         | AVNativeFun n \<Rightarrow>
             get_native_fun_index_and_add_reloc n (if is_first then RELOC_TYPE_ARG1_NATIVE_FUN else RELOC_TYPE_ARG2_NATIVE_FUN) pc p
         | _ \<Rightarrow> comp_error p ''incorrect argument'')
      else if vt = VALUE_TYPE_FLOAT then
        (case v of AVFloat f \<Rightarrow> ret (f_narrow F f) | _ \<Rightarrow> comp_error p ''incorrect argument'')
      else comp_error p ''incorrect argument'')"

definition arg_to_format_arg :: "fpu \<Rightarrow> carg \<Rightarrow> int \<Rightarrow> u32 \<Rightarrow> bool \<Rightarrow> position \<Rightarrow> (u32 \<times> u32) comp" where
  "arg_to_format_arg F a vt pc is_first instr_pos =
     (if vt = VALUE_TYPE_ERROR then comp_error instr_pos ''incorrect number of arguments''
      else case a of
        AImm v p \<Rightarrow> bindM (imm_to_format_arg F v vt pc is_first p) (\<lambda>x. ret (x, ARG_TYPE_IMM))
      | ALVar i p \<Rightarrow> ret (i, ARG_TYPE_LVAR)
      | AArg i p \<Rightarrow> ret (i, ARG_TYPE_ARG)
      | AIdent n p \<Rightarrow>
          bindM (get_var_index_and_add_reloc n (if is_first then RELOC_TYPE_ARG1_VAR else RELOC_TYPE_ARG2_VAR) pc p)
            (\<lambda>x. ret (x, ARG_TYPE_GVAR))
      | APop p \<Rightarrow> ret (0, ARG_TYPE_POP)
      | AEval i p \<Rightarrow> ret (i, ARG_TYPE_EVAL))"

text \<open>The first argument of an instruction with an operation; the long numbers of iload2 and fload2 fill
  both arguments, and the second component is then the second of them.\<close>

definition generate_arg1 :: "fpu \<Rightarrow> cinstr \<Rightarrow> op_desc \<Rightarrow> u32 \<Rightarrow> ((u32 \<times> u32) option \<times> u32 option) comp" where
  "generate_arg1 F x desc pc =
     (let wrong = seqM (report (ci_pos x) ''incorrect number of arguments'') (ret (None, None)) in
      case ci_arg1 x of
        None \<Rightarrow> if fst (snd desc) \<noteq> VALUE_TYPE_ERROR then wrong else ret (Some (0, ARG_TYPE_IMM), None)
      | Some a \<Rightarrow>
          (case (a, ci_arg2 x) of
             (AImm v _, None) \<Rightarrow>
               if fst desc = OP_ILOAD2 then
                 (case v of AVInt i \<Rightarrow> ret (Some (ucast (drop_bit 32 i), ARG_TYPE_IMM), Some (ucast i)) | _ \<Rightarrow> wrong)
               else if fst desc = OP_FLOAD2 then
                 (case v of AVFloat f \<Rightarrow> ret (Some (ucast (drop_bit 32 f), ARG_TYPE_IMM), Some (ucast f)) | _ \<Rightarrow> wrong)
               else bindM (attempt (arg_to_format_arg F a (fst (snd desc)) pc True (ci_pos x))) (\<lambda>r. ret (r, None))
           | _ \<Rightarrow> bindM (attempt (arg_to_format_arg F a (fst (snd desc)) pc True (ci_pos x))) (\<lambda>r. ret (r, None))))"

definition generate_arg2 :: "fpu \<Rightarrow> cinstr \<Rightarrow> op_desc \<Rightarrow> u32 \<Rightarrow> u32 option \<Rightarrow> (u32 \<times> u32) option comp" where
  "generate_arg2 F x desc pc low = (case low of
     Some i \<Rightarrow> ret (Some (i, ARG_TYPE_IMM))
   | None \<Rightarrow> (case ci_arg2 x of
       Some a \<Rightarrow> attempt (arg_to_format_arg F a (snd (snd desc)) pc False (ci_pos x))
     | None \<Rightarrow>
         if snd (snd desc) \<noteq> VALUE_TYPE_ERROR
         then seqM (report (ci_pos x) ''incorrect number of arguments'') (ret None)
         else ret (Some (0, ARG_TYPE_IMM))))"

definition generate_local_var_count :: "cinstr \<Rightarrow> u32 \<Rightarrow> u32 option comp" where
  "generate_local_var_count x oi =
     (if oi = INSTR_LETTUPLE then
        (case ci_local_var_count x of
           None \<Rightarrow> seqM (report (ci_pos x) ''no number of local variables'') (ret None)
         | Some n \<Rightarrow>
             if n < 2 then seqM (report (ci_pos x) ''number of local variables is too small'') (ret None)
             else if n > 258 then seqM (report (ci_pos x) ''number of local variables is too large'') (ret None)
             else ret (Some n))
      else
        (case ci_local_var_count x of
           None \<Rightarrow> ret (Some 2)
         | Some n \<Rightarrow> seqM (report (ci_pos x) ''number of local variables'') (ret None)))"

text \<open>\<open>pc\<close> is the index of the instruction in its function, \<open>addr\<close> the address of the function.\<close>

definition generate_instr_with_op :: "fpu \<Rightarrow> u32 \<Rightarrow> u32 \<Rightarrow> cinstr \<Rightarrow> u32 \<Rightarrow> instruction comp" where
  "generate_instr_with_op F addr pc x oi = (case ci_op x of
     None \<Rightarrow> comp_error (ci_pos x) ''no operation''
   | Some n \<Rightarrow> (case map_of op_descs n of
       None \<Rightarrow> comp_error (ci_pos x) ''unknown operation''
     | Some desc \<Rightarrow>
         bindM (generate_arg1 F x desc (pc + addr)) (\<lambda>(r1, low).
         bindM (generate_arg2 F x desc (pc + addr) low) (\<lambda>r2.
         bindM (generate_local_var_count x oi) (\<lambda>n.
         case (r1, r2, n) of
           (Some (a1, t1), Some (a2, t2), Some k) \<Rightarrow>
             ret \<lparr>i_opcode = opcode oi (fst desc) t1 t2 k, i_arg1 = a1, i_arg2 = a2\<rparr>
         | _ \<Rightarrow> fail)))))"

definition generate_instr_without_op :: "cinstr \<Rightarrow> u32 \<Rightarrow> instruction comp" where
  "generate_instr_without_op x oi =
     (if ci_op x \<noteq> None then comp_error (ci_pos x) ''instruction can't have operation''
      else if ci_arg1 x \<noteq> None \<or> ci_arg2 x \<noteq> None then comp_error (ci_pos x) ''incorrect number of arguments''
      else ret \<lparr>i_opcode = opcode oi 0 ARG_TYPE_IMM ARG_TYPE_IMM 2, i_arg1 = 0, i_arg2 = 0\<rparr>)"

text \<open>A jump is relative to the instruction behind it. When the label is undefined, the compiler computes
  with an uninitialised address, which it throws away.\<close>

definition generate_jc :: "fpu \<Rightarrow> (string \<rightharpoonup> u32) \<Rightarrow> u32 \<Rightarrow> u32 \<Rightarrow> cinstr \<Rightarrow> instruction comp" where
  "generate_jc F labels addr pc x =
     (if ci_op x \<noteq> None then comp_error (ci_pos x) ''instruction can't have operation''
      else
        bindM (attempt (case ci_arg1 x of
            Some a \<Rightarrow> arg_to_format_arg F a VALUE_TYPE_INT (pc + addr) True (ci_pos x)
          | None \<Rightarrow> comp_error (ci_pos x) ''incorrect number of arguments'')) (\<lambda>r1.
        bindM (attempt (case ci_arg2 x of
            Some (AIdent n p) \<Rightarrow> get_instr_addr labels n p
          | Some a \<Rightarrow> comp_error (arg_pos a) ''argument isn't label''
          | None \<Rightarrow> comp_error (ci_pos x) ''incorrect number of arguments'')) (\<lambda>r2.
        case (r1, r2) of
          (Some (a, t), Some l) \<Rightarrow> ret \<lparr>i_opcode = opcode INSTR_JC 0 t ARG_TYPE_IMM 2, i_arg1 = a, i_arg2 = l - (pc + 1)\<rparr>
        | _ \<Rightarrow> fail)))"

definition generate_jump :: "(string \<rightharpoonup> u32) \<Rightarrow> u32 \<Rightarrow> cinstr \<Rightarrow> instruction comp" where
  "generate_jump labels pc x =
     (if ci_op x \<noteq> None then comp_error (ci_pos x) ''instruction can't have operation''
      else case ci_arg1 x of
        None \<Rightarrow> comp_error (ci_pos x) ''incorrect number of arguments''
      | Some (AIdent n p) \<Rightarrow>
          bindM (get_instr_addr labels n p) (\<lambda>l.
          if ci_arg2 x \<noteq> None then comp_error (ci_pos x) ''incorrect number of arguments''
          else ret \<lparr>i_opcode = opcode INSTR_JUMP 0 ARG_TYPE_IMM ARG_TYPE_IMM 2, i_arg1 = l - (pc + 1), i_arg2 = 0\<rparr>)
      | Some a \<Rightarrow> comp_error (arg_pos a) ''argument isn't label'')"

definition generate_throw_or_rethrow :: "fpu \<Rightarrow> u32 \<Rightarrow> u32 \<Rightarrow> cinstr \<Rightarrow> u32 \<Rightarrow> instruction comp" where
  "generate_throw_or_rethrow F addr pc x oi =
     (if ci_op x \<noteq> None then comp_error (ci_pos x) ''instruction can't have operation''
      else case ci_arg1 x of
        None \<Rightarrow> comp_error (ci_pos x) ''incorrect number of arguments''
      | Some a \<Rightarrow>
          bindM (arg_to_format_arg F a VALUE_TYPE_INT (pc + addr) True (ci_pos x)) (\<lambda>(v, t).
          if ci_arg2 x \<noteq> None then comp_error (ci_pos x) ''incorrect number of arguments''
          else ret \<lparr>i_opcode = opcode oi 0 t ARG_TYPE_IMM 2, i_arg1 = v, i_arg2 = 0\<rparr>))"

definition generate_pop :: "cinstr \<Rightarrow> instruction comp" where
  "generate_pop x =
     (if ci_op x \<noteq> None then comp_error (ci_pos x) ''instruction can't have operation''
      else case ci_arg1 x of
        None \<Rightarrow> comp_error (ci_pos x) ''incorrect number of arguments''
      | Some (AEval i p) \<Rightarrow>
          if ci_arg2 x \<noteq> None then comp_error (ci_pos x) ''incorrect number of arguments''
          else ret \<lparr>i_opcode = opcode INSTR_POP 0 ARG_TYPE_IMM ARG_TYPE_IMM 2, i_arg1 = i, i_arg2 = 0\<rparr>
      | Some a \<Rightarrow> comp_error (arg_pos a) ''incorrect argument'')"

definition generate_instr :: "fpu \<Rightarrow> (string \<rightharpoonup> u32) \<Rightarrow> u32 \<Rightarrow> u32 \<Rightarrow> cinstr \<Rightarrow> instruction comp" where
  "generate_instr F labels addr pc x = (let n = ci_instr x in
     if n = ''let'' then generate_instr_with_op F addr pc x INSTR_LET
     else if n = ''in'' then generate_instr_without_op x INSTR_IN
     else if n = ''ret'' then generate_instr_with_op F addr pc x INSTR_RET
     else if n = ''jc'' then generate_jc F labels addr pc x
     else if n = ''jump'' then generate_jump labels pc x
     else if n = ''arg'' then generate_instr_with_op F addr pc x INSTR_ARG
     else if n = ''retry'' then generate_instr_without_op x INSTR_RETRY
     else if n = ''lettuple'' then generate_instr_with_op F addr pc x INSTR_LETTUPLE
     else if n = ''throw'' then generate_throw_or_rethrow F addr pc x INSTR_THROW
     else if n = ''push'' then generate_instr_with_op F addr pc x INSTR_PUSH
     else if n = ''pop'' then generate_pop x
     else if n = ''rethrow'' then generate_throw_or_rethrow F addr pc x INSTR_RETHROW
     else comp_error (ci_pos x) ''unknown instruction'')"

section \<open>Functions\<close>

text \<open>The labels of a function; \<open>k\<close> counts the instructions in front of a line.\<close>

primrec collect_labels :: "fun_line list \<Rightarrow> nat \<Rightarrow> (string \<rightharpoonup> u32) \<Rightarrow> ((string \<rightharpoonup> u32) \<times> bool) comp" where
  "collect_labels [] k labels = ret (labels, True)"
| "collect_labels (l # ls) k labels =
     (let k' = (if fl_instr l \<noteq> None then Suc k else k) in
      case fl_label l of
        None \<Rightarrow> collect_labels ls k' labels
      | Some (n, p) \<Rightarrow>
          if labels n = None then collect_labels ls k' (labels(n \<mapsto> of_nat k))
          else seqM (report p (''already defined label '' @ n))
            (bindM (collect_labels ls k' labels) (\<lambda>(m, _). ret (m, False))))"

text \<open>Each instruction that could not be generated is \<open>None\<close>.\<close>

definition generate_fun :: "fpu \<Rightarrow> nat \<Rightarrow> cfun \<Rightarrow> (instruction option list \<times> bool) comp" where
  "generate_fun F instr_addr f =
     bindM (collect_labels (cf_lines f) 0 Map.empty) (\<lambda>(labels, ok).
     bindM (collectM (\<lambda>(k, x). attempt (generate_instr F labels (of_nat instr_addr) (of_nat k) x)) (enumerate 0 (fun_instrs f))) (\<lambda>xs.
     ret (xs, ok \<and> None \<notin> set xs)))"

text \<open>The functions in the order of the iteration, from the address \<open>instr_addr\<close> on. The entry of a
  function in the table of functions is at its index.\<close>

primrec generate_funs :: "fpu \<Rightarrow> (string \<times> u32 \<times> cfun) list \<Rightarrow> nat \<Rightarrow> format_function list \<Rightarrow> (instruction option list \<times> format_function list \<times> bool) comp" where
  "generate_funs F [] instr_addr funs = ret ([], funs, True)"
| "generate_funs F (x # fs) instr_addr funs =
     (case x of (n, i, f) \<Rightarrow>
      bindM (generate_fun F instr_addr f) (\<lambda>(code, ok).
      let funs' = funs[unat i := \<lparr>ff_addr = of_nat instr_addr, ff_arg_count = cf_arg_count f, ff_instr_count = of_nat (length code)\<rparr>] in
      bindM (generate_funs F fs (instr_addr + length code) funs') (\<lambda>(codes, funs'', oks).
      ret (code @ codes, funs'', ok \<and> oks))))"

section \<open>Objects\<close>

definition check_range :: "int \<Rightarrow> int \<Rightarrow> cvalue \<Rightarrow> unit comp" where
  "check_range lo hi e =
     seqM (if sint (cvalue_i e) < lo then comp_error (value_pos e) ''integer number is too small'' else ret ())
          (if sint (cvalue_i e) > hi then comp_error (value_pos e) ''integer number is too large'' else ret ())"

text \<open>The elements of an object at the index \<open>i\<close> of the data, by the type of the object; \<open>j\<close> is
  the index of the element. An element that could not be generated is \<open>None\<close>.\<close>

definition indexed :: "cobject \<Rightarrow> (nat \<times> cvalue) list" where
  "indexed ob = enumerate 0 (ob_elems ob)"

definition elem8 :: "cvalue \<Rightarrow> u8 comp" where
  "elem8 e = seqM (check_range (- (2 ^ 7)) (2 ^ 8 - 1) e) (ret (ucast (cvalue_i e)))"

definition elem16 :: "cvalue \<Rightarrow> u16 comp" where
  "elem16 e = seqM (check_range (- (2 ^ 15)) (2 ^ 16 - 1) e) (ret (ucast (cvalue_i e)))"

text \<open>An element out of range is still converted.\<close>

definition elem32 :: "nat \<Rightarrow> nat \<times> cvalue \<Rightarrow> u32 comp" where
  "elem32 i x = (case x of (j, e) \<Rightarrow>
     bindM (if is_fun_value e then ret True else succeeds (check_range INT32_MIN UINT32_TOP e)) (\<lambda>ok.
     bindM (value_to_format_value e (Some (of_nat (i + 8 + j * 4))) False) (\<lambda>v.
     if ok then ret (ucast (fv_i v)) else fail)))"

definition elem64 :: "nat \<Rightarrow> nat \<times> cvalue \<Rightarrow> u64 comp" where
  "elem64 i x = (case x of (j, e) \<Rightarrow>
     bindM (value_to_format_value e (Some (of_nat (i + 8 + j * 8))) False) (\<lambda>v. ret (fv_i v)))"

definition elem_ref :: "cvalue \<Rightarrow> u32 comp" where
  "elem_ref e = bindM (value_to_format_value e None False) (\<lambda>v. ret (ucast (fv_i v)))"

definition elem_tuple :: "nat \<Rightarrow> nat \<times> cvalue \<Rightarrow> (u64 \<times> u8) comp" where
  "elem_tuple i x = (case x of (j, e) \<Rightarrow>
     bindM (value_to_format_value e (Some (of_nat (i + 8 + j * 8))) False) (\<lambda>v. ret (fv_i v, ucast (fv_type v))))"

definition attempt_all :: "('i \<Rightarrow> 'a comp) \<Rightarrow> 'i list \<Rightarrow> 'a option list comp" where
  "attempt_all f xs = collectM (\<lambda>x. attempt (f x)) xs"

text \<open>The object of the elements that could be generated, when all could.\<close>

definition object_of :: "('a list \<Rightarrow> format_object) \<Rightarrow> 'a option list \<Rightarrow> format_object option comp" where
  "object_of mk xs = ret (if None \<in> set xs then None else Some (mk (map the xs)))"

definition generate_elems :: "fpu \<Rightarrow> cobject \<Rightarrow> int \<Rightarrow> nat \<Rightarrow> format_object option comp" where
  "generate_elems F ob t i =
     (if t = OBJECT_TYPE_IARRAY8 then bindM (attempt_all elem8 (ob_elems ob)) (object_of FIArray8)
      else if t = OBJECT_TYPE_IARRAY16 then bindM (attempt_all elem16 (ob_elems ob)) (object_of FIArray16)
      else if t = OBJECT_TYPE_IARRAY32 then bindM (attempt_all (elem32 i) (indexed ob)) (object_of FIArray32)
      else if t = OBJECT_TYPE_IARRAY64 then bindM (attempt_all (elem64 i) (indexed ob)) (object_of FIArray64)
      else if t = OBJECT_TYPE_SFARRAY then ret (Some (FSFArray (map (\<lambda>e. f_narrow F (cvalue_f e)) (ob_elems ob))))
      else if t = OBJECT_TYPE_DFARRAY then ret (Some (FDFArray (map cvalue_f (ob_elems ob))))
      else if t = OBJECT_TYPE_RARRAY then bindM (attempt_all elem_ref (ob_elems ob)) (object_of FRArray)
      else bindM (attempt_all (elem_tuple i) (indexed ob)) (object_of FTuple))"

text \<open>The objects, from the index \<open>i\<close> of the data on. The first object of an address in the program
  keeps its entry in the table. An object of \<open>2 ^ 31\<close> bytes or more is outside of the model: its size or
  the index of its elements overflows.\<close>

primrec generate_objects :: "fpu \<Rightarrow> object_pair list \<Rightarrow> nat \<Rightarrow> (u32 \<times> format_object) option list comp" where
  "generate_objects F [] i = ret []"
| "generate_objects F (x # xs) i =
     (case x of (ob, t, sz) \<Rightarrow>
      if 8 + 9 * int (length (ob_elems ob)) \<ge> 2 ^ 31 then undef
      else
        seqM (modify (\<lambda>c. if c_object_addrs c (ob_id ob) = None
            then c\<lparr>c_object_addrs := (c_object_addrs c)(ob_id ob \<mapsto> of_nat i)\<rparr> else c))
       (bindM (generate_elems F ob t i) (\<lambda>r.
        bindM (generate_objects F xs (i + up8 (unat sz))) (\<lambda>rs.
        ret (map_option (\<lambda>fo. (of_nat i, fo)) r # rs)))))"

section \<open>Variables\<close>

primrec generate_vars :: "(string \<times> u32 \<times> cvalue) list \<Rightarrow> format_value list \<Rightarrow> (format_value list \<times> bool) comp" where
  "generate_vars [] vars = ret (vars, True)"
| "generate_vars (x # vs) vars =
     (case x of (n, i, v) \<Rightarrow>
      bindM (attempt (value_to_format_value v (Some i) True)) (\<lambda>r.
      bindM (generate_vars vs (case r of None \<Rightarrow> vars | Some y \<Rightarrow> vars[unat i := y])) (\<lambda>(vars', oks).
      ret (vars', r \<noteq> None \<and> oks))))"

section \<open>The program\<close>

definition bytes_of :: "string \<Rightarrow> u8 list" where
  "bytes_of s = map of_char s"

definition format_symbol_of :: "csymbol \<Rightarrow> format_symbol" where
  "format_symbol_of y = \<lparr>sy_index = cs_index y, sy_type = ucast (cs_type y), sy_name = bytes_of (cs_name y)\<rparr>"

definition format_fun_info_of :: "u32 \<times> annot_info \<Rightarrow> format_fun_info" where
  "format_fun_info_of x = \<lparr>fi_fun_index = fst x, fi_eval_strategy = strategy_byte (snd x), fi_eval_strategy_mask = mask_byte (snd x)\<rparr>"

definition comp_flags :: "bool \<Rightarrow> bool \<Rightarrow> u32" where
  "comp_flags is_entry rel =
     (if is_entry then 0 else HEADER_FLAG_LIBRARY) OR
     (if rel then HEADER_FLAG_RELOCATABLE OR HEADER_FLAG_NATIVE_FUN_SYMBOLS else 0) OR HEADER_FLAG_FUN_INFOS"

text \<open>Where the last of what is written ends, from the state after everything is generated.\<close>

definition written_size :: "cstate \<Rightarrow> nat" where
  "written_size c = up8 48 + up8 (length (c_fun_pairs c) * 12) + up8 (length (c_var_pairs c) * 16) +
     up8 (comp_code_size c * 12) + comp_data_size c +
     (if c_relocatable c then up8 (length (c_relocs c) * 12) + sum_list (map (\<lambda>y. up8 (7 + length (cs_name y))) (c_symbols c)) else 0) +
     up8 (length (c_fun_infos c) * 12)"

text \<open>The parts behind the point where the size of the buffer is known; \<open>fs\<close> and \<open>vs\<close> are the
  functions and the variables in the order of the iteration. The last component says whether all could be
  generated.\<close>

definition generate_rest :: "fpu \<Rightarrow> (string \<times> u32 \<times> cfun) list \<Rightarrow> (string \<times> u32 \<times> cvalue) list \<Rightarrow> (string \<times> position) option \<Rightarrow>
    (u32 \<times> instruction option list \<times> format_function list \<times> (u32 \<times> format_object) option list \<times> format_value list \<times> bool) comp" where
  "generate_rest F fs vs entry =
     bindM (case entry of None \<Rightarrow> ret 0 | Some (n, p) \<Rightarrow> get_fun_index n p) (\<lambda>entry_index.
     bindM (generate_funs F fs 0 (replicate (length fs) \<lparr>ff_addr = 0, ff_arg_count = 0, ff_instr_count = 0\<rparr>)) (\<lambda>(code, funs, ok3).
     bindM (reading c_object_pairs) (\<lambda>pairs.
     bindM (generate_objects F pairs 0) (\<lambda>data.
     bindM (generate_vars vs (replicate (length vs) \<lparr>fv_type = 0, fv_i = 0\<rparr>)) (\<lambda>(vars, ok4).
     ret (entry_index, code, funs, data, vars, ok3 \<and> None \<notin> set data \<and> ok4))))))"

definition comp_program :: "cstate \<Rightarrow> bool \<Rightarrow> u32 \<Rightarrow> instruction option list \<Rightarrow> format_function list \<Rightarrow> (u32 \<times> format_object) option list \<Rightarrow>
    format_value list \<Rightarrow> program" where
  "comp_program c is_entry e code funs data vars =
     \<lparr>pg_flags = comp_flags is_entry (c_relocatable c), pg_entry = ucast e, pg_funs = funs,
         pg_vars = vars, pg_code = map the code, pg_data = map the data,
         pg_relocs = (if c_relocatable c then c_relocs c else []),
         pg_symbols = (if c_relocatable c then map format_symbol_of (c_symbols c) else []),
         pg_fun_infos = map format_fun_info_of (c_fun_infos c), pg_fun_offset = 0, pg_var_offset = 0\<rparr>"

text \<open>The parameters \<open>forder\<close> and \<open>vorder\<close> are the orders in which the hash tables of the functions
  and of the variables are iterated. The result has the program and the size of the buffer it stands in.\<close>

definition generate_parts :: "fpu \<Rightarrow> ((string \<times> u32 \<times> cfun) list \<Rightarrow> (string \<times> u32 \<times> cfun) list) \<Rightarrow>
    ((string \<times> u32 \<times> cvalue) list \<Rightarrow> (string \<times> u32 \<times> cvalue) list) \<Rightarrow> parse_tree \<Rightarrow> (program \<times> nat) comp" where
  "generate_parts F forder vorder tree =
     bindM (add_defs tree None) (\<lambda>(entry, ok1).
     bindM (reading (\<lambda>c. (forder (c_fun_pairs c), vorder (c_var_pairs c)))) (\<lambda>(fs, vs).
     bindM (allM add_var_objects vs) (\<lambda>ok2.
     if \<not> (ok1 \<and> ok2) then fail else
     bindM (reading prog_size) (\<lambda>sz.
     bindM (generate_rest F fs vs entry) (\<lambda>(e, code, funs, data, vars, ok).
     bindM (reading id) (\<lambda>c.
     if written_size c > sz then undef
     else if \<not> ok then fail
     else ret (comp_program c (entry \<noteq> None) e code funs data vars, sz)))))))"

definition generate_prog :: "fpu \<Rightarrow> ((string \<times> u32 \<times> cfun) list \<Rightarrow> (string \<times> u32 \<times> cfun) list) \<Rightarrow>
    ((string \<times> u32 \<times> cvalue) list \<Rightarrow> (string \<times> u32 \<times> cvalue) list) \<Rightarrow> parse_tree \<Rightarrow> u8 list comp" where
  "generate_prog F forder vorder tree =
     bindM (generate_parts F forder vorder tree) (\<lambda>(p, sz).
     ret (write_program p @ replicate (sz - length (write_program p)) 0))"

text \<open>\<open>sort_errors\<close>: \<open>std::list::sort\<close> with a comparator that compares the positions.\<close>

definition sort_errors :: "comp_error list \<Rightarrow> comp_error list" where
  "sort_errors errs = list_sort (\<lambda>e1 e2. position_before (fst e1) (fst e2)) errs"

text \<open>\<open>ImplCompiler::compile\<close> behind the parser: the program, or none, and the errors.\<close>

definition compile :: "fpu \<Rightarrow> ((string \<times> u32 \<times> cfun) list \<Rightarrow> (string \<times> u32 \<times> cfun) list) \<Rightarrow>
    ((string \<times> u32 \<times> cvalue) list \<Rightarrow> (string \<times> u32 \<times> cvalue) list) \<Rightarrow> bool \<Rightarrow> parse_tree \<Rightarrow> comp_error list \<Rightarrow>
    u8 list outcome \<times> comp_error list" where
  "compile F forder vorder is_relocable tree errs =
     (case generate_prog F forder vorder tree (init_cstate is_relocable errs) of (r, c) \<Rightarrow> (r, sort_errors (c_errors c)))"

end
