(* ===== verification/Comp_Gen.thy ===== *)
theory Comp_Gen
  imports Comp_Generate
begin

unbundle bit_operations_syntax

text \<open>
  What generating keeps and adds: the invariant of the compiler's state, and for every part of the second half
  of the compiler how many relocations it adds at most, which symbols, and whether it reports an error.
\<close>

section \<open>The invariant of the state\<close>

abbreviation (input) NOT_DEFINED :: u32 where "NOT_DEFINED \<equiv> NOT 16"

text \<open>A symbol is told apart by its kind and its name.\<close>

definition symbol_key :: "csymbol \<Rightarrow> u32 \<times> string" where
  "symbol_key y = (cs_type y AND NOT_DEFINED, cs_name y)"

definition symbol_ok :: "cstate \<Rightarrow> csymbol \<Rightarrow> bool" where
  "symbol_ok c y \<longleftrightarrow>
     cs_type y = 16 \<and> map_of (c_fun_pairs c) (cs_name y) \<noteq> None \<or> cs_type y = 17 \<and> map_of (c_var_pairs c) (cs_name y) \<noteq> None \<or>
     cs_type y = 0 \<and> c_extern_funs c (cs_name y) \<noteq> None \<or> cs_type y = 1 \<and> c_extern_vars c (cs_name y) \<noteq> None \<or>
     cs_type y = 2 \<and> c_extern_native_funs c (cs_name y) \<noteq> None"

text \<open>The relocations by functions and variables, which are symbolic or not, and those by native functions,
  which always are.\<close>

abbreviation (input) RELOC_KINDS :: "u32 set" where
  "RELOC_KINDS \<equiv> {0, 1, 2, 3, 4, 5}"

abbreviation (input) RELOC_TYPES :: "u32 set" where
  "RELOC_TYPES \<equiv> {0, 1, 2, 3, 4, 5, 256, 257, 258, 259, 260, 261, 262, 263, 264, 265}"

definition comp_reloc_ok :: "cstate \<Rightarrow> format_reloc \<Rightarrow> bool" where
  "comp_reloc_ok c r \<longleftrightarrow> rl_type r \<in> RELOC_TYPES \<and> (is_symbolic r \<longrightarrow> unat (rl_symbol r) < length (c_symbols c))"

definition externs_ok :: "cstate \<Rightarrow> bool" where
  "externs_ok c \<longleftrightarrow> (\<forall>n y. c_extern_funs c n = Some y \<longrightarrow> unat y < length (c_symbols c)) \<and>
     (\<forall>n y. c_extern_vars c n = Some y \<longrightarrow> unat y < length (c_symbols c)) \<and>
     (\<forall>n y. c_extern_native_funs c n = Some y \<longrightarrow> unat y < length (c_symbols c))"

text \<open>\<open>D\<close> are the addresses of the objects of the program.\<close>

definition comp_inv :: "u32 set \<Rightarrow> cstate \<Rightarrow> bool" where
  "comp_inv D c \<longleftrightarrow> (\<forall>y\<in>set (c_symbols c). symbol_ok c y) \<and> distinct (map symbol_key (c_symbols c)) \<and>
     (\<forall>r\<in>set (c_relocs c). comp_reloc_ok c r) \<and> externs_ok c \<and> ran (c_object_addrs c) \<subseteq> D \<and>
     (\<not> c_relocatable c \<longrightarrow> c_symbols c = [] \<and> c_relocs c = [])"

section \<open>What a part adds\<close>

text \<open>Generating leaves what was collected before.\<close>

definition same_collected :: "cstate \<Rightarrow> cstate \<Rightarrow> bool" where
  "same_collected c t \<longleftrightarrow> c_relocatable t = c_relocatable c \<and> c_fun_pairs t = c_fun_pairs c \<and> c_var_pairs t = c_var_pairs c \<and>
     c_object_pairs t = c_object_pairs c \<and> c_fun_infos t = c_fun_infos c"

type_synonym needs = "nat \<times> (u32 \<times> string) set"

definition adds :: "u32 set \<Rightarrow> needs \<Rightarrow> cstate \<Rightarrow> cstate \<Rightarrow> bool" where
  "adds D nd c t \<longleftrightarrow> same_collected c t \<and> comp_inv D t \<and> dom (c_object_addrs c) \<subseteq> dom (c_object_addrs t) \<and>
     length (c_relocs t) \<le> length (c_relocs c) + fst nd \<and>
     symbol_key ` set (c_symbols t) \<subseteq> symbol_key ` set (c_symbols c) \<union> snd nd \<and> (\<exists>es. c_errors t = c_errors c @ es)"

text \<open>\<open>gen D c0 K nd E m\<close>: in a state with the collected parts of \<open>c0\<close> and addresses of the objects
  \<open>K\<close>, \<open>m\<close> keeps the invariant and adds at most \<open>nd\<close>; \<open>E\<close> relates its result, or
  \<open>None\<close> when it fails, to whether it reports an error.\<close>

definition gen :: "u32 set \<Rightarrow> cstate \<Rightarrow> nat set \<Rightarrow> needs \<Rightarrow> ('a option \<Rightarrow> bool \<Rightarrow> bool) \<Rightarrow> 'a comp \<Rightarrow> bool" where
  "gen D c0 K nd E m \<longleftrightarrow> (\<forall>c. same_collected c0 c \<and> comp_inv D c \<and> K \<subseteq> dom (c_object_addrs c) \<longrightarrow>
     wpx m (\<lambda>x t. adds D nd c t \<and> E (Some x) (c_errors t \<noteq> c_errors c)) (\<lambda>t. adds D nd c t \<and> E None (c_errors t \<noteq> c_errors c)) c)"

text \<open>The usual relation: an error is reported just when the part fails, and a result satisfies \<open>Q\<close>.\<close>

definition plain :: "('a \<Rightarrow> bool) \<Rightarrow> 'a option \<Rightarrow> bool \<Rightarrow> bool" where
  "plain Q x g \<longleftrightarrow> (case x of None \<Rightarrow> g | Some y \<Rightarrow> Q y \<and> \<not> g)"

text \<open>A part that never fails and answers whether there was no error.\<close>

definition noted :: "('a \<Rightarrow> bool) \<Rightarrow> ('a \<Rightarrow> bool) \<Rightarrow> 'a option \<Rightarrow> bool \<Rightarrow> bool" where
  "noted ok Q x g \<longleftrightarrow> (case x of None \<Rightarrow> False | Some y \<Rightarrow> Q y \<and> (g \<longleftrightarrow> \<not> ok y))"

lemma same_collected_refl [simp]: "same_collected c c" and same_collected_trans [trans]: "same_collected a b \<Longrightarrow> same_collected b c \<Longrightarrow> same_collected a c"
  by (simp_all add: same_collected_def)

lemma adds_refl: "comp_inv D c \<Longrightarrow> adds D nd c c"
  by (simp add: adds_def)

lemma adds_trans:
  assumes "adds D (n1, S1) a b" "adds D (n2, S2) b c"
  shows "adds D (n1 + n2, S1 \<union> S2) a c"
proof -
  have "same_collected a c" using assms same_collected_trans [of a b c] by (simp add: adds_def)
  moreover have "dom (c_object_addrs a) \<subseteq> dom (c_object_addrs c)"
    using assms by (simp add: adds_def) (metis subset_trans)
  moreover have "symbol_key ` set (c_symbols c) \<subseteq> symbol_key ` set (c_symbols a) \<union> (S1 \<union> S2)"
    using assms unfolding adds_def snd_conv by blast
  moreover have "\<exists>es. c_errors c = c_errors a @ es" using assms unfolding adds_def by (metis append_assoc)
  ultimately show ?thesis using assms by (simp add: adds_def)
qed

lemma adds_mono: "adds D (n, S) a b \<Longrightarrow> n \<le> n' \<Longrightarrow> S \<subseteq> S' \<Longrightarrow> adds D (n', S') a b"
  unfolding adds_def by auto

lemma adds_errors: "adds D nd a b \<Longrightarrow> adds D nd' b c \<Longrightarrow> (c_errors c \<noteq> c_errors a) = (c_errors b \<noteq> c_errors a \<or> c_errors c \<noteq> c_errors b)"
  by (auto simp: adds_def)

lemma genD:
  "gen D c0 K nd E m \<Longrightarrow> same_collected c0 c \<Longrightarrow> comp_inv D c \<Longrightarrow> K \<subseteq> dom (c_object_addrs c) \<Longrightarrow>
    wpx m (\<lambda>x t. adds D nd c t \<and> E (Some x) (c_errors t \<noteq> c_errors c)) (\<lambda>t. adds D nd c t \<and> E None (c_errors t \<noteq> c_errors c)) c"
  by (simp add: gen_def)

lemma gen_mono:
  assumes "gen D c0 K (n, S) E m" "n \<le> n'" "S \<subseteq> S'" "K \<subseteq> K'" "\<And>x g. E x g \<Longrightarrow> E' x g"
  shows "gen D c0 K' (n', S') E' m"
  unfolding gen_def
proof (intro allI impI)
  fix c assume c: "same_collected c0 c \<and> comp_inv D c \<and> K' \<subseteq> dom (c_object_addrs c)"
  then have "wpx m (\<lambda>x t. adds D (n, S) c t \<and> E (Some x) (c_errors t \<noteq> c_errors c)) (\<lambda>t. adds D (n, S) c t \<and> E None (c_errors t \<noteq> c_errors c)) c"
    using assms(1,4) unfolding gen_def by blast
  then show "wpx m (\<lambda>x t. adds D (n', S') c t \<and> E' (Some x) (c_errors t \<noteq> c_errors c)) (\<lambda>t. adds D (n', S') c t \<and> E' None (c_errors t \<noteq> c_errors c)) c"
    by (rule wpx_mono) (use adds_mono [OF _ assms(2,3)] assms(5) in blast)+
qed

lemma gen_ret: "E (Some x) False \<Longrightarrow> gen D c0 K nd E (ret x)"
  by (simp add: gen_def wpx_rules adds_refl)

lemma gen_bind:
  assumes m: "gen D c0 K (n1, S1) E1 m" and f: "\<And>x g. E1 (Some x) g \<Longrightarrow> gen D c0 K (n2, S2) (\<lambda>y g2. E y (g \<or> g2)) (f x)"
    and none: "\<And>g. E1 None g \<Longrightarrow> E None g"
  shows "gen D c0 K (n1 + n2, S1 \<union> S2) E (bindM m f)"
  unfolding gen_def wpx_bindM
proof (intro allI impI)
  fix c assume c: "same_collected c0 c \<and> comp_inv D c \<and> K \<subseteq> dom (c_object_addrs c)"
  have 1: "wpx m (\<lambda>x t. adds D (n1, S1) c t \<and> E1 (Some x) (c_errors t \<noteq> c_errors c)) (\<lambda>t. adds D (n1, S1) c t \<and> E1 None (c_errors t \<noteq> c_errors c)) c"
    using m c unfolding gen_def by blast
  let ?n = "(n1 + n2, S1 \<union> S2)"
  show "wpx m (\<lambda>x. wpx (f x) (\<lambda>x t. adds D ?n c t \<and> E (Some x) (c_errors t \<noteq> c_errors c)) (\<lambda>t. adds D ?n c t \<and> E None (c_errors t \<noteq> c_errors c)))
      (\<lambda>t. adds D ?n c t \<and> E None (c_errors t \<noteq> c_errors c)) c"
  proof (rule wpx_mono [OF 1])
    fix x b assume b: "adds D (n1, S1) c b \<and> E1 (Some x) (c_errors b \<noteq> c_errors c)"
    then have "same_collected c0 b" using c same_collected_trans [of c0 c b] by (simp add: adds_def)
    then have "wpx (f x) (\<lambda>y t. adds D (n2, S2) b t \<and> E (Some y) (c_errors b \<noteq> c_errors c \<or> c_errors t \<noteq> c_errors b))
        (\<lambda>t. adds D (n2, S2) b t \<and> E None (c_errors b \<noteq> c_errors c \<or> c_errors t \<noteq> c_errors b)) b"
      using b c by (intro genD [OF f]) (auto simp: adds_def)
    then show "wpx (f x) (\<lambda>x t. adds D ?n c t \<and> E (Some x) (c_errors t \<noteq> c_errors c)) (\<lambda>t. adds D ?n c t \<and> E None (c_errors t \<noteq> c_errors c)) b"
    proof (rule wpx_mono)
      have step: "adds D ?n c t \<and> (c_errors t \<noteq> c_errors c) = (c_errors b \<noteq> c_errors c \<or> c_errors t \<noteq> c_errors b)"
        if "adds D (n2, S2) b t" for t
        using adds_trans [of D n1 S1 c b] adds_errors [of D "(n1, S1)" c b] b that by blast
      show "adds D ?n c t \<and> E (Some y) (c_errors t \<noteq> c_errors c)"
        if "adds D (n2, S2) b t \<and> E (Some y) (c_errors b \<noteq> c_errors c \<or> c_errors t \<noteq> c_errors b)" for y t
        using step [of t] that by simp
      show "adds D ?n c t \<and> E None (c_errors t \<noteq> c_errors c)"
        if "adds D (n2, S2) b t \<and> E None (c_errors b \<noteq> c_errors c \<or> c_errors t \<noteq> c_errors b)" for t
        using step [of t] that by simp
    qed
  next
    fix t assume "adds D (n1, S1) c t \<and> E1 None (c_errors t \<noteq> c_errors c)"
    then show "adds D ?n c t \<and> E None (c_errors t \<noteq> c_errors c)" using none adds_mono [of D n1 S1 c t "n1 + n2" "S1 \<union> S2"] by auto
  qed
qed

lemma gen_attempt: "gen D c0 K nd (plain Q) m \<Longrightarrow> gen D c0 K nd (noted (\<lambda>x. x \<noteq> None) (\<lambda>x. case x of None \<Rightarrow> True | Some y \<Rightarrow> Q y)) (attempt m)"
  by (auto simp: gen_def wpx_rules plain_def noted_def elim!: wpx_mono)

lemma gen_plain_bind:
  assumes "gen D c0 K (n1, S1) (plain R) m" "\<And>x. R x \<Longrightarrow> gen D c0 K (n2, S2) (plain Q) (f x)"
  shows "gen D c0 K (n1 + n2, S1 \<union> S2) (plain Q) (bindM m f)"
  by (rule gen_bind [OF assms(1)]) (use assms(2) in \<open>auto simp: plain_def [abs_def]\<close>)

lemma gen_plain_ret: "Q x \<Longrightarrow> gen D c0 K nd (plain Q) (ret x)"
  by (rule gen_ret) (simp add: plain_def)

lemma gen_reading_bind:
  assumes "\<And>c. same_collected c0 c \<Longrightarrow> comp_inv D c \<Longrightarrow> K \<subseteq> dom (c_object_addrs c) \<Longrightarrow> gen D c0 K nd E (f (h c))"
  shows "gen D c0 K nd E (bindM (reading h) f)"
  using assms by (auto simp: gen_def wpx_rules)

lemma comp_inv_errors [simp]: "comp_inv D (c\<lparr>c_errors := es\<rparr>) = comp_inv D c"
  by (simp add: comp_inv_def symbol_ok_def comp_reloc_ok_def externs_ok_def)

lemma gen_report: "E (Some ()) True \<Longrightarrow> gen D c0 K nd E (report p msg)"
  by (simp add: gen_def report_def wpx_rules adds_def same_collected_def)

lemma gen_error: "gen D c0 K nd (plain Q) (comp_error p msg)"
  by (simp add: gen_def comp_error_def report_def wpx_rules adds_def same_collected_def plain_def)

section \<open>Relocations\<close>

lemma comp_inv_push_reloc:
  "comp_inv D c \<Longrightarrow> c_relocatable c \<Longrightarrow> t \<in> RELOC_TYPES \<Longrightarrow> (t AND 256 \<noteq> 0 \<Longrightarrow> unat y < length (c_symbols c)) \<Longrightarrow>
    comp_inv D (c\<lparr>c_relocs := c_relocs c @ [\<lparr>rl_type = t, rl_addr = a, rl_symbol = y\<rparr>]\<rparr>)"
  by (auto simp: comp_inv_def symbol_ok_def comp_reloc_ok_def externs_ok_def is_symbolic_def)

lemma unat_of_nat_le: "unat (of_nat n :: u32) < Suc n"
  by (simp add: unat_of_nat take_bit_eq_mod less_Suc_eq_le)

lemma externs_grow:
  assumes "externs_ok c" "unat i < Suc (length (c_symbols c))"
  shows "externs_ok (c\<lparr>c_extern_funs := (c_extern_funs c)(n \<mapsto> i), c_symbols := c_symbols c @ [y]\<rparr>)"
    "externs_ok (c\<lparr>c_extern_vars := (c_extern_vars c)(n \<mapsto> i), c_symbols := c_symbols c @ [y]\<rparr>)"
    "externs_ok (c\<lparr>c_extern_native_funs := (c_extern_native_funs c)(n \<mapsto> i), c_symbols := c_symbols c @ [y]\<rparr>)"
  using assms by (auto simp: externs_ok_def intro: less_SucI)

text \<open>The symbols of other modules: none of the kind and the name was there.\<close>

lemma symbol_key_fresh:
  assumes "comp_inv D c"
  shows "map_of (c_fun_pairs c) n = None \<Longrightarrow> c_extern_funs c n = None \<Longrightarrow> (0, n) \<notin> symbol_key ` set (c_symbols c)"
    "map_of (c_var_pairs c) n = None \<Longrightarrow> c_extern_vars c n = None \<Longrightarrow> (1, n) \<notin> symbol_key ` set (c_symbols c)"
    "c_extern_native_funs c n = None \<Longrightarrow> (2, n) \<notin> symbol_key ` set (c_symbols c)"
proof -
  have sym: "symbol_ok c y" if "y \<in> set (c_symbols c)" for y using assms that by (simp add: comp_inv_def)
  then have "(cs_type y = 16 \<longrightarrow> map_of (c_fun_pairs c) (cs_name y) \<noteq> None) \<and> (cs_type y = 17 \<longrightarrow> map_of (c_var_pairs c) (cs_name y) \<noteq> None) \<and>
      (cs_type y = 0 \<longrightarrow> c_extern_funs c (cs_name y) \<noteq> None) \<and> (cs_type y = 1 \<longrightarrow> c_extern_vars c (cs_name y) \<noteq> None) \<and>
      (cs_type y = 2 \<longrightarrow> c_extern_native_funs c (cs_name y) \<noteq> None) \<and> cs_type y \<in> {0, 1, 2, 16, 17}"
    if "y \<in> set (c_symbols c)" for y using that by (fastforce simp: symbol_ok_def)
  note * = this
  show "(0, n) \<notin> symbol_key ` set (c_symbols c)" if "map_of (c_fun_pairs c) n = None" "c_extern_funs c n = None"
    using that * by (fastforce simp: symbol_key_def)
  show "(1, n) \<notin> symbol_key ` set (c_symbols c)" if "map_of (c_var_pairs c) n = None" "c_extern_vars c n = None"
    using that * by (fastforce simp: symbol_key_def)
  show "(2, n) \<notin> symbol_key ` set (c_symbols c)" if "c_extern_native_funs c n = None"
    using that * by (fastforce simp: symbol_key_def)
qed

lemma comp_inv_add_symbol:
  assumes "comp_inv D c" "c_relocatable c" "symbol_key y \<notin> symbol_key ` set (c_symbols c)" "symbol_ok t y" "externs_ok t"
    "c_symbols t = c_symbols c @ [y]" "same_collected c t" "c_relocs t = c_relocs c" "c_object_addrs t = c_object_addrs c"
    "c_extern_funs c \<subseteq>\<^sub>m c_extern_funs t" "c_extern_vars c \<subseteq>\<^sub>m c_extern_vars t" "c_extern_native_funs c \<subseteq>\<^sub>m c_extern_native_funs t"
  shows "comp_inv D t"
proof -
  have mono: "f n \<noteq> None \<Longrightarrow> f \<subseteq>\<^sub>m g \<Longrightarrow> g n \<noteq> None" for f g :: "string \<rightharpoonup> u32" and n
    by (auto simp: map_le_def dom_def)
  have "symbol_ok t x" if "x \<in> set (c_symbols c)" for x
  proof -
    have "symbol_ok c x" using assms(1) that by (simp add: comp_inv_def)
    then show ?thesis
      using mono [OF _ assms(10)] mono [OF _ assms(11)] mono [OF _ assms(12)] assms(7) by (fastforce simp: symbol_ok_def same_collected_def)
  qed
  moreover have "comp_reloc_ok t r" if "r \<in> set (c_relocs c)" for r
    using assms(1,6) that by (auto simp: comp_inv_def comp_reloc_ok_def)
  ultimately show ?thesis using assms by (auto simp: comp_inv_def same_collected_def)
qed

lemma map_le_fresh: "f n = None \<Longrightarrow> f \<subseteq>\<^sub>m f(n \<mapsto> i)"
  by (auto simp: map_le_def)

lemma comp_inv_extern:
  assumes "comp_inv D c" "c_relocatable c" "unat i < Suc (length (c_symbols c))"
  shows "map_of (c_fun_pairs c) n = None \<Longrightarrow> c_extern_funs c n = None \<Longrightarrow>
      comp_inv D (c\<lparr>c_extern_funs := (c_extern_funs c)(n \<mapsto> i), c_symbols := c_symbols c @ [\<lparr>cs_type = 0, cs_name = n, cs_index = 0\<rparr>]\<rparr>)"
    "map_of (c_var_pairs c) n = None \<Longrightarrow> c_extern_vars c n = None \<Longrightarrow>
      comp_inv D (c\<lparr>c_extern_vars := (c_extern_vars c)(n \<mapsto> i), c_symbols := c_symbols c @ [\<lparr>cs_type = 1, cs_name = n, cs_index = 0\<rparr>]\<rparr>)"
    "c_extern_native_funs c n = None \<Longrightarrow>
      comp_inv D (c\<lparr>c_extern_native_funs := (c_extern_native_funs c)(n \<mapsto> i), c_symbols := c_symbols c @ [\<lparr>cs_type = 2, cs_name = n, cs_index = 0\<rparr>]\<rparr>)"
proof -
  have ext: "externs_ok c" using assms(1) by (simp add: comp_inv_def)
  have k: "symbol_key \<lparr>cs_type = 0, cs_name = n, cs_index = 0\<rparr> = (0, n)" "symbol_key \<lparr>cs_type = 1, cs_name = n, cs_index = 0\<rparr> = (1, n)"
    "symbol_key \<lparr>cs_type = 2, cs_name = n, cs_index = 0\<rparr> = (2, n)" by (simp_all add: symbol_key_def)
  note rules = comp_inv_add_symbol [OF assms(1,2)] and fresh = symbol_key_fresh [OF assms(1), of n] and grow = externs_grow [OF ext assms(3)]
  show "comp_inv D (c\<lparr>c_extern_funs := (c_extern_funs c)(n \<mapsto> i), c_symbols := c_symbols c @ [\<lparr>cs_type = 0, cs_name = n, cs_index = 0\<rparr>]\<rparr>)"
    if "map_of (c_fun_pairs c) n = None" "c_extern_funs c n = None"
    by (rule rules [where y = "\<lparr>cs_type = 0, cs_name = n, cs_index = 0\<rparr>"])
      (use that fresh(1) grow(1) in \<open>simp_all add: k same_collected_def symbol_ok_def map_le_fresh\<close>)
  show "comp_inv D (c\<lparr>c_extern_vars := (c_extern_vars c)(n \<mapsto> i), c_symbols := c_symbols c @ [\<lparr>cs_type = 1, cs_name = n, cs_index = 0\<rparr>]\<rparr>)"
    if "map_of (c_var_pairs c) n = None" "c_extern_vars c n = None"
    by (rule rules [where y = "\<lparr>cs_type = 1, cs_name = n, cs_index = 0\<rparr>"])
      (use that fresh(2) grow(2) in \<open>simp_all add: k same_collected_def symbol_ok_def map_le_fresh\<close>)
  show "comp_inv D (c\<lparr>c_extern_native_funs := (c_extern_native_funs c)(n \<mapsto> i), c_symbols := c_symbols c @ [\<lparr>cs_type = 2, cs_name = n, cs_index = 0\<rparr>]\<rparr>)"
    if "c_extern_native_funs c n = None"
    by (rule rules [where y = "\<lparr>cs_type = 2, cs_name = n, cs_index = 0\<rparr>"])
      (use that fresh(3) grow(3) in \<open>simp_all add: k same_collected_def symbol_ok_def map_le_fresh\<close>)
qed

text \<open>What adding a relocation does to the state.\<close>

definition with_reloc :: "u32 \<Rightarrow> u32 \<Rightarrow> u32 \<Rightarrow> cstate \<Rightarrow> cstate" where
  "with_reloc t a y c = c\<lparr>c_relocs := c_relocs c @ [\<lparr>rl_type = t, rl_addr = a, rl_symbol = y\<rparr>]\<rparr>"

definition with_symbol :: "u32 \<Rightarrow> string \<Rightarrow> cstate \<Rightarrow> cstate" where
  "with_symbol k n c = c\<lparr>c_symbols := c_symbols c @ [\<lparr>cs_type = k, cs_name = n, cs_index = 0\<rparr>]\<rparr>"

lemma add_reloc_run:
  "t \<in> RELOC_KINDS \<Longrightarrow> add_reloc t a n c = (Done (), with_reloc t a 0 c)"
  "t \<in> {0, 1, 4, 5} \<Longrightarrow> add_reloc (t OR 256) a n c = (Done (), case c_extern_funs c n of
     Some y \<Rightarrow> with_reloc (t OR 256) a y c
   | None \<Rightarrow> let i = of_nat (length (c_symbols c)) in with_reloc (t OR 256) a i (with_symbol 0 n (c\<lparr>c_extern_funs := (c_extern_funs c)(n \<mapsto> i)\<rparr>)))"
  "t \<in> {2, 3} \<Longrightarrow> add_reloc (t OR 256) a n c = (Done (), case c_extern_vars c n of
     Some y \<Rightarrow> with_reloc (t OR 256) a y c
   | None \<Rightarrow> let i = of_nat (length (c_symbols c)) in with_reloc (t OR 256) a i (with_symbol 1 n (c\<lparr>c_extern_vars := (c_extern_vars c)(n \<mapsto> i)\<rparr>)))"
  "t \<in> {6, 7, 8, 9} \<Longrightarrow> add_reloc (t OR 256) a n c = (Done (), case c_extern_native_funs c n of
     Some y \<Rightarrow> with_reloc (t OR 256) a y c
   | None \<Rightarrow> let i = of_nat (length (c_symbols c)) in with_reloc (t OR 256) a i (with_symbol 2 n (c\<lparr>c_extern_native_funs := (c_extern_native_funs c)(n \<mapsto> i)\<rparr>)))"
  by (elim insertE emptyE; simp add: add_reloc_def push_reloc_def add_symbol_def with_reloc_def with_symbol_def Let_def run split: option.split)+

lemma with_reloc_adds:
  assumes "comp_inv D c" "c_relocatable c" "t \<in> RELOC_TYPES" "t AND 256 \<noteq> 0 \<Longrightarrow> unat y < length (c_symbols c)"
  shows "adds D (Suc 0, S) c (with_reloc t a y c)"
  using comp_inv_push_reloc [OF assms, of a] by (auto simp: adds_def same_collected_def with_reloc_def)

lemma with_symbol_adds:
  assumes "comp_inv D c" "c_relocatable c"
  shows "map_of (c_fun_pairs c) n = None \<Longrightarrow> c_extern_funs c n = None \<Longrightarrow>
      adds D (0, {(0, n)}) c (with_symbol 0 n (c\<lparr>c_extern_funs := (c_extern_funs c)(n \<mapsto> of_nat (length (c_symbols c)))\<rparr>))"
    "map_of (c_var_pairs c) n = None \<Longrightarrow> c_extern_vars c n = None \<Longrightarrow>
      adds D (0, {(1, n)}) c (with_symbol 1 n (c\<lparr>c_extern_vars := (c_extern_vars c)(n \<mapsto> of_nat (length (c_symbols c)))\<rparr>))"
    "c_extern_native_funs c n = None \<Longrightarrow>
      adds D (0, {(2, n)}) c (with_symbol 2 n (c\<lparr>c_extern_native_funs := (c_extern_native_funs c)(n \<mapsto> of_nat (length (c_symbols c)))\<rparr>))"
proof -
  note ext = comp_inv_extern [OF assms unat_of_nat_le, of n]
  show "adds D (0, {(0, n)}) c (with_symbol 0 n (c\<lparr>c_extern_funs := (c_extern_funs c)(n \<mapsto> of_nat (length (c_symbols c)))\<rparr>))"
    if "map_of (c_fun_pairs c) n = None" "c_extern_funs c n = None"
    using ext(1) [OF that] by (simp add: adds_def same_collected_def with_symbol_def symbol_key_def)
  show "adds D (0, {(1, n)}) c (with_symbol 1 n (c\<lparr>c_extern_vars := (c_extern_vars c)(n \<mapsto> of_nat (length (c_symbols c)))\<rparr>))"
    if "map_of (c_var_pairs c) n = None" "c_extern_vars c n = None"
    using ext(2) [OF that] by (simp add: adds_def same_collected_def with_symbol_def symbol_key_def)
  show "adds D (0, {(2, n)}) c (with_symbol 2 n (c\<lparr>c_extern_native_funs := (c_extern_native_funs c)(n \<mapsto> of_nat (length (c_symbols c)))\<rparr>))"
    if "c_extern_native_funs c n = None"
    using ext(3) [OF that] by (simp add: adds_def same_collected_def with_symbol_def symbol_key_def)
qed

lemma extern_bound:
  assumes "comp_inv D c"
  shows "c_extern_funs c n = Some y \<Longrightarrow> unat y < length (c_symbols c)" "c_extern_vars c n = Some y \<Longrightarrow> unat y < length (c_symbols c)"
    "c_extern_native_funs c n = Some y \<Longrightarrow> unat y < length (c_symbols c)"
  using assms by (auto simp: comp_inv_def externs_ok_def)

lemma with_symbol_reloc_adds:
  assumes "adds D (0, S) c (with_symbol k n d)" "c_relocatable c" "t \<in> RELOC_TYPES" "length (c_symbols d) = length (c_symbols c)"
  shows "adds D (Suc 0, S) c (with_reloc t a (of_nat (length (c_symbols c))) (with_symbol k n d))"
proof -
  have "adds D (Suc 0, {}) (with_symbol k n d) (with_reloc t a (of_nat (length (c_symbols c))) (with_symbol k n d))"
    by (rule with_reloc_adds) (use assms unat_of_nat_le in \<open>auto simp: adds_def same_collected_def with_symbol_def\<close>)
  from adds_trans [OF assms(1) this] show ?thesis by simp
qed

lemma gen_run:
  assumes "\<And>c. same_collected c0 c \<Longrightarrow> comp_inv D c \<Longrightarrow> \<exists>t. m c = (Done x, t) \<and> adds D nd c t \<and> c_errors t = c_errors c" "Q x"
  shows "gen D c0 K nd (plain Q) m"
  using assms by (fastforce simp: gen_def wpx_def plain_def)

lemma gen_add_reloc:
  assumes "c_relocatable c0"
  shows "t \<in> RELOC_KINDS \<Longrightarrow> gen D c0 K (1, {}) (plain (\<lambda>_. True)) (add_reloc t a n)"
    "t \<in> {0, 1, 4, 5} \<Longrightarrow> map_of (c_fun_pairs c0) n = None \<Longrightarrow> gen D c0 K (1, {(0, n)}) (plain (\<lambda>_. True)) (add_reloc (t OR 256) a n)"
    "t \<in> {2, 3} \<Longrightarrow> map_of (c_var_pairs c0) n = None \<Longrightarrow> gen D c0 K (1, {(1, n)}) (plain (\<lambda>_. True)) (add_reloc (t OR 256) a n)"
    "t \<in> {6, 7, 8, 9} \<Longrightarrow> gen D c0 K (1, {(2, n)}) (plain (\<lambda>_. True)) (add_reloc (t OR 256) a n)"
proof -
  have e: "c_errors (with_reloc t a y c) = c_errors c" "c_errors (with_symbol k n c) = c_errors c" for t a y c k n
    by (simp_all add: with_reloc_def with_symbol_def)
  have rel: "c_relocatable c" if "same_collected c0 c" for c using that assms by (simp add: same_collected_def)
  show "gen D c0 K (1, {}) (plain (\<lambda>_. True)) (add_reloc t a n)" if "t \<in> RELOC_KINDS"
    by (rule gen_run) (use that rel in \<open>auto simp: add_reloc_run e intro!: with_reloc_adds\<close>)
  show "gen D c0 K (1, {(0, n)}) (plain (\<lambda>_. True)) (add_reloc (t OR 256) a n)" if t: "t \<in> {0, 1, 4, 5}" and n: "map_of (c_fun_pairs c0) n = None"
  proof (rule gen_run)
    fix c assume c: "same_collected c0 c" "comp_inv D c"
    have tt: "t OR 256 \<in> RELOC_TYPES" using t by auto
    show "\<exists>s. add_reloc (t OR 256) a n c = (Done (), s) \<and> adds D (1, {(0, n)}) c s \<and> c_errors s = c_errors c"
      using with_reloc_adds [OF c(2) rel [OF c(1)] tt] extern_bound(1) [OF c(2)] n c(1)
        with_symbol_reloc_adds [OF with_symbol_adds(1) [OF c(2) rel [OF c(1)]] rel [OF c(1)] tt]
      by (auto simp: add_reloc_run(2) [OF t] e same_collected_def Let_def split: option.split)
  qed simp
  show "gen D c0 K (1, {(1, n)}) (plain (\<lambda>_. True)) (add_reloc (t OR 256) a n)" if t: "t \<in> {2, 3}" and n: "map_of (c_var_pairs c0) n = None"
  proof (rule gen_run)
    fix c assume c: "same_collected c0 c" "comp_inv D c"
    have tt: "t OR 256 \<in> RELOC_TYPES" using t by auto
    show "\<exists>s. add_reloc (t OR 256) a n c = (Done (), s) \<and> adds D (1, {(1, n)}) c s \<and> c_errors s = c_errors c"
      using with_reloc_adds [OF c(2) rel [OF c(1)] tt] extern_bound(2) [OF c(2)] n c(1)
        with_symbol_reloc_adds [OF with_symbol_adds(2) [OF c(2) rel [OF c(1)]] rel [OF c(1)] tt]
      by (auto simp: add_reloc_run(3) [OF t] e same_collected_def Let_def split: option.split)
  qed simp
  show "gen D c0 K (1, {(2, n)}) (plain (\<lambda>_. True)) (add_reloc (t OR 256) a n)" if t: "t \<in> {6, 7, 8, 9}"
  proof (rule gen_run)
    fix c assume c: "same_collected c0 c" "comp_inv D c"
    have tt: "t OR 256 \<in> RELOC_TYPES" using t by auto
    show "\<exists>s. add_reloc (t OR 256) a n c = (Done (), s) \<and> adds D (1, {(2, n)}) c s \<and> c_errors s = c_errors c"
      using with_reloc_adds [OF c(2) rel [OF c(1)] tt] extern_bound(3) [OF c(2)] c(1)
        with_symbol_reloc_adds [OF with_symbol_adds(3) [OF c(2) rel [OF c(1)]] rel [OF c(1)] tt]
      by (auto simp: add_reloc_run(4) [OF t] e same_collected_def Let_def split: option.split)
  qed simp
qed

end
