(* ===== verification/Comp_Parts.thy ===== *)
theory Comp_Parts
  imports Comp_Gen
begin

unbundle bit_operations_syntax

text \<open>
  The parts of the second half of the compiler keep the invariant: no part does anything undefined, each reports
  an error just when it does not succeed, and adds no more relocations and symbols than the size of the buffer
  was computed for.
\<close>

section \<open>What arguments, instructions and values need\<close>

definition arg_symbols :: "cstate \<Rightarrow> carg \<Rightarrow> (u32 \<times> string) set" where
  "arg_symbols c a = Pair 0 ` set (fun_name_of_arg c a) \<union> Pair 1 ` set (var_name_of_arg c a) \<union> Pair 2 ` set (native_fun_name_of_arg a)"

definition arg_relocs :: "carg \<Rightarrow> nat" where
  "arg_relocs a = reloc_size_from_arg a div 12"

definition args_needs :: "cstate \<Rightarrow> carg list \<Rightarrow> needs" where
  "args_needs c as = (sum_list (map arg_relocs as), \<Union> (arg_symbols c ` set as))"

lemma arg_needs_simps [simp]:
  "arg_symbols c (AImm (AVFun n) p) = (if map_of (c_fun_pairs c) n = None then {(0, n)} else {})"
  "arg_symbols c (AImm (AVNativeFun n) p) = {(2, n)}" "arg_symbols c (AIdent n p) = (if map_of (c_var_pairs c) n = None then {(1, n)} else {})"
  "arg_relocs (AImm (AVFun n) p) = 1" "arg_relocs (AImm (AVNativeFun n) p) = 1" "arg_relocs (AIdent n p) = 1"
  by (auto simp: arg_symbols_def fun_name_of_arg_def var_name_of_arg_def native_fun_name_of_arg_def arg_relocs_def)

definition value_symbols :: "cstate \<Rightarrow> cvalue \<Rightarrow> (u32 \<times> string) set" where
  "value_symbols c v = (case v of
     CFun n _ \<Rightarrow> if map_of (c_fun_pairs c) n = None then {(0, n)} else {} | CNativeFun n _ \<Rightarrow> {(2, n)} | _ \<Rightarrow> {})"

definition value_relocs :: "cvalue \<Rightarrow> nat" where
  "value_relocs v = (if is_fun_value v then 1 else 0)"

definition values_needs :: "cstate \<Rightarrow> cvalue list \<Rightarrow> needs" where
  "values_needs c vs = (sum_list (map value_relocs vs), \<Union> (value_symbols c ` set vs))"

lemma frame_map_of: "same_collected c0 c \<Longrightarrow> c_relocatable c = c_relocatable c0 \<and> map_of (c_fun_pairs c) = map_of (c_fun_pairs c0) \<and>
    map_of (c_var_pairs c) = map_of (c_var_pairs c0)"
  by (simp add: same_collected_def)

text \<open>Nothing in the way of a part that does nothing but succeed.\<close>

abbreviation (input) any :: "'a \<Rightarrow> bool" where "any \<equiv> \<lambda>_. True"

lemma gen_then_ret:
  assumes "gen D c0 K nd (plain R) m" "\<And>x. R x \<Longrightarrow> Q (g x)"
  shows "gen D c0 K nd (plain Q) (bindM m (\<lambda>x. ret (g x)))"
proof -
  have "gen D c0 K (fst nd + 0, snd nd \<union> {}) (plain Q) (bindM m (\<lambda>x. ret (g x)))"
    by (rule gen_plain_bind [where R = R]) (auto intro: gen_plain_ret assms)
  then show ?thesis by simp
qed

lemma gen_seq_ret: "gen D c0 K nd (plain any) m \<Longrightarrow> Q x \<Longrightarrow> gen D c0 K nd (plain Q) (seqM m (ret x))"
  unfolding seqM_def by (rule gen_then_ret) auto

lemma gen_when: "(b \<Longrightarrow> gen D c0 K nd (plain any) m) \<Longrightarrow> gen D c0 K nd (plain any) (whenM b m)"
  by (cases b) (simp_all add: whenM_def gen_plain_ret)

lemma gen_le: "gen D c0 K (n, S) E m \<Longrightarrow> n \<le> n' \<Longrightarrow> S \<subseteq> S' \<Longrightarrow> gen D c0 K (n', S') E m"
  by (rule gen_mono) auto

section \<open>Indexes\<close>

lemma gen_fun_index:
  assumes "rt \<in> {0, 1, 4, 5}"
  shows "gen D c0 K (1, if map_of (c_fun_pairs c0) n = None then {(0, n)} else {}) (plain any) (get_fun_index_and_add_reloc n rt a p)"
  unfolding get_fun_index_and_add_reloc_def
proof (rule gen_reading_bind, goal_cases)
  case (1 c)
  note f = frame_map_of [OF 1(1)]
  show ?case
  proof (cases "map_of (c_fun_pairs c0) n")
    case None
    then show ?thesis
      using f gen_add_reloc(2) [OF _ assms None, of D K a]
      by (auto intro!: gen_seq_ret gen_error)
  next
    case (Some x)
    have "rt \<in> RELOC_KINDS" using assms by auto
    then show ?thesis
      using f Some gen_add_reloc(1) [of c0 rt D K a "[]"]
      by (auto split: prod.split intro!: gen_seq_ret gen_when)
  qed
qed

lemma gen_var_index:
  assumes "rt \<in> {2, 3}"
  shows "gen D c0 K (1, if map_of (c_var_pairs c0) n = None then {(1, n)} else {}) (plain any) (get_var_index_and_add_reloc n rt a p)"
  unfolding get_var_index_and_add_reloc_def
proof (rule gen_reading_bind, goal_cases)
  case (1 c)
  note f = frame_map_of [OF 1(1)]
  show ?case
  proof (cases "map_of (c_var_pairs c0) n")
    case None
    then show ?thesis
      using f gen_add_reloc(3) [OF _ assms None, of D K a]
      by (auto intro!: gen_seq_ret gen_error)
  next
    case (Some x)
    have "rt \<in> RELOC_KINDS" using assms by auto
    then show ?thesis
      using f Some gen_add_reloc(1) [of c0 rt D K a "[]"]
      by (auto split: prod.split intro!: gen_seq_ret gen_when)
  qed
qed

lemma gen_native_fun_index:
  assumes "rt \<in> {6, 7, 8, 9}"
  shows "gen D c0 K (1, {(2, n)}) (plain any) (get_native_fun_index_and_add_reloc n rt a p)"
  unfolding get_native_fun_index_and_add_reloc_def
proof (rule gen_reading_bind, goal_cases)
  case (1 c)
  then show ?case
    using frame_map_of [OF 1(1)] gen_add_reloc(4) [OF _ assms] by (auto intro!: gen_seq_ret gen_error)
qed

section \<open>Arguments and instructions\<close>

lemma gen_imm:
  "gen D c0 K (arg_relocs (AImm v q), arg_symbols c0 (AImm v q)) (plain any) (imm_to_format_arg F v vt pc is_first p)"
proof (cases v)
  case (AVFun n)
  have "(if is_first then 0 else 1) \<in> {0, 1, 4, 5 :: u32}" by simp
  from gen_fun_index [OF this, of D c0 K n pc p] show ?thesis
    by (auto simp: AVFun imm_to_format_arg_def
        intro: gen_error)
next
  case (AVNativeFun n)
  have "(if is_first then 6 else 7) \<in> {6, 7, 8, 9 :: u32}" by simp
  from gen_native_fun_index [OF this, of D c0 K n pc p] show ?thesis
    by (auto simp: AVNativeFun imm_to_format_arg_def
        intro: gen_error)
qed (auto simp: imm_to_format_arg_def intro: gen_error gen_plain_ret)

lemma gen_arg: "gen D c0 K (arg_relocs a, arg_symbols c0 a) (plain any) (arg_to_format_arg F a vt pc is_first p)"
proof (cases "vt = VALUE_TYPE_ERROR")
  case False
  show ?thesis
  proof (cases a)
    case (AImm v q)
    then show ?thesis using False gen_imm [of D c0 K v q] by (auto simp: arg_to_format_arg_def intro!: gen_then_ret)
  next
    case (AIdent n q)
    have "(if is_first then 2 else 3) \<in> {2, 3 :: u32}" by simp
    from gen_var_index [OF this, of D c0 K n pc q] show ?thesis
      using False by (auto simp: AIdent arg_to_format_arg_def intro!: gen_then_ret)
  qed (use False in \<open>auto simp: arg_to_format_arg_def intro: gen_plain_ret\<close>)
qed (auto simp: arg_to_format_arg_def intro: gen_error)

definition optional_needs :: "cstate \<Rightarrow> carg option \<Rightarrow> needs" where
  "optional_needs c a = args_needs c (case a of None \<Rightarrow> [] | Some x \<Rightarrow> [x])"

lemma optional_needs_simps [simp]: "optional_needs c None = (0, {})" "optional_needs c (Some a) = (arg_relocs a, arg_symbols c a)"
  by (simp_all add: optional_needs_def args_needs_def)

lemma gen_fail: "E None False \<Longrightarrow> gen D c0 K nd E fail"
  by (simp add: gen_def wpx_rules adds_refl)

lemma gen_note: "E (Some x) True \<Longrightarrow> gen D c0 K nd E (seqM (report p msg) (ret x))"
  by (simp add: gen_def report_def wpx_rules adds_def same_collected_def)

lemma gen_attempt_arg:
  "gen D c0 K (arg_relocs a, arg_symbols c0 a) (noted (\<lambda>x. x \<noteq> None) any) (attempt (arg_to_format_arg F a vt pc is_first p))"
  by (rule gen_mono [OF gen_attempt [OF gen_arg [of D c0 K a F vt pc is_first p]]]) (auto simp: noted_def split: option.splits)

lemma noted_Some [simp]: "noted ok Q (Some y) g \<longleftrightarrow> Q y \<and> (g \<longleftrightarrow> \<not> ok y)"
  and noted_None [simp]: "\<not> noted ok Q None g" and plain_Some [simp]: "plain Q (Some y) g \<longleftrightarrow> Q y \<and> \<not> g" and plain_None [simp]: "plain Q None g \<longleftrightarrow> g"
  by (simp_all add: noted_def plain_def)

lemma gen_noted_ret:
  assumes "gen D c0 K nd (noted ok Q) m" "\<And>x. Q x \<Longrightarrow> Q' (h x) \<and> (ok' (h x) \<longleftrightarrow> ok x)"
  shows "gen D c0 K nd (noted ok' Q') (bindM m (\<lambda>x. ret (h x)))"
proof -
  have "gen D c0 K (fst nd + 0, snd nd \<union> {}) (noted ok' Q') (bindM m (\<lambda>x. ret (h x)))"
    by (rule gen_bind [where ?E1.0 = "noted ok Q"]) (use assms in \<open>auto intro!: gen_ret\<close>)
  then show ?thesis by simp
qed

lemma gen_generate_arg1:
  "gen D c0 K (optional_needs c0 (ci_arg1 x)) (noted (\<lambda>r. fst r \<noteq> None) (\<lambda>r. snd r \<noteq> None \<longrightarrow> ci_arg2 x = None)) (generate_arg1 F x desc pc)"
proof (cases "ci_arg1 x")
  case None
  then show ?thesis by (auto simp: generate_arg1_def intro!: gen_ret gen_note)
next
  case (Some a)
  have arg: "gen D c0 K (arg_relocs a, arg_symbols c0 a) (noted (\<lambda>r. fst r \<noteq> None) (\<lambda>r. snd r \<noteq> None \<longrightarrow> ci_arg2 x = None))
      (bindM (attempt (arg_to_format_arg F a (fst (snd desc)) pc True (ci_pos x))) (\<lambda>r. ret (r, None)))"
    by (rule gen_noted_ret [OF gen_attempt_arg]) auto
  show ?thesis
    by (cases a) (use Some arg in \<open>auto simp: generate_arg1_def Let_def split: option.split arg_value.split intro!: gen_ret gen_note\<close>)
qed

lemma gen_generate_arg2:
  "gen D c0 K (optional_needs c0 (ci_arg2 x)) (noted (\<lambda>r. r \<noteq> None) any) (generate_arg2 F x desc pc low)"
  by (auto simp: generate_arg2_def simp del: not_None_eq intro!: gen_ret gen_note gen_attempt_arg split: option.split)

lemma gen_local_var_count: "gen D c0 K nd (noted (\<lambda>r. r \<noteq> None) any) (generate_local_var_count x oi)"
  by (auto simp: generate_local_var_count_def intro!: gen_ret gen_note split: option.split)

lemma gen_with_op:
  "gen D c0 K (fst (optional_needs c0 (ci_arg1 x)) + fst (optional_needs c0 (ci_arg2 x)), snd (optional_needs c0 (ci_arg1 x)) \<union> snd (optional_needs c0 (ci_arg2 x)))
     (plain any) (generate_instr_with_op F addr pc x oi)"
proof -
  obtain n1 S1 n2 S2 where nd: "optional_needs c0 (ci_arg1 x) = (n1, S1)" "optional_needs c0 (ci_arg2 x) = (n2, S2)" by fastforce
  have "gen D c0 K (n1 + (n2 + (0 + 0)), S1 \<union> (S2 \<union> ({} \<union> {}))) (plain any)
      (bindM (generate_arg1 F x desc (pc + addr)) (\<lambda>(r1, low).
       bindM (generate_arg2 F x desc (pc + addr) low) (\<lambda>r2.
       bindM (generate_local_var_count x oi) (\<lambda>n.
       case (r1, r2, n) of
         (Some (a1, t1), Some (a2, t2), Some k) \<Rightarrow> ret (\<lparr>i_opcode = opcode oi (fst desc) t1 t2 k, i_arg1 = a1, i_arg2 = a2\<rparr> :: instruction)
       | _ \<Rightarrow> fail))))" for desc
    apply (rule gen_bind [OF gen_generate_arg1 [of D c0 K x, unfolded nd]])
    subgoal for r g
      apply (cases r, simp only: prod.case)
      apply (rule gen_bind [OF gen_generate_arg2 [of D c0 K x, unfolded nd]])
      subgoal for r2 g2
        apply (rule gen_bind [OF gen_local_var_count])
        subgoal by (auto split: option.split intro!: gen_ret gen_fail)
        subgoal by simp
        done
      subgoal by simp
      done
    subgoal by simp
    done
  then show ?thesis
    by (auto simp: generate_instr_with_op_def nd split: option.split intro: gen_error)
qed

lemma gen_instr_without_op: "gen D c0 K nd (plain any) (generate_instr_without_op x oi)"
  by (auto simp: generate_instr_without_op_def intro!: gen_error gen_plain_ret)

lemma gen_get_instr_addr: "gen D c0 K nd (plain any) (get_instr_addr labels n p)"
  by (auto simp: get_instr_addr_def intro!: gen_error gen_plain_ret split: option.split)

lemma gen_plain_note:
  "gen D c0 K nd (plain any) m \<Longrightarrow> gen D c0 K nd (noted (\<lambda>x. x \<noteq> None) any) (attempt m)"
  by (cases nd, simp only:, erule gen_mono [OF gen_attempt]) (auto simp: noted_def split: option.splits)

lemma gen_plain_then:
  assumes "gen D c0 K nd (plain R) m" "\<And>x. R x \<Longrightarrow> gen D c0 K (0, {}) (plain Q) (f x)"
  shows "gen D c0 K nd (plain Q) (bindM m f)"
proof -
  have "gen D c0 K (fst nd + 0, snd nd \<union> {}) (plain Q) (bindM m f)"
    by (rule gen_plain_bind [where R = R]) (use assms in auto)
  then show ?thesis by simp
qed

lemma gen_generate_jc: "gen D c0 K (optional_needs c0 (ci_arg1 x)) (plain any) (generate_jc F labels addr pc x)"
proof -
  obtain n S where nd: "optional_needs c0 (ci_arg1 x) = (n, S)" by fastforce
  have 1: "gen D c0 K (n, S) (noted (\<lambda>x. x \<noteq> None) any) (attempt (case ci_arg1 x of
      Some a \<Rightarrow> arg_to_format_arg F a VALUE_TYPE_INT (pc + addr) True (ci_pos x)
    | None \<Rightarrow> comp_error (ci_pos x) ''incorrect number of arguments''))"
    by (rule gen_plain_note) (use nd gen_arg gen_error in \<open>fastforce split: option.split\<close>)
  have 2: "gen D c0 K (0, {}) (noted (\<lambda>x. x \<noteq> None) any) (attempt (case ci_arg2 x of
      Some (AIdent n p) \<Rightarrow> get_instr_addr labels n p
    | Some a \<Rightarrow> comp_error (arg_pos a) ''argument isn't label''
    | None \<Rightarrow> comp_error (ci_pos x) ''incorrect number of arguments''))"
    by (rule gen_plain_note) (auto intro: gen_get_instr_addr gen_error split: option.split carg.split)
  have "gen D c0 K (n + (0 + 0), S \<union> ({} \<union> {})) (plain any) (bindM (attempt (case ci_arg1 x of
            Some a \<Rightarrow> arg_to_format_arg F a VALUE_TYPE_INT (pc + addr) True (ci_pos x)
          | None \<Rightarrow> comp_error (ci_pos x) ''incorrect number of arguments'')) (\<lambda>r1.
        bindM (attempt (case ci_arg2 x of
            Some (AIdent n p) \<Rightarrow> get_instr_addr labels n p
          | Some a \<Rightarrow> comp_error (arg_pos a) ''argument isn't label''
          | None \<Rightarrow> comp_error (ci_pos x) ''incorrect number of arguments'')) (\<lambda>r2.
        case (r1, r2) of
          (Some (a, t), Some l) \<Rightarrow> ret (\<lparr>i_opcode = opcode INSTR_JC 0 t ARG_TYPE_IMM 2, i_arg1 = a, i_arg2 = l - (pc + 1)\<rparr> :: instruction)
        | _ \<Rightarrow> fail)))"
    apply (rule gen_bind [OF 1])
    subgoal
      apply (rule gen_bind [OF 2])
      subgoal by (auto split: option.split intro!: gen_ret gen_fail)
      subgoal by simp
      done
    subgoal by simp
    done
  then show ?thesis by (auto simp: generate_jc_def nd intro: gen_error)
qed

lemma gen_generate_jump: "gen D c0 K nd (plain any) (generate_jump labels pc x)"
  by (auto simp: generate_jump_def intro!: gen_error gen_plain_ret gen_plain_then [OF gen_get_instr_addr] split: option.split carg.split)

lemma gen_throw: "gen D c0 K (optional_needs c0 (ci_arg1 x)) (plain any) (generate_throw_or_rethrow F addr pc x oi)"
  by (auto simp: generate_throw_or_rethrow_def simp del: not_None_eq intro!: gen_error gen_plain_ret gen_plain_then [OF gen_arg]
      split: option.split)

lemma gen_pop: "gen D c0 K nd (plain any) (generate_pop x)"
  by (auto simp: generate_pop_def intro!: gen_error gen_plain_ret split: option.split carg.split)

lemma reloc_args_needs:
  "ci_instr x \<in> {''let'', ''arg'', ''ret'', ''lettuple'', ''push''} \<Longrightarrow> args_needs c (reloc_args x) =
     (fst (optional_needs c (ci_arg1 x)) + fst (optional_needs c (ci_arg2 x)), snd (optional_needs c (ci_arg1 x)) \<union> snd (optional_needs c (ci_arg2 x)))"
  "ci_instr x \<in> {''jc'', ''throw'', ''rethrow''} \<Longrightarrow> args_needs c (reloc_args x) = optional_needs c (ci_arg1 x)"
  by (auto simp: args_needs_def optional_needs_def reloc_args_def split: option.split)

lemma gen_instr: "gen D c0 K (args_needs c0 (reloc_args x)) (plain any) (generate_instr F labels addr pc x)"
proof -
  note defs = generate_instr_def Let_def
  consider "ci_instr x \<in> {''let'', ''arg'', ''ret'', ''lettuple'', ''push''}" | "ci_instr x \<in> {''jc'', ''throw'', ''rethrow''}"
    | "ci_instr x \<notin> {''let'', ''arg'', ''ret'', ''lettuple'', ''push'', ''jc'', ''throw'', ''rethrow''}" by blast
  then show ?thesis
  proof cases
    case 1
    have "gen D c0 K (args_needs c0 (reloc_args x)) (plain any) (generate_instr_with_op F addr pc x oi)" for oi
      unfolding reloc_args_needs(1) [OF 1] by (rule gen_with_op)
    then show ?thesis using 1 by (elim insertE emptyE; simp add: defs)
  next
    case 2
    then show ?thesis by (elim insertE emptyE; simp add: defs reloc_args_needs(2) gen_generate_jc gen_throw)
  next
    case 3
    then show ?thesis by (auto simp: defs intro!: gen_generate_jump gen_pop gen_instr_without_op gen_error)
  qed
qed

section \<open>Functions\<close>

definition add_needs :: "needs \<Rightarrow> needs \<Rightarrow> needs" where
  "add_needs a b = (fst a + fst b, snd a \<union> snd b)"

definition sum_needs :: "needs list \<Rightarrow> needs" where
  "sum_needs nds = (sum_list (map fst nds), \<Union> (set (map snd nds)))"

lemma sum_needs_simps [simp]: "sum_needs [] = (0, {})" "sum_needs (nd # nds) = add_needs nd (sum_needs nds)"
  by (simp_all add: sum_needs_def add_needs_def)

lemma add_needs_zero [simp]: "add_needs nd (0, {}) = nd" "add_needs (0, {}) nd = nd"
  by (simp_all add: add_needs_def)

lemma gen_bind_needs:
  assumes "gen D c0 K nd1 E1 m" "\<And>x g. E1 (Some x) g \<Longrightarrow> gen D c0 K nd2 (\<lambda>y g2. E y (g \<or> g2)) (f x)" "\<And>g. E1 None g \<Longrightarrow> E None g"
  shows "gen D c0 K (add_needs nd1 nd2) E (bindM m f)"
  unfolding add_needs_def by (rule gen_bind [where ?E1.0 = E1]) (use assms in auto)

lemma gen_noted_pair:
  assumes "gen D c0 K nd1 (noted ok1 Q1) m" "\<And>r. Q1 r \<Longrightarrow> gen D c0 K nd2 (noted ok2 (Q2 r)) (g r)"
    "\<And>r s. Q1 r \<Longrightarrow> Q2 r s \<Longrightarrow> Q (h r s) \<and> (ok (h r s) \<longleftrightarrow> ok1 r \<and> ok2 s)"
  shows "gen D c0 K (add_needs nd1 nd2) (noted ok Q) (bindM m (\<lambda>r. bindM (g r) (\<lambda>s. ret (h r s))))"
proof (rule gen_bind_needs [OF assms(1)])
  fix r b assume r: "noted ok1 Q1 (Some r) b"
  have "gen D c0 K (add_needs nd2 (0, {})) (\<lambda>y b2. noted ok Q y (b \<or> b2)) (bindM (g r) (\<lambda>s. ret (h r s)))"
    by (rule gen_bind_needs [OF assms(2)]) (use r assms(3) [of r] in \<open>auto intro!: gen_ret\<close>)
  then show "gen D c0 K nd2 (\<lambda>y b2. noted ok Q y (b \<or> b2)) (bindM (g r) (\<lambda>s. ret (h r s)))" by simp
qed simp

lemma gen_collectM:
  assumes "\<And>x. x \<in> set xs \<Longrightarrow> gen D c0 K (nd x) (noted ok (Q x)) (f x)"
  shows "gen D c0 K (sum_needs (map nd xs)) (noted (list_all ok) (list_all2 Q xs)) (collectM f xs)"
  using assms
proof (induction xs)
  case (Cons x xs)
  have ih: "gen D c0 K (sum_needs (map nd xs)) (noted (list_all ok) (list_all2 Q xs)) (collectM f xs)" by (rule Cons.IH) (simp add: Cons.prems)
  have "gen D c0 K (add_needs (nd x) (sum_needs (map nd xs))) (noted (list_all ok) (list_all2 Q (x # xs)))
      (bindM (f x) (\<lambda>y. bindM (collectM f xs) (\<lambda>ys. ret (y # ys))))"
    by (rule gen_noted_pair [OF Cons.prems ih]) auto
  then show ?case by simp
qed (auto intro!: gen_ret)

definition fun_needs :: "cstate \<Rightarrow> cfun \<Rightarrow> needs" where
  "fun_needs c f = sum_needs (map (\<lambda>x. args_needs c (reloc_args x)) (fun_instrs f))"

text \<open>An error is noted, and the rest goes on.\<close>

lemma gen_note_and_go_on:
  assumes "gen D c0 K nd (noted snd any) m"
  shows "gen D c0 K nd (noted snd any) (seqM (report p msg) (bindM m (\<lambda>(x, b). ret (x, False))))"
proof -
  have "gen D c0 K (add_needs nd (0, {})) (\<lambda>y g. noted snd any y (True \<or> g)) (bindM m (\<lambda>(x, b). ret (x, False)))"
    by (rule gen_bind_needs [OF assms]) (auto intro!: gen_ret split: prod.split)
  then have 1: "gen D c0 K nd (\<lambda>y g. noted snd any y (True \<or> g)) (bindM m (\<lambda>(x, b). ret (x, False)))" by simp
  have "gen D c0 K (add_needs (0, {}) nd) (noted snd any) (seqM (report p msg) (bindM m (\<lambda>(x, b). ret (x, False))))"
    unfolding seqM_def by (rule gen_bind_needs [where ?E1.0 = "\<lambda>x g. x \<noteq> None \<and> g"]) (use 1 in \<open>auto intro: gen_report\<close>)
  then show ?thesis by simp
qed

lemma gen_collect_labels: "gen D c0 K (0, {}) (noted snd any) (collect_labels ls k labels)"
proof (induction ls arbitrary: k labels)
  case (Cons l ls)
  then show ?case by (auto simp: Let_def intro!: gen_note_and_go_on split: option.split)
qed (auto intro!: gen_ret)

lemma sum_needs_enumerate: "sum_needs (map (\<lambda>(k, x). nd x) (enumerate n xs)) = sum_needs (map nd xs)"
  by (induction xs arbitrary: n) auto

lemma gen_generate_fun:
  "gen D c0 K (fun_needs c0 f) (noted snd (\<lambda>(xs, ok). length xs = length (fun_instrs f) \<and> (ok \<longrightarrow> None \<notin> set xs))) (generate_fun F addr f)"
proof -
  have instrs: "gen D c0 K (fun_needs c0 f) (noted (list_all (\<lambda>x. x \<noteq> None)) (\<lambda>xs. length xs = length (fun_instrs f)))
      (collectM (\<lambda>(k, x). attempt (generate_instr F labels (of_nat addr) (of_nat k) x)) (enumerate 0 (fun_instrs f)))" for labels
  proof -
    have "gen D c0 K (sum_needs (map (\<lambda>(k, x). args_needs c0 (reloc_args x)) (enumerate 0 (fun_instrs f))))
        (noted (list_all (\<lambda>x. x \<noteq> None)) (list_all2 (\<lambda>_. any) (enumerate 0 (fun_instrs f))))
        (collectM (\<lambda>(k, x). attempt (generate_instr F labels (of_nat addr) (of_nat k) x)) (enumerate 0 (fun_instrs f)))"
      by (rule gen_collectM) (auto intro!: gen_plain_note gen_instr simp del: not_None_eq)
    then show ?thesis
      unfolding fun_needs_def sum_needs_enumerate
      by (cases "sum_needs (map (\<lambda>x. args_needs c0 (reloc_args x)) (fun_instrs f))")
        (simp only:, erule gen_mono, auto simp: noted_def dest: list_all2_lengthD split: option.splits)
  qed
  have "gen D c0 K (add_needs (0, {}) (fun_needs c0 f)) (noted snd (\<lambda>(xs, ok). length xs = length (fun_instrs f) \<and> (ok \<longrightarrow> None \<notin> set xs)))
     (generate_fun F addr f)"
    unfolding generate_fun_def case_prod_beta by (rule gen_noted_pair [OF gen_collect_labels instrs [unfolded case_prod_beta]]) (auto simp: list_all_iff; metis not_None_eq)+
  then show ?thesis by simp
qed

definition funs_needs :: "cstate \<Rightarrow> (string \<times> u32 \<times> cfun) list \<Rightarrow> needs" where
  "funs_needs c fs = sum_needs (map (\<lambda>(n, i, f). fun_needs c f) fs)"

abbreviation (input) funs_code_size :: "(string \<times> u32 \<times> cfun) list \<Rightarrow> nat" where
  "funs_code_size fs \<equiv> sum_list (map (\<lambda>(n, i, f). length (fun_instrs f)) fs)"

text \<open>Every entry of the table of functions that is set lies in the code.\<close>

definition function_in :: "nat \<Rightarrow> nat \<Rightarrow> (string \<times> u32 \<times> cfun) list \<Rightarrow> format_function \<Rightarrow> bool" where
  "function_in a e fs ff \<longleftrightarrow> (\<exists>n i f k. (n, i, f) \<in> set fs \<and> a \<le> k \<and> k + length (fun_instrs f) \<le> e \<and>
     ff = \<lparr>ff_addr = of_nat k, ff_arg_count = cf_arg_count f, ff_instr_count = of_nat (length (fun_instrs f))\<rparr>)"

lemma function_in_mono: "function_in a e fs ff \<Longrightarrow> a' \<le> a \<Longrightarrow> e \<le> e' \<Longrightarrow> set fs \<subseteq> set fs' \<Longrightarrow> function_in a' e' fs' ff"
  unfolding function_in_def by (blast intro: order_trans)

definition funs_result :: "(string \<times> u32 \<times> cfun) list \<Rightarrow> nat \<Rightarrow> format_function list \<Rightarrow> instruction option list \<times> format_function list \<times> bool \<Rightarrow> bool" where
  "funs_result fs a funs r \<longleftrightarrow> (case r of (code, funs', ok) \<Rightarrow>
     length code = funs_code_size fs \<and> (ok \<longrightarrow> None \<notin> set code) \<and> length funs' = length funs \<and>
     (\<forall>ff\<in>set funs'. ff \<in> set funs \<or> function_in a (a + funs_code_size fs) fs ff))"

lemma gen_generate_funs:
  "gen D c0 K (funs_needs c0 fs) (noted (\<lambda>r. snd (snd r)) (funs_result fs a funs)) (generate_funs F fs a funs)"
proof (induction fs arbitrary: a funs)
  case (Cons x fs)
  obtain n i f where x: "x = (n, i, f)" by (cases x)
  have "gen D c0 K (add_needs (fun_needs c0 f) (funs_needs c0 fs)) (noted (\<lambda>r. snd (snd r)) (funs_result (x # fs) a funs))
      (bindM (generate_fun F a f) (\<lambda>r.
       bindM (generate_funs F fs (a + length (fst r)) (funs[unat i := \<lparr>ff_addr = of_nat a, ff_arg_count = cf_arg_count f, ff_instr_count = of_nat (length (fst r))\<rparr>]))
        (\<lambda>s. ret (fst r @ fst s, fst (snd s), snd r \<and> snd (snd s)))))"
  proof (rule gen_noted_pair [OF gen_generate_fun Cons.IH], goal_cases)
    case (1 r s)
    let ?ff = "\<lparr>ff_addr = of_nat a, ff_arg_count = cf_arg_count f, ff_instr_count = of_nat (length (fst r))\<rparr>"
    obtain code ok where r: "r = (code, ok)" by fastforce
    obtain codes funs' oks where s: "s = (codes, funs', oks)" by (cases s)
    have "ff \<in> set funs \<or> function_in a (a + funs_code_size (x # fs)) (x # fs) ff" if ff: "ff \<in> set funs'" for ff
    proof -
      have "ff \<in> set (funs[unat i := ?ff]) \<or> function_in (a + length code) (a + length code + funs_code_size fs) fs ff"
        using 1(2) ff by (auto simp: funs_result_def s r)
      then show ?thesis
      proof
        assume "ff \<in> set (funs[unat i := ?ff])"
        then have "ff \<in> set funs \<or> ff = ?ff" using set_update_subset_insert [of funs "unat i" ?ff] by blast
        moreover have "function_in a (a + funs_code_size (x # fs)) (x # fs) ?ff"
          unfolding function_in_def
          by (intro exI [of _ n] exI [of _ i] exI [of _ f] exI [of _ a]) (use 1(1) in \<open>simp add: x r case_prod_beta\<close>)
        ultimately show ?thesis by blast
      next
        assume "function_in (a + length code) (a + length code + funs_code_size fs) fs ff"
        then show ?thesis by (intro disjI2, elim function_in_mono) (use 1(1) in \<open>auto simp: x r\<close>)
      qed
    qed
    then show ?case using 1 by (auto simp: funs_result_def r s x)
  qed
  then show ?case by (simp add: x funs_needs_def Let_def case_prod_unfold)
qed (auto simp: funs_needs_def funs_result_def intro!: gen_ret)

end
