(* ===== verification/Comp_Data.thy ===== *)
theory Comp_Data
  imports Comp_Parts Write_Load
begin

unbundle bit_operations_syntax

text \<open>
  The objects and the variables that the compiler generates: no address of an object is missing, the objects
  stand one behind the other, and every reference is the address of an object.
\<close>

section \<open>Values\<close>

definition ids_of_value :: "cvalue \<Rightarrow> nat set" where
  "ids_of_value v = (case v of CRef ob _ \<Rightarrow> {ob_id ob} | _ \<Rightarrow> {})"

definition value_needs :: "cstate \<Rightarrow> cvalue \<Rightarrow> needs" where
  "value_needs c v = (value_relocs v, value_symbols c v)"

definition value_result :: "u32 set \<Rightarrow> format_value \<Rightarrow> bool" where
  "value_result D v \<longleftrightarrow> fv_type v = 0 \<or> fv_type v = 1 \<or> fv_type v = 2 \<and> (\<exists>a\<in>D. fv_i v = ucast a)"

lemma gen_get_fun_index: "gen D c0 K nd (plain any) (get_fun_index n p)"
  unfolding get_fun_index_def by (rule gen_reading_bind) (auto intro!: gen_error gen_plain_ret split: option.split)

lemma gen_ref:
  assumes "ob_id ob \<in> K"
  shows "gen D c0 K nd (plain (value_result D)) (bindM (reading (\<lambda>c. c_object_addrs c (ob_id ob))) (\<lambda>x. case x of
     None \<Rightarrow> undef
   | Some a \<Rightarrow> ret \<lparr>fv_type = 2, fv_i = ucast a\<rparr>))"
proof (rule gen_reading_bind, goal_cases)
  case (1 c)
  then obtain a where a: "c_object_addrs c (ob_id ob) = Some a" using assms by blast
  then have "a \<in> D" using 1(2) by (auto simp: comp_inv_def ran_def)
  then show ?case using a by (auto simp: value_result_def intro!: gen_plain_ret)
qed

lemma gen_value:
  assumes "ids_of_value v \<subseteq> K"
  shows "gen D c0 K (value_needs c0 v) (plain (value_result D)) (value_to_format_value v addr is_var)"
proof (cases v)
  case (CFun n p)
  have "gen D c0 K (value_needs c0 v) (plain any) (case addr of
      Some a \<Rightarrow> get_fun_index_and_add_reloc n (if is_var then RELOC_TYPE_VAR_FUN else RELOC_TYPE_ELEM_FUN) a p
    | None \<Rightarrow> get_fun_index n p)"
    using gen_fun_index [of 4 D c0 K n _ p] gen_fun_index [of 5 D c0 K n _ p]
    by (auto simp: CFun value_needs_def value_relocs_def value_symbols_def is_fun_value_def intro: gen_get_fun_index split: option.split)
  then show ?thesis unfolding CFun value_to_format_value.simps by (rule gen_then_ret) (simp add: value_result_def)
next
  case (CNativeFun n p)
  have "gen D c0 K (value_needs c0 v) (plain any) (case addr of
      Some a \<Rightarrow> get_native_fun_index_and_add_reloc n (if is_var then RELOC_TYPE_VAR_NATIVE_FUN else RELOC_TYPE_ELEM_NATIVE_FUN) a p
    | None \<Rightarrow> comp_error p ''incorrect value'')"
    using gen_native_fun_index [of 8 D c0 K n _ p] gen_native_fun_index [of 9 D c0 K n _ p]
    by (auto simp: CNativeFun value_needs_def value_relocs_def value_symbols_def is_fun_value_def intro: gen_error split: option.split)
  then show ?thesis unfolding CNativeFun value_to_format_value.simps by (rule gen_then_ret) (simp add: value_result_def)
next
  case (CRef ob p)
  then show ?thesis using gen_ref [of ob K D c0] assms by (simp add: ids_of_value_def)
qed (auto simp: value_result_def intro!: gen_plain_ret)

section \<open>Elements\<close>

lemma gen_value_mono: "gen D c0 K (0, {}) E m \<Longrightarrow> gen D c0 K (value_needs c0 v) E m"
  unfolding value_needs_def by (erule gen_le) auto

lemma gen_check_range: "gen D c0 K (0, {}) (plain any) (check_range lo hi e)"
  unfolding check_range_def seqM_def by (rule gen_plain_then [where R = any]) (auto intro: gen_error gen_plain_ret)

lemma gen_elem8: "gen D c0 K (0, {}) (plain any) (elem8 e)"
  unfolding elem8_def by (rule gen_seq_ret [OF gen_check_range]) simp

lemma gen_elem16: "gen D c0 K (0, {}) (plain any) (elem16 e)"
  unfolding elem16_def by (rule gen_seq_ret [OF gen_check_range]) simp

lemma gen_elem32:
  assumes "ids_of_value e \<subseteq> K"
  shows "gen D c0 K (value_needs c0 e) (plain any) (elem32 i (j, e))"
proof -
  have range: "gen D c0 K (0, {}) (noted id any) (if is_fun_value e then ret True else succeeds (check_range INT32_MIN UINT32_TOP e))"
    using gen_noted_ret [OF gen_plain_note [OF gen_check_range], where h = "\<lambda>x. x \<noteq> None" and ok' = id and Q' = any]
    by (auto simp: succeeds_def intro!: gen_ret)
  have "gen D c0 K (add_needs (0, {}) (add_needs (value_needs c0 e) (0, {}))) (plain any)
      (bindM (if is_fun_value e then ret True else succeeds (check_range INT32_MIN UINT32_TOP e)) (\<lambda>ok.
       bindM (value_to_format_value e (Some (of_nat (i + 8 + j * 4))) False) (\<lambda>v. if ok then ret (ucast (fv_i v) :: u32) else fail)))"
    apply (rule gen_bind_needs [OF range])
     apply (rule gen_bind_needs [OF gen_value [OF assms]])
      apply (auto intro!: gen_ret gen_fail)
    done
  then show ?thesis by (simp add: elem32_def)
qed

lemma gen_elem64: "ids_of_value e \<subseteq> K \<Longrightarrow> gen D c0 K (value_needs c0 e) (plain any) (elem64 i (j, e))"
  by (auto simp: elem64_def intro!: gen_then_ret [OF gen_value])

lemma gen_elem_ref: "ids_of_value e \<subseteq> K \<Longrightarrow> gen D c0 K (value_needs c0 e) (plain any) (elem_ref e)"
  by (auto simp: elem_ref_def intro!: gen_then_ret [OF gen_value])

lemma gen_elem_tuple:
  "ids_of_value e \<subseteq> K \<Longrightarrow> gen D c0 K (value_needs c0 e) (plain (\<lambda>x. snd x \<in> {0, 1, 2})) (elem_tuple i (j, e))"
  by (auto simp: elem_tuple_def value_result_def intro!: gen_then_ret [OF gen_value])

lemma gen_attempt_all:
  assumes "\<And>x. x \<in> set xs \<Longrightarrow> gen D c0 K (nd x) (plain Q) (f x)" "\<And>ys. length ys = length xs \<Longrightarrow> \<forall>y\<in>set ys. Q y \<Longrightarrow> R (mk ys)"
  shows "gen D c0 K (sum_needs (map nd xs)) (noted (\<lambda>r. r \<noteq> None) (\<lambda>r. case r of None \<Rightarrow> True | Some fo \<Rightarrow> R fo))
    (bindM (attempt_all f xs) (object_of mk))"
proof -
  let ?Q = "\<lambda>y. case y of None \<Rightarrow> True | Some z \<Rightarrow> Q z"
  have "gen D c0 K (sum_needs (map nd xs)) (noted (list_all (\<lambda>r. r \<noteq> None)) (list_all2 (\<lambda>_. ?Q) xs)) (attempt_all f xs)"
    unfolding attempt_all_def by (rule gen_collectM [OF gen_attempt [OF assms(1)]])
  then show ?thesis
    unfolding object_of_def
  proof (rule gen_noted_ret, goal_cases)
    case (1 ys)
    have "length ys = length xs" using 1 by (simp add: list_all2_lengthD)
    moreover have "\<forall>y\<in>set ys. ?Q y" using 1 by (auto simp: list_all2_conv_all_nth in_set_conv_nth)
    moreover have "Q (the y)" if "None \<notin> set ys" "y \<in> set ys" "\<forall>y\<in>set ys. ?Q y" for y
      using that by (cases y) auto
    ultimately have "None \<notin> set ys \<Longrightarrow> R (mk (map the ys))"
      by (intro assms(2)) auto
    moreover have "list_all (\<lambda>r. r \<noteq> None) ys \<longleftrightarrow> None \<notin> set ys" by (auto simp: list_all_iff) (metis not_None_eq)
    ultimately show ?case by simp
  qed
qed

section \<open>Objects\<close>

fun elem_bytes :: "int \<Rightarrow> nat" where
  "elem_bytes t = (if t = OBJECT_TYPE_IARRAY8 then 1 else if t = OBJECT_TYPE_IARRAY16 then 2 else if t = OBJECT_TYPE_IARRAY32 then 4
     else if t = OBJECT_TYPE_IARRAY64 then 8 else if t = OBJECT_TYPE_SFARRAY then 4 else if t = OBJECT_TYPE_DFARRAY then 8
     else if t = OBJECT_TYPE_RARRAY then 4 else 9)"

text \<open>An object that was collected: its type and its size, and for the types whose elements are looked up,
  that they are already there.\<close>

definition pair_ok :: "nat set \<Rightarrow> object_pair \<Rightarrow> bool" where
  "pair_ok K x \<longleftrightarrow> (case x of (ob, t, sz) \<Rightarrow>
     t \<in> {0..7} \<and> sz = of_nat (8 + length (ob_elems ob) * elem_bytes t) \<and>
     (t \<in> {2, 3, 6, 7} \<longrightarrow> (\<forall>e\<in>set (ob_elems ob). ids_of_value e \<subseteq> K)))"

definition generated_shape :: "cobject \<Rightarrow> int \<Rightarrow> format_object \<Rightarrow> bool" where
  "generated_shape ob t fo \<longleftrightarrow> elem_types_ok fo \<and> elems_size fo = length (ob_elems ob) * elem_bytes t"

lemma sum_needs_indexed: "sum_needs (map (\<lambda>x. nd (snd x)) (indexed ob)) = sum_needs (map nd (ob_elems ob))"
proof -
  have "map (\<lambda>x. nd (snd x)) (enumerate n xs) = map nd xs" for n and xs :: "cvalue list" by (induction xs arbitrary: n) auto
  then show ?thesis by (simp add: indexed_def)
qed

lemma set_indexed: "x \<in> set (indexed ob) \<Longrightarrow> snd x \<in> set (ob_elems ob)"
  by (simp add: indexed_def in_set_enumerate_eq) (metis nth_mem)

lemma length_indexed [simp]: "length (indexed ob) = length (ob_elems ob)"
  by (simp add: indexed_def)

lemma gen_generate_elems:
  assumes "pair_ok K (ob, t, sz)"
  shows "gen D c0 K (sum_needs (map (value_needs c0) (ob_elems ob)))
    (noted (\<lambda>r. r \<noteq> None) (\<lambda>r. case r of None \<Rightarrow> True | Some fo \<Rightarrow> generated_shape ob t fo)) (generate_elems F ob t i)"
proof -
  define R where "R = (\<lambda>r. case r of None \<Rightarrow> True | Some fo \<Rightarrow> generated_shape ob t fo)"
  let ?nd = "sum_needs (map (value_needs c0) (ob_elems ob))"
  have t: "0 \<le> t" "t \<le> 7" and refs: "t \<in> {2, 3, 6, 7} \<Longrightarrow> e \<in> set (ob_elems ob) \<Longrightarrow> ids_of_value e \<subseteq> K" for e
    using assms by (auto simp: pair_ok_def)
  have plainly: "gen D c0 K ?nd (noted (\<lambda>r. r \<noteq> None) R)
      (bindM (attempt_all f (ob_elems ob)) (object_of mk))"
    if "\<And>e. e \<in> set (ob_elems ob) \<Longrightarrow> gen D c0 K (value_needs c0 e) (plain any) (f e)"
      "\<And>ys. length ys = length (ob_elems ob) \<Longrightarrow> generated_shape ob t (mk ys)" for f :: "cvalue \<Rightarrow> 'a comp" and mk
    unfolding R_def by (rule gen_attempt_all [OF that(1)]) (use that(2) in auto)
  have by_index: "gen D c0 K ?nd (noted (\<lambda>r. r \<noteq> None) R)
      (bindM (attempt_all f (indexed ob)) (object_of mk))"
    if fs: "\<And>j e. e \<in> set (ob_elems ob) \<Longrightarrow> gen D c0 K (value_needs c0 e) (plain Q) (f (j, e))"
      and mk: "\<And>ys. length ys = length (ob_elems ob) \<Longrightarrow> \<forall>y\<in>set ys. Q y \<Longrightarrow> generated_shape ob t (mk ys)" for f :: "nat \<times> cvalue \<Rightarrow> 'a comp" and Q and mk
  proof -
    have f: "gen D c0 K (value_needs c0 (snd x)) (plain Q) (f x)" if x: "x \<in> set (indexed ob)" for x
      using fs [OF set_indexed [OF x], of "fst x"] by simp
    show ?thesis
      unfolding sum_needs_indexed [symmetric] R_def by (rule gen_attempt_all [OF f]) (use mk in auto)
  qed
  consider "t = 0" | "t = 1" | "t = 2" | "t = 3" | "t = 4" | "t = 5" | "t = 6" | "t = 7" using t by linarith
  then have "gen D c0 K ?nd (noted (\<lambda>r. r \<noteq> None) R) (generate_elems F ob t i)"
  proof cases
    case 1
    then show ?thesis using plainly [of elem8 FIArray8] by (simp add: generate_elems_def generated_shape_def gen_value_mono gen_elem8)
  next
    case 2
    then show ?thesis using plainly [of elem16 FIArray16] by (simp add: generate_elems_def generated_shape_def gen_value_mono gen_elem16)
  next
    case 3
    then show ?thesis using by_index [of any "elem32 i" FIArray32] refs by (simp add: generate_elems_def generated_shape_def gen_elem32)
  next
    case 4
    then show ?thesis using by_index [of any "elem64 i" FIArray64] refs by (simp add: generate_elems_def generated_shape_def gen_elem64)
  next
    case 5
    then show ?thesis by (auto simp: generate_elems_def R_def generated_shape_def intro!: gen_ret)
  next
    case 6
    then show ?thesis by (auto simp: generate_elems_def R_def generated_shape_def intro!: gen_ret)
  next
    case 7
    then show ?thesis using plainly [of elem_ref FRArray] refs by (simp add: generate_elems_def generated_shape_def gen_elem_ref)
  next
    case 8
    have "generated_shape ob t (FTuple ys)" if "length ys = length (ob_elems ob)" "\<forall>y\<in>set ys. snd y \<in> {0, 1, 2}" for ys
      using that 8 by (auto simp: generated_shape_def)
    then show ?thesis using 8 by_index [of "\<lambda>x. snd x \<in> {0, 1, 2}" "elem_tuple i" FTuple] refs by (simp add: generate_elems_def gen_elem_tuple [simplified])
  qed
  then show ?thesis by (simp add: R_def)
qed

section \<open>All objects\<close>

fun pair_addrs :: "nat \<Rightarrow> object_pair list \<Rightarrow> u32 list" where
  "pair_addrs i [] = []"
| "pair_addrs i ((ob, t, sz) # xs) = of_nat i # pair_addrs (i + up8 (unat sz)) xs"

text \<open>Every object of the list has what it looks up in front of it.\<close>

fun pairs_ok :: "nat set \<Rightarrow> object_pair list \<Rightarrow> bool" where
  "pairs_ok K [] \<longleftrightarrow> True"
| "pairs_ok K ((ob, t, sz) # xs) \<longleftrightarrow> pair_ok K (ob, t, sz) \<and> pairs_ok (insert (ob_id ob) K) xs"

definition small_object :: "object_pair \<Rightarrow> bool" where
  "small_object x \<longleftrightarrow> 8 + 9 * int (length (ob_elems (fst x))) < 2 ^ 31"

lemma pair_size:
  assumes "pair_ok K (ob, t, sz)" "small_object (ob, t, sz)"
  shows "unat sz = 8 + length (ob_elems ob) * elem_bytes t"
proof -
  have "elem_bytes t \<le> 9" by simp
  then have "8 + length (ob_elems ob) * elem_bytes t \<le> 8 + length (ob_elems ob) * 9" by (intro add_left_mono mult_left_mono) auto
  also have "\<dots> < 2 ^ 32" using assms(2) by (simp add: small_object_def)
  finally have lt: "8 + length (ob_elems ob) * elem_bytes t < 2 ^ 32" .
  have "sz = of_nat (8 + length (ob_elems ob) * elem_bytes t)" using assms(1) by (simp only: pair_ok_def prod.case)
  then show ?thesis by (simp only: unat_count [OF lt])
qed

definition objects_result :: "nat \<Rightarrow> object_pair list \<Rightarrow> (u32 \<times> format_object) option list \<Rightarrow> bool" where
  "objects_result i xs r \<longleftrightarrow> length r = length xs \<and>
     (None \<notin> set r \<longrightarrow> map the r = layout i (map (snd \<circ> the) r) \<and> list_all elem_types_ok (map (snd \<circ> the) r) \<and>
       map (fst \<circ> the) r = pair_addrs i xs \<and>
       sum_list (map (\<lambda>x. up8 (8 + elems_size (snd (the x)))) r) = sum_list (map (\<lambda>(ob, t, sz). up8 (unat sz)) xs))"

lemma gen_grow:
  assumes "\<And>c. same_collected c0 c \<Longrightarrow> comp_inv D c \<Longrightarrow> K \<subseteq> dom (c_object_addrs c) \<Longrightarrow>
      comp_inv D (h c) \<and> same_collected c (h c) \<and> dom (c_object_addrs c) \<union> K' \<subseteq> dom (c_object_addrs (h c)) \<and> c_errors (h c) = c_errors c \<and>
      c_symbols (h c) = c_symbols c \<and> c_relocs (h c) = c_relocs c"
    and "gen D c0 (K \<union> K') nd E m"
  shows "gen D c0 K nd E (seqM (modify h) m)"
  unfolding gen_def wpx_seqM wpx_modify
proof (intro allI impI)
  fix c assume c: "same_collected c0 c \<and> comp_inv D c \<and> K \<subseteq> dom (c_object_addrs c)"
  note h = assms(1) [of c]
  have "wpx m (\<lambda>x t. adds D nd (h c) t \<and> E (Some x) (c_errors t \<noteq> c_errors (h c))) (\<lambda>t. adds D nd (h c) t \<and> E None (c_errors t \<noteq> c_errors (h c))) (h c)"
    by (rule genD [OF assms(2)]) (use h c same_collected_trans [of c0 c "h c"] in auto)
  moreover have step: "adds D (0, {}) c (h c)" using h c by (auto simp: adds_def)
  have "adds D nd c t" if "adds D nd (h c) t" for t
    using adds_trans [OF step, of "fst nd" "snd nd" t] that by simp
  ultimately show "wpx m (\<lambda>x t. adds D nd c t \<and> E (Some x) (c_errors t \<noteq> c_errors c)) (\<lambda>t. adds D nd c t \<and> E None (c_errors t \<noteq> c_errors c)) (h c)"
    using h c by (auto elim!: wpx_mono)
qed

definition objects_needs :: "cstate \<Rightarrow> object_pair list \<Rightarrow> needs" where
  "objects_needs c xs = sum_needs (map (\<lambda>(ob, t, sz). sum_needs (map (value_needs c) (ob_elems ob))) xs)"

lemma gen_mono_ids: "gen D c0 K nd E m \<Longrightarrow> K \<subseteq> K' \<Longrightarrow> gen D c0 K' nd E m"
  by (cases nd) (auto intro: gen_mono)

lemma pair_ok_mono: "pair_ok K x \<Longrightarrow> K \<subseteq> K' \<Longrightarrow> pair_ok K' x"
  by (cases x) (auto simp: pair_ok_def simp del: elem_bytes.simps)

lemma gen_generate_objects:
  assumes "pairs_ok K xs" "list_all small_object xs" "set (pair_addrs i xs) \<subseteq> D"
  shows "gen D c0 K (objects_needs c0 xs) (noted (\<lambda>r. None \<notin> set r) (objects_result i xs)) (generate_objects F xs i)"
  using assms
proof (induction xs arbitrary: i K)
  case Nil
  then show ?case by (auto simp: objects_needs_def objects_result_def intro!: gen_ret)
next
  case (Cons x xs)
  obtain ob t sz where x: "x = (ob, t, sz)" by (cases x)
  let ?K = "insert (ob_id ob) K" and ?i = "i + up8 (unat sz)"
  have ok: "pair_ok K (ob, t, sz)" "pairs_ok ?K xs" "small_object (ob, t, sz)" "list_all small_object xs" "of_nat i \<in> D" "set (pair_addrs ?i xs) \<subseteq> D"
    using Cons.prems by (auto simp: x)
  have sz: "unat sz = 8 + length (ob_elems ob) * elem_bytes t" by (rule pair_size [OF ok(1,3)])
  have elems: "gen D c0 ?K (sum_needs (map (value_needs c0) (ob_elems ob)))
      (noted (\<lambda>r. r \<noteq> None) (\<lambda>r. case r of None \<Rightarrow> True | Some fo \<Rightarrow> generated_shape ob t fo)) (generate_elems F ob t i)"
    by (rule gen_generate_elems [OF pair_ok_mono [OF ok(1)]]) auto
  have rest: "gen D c0 ?K (objects_needs c0 xs) (noted (\<lambda>r. None \<notin> set r) (objects_result ?i xs)) (generate_objects F xs ?i)"
    by (rule Cons.IH [OF ok(2,4,6)])
  have "gen D c0 ?K (add_needs (sum_needs (map (value_needs c0) (ob_elems ob))) (objects_needs c0 xs))
      (noted (\<lambda>r. None \<notin> set r) (objects_result i (x # xs)))
      (bindM (generate_elems F ob t i) (\<lambda>r. bindM (generate_objects F xs ?i) (\<lambda>rs. ret (map_option (\<lambda>fo. (of_nat i, fo)) r # rs))))"
  proof (rule gen_noted_pair [OF elems rest], goal_cases)
    case (1 r rs)
    then show ?case
      by (cases r) (auto simp: objects_result_def generated_shape_def x sz simp del: elem_bytes.simps)
  qed
  then have "gen D c0 (K \<union> {ob_id ob}) (objects_needs c0 (x # xs)) (noted (\<lambda>r. None \<notin> set r) (objects_result i (x # xs)))
      (bindM (generate_elems F ob t i) (\<lambda>r. bindM (generate_objects F xs ?i) (\<lambda>rs. ret (map_option (\<lambda>fo. (of_nat i, fo)) r # rs))))"
    by (simp add: objects_needs_def x)
  note body = gen_grow [OF _ this]
  have "\<not> 8 + 9 * int (length (ob_elems ob)) \<ge> 2 ^ 31" using ok(3) by (simp add: small_object_def)
  then show ?case
    unfolding x generate_objects.simps prod.case if_False
    by (simp only: if_False, intro body [unfolded x]) (use ok(5) in \<open>auto simp: comp_inv_def same_collected_def symbol_ok_def comp_reloc_ok_def externs_ok_def ran_def\<close>)
qed

section \<open>Variables\<close>

definition vars_needs :: "cstate \<Rightarrow> (string \<times> u32 \<times> cvalue) list \<Rightarrow> needs" where
  "vars_needs c vs = sum_needs (map (\<lambda>(n, i, v). value_needs c v) vs)"

definition vars_result :: "u32 set \<Rightarrow> format_value list \<Rightarrow> format_value list \<times> bool \<Rightarrow> bool" where
  "vars_result D vars r \<longleftrightarrow> length (fst r) = length vars \<and> (\<forall>y\<in>set (fst r). value_result D y)"

lemma gen_generate_vars:
  assumes "\<forall>(n, i, v)\<in>set vs. ids_of_value v \<subseteq> K" "\<forall>y\<in>set vars. value_result D y"
  shows "gen D c0 K (vars_needs c0 vs) (noted snd (vars_result D vars)) (generate_vars vs vars)"
  using assms
proof (induction vs arbitrary: vars)
  case Nil
  then show ?case by (auto simp: vars_needs_def vars_result_def intro!: gen_ret)
next
  case (Cons x vs)
  obtain n i v where x: "x = (n, i, v)" by (cases x)
  let ?upd = "\<lambda>r. case r of None \<Rightarrow> vars | Some y \<Rightarrow> vars[unat i := y]"
  have v: "gen D c0 K (value_needs c0 v) (noted (\<lambda>r. r \<noteq> None) (\<lambda>r. case r of None \<Rightarrow> True | Some y \<Rightarrow> value_result D y))
      (attempt (value_to_format_value v (Some i) True))"
    by (rule gen_attempt [OF gen_value]) (use Cons.prems in \<open>simp add: x\<close>)
  have "gen D c0 K (add_needs (value_needs c0 v) (vars_needs c0 vs)) (noted snd (vars_result D vars))
      (bindM (attempt (value_to_format_value v (Some i) True)) (\<lambda>r. bindM (generate_vars vs (?upd r)) (\<lambda>s. ret (fst s, r \<noteq> None \<and> snd s))))"
  proof (rule gen_noted_pair [OF v])
    fix r assume r: "case r of None \<Rightarrow> True | Some y \<Rightarrow> value_result D y"
    have "\<forall>y\<in>set (?upd r). value_result D y"
      using r Cons.prems(2) set_update_subset_insert [of vars "unat i"] by (cases r) auto
    then show "gen D c0 K (vars_needs c0 vs) (noted snd (vars_result D (?upd r))) (generate_vars vs (?upd r))"
      by (intro Cons.IH) (use Cons.prems in auto)
  next
    fix r and s :: "format_value list \<times> bool"
    assume "vars_result D (?upd r) s"
    then show "vars_result D vars (fst s, r \<noteq> None \<and> snd s) \<and> (snd (fst s, r \<noteq> None \<and> snd s) \<longleftrightarrow> r \<noteq> None \<and> snd s)"
      by (cases r) (auto simp: vars_result_def)
  qed
  then show ?case by (simp add: x vars_needs_def) (simp add: case_prod_unfold)
qed

end
