(* ===== verification/Comp_Collect.thy ===== *)
theory Comp_Collect
  imports Comp_Data
begin

unbundle bit_operations_syntax

text \<open>
  The first half of the compiler: collecting the definitions and the objects of the variables. It reports
  an error just when it does not succeed, and what it collects is what generating relies on.
\<close>

section \<open>Annotations\<close>

text \<open>Only errors are added.\<close>

lemma annotations_run:
  "\<exists>b es. annotations_to_fun_info xs a c = (Done (b, es = []), c\<lparr>c_errors := c_errors c @ es\<rparr>)"
proof (induction xs arbitrary: a c)
  case (Cons x xs)
  have step: "\<exists>b es. seqM (report p msg) (bindM (annotations_to_fun_info xs a') (\<lambda>(b, _). ret (b, False))) c
      = (Done (b, es = []), c\<lparr>c_errors := c_errors c @ es\<rparr>)" for p msg a'
  proof -
    obtain b es where "annotations_to_fun_info xs a' (c\<lparr>c_errors := c_errors c @ [(p, msg)]\<rparr>) =
        (Done (b, es = []), c\<lparr>c_errors := c_errors c @ (p, msg) # es\<rparr>)"
      using Cons.IH [of a' "c\<lparr>c_errors := c_errors c @ [(p, msg)]\<rparr>"] by auto
    then show ?thesis by (auto simp: report_def run intro!: exI [of _ b] exI [of _ "(p, msg) # es"])
  qed
  show ?case
    using step Cons.IH by (auto simp: Let_def split: option.split)
qed (simp add: run)

section \<open>Definitions\<close>

definition collect_inv :: "cstate \<Rightarrow> bool" where
  "collect_inv c \<longleftrightarrow>
     (\<forall>y\<in>set (c_symbols c). cs_type y = 16 \<and> map_of (c_fun_pairs c) (cs_name y) \<noteq> None \<or>
       cs_type y = 17 \<and> map_of (c_var_pairs c) (cs_name y) \<noteq> None) \<and>
     distinct (map symbol_key (c_symbols c)) \<and> c_relocs c = [] \<and> c_object_addrs c = Map.empty \<and> c_object_pairs c = [] \<and>
     c_extern_funs c = Map.empty \<and> c_extern_vars c = Map.empty \<and> c_extern_native_funs c = Map.empty \<and>
     (\<not> c_relocatable c \<longrightarrow> c_symbols c = []) \<and> (\<forall>x\<in>set (c_fun_infos c). unat (fst x) < length (c_fun_pairs c))"

definition more_errors :: "cstate \<Rightarrow> cstate \<Rightarrow> bool" where
  "more_errors c t \<longleftrightarrow> (\<exists>es. es \<noteq> [] \<and> c_errors t = c_errors c @ es)"

text \<open>A part of the first half: it keeps the invariant, and reports an error just when it fails.\<close>

definition collects :: "unit comp \<Rightarrow> bool" where
  "collects m \<longleftrightarrow> (\<forall>c. collect_inv c \<longrightarrow> wpx m
     (\<lambda>_ t. collect_inv t \<and> c_relocatable t = c_relocatable c \<and> c_errors t = c_errors c)
     (\<lambda>t. collect_inv t \<and> c_relocatable t = c_relocatable c \<and> more_errors c t) c)"

lemma collects_add_fun_def: "collects (add_fun_def ans md n f p)"
  unfolding collects_def
proof (intro allI impI)
  fix c assume c: "collect_inv c"
  show "wpx (add_fun_def ans md n f p)
     (\<lambda>_ t. collect_inv t \<and> c_relocatable t = c_relocatable c \<and> c_errors t = c_errors c)
     (\<lambda>t. collect_inv t \<and> c_relocatable t = c_relocatable c \<and> more_errors c t) c"
  proof (cases "map_of (c_fun_pairs c) n")
    case (Some x)
    then show ?thesis using c
      by (simp add: add_fun_def_def wpx_rules comp_error_def report_def collect_inv_def more_errors_def)
  next
    case None
    let ?i = "of_nat (length (c_fun_pairs c)) :: u32"
    define d where "d = c\<lparr>c_fun_pairs := c_fun_pairs c @ [(n, ?i, f)]\<rparr>"
    have i: "unat ?i < Suc (length (c_fun_pairs c))" by (rule unat_of_nat_le)
    have d: "collect_inv d"
      using c None by (auto simp: collect_inv_def d_def map_add_def less_SucI split: option.splits)
    obtain b es where an: "annotations_to_fun_info ans no_annot_info d = (Done (b, es = []), d\<lparr>c_errors := c_errors d @ es\<rparr>)"
      using annotations_run by blast
    have an': "wpx (annotations_to_fun_info ans no_annot_info) Q F d = Q (b, es = []) (d\<lparr>c_errors := c_errors d @ es\<rparr>)" for Q F
      by (simp add: wpx_def an)
    have "wpx (add_fun_def ans md n f p) Q F c = wpx (bindM (annotations_to_fun_info ans no_annot_info) (\<lambda>(a, ok).
       if ok then
         seqM (whenM (an_strategy a \<noteq> 0 \<or> an_mask a \<noteq> NOT 0) (modify (\<lambda>c. c\<lparr>c_fun_infos := c_fun_infos c @ [(?i, a)]\<rparr>)))
        (bindM (reading c_relocatable) (\<lambda>rel.
         whenM (rel \<and> md = PUBLIC) (add_symbol (ucast (SYMBOL_TYPE_FUN OR SYMBOL_TYPE_DEFINED)) n ?i)))
       else fail)) Q F d" for Q F
      by (simp add: add_fun_def_def wpx_rules None Let_def d_def)
    moreover have "collect_inv (d\<lparr>c_errors := e\<rparr>)" for e using d by (simp add: collect_inv_def)
    moreover have "(0, n) \<notin> symbol_key ` set (c_symbols d)"
      using c None by (force simp: collect_inv_def d_def symbol_key_def)
    moreover have "c_relocatable d = c_relocatable c" "c_errors d = c_errors c" "length (c_fun_pairs d) = Suc (length (c_fun_pairs c))"
      "map_of (c_fun_pairs d) n \<noteq> None"
      using None by (auto simp: d_def map_add_def split: option.split)
    ultimately show ?thesis
      using d i
      by (auto simp: wpx_rules an' add_symbol_def collect_inv_def symbol_key_def more_errors_def)
  qed
qed

lemma collects_add_var_def: "collects (add_var_def md n v p)"
  unfolding collects_def
proof (intro allI impI)
  fix c assume c: "collect_inv c"
  show "wpx (add_var_def md n v p)
     (\<lambda>_ t. collect_inv t \<and> c_relocatable t = c_relocatable c \<and> c_errors t = c_errors c)
     (\<lambda>t. collect_inv t \<and> c_relocatable t = c_relocatable c \<and> more_errors c t) c"
  proof (cases "map_of (c_var_pairs c) n")
    case (Some x)
    then show ?thesis using c
      by (simp add: add_var_def_def wpx_rules comp_error_def report_def collect_inv_def more_errors_def)
  next
    case None
    have "(1, n) \<notin> symbol_key ` set (c_symbols c)"
      using c None by (force simp: collect_inv_def symbol_key_def)
    then show ?thesis
      using c None by (auto simp: add_var_def_def wpx_rules add_symbol_def Let_def collect_inv_def symbol_key_def map_add_def split: option.splits)
  qed
qed

lemma collects_succeeds:
  assumes "collects m" "collect_inv c"
  shows "wpx (succeeds m) (\<lambda>ok t. collect_inv t \<and> c_relocatable t = c_relocatable c \<and> (if ok then c_errors t = c_errors c else more_errors c t)) (\<lambda>_. False) c"
  using assms by (auto simp: collects_def succeeds_def wpx_rules elim!: wpx_mono)

text \<open>All definitions.\<close>

definition collected :: "cstate \<Rightarrow> bool \<Rightarrow> cstate \<Rightarrow> bool" where
  "collected c ok t \<longleftrightarrow> collect_inv t \<and> c_relocatable t = c_relocatable c \<and> (if ok then c_errors t = c_errors c else more_errors c t)"

lemma collected_trans: "collected a ok1 b \<Longrightarrow> collected b ok2 c \<Longrightarrow> collected a (ok1 \<and> ok2) c"
  by (auto simp: collected_def more_errors_def split: if_splits)

lemma add_defs_collects:
  "collect_inv c \<Longrightarrow> wpx (add_defs ds entry) (\<lambda>r t. collected c (snd r) t) (\<lambda>_. False) c"
proof (induction ds arbitrary: c entry)
  case (Cons d ds)
  have step: "wpx (bindM (succeeds m) (\<lambda>ok. bindM (add_defs ds e) (\<lambda>(e, oks). ret (e, ok \<and> oks)))) (\<lambda>r t. collected c (snd r) t) (\<lambda>_. False) c"
    if m: "collects m" for m e
    unfolding wpx_bindM
  proof (rule wpx_mono [OF collects_succeeds [OF m Cons.prems]])
    fix ok t assume t: "collect_inv t \<and> c_relocatable t = c_relocatable c \<and> (if ok then c_errors t = c_errors c else more_errors c t)"
    then have "collected c ok t" by (simp add: collected_def)
    then show "wpx (add_defs ds e) (\<lambda>x. wpx (case x of (e, oks) \<Rightarrow> ret (e, ok \<and> oks)) (\<lambda>r t. collected c (snd r) t) (\<lambda>_. False)) (\<lambda>_. False) t"
      using Cons.IH [of t e] t collected_trans by (fastforce simp: wpx_rules split: prod.splits elim!: wpx_mono)
  qed
  have note_error: "wpx (seqM (report p msg) (bindM (add_defs ds e) (\<lambda>(e, oks). ret (e, False)))) (\<lambda>r t. collected c (snd r) t) (\<lambda>_. False) c" for p msg e
  proof -
    let ?t = "c\<lparr>c_errors := c_errors c @ [(p, msg)]\<rparr>"
    have t: "collect_inv ?t" "collected c False ?t" using Cons.prems by (simp_all add: collected_def collect_inv_def more_errors_def)
    show ?thesis
      using Cons.IH [OF t(1), of e] collected_trans [OF t(2)]
      by (fastforce simp: wpx_rules report_def split: prod.splits elim!: wpx_mono)
  qed
  show ?case
    using step [OF collects_add_fun_def] step [OF collects_add_var_def] note_error Cons.IH [OF Cons.prems]
    by (auto split: comp_def.split option.split)
qed (simp add: wpx_rules collected_def)

section \<open>Objects\<close>

definition pair_ids :: "object_pair list \<Rightarrow> nat set" where
  "pair_ids ps = (\<lambda>x. ob_id (fst x)) ` set ps"

lemma pair_ids_simps [simp]: "pair_ids [] = {}" "pair_ids (x # xs) = insert (ob_id (fst x)) (pair_ids xs)" "pair_ids (xs @ ys) = pair_ids xs \<union> pair_ids ys"
  by (auto simp: pair_ids_def)

lemma pairs_ok_mono: "pairs_ok K xs \<Longrightarrow> K \<subseteq> K' \<Longrightarrow> pairs_ok K' xs"
proof (induction xs arbitrary: K K')
  case (Cons x xs)
  then show ?case using insert_mono [of K K' "ob_id (fst x)"] pair_ok_mono by (cases x) fastforce
qed simp

lemma pairs_ok_append: "pairs_ok K (xs @ ys) \<longleftrightarrow> pairs_ok K xs \<and> pairs_ok (K \<union> pair_ids xs) ys"
proof (induction xs arbitrary: K)
  case (Cons x xs)
  then show ?case by (cases x) simp
qed simp

text \<open>Only objects and errors are added.\<close>

definition with_pairs :: "cstate \<Rightarrow> object_pair list \<Rightarrow> comp_error list \<Rightarrow> cstate" where
  "with_pairs c ps es = c\<lparr>c_object_pairs := c_object_pairs c @ ps, c_errors := c_errors c @ es\<rparr>"

lemma with_pairs_simps [simp]:
  "with_pairs c [] [] = c" "with_pairs (with_pairs c ps es) ps' es' = with_pairs c (ps @ ps') (es @ es')"
  by (simp_all add: with_pairs_def)

definition pushes :: "(nat set \<Rightarrow> object_pair list \<Rightarrow> bool) \<Rightarrow> unit comp \<Rightarrow> bool" where
  "pushes R m \<longleftrightarrow> (\<forall>c. \<exists>ps. (\<forall>K. pairs_ok K ps) \<and> (R (pair_ids ps) ps \<and> m c = (Done (), with_pairs c ps []) \<or> (\<exists>es. es \<noteq> [] \<and> m c = (Failed, with_pairs c ps es))))"

lemma pushes_error: "pushes R (comp_error p msg)"
proof -
  have "comp_error p msg c = (Failed, with_pairs c [] [(p, msg)])" for c :: cstate
    by (simp add: comp_error_def report_def run with_pairs_def)
  then show ?thesis unfolding pushes_def by (metis not_Cons_self2 pairs_ok.simps(1))
qed

lemma pushes_check:
  "pushes (\<lambda>_ ps. ps = [] \<and> (\<forall>e\<in>set es. cvalue_type e \<in> ts)) (check_object_elems ts es)"
proof (induction es)
  case (Cons e es)
  show ?case
  proof (cases "cvalue_type e \<in> ts")
    case True
    then show ?thesis using Cons by simp
  next
    case False
    then show ?thesis by (simp add: pushes_error)
  qed
qed (auto simp: pushes_def run intro!: exI [of _ "[]"])

lemma pushes_seq:
  assumes "pushes (\<lambda>K ps. S ps \<and> (\<forall>e\<in>set es. ids_of_value e \<subseteq> K)) m" and "t \<in> {0..7}" and "n = elem_bytes t"
  shows "pushes (\<lambda>K _. k \<in> K) (seqM m (push_object (CObject k ty es p) t n))"
  unfolding pushes_def
proof
  fix c
  obtain ps where ps: "\<forall>K. pairs_ok K ps" and r: "S ps \<and> (\<forall>e\<in>set es. ids_of_value e \<subseteq> pair_ids ps) \<and> m c = (Done (), with_pairs c ps []) \<or>
      (\<exists>es. es \<noteq> [] \<and> m c = (Failed, with_pairs c ps es))"
    using assms(1) unfolding pushes_def by meson
  from r show "\<exists>ps. (\<forall>K. pairs_ok K ps) \<and> (k \<in> pair_ids ps \<and> seqM m (push_object (CObject k ty es p) t n) c = (Done (), with_pairs c ps []) \<or>
      (\<exists>es'. es' \<noteq> [] \<and> seqM m (push_object (CObject k ty es p) t n) c = (Failed, with_pairs c ps es')))"
  proof
    assume d: "S ps \<and> (\<forall>e\<in>set es. ids_of_value e \<subseteq> pair_ids ps) \<and> m c = (Done (), with_pairs c ps [])"
    let ?x = "(CObject k ty es p, t, of_nat (8 + length es * n)) :: object_pair"
    have "pairs_ok K (ps @ [?x])" for K
      using ps d assms(2,3) by (auto simp: pairs_ok_append pair_ok_def simp del: elem_bytes.simps)
    then show ?thesis
      using d by (intro exI [of _ "ps @ [?x]"]) (simp add: run push_object_def with_pairs_def)
  next
    assume "\<exists>es. es \<noteq> [] \<and> m c = (Failed, with_pairs c ps es)"
    then show ?thesis using ps by (intro exI [of _ ps]) (auto simp: run)
  qed
qed

text \<open>Objects whose elements are not looked up.\<close>

lemma pushes_seq_flat:
  assumes "TYPE_REF \<notin> ts" "t \<in> {0..7}" "n = elem_bytes t"
  shows "pushes (\<lambda>K _. k \<in> K) (seqM (check_object_elems ts es) (push_object (CObject k ty es p) t n))"
proof (rule pushes_seq [OF _ assms(2,3)])
  have "ids_of_value e = {}" if "cvalue_type e \<in> ts" for e using that assms(1) by (cases e) (auto simp: ids_of_value_def)
  then show "pushes (\<lambda>K ps. ps = [] \<and> (\<forall>e\<in>set es. ids_of_value e \<subseteq> K)) (check_object_elems ts es)"
    using pushes_check [of es ts] unfolding pushes_def by (metis empty_subsetI)
qed

lemma pushes_and:
  assumes "pushes (\<lambda>K _. k \<in> K) m" "pushes (\<lambda>K _. A \<subseteq> K) m'"
  shows "pushes (\<lambda>K _. k \<in> K \<and> A \<subseteq> K) (seqM m m')"
  unfolding pushes_def
proof
  fix c
  obtain ps where ps: "\<forall>K. pairs_ok K ps" and r: "k \<in> pair_ids ps \<and> m c = (Done (), with_pairs c ps []) \<or>
      (\<exists>es. es \<noteq> [] \<and> m c = (Failed, with_pairs c ps es))"
    using assms(1) unfolding pushes_def by meson
  obtain ps' where ps': "\<forall>K. pairs_ok K ps'" and r': "A \<subseteq> pair_ids ps' \<and> m' (with_pairs c ps []) = (Done (), with_pairs c (ps @ ps') []) \<or>
      (\<exists>es. es \<noteq> [] \<and> m' (with_pairs c ps []) = (Failed, with_pairs c (ps @ ps') es))"
    using assms(2) [unfolded pushes_def, rule_format, of "with_pairs c ps []"] by auto
  have all: "\<forall>K. pairs_ok K (ps @ ps')" using ps ps' by (simp add: pairs_ok_append)
  from r show "\<exists>ps. (\<forall>K. pairs_ok K ps) \<and> ((k \<in> pair_ids ps \<and> A \<subseteq> pair_ids ps) \<and> seqM m m' c = (Done (), with_pairs c ps []) \<or>
      (\<exists>es. es \<noteq> [] \<and> seqM m m' c = (Failed, with_pairs c ps es)))"
  proof
    assume "k \<in> pair_ids ps \<and> m c = (Done (), with_pairs c ps [])"
    then show ?thesis using r' all by (intro exI [of _ "ps @ ps'"]) (auto simp: run)
  next
    assume "\<exists>es. es \<noteq> [] \<and> m c = (Failed, with_pairs c ps es)"
    then show ?thesis using ps by (intro exI [of _ ps]) (auto simp: run)
  qed
qed

lemma pushes_if: "(b \<Longrightarrow> pushes R m) \<Longrightarrow> (\<not> b \<Longrightarrow> pushes R m') \<Longrightarrow> pushes R (if b then m else m')"
  by simp

lemma pushes_objects:
  "pushes (\<lambda>K _. ob_id ob \<in> K) (add_object_pairs_from_object ob)"
  "pushes (\<lambda>K _. (\<Union>e\<in>set es. ids_of_value e) \<subseteq> K) (add_elem_objects strict es)"
proof (induction ob and strict es rule: add_object_pairs_from_object_add_elem_objects.induct)
  case (1 k t es p)
  have elems: "pushes (\<lambda>K ps. True \<and> (\<forall>e\<in>set es. ids_of_value e \<subseteq> K)) (add_elem_objects strict es)" if "t = ''rarray'' \<and> strict \<or> t = ''tuple'' \<and> \<not> strict" for strict
    using 1 that by (auto simp: UN_subset_iff)
  show ?case
    unfolding add_object_pairs_from_object.simps Let_def cobject.sel
    by (intro pushes_if; (rule pushes_error | (rule pushes_seq_flat; simp) | (rule pushes_seq [OF elems]; simp)))
next
  case (3 strict e es)
  then show ?case
    by (cases e) (simp_all add: ids_of_value_def pushes_error pushes_and)
qed (auto simp: pushes_def run intro!: exI [of _ "[]"])

text \<open>The objects of all variables.\<close>

lemma add_var_objects_run:
  "\<exists>ps es ok. (\<forall>K. pairs_ok K ps) \<and> add_var_objects x c = (Done ok, with_pairs c ps es) \<and> (ok \<longleftrightarrow> es = []) \<and>
     (ok \<longrightarrow> ids_of_value (snd (snd x)) \<subseteq> pair_ids ps)"
proof (cases "snd (snd x)")
  case (CRef ob p)
  obtain ps where ps: "\<forall>K. pairs_ok K ps" "ob_id ob \<in> pair_ids ps \<and> add_object_pairs_from_object ob c = (Done (), with_pairs c ps []) \<or>
      (\<exists>es. es \<noteq> [] \<and> add_object_pairs_from_object ob c = (Failed, with_pairs c ps es))"
    using pushes_objects(1) [of ob] unfolding pushes_def by meson
  then show ?thesis
    by (auto simp: add_var_objects_def CRef succeeds_def run ids_of_value_def intro!: exI [of _ ps])
qed (auto simp: add_var_objects_def ids_of_value_def run intro!: exI [of _ "[]"])

lemma allM_objects_run:
  "\<exists>ps es ok. (\<forall>K. pairs_ok K ps) \<and> allM add_var_objects vs c = (Done ok, with_pairs c ps es) \<and> (ok \<longleftrightarrow> es = []) \<and>
     (ok \<longrightarrow> (\<forall>x\<in>set vs. ids_of_value (snd (snd x)) \<subseteq> pair_ids ps))"
proof (induction vs arbitrary: c)
  case Nil
  then show ?case by (auto simp: run intro!: exI [of _ "[]"])
next
  case (Cons x vs)
  obtain ps es ok where x: "\<forall>K. pairs_ok K ps" "add_var_objects x c = (Done ok, with_pairs c ps es)" "ok \<longleftrightarrow> es = []"
      "ok \<longrightarrow> ids_of_value (snd (snd x)) \<subseteq> pair_ids ps"
    using add_var_objects_run [of x c] by blast
  obtain ps' es' ok' where vs: "\<forall>K. pairs_ok K ps'" "allM add_var_objects vs (with_pairs c ps es) = (Done ok', with_pairs c (ps @ ps') (es @ es'))"
      "ok' \<longleftrightarrow> es' = []" "ok' \<longrightarrow> (\<forall>x\<in>set vs. ids_of_value (snd (snd x)) \<subseteq> pair_ids ps')"
    using Cons.IH [of "with_pairs c ps es"] by auto
  have "allM add_var_objects (x # vs) c = (Done (ok \<and> ok'), with_pairs c (ps @ ps') (es @ es'))" using x vs by (simp add: run)
  moreover have "\<forall>K. pairs_ok K (ps @ ps')" using x vs by (simp add: pairs_ok_append)
  moreover have "ok \<and> ok' \<longrightarrow> (\<forall>y\<in>set (x # vs). ids_of_value (snd (snd y)) \<subseteq> pair_ids (ps @ ps'))" using x vs by auto
  moreover have "ok \<and> ok' \<longleftrightarrow> es @ es' = []" using x(3) vs(3) by simp
  ultimately show ?case by (intro exI conjI) assumption+
qed

end
