(* ===== verification/Comp_Size.thy ===== *)
theory Comp_Size
  imports Comp_Collect "HOL-Library.Multiset"
begin

unbundle bit_operations_syntax

text \<open>
  The size of the buffer is enough for what is written: the relocations are counted by the arguments and values
  that need one, and the symbols by their names. This fails when a variable or an element stands for a native
  function whose name is also the name of a function, which \<open>names_apart\<close> excludes.
\<close>

section \<open>Names and values of a tree\<close>

fun sub_objects :: "cobject \<Rightarrow> cobject list" and elem_objects :: "cvalue list \<Rightarrow> cobject list" where
  "sub_objects (CObject k t es p) = CObject k t es p # elem_objects es"
| "elem_objects [] = []"
| "elem_objects (e # es) = (case e of CRef ob _ \<Rightarrow> sub_objects ob | _ \<Rightarrow> []) @ elem_objects es"

definition tree_vars :: "parse_tree \<Rightarrow> cvalue list" where
  "tree_vars tree = concat (map (\<lambda>d. case d of VarDef _ _ v _ \<Rightarrow> [v] | _ \<Rightarrow> []) tree)"

definition tree_funs :: "parse_tree \<Rightarrow> (string \<times> cfun) list" where
  "tree_funs tree = concat (map (\<lambda>d. case d of FunDef _ _ n f _ \<Rightarrow> [(n, f)] | _ \<Rightarrow> []) tree)"

definition tree_objects :: "parse_tree \<Rightarrow> cobject list" where
  "tree_objects tree = elem_objects (tree_vars tree)"

definition tree_values :: "parse_tree \<Rightarrow> cvalue list" where
  "tree_values tree = tree_vars tree @ concat (map ob_elems (tree_objects tree))"

definition tree_args :: "parse_tree \<Rightarrow> carg list" where
  "tree_args tree = concat (map (\<lambda>(n, f). concat (map reloc_args (fun_instrs f))) (tree_funs tree))"

definition native_name :: "cvalue \<Rightarrow> string list" where
  "native_name v = (case v of CNativeFun n _ \<Rightarrow> [n] | _ \<Rightarrow> [])"

definition tree_fun_names :: "parse_tree \<Rightarrow> string list" where
  "tree_fun_names tree = map fst (tree_funs tree) @
     concat (map (\<lambda>a. case a of AImm (AVFun n) _ \<Rightarrow> [n] | _ \<Rightarrow> []) (tree_args tree)) @
     concat (map (\<lambda>v. case v of CFun n _ \<Rightarrow> [n] | _ \<Rightarrow> []) (tree_values tree))"

text \<open>No native function that a variable or an element stands for has the name of a function.\<close>

definition names_apart :: "parse_tree \<Rightarrow> bool" where
  "names_apart tree \<longleftrightarrow> list_all (\<lambda>n. n \<notin> set (tree_fun_names tree)) (concat (map native_name (tree_values tree)))"

definition small_tree :: "parse_tree \<Rightarrow> bool" where
  "small_tree tree \<longleftrightarrow> list_all (\<lambda>ob. 8 + 9 * int (length (ob_elems ob)) < 2 ^ 31) (tree_objects tree)"

section \<open>What is collected comes from the tree\<close>

definition within_tree :: "parse_tree \<Rightarrow> cstate \<Rightarrow> bool" where
  "within_tree tree c \<longleftrightarrow> (\<forall>(n, i, f)\<in>set (c_fun_pairs c). (n, f) \<in> set (tree_funs tree)) \<and>
     (\<forall>(n, i, v)\<in>set (c_var_pairs c). v \<in> set (tree_vars tree))"

lemma wpx_conj: "wpx m Q F c \<Longrightarrow> wpx m Q' F' c \<Longrightarrow> wpx m (\<lambda>x t. Q x t \<and> Q' x t) (\<lambda>t. F t \<and> F' t) c"
  by (auto simp: wpx_def split: prod.splits outcome.splits)

lemma annotations_wpx: "(\<And>b es. Q (b, es = []) (c\<lparr>c_errors := c_errors c @ es\<rparr>)) \<Longrightarrow> wpx (annotations_to_fun_info ans a) Q F c"
  using annotations_run [of ans a c] by (auto simp: wpx_def)

lemma add_defs_within:
  assumes "set ds \<subseteq> set tree" "within_tree tree c"
  shows "wpx (add_defs ds entry) (\<lambda>_. within_tree tree) (within_tree tree) c"
  using assms
proof (induction ds arbitrary: c entry)
  case (Cons d ds)
  have errs: "within_tree tree (c\<lparr>c_errors := es\<rparr>) \<longleftrightarrow> within_tree tree c" for c es by (simp add: within_tree_def)
  have step: "wpx (bindM (succeeds m) (\<lambda>ok. bindM (add_defs ds e) (\<lambda>(e, oks). ret (e, ok \<and> oks)))) (\<lambda>_. within_tree tree) (within_tree tree) c"
    if m: "wpx m (\<lambda>_. within_tree tree) (within_tree tree) c" for m e
    using m Cons.IH Cons.prems(1) by (fastforce simp: wpx_rules succeeds_def split: prod.splits elim!: wpx_mono)
  have f: "wpx (add_fun_def ans md n f p) (\<lambda>_. within_tree tree) (within_tree tree) c" if "d = FunDef ans md n f p" for ans md n f p
  proof -
    have "FunDef ans md n f p \<in> set tree" using Cons.prems(1) that by simp
    then have "(n, f) \<in> set (tree_funs tree)" by (force simp: tree_funs_def)
    then show ?thesis using Cons.prems(2)
      by (auto simp: add_fun_def_def wpx_rules comp_error_def report_def Let_def add_symbol_def within_tree_def intro!: annotations_wpx)
  qed
  have v: "wpx (add_var_def md n v p) (\<lambda>_. within_tree tree) (within_tree tree) c" if "d = VarDef md n v p" for md n v p
  proof -
    have "VarDef md n v p \<in> set tree" using Cons.prems(1) that by simp
    then have "v \<in> set (tree_vars tree)" by (force simp: tree_vars_def)
    then show ?thesis using Cons.prems(2)
      by (auto simp: add_var_def_def wpx_rules comp_error_def report_def Let_def add_symbol_def within_tree_def)
  qed
  have note_error: "wpx (seqM (report p msg) (bindM (add_defs ds e) (\<lambda>(e, oks). ret (e, False)))) (\<lambda>_. within_tree tree) (within_tree tree) c" for p msg e
    using Cons.IH [of "c\<lparr>c_errors := c_errors c @ [(p, msg)]\<rparr>" e] Cons.prems
    by (fastforce simp: wpx_rules report_def errs split: prod.splits elim!: wpx_mono)
  show ?case
    using step [OF f] step [OF v] note_error Cons.IH [OF _ Cons.prems(2)] Cons.prems(1)
    by (auto split: comp_def.split option.split)
qed (simp add: wpx_rules)

text \<open>The objects that are pushed.\<close>

definition pushed :: "cstate \<Rightarrow> cobject set" where
  "pushed c = fst ` set (c_object_pairs c)"

definition pushes_within :: "cobject set \<Rightarrow> unit comp \<Rightarrow> bool" where
  "pushes_within X m \<longleftrightarrow> (\<forall>c. pushed (snd (m c)) \<subseteq> pushed c \<union> X)"

lemma pushes_within_seq:
  assumes "pushes_within X m" "pushes_within X m'"
  shows "pushes_within X (seqM m m')"
  unfolding pushes_within_def
proof
  fix c
  obtain r t where m: "m c = (r, t)" by fastforce
  have 1: "pushed t \<subseteq> pushed c \<union> X" using assms(1) m unfolding pushes_within_def by (metis snd_conv)
  have 2: "pushed (snd (m' t)) \<subseteq> pushed t \<union> X" using assms(2) unfolding pushes_within_def by blast
  show "pushed (snd (seqM m m' c)) \<subseteq> pushed c \<union> X"
    using 1 2 by (cases r) (auto simp: run m)
qed

lemma pushes_within_mono: "pushes_within X m \<Longrightarrow> X \<subseteq> Y \<Longrightarrow> pushes_within Y m"
  unfolding pushes_within_def by blast

lemma pushes_within_error: "pushes_within X (comp_error p msg)"
  by (simp add: pushes_within_def comp_error_def report_def run pushed_def)

lemma pushes_within_check: "pushes_within X (check_object_elems ts es)"
proof (induction es)
  case (Cons e es)
  then show ?case by (cases "cvalue_type e \<in> ts") (simp_all add: pushes_within_error)
qed (simp add: pushes_within_def run)

lemma pushes_within_push: "ob \<in> X \<Longrightarrow> pushes_within X (push_object ob t n)"
  by (auto simp: pushes_within_def push_object_def run pushed_def)

lemma pushes_within_if: "(b \<Longrightarrow> pushes_within R m) \<Longrightarrow> (\<not> b \<Longrightarrow> pushes_within R m') \<Longrightarrow> pushes_within R (if b then m else m')"
  by simp

lemma pushes_within_objects:
  "pushes_within (set (sub_objects ob)) (add_object_pairs_from_object ob)"
  "pushes_within (set (elem_objects es)) (add_elem_objects strict es)"
proof (induction ob and strict es rule: add_object_pairs_from_object_add_elem_objects.induct)
  case (1 k t es p)
  have elems: "pushes_within (set (sub_objects (CObject k t es p))) (add_elem_objects strict es)"
    if "t = ''rarray'' \<and> strict \<or> t = ''tuple'' \<and> \<not> strict" for strict
    by (rule pushes_within_mono [where X = "set (elem_objects es)"]) (use 1 that in auto)
  have self: "CObject k t es p \<in> set (sub_objects (CObject k t es p))" by simp
  show ?case
    unfolding add_object_pairs_from_object.simps Let_def
    by (intro pushes_within_if; (rule pushes_within_error | (rule pushes_within_seq [OF pushes_within_check pushes_within_push [OF self]])
      | (rule pushes_within_seq [OF elems pushes_within_push [OF self]]; simp)))
next
  case (3 strict e es)
  show ?case
  proof (cases e)
    case (CRef ob q)
    have "pushes_within (set (elem_objects (e # es))) (add_elem_objects strict es)"
      by (rule pushes_within_mono [where X = "set (elem_objects es)"]) (use 3 CRef in auto)
    moreover have "pushes_within (set (elem_objects (e # es))) (add_object_pairs_from_object ob)"
      by (rule pushes_within_mono [where X = "set (sub_objects ob)"]) (use 3 CRef in auto)
    ultimately show ?thesis using CRef by (simp add: pushes_within_seq)
  qed (use 3 in \<open>cases strict; simp add: pushes_within_error\<close>)+
qed (simp add: pushes_within_def run)

lemma elem_objects_of: "CRef ob p \<in> set vs \<Longrightarrow> set (sub_objects ob) \<subseteq> set (elem_objects vs)"
  by (induction vs) (auto split: cvalue.splits)

lemma allM_objects_within:
  assumes "\<forall>x\<in>set vs. snd (snd x) \<in> set (tree_vars tree)"
  shows "pushed (snd (allM add_var_objects vs c)) \<subseteq> pushed c \<union> set (tree_objects tree)"
  using assms
proof (induction vs arbitrary: c)
  case (Cons x vs)
  have 1: "pushed (snd (add_var_objects x c)) \<subseteq> pushed c \<union> set (tree_objects tree)"
  proof (cases "snd (snd x)")
    case (CRef ob p)
    then have sub: "set (sub_objects ob) \<subseteq> set (tree_objects tree)"
      using Cons.prems elem_objects_of [of ob p "tree_vars tree"] by (simp add: tree_objects_def)
    have "pushed (snd (add_object_pairs_from_object ob c)) \<subseteq> pushed c \<union> set (sub_objects ob)"
      using pushes_within_objects(1) [of ob] unfolding pushes_within_def by blast
    moreover have "snd (add_var_objects x c) = snd (add_object_pairs_from_object ob c)"
      by (auto simp: add_var_objects_def CRef succeeds_def run split: prod.split outcome.split)
    ultimately show ?thesis using sub by auto
  qed (auto simp: add_var_objects_def run)
  obtain r t where x: "add_var_objects x c = (r, t)" by fastforce
  have 2: "pushed (snd (allM add_var_objects vs t)) \<subseteq> pushed t \<union> set (tree_objects tree)"
    by (rule Cons.IH) (use Cons.prems in simp)
  have "snd (allM add_var_objects (x # vs) c) = (case r of Done _ \<Rightarrow> snd (allM add_var_objects vs t) | _ \<Rightarrow> t)"
    by (cases r) (auto simp: run x split: prod.split outcome.split)
  then show ?case using 1 2 x by (cases r) auto
qed (simp add: run)

section \<open>Counting\<close>

definition fun_args :: "(string \<times> u32 \<times> cfun) list \<Rightarrow> carg list" where
  "fun_args fs = concat (map (\<lambda>(n, i, f). concat (map reloc_args (fun_instrs f))) fs)"

definition needed_values :: "object_pair list \<Rightarrow> (string \<times> u32 \<times> cvalue) list \<Rightarrow> cvalue list" where
  "needed_values ps vs = map (\<lambda>(n, i, v). v) vs @ concat (map (\<lambda>(ob, t, n). ob_elems ob) ps)"

lemma reloc_size_relocs: "reloc_size_from_arg a = 12 * arg_relocs a"
  by (cases a rule: reloc_size_from_arg.cases) (simp_all add: arg_relocs_def)

lemma sum_needs_append [simp]: "sum_needs (xs @ ys) = add_needs (sum_needs xs) (sum_needs ys)"
  by (simp add: sum_needs_def add_needs_def)

lemma sum_needs_concat: "sum_needs (concat xss) = sum_needs (map sum_needs xss)"
  by (induction xss) simp_all

definition arg_needs :: "cstate \<Rightarrow> carg \<Rightarrow> needs" where
  "arg_needs c a = (arg_relocs a, arg_symbols c a)"

lemma args_needs_sum: "args_needs c as = sum_needs (map (arg_needs c) as)"
  by (simp add: args_needs_def sum_needs_def arg_needs_def comp_def image_image)

lemma funs_needs_args: "funs_needs c fs = sum_needs (map (arg_needs c) (fun_args fs))"
proof -
  have "fun_needs c f = sum_needs (map (arg_needs c) (concat (map reloc_args (fun_instrs f))))" for f
    by (simp add: fun_needs_def args_needs_sum map_concat sum_needs_concat comp_def)
  then show ?thesis by (simp add: funs_needs_def fun_args_def map_concat sum_needs_concat comp_def case_prod_unfold)
qed

lemma values_needs_sum: "add_needs (vars_needs c vs) (objects_needs c ps) = sum_needs (map (value_needs c) (needed_values ps vs))"
  by (simp add: vars_needs_def objects_needs_def needed_values_def map_concat sum_needs_concat comp_def case_prod_unfold)

lemma sum_value_relocs: "sum_list (map value_relocs vs) = length (filter is_fun_value vs)"
  by (induction vs) (simp_all add: value_relocs_def)

lemma sum_list_mset_eq: "mset xs = mset ys \<Longrightarrow> sum_list (map f xs) = (sum_list (map f ys) :: nat)"
  by (metis mset_map sum_mset_sum_list)

definition names_bytes :: "string set \<Rightarrow> nat" where
  "names_bytes N = (\<Sum>n\<in>N. up8 (7 + length n))"

lemma names_size_bytes: "names_size ns = names_bytes (set ns)"
  by (simp add: names_size_def names_bytes_def sum_list_distinct_conv_sum_set)

lemma names_bytes_mono: "finite N \<Longrightarrow> M \<subseteq> N \<Longrightarrow> names_bytes M \<le> names_bytes N"
  unfolding names_bytes_def by (rule sum_mono2) auto

lemma names_bytes_union: "finite M \<Longrightarrow> finite N \<Longrightarrow> names_bytes (M \<union> N) \<le> names_bytes M + names_bytes N"
  unfolding names_bytes_def using sum.union_inter [of M N "\<lambda>n. up8 (7 + length n)"] by linarith

lemma names_bytes_disjoint: "finite M \<Longrightarrow> finite N \<Longrightarrow> M \<inter> N = {} \<Longrightarrow> names_bytes (M \<union> N) = names_bytes M + names_bytes N"
  unfolding names_bytes_def by (rule sum.union_disjoint)

text \<open>The bytes of symbols, kind by kind.\<close>

lemma symbols_bytes:
  assumes d: "distinct (map symbol_key ys)" and sub: "symbol_key ` set ys \<subseteq> Pair 0 ` F \<union> Pair 1 ` V \<union> Pair 2 ` N"
    and fin: "finite F" "finite V" "finite N"
  shows "sum_list (map (\<lambda>y. up8 (7 + length (cs_name y))) ys) \<le> names_bytes F + names_bytes V + names_bytes N"
proof -
  let ?b = "\<lambda>k :: u32 \<times> string. up8 (7 + length (snd k))"
  have "sum_list (map (\<lambda>y. up8 (7 + length (cs_name y))) ys) = sum_list (map ?b (map symbol_key ys))"
    by (simp add: comp_def symbol_key_def)
  also have "\<dots> = sum ?b (symbol_key ` set ys)" using d by (simp only: sum_list_distinct_conv_sum_set list.set_map)
  also have "\<dots> \<le> sum ?b (Pair 0 ` F \<union> Pair 1 ` V \<union> Pair 2 ` N)" by (rule sum_mono2) (use sub fin in auto)
  also have "\<dots> = sum ?b (Pair 0 ` F) + sum ?b (Pair 1 ` V) + sum ?b (Pair 2 ` N)"
  proof -
    have "sum ?b (Pair 0 ` F \<union> Pair 1 ` V) = sum ?b (Pair 0 ` F) + sum ?b (Pair 1 ` V)" by (rule sum.union_disjoint) (use fin in auto)
    moreover have "sum ?b (Pair 0 ` F \<union> Pair 1 ` V \<union> Pair 2 ` N) = sum ?b (Pair 0 ` F \<union> Pair 1 ` V) + sum ?b (Pair 2 ` N)"
      by (rule sum.union_disjoint) (use fin in auto)
    ultimately show ?thesis by simp
  qed
  also have "\<dots> = names_bytes F + names_bytes V + names_bytes N"
    by (simp add: sum.reindex inj_on_def names_bytes_def)
  finally show ?thesis .
qed

section \<open>The buffer is large enough\<close>

text \<open>Native functions of variables and elements whose names are not names of functions; this is
  \<open>names_apart\<close> for what was collected.\<close>

definition natives_apart :: "cstate \<Rightarrow> bool" where
  "natives_apart c \<longleftrightarrow> (\<forall>v\<in>set (all_values c). \<forall>n\<in>set (native_name v). map_of (c_fun_pairs c) n = None \<and>
     (\<forall>a\<in>set (all_reloc_args c). n \<notin> set (fun_name_of_arg c a)) \<and> (\<forall>m p. CFun m p \<in> set (all_values c) \<longrightarrow> m \<noteq> n))"

definition defined_symbols :: "cstate \<Rightarrow> bool" where
  "defined_symbols c \<longleftrightarrow> (\<forall>y\<in>set (c_symbols c). cs_type y = 16 \<and> map_of (c_fun_pairs c) (cs_name y) \<noteq> None \<or> cs_type y = 17)"

lemma fst_sum_needs: "fst (sum_needs (map h xs)) = sum_list (map (\<lambda>x. fst (h x)) xs)"
  and snd_sum_needs: "snd (sum_needs (map h xs)) = (\<Union>x\<in>set xs. snd (h x))"
  by (simp_all add: sum_needs_def comp_def)

lemma in_fun_name_of_value:
  "n \<in> set (fun_name_of_value c v) \<longleftrightarrow> map_of (c_fun_pairs c) n = None \<and> ((\<exists>p. v = CFun n p) \<or> n \<in> set (native_name v))"
  by (cases v) (auto simp: fun_name_of_value_def is_fun_value_def native_name_def)

lemma in_value_symbols:
  "k \<in> value_symbols c v \<Longrightarrow> (\<exists>n p. v = CFun n p \<and> k = (0, n) \<and> map_of (c_fun_pairs c) n = None) \<or> (\<exists>n\<in>set (native_name v). k = (2, n))"
  by (cases v) (auto simp: value_symbols_def native_name_def split: if_splits)

lemma symbols_enough:
  assumes apart: "natives_apart c" and first: "defined_symbols c" and d: "distinct (map symbol_key ys)"
    and keys: "symbol_key ` set ys \<subseteq> symbol_key ` set (c_symbols c) \<union> (\<Union>a\<in>set (all_reloc_args c). arg_symbols c a) \<union> (\<Union>v\<in>set (all_values c). value_symbols c v)"
  shows "sum_list (map (\<lambda>y. up8 (7 + length (cs_name y))) ys) \<le>
    names_size (symbol_names SYMBOL_TYPE_FUN (c_symbols c) @ concat (map (fun_name_of_arg c) (all_reloc_args c)) @
          concat (map (fun_name_of_value c) (all_values c))) +
        names_size (symbol_names SYMBOL_TYPE_VAR (c_symbols c) @ concat (map (var_name_of_arg c) (all_reloc_args c))) +
        names_size (concat (map native_fun_name_of_arg (all_reloc_args c)))"
proof -
  define F where "F = set (symbol_names SYMBOL_TYPE_FUN (c_symbols c)) \<union> (\<Union>a\<in>set (all_reloc_args c). set (fun_name_of_arg c a)) \<union>
    {m. \<exists>p. CFun m p \<in> set (all_values c) \<and> map_of (c_fun_pairs c) m = None}"
  define V where "V = set (symbol_names SYMBOL_TYPE_VAR (c_symbols c) @ concat (map (var_name_of_arg c) (all_reloc_args c)))"
  define A where "A = set (concat (map native_fun_name_of_arg (all_reloc_args c)))"
  define W where "W = (\<Union>v\<in>set (all_values c). set (native_name v))"
  have FW: "set (symbol_names SYMBOL_TYPE_FUN (c_symbols c) @ concat (map (fun_name_of_arg c) (all_reloc_args c)) @
      concat (map (fun_name_of_value c) (all_values c))) = F \<union> W"
  proof -
    have "n \<in> (\<Union>v\<in>set (all_values c). set (fun_name_of_value c v)) \<longleftrightarrow> (\<exists>p. CFun n p \<in> set (all_values c) \<and> map_of (c_fun_pairs c) n = None) \<or> n \<in> W" for n
      using apart by (auto simp: in_fun_name_of_value W_def natives_apart_def)
    then show ?thesis by (auto simp: F_def)
  qed
  have "F \<inter> W = {}"
  proof -
    have "n \<notin> F" if v: "v \<in> set (all_values c)" "n \<in> set (native_name v)" for v n
    proof -
      have "map_of (c_fun_pairs c) n = None \<and> (\<forall>a\<in>set (all_reloc_args c). n \<notin> set (fun_name_of_arg c a)) \<and> (\<forall>m p. CFun m p \<in> set (all_values c) \<longrightarrow> m \<noteq> n)"
        using apart v unfolding natives_apart_def by blast
      moreover have "n \<notin> set (symbol_names SYMBOL_TYPE_FUN (c_symbols c))"
        using first calculation by (force simp: defined_symbols_def symbol_names_def)
      ultimately show ?thesis by (auto simp: F_def)
    qed
    then show ?thesis by (auto simp: W_def)
  qed
  have fin: "finite F" "finite V" "finite A" "finite W"
  proof -
    show "finite F" using FW by (metis List.finite_set finite_Un)
    show "finite V" "finite A" "finite W" by (simp_all add: V_def A_def W_def)
  qed
  have "symbol_key ` set ys \<subseteq> Pair 0 ` F \<union> Pair 1 ` V \<union> Pair 2 ` (A \<union> W)"
  proof -
    have "symbol_key y \<in> Pair 0 ` F \<union> Pair 1 ` V" if "y \<in> set (c_symbols c)" for y
      using first that by (auto simp: defined_symbols_def symbol_key_def F_def V_def symbol_names_def)
    moreover have "arg_symbols c a \<subseteq> Pair 0 ` F \<union> Pair 1 ` V \<union> Pair 2 ` (A \<union> W)" if "a \<in> set (all_reloc_args c)" for a
      using that by (auto simp: arg_symbols_def F_def V_def A_def)
    moreover have "value_symbols c v \<subseteq> Pair 0 ` F \<union> Pair 1 ` V \<union> Pair 2 ` (A \<union> W)" if "v \<in> set (all_values c)" for v
    proof
      fix k assume "k \<in> value_symbols c v"
      then have "(\<exists>n p. v = CFun n p \<and> k = (0, n) \<and> map_of (c_fun_pairs c) n = None) \<or> (\<exists>n\<in>set (native_name v). k = (2, n))"
        by (rule in_value_symbols)
      then show "k \<in> Pair 0 ` F \<union> Pair 1 ` V \<union> Pair 2 ` (A \<union> W)"
      proof
        assume "\<exists>n p. v = CFun n p \<and> k = (0, n) \<and> map_of (c_fun_pairs c) n = None"
        then obtain n p where n: "v = CFun n p" "k = (0, n)" "map_of (c_fun_pairs c) n = None" by blast
        then have "n \<in> F" unfolding F_def using that by blast
        then show ?thesis using n(2) by simp
      next
        assume "\<exists>n\<in>set (native_name v). k = (2, n)"
        then obtain n where n: "n \<in> set (native_name v)" "k = (2, n)" by blast
        then have "n \<in> W" unfolding W_def using that by blast
        then show ?thesis using n(2) by simp
      qed
    qed
    ultimately have "symbol_key ` set (c_symbols c) \<union> (\<Union>a\<in>set (all_reloc_args c). arg_symbols c a) \<union> (\<Union>v\<in>set (all_values c). value_symbols c v)
        \<subseteq> Pair 0 ` F \<union> Pair 1 ` V \<union> Pair 2 ` (A \<union> W)"
      by (intro Un_least UN_least image_subsetI) (simp_all add: subset_iff)
    then show ?thesis by (rule subset_trans [OF keys])
  qed
  then have "sum_list (map (\<lambda>y. up8 (7 + length (cs_name y))) ys) \<le> names_bytes F + names_bytes V + names_bytes (A \<union> W)"
    by (rule symbols_bytes [OF d]) (use fin in auto)
  also have "\<dots> \<le> names_bytes F + names_bytes V + (names_bytes A + names_bytes W)"
    using names_bytes_union [OF fin(3,4)] by simp
  also have "\<dots> = names_bytes (F \<union> W) + names_bytes V + names_bytes A"
    using names_bytes_disjoint [OF fin(1,4) \<open>F \<inter> W = {}\<close>] by simp
  finally show ?thesis unfolding names_size_bytes FW V_def A_def .
qed

lemma written_le_size:
  assumes add: "adds D (add_needs (funs_needs c1 fs) (add_needs (vars_needs c1 vs) (objects_needs c1 (c_object_pairs c1)))) c1 c"
    and fs: "mset fs = mset (c_fun_pairs c1)" and vs: "mset vs = mset (c_var_pairs c1)" and rel: "c_relocs c1 = []"
    and apart: "natives_apart c1" and first: "defined_symbols c1"
  shows "written_size c \<le> prog_size c1"
proof -
  let ?vals = "needed_values (c_object_pairs c1) vs"
  have fr: "same_collected c1 c" and d: "distinct (map symbol_key (c_symbols c))" using add by (simp_all add: adds_def comp_inv_def)
  have nd: "add_needs (funs_needs c1 fs) (add_needs (vars_needs c1 vs) (objects_needs c1 (c_object_pairs c1))) =
      add_needs (sum_needs (map (arg_needs c1) (fun_args fs))) (sum_needs (map (value_needs c1) ?vals))"
    by (simp only: funs_needs_args values_needs_sum)
  have args: "sum_list (map g (fun_args fs)) = sum_list (map g (all_reloc_args c1))" for g :: "carg \<Rightarrow> nat"
  proof -
    have "sum_list (map g (fun_args gs)) = sum_list (map (\<lambda>x. sum_list (map g (concat (map reloc_args (fun_instrs (snd (snd x))))))) gs)" for gs
      by (induction gs) (auto simp: fun_args_def)
    then show ?thesis using sum_list_mset_eq [OF fs] by (simp add: all_reloc_args_def flip: fun_args_def)
  qed
  have sets: "set (fun_args fs) = set (all_reloc_args c1)" "set ?vals = set (all_values c1)"
    using mset_eq_setD [OF fs] mset_eq_setD [OF vs]
    by (auto simp: fun_args_def all_reloc_args_def needed_values_def all_values_def)
  have vals: "sum_list (map value_relocs ?vals) = length (filter is_fun_value (all_values c1))"
  proof -
    have "sum_list (map (value_relocs \<circ> (\<lambda>(n, i, v). v)) vs) = sum_list (map (value_relocs \<circ> (\<lambda>(n, i, v). v)) (c_var_pairs c1))"
      by (rule sum_list_mset_eq [OF vs])
    then have "sum_list (map value_relocs ?vals) = sum_list (map value_relocs (all_values c1))"
      by (simp add: needed_values_def all_values_def)
    then show ?thesis by (simp add: sum_value_relocs)
  qed
  have "length (c_relocs c) \<le> sum_list (map arg_relocs (all_reloc_args c1)) + length (filter is_fun_value (all_values c1))"
    using add [unfolded nd] rel vals by (simp add: adds_def add_needs_def fst_sum_needs args arg_needs_def value_needs_def)
  then have relocs: "length (c_relocs c) * 12 \<le> sum_list (map reloc_size_from_arg (all_reloc_args c1)) + 12 * length (filter is_fun_value (all_values c1))"
    by (simp add: fun_eq_iff [THEN iffD2, OF allI, OF reloc_size_relocs] sum_list_const_mult)
  have "symbol_key ` set (c_symbols c) \<subseteq> symbol_key ` set (c_symbols c1) \<union> (\<Union>a\<in>set (all_reloc_args c1). arg_symbols c1 a) \<union>
      (\<Union>v\<in>set (all_values c1). value_symbols c1 v)"
    using add [unfolded nd] by (simp add: adds_def add_needs_def snd_sum_needs sets arg_needs_def value_needs_def Un_assoc)
  note symbols = symbols_enough [OF apart first d this]
  have same: "c_relocatable c = c_relocatable c1" "c_fun_pairs c = c_fun_pairs c1" "c_var_pairs c = c_var_pairs c1" "c_fun_infos c = c_fun_infos c1"
    "comp_code_size c = comp_code_size c1" "comp_data_size c = comp_data_size c1"
    using fr by (simp_all add: same_collected_def comp_code_size_def comp_data_size_def)
  show ?thesis
    unfolding written_size_def prog_size_def same using up8_mono [OF relocs] symbols by simp
qed

end
