(* ===== verification/Comp_Correct.thy ===== *)
theory Comp_Correct
  imports Comp_Size
begin

unbundle bit_operations_syntax

text \<open>
  The compiler is correct on its output side: it reports an error just when it makes no program, it never writes
  outside of its buffer, and what it writes is a program that the loader accepts and reads back.
\<close>

section \<open>The addresses of the objects\<close>

lemma objects_ids:
  assumes "pairs_ok K xs" "list_all small_object xs" "set (pair_addrs i xs) \<subseteq> D" "same_collected c0 c" "comp_inv D c" "K \<subseteq> dom (c_object_addrs c)"
  shows "wpx (generate_objects F xs i) (\<lambda>_ t. K \<union> pair_ids xs \<subseteq> dom (c_object_addrs t)) (\<lambda>_. True) c"
  using assms
proof (induction xs arbitrary: i K c)
  case Nil
  then show ?case by (simp add: wpx_rules)
next
  case (Cons x xs)
  obtain ob t sz where x: "x = (ob, t, sz)" by (cases x)
  let ?K = "insert (ob_id ob) K" and ?i = "i + up8 (unat sz)"
  have ok: "pair_ok K (ob, t, sz)" "pairs_ok ?K xs" "small_object (ob, t, sz)" "list_all small_object xs" "of_nat i \<in> D" "set (pair_addrs ?i xs) \<subseteq> D"
    using Cons.prems by (auto simp: x)
  define d where "d = (if c_object_addrs c (ob_id ob) = None then c\<lparr>c_object_addrs := (c_object_addrs c)(ob_id ob \<mapsto> of_nat i)\<rparr> else c)"
  have d: "same_collected c0 d" "comp_inv D d" "?K \<subseteq> dom (c_object_addrs d)"
    using Cons.prems ok(5)
    by (auto simp: d_def comp_inv_def same_collected_def symbol_ok_def comp_reloc_ok_def externs_ok_def ran_def)
  have "wpx (generate_elems F ob t i) (\<lambda>r s. adds D (sum_needs (map (value_needs c0) (ob_elems ob))) d s \<and>
      noted (\<lambda>r. r \<noteq> None) (\<lambda>r. case r of None \<Rightarrow> True | Some fo \<Rightarrow> generated_shape ob t fo) (Some r) (c_errors s \<noteq> c_errors d))
      (\<lambda>s. adds D (sum_needs (map (value_needs c0) (ob_elems ob))) d s \<and>
      noted (\<lambda>r. r \<noteq> None) (\<lambda>r. case r of None \<Rightarrow> True | Some fo \<Rightarrow> generated_shape ob t fo) None (c_errors s \<noteq> c_errors d)) d"
    by (rule genD [OF gen_generate_elems [OF pair_ok_mono [OF ok(1)]] d]) auto
  then have "wpx (generate_elems F ob t i) (\<lambda>r. wpx (generate_objects F xs ?i) (\<lambda>_ t. ?K \<union> pair_ids xs \<subseteq> dom (c_object_addrs t)) (\<lambda>_. True)) (\<lambda>_. True) d"
  proof (rule wpx_mono)
    fix r s assume "adds D (sum_needs (map (value_needs c0) (ob_elems ob))) d s \<and>
      noted (\<lambda>r. r \<noteq> None) (\<lambda>r. case r of None \<Rightarrow> True | Some fo \<Rightarrow> generated_shape ob t fo) (Some r) (c_errors s \<noteq> c_errors d)"
    then have "same_collected c0 s" "comp_inv D s" "?K \<subseteq> dom (c_object_addrs s)"
      using d same_collected_trans [of c0 d s] by (auto simp: adds_def)
    then show "wpx (generate_objects F xs ?i) (\<lambda>_ t. ?K \<union> pair_ids xs \<subseteq> dom (c_object_addrs t)) (\<lambda>_. True) s"
      by (rule Cons.IH [OF ok(2,4,6)])
  qed simp
  moreover have "\<not> 8 + 9 * int (length (ob_elems ob)) \<ge> 2 ^ 31" using ok(3) by (simp add: small_object_def)
  ultimately show ?case
    by (simp add: x wpx_rules d_def [symmetric])
qed

section \<open>What is generated from what was collected\<close>

text \<open>The parts of a program that the loader accepts, but for the limits of the format.\<close>

definition parts_ok :: "program \<Rightarrow> bool" where
  "parts_ok p \<longleftrightarrow> pg_fun_offset p = 0 \<and> pg_var_offset p = 0 \<and> unat (pg_entry p) < 2 ^ 32 \<and>
     (\<forall>ff\<in>set (pg_funs p). ff_instr_count ff = 0 \<or> (\<exists>k n. ff_addr ff = of_nat k \<and> ff_instr_count ff = of_nat n \<and> k + n \<le> length (pg_code p))) \<and>
     list_all (\<lambda>v. fv_type v \<in> VALUE_TYPES) (pg_vars p) \<and>
     pg_data p = layout 0 (map snd (pg_data p)) \<and> list_all elem_types_ok (map snd (pg_data p)) \<and>
     list_all (\<lambda>a. a \<in> fst ` set (pg_data p)) (var_addrs (pg_vars p)) \<and>
     (if pg_flags p AND HEADER_FLAG_RELOCATABLE \<noteq> 0
      then list_all (\<lambda>r. reloc_type_ok (pg_flags p) (rl_type r) \<and> (is_symbolic r \<longrightarrow> unat (rl_symbol r) < length (pg_symbols p))) (pg_relocs p) \<and>
           list_all (\<lambda>y. symbol_type_ok (pg_flags p) (sy_type y)) (pg_symbols p)
      else pg_relocs p = [] \<and> pg_symbols p = []) \<and>
     pg_flags p AND HEADER_FLAG_FUN_INFOS \<noteq> 0 \<and> list_all (\<lambda>i. unat (fi_fun_index i) < length (pg_funs p)) (pg_fun_infos p)"

definition rest_result :: "u32 set \<Rightarrow> (string \<times> u32 \<times> cfun) list \<Rightarrow> (string \<times> u32 \<times> cvalue) list \<Rightarrow> object_pair list \<Rightarrow>
    u32 \<times> instruction option list \<times> format_function list \<times> (u32 \<times> format_object) option list \<times> format_value list \<times> bool \<Rightarrow> bool" where
  "rest_result D fs vs ps r \<longleftrightarrow> (case r of (e, code, funs, data, vars, ok) \<Rightarrow>
     funs_result fs 0 (replicate (length fs) \<lparr>ff_addr = 0, ff_arg_count = 0, ff_instr_count = 0\<rparr>) (code, funs, None \<notin> set code) \<and>
     objects_result 0 ps data \<and> vars_result D (replicate (length vs) \<lparr>fv_type = 0, fv_i = 0\<rparr>) (vars, ok) \<and>
     (ok \<longrightarrow> None \<notin> set code \<and> None \<notin> set data))"

lemma generate_rest_wpx:
  assumes inv: "comp_inv D c1" and pairs: "pairs_ok {} (c_object_pairs c1)" "list_all small_object (c_object_pairs c1)"
    and D: "D = set (pair_addrs 0 (c_object_pairs c1))" and vs: "\<forall>(n, i, v)\<in>set vs. ids_of_value v \<subseteq> pair_ids (c_object_pairs c1)"
  shows "wpx (generate_rest F fs vs entry)
    (\<lambda>r t. adds D (add_needs (funs_needs c1 fs) (add_needs (vars_needs c1 vs) (objects_needs c1 (c_object_pairs c1)))) c1 t \<and>
       rest_result D fs vs (c_object_pairs c1) r \<and> (c_errors t \<noteq> c_errors c1 \<longleftrightarrow> \<not> snd (snd (snd (snd (snd r))))))
    (\<lambda>t. more_errors c1 t) c1"
proof -
  let ?ps = "c_object_pairs c1"
  have A: "gen D c1 {} (0, {}) (plain any) (case entry of None \<Rightarrow> ret 0 | Some (n, p) \<Rightarrow> get_fun_index n p)"
    by (auto intro: gen_plain_ret gen_get_fun_index split: option.split prod.split)
  have C: "gen D c1 {} (objects_needs c1 ?ps) (noted (\<lambda>r. None \<notin> set r) (objects_result 0 ?ps)) (generate_objects F ?ps 0)"
    by (rule gen_generate_objects [OF pairs]) (simp add: D)
  have V: "gen D c1 (pair_ids ?ps) (vars_needs c1 vs) (noted snd (vars_result D (replicate (length vs) \<lparr>fv_type = 0, fv_i = 0\<rparr>)))
      (generate_vars vs (replicate (length vs) \<lparr>fv_type = 0, fv_i = 0\<rparr>))"
    by (rule gen_generate_vars [OF vs]) (auto simp: value_result_def)
  note B = gen_generate_funs [of D c1 "{}" fs 0 "replicate (length fs) \<lparr>ff_addr = 0, ff_arg_count = 0, ff_instr_count = 0\<rparr>" F]
  show ?thesis
    unfolding generate_rest_def wpx_bindM wpx_reading
  proof (rule wpx_mono [OF genD [OF A same_collected_refl inv empty_subsetI]], goal_cases)
    case (1 e c2)
    then have c2: "same_collected c1 c2" "comp_inv D c2" "adds D (0, {}) c1 c2" "c_errors c2 = c_errors c1" by (auto simp: adds_def)
    show ?case
    proof (rule wpx_mono [OF genD [OF B c2(1,2) empty_subsetI]], goal_cases)
      case (1 r c3)
      obtain code funs ok3 where r: "r = (code, funs, ok3)" by (cases r)
      have c3: "adds D (funs_needs c1 fs) c1 c3" "c_errors c3 \<noteq> c_errors c1 \<longleftrightarrow> \<not> ok3"
        using 1 adds_trans [OF c2(3), of "fst (funs_needs c1 fs)" "snd (funs_needs c1 fs)" c3] c2(4) by (simp_all add: r)
      have code: "funs_result fs 0 (replicate (length fs) \<lparr>ff_addr = 0, ff_arg_count = 0, ff_instr_count = 0\<rparr>) (code, funs, ok3)"
        using 1 by (simp add: r)
      have fr: "same_collected c1 c3" "comp_inv D c3" "c_object_pairs c3 = ?ps" using c3(1) by (auto simp: adds_def same_collected_def)
      have both: "wpx (generate_objects F ?ps 0)
          (\<lambda>d t. (adds D (objects_needs c1 ?ps) c3 t \<and> noted (\<lambda>r. None \<notin> set r) (objects_result 0 ?ps) (Some d) (c_errors t \<noteq> c_errors c3)) \<and>
            {} \<union> pair_ids ?ps \<subseteq> dom (c_object_addrs t))
          (\<lambda>t. (adds D (objects_needs c1 ?ps) c3 t \<and> noted (\<lambda>r. None \<notin> set r) (objects_result 0 ?ps) None (c_errors t \<noteq> c_errors c3)) \<and> True) c3"
        by (rule wpx_conj [OF genD [OF C fr(1,2) empty_subsetI] objects_ids [OF pairs _ fr(1,2) empty_subsetI]]) (simp add: D)
      show ?case
        unfolding r prod.case wpx_bindM wpx_reading fr(3)
      proof (rule wpx_mono [OF both], goal_cases)
        case (1 data c4)
        have c4: "adds D (add_needs (funs_needs c1 fs) (objects_needs c1 ?ps)) c1 c4" "c_errors c4 \<noteq> c_errors c1 \<longleftrightarrow> \<not> (ok3 \<and> None \<notin> set data)"
          using 1 c3 adds_trans [of D "fst (funs_needs c1 fs)" "snd (funs_needs c1 fs)" c1 c3 "fst (objects_needs c1 ?ps)" "snd (objects_needs c1 ?ps)" c4]
            adds_errors [of D "funs_needs c1 fs" c1 c3 "objects_needs c1 ?ps" c4]
          by (simp_all add: add_needs_def)
        have data: "objects_result 0 ?ps data" using 1 by simp
        have fr4: "same_collected c1 c4" "comp_inv D c4" "pair_ids ?ps \<subseteq> dom (c_object_addrs c4)" using c4(1) 1 by (auto simp: adds_def)
        show ?case
        proof (rule wpx_mono [OF genD [OF V fr4]], goal_cases)
          case (1 v c5)
          have nd: "add_needs (add_needs (funs_needs c1 fs) (objects_needs c1 ?ps)) (vars_needs c1 vs) =
              add_needs (funs_needs c1 fs) (add_needs (vars_needs c1 vs) (objects_needs c1 ?ps))"
            by (simp add: add_needs_def ac_simps)
          have c5: "adds D (add_needs (funs_needs c1 fs) (add_needs (vars_needs c1 vs) (objects_needs c1 ?ps))) c1 c5"
              "c_errors c5 \<noteq> c_errors c1 \<longleftrightarrow> \<not> (ok3 \<and> None \<notin> set data \<and> snd v)"
            using 1 c4 adds_errors [OF c4(1), of "vars_needs c1 vs" c5]
              adds_trans [of D "fst (add_needs (funs_needs c1 fs) (objects_needs c1 ?ps))" "snd (add_needs (funs_needs c1 fs) (objects_needs c1 ?ps))" c1 c4
                "fst (vars_needs c1 vs)" "snd (vars_needs c1 vs)" c5]
            unfolding nd [symmetric] by (auto simp: add_needs_def)
          have "vars_result D (replicate (length vs) \<lparr>fv_type = 0, fv_i = 0\<rparr>) v" using 1 by simp
          then show ?case
            using c5 code data by (cases v) (auto simp: wpx_rules rest_result_def funs_result_def vars_result_def)
        qed (simp add: noted_def)
      qed (simp add: noted_def)
    qed (simp add: noted_def)
  next
    case (2 t)
    then show ?case by (auto simp: more_errors_def adds_def)
  qed
qed

section \<open>What was collected\<close>

text \<open>What the collected state has to do with the tree.\<close>

definition from_tree :: "parse_tree \<Rightarrow> cstate \<Rightarrow> bool" where
  "from_tree tree c \<longleftrightarrow> within_tree tree c \<and> pushed c \<subseteq> set (tree_objects tree)"

lemma from_tree_values: "from_tree tree c \<Longrightarrow> set (all_values c) \<subseteq> set (tree_values tree)"
  by (fastforce simp: from_tree_def within_tree_def pushed_def all_values_def tree_values_def)

lemma from_tree_args: "from_tree tree c \<Longrightarrow> set (all_reloc_args c) \<subseteq> set (tree_args tree)"
  by (fastforce simp: from_tree_def within_tree_def all_reloc_args_def tree_args_def)

lemma from_tree_small: "from_tree tree c \<Longrightarrow> small_tree tree \<Longrightarrow> list_all small_object (c_object_pairs c)"
  by (force simp: from_tree_def pushed_def small_tree_def list_all_iff small_object_def)

lemma from_tree_apart:
  assumes "from_tree tree c" "names_apart tree"
  shows "natives_apart c"
  unfolding natives_apart_def
proof (intro ballI)
  fix v n assume v: "v \<in> set (all_values c)" "n \<in> set (native_name v)"
  have n: "n \<notin> set (tree_fun_names tree)"
    using assms(2) v from_tree_values [OF assms(1)] by (auto simp: names_apart_def list_all_iff)
  have "map_of (c_fun_pairs c) n = None"
  proof (rule ccontr)
    assume "map_of (c_fun_pairs c) n \<noteq> None"
    then obtain i f where "(n, i, f) \<in> set (c_fun_pairs c)" using map_of_SomeD by fastforce
    then have "(n, f) \<in> set (tree_funs tree)" using assms(1) by (auto simp: from_tree_def within_tree_def)
    then show False using n by (force simp: tree_fun_names_def)
  qed
  moreover have "n \<notin> set (fun_name_of_arg c a)" if "a \<in> set (all_reloc_args c)" for a
  proof
    assume "n \<in> set (fun_name_of_arg c a)"
    then obtain p where "a = AImm (AVFun n) p" by (auto simp: fun_name_of_arg_def split: carg.splits arg_value.splits if_splits)
    moreover have "a \<in> set (tree_args tree)" using that from_tree_args [OF assms(1)] by blast
    ultimately show False using n by (force simp: tree_fun_names_def)
  qed
  moreover have "m \<noteq> n" if "CFun m p \<in> set (all_values c)" for m p
  proof
    assume "m = n"
    then have "CFun n p \<in> set (tree_values tree)" using that from_tree_values [OF assms(1)] by blast
    then show False using n by (force simp: tree_fun_names_def)
  qed
  ultimately show "map_of (c_fun_pairs c) n = None \<and> (\<forall>a\<in>set (all_reloc_args c). n \<notin> set (fun_name_of_arg c a)) \<and>
      (\<forall>m p. CFun m p \<in> set (all_values c) \<longrightarrow> m \<noteq> n)" by blast
qed

lemma collected_inv:
  assumes "collect_inv t" "c1 = with_pairs t ps []"
  shows "comp_inv D c1" "defined_symbols c1" "c_relocs c1 = []" "\<forall>x\<in>set (c_fun_infos c1). unat (fst x) < length (c_fun_pairs c1)" "c_object_pairs c1 = ps"
  using assms by (auto simp: collect_inv_def comp_inv_def defined_symbols_def symbol_ok_def externs_ok_def with_pairs_def)

end
