(* ===== verification/Comp_File.thy ===== *)
theory Comp_File
  imports Comp_Correct
begin

unbundle bit_operations_syntax

section \<open>The file that is written\<close>

lemma length_write_symbol: "length (write_symbol y) = up8 (7 + length (sy_name y))"
  by (simp add: write_symbol_def)

lemma length_write_program:
  "length (write_program p) = 48 + up8 (12 * length (pg_funs p)) + up8 (16 * length (pg_vars p)) + up8 (12 * length (pg_code p)) +
     sum_list (map (\<lambda>(a, ob). up8 (8 + elems_size ob)) (pg_data p)) + up8 (12 * length (pg_relocs p)) +
     sum_list (map (\<lambda>y. up8 (7 + length (sy_name y))) (pg_symbols p)) + up8 (12 * length (pg_fun_infos p))"
proof -
  have d: "length (write_data p) = sum_list (map (\<lambda>(a, ob). up8 (8 + elems_size ob)) (pg_data p))"
    by (simp add: write_data_def length_concat comp_def case_prod_unfold length_write_object)
  have "8 dvd sum_list (map (\<lambda>(a, ob). up8 (8 + elems_size ob)) xs)" for xs :: "(u32 \<times> format_object) list"
    by (induction xs) (auto simp: up8_dvd)
  then have "up8 (length (write_data p)) = length (write_data p)" unfolding d by (rule up8_id)
  moreover have "length (concat (map write_symbol ys)) = sum_list (map (\<lambda>y. up8 (7 + length (sy_name y))) ys)" for ys
    by (simp add: length_concat comp_def length_write_symbol)
  ultimately show ?thesis
    by (simp add: write_program_def length_concat_const [where e = 12] length_concat_const [where e = 16] length_writes d)
qed

lemma written_size_program:
  assumes code: "length code = comp_code_size c" and funs: "length funs = length (c_fun_pairs c)" and vars: "length vars = length (c_var_pairs c)"
    and data: "objects_result 0 (c_object_pairs c) data" "None \<notin> set data"
  shows "length (write_program (comp_program c is_entry e code funs data vars)) = written_size c"
proof -
  have "sum_list (map (\<lambda>(a, ob). up8 (8 + elems_size ob)) (map the data)) = sum_list (map (\<lambda>x. up8 (8 + elems_size (snd (the x)))) data)"
    by (simp add: comp_def case_prod_unfold)
  also have "\<dots> = comp_data_size c"
    using data unfolding objects_result_def comp_data_size_def by blast
  finally have "sum_list (map (\<lambda>(a, ob). up8 (8 + elems_size ob)) (map the data)) = comp_data_size c" .
  moreover have "sum_list (map (\<lambda>y. up8 (7 + length (sy_name y))) (map format_symbol_of ys)) = sum_list (map (\<lambda>y. up8 (7 + length (cs_name y))) ys)" for ys
    by (simp add: format_symbol_of_def bytes_of_def comp_def)
  ultimately show ?thesis
    using code funs vars
    by (simp add: length_write_program comp_program_def written_size_def up8_def mult.commute)
qed

lemma comp_flags_bits:
  "comp_flags e rel AND HEADER_FLAG_RELOCATABLE \<noteq> 0 \<longleftrightarrow> rel" "comp_flags e rel AND HEADER_FLAG_FUN_INFOS \<noteq> 0"
  "rel \<Longrightarrow> comp_flags e rel AND HEADER_FLAG_NATIVE_FUN_SYMBOLS \<noteq> 0"
  by (cases e; cases rel; simp add: comp_flags_def)+

lemma comp_reloc_types: "t \<in> RELOC_TYPES \<Longrightarrow> fl AND HEADER_FLAG_NATIVE_FUN_SYMBOLS \<noteq> 0 \<Longrightarrow> reloc_type_ok fl t"
  by (auto simp: reloc_type_ok_def)

lemma comp_symbol_types: "symbol_ok c y \<Longrightarrow> fl AND HEADER_FLAG_NATIVE_FUN_SYMBOLS \<noteq> 0 \<Longrightarrow> symbol_type_ok fl (ucast (cs_type y))"
  by (auto simp: symbol_ok_def symbol_type_ok_def)

lemma comp_symbols_parts:
  assumes inv: "comp_inv D c" and infos: "\<forall>x\<in>set (c_fun_infos c). unat (fst x) < length (c_fun_pairs c)"
    and funs: "length funs = length (c_fun_pairs c)" and p: "p = comp_program c is_entry e code funs data vars"
  shows "if pg_flags p AND HEADER_FLAG_RELOCATABLE \<noteq> 0
      then list_all (\<lambda>r. reloc_type_ok (pg_flags p) (rl_type r) \<and> (is_symbolic r \<longrightarrow> unat (rl_symbol r) < length (pg_symbols p))) (pg_relocs p) \<and>
           list_all (\<lambda>y. symbol_type_ok (pg_flags p) (sy_type y)) (pg_symbols p)
      else pg_relocs p = [] \<and> pg_symbols p = []"
    "pg_flags p AND HEADER_FLAG_FUN_INFOS \<noteq> 0" "list_all (\<lambda>i. unat (fi_fun_index i) < length (pg_funs p)) (pg_fun_infos p)"
proof -
  show "pg_flags p AND HEADER_FLAG_FUN_INFOS \<noteq> 0" by (simp add: p comp_program_def comp_flags_bits)
  show "list_all (\<lambda>i. unat (fi_fun_index i) < length (pg_funs p)) (pg_fun_infos p)"
    using infos funs by (auto simp: p comp_program_def list_all_iff format_fun_info_of_def)
  show "if pg_flags p AND HEADER_FLAG_RELOCATABLE \<noteq> 0
      then list_all (\<lambda>r. reloc_type_ok (pg_flags p) (rl_type r) \<and> (is_symbolic r \<longrightarrow> unat (rl_symbol r) < length (pg_symbols p))) (pg_relocs p) \<and>
           list_all (\<lambda>y. symbol_type_ok (pg_flags p) (sy_type y)) (pg_symbols p)
      else pg_relocs p = [] \<and> pg_symbols p = []"
  proof (cases "c_relocatable c")
    case True
    let ?fl = "comp_flags is_entry True"
    have fl: "?fl AND HEADER_FLAG_NATIVE_FUN_SYMBOLS \<noteq> 0" "?fl AND HEADER_FLAG_RELOCATABLE \<noteq> 0" by (simp_all add: comp_flags_bits)
    have "reloc_type_ok ?fl (rl_type r) \<and> (is_symbolic r \<longrightarrow> unat (rl_symbol r) < length (c_symbols c))" if "r \<in> set (c_relocs c)" for r
      using inv that comp_reloc_types [OF _ fl(1), of "rl_type r"] by (simp add: comp_inv_def comp_reloc_ok_def)
    moreover have "symbol_type_ok ?fl (ucast (cs_type y))" if "y \<in> set (c_symbols c)" for y
      using inv that comp_symbol_types [OF _ fl(1), of c y] by (simp add: comp_inv_def)
    ultimately show ?thesis
      using True fl(2) by (simp add: p comp_program_def list_all_iff format_symbol_of_def)
  qed (simp add: p comp_program_def comp_flags_bits)
qed

lemma ucast_back32: "ucast (ucast (b :: u32) :: u64) = b"
  by (rule bit_word_eqI) (simp add: bit_simps)

lemma var_addrs_found:
  assumes "vars_result D (replicate n \<lparr>fv_type = 0, fv_i = 0\<rparr>) (vars, ok)"
  shows "list_all (\<lambda>v. fv_type v \<in> VALUE_TYPES) vars" "set (var_addrs vars) \<subseteq> D"
proof -
  have r: "value_result D v" if "v \<in> set vars" for v using assms that by (simp add: vars_result_def)
  show "list_all (\<lambda>v. fv_type v \<in> VALUE_TYPES) vars"
    using r by (fastforce simp: list_all_iff value_result_def)
  show "set (var_addrs vars) \<subseteq> D"
  proof
    fix a assume "a \<in> set (var_addrs vars)"
    then obtain v where v: "v \<in> set vars" "fv_type v = 2" "a = ucast (fv_i v)" by (auto simp: var_addrs_def)
    then obtain b where "b \<in> D" "fv_i v = ucast b" using r [of v] by (auto simp: value_result_def)
    then show "a \<in> D" using v(3) by (simp add: ucast_back32)
  qed
qed

lemma comp_parts_ok:
  assumes inv: "comp_inv D c" and infos: "\<forall>x\<in>set (c_fun_infos c). unat (fst x) < length (c_fun_pairs c)"
    and D: "D = set (pair_addrs 0 (c_object_pairs c))" and e: "unat (ucast (e :: u32) :: u64) < 2 ^ 32"
    and r: "rest_result D fs vs (c_object_pairs c) (e, code, funs, data, vars, True)"
    and fs: "length fs = length (c_fun_pairs c)"
  shows "parts_ok (comp_program c is_entry e code funs data vars)"
proof -
  let ?p = "comp_program c is_entry e code funs data vars"
  have code': "funs_result fs 0 (replicate (length fs) \<lparr>ff_addr = 0, ff_arg_count = 0, ff_instr_count = 0\<rparr>) (code, funs, None \<notin> set code)" "None \<notin> set code"
    and data: "objects_result 0 (c_object_pairs c) data" and none: "None \<notin> set data"
    and vars: "vars_result D (replicate (length vs) \<lparr>fv_type = 0, fv_i = 0\<rparr>) (vars, True)"
    using r unfolding rest_result_def prod.case by blast+
  have code: "funs_result fs 0 (replicate (length fs) \<lparr>ff_addr = 0, ff_arg_count = 0, ff_instr_count = 0\<rparr>) (code, funs, True)"
    using code' by simp
  have lf: "length funs = length (c_fun_pairs c)" using code fs by (simp add: funs_result_def)
  note sy = comp_symbols_parts [OF inv infos lf refl, of is_entry e code data vars]
  have funs: "\<forall>ff\<in>set funs. ff_instr_count ff = 0 \<or> (\<exists>k n. ff_addr ff = of_nat k \<and> ff_instr_count ff = of_nat n \<and> k + n \<le> length code)"
  proof
    fix ff assume "ff \<in> set funs"
    then have "ff = \<lparr>ff_addr = 0, ff_arg_count = 0, ff_instr_count = 0\<rparr> \<or> function_in 0 (length code) fs ff"
      using code by (auto simp: funs_result_def)
    then show "ff_instr_count ff = 0 \<or> (\<exists>k n. ff_addr ff = of_nat k \<and> ff_instr_count ff = of_nat n \<and> k + n \<le> length code)"
      unfolding function_in_def by (elim disjE exE conjE) (simp, force)
  qed
  have d: "map the data = layout 0 (map (snd \<circ> the) data)" "list_all elem_types_ok (map (snd \<circ> the) data)"
      "map (fst \<circ> the) data = pair_addrs 0 (c_object_pairs c)"
    using data none unfolding objects_result_def by blast+
  have m: "map snd (map the data) = map (snd \<circ> the) data" "fst ` set (map the data) = set (map (fst \<circ> the) data)" by (simp_all add: image_image)
  have "map the data = layout 0 (map snd (map the data))" unfolding m by (rule d(1))
  moreover have "list_all elem_types_ok (map snd (map the data))" unfolding m by (rule d(2))
  moreover have "fst ` set (map the data) = D" unfolding m d(3) D ..
  ultimately show ?thesis
    unfolding parts_ok_def using sy var_addrs_found [OF vars] e funs
    by (simp add: comp_program_def list_all_iff subset_iff)
qed

section \<open>The outcome of the compiler\<close>

lemma collect_init: "collect_inv (init_cstate rel errs)" "within_tree tree (init_cstate rel errs)"
  by (simp_all add: collect_inv_def within_tree_def init_cstate_def)

text \<open>What generating gives: a program that fits into the buffer and no error, or no program and an error.\<close>

definition comp_outcome :: "comp_error list \<Rightarrow> program \<times> nat \<Rightarrow> cstate \<Rightarrow> bool" where
  "comp_outcome errs r t \<longleftrightarrow> c_errors t = errs \<and> parts_ok (fst r) \<and> length (write_program (fst r)) \<le> snd r"

lemma generate_rest_outcome:
  assumes t: "collect_inv t" "c_relocatable t = rel" "c1 = with_pairs t ps []" "from_tree tree c1" "\<forall>K. pairs_ok K ps"
    and tree: "names_apart tree" "small_tree tree"
    and fs: "mset fs = mset (c_fun_pairs c1)" and vs: "mset vs = mset (c_var_pairs c1)"
    and ids: "\<forall>x\<in>set vs. ids_of_value (snd (snd x)) \<subseteq> pair_ids ps"
  shows "wpx (bindM (generate_rest F fs vs entry) (\<lambda>(e, code, funs, data, vars, ok).
     bindM (reading id) (\<lambda>c. if written_size c > prog_size c1 then undef else if \<not> ok then fail
     else ret (comp_program c (entry \<noteq> None) e code funs data vars, prog_size c1))))
     (comp_outcome (c_errors c1)) (more_errors c1) c1"
proof -
  define D where "D = set (pair_addrs 0 (c_object_pairs c1))"
  note c1 = collected_inv(1) [OF t(1,3), of D] collected_inv(2-5) [OF t(1,3)]
  have "wpx (generate_rest F fs vs entry)
    (\<lambda>r t. adds D (add_needs (funs_needs c1 fs) (add_needs (vars_needs c1 vs) (objects_needs c1 (c_object_pairs c1)))) c1 t \<and>
       rest_result D fs vs (c_object_pairs c1) r \<and> (c_errors t \<noteq> c_errors c1 \<longleftrightarrow> \<not> snd (snd (snd (snd (snd r))))))
    (\<lambda>t. more_errors c1 t) c1"
    by (rule generate_rest_wpx [OF c1(1) _ from_tree_small [OF t(4) tree(2)] D_def]) (use t(5) ids c1(5) in \<open>fastforce+\<close>)
  then show ?thesis
    unfolding wpx_bindM
  proof (rule wpx_mono, goal_cases)
    case (1 r c)
    obtain e code funs data vars ok where r: "r = (e, code, funs, data, vars, ok)" by (cases r)
    have add: "adds D (add_needs (funs_needs c1 fs) (add_needs (vars_needs c1 vs) (objects_needs c1 (c_object_pairs c1)))) c1 c"
      and res: "rest_result D fs vs (c_object_pairs c1) (e, code, funs, data, vars, ok)" and err: "c_errors c \<noteq> c_errors c1 \<longleftrightarrow> \<not> ok"
      using 1 by (simp_all add: r)
    have fr: "same_collected c1 c" "comp_inv D c" using add by (simp_all add: adds_def)
    have le: "written_size c \<le> prog_size c1"
      by (rule written_le_size [OF add fs vs c1(3) from_tree_apart [OF t(4) tree(1)] c1(2)])
    have "more_errors c1 c" if "\<not> ok"
      using add err that by (auto simp: adds_def more_errors_def)
    moreover have "comp_outcome (c_errors c1) (comp_program c (entry \<noteq> None) e code funs data vars, prog_size c1) c" if "ok"
    proof -
      have same: "c_object_pairs c = c_object_pairs c1" "c_fun_pairs c = c_fun_pairs c1" "c_var_pairs c = c_var_pairs c1" "c_fun_infos c = c_fun_infos c1"
        using fr(1) by (simp_all add: same_collected_def)
      have l: "length fs = length (c_fun_pairs c)" "length vs = length (c_var_pairs c)"
        using mset_eq_length [OF fs] mset_eq_length [OF vs] by (simp_all add: same)
      have parts: "parts_ok (comp_program c (entry \<noteq> None) e code funs data vars)"
        by (rule comp_parts_ok [OF fr(2) _ _ _ _ l(1)]) (use c1(4) res that unsigned_less [of e] in \<open>auto simp: same D_def unsigned_ucast_eq take_bit_eq_mod\<close>)
      have code: "length code = funs_code_size fs" "length funs = length fs" and vars: "length vars = length vs"
        and data: "objects_result 0 (c_object_pairs c) data" "None \<notin> set data"
        using res that by (auto simp: rest_result_def funs_result_def vars_result_def same)
      have "funs_code_size fs = comp_code_size c"
        unfolding comp_code_size_def same by (rule sum_list_mset_eq [OF fs])
      then have "length (write_program (comp_program c (entry \<noteq> None) e code funs data vars)) = written_size c"
        using written_size_program [OF _ _ _ data] code vars l by simp
      then show ?thesis using parts le err that by (simp add: comp_outcome_def)
    qed
    ultimately show ?case using le by (simp add: r wpx_rules)
  qed
qed

lemma generate_parts_outcome:
  assumes fo: "\<And>xs. mset (forder xs) = mset xs" and vo: "\<And>xs. mset (vorder xs) = mset xs"
    and tree: "names_apart tree" "small_tree tree"
  shows "wpx (generate_parts F forder vorder tree) (comp_outcome errs) (\<lambda>t. \<exists>es. es \<noteq> [] \<and> c_errors t = errs @ es) (init_cstate rel errs)"
proof -
  let ?c = "init_cstate rel errs"
  have err: "c_errors ?c = errs" "c_relocatable ?c = rel" by (simp_all add: init_cstate_def)
  have "wpx (add_defs tree None) (\<lambda>r t. collected ?c (snd r) t \<and> within_tree tree t) (\<lambda>t. False \<and> within_tree tree t) ?c"
    by (rule wpx_conj [OF add_defs_collects [OF collect_init(1)] add_defs_within [OF subset_refl collect_init(2)]])
  then show ?thesis
    unfolding generate_parts_def wpx_bindM
  proof (rule wpx_mono, goal_cases)
    case (1 r t)
    obtain entry ok1 where r: "r = (entry, ok1)" by fastforce
    have t: "collect_inv t" "c_relocatable t = rel" "within_tree tree t" "if ok1 then c_errors t = errs else more_errors ?c t"
      using 1 by (auto simp: r collected_def err)
    let ?fs = "forder (c_fun_pairs t)" and ?vs = "vorder (c_var_pairs t)"
    obtain ps es ok2 where run2: "\<forall>K. pairs_ok K ps" "allM add_var_objects ?vs t = (Done ok2, with_pairs t ps es)" "ok2 \<longleftrightarrow> es = []"
        "ok2 \<longrightarrow> (\<forall>x\<in>set ?vs. ids_of_value (snd (snd x)) \<subseteq> pair_ids ps)"
      using allM_objects_run [of ?vs t] by blast
    have "set ?vs = set (c_var_pairs t)" by (rule mset_eq_setD [OF vo])
    then have "\<forall>x\<in>set ?vs. snd (snd x) \<in> set (tree_vars tree)" using t(3) by (auto simp: within_tree_def)
    from allM_objects_within [OF this, of t] have "pushed (with_pairs t ps es) \<subseteq> set (tree_objects tree)"
      using t(1) run2(2) by (simp add: pushed_def collect_inv_def)
    then have from_t: "from_tree tree (with_pairs t ps es)"
      using t(3) by (simp add: from_tree_def within_tree_def with_pairs_def)
    show ?case
    proof (cases "ok1 \<and> ok2")
      case True
      then have es: "es = []" and errs: "c_errors (with_pairs t ps []) = errs" using run2(3) t(4) by (simp_all add: with_pairs_def)
      have "wpx (bindM (generate_rest F ?fs ?vs entry) (\<lambda>(e, code, funs, data, vars, ok).
         bindM (reading id) (\<lambda>c. if written_size c > prog_size (with_pairs t ps []) then undef else if \<not> ok then fail
         else ret (comp_program c (entry \<noteq> None) e code funs data vars, prog_size (with_pairs t ps [])))))
         (comp_outcome (c_errors (with_pairs t ps []))) (more_errors (with_pairs t ps [])) (with_pairs t ps [])"
        by (rule generate_rest_outcome [OF t(1,2) refl from_t [unfolded es] run2(1) tree])
          (use fo vo run2(4) True in \<open>simp_all add: with_pairs_def\<close>)
      then have "wpx (bindM (generate_rest F ?fs ?vs entry) (\<lambda>(e, code, funs, data, vars, ok).
         bindM (reading id) (\<lambda>c. if written_size c > prog_size (with_pairs t ps []) then undef else if \<not> ok then fail
         else ret (comp_program c (entry \<noteq> None) e code funs data vars, prog_size (with_pairs t ps [])))))
         (comp_outcome errs) (\<lambda>t. \<exists>es. es \<noteq> [] \<and> c_errors t = errs @ es) (with_pairs t ps [])"
        by (rule wpx_mono) (auto simp: errs more_errors_def)
      then show ?thesis
        using True run2(2) unfolding es by (simp add: r wpx_rules wpx_def run)
    next
      case False
      have "\<exists>es'. es' \<noteq> [] \<and> c_errors (with_pairs t ps es) = errs @ es'"
        using False run2(3) t(4) err by (auto simp: with_pairs_def more_errors_def split: if_splits)
      then show ?thesis using False run2(2) by (auto simp: r wpx_def run)
    qed
  qed simp
qed

definition permutes :: "('a list \<Rightarrow> 'a list) \<Rightarrow> bool" where
  "permutes g \<longleftrightarrow> (\<forall>xs. mset (g xs) = mset xs)"

lemma compile_runs:
  assumes "permutes forder" "permutes vorder" "names_apart tree" "small_tree tree"
  shows "(\<exists>p sz c. generate_parts F forder vorder tree (init_cstate rel errs) = (Done (p, sz), c) \<and> comp_outcome errs (p, sz) c \<and>
      compile F forder vorder rel tree errs = (Done (write_program p @ replicate (sz - length (write_program p)) 0), sort_errors errs)) \<or>
    (\<exists>es. es \<noteq> [] \<and> fst (generate_parts F forder vorder tree (init_cstate rel errs)) = Failed \<and>
      compile F forder vorder rel tree errs = (Failed, sort_errors (errs @ es)))"
proof -
  obtain r c where r: "generate_parts F forder vorder tree (init_cstate rel errs) = (r, c)" by fastforce
  have "wpx (generate_parts F forder vorder tree) (comp_outcome errs) (\<lambda>t. \<exists>es. es \<noteq> [] \<and> c_errors t = errs @ es) (init_cstate rel errs)"
    by (rule generate_parts_outcome) (use assms in \<open>simp_all add: permutes_def\<close>)
  then show ?thesis
    using r by (auto simp: wpx_def compile_def generate_prog_def run comp_outcome_def split: outcome.splits)
qed

text \<open>The limits of the format that the compiler does not test: a file is smaller than \<open>2 ^ 32\<close> bytes,
  every function has an instruction and the names of symbols are shorter than \<open>2 ^ 16\<close>.\<close>

definition within_format :: "program \<Rightarrow> bool" where
  "within_format p \<longleftrightarrow> list_all (\<lambda>f. ff_instr_count f \<noteq> 0) (pg_funs p) \<and> list_all (\<lambda>y. length (sy_name y) < 2 ^ 16) (pg_symbols p)"

lemma parts_file_ok:
  assumes p: "parts_ok p" and lim: "within_format p" and sz: "length (write_program p) < 2 ^ 32"
  shows "file_ok p"
proof -
  have up: "12 * length (pg_funs p) \<le> up8 (12 * length (pg_funs p))" "16 * length (pg_vars p) \<le> up8 (16 * length (pg_vars p))"
    "12 * length (pg_code p) \<le> up8 (12 * length (pg_code p))" "12 * length (pg_relocs p) \<le> up8 (12 * length (pg_relocs p))"
    "12 * length (pg_fun_infos p) \<le> up8 (12 * length (pg_fun_infos p))"
    by (rule up8_le)+
  have "length xs \<le> sum_list (map (\<lambda>y. up8 (7 + length (sy_name y))) xs)" for xs
  proof (induction xs)
    case (Cons y xs)
    then show ?case using up8_le [of "7 + length (sy_name y)"] by simp
  qed simp
  then have sy: "length (pg_symbols p) \<le> sum_list (map (\<lambda>y. up8 (7 + length (sy_name y))) (pg_symbols p))" .
  have d: "length (write_data p) = sum_list (map (\<lambda>(a, ob). up8 (8 + elems_size ob)) (pg_data p))"
    by (simp add: write_data_def length_concat comp_def case_prod_unfold length_write_object)
  have n: "length (pg_funs p) < 2 ^ 32" "length (pg_vars p) < 2 ^ 32" "length (pg_code p) < 2 ^ 32" "length (write_data p) < 2 ^ 32"
    "length (pg_relocs p) < 2 ^ 32" "length (pg_symbols p) < 2 ^ 32" "length (pg_fun_infos p) < 2 ^ 32"
    using sz up sy unfolding length_write_program d by linarith+
  have "unat (ff_addr f) < length (pg_code p) \<and> unat (ff_addr f) + unat (ff_instr_count f) \<le> length (pg_code p)" if f: "f \<in> set (pg_funs p)" for f
  proof -
    have nz: "ff_instr_count f \<noteq> 0" using lim f by (simp add: within_format_def list_all_iff)
    then obtain k m where km: "ff_addr f = of_nat k" "ff_instr_count f = of_nat m" "k + m \<le> length (pg_code p)"
      using p f unfolding parts_ok_def by blast
    have "unat (of_nat k :: u32) = k" "unat (of_nat m :: u32) = m" by (rule unat_count, use km(3) n(3) in linarith)+
    then have "unat (ff_addr f) = k" "unat (ff_instr_count f) = m" by (simp_all only: km(1,2))
    moreover have "m \<noteq> 0" using nz unfolding km(2) by (rule contrapos_nn) simp
    ultimately show ?thesis using km(3) by simp
  qed
  then have fs: "list_all (\<lambda>f. unat (ff_addr f) < length (pg_code p) \<and> unat (ff_addr f) + unat (ff_instr_count f) \<le> length (pg_code p)) (pg_funs p)"
    by (simp add: list_all_iff)
  have sy2: "list_all (\<lambda>y. length (sy_name y) < 2 ^ 16 \<and> symbol_type_ok fl (sy_type y)) ys \<longleftrightarrow>
      list_all (\<lambda>y. length (sy_name y) < 2 ^ 16) ys \<and> list_all (\<lambda>y. symbol_type_ok fl (sy_type y)) ys" for fl ys
    by (auto simp: list_all_iff)
  show ?thesis
    unfolding file_ok_def sy2 using p lim n fs unfolding parts_ok_def within_format_def by presburger
qed

lemma compiled_program_loads:
  assumes "permutes forder" "permutes vorder" "names_apart tree" "small_tree tree"
    and parts: "generate_parts F forder vorder tree (init_cstate rel errs) = (Done (p, sz), c)" and lim: "within_format p" "sz < 2 ^ 32"
  shows "compile F forder vorder rel tree errs = (Done bs, es) \<Longrightarrow> load bs = Done p"
proof -
  assume bs: "compile F forder vorder rel tree errs = (Done bs, es)"
  have out: "comp_outcome errs (p, sz) c" and bs': "bs = write_program p @ replicate (sz - length (write_program p)) 0"
    using compile_runs [OF assms(1-4), of F rel errs] parts bs by auto
  then have p: "parts_ok p" "length (write_program p) \<le> sz" by (simp_all add: comp_outcome_def)
  have "file_ok p" by (rule parts_file_ok [OF p(1) lim(1)]) (use p(2) lim(2) in linarith)
  then show ?thesis unfolding bs' by (rule written_program_loads) (use p(2) lim(2) in simp)
qed

section \<open>Examples\<close>

definition sample_pos :: position where
  "sample_pos = Position ''a.letins'' 1 1"

definition sample_line :: "string option \<Rightarrow> string \<Rightarrow> string option \<Rightarrow> carg option \<Rightarrow> carg option \<Rightarrow> fun_line" where
  "sample_line l n p a b = \<lparr>fl_label = map_option (\<lambda>n. (n, sample_pos)) l,
     fl_instr = Some \<lparr>ci_instr = n, ci_op = p, ci_arg1 = a, ci_arg2 = b, ci_local_var_count = None, ci_pos = sample_pos\<rparr>\<rparr>"

text \<open>Two functions, one of them with a label, a jump and a call of a function of another program; a variable
  for a tuple of a number, an array and a native function, a variable for a function, and an entry.\<close>

definition sample_fun :: cfun where
  "sample_fun = \<lparr>cf_arg_count = 1, cf_lines = [
     sample_line (Some ''l'') ''arg'' (Some ''iload'') (Some (AArg 0 sample_pos)) None,
     sample_line None ''jc'' None (Some (AImm (AVFun ''h'') sample_pos)) (Some (AIdent ''l'' sample_pos)),
     sample_line None ''jump'' None (Some (AIdent ''l'' sample_pos)) None,
     sample_line None ''ret'' (Some ''iadd'') (Some (AIdent ''v'' sample_pos)) (Some (AImm (AVInt 7) sample_pos))]\<rparr>"

definition sample_object :: cobject where
  "sample_object = CObject 0 ''tuple'' [CInt 5 sample_pos,
     CRef (CObject 1 ''iarray8'' [CInt 1 sample_pos, CInt 2 sample_pos] sample_pos) sample_pos, CNativeFun ''nat'' sample_pos] sample_pos"

definition sample_tree :: parse_tree where
  "sample_tree = [FunDef [(''lazy'', sample_pos)] PUBLIC ''f'' sample_fun sample_pos,
     FunDef [] PRIVATE ''g'' \<lparr>cf_arg_count = 0, cf_lines = [sample_line None ''ret'' (Some ''iload'') (Some (AImm (AVInt 1) sample_pos)) None]\<rparr> sample_pos,
     VarDef PRIVATE ''v'' (CRef sample_object sample_pos) sample_pos, VarDef PUBLIC ''w'' (CFun ''f'' sample_pos) sample_pos,
     EntryDef ''f'' sample_pos]"

lemma sample_tree_ok: "permutes id" "names_apart sample_tree" "small_tree sample_tree"
proof -
  show "permutes id" by (simp add: permutes_def)
  show "names_apart sample_tree" by code_simp
  show "small_tree sample_tree" by code_simp
qed

lemma sample_parts:
  obtains p sz c where "generate_parts zero_fpu id id sample_tree (init_cstate True []) = (Done (p, sz), c)" "within_format p" "sz < 2 ^ 32"
proof -
  have "case generate_parts zero_fpu id id sample_tree (init_cstate True []) of
     (Done (p, sz), c) \<Rightarrow> sz < 1000 \<and> list_all (\<lambda>f. ff_instr_count f \<noteq> 0) (pg_funs p) \<and> list_all (\<lambda>y. length (sy_name y) < 10) (pg_symbols p)
   | _ \<Rightarrow> False" by code_simp
  then show ?thesis using that by (fastforce simp: within_format_def list_all_iff split: prod.splits outcome.splits)
qed

text \<open>C4: The outcome of the compiler for a parse tree in which no native function that a variable or an element stands for
  has the name of a function (\<open>names_apart\<close>) and in which every object is smaller than \<open>2 ^ 31\<close> bytes (\<open>small_tree\<close>): in
  whatever order its hash tables hand out functions and variables, it either makes a file whose parts are
  consistent and reports no new error, or makes no file and reports at least one. Under these conditions it never writes
  behind the end of its buffer and never looks up an object it did not place; without the first it may
  (\<open>native_name_overruns\<close>).\<close>

theorem compile_outcome:
  assumes "permutes forder" "permutes vorder" "names_apart tree" "small_tree tree"
  shows "case compile F forder vorder rel tree errs of
      (Done bs, es) \<Rightarrow> es = sort_errors errs \<and> (\<exists>p z. parts_ok p \<and> bs = write_program p @ replicate z 0)
    | (Failed, es) \<Rightarrow> (\<exists>new. new \<noteq> [] \<and> es = sort_errors (errs @ new))
    | _ \<Rightarrow> False"
  using compile_runs [OF assms, of F rel errs] by (elim disjE exE conjE) (auto simp: comp_outcome_def intro!: exI)

lemma compile_outcome_witness:
  "case compile zero_fpu id id True sample_tree [] of
      (Done bs, es) \<Rightarrow> es = sort_errors [] \<and> (\<exists>p z. parts_ok p \<and> bs = write_program p @ replicate z 0)
    | (Failed, es) \<Rightarrow> (\<exists>new. new \<noteq> [] \<and> es = sort_errors ([] @ new))
    | _ \<Rightarrow> False"
  by (rule compile_outcome) (rule sample_tree_ok)+

text \<open>A public function \<open>n\<close> that returns the number \<open>i\<close>, and a variable \<open>m\<close> for the native function \<open>n\<close>.\<close>

definition overrun_fun :: "u64 \<Rightarrow> cfun" where
  "overrun_fun i = \<lparr>cf_arg_count = 1, cf_lines = [sample_line None ''ret'' (Some ''iload'') (Some (AImm (AVInt i) sample_pos)) None]\<rparr>"

definition overrun_tree :: "string \<Rightarrow> string \<Rightarrow> u64 \<Rightarrow> parse_tree" where
  "overrun_tree n m i = [FunDef [] PUBLIC n (overrun_fun i) sample_pos, VarDef PRIVATE m (CNativeFun n sample_pos) sample_pos]"

text \<open>What is collected from it.\<close>

definition overrun_state :: "string \<Rightarrow> string \<Rightarrow> u64 \<Rightarrow> comp_error list \<Rightarrow> cstate" where
  "overrun_state n m i errs = (init_cstate True errs)\<lparr>c_fun_pairs := [(n, 0, overrun_fun i)],
     c_var_pairs := [(m, 0, CNativeFun n sample_pos)], c_symbols := [\<lparr>cs_type = 16, cs_name = n, cs_index = 0\<rparr>]\<rparr>"

lemma permutes_single: "permutes g \<Longrightarrow> g [x] = [x]"
  unfolding permutes_def by (metis mset_single_iff mset.simps(1) mset.simps(2))

lemma overrun_collected: "add_defs (overrun_tree n m i) None (init_cstate True errs) = (Done (None, True), overrun_state n m i errs)"
  by (simp add: overrun_tree_def overrun_state_def run init_cstate_def succeeds_def attempt_def
    add_fun_def_def add_var_def_def add_symbol_def Let_def no_annot_info_def)

lemma overrun_size: "prog_size (overrun_state n m i errs) = 112 + up8 (7 + length n)"
  by (simp add: prog_size_def overrun_state_def overrun_fun_def init_cstate_def up8_def comp_code_size_def fun_instrs_def sample_line_def
      comp_data_size_def all_values_def all_reloc_args_def is_fun_value_def fun_name_of_value_def names_size_def symbol_names_def
      reloc_args_def fun_name_of_arg_def var_name_of_arg_def native_fun_name_of_arg_def)

lemma overrun_code:
  assumes "- (2 ^ 31) \<le> sint i" "sint i < 2 ^ 32"
  shows "generate_fun F 0 (overrun_fun i) s =
    (Done ([Some \<lparr>i_opcode = opcode INSTR_RET OP_ILOAD ARG_TYPE_IMM ARG_TYPE_IMM 2, i_arg1 = ucast i, i_arg2 = 0\<rparr>], True), s)"
proof -
  have "map_of op_descs ''iload'' = Some (OP_ILOAD, VALUE_TYPE_INT, VALUE_TYPE_ERROR)" by code_simp
  then show ?thesis
    using assms
    by (simp add: generate_fun_def overrun_fun_def fun_instrs_def sample_line_def run generate_instr_def generate_instr_with_op_def
        generate_arg1_def generate_arg2_def Let_def attempt_def arg_to_format_arg_def imm_to_format_arg_def generate_local_var_count_def)
qed

text \<open>C37: The condition on names of the outcome of the compiler is needed: in a relocatable program of a public function
  that returns a number and a variable that stands for the native function of the same name, whatever the name
  is, the compiler counts one symbol of this name but writes two, and the second one ends behind the buffer.\<close>

theorem native_name_overruns: 
  assumes "permutes forder" "permutes vorder" "- (2 ^ 31) \<le> sint i" "sint i < 2 ^ 32"
  shows "compile F forder vorder True (overrun_tree n m i) errs = (Undefined, sort_errors errs)"
proof -
  let ?s = "overrun_state n m i errs"
  have rel: "written_size (?s\<lparr>c_extern_native_funs := g, c_symbols := c_symbols ?s @ [\<lparr>cs_type = t, cs_name = n, cs_index = 0\<rparr>], c_relocs := rs\<rparr>)
      = 112 + 2 * up8 (7 + length n)" if "length rs = 1" for rs t g
    using that by (simp add: written_size_def overrun_state_def overrun_fun_def init_cstate_def comp_code_size_def comp_data_size_def
        fun_instrs_def sample_line_def up8_def)
  have "up8 (7 + length n) > 0" by (simp add: up8_def)
  moreover have fs: "c_fun_pairs ?s = [(n, 0, overrun_fun i)]" "c_var_pairs ?s = [(m, 0, CNativeFun n sample_pos)]" "c_object_pairs ?s = []" 
    "c_relocatable ?s" "c_extern_native_funs ?s = Map.empty" "c_relocs ?s = []" "c_errors ?s = errs" by (simp_all add: overrun_state_def init_cstate_def)
  ultimately show ?thesis
  using assms rel
  by (simp add: compile_def generate_prog_def generate_parts_def overrun_collected run overrun_size permutes_single generate_rest_def overrun_code
    attempt_def Let_def get_native_fun_index_and_add_reloc_def add_reloc_def push_reloc_def add_symbol_def add_var_objects_def)
qed

lemma native_name_overruns_witness: "compile zero_fpu id id True (overrun_tree ''f'' ''w'' 7) [] = (Undefined, sort_errors [])"
  by (rule native_name_overruns) (simp_all add: permutes_def)

text \<open>C5: What the compiler writes, the loader accepts and reads back as the very parts that were generated, under the
  limits of the format, which the compiler does not test: the file is smaller than \<open>2 ^ 32\<close> bytes, no function is
  empty and the names of symbols are shorter than \<open>2 ^ 16\<close> bytes (\<open>within_format\<close>); and for the trees of the
  outcome of the compiler (\<open>names_apart\<close>, \<open>small_tree\<close>).\<close>

theorem compiled_file_loads:
  assumes "permutes forder" "permutes vorder" "names_apart tree" "small_tree tree"
    and "generate_parts F forder vorder tree (init_cstate rel errs) = (Done (p, sz), c)" "within_format p" "sz < 2 ^ 32"
  shows "\<exists>bs. compile F forder vorder rel tree errs = (Done bs, sort_errors errs) \<and> load bs = Done p"
  using compile_runs [OF assms(1-4), of F rel errs] compiled_program_loads [OF assms] assms(5) by fastforce

lemma compiled_file_loads_witness:
  "\<exists>p sz c bs. generate_parts zero_fpu id id sample_tree (init_cstate True []) = (Done (p, sz), c) \<and>
     compile zero_fpu id id True sample_tree [] = (Done bs, sort_errors []) \<and> load bs = Done p"
proof -
  obtain p sz c where s: "generate_parts zero_fpu id id sample_tree (init_cstate True []) = (Done (p, sz), c)" "within_format p" "sz < 2 ^ 32"
    by (rule sample_parts)
  show ?thesis using compiled_file_loads [OF sample_tree_ok(1,1,2,3) s] s(1) by blast
qed

text \<open>C36: The errors come out sorted by the name of the file, then by line, then by column; none is lost or invented, and
  the errors of one position stay in the order in which they were reported.\<close>

theorem errors_sorted:
  "sorted_wrt (\<lambda>e1 e2. let p = fst e1; q = fst e2 in
       pos_file p < pos_file q \<or> pos_file p = pos_file q \<and>
         (pos_line p < pos_line q \<or> pos_line p = pos_line q \<and> pos_column p \<le> pos_column q)) (sort_errors errs) \<and>
   mset (sort_errors errs) = mset errs \<and> filter (\<lambda>e. fst e = p) (sort_errors errs) = filter (\<lambda>e. fst e = p) errs"
proof -
  have "(\<lambda>x. \<not> position_before (fst x) p \<and> \<not> position_before p (fst x)) = (\<lambda>e :: comp_error. fst e = p)"
    by (auto simp: position_before_def fun_eq_iff position.expand not_less_iff_gr_or_eq split: if_splits)
  then have "filter (\<lambda>e. fst e = p) (sort_errors errs) = filter (\<lambda>e. fst e = p) errs"
    using by_position.stable_list_sort [of "(p, [])" errs] by (simp add: sort_errors_def)
  moreover have "sorted_wrt (\<lambda>e1 e2. let p = fst e1; q = fst e2 in
       pos_file p < pos_file q \<or> pos_file p = pos_file q \<and>
         (pos_line p < pos_line q \<or> pos_line p = pos_line q \<and> pos_column p \<le> pos_column q)) (sort_errors errs)"
    unfolding sort_errors_def
    by (rule sorted_wrt_mono_rel [OF _ by_position.sorted_list_sort]) (auto simp: position_before_def Let_def not_less split: if_splits)
  ultimately show ?thesis by (simp add: sort_errors_def)
qed

end
