(* ===== verification/Comp_Decode.thy ===== *)
theory Comp_Decode
  imports Comp_File Interpreter
begin

unbundle bit_operations_syntax

text \<open>
  What the interpreter decodes is what the compiler was given: the fields of a compiled instruction, and the
  places at which compiled jumps land.
\<close>

section \<open>Results of the compiler\<close>

text \<open>\<open>gives m Q\<close>: whenever \<open>m\<close> returns, its result satisfies \<open>Q\<close>.\<close>

definition gives :: "'a comp \<Rightarrow> ('a \<Rightarrow> bool) \<Rightarrow> bool" where
  "gives m Q \<longleftrightarrow> (\<forall>c x t. m c = (Done x, t) \<longrightarrow> Q x)"

lemma givesD: "gives m Q \<Longrightarrow> m c = (Done x, t) \<Longrightarrow> Q x"
  unfolding gives_def by blast

lemma gives_ret: "Q x \<Longrightarrow> gives (ret x) Q"
  and gives_fail: "gives fail Q"
  and gives_error: "gives (comp_error p msg) Q"
  by (simp_all add: gives_def comp_error_def report_def run)

lemma gives_any: "(\<And>x. Q x) \<Longrightarrow> gives m Q"
  by (simp add: gives_def)

lemma gives_mono: "gives m R \<Longrightarrow> (\<And>x. R x \<Longrightarrow> Q x) \<Longrightarrow> gives m Q"
  by (auto simp: gives_def)

lemma gives_bind:
  assumes "gives m R" "\<And>x. R x \<Longrightarrow> gives (f x) Q"
  shows "gives (bindM m f) Q"
  using assms by (auto simp: gives_def bindM_def split: prod.splits outcome.splits) blast

lemma gives_then: "(\<And>x. gives (f x) Q) \<Longrightarrow> gives (bindM m f) Q"
  by (rule gives_bind [where R = "\<lambda>_. True"]) (simp_all add: gives_any)

lemma gives_seq: "gives m Q \<Longrightarrow> gives (seqM n m) Q"
  by (simp add: seqM_def gives_bind [where R = "\<lambda>_. True"] gives_any)

lemma gives_attempt: "gives m Q \<Longrightarrow> gives (attempt m) (\<lambda>r. \<forall>x. r = Some x \<longrightarrow> Q x)"
  by (auto simp: gives_def attempt_def split: prod.splits outcome.splits)

lemma gives_collectM: "(\<And>x. x \<in> set xs \<Longrightarrow> gives (f x) (Q x)) \<Longrightarrow> gives (collectM f xs) (list_all2 Q xs)"
proof (induction xs)
  case (Cons x xs)
  then have "gives (f x) (Q x)" "gives (collectM f xs) (list_all2 Q xs)" by simp_all
  then show ?case by (auto intro!: gives_bind [of "f x" "Q x"] gives_bind [of "collectM f xs" "list_all2 Q xs"] gives_ret)
qed (simp add: gives_ret)

section \<open>The fields of an instruction\<close>

text \<open>The kind of an argument; there is no argument where an immediate one is zero.\<close>

fun arg_kind :: "carg option \<Rightarrow> u32" where
  "arg_kind None = ARG_TYPE_IMM"
| "arg_kind (Some (AImm _ _)) = ARG_TYPE_IMM"
| "arg_kind (Some (ALVar _ _)) = ARG_TYPE_LVAR"
| "arg_kind (Some (AArg _ _)) = ARG_TYPE_ARG"
| "arg_kind (Some (AIdent _ _)) = ARG_TYPE_GVAR"
| "arg_kind (Some (APop _)) = ARG_TYPE_POP"
| "arg_kind (Some (AEval _ _)) = ARG_TYPE_EVAL"

lemma gives_arg: "gives (arg_to_format_arg F a vt pc b p) (\<lambda>r. snd r = arg_kind (Some a))"
  unfolding arg_to_format_arg_def
  by (cases a) (auto intro!: gives_error gives_ret gives_then)

lemma gives_arg1: "gives (generate_arg1 F x desc pc) (\<lambda>r. (\<forall>y. fst r = Some y \<longrightarrow> snd y = arg_kind (ci_arg1 x)) \<and>
    (snd r \<noteq> None \<longrightarrow> ci_arg2 x = None))"
proof -
  define R where "R = (\<lambda>r :: (u32 \<times> u32) option \<times> u32 option. (\<forall>y. fst r = Some y \<longrightarrow> snd y = arg_kind (ci_arg1 x)) \<and>
    (snd r \<noteq> None \<longrightarrow> ci_arg2 x = None))"
  have arg: "ci_arg1 x = Some a \<Longrightarrow> gives (bindM (attempt (arg_to_format_arg F a vt pc True p)) (\<lambda>r. ret (r, None))) R" for a vt p
    by (rule gives_bind [OF gives_attempt [OF gives_arg]]) (auto intro!: gives_ret simp: R_def)
  have R: "R (None, None)" "ci_arg1 x = None \<Longrightarrow> R (Some (0, ARG_TYPE_IMM), None)"
    "ci_arg1 x = Some (AImm v p) \<Longrightarrow> ci_arg2 x = None \<Longrightarrow> R (Some (w, ARG_TYPE_IMM), Some u)" for v p w u
    by (auto simp: R_def)
  show ?thesis
    unfolding R_def [symmetric] generate_arg1_def Let_def
    by (auto split: option.split carg.split arg_value.split intro!: gives_seq gives_ret arg R)
qed

lemma gives_arg2: "low \<noteq> None \<longrightarrow> ci_arg2 x = None \<Longrightarrow> gives (generate_arg2 F x desc pc low) (\<lambda>r. \<forall>y. r = Some y \<longrightarrow> snd y = arg_kind (ci_arg2 x))"
  using gives_attempt [OF gives_arg]
  by (auto simp: generate_arg2_def split: option.split intro!: gives_seq gives_ret)

text \<open>The number of local variables that is given, which is 2 where there is none.\<close>

definition local_vars_given :: "cinstr \<Rightarrow> u32" where
  "local_vars_given x = (case ci_local_var_count x of None \<Rightarrow> 2 | Some n \<Rightarrow> n)"

lemma gives_local_var_count:
  "gives (generate_local_var_count x oi) (\<lambda>r. \<forall>n. r = Some n \<longrightarrow> n = local_vars_given x \<and> 2 \<le> n \<and> n \<le> 258 \<and> (oi \<noteq> INSTR_LETTUPLE \<longrightarrow> n = 2))"
  by (auto simp: generate_local_var_count_def local_vars_given_def not_less split: option.split intro!: gives_seq gives_ret)

definition instr_numbers :: "(string \<times> u32) list" where
  "instr_numbers = [(''let'', INSTR_LET), (''in'', INSTR_IN), (''ret'', INSTR_RET), (''jc'', INSTR_JC), (''jump'', INSTR_JUMP),
     (''arg'', INSTR_ARG), (''retry'', INSTR_RETRY), (''lettuple'', INSTR_LETTUPLE), (''throw'', INSTR_THROW),
     (''push'', INSTR_PUSH), (''pop'', INSTR_POP), (''rethrow'', INSTR_RETHROW)]"

definition op_number :: "cinstr \<Rightarrow> u32 \<Rightarrow> bool" where
  "op_number x k \<longleftrightarrow> (case ci_op x of None \<Rightarrow> k = 0 | Some n \<Rightarrow> (\<exists>d. map_of op_descs n = Some (k, d)))"

text \<open>A place in the code or a number of an evaluation is not a kind of argument.\<close>

definition kinds_of :: "cinstr \<Rightarrow> u32 \<times> u32" where
  "kinds_of x = (if ci_instr x \<in> {''jump'', ''pop''} then (ARG_TYPE_IMM, ARG_TYPE_IMM)
     else if ci_instr x = ''jc'' then (arg_kind (ci_arg1 x), ARG_TYPE_IMM) else (arg_kind (ci_arg1 x), arg_kind (ci_arg2 x)))"

definition encodes :: "cinstr \<Rightarrow> u32 \<Rightarrow> bool" where
  "encodes x w \<longleftrightarrow> (\<exists>k p n. map_of instr_numbers (ci_instr x) = Some k \<and> op_number x p \<and> p < 256 \<and>
     w = opcode k p (fst (kinds_of x)) (snd (kinds_of x)) n \<and> 2 \<le> n \<and> n \<le> 258 \<and>
     (k = INSTR_LETTUPLE \<longrightarrow> n = local_vars_given x) \<and> (k \<noteq> INSTR_LETTUPLE \<longrightarrow> n = 2))"

lemma op_descs_byte: "map_of op_descs n = Some d \<Longrightarrow> fst d < 256"
proof -
  have "list_all (\<lambda>x. fst (snd x) < 256) op_descs" by (simp add: op_descs_def)
  then show "map_of op_descs n = Some d \<Longrightarrow> fst d < 256" by (auto simp: list_all_iff dest!: map_of_SomeD)
qed

lemma gives_with_op:
  assumes "map_of instr_numbers (ci_instr x) = Some oi" "ci_instr x \<notin> {''jump'', ''pop'', ''jc''}"
  shows "gives (generate_instr_with_op F addr pc x oi) (\<lambda>i. encodes x (i_opcode i))"
proof (cases "ci_op x")
  case (Some op)
  show ?thesis
  proof (cases "map_of op_descs op")
    case d: (Some desc)
    have op: "op_number x (fst desc)" "fst desc < 256" using Some d op_descs_byte [OF d] by (cases desc; simp add: op_number_def)+
    have k: "kinds_of x = (arg_kind (ci_arg1 x), arg_kind (ci_arg2 x))" using assms(2) by (auto simp: kinds_of_def)
    show ?thesis
      unfolding generate_instr_with_op_def Some d option.case
    proof (rule gives_bind [OF gives_arg1], goal_cases)
      case (1 r)
      obtain r1 low where r: "r = (r1, low)" by fastforce
      show ?case
        unfolding r prod.case
      proof (rule gives_bind [OF gives_arg2], goal_cases)
        case 1
        then show ?case using \<open>_ \<and> _\<close> by (simp add: r)
      next
        case (2 r2)
        show ?case
          by (rule gives_bind [OF gives_local_var_count])
            (use 1 2 assms(1) op k in \<open>auto simp: r encodes_def intro!: gives_ret gives_fail split: option.split\<close>)
      qed
    qed
  qed (simp add: generate_instr_with_op_def Some gives_error)
qed (simp add: generate_instr_with_op_def gives_error)

lemma gives_without_op:
  assumes "map_of instr_numbers (ci_instr x) = Some oi" "ci_instr x \<in> {''in'', ''retry''}"
  shows "gives (generate_instr_without_op x oi) (\<lambda>i. encodes x (i_opcode i))"
  using assms
  by (auto simp: generate_instr_without_op_def encodes_def op_number_def kinds_of_def instr_numbers_def intro!: gives_error gives_ret)

text \<open>A jump and a conditional jump moreover go to a label; \<open>to_label labels pc\<close> says where.\<close>

definition to_label :: "(string \<rightharpoonup> u32) \<Rightarrow> u32 \<Rightarrow> carg option \<Rightarrow> u32 \<Rightarrow> bool" where
  "to_label labels pc a v \<longleftrightarrow> (\<exists>n p l. a = Some (AIdent n p) \<and> labels n = Some l \<and> v = l - (pc + 1))"

lemma gives_label: "gives (get_instr_addr labels n p) (\<lambda>l. labels n = Some l)"
  by (auto simp: get_instr_addr_def split: option.split intro!: gives_error gives_ret)

lemma gives_jc:
  assumes "ci_instr x = ''jc''"
  shows "gives (generate_jc F labels addr pc x) (\<lambda>i. encodes x (i_opcode i) \<and> to_label labels pc (ci_arg2 x) (i_arg2 i))"
proof (cases "ci_op x")
  case None
  have a1: "gives (case ci_arg1 x of Some a \<Rightarrow> arg_to_format_arg F a VALUE_TYPE_INT (pc + addr) True (ci_pos x)
       | None \<Rightarrow> comp_error (ci_pos x) ''incorrect number of arguments'') (\<lambda>r. snd r = arg_kind (ci_arg1 x))"
    using gives_arg by (auto split: option.split intro: gives_error)
  have a2: "gives (case ci_arg2 x of Some (AIdent n p) \<Rightarrow> get_instr_addr labels n p | Some a \<Rightarrow> comp_error (arg_pos a) ''argument isn't label''
       | None \<Rightarrow> comp_error (ci_pos x) ''incorrect number of arguments'') (\<lambda>l. \<exists>n p. ci_arg2 x = Some (AIdent n p) \<and> labels n = Some l)"
    using gives_label by (auto split: option.split carg.split intro: gives_error)
  have e: "encodes x (opcode INSTR_JC 0 (arg_kind (ci_arg1 x)) ARG_TYPE_IMM 2)"
    using assms None by (auto simp: encodes_def instr_numbers_def op_number_def kinds_of_def)
  show ?thesis
    unfolding generate_jc_def None
    by (simp, rule gives_bind [OF gives_attempt [OF a1]], rule gives_bind [OF gives_attempt [OF a2]])
      (use e in \<open>auto simp: to_label_def split: option.split intro!: gives_ret gives_fail\<close>)
qed (simp add: generate_jc_def gives_error)

lemma gives_jump:
  assumes "ci_instr x = ''jump''"
  shows "gives (generate_jump labels pc x) (\<lambda>i. encodes x (i_opcode i) \<and> to_label labels pc (ci_arg1 x) (i_arg1 i))"
proof (cases "ci_op x")
  case None
  then have e: "encodes x (opcode INSTR_JUMP 0 ARG_TYPE_IMM ARG_TYPE_IMM 2)"
    using assms by (auto simp: encodes_def instr_numbers_def op_number_def kinds_of_def)
  then show ?thesis
    unfolding generate_jump_def None
    by (auto simp: to_label_def split: option.split carg.split intro!: gives_error gives_ret gives_bind [OF gives_label])
qed (simp add: generate_jump_def gives_error)

lemma gives_throw:
  assumes "map_of instr_numbers (ci_instr x) = Some oi" "ci_instr x \<in> {''throw'', ''rethrow''}"
  shows "gives (generate_throw_or_rethrow F addr pc x oi) (\<lambda>i. encodes x (i_opcode i))"
proof (cases "ci_op x")
  case None
  have "encodes x (opcode oi 0 (arg_kind (Some a)) ARG_TYPE_IMM 2)" if "ci_arg1 x = Some a" "ci_arg2 x = None" for a
    using assms None that by (auto simp: encodes_def instr_numbers_def op_number_def kinds_of_def)
  then show ?thesis
    unfolding generate_throw_or_rethrow_def None
    by (auto split: option.split intro!: gives_error gives_ret gives_bind [OF gives_arg])
qed (simp add: generate_throw_or_rethrow_def gives_error)

lemma gives_pop:
  assumes "ci_instr x = ''pop''"
  shows "gives (generate_pop x) (\<lambda>i. encodes x (i_opcode i))"
  using assms
  by (auto simp: generate_pop_def encodes_def op_number_def kinds_of_def instr_numbers_def split: option.split carg.split intro!: gives_error gives_ret)

lemma generated_encodes:
  "gives (generate_instr F labels addr pc x) (\<lambda>i. encodes x (i_opcode i) \<and>
     (ci_instr x = ''jump'' \<longrightarrow> to_label labels pc (ci_arg1 x) (i_arg1 i)) \<and> (ci_instr x = ''jc'' \<longrightarrow> to_label labels pc (ci_arg2 x) (i_arg2 i)))"
proof -
  have n: "map_of instr_numbers ''let'' = Some INSTR_LET" "map_of instr_numbers ''in'' = Some INSTR_IN" "map_of instr_numbers ''ret'' = Some INSTR_RET"
    "map_of instr_numbers ''arg'' = Some INSTR_ARG" "map_of instr_numbers ''retry'' = Some INSTR_RETRY" "map_of instr_numbers ''lettuple'' = Some INSTR_LETTUPLE"
    "map_of instr_numbers ''throw'' = Some INSTR_THROW" "map_of instr_numbers ''push'' = Some INSTR_PUSH" "map_of instr_numbers ''rethrow'' = Some INSTR_RETHROW"
    by (simp_all add: instr_numbers_def)
  show ?thesis
    unfolding generate_instr_def Let_def
    using gives_jc [of x F labels addr pc] gives_jump [of x labels pc] gives_pop [of x]
    by (auto simp: n intro: gives_error gives_with_op gives_without_op gives_throw)
qed

section \<open>The arguments of an instruction\<close>

text \<open>The word of an argument: a number, the number of a local variable, an argument or an evaluation, or the index
  of a function or of a variable. What is not defined in the program gets the index 0, for the relocation to fill in.\<close>

fun arg_word :: "fpu \<Rightarrow> cstate \<Rightarrow> carg option \<Rightarrow> u32" where
  "arg_word F c None = 0"
| "arg_word F c (Some (AImm (AVInt i) _)) = ucast i"
| "arg_word F c (Some (AImm (AVFloat f) _)) = f_narrow F f"
| "arg_word F c (Some (AImm (AVFun n) _)) = (case map_of (c_fun_pairs c) n of Some (i, _) \<Rightarrow> i | None \<Rightarrow> 0)"
| "arg_word F c (Some (AImm (AVNativeFun _) _)) = 0"
| "arg_word F c (Some (ALVar i _)) = i"
| "arg_word F c (Some (AArg i _)) = i"
| "arg_word F c (Some (AIdent n _)) = (case map_of (c_var_pairs c) n of Some (i, _) \<Rightarrow> i | None \<Rightarrow> 0)"
| "arg_word F c (Some (APop _)) = 0"
| "arg_word F c (Some (AEval i _)) = i"

text \<open>A number that fits into an argument, read with a sign or without.\<close>

fun number_fits :: "carg option \<Rightarrow> bool" where
  "number_fits (Some (AImm (AVInt i) _)) \<longleftrightarrow> INT32_MIN \<le> sint i \<and> sint i \<le> UINT32_TOP"
| "number_fits _ \<longleftrightarrow> True"

text \<open>The long number that takes up both arguments.\<close>

definition long_number :: "cinstr \<Rightarrow> u64 option" where
  "long_number x = (case (ci_arg1 x, ci_arg2 x) of
     (Some (AImm (AVInt i) _), None) \<Rightarrow> if ci_op x = Some ''iload2'' then Some i else None
   | (Some (AImm (AVFloat f) _), None) \<Rightarrow> if ci_op x = Some ''fload2'' then Some f else None
   | _ \<Rightarrow> None)"

definition words_of_args :: "fpu \<Rightarrow> (string \<rightharpoonup> u32) \<Rightarrow> u32 \<Rightarrow> cstate \<Rightarrow> cinstr \<Rightarrow> u32 \<Rightarrow> u32 \<Rightarrow> bool" where
  "words_of_args F labels pc c x a1 a2 \<longleftrightarrow>
     (case long_number x of
        Some n \<Rightarrow> push_bit 32 (scast a1) OR (scast a2 AND 0xffffffff) = n
      | None \<Rightarrow>
          (if ci_instr x = ''jump'' then to_label labels pc (ci_arg1 x) a1 else number_fits (ci_arg1 x) \<and> a1 = arg_word F c (ci_arg1 x)) \<and>
          (if ci_instr x = ''jc'' then to_label labels pc (ci_arg2 x) a2 else number_fits (ci_arg2 x) \<and> a2 = arg_word F c (ci_arg2 x)))"

text \<open>\<open>gives_in c0 m Q\<close>: from a state with the functions and variables of \<open>c0\<close>, \<open>m\<close> leads to such a state, and its
  result satisfies \<open>Q\<close>.\<close>

definition same_names :: "cstate \<Rightarrow> cstate \<Rightarrow> bool" where
  "same_names c0 c \<longleftrightarrow> c_fun_pairs c = c_fun_pairs c0 \<and> c_var_pairs c = c_var_pairs c0"

definition gives_in :: "cstate \<Rightarrow> 'a comp \<Rightarrow> ('a \<Rightarrow> bool) \<Rightarrow> bool" where
  "gives_in c0 m Q \<longleftrightarrow> (\<forall>c r t. same_names c0 c \<longrightarrow> m c = (r, t) \<longrightarrow> same_names c0 t \<and> (\<forall>x. r = Done x \<longrightarrow> Q x))"

lemma same_names_refl [simp]: "same_names c c"
  by (simp add: same_names_def)

lemma gives_inD: "gives_in c m Q \<Longrightarrow> m c = (Done x, t) \<Longrightarrow> Q x"
  unfolding gives_in_def using same_names_refl by blast

lemma gives_in_ret: "Q x \<Longrightarrow> gives_in c0 (ret x) Q"
  and gives_in_fail: "gives_in c0 fail Q"
  and gives_in_error: "gives_in c0 (comp_error p msg) Q"
  by (simp_all add: gives_in_def comp_error_def report_def run same_names_def)

lemma gives_in_report: "Q () \<Longrightarrow> gives_in c0 (report p msg) Q"
  by (simp add: gives_in_def report_def run same_names_def)

lemma gives_in_any: "gives_in c0 m Q \<Longrightarrow> gives_in c0 m (\<lambda>_. True)"
  unfolding gives_in_def by blast

lemma gives_in_bind:
  assumes "gives_in c0 m R" "\<And>x. R x \<Longrightarrow> gives_in c0 (f x) Q"
  shows "gives_in c0 (bindM m f) Q"
  unfolding gives_in_def
proof (intro allI impI)
  fix c r t assume c: "same_names c0 c" "bindM m f c = (r, t)"
  obtain q u where q: "m c = (q, u)" by fastforce
  then have u: "same_names c0 u" "\<And>x. q = Done x \<Longrightarrow> R x" using assms(1) c(1) unfolding gives_in_def by blast+
  show "same_names c0 t \<and> (\<forall>x. r = Done x \<longrightarrow> Q x)"
    using c(2) q u assms(2) by (cases q) (auto simp: bindM_def gives_in_def)
qed

lemma gives_in_seq: "gives_in c0 n (\<lambda>_. True) \<Longrightarrow> gives_in c0 m Q \<Longrightarrow> gives_in c0 (seqM n m) Q"
  unfolding seqM_def by (rule gives_in_bind)

lemma gives_in_attempt:
  assumes "gives_in c0 m Q"
  shows "gives_in c0 (attempt m) (\<lambda>r. \<forall>x. r = Some x \<longrightarrow> Q x)"
  unfolding gives_in_def
proof (intro allI impI)
  fix c r t assume c: "same_names c0 c" "attempt m c = (r, t)"
  obtain q u where q: "m c = (q, u)" by fastforce
  then have "same_names c0 u" "\<And>x. q = Done x \<Longrightarrow> Q x" using assms c(1) unfolding gives_in_def by blast+
  then show "same_names c0 t \<and> (\<forall>y. r = Done y \<longrightarrow> (\<forall>x. y = Some x \<longrightarrow> Q x))"
    using c(2) q by (cases q) (auto simp: attempt_def)
qed

lemma gives_in_reading: "(\<And>c. same_names c0 c \<Longrightarrow> gives_in c0 (f (h c)) Q) \<Longrightarrow> gives_in c0 (bindM (reading h) f) Q"
  unfolding gives_in_def [of c0 "bindM _ _"]
proof (intro allI impI)
  fix c r t assume a: "\<And>c. same_names c0 c \<Longrightarrow> gives_in c0 (f (h c)) Q" "same_names c0 c" "bindM (reading h) f c = (r, t)"
  then have "f (h c) c = (r, t)" by (simp add: bindM_run reading_run)
  with a(1) [OF a(2)] a(2) show "same_names c0 t \<and> (\<forall>x. r = Done x \<longrightarrow> Q x)" unfolding gives_in_def by blast
qed

lemma gives_in_modify: "(\<And>c. same_names c0 c \<Longrightarrow> same_names c0 (g c)) \<Longrightarrow> Q () \<Longrightarrow> gives_in c0 (modify g) Q"
  by (auto simp: gives_in_def run)

lemma gives_in_keep: "(\<And>c. same_names c0 c \<Longrightarrow> same_names c0 (g c)) \<Longrightarrow> gives_in c0 (modify g) (\<lambda>_. True)"
  by (rule gives_in_modify) simp_all

lemma gives_in_push: "gives_in c0 (push_reloc t a y) (\<lambda>_. True)" "gives_in c0 (add_symbol k n i) (\<lambda>_. True)"
  unfolding push_reloc_def add_symbol_def by (rule gives_in_keep, simp add: same_names_def)+

lemma gives_in_add_reloc: "gives_in c0 (add_reloc t a n) (\<lambda>_. True)"
proof -
  have *: "gives_in c0 (bindM (reading h) (\<lambda>x. case x of Some y \<Rightarrow> push_reloc t a y
      | None \<Rightarrow> seqM (modify g) (seqM (add_symbol k n 0) (push_reloc t a i)))) (\<lambda>_. True)"
    if "\<And>c. same_names c0 c \<Longrightarrow> same_names c0 (g c)" for h :: "cstate \<Rightarrow> u32 option" and g k i
    by (rule gives_in_reading, split option.split) (intro conjI allI impI gives_in_push gives_in_seq gives_in_keep that)
  have k: "gives_in c0 (if b then m1 else if d then m2 else if e then m3 else m4) Q"
    if "gives_in c0 m1 Q" "gives_in c0 m2 Q" "gives_in c0 m3 Q" "gives_in c0 m4 Q"
    for b d e and m1 m2 m3 m4 :: "unit comp" and Q using that by simp
  have b: "gives_in c0 (if a then bindM (reading h) f else m) Q" if "\<And>x. gives_in c0 (f x) Q" "gives_in c0 m Q"
    for a Q and h :: "cstate \<Rightarrow> u32" and f and m :: "unit comp" using that by (auto intro: gives_in_reading)
  show ?thesis
    unfolding add_reloc_def Let_def
    by (rule b [OF k]) (rule gives_in_push * | simp add: same_names_def)+
qed

lemma gives_in_fun_index: "gives_in c0 (get_fun_index_and_add_reloc n t a p) (\<lambda>w. w = arg_word F c0 (Some (AImm (AVFun n) q)))"
  unfolding get_fun_index_and_add_reloc_def whenM_def
  by (rule gives_in_reading)
    (auto intro!: gives_in_seq gives_in_add_reloc gives_in_ret gives_in_error split: option.split simp: same_names_def)

lemma gives_in_var_index: "gives_in c0 (get_var_index_and_add_reloc n t a p) (\<lambda>w. w = arg_word F c0 (Some (AIdent n q)))"
  unfolding get_var_index_and_add_reloc_def whenM_def
  by (rule gives_in_reading)
    (auto intro!: gives_in_seq gives_in_add_reloc gives_in_ret gives_in_error split: option.split simp: same_names_def)

lemma gives_in_native_index: "gives_in c0 (get_native_fun_index_and_add_reloc n t a p) (\<lambda>w. w = 0)"
  unfolding get_native_fun_index_and_add_reloc_def
  by (rule gives_in_reading) (auto intro!: gives_in_seq gives_in_add_reloc gives_in_ret gives_in_error)

lemma gives_in_arg:
  "gives_in c0 (arg_to_format_arg F a vt pc b p) (\<lambda>r. number_fits (Some a) \<and> fst r = arg_word F c0 (Some a))"
proof (cases a)
  case (AImm v q)
  have "gives_in c0 (imm_to_format_arg F v vt pc b q) (\<lambda>w. number_fits (Some a) \<and> w = arg_word F c0 (Some a))"
    using gives_in_fun_index [of c0 _ _ pc q F q] gives_in_native_index [of c0 _ _ pc q]
    by (cases v) (auto simp: AImm imm_to_format_arg_def not_less intro!: gives_in_error gives_in_ret)
  then show ?thesis
    unfolding arg_to_format_arg_def AImm by (auto intro!: gives_in_error gives_in_ret elim!: gives_in_bind)
next
  case (AIdent n q)
  show ?thesis
    unfolding arg_to_format_arg_def AIdent
    by (auto intro!: gives_in_error gives_in_ret gives_in_bind [OF gives_in_var_index [of c0 n _ pc q F q]])
qed (auto simp: arg_to_format_arg_def intro!: gives_in_error gives_in_ret)

lemma long_names:
  assumes "map_of op_descs n = Some d"
  shows "fst d = OP_ILOAD2 \<longleftrightarrow> n = ''iload2''" "fst d = OP_FLOAD2 \<longleftrightarrow> n = ''fload2''"
proof -
  have "list_all (\<lambda>x. (fst (snd x) = OP_ILOAD2 \<longleftrightarrow> fst x = ''iload2'') \<and> (fst (snd x) = OP_FLOAD2 \<longleftrightarrow> fst x = ''fload2'')) op_descs"
    by code_simp
  then show "fst d = OP_ILOAD2 \<longleftrightarrow> n = ''iload2''" "fst d = OP_FLOAD2 \<longleftrightarrow> n = ''fload2''"
    using map_of_SomeD [OF assms] unfolding list_all_iff by (metis fst_conv snd_conv)+
qed

lemma long_halves: "push_bit 32 (scast (ucast (drop_bit 32 n) :: u32)) OR (scast (ucast n :: u32) AND 0xffffffff) = (n :: u64)"
proof -
  have m: "0xffffffff = (mask 32 :: u64)" by (simp add: mask_eq_exp_minus_1)
  show ?thesis
    unfolding m
  proof (rule bit_word_eqI)
    fix k assume "k < LENGTH(64)"
    then consider "k < 32" | "k = 32 + (k - 32)" "k - 32 < 32" by fastforce
    then show "bit (push_bit 32 (scast (ucast (drop_bit 32 n) :: u32)) OR (scast (ucast n :: u32) AND mask 32) :: u64) k = bit n k"
    proof cases
      case 2
      then obtain j where j: "k = 32 + j" "j < 32" by blast
      then have "min 31 j = j" by simp
      with j show ?thesis by (simp add: bit_simps)
    next
      case 1
      then have "min 31 k = k" by simp
      with 1 show ?thesis by (simp add: bit_simps)
    qed
  qed
qed

lemma gives_in_arg1:
  assumes "map_of op_descs op = Some desc" "ci_op x = Some op"
  shows "gives_in c0 (generate_arg1 F x desc pc) (\<lambda>r. \<forall>y. fst r = Some y \<longrightarrow> (case snd r of
      Some w \<Rightarrow> \<exists>n. long_number x = Some n \<and> push_bit 32 (scast (fst y)) OR (scast w AND 0xffffffff) = n
    | None \<Rightarrow> long_number x = None \<and> number_fits (ci_arg1 x) \<and> fst y = arg_word F c0 (ci_arg1 x)))"
proof -
  define R where "R = (\<lambda>r :: (u32 \<times> u32) option \<times> u32 option. \<forall>y. fst r = Some y \<longrightarrow> (case snd r of
      Some w \<Rightarrow> \<exists>n. long_number x = Some n \<and> push_bit 32 (scast (fst y)) OR (scast w AND 0xffffffff) = n
    | None \<Rightarrow> long_number x = None \<and> number_fits (ci_arg1 x) \<and> fst y = arg_word F c0 (ci_arg1 x)))"
  have arg: "gives_in c0 (bindM (attempt (arg_to_format_arg F a vt pc True p)) (\<lambda>r. ret (r, None))) R"
    if "ci_arg1 x = Some a" "long_number x = None" for a vt p
    by (rule gives_in_bind [OF gives_in_attempt [OF gives_in_arg]]) (use that in \<open>auto intro!: gives_in_ret simp: R_def\<close>)
  have wrong: "gives_in c0 (seqM (report q msg) (ret (None, None))) R" for q msg
    by (intro gives_in_seq gives_in_report gives_in_ret) (simp_all add: R_def)
  have none: "R (Some (0, k), None)" if "ci_arg1 x = None" for k using that by (simp add: R_def long_number_def)
  have long: "R (Some (ucast (drop_bit 32 n), k), Some (ucast n))" if "long_number x = Some n" for n k
    using that long_halves by (simp add: R_def)
  note n = long_names [OF assms(1)]
  show ?thesis
    unfolding R_def [symmetric] generate_arg1_def Let_def n
    by (auto split: option.split carg.split arg_value.split intro!: wrong gives_in_ret none long arg simp: assms(2) long_number_def)
qed

lemma gives_in_arg2:
  "gives_in c0 (generate_arg2 F x desc pc low) (\<lambda>r. \<forall>y. r = Some y \<longrightarrow> (case low of Some w \<Rightarrow> fst y = w
     | None \<Rightarrow> number_fits (ci_arg2 x) \<and> fst y = arg_word F c0 (ci_arg2 x)))"
  using gives_in_attempt [OF gives_in_arg [of c0 F]]
  by (auto simp: generate_arg2_def split: option.split intro!: gives_in_seq gives_in_report gives_in_ret)

lemma gives_in_local_var_count: "gives_in c0 (generate_local_var_count x oi) (\<lambda>_. True)"
  by (auto simp: generate_local_var_count_def split: option.split intro!: gives_in_seq gives_in_report gives_in_ret)

lemma words_of_op:
  assumes "ci_instr x \<notin> {''jump'', ''jc''}"
    and "case low of Some w \<Rightarrow> \<exists>n. long_number x = Some n \<and> push_bit 32 (scast a1) OR (scast w AND 0xffffffff) = n
      | None \<Rightarrow> long_number x = None \<and> number_fits (ci_arg1 x) \<and> a1 = arg_word F c0 (ci_arg1 x)"
    and "case low of Some w \<Rightarrow> a2 = w | None \<Rightarrow> number_fits (ci_arg2 x) \<and> a2 = arg_word F c0 (ci_arg2 x)"
  shows "words_of_args F labels k c0 x a1 a2"
  using assms by (cases low) (auto simp: words_of_args_def)

lemma gives_in_with_op:
  assumes "ci_instr x \<notin> {''jump'', ''jc''}"
  shows "gives_in c0 (generate_instr_with_op F addr pc x oi) (\<lambda>i. words_of_args F labels k c0 x (i_arg1 i) (i_arg2 i))"
proof (cases "ci_op x")
  case (Some op)
  show ?thesis
  proof (cases "map_of op_descs op")
    case d: (Some desc)
    show ?thesis
      unfolding generate_instr_with_op_def Some d option.case
    proof (rule gives_in_bind [OF gives_in_arg1 [OF d Some]], goal_cases)
      case (1 r)
      note first = 1
      obtain r1 low where r: "r = (r1, low)" by fastforce
      show ?case
        unfolding r prod.case
      proof (rule gives_in_bind [OF gives_in_arg2], rule gives_in_bind [OF gives_in_local_var_count], goal_cases)
        case (1 r2 n)
        have "words_of_args F labels k c0 x (fst y1) (fst y2)" if y: "r1 = Some y1" "r2 = Some y2" for y1 y2
          by (rule words_of_op [OF assms first [rule_format, unfolded r fst_conv snd_conv, OF y(1)] 1(1) [rule_format, OF y(2)]])
        from this [of "(_, _)" "(_, _)"]
        have "words_of_args F labels k c0 x a1 a2" if "r1 = Some (a1, t1)" "r2 = Some (a2, t2)" for a1 t1 a2 t2
          using that by simp
        then show ?case by (auto intro!: gives_in_ret gives_in_fail split: option.split)
      qed
    qed
  qed (simp add: generate_instr_with_op_def Some gives_in_error)
qed (simp add: generate_instr_with_op_def gives_in_error)

lemma no_op_not_long: "ci_op x = None \<Longrightarrow> long_number x = None"
  by (auto simp: long_number_def split: option.split carg.split arg_value.split)

lemma gives_in_without_op:
  assumes "ci_instr x \<notin> {''jump'', ''jc''}"
  shows "gives_in c0 (generate_instr_without_op x oi) (\<lambda>i. words_of_args F labels k c0 x (i_arg1 i) (i_arg2 i))"
  using assms no_op_not_long [of x]
  by (auto simp: generate_instr_without_op_def words_of_args_def intro!: gives_in_error gives_in_ret)

lemma gives_in_label: "gives_in c0 (get_instr_addr labels n p) (\<lambda>l. labels n = Some l)"
  by (auto simp: get_instr_addr_def split: option.split intro!: gives_in_error gives_in_ret)

lemma gives_in_jc:
  assumes "ci_instr x = ''jc''"
  shows "gives_in c0 (generate_jc F labels addr pc x) (\<lambda>i. words_of_args F labels pc c0 x (i_arg1 i) (i_arg2 i))"
proof (cases "ci_op x")
  case None
  have a1: "gives_in c0 (case ci_arg1 x of Some a \<Rightarrow> arg_to_format_arg F a VALUE_TYPE_INT (pc + addr) True (ci_pos x)
       | None \<Rightarrow> comp_error (ci_pos x) ''incorrect number of arguments'') (\<lambda>r. number_fits (ci_arg1 x) \<and> fst r = arg_word F c0 (ci_arg1 x))"
    using gives_in_arg by (auto split: option.split intro: gives_in_error)
  have a2: "gives_in c0 (case ci_arg2 x of Some (AIdent n p) \<Rightarrow> get_instr_addr labels n p | Some a \<Rightarrow> comp_error (arg_pos a) ''argument isn't label''
       | None \<Rightarrow> comp_error (ci_pos x) ''incorrect number of arguments'') (\<lambda>l. \<exists>n p. ci_arg2 x = Some (AIdent n p) \<and> labels n = Some l)"
    using gives_in_label by (auto split: option.split carg.split intro: gives_in_error)
  show ?thesis
    unfolding generate_jc_def None
    by (simp, rule gives_in_bind [OF gives_in_attempt [OF a1]], rule gives_in_bind [OF gives_in_attempt [OF a2]])
      (use assms no_op_not_long [OF None] in \<open>auto simp: words_of_args_def to_label_def split: option.split intro!: gives_in_ret gives_in_fail\<close>)
qed (simp add: generate_jc_def gives_in_error)

lemma gives_in_jump:
  assumes "ci_instr x = ''jump''"
  shows "gives_in c0 (generate_jump labels pc x) (\<lambda>i. words_of_args F labels pc c0 x (i_arg1 i) (i_arg2 i))"
proof (cases "ci_op x")
  case None
  then show ?thesis
    unfolding generate_jump_def None using assms no_op_not_long [OF None]
    by (auto simp: words_of_args_def to_label_def split: option.split carg.split intro!: gives_in_error gives_in_ret gives_in_bind [OF gives_in_label])
qed (simp add: generate_jump_def gives_in_error)

lemma gives_in_throw:
  assumes "ci_instr x \<notin> {''jump'', ''jc''}"
  shows "gives_in c0 (generate_throw_or_rethrow F addr pc x oi) (\<lambda>i. words_of_args F labels k c0 x (i_arg1 i) (i_arg2 i))"
proof (cases "ci_op x")
  case None
  then show ?thesis
    unfolding generate_throw_or_rethrow_def None using assms no_op_not_long [OF None]
    by (auto simp: words_of_args_def case_prod_unfold split: option.split intro!: gives_in_error gives_in_ret gives_in_bind [OF gives_in_arg])
qed (simp add: generate_throw_or_rethrow_def gives_in_error)

lemma gives_in_pop:
  assumes "ci_instr x = ''pop''"
  shows "gives_in c0 (generate_pop x) (\<lambda>i. words_of_args F labels k c0 x (i_arg1 i) (i_arg2 i))"
proof (cases "ci_op x")
  case None
  then show ?thesis
    unfolding generate_pop_def None using assms no_op_not_long [OF None]
    by (auto simp: words_of_args_def split: option.split carg.split intro!: gives_in_error gives_in_ret)
qed (simp add: generate_pop_def gives_in_error)

lemma generated_words: "gives_in c0 (generate_instr F labels addr pc x) (\<lambda>i. words_of_args F labels pc c0 x (i_arg1 i) (i_arg2 i))"
  unfolding generate_instr_def Let_def
  using gives_in_jc [of x c0 F labels addr pc] gives_in_jump [of x c0 labels pc F] gives_in_pop [of x c0 F labels pc]
  by (auto intro: gives_in_error gives_in_with_op gives_in_without_op gives_in_throw)

section \<open>What the interpreter decodes\<close>

lemma arg_kind_small: "arg_kind a AND 0xf = arg_kind a"
  by (cases a rule: arg_kind.cases) simp_all

lemma encodes_decoded:
  assumes "encodes x w"
  shows "map_of instr_numbers (ci_instr x) = Some (opcode_to_instr w)" "op_number x (opcode_to_op w)"
    "opcode_to_arg_type1 w = fst (kinds_of x)" "opcode_to_arg_type2 w = snd (kinds_of x)"
    "opcode_to_instr w = INSTR_LETTUPLE \<Longrightarrow> local_vars_given x \<le> 257 \<Longrightarrow> opcode_to_local_var_count w = local_vars_given x"
    "opcode_to_instr w = INSTR_LETTUPLE \<Longrightarrow> local_vars_given x > 257 \<Longrightarrow> opcode_to_local_var_count w = 2"
    "opcode_to_instr w = INSTR_LETTUPLE \<Longrightarrow> 2 \<le> local_vars_given x \<and> local_vars_given x \<le> 258"
proof -
  obtain k p n where e: "map_of instr_numbers (ci_instr x) = Some k" "op_number x p" "p < 256" "2 \<le> n" "n \<le> 258"
      "w = opcode k p (fst (kinds_of x)) (snd (kinds_of x)) n" "k = INSTR_LETTUPLE \<longrightarrow> n = local_vars_given x"
    using assms unfolding encodes_def by blast
  have "(ci_instr x, k) \<in> set instr_numbers" by (rule map_of_SomeD [OF e(1)])
  then have k: "k AND 0xff = k" by (auto simp: instr_numbers_def)
  show "map_of instr_numbers (ci_instr x) = Some (opcode_to_instr w)" using e(1,6) k by (simp add: opcode_fields)
  show "op_number x (opcode_to_op w)" using e(2,3,6) field_in_range(1) [OF e(3)] by (simp add: opcode_fields)
  show "opcode_to_arg_type1 w = fst (kinds_of x)" "opcode_to_arg_type2 w = snd (kinds_of x)"
    using e(6) arg_kind_small by (simp_all add: opcode_fields kinds_of_def)
  have lt: "n = local_vars_given x" if "opcode_to_instr w = INSTR_LETTUPLE" using e(6,7) k that by (simp add: opcode_fields)
  show "opcode_to_local_var_count w = local_vars_given x" if "opcode_to_instr w = INSTR_LETTUPLE" "local_vars_given x \<le> 257"
  proof -
    have "n - 2 < 256" using lt that e(4) by unat_arith
    then show ?thesis using e(6) lt that(1) field_in_range(1) [of "n - 2"] by (simp add: opcode_fields)
  qed
  show "opcode_to_local_var_count w = 2" if "opcode_to_instr w = INSTR_LETTUPLE" "local_vars_given x > 257"
  proof -
    have "n = 258" using lt that e(5) by unat_arith
    then show ?thesis using e(6) by (simp add: opcode_fields)
  qed
  show "2 \<le> local_vars_given x \<and> local_vars_given x \<le> 258" if "opcode_to_instr w = INSTR_LETTUPLE"
    using lt [OF that] e(4,5) by simp
qed

section \<open>Labels\<close>

text \<open>The number of instructions in front of the first line that has the label.\<close>

fun label_position :: "fun_line list \<Rightarrow> string \<Rightarrow> nat option" where
  "label_position [] n = None"
| "label_position (l # ls) n =
     (if map_option fst (fl_label l) = Some n then Some 0
      else map_option (\<lambda>k. (if fl_instr l \<noteq> None then 1 else 0) + k) (label_position ls n))"

lemma gives_labels:
  "gives (collect_labels ls k labels) (\<lambda>r. \<forall>n. fst r n = (case labels n of Some a \<Rightarrow> Some a
     | None \<Rightarrow> map_option (\<lambda>j. of_nat (k + j)) (label_position ls n)))"
proof (induction ls arbitrary: k labels)
  case Nil
  then show ?case by (auto intro!: gives_ret split: option.split)
next
  case (Cons l ls)
  let ?k = "if fl_instr l \<noteq> None then Suc k else k"
  show ?case
  proof (cases "fl_label l")
    case None
    have "gives (collect_labels ls ?k labels) (\<lambda>r. \<forall>m. fst r m = (case labels m of Some a \<Rightarrow> Some a
        | None \<Rightarrow> map_option (\<lambda>j. of_nat (k + j)) (label_position (l # ls) m)))"
      by (rule gives_mono [OF Cons.IH]) (use None in \<open>auto simp: option.map_comp comp_def ac_simps split: option.splits\<close>)
    then show ?thesis using None by (simp add: Let_def)
  next
    case (Some y)
    obtain n p where y: "y = (n, p)" by fastforce
    show ?thesis
    proof (cases "labels n")
      case None
      have "gives (collect_labels ls ?k (labels(n \<mapsto> of_nat k))) (\<lambda>r. \<forall>m. fst r m = (case labels m of Some a \<Rightarrow> Some a
          | None \<Rightarrow> map_option (\<lambda>j. of_nat (k + j)) (label_position (l # ls) m)))"
        by (rule gives_mono [OF Cons.IH]) (use None in \<open>auto simp: Some y option.map_comp comp_def ac_simps split: option.splits\<close>)
      then show ?thesis using None by (simp add: Some y Let_def)
    next
      case a: (Some a)
      have "gives (bindM (collect_labels ls ?k labels) (\<lambda>(m, _). ret (m, False))) (\<lambda>r. \<forall>m. fst r m = (case labels m of Some a \<Rightarrow> Some a
          | None \<Rightarrow> map_option (\<lambda>j. of_nat (k + j)) (label_position (l # ls) m)))"
        by (rule gives_bind [OF Cons.IH]) (use a in \<open>auto simp: Some y option.map_comp comp_def ac_simps intro!: gives_ret split: option.splits; (drule_tac x = m in spec, simp)\<close>)
      then show ?thesis using a by (auto simp: Some y Let_def intro!: gives_seq)
    qed
  qed
qed

section \<open>Functions\<close>

text \<open>The instructions of a function: each one that could be generated encodes its line.\<close>

definition line_encoded :: "fun_line list \<Rightarrow> nat \<times> cinstr \<Rightarrow> instruction option \<Rightarrow> bool" where
  "line_encoded ls y r \<longleftrightarrow> (\<forall>i. r = Some i \<longrightarrow> (let labels = \<lambda>n. map_option of_nat (label_position ls n) in
     encodes (snd y) (i_opcode i) \<and> (ci_instr (snd y) = ''jump'' \<longrightarrow> to_label labels (of_nat (fst y)) (ci_arg1 (snd y)) (i_arg1 i)) \<and>
     (ci_instr (snd y) = ''jc'' \<longrightarrow> to_label labels (of_nat (fst y)) (ci_arg2 (snd y)) (i_arg2 i))))"

lemma gives_fun:
  "gives (generate_fun F a f) (\<lambda>r. list_all2 (line_encoded (cf_lines f)) (enumerate 0 (fun_instrs f)) (fst r) \<and> (snd r \<longrightarrow> None \<notin> set (fst r)))"
  unfolding generate_fun_def
proof (rule gives_bind [OF gives_labels], goal_cases)
  case (1 r)
  obtain labels ok where r: "r = (labels, ok)" by fastforce
  have l: "labels = (\<lambda>n. map_option of_nat (label_position (cf_lines f) n))" using 1 by (auto simp: r)
  have "gives (attempt (generate_instr F labels (of_nat a) (of_nat (fst y)) (snd y))) (line_encoded (cf_lines f) y)" for y
    by (rule gives_mono [OF gives_attempt [OF generated_encodes]]) (auto simp: line_encoded_def l Let_def)
  then have "gives (collectM (\<lambda>y. attempt (generate_instr F labels (of_nat a) (of_nat (fst y)) (snd y))) (enumerate 0 (fun_instrs f)))
      (list_all2 (line_encoded (cf_lines f)) (enumerate 0 (fun_instrs f)))"
    by (intro gives_collectM)
  then show ?case
    unfolding r case_prod_unfold fst_conv snd_conv by (rule gives_bind) (auto intro!: gives_ret)
qed

lemma fun_line_encoded:
  assumes "generate_fun F a f c = (Done (xs, True), t)" "k < length (fun_instrs f)"
  shows "length xs = length (fun_instrs f)" "xs ! k \<noteq> None" "line_encoded (cf_lines f) (k, fun_instrs f ! k) (xs ! k)"
proof -
  have r: "list_all2 (line_encoded (cf_lines f)) (enumerate 0 (fun_instrs f)) xs" "None \<notin> set xs"
    using givesD [OF gives_fun assms(1)] by simp_all
  show l: "length xs = length (fun_instrs f)" using list_all2_lengthD [OF r(1)] by simp
  show "xs ! k \<noteq> None" using r(2) l assms(2) by (metis nth_mem)
  show "line_encoded (cf_lines f) (k, fun_instrs f ! k) (xs ! k)"
    using list_all2_nthD2 [OF r(1), of k] l assms(2) by (simp add: nth_enumerate_eq)
qed

section \<open>Jumps land on their labels\<close>

text \<open>A thread is at an instruction of a compiled function.\<close>

definition at_instruction :: "env \<Rightarrow> ctx \<Rightarrow> instruction option list \<Rightarrow> nat \<Rightarrow> bool" where
  "at_instruction E s xs k \<longleftrightarrow> fp (regs s) \<noteq> FP_NONE \<and> unat (fp (regs s)) < length (e_funs E) \<and>
     f_instrs (e_funs E ! unat (fp (regs s))) = Some (map the xs) \<and> ip (regs s) = of_nat k \<and> k < length xs \<and> length xs < 2 ^ 32 \<and> \<not> alf1 (regs s)"

lemma jump_to_label:
  assumes g: "generate_fun F a f c = (Done (xs, True), t)" and k: "k < length (fun_instrs f)"
    and x: "ci_instr (fun_instrs f ! k) = ''jump''" "ci_arg1 (fun_instrs f ! k) = Some (AIdent n p)" and s: "at_instruction E s xs k"
  shows "\<exists>l. label_position (cf_lines f) n = Some l \<and>
    interpret_instr E cb s = (Done True, s\<lparr>regs := (regs s)\<lparr>ip := of_nat l, cancelation_undo := []\<rparr>\<rparr>)"
proof -
  obtain i where i: "xs ! k = Some i" using fun_line_encoded(2) [OF g k] by auto
  have e: "encodes (fun_instrs f ! k) (i_opcode i)" and l: "to_label (\<lambda>n. map_option of_nat (label_position (cf_lines f) n)) (of_nat k) (Some (AIdent n p)) (i_arg1 i)"
    using fun_line_encoded(3) [OF g k] i x by (simp_all add: line_encoded_def Let_def)
  have d: "opcode_to_instr (i_opcode i) = INSTR_JUMP" using encodes_decoded(1) [OF e] x(1) by (simp add: instr_numbers_def)
  obtain j where j: "label_position (cf_lines f) n = Some j" "i_arg1 i = of_nat j - (of_nat k + 1)"
    using l by (auto simp: to_label_def)
  have u: "unat (of_nat k :: u32) = k" "k < length (map the xs)" using s by (simp_all add: at_instruction_def unat_of_nat)
  have "interpret_instr E cb s = (Done True, s\<lparr>regs := (regs s)\<lparr>ip := of_nat j, cancelation_undo := []\<rparr>\<rparr>)"
    using s d j(2) u i
    by (simp add: interpret_instr_def at_instruction_def instrs_of_def Let_def run dispatch_instr_def instr_jump_def)
  then show ?thesis using j(1) by blast
qed

section \<open>Properties\<close>

text \<open>C18: What the interpreter reads from a compiled instruction is what the source line says: the number of the
  instruction, the number of the operation, the kinds of both arguments, and for lettuple the number of local variables up to
  257; and the words of the arguments: a number that fits (as its 32 bits, or narrowed to a float), the number of a local
  variable, an argument or an evaluation, the index of a function or variable of the program or 0 where a relocation is to
  fill it in, the distance to a label, and for iload2 and fload2 the two halves from which the interpreter
  makes the 64 bits again (\<open>words_of_args\<close>).\<close>

theorem compiled_instr_decodes:
  assumes "generate_instr F labels addr pc x c = (Done i, t)"
  shows "map_of instr_numbers (ci_instr x) = Some (opcode_to_instr (i_opcode i)) \<and> op_number x (opcode_to_op (i_opcode i)) \<and>
    (opcode_to_arg_type1 (i_opcode i), opcode_to_arg_type2 (i_opcode i)) = kinds_of x \<and>
    words_of_args F labels pc c x (i_arg1 i) (i_arg2 i) \<and>
    (ci_instr x = ''lettuple'' \<longrightarrow> local_vars_given x \<le> 257 \<longrightarrow> opcode_to_local_var_count (i_opcode i) = local_vars_given x)"
proof -
  have e: "encodes x (i_opcode i)" using givesD [OF generated_encodes assms] by simp
  have l: "opcode_to_instr (i_opcode i) = INSTR_LETTUPLE" if "ci_instr x = ''lettuple''"
    using encodes_decoded(1) [OF e] that by (simp add: instr_numbers_def)
  show ?thesis using encodes_decoded(1-5) [OF e] l gives_inD [OF generated_words assms] by simp
qed

text \<open>A tuple is taken apart into \<open>n\<close> local variables.\<close>

definition lettuple_instr :: "u32 \<Rightarrow> cinstr" where
  "lettuple_instr n = \<lparr>ci_instr = ''lettuple'', ci_op = Some ''rload'', ci_arg1 = Some (ALVar 5 sample_pos), ci_arg2 = None,
     ci_local_var_count = Some n, ci_pos = sample_pos\<rparr>"

lemma generated_lettuple:
  obtains t where "generate_instr zero_fpu Map.empty 0 0 (lettuple_instr 3) (init_cstate False []) =
    (Done \<lparr>i_opcode = opcode INSTR_LETTUPLE OP_RLOAD ARG_TYPE_LVAR ARG_TYPE_IMM 3, i_arg1 = 5, i_arg2 = 0\<rparr>, t)"
proof -
  have "fst (generate_instr zero_fpu Map.empty 0 0 (lettuple_instr 3) (init_cstate False [])) =
    Done \<lparr>i_opcode = opcode INSTR_LETTUPLE OP_RLOAD ARG_TYPE_LVAR ARG_TYPE_IMM 3, i_arg1 = 5, i_arg2 = 0\<rparr>" by code_simp
  then show ?thesis using that by (metis prod.collapse)
qed

lemma compiled_instr_decodes_witness:
  "opcode_to_local_var_count (opcode INSTR_LETTUPLE OP_RLOAD ARG_TYPE_LVAR ARG_TYPE_IMM 3) = 3 \<and>
   words_of_args zero_fpu Map.empty 0 (init_cstate False []) (lettuple_instr 3) 5 0"
  by (rule generated_lettuple, drule compiled_instr_decodes) (simp add: lettuple_instr_def local_vars_given_def)

text \<open>C40: A lettuple that the compiler accepts has from 2 to 258 local variables; for 258, and only for 258, the interpreter
  reads another number from the opcode, namely 2: the count less 2 does not fit into its 8 bits.\<close>

theorem lettuple_258_decodes_as_2:
  assumes "generate_instr F labels addr pc x c = (Done i, t)" and "ci_instr x = ''lettuple''" and "ci_local_var_count x = Some n"
  shows "2 \<le> n \<and> n \<le> 258 \<and> opcode_to_local_var_count (i_opcode i) = (if n = 258 then 2 else n)"
proof -
  have e: "encodes x (i_opcode i)" using givesD [OF generated_encodes assms(1)] by simp
  have l: "opcode_to_instr (i_opcode i) = INSTR_LETTUPLE" "local_vars_given x = n"
    using encodes_decoded(1) [OF e] assms(2,3) by (simp_all add: instr_numbers_def local_vars_given_def)
  have n: "2 \<le> n \<and> n \<le> 258" using encodes_decoded(7) [OF e l(1)] unfolding l(2) .
  consider "n = 258" | "n \<le> 257" "n \<noteq> 258" using n by (cases "n = 258") (simp_all, unat_arith)
  then show ?thesis
    using n encodes_decoded(5,6) [OF e l(1)] unfolding l(2) by cases simp_all
qed

lemma lettuple_258_decodes_as_2_witness:
  "\<exists>i t. generate_instr zero_fpu Map.empty 0 0 (lettuple_instr 258) (init_cstate False []) = (Done i, t) \<and>
     opcode_to_local_var_count (i_opcode i) = 2"
proof -
  have "case fst (generate_instr zero_fpu Map.empty 0 0 (lettuple_instr 258) (init_cstate False [])) of Done i \<Rightarrow> True | _ \<Rightarrow> False"
    by code_simp
  then obtain i t where "generate_instr zero_fpu Map.empty 0 0 (lettuple_instr 258) (init_cstate False []) = (Done i, t)"
    by (cases "generate_instr zero_fpu Map.empty 0 0 (lettuple_instr 258) (init_cstate False [])") (auto split: outcome.splits)
  from this lettuple_258_decodes_as_2 [OF this, of 258] show ?thesis by (auto simp: lettuple_instr_def)
qed

text \<open>C17: A compiled jump lands where the source says: when a thread executes the jump of line \<open>k\<close> of a compiled
  function, the interpreter goes on with the instruction that follows the label, and touches nothing
  but the instruction pointer and the list of cancelations.\<close>

theorem compiled_jump_lands:
  assumes "generate_fun F a f c = (Done (xs, True), t)" and "k < length (fun_instrs f)"
    and "ci_instr (fun_instrs f ! k) = ''jump''" and "ci_arg1 (fun_instrs f ! k) = Some (AIdent n p)"
    and "at_instruction E s xs k"
  shows "\<exists>l. label_position (cf_lines f) n = Some l \<and>
    interpret_instr E cb s = (Done True, s\<lparr>regs := (regs s)\<lparr>ip := of_nat l, cancelation_undo := []\<rparr>\<rparr>)"
  using assms by (rule jump_to_label)

definition jump_fun :: cfun where
  "jump_fun = \<lparr>cf_arg_count = 0, cf_lines = [
     sample_line None ''jump'' None (Some (AIdent ''end'' sample_pos)) None,
     sample_line None ''ret'' (Some ''iload'') (Some (AImm (AVInt 1) sample_pos)) None,
     sample_line (Some ''end'') ''ret'' (Some ''iload'') (Some (AImm (AVInt 2) sample_pos)) None]\<rparr>"

definition jump_code :: "instruction option list" where
  "jump_code = [Some \<lparr>i_opcode = opcode INSTR_JUMP 0 ARG_TYPE_IMM ARG_TYPE_IMM 2, i_arg1 = 1, i_arg2 = 0\<rparr>,
     Some \<lparr>i_opcode = opcode INSTR_RET OP_ILOAD ARG_TYPE_IMM ARG_TYPE_IMM 2, i_arg1 = 1, i_arg2 = 0\<rparr>,
     Some \<lparr>i_opcode = opcode INSTR_RET OP_ILOAD ARG_TYPE_IMM ARG_TYPE_IMM 2, i_arg1 = 2, i_arg2 = 0\<rparr>]"

lemma compiled_jump_lands_witness:
  "\<exists>l. label_position (cf_lines jump_fun) ''end'' = Some l \<and>
    (let E = plain_env zero_fpu EagerStrategy [\<lparr>f_arg_count = 0, f_instrs = Some (map the jump_code)\<rparr>] [];
         s0 = new_thread_context 8 8 []; s = s0\<lparr>regs := (regs s0)\<lparr>fp := 0\<rparr>\<rparr> in
     interpret_instr E no_machine s = (Done True, s\<lparr>regs := (regs s)\<lparr>ip := of_nat l, cancelation_undo := []\<rparr>\<rparr>))"
proof -
  have "fst (generate_fun zero_fpu 0 jump_fun (init_cstate False [])) = Done (jump_code, True)" by code_simp
  then obtain t where "generate_fun zero_fpu 0 jump_fun (init_cstate False []) = (Done (jump_code, True), t)" by (metis prod.collapse)
  from compiled_jump_lands [OF this, of 0 "''end''" sample_pos "plain_env zero_fpu EagerStrategy [\<lparr>f_arg_count = 0, f_instrs = Some (map the jump_code)\<rparr>] []"
      "(new_thread_context 8 8 [])\<lparr>regs := (regs (new_thread_context 8 8 []))\<lparr>fp := 0\<rparr>\<rparr>" no_machine]
  show ?thesis
    by (simp add: jump_fun_def fun_instrs_def sample_line_def at_instruction_def plain_env_def new_thread_context_def initial_regs_def
        FP_NONE_def jump_code_def Let_def)
qed

end
