(* ===== verification/Comp_Functions.thy ===== *)
theory Comp_Functions
  imports Comp_Decode
begin

text \<open>
  The table of functions of a compiled program: the functions stand in it in the order of their definitions,
  in whatever order the hash table of the compiler hands out their code, and the code of each encodes its
  lines.
\<close>

section \<open>The numbers of functions\<close>

definition numbered :: "(string \<times> cfun) list \<Rightarrow> (string \<times> u32 \<times> cfun) list" where
  "numbered xs = map (\<lambda>(k, n, f). (n, of_nat k, f)) (enumerate 0 xs)"

lemma numbered_snoc: "numbered (xs @ [(n, f)]) = numbered xs @ [(n, of_nat (length xs), f)]"
  by (simp add: numbered_def enumerate_append_eq)

lemma length_numbered [simp]: "length (numbered xs) = length xs"
  by (simp add: numbered_def)

definition numbered_after :: "(string \<times> cfun) list \<Rightarrow> bool \<Rightarrow> cstate \<Rightarrow> bool" where
  "numbered_after xs ok t \<longleftrightarrow> (\<exists>ys. c_fun_pairs t = numbered ys \<and> (ok \<longrightarrow> ys = xs))"

lemma add_defs_numbered:
  "c_fun_pairs c = numbered xs \<Longrightarrow> wpx (add_defs ds entry) (\<lambda>r t. numbered_after (xs @ tree_funs ds) (snd r) t) (\<lambda>_. False) c"
proof (induction ds arbitrary: xs c entry)
  case Nil
  then show ?case by (auto simp: wpx_rules tree_funs_def numbered_after_def)
next
  case (Cons d ds)
  have step: "wpx (bindM (succeeds m) (\<lambda>ok. bindM (add_defs ds e) (\<lambda>(e, oks). ret (e, ok \<and> oks))))
      (\<lambda>r t. numbered_after (xs @ tree_funs (d # ds)) (snd r) t) (\<lambda>_. False) c"
    if m: "wpx m (\<lambda>_ t. c_fun_pairs t = numbered ys) (\<lambda>t. \<exists>zs. c_fun_pairs t = numbered zs) c" and ys: "ys @ tree_funs ds = xs @ tree_funs (d # ds)" for m e ys
  proof -
    have "wpx (add_defs ds e) (\<lambda>x. numbered_after (xs @ tree_funs (d # ds)) (snd x)) (\<lambda>_. False) t" if "c_fun_pairs t = numbered ys" for t
      using Cons.IH [OF that] ys by simp
    moreover have "wpx (add_defs ds e) (\<lambda>x. wpx (case x of (e, oks) \<Rightarrow> ret (e, False)) (\<lambda>r. numbered_after (xs @ tree_funs (d # ds)) (snd r)) (\<lambda>_. False)) (\<lambda>_. False) t"
      if "c_fun_pairs t = numbered zs" for t zs
      by (rule wpx_mono [OF Cons.IH [OF that]]) (auto simp: wpx_rules numbered_after_def)
    ultimately show ?thesis
      unfolding wpx_bindM succeeds_def wpx_attempt [of m]
      by (intro wpx_mono [OF m]) (auto simp: wpx_rules)
  qed
  have f: "wpx (add_fun_def ans md n f p) (\<lambda>_ t. c_fun_pairs t = numbered (xs @ [(n, f)])) (\<lambda>t. \<exists>zs. c_fun_pairs t = numbered zs) c" for ans md n f p
    using Cons.prems
    by (auto simp: numbered_snoc [symmetric] add_fun_def_def wpx_rules comp_error_def report_def Let_def add_symbol_def intro!: annotations_wpx)
  have v: "wpx (add_var_def md n v p) (\<lambda>_ t. c_fun_pairs t = numbered xs) (\<lambda>t. \<exists>zs. c_fun_pairs t = numbered zs) c" for md n v p
    using Cons.prems by (auto simp: add_var_def_def wpx_rules comp_error_def report_def Let_def add_symbol_def)
  have note_error: "wpx (seqM (report p msg) (bindM (add_defs ds e) (\<lambda>(e, oks). ret (e, False))))
      (\<lambda>r t. numbered_after (xs @ tree_funs (d # ds)) (snd r) t) (\<lambda>_. False) c" for p msg e
    using Cons.IH [of "c\<lparr>c_errors := c_errors c @ [(p, msg)]\<rparr>" xs e] Cons.prems
    by (auto simp: wpx_rules report_def numbered_after_def elim!: wpx_mono)
  show ?case
  proof (cases d)
    case (FunDef ans md n f' p)
    then show ?thesis using step [OF f] by (simp add: tree_funs_def)
  next
    case (VarDef md n v' p)
    then show ?thesis using step [OF v] by (simp add: tree_funs_def)
  next
    case (EntryDef n p)
    then have "tree_funs (d # ds) = tree_funs ds" by (simp add: tree_funs_def)
    then show ?thesis using note_error Cons.IH [OF Cons.prems] by (auto simp: EntryDef split: option.split)
  qed
qed

section \<open>The code of the functions\<close>

definition placed :: "nat \<Rightarrow> instruction option list \<Rightarrow> format_function list \<Rightarrow> string \<times> u32 \<times> cfun \<Rightarrow> bool" where
  "placed a code funs x \<longleftrightarrow> (case x of (n, i, f) \<Rightarrow> let len = length (fun_instrs f) in
     \<exists>k. funs ! unat i = \<lparr>ff_addr = of_nat (a + k), ff_arg_count = cf_arg_count f, ff_instr_count = of_nat len\<rparr> \<and>
       k + len \<le> length code \<and> list_all2 (line_encoded (cf_lines f)) (enumerate 0 (fun_instrs f)) (take len (drop k code)))"

abbreviation (input) index_of :: "string \<times> u32 \<times> cfun \<Rightarrow> nat" where
  "index_of x \<equiv> unat (fst (snd x))"

lemma placed_behind:
  assumes "placed (a + length code) codes funs x"
  shows "placed a (code @ codes) funs x"
proof -
  obtain n i f where x: "x = (n, i, f)" by (cases x)
  obtain k where "funs ! unat i = \<lparr>ff_addr = of_nat (a + length code + k), ff_arg_count = cf_arg_count f, ff_instr_count = of_nat (length (fun_instrs f))\<rparr>"
      "k + length (fun_instrs f) \<le> length codes"
      "list_all2 (line_encoded (cf_lines f)) (enumerate 0 (fun_instrs f)) (take (length (fun_instrs f)) (drop k codes))"
    using assms by (auto simp: placed_def x Let_def)
  then show ?thesis
    unfolding placed_def x prod.case Let_def by (intro exI [of _ "length code + k"]) (simp add: ac_simps)
qed

lemma gives_funs:
  assumes "distinct (map index_of fs)" "\<forall>x\<in>set fs. index_of x < length funs"
  shows "gives (generate_funs F fs a funs) (\<lambda>r. length (fst (snd r)) = length funs \<and>
    (\<forall>j. j \<notin> index_of ` set fs \<longrightarrow> fst (snd r) ! j = funs ! j) \<and> (\<forall>x\<in>set fs. placed a (fst r) (fst (snd r)) x) \<and>
    (snd (snd r) \<longrightarrow> None \<notin> set (fst r)))"
  using assms
proof (induction fs arbitrary: a funs)
  case Nil
  then show ?case by (simp add: gives_ret)
next
  case (Cons x fs)
  obtain n i f where x: "x = (n, i, f)" by (cases x)
  have i: "unat i < length funs" "unat i \<notin> index_of ` set fs" using Cons.prems by (force simp: x)+
  show ?case
    unfolding x generate_funs.simps prod.case Let_def
  proof (rule gives_bind [OF gives_fun], goal_cases)
    case (1 r)
    obtain code ok where r: "r = (code, ok)" by fastforce
    have enc: "list_all2 (line_encoded (cf_lines f)) (enumerate 0 (fun_instrs f)) code" and ok: "ok \<longrightarrow> None \<notin> set code"
      using 1 by (simp_all add: r)
    have len: "length code = length (fun_instrs f)" using list_all2_lengthD [OF enc] by simp
    let ?ff = "\<lparr>ff_addr = of_nat a, ff_arg_count = cf_arg_count f, ff_instr_count = of_nat (length code)\<rparr>"
    have "gives (generate_funs F fs (a + length code) (funs[unat i := ?ff])) (\<lambda>r. length (fst (snd r)) = length funs \<and>
       (\<forall>j. j \<notin> index_of ` set fs \<longrightarrow> fst (snd r) ! j = funs[unat i := ?ff] ! j) \<and> (\<forall>x\<in>set fs. placed (a + length code) (fst r) (fst (snd r)) x) \<and>
       (snd (snd r) \<longrightarrow> None \<notin> set (fst r)))"
      using Cons.IH [of "funs[unat i := ?ff]" "a + length code"] Cons.prems by simp
    then show ?case
      unfolding r prod.case
    proof (rule gives_bind, goal_cases)
      case (1 s)
      obtain codes funs' oks where s: "s = (codes, funs', oks)" by (cases s)
      have "funs' ! unat i = ?ff" using 1 i by (simp add: s)
      then have "placed a (code @ codes) funs' x"
        unfolding placed_def x prod.case Let_def by (intro exI [of _ 0]) (use enc len in simp)
      moreover have "placed a (code @ codes) funs' y" if "y \<in> set fs" for y
        using 1 that by (auto simp: s intro: placed_behind)
      ultimately show ?case using 1 ok by (auto simp: s x intro!: gives_ret)
    qed
  qed
qed

section \<open>The functions of a program\<close>

text \<open>The function \<open>f\<close> is the function \<open>i\<close> of the program.\<close>

definition function_compiled :: "program \<Rightarrow> cfun \<Rightarrow> nat \<Rightarrow> bool" where
  "function_compiled p f i \<longleftrightarrow> (let len = length (fun_instrs f) in i < length (pg_funs p) \<and>
     (\<exists>k. pg_funs p ! i = \<lparr>ff_addr = of_nat k, ff_arg_count = cf_arg_count f, ff_instr_count = of_nat len\<rparr> \<and> k + len \<le> length (pg_code p) \<and>
       list_all2 (line_encoded (cf_lines f)) (enumerate 0 (fun_instrs f)) (map Some (take len (drop k (pg_code p))))))"

lemma bindM_done:
  assumes "bindM m f c = (Done y, t)"
  obtains x u where "m c = (Done x, u)" "f x u = (Done y, t)"
  using assms by (auto simp: bindM_def split: prod.splits outcome.splits)

lemma bind_reading: "bindM (reading h) f s = f (h s) s"
  by (simp add: run)

lemma unless_fail_done: "(if b then fail else m) s = (Done y, t) \<Longrightarrow> \<not> b \<and> m s = (Done y, t)"
  "(if b then undef else m) s = (Done y, t) \<Longrightarrow> \<not> b \<and> m s = (Done y, t)"
  by (auto simp: run split: if_splits)

lemma map_Some_the: "None \<notin> set xs \<Longrightarrow> map Some (map the xs) = xs"
  by (induction xs) auto

lemma index_of_numbered: "length xs < 2 ^ 32 \<Longrightarrow> map index_of (numbered xs) = [0..<length xs]"
  by (rule nth_equalityI) (simp_all add: numbered_def nth_enumerate_eq case_prod_unfold unat_count)

lemma compiled_function_entries:
  assumes fo: "permutes forder" and gen: "generate_parts F forder vorder tree (init_cstate rel errs) = (Done (p, sz), c)"
    and n: "length (tree_funs tree) < 2 ^ 32" and i: "i < length (tree_funs tree)"
  shows "function_compiled p (snd (tree_funs tree ! i)) i"
proof -
  let ?c0 = "init_cstate rel errs"
  from gen obtain r t where t: "add_defs tree None ?c0 = (Done r, t)" and after: "(case r of (entry, ok1) \<Rightarrow>
       bindM (reading (\<lambda>c. (forder (c_fun_pairs c), vorder (c_var_pairs c)))) (\<lambda>(fs, vs).
         bindM (allM add_var_objects vs) (\<lambda>ok2. if \<not> (ok1 \<and> ok2) then fail else
         bindM (reading prog_size) (\<lambda>sz. bindM (generate_rest F fs vs entry) (\<lambda>(e, code, funs, data, vars, ok).
         bindM (reading id) (\<lambda>c. if written_size c > sz then undef else if \<not> ok then fail
           else ret (comp_program c (entry \<noteq> None) e code funs data vars, sz))))))) t = (Done (p, sz), c)"
    unfolding generate_parts_def by (rule bindM_done)
  obtain entry ok1 where r: "r = (entry, ok1)" by fastforce
  let ?fs = "forder (c_fun_pairs t)" and ?vs = "vorder (c_var_pairs t)"
  from after obtain ok2 u where "(if \<not> (ok1 \<and> ok2) then fail else
         bindM (reading prog_size) (\<lambda>sz. bindM (generate_rest F ?fs ?vs entry) (\<lambda>(e, code, funs, data, vars, ok).
         bindM (reading id) (\<lambda>c. if written_size c > sz then undef else if \<not> ok then fail
           else ret (comp_program c (entry \<noteq> None) e code funs data vars, sz))))) u = (Done (p, sz), c)"
    unfolding r prod.case bind_reading by (rule bindM_done)
  then have u: "ok1" "bindM (generate_rest F ?fs ?vs entry) (\<lambda>(e, code, funs, data, vars, ok).
         bindM (reading id) (\<lambda>c. if written_size c > prog_size u then undef else if \<not> ok then fail
           else ret (comp_program c (entry \<noteq> None) e code funs data vars, prog_size u))) u = (Done (p, sz), c)"
    by (auto dest!: unless_fail_done simp: bind_reading)
  from u(2) obtain q v where v0: "generate_rest F ?fs ?vs entry u = (Done q, v)"
      and after: "(case q of (e, code, funs, data, vars, ok) \<Rightarrow>
         bindM (reading id) (\<lambda>c. if written_size c > prog_size u then undef else if \<not> ok then fail
           else ret (comp_program c (entry \<noteq> None) e code funs data vars, prog_size u))) v = (Done (p, sz), c)"
    by (rule bindM_done)
  obtain e code funs data vars ok where q: "q = (e, code, funs, data, vars, ok)" by (cases q)
  have v: "ok" "p = comp_program v (entry \<noteq> None) e code funs data vars"
    using after unfolding q prod.case bind_reading by (auto dest!: unless_fail_done simp: run)
  have pairs: "c_fun_pairs t = numbered (tree_funs tree)"
    using add_defs_numbered [of ?c0 "[]" tree None] t u(1) r by (auto simp: init_cstate_def numbered_def wpx_def numbered_after_def)
  have perm: "mset ?fs = mset (numbered (tree_funs tree))" using fo by (simp add: permutes_def pairs)
  have idx: "mset (map index_of ?fs) = mset [0..<length (tree_funs tree)]"
    using perm index_of_numbered [OF n] by (metis mset_map)
  have d: "distinct (map index_of ?fs)" using idx by (metis distinct_upt mset_eq_imp_distinct_iff)
  have l: "length ?fs = length (tree_funs tree)" using mset_eq_length [OF perm] by simp
  have b: "\<forall>x\<in>set ?fs. index_of x < length (replicate (length ?fs) \<lparr>ff_addr = 0, ff_arg_count = 0, ff_instr_count = 0\<rparr>)"
    using mset_eq_setD [OF idx] l by (auto simp: set_eq_iff) 
  have x: "(fst (tree_funs tree ! i), of_nat i, snd (tree_funs tree ! i)) \<in> set ?fs"
  proof -
    have "numbered (tree_funs tree) ! i = (fst (tree_funs tree ! i), of_nat i, snd (tree_funs tree ! i))"
      using i by (simp add: numbered_def nth_enumerate_eq case_prod_unfold)
    then show ?thesis using nth_mem [of i "numbered (tree_funs tree)"] i mset_eq_setD [OF perm] by simp
  qed
  have "gives (generate_rest F ?fs ?vs entry) (\<lambda>r. case r of (e, code, funs, data, vars, ok) \<Rightarrow>
      length funs = length ?fs \<and> (\<forall>x\<in>set ?fs. placed 0 code funs x) \<and> (ok \<longrightarrow> None \<notin> set code))"
    unfolding generate_rest_def
    by (rule gives_then, rule gives_bind [OF gives_funs [OF d b]])
      (auto intro!: gives_then gives_ret simp: case_prod_unfold)
  from givesD [OF this v0] v(1) have g: "length funs = length ?fs" "\<forall>x\<in>set ?fs. placed 0 code funs x" "None \<notin> set code"
    unfolding q prod.case by blast+
  have "placed 0 code funs (fst (tree_funs tree ! i), of_nat i, snd (tree_funs tree ! i))" using g(2) x by blast
  then show ?thesis
    using g(1) i l n v(2) map_Some_the [OF g(3)]
    by (auto simp: function_compiled_def placed_def Let_def comp_program_def unat_count simp flip: take_map drop_map)
qed

text \<open>C16: In a compiled program, the functions stand in the table in the order of their definitions, whatever
  order the hash table of the compiler has: the entry of each has its number of arguments and of
  instructions, its code lies within the code of the program, and every instruction of it encodes its line, with
  jumps going to the labels of this very function.\<close>

theorem compiled_functions:
  assumes "permutes forder" and "generate_parts F forder vorder tree (init_cstate rel errs) = (Done (p, sz), c)"
    and "length (tree_funs tree) < 2 ^ 32" and "i < length (tree_funs tree)"
  shows "function_compiled p (snd (tree_funs tree ! i)) i"
  using assms by (rule compiled_function_entries)

lemma compiled_functions_witness: "\<exists>p. function_compiled p sample_fun 0 \<and> within_format p"
proof -
  obtain p sz c where s: "generate_parts zero_fpu id id sample_tree (init_cstate True []) = (Done (p, sz), c)" "within_format p" "sz < 2 ^ 32"
    by (rule sample_parts)
  have t: "tree_funs sample_tree ! 0 = (''f'', sample_fun)" "length (tree_funs sample_tree) = 2"
    by (simp_all add: tree_funs_def sample_tree_def)
  have "function_compiled p (snd (tree_funs sample_tree ! 0)) 0"
    by (rule compiled_functions [OF sample_tree_ok(1) s(1)]) (simp_all add: t)
  then show ?thesis using s(2) by (auto simp: t)
qed

end
