(* ===== verification/Thread_Stop.thy ===== *)
theory Thread_Stop
  imports Letin_Prelude
begin

text \<open>
  Stopping the threads for a collection and letting them go on (vm/thread_stop_cont.cpp, for Unix-like
  systems, called by \<open>ImplGarbageCollectorBase::Threads::lock\<close> and \<open>unlock\<close>). The collector and the
  threads are a state machine with one step for every access to what they share: the flag
  \<open>has_stopping\<close>, the two semaphores and the pending signals. A signal that is sent again while it is
  pending is not counted twice. SIGUSR2 is blocked outside of \<open>sigsuspend\<close>, SIGUSR1 inside of its
  handler. The threads that are stopped are those that do not run an interruptible function; the set does
  not change, because the collector holds their mutexes. For a thread that has ended \<open>pthread_kill\<close>
  fails.
\<close>

section \<open>States\<close>

text \<open>Where a thread is: running the program, or in \<open>usr1_handler\<close> before the test of the flag, before it
  posts \<open>stopping_sem\<close>, at the head of its loop, in \<open>sigsuspend\<close>, before it posts
  \<open>continuing_sem\<close>, or about to return.\<close>

datatype worker_pc = Running | Entered | Posting | Looping | Suspended | Leaving | Returning

text \<open>Where the collector is: not collecting, sending SIGUSR1 to the threads that are left, waiting for as
  many posts, collecting, and the same for SIGUSR2.\<close>

datatype collector_pc = Idle | SendStop "nat list" | AwaitStop "nat list" | Collecting | SendCont "nat list" | AwaitCont "nat list"

record stop_state =
  has_stopping :: bool
  stopping_sem :: nat
  continuing_sem :: nat
  usr1 :: "nat set"
  usr2 :: "nat set"
  worker :: "nat \<Rightarrow> worker_pc"
  collector :: collector_pc
  work :: "nat \<Rightarrow> nat"

definition stop_init :: stop_state where
  "stop_init = \<lparr>has_stopping = False, stopping_sem = 0, continuing_sem = 0, usr1 = {}, usr2 = {},
     worker = (\<lambda>_. Running), collector = Idle, work = (\<lambda>_. 0)\<rparr>"

definition at_worker :: "nat \<Rightarrow> worker_pc \<Rightarrow> stop_state \<Rightarrow> stop_state" where
  "at_worker t p s = s\<lparr>worker := (worker s)(t := p)\<rparr>"

section \<open>Steps\<close>

text \<open>\<open>ts\<close> are the threads to stop, those of \<open>gone\<close> have ended. A step of the program itself only
  counts.\<close>

inductive work_step :: "nat list \<Rightarrow> nat set \<Rightarrow> stop_state \<Rightarrow> stop_state \<Rightarrow> bool" for ts gone where
  run: "t \<in> set ts \<Longrightarrow> t \<notin> gone \<Longrightarrow> worker s t = Running \<Longrightarrow> work_step ts gone s (s\<lparr>work := (work s)(t := Suc (work s t))\<rparr>)"

text \<open>\<open>stop_threads\<close> sets the flag.\<close>

inductive begin_step :: "nat list \<Rightarrow> stop_state \<Rightarrow> stop_state \<Rightarrow> bool" for ts where
  stop: "collector s = Idle \<Longrightarrow> begin_step ts s (s\<lparr>has_stopping := True, collector := SendStop ts\<rparr>)"
| continue: "collector s = Collecting \<Longrightarrow> begin_step ts s (s\<lparr>has_stopping := False, collector := SendCont ts\<rparr>)"

inductive protocol_step :: "nat list \<Rightarrow> nat set \<Rightarrow> stop_state \<Rightarrow> stop_state \<Rightarrow> bool" for ts gone where
  send_stop: "collector s = SendStop (t # r) \<Longrightarrow> t \<notin> gone \<Longrightarrow>
    protocol_step ts gone s (s\<lparr>usr1 := insert t (usr1 s), collector := SendStop r\<rparr>)"
| post_stop: "collector s = SendStop (t # r) \<Longrightarrow> t \<in> gone \<Longrightarrow>
    protocol_step ts gone s (s\<lparr>stopping_sem := Suc (stopping_sem s), collector := SendStop r\<rparr>)"
| sent_stop: "collector s = SendStop [] \<Longrightarrow> protocol_step ts gone s (s\<lparr>collector := AwaitStop ts\<rparr>)"
| wait_stop: "collector s = AwaitStop (t # r) \<Longrightarrow> stopping_sem s = Suc n \<Longrightarrow>
    protocol_step ts gone s (s\<lparr>stopping_sem := n, collector := AwaitStop r\<rparr>)"
| stopped: "collector s = AwaitStop [] \<Longrightarrow> protocol_step ts gone s (s\<lparr>collector := Collecting\<rparr>)"
| send_cont: "collector s = SendCont (t # r) \<Longrightarrow> t \<notin> gone \<Longrightarrow>
    protocol_step ts gone s (s\<lparr>usr2 := insert t (usr2 s), collector := SendCont r\<rparr>)"
| post_cont: "collector s = SendCont (t # r) \<Longrightarrow> t \<in> gone \<Longrightarrow>
    protocol_step ts gone s (s\<lparr>continuing_sem := Suc (continuing_sem s), collector := SendCont r\<rparr>)"
| sent_cont: "collector s = SendCont [] \<Longrightarrow> protocol_step ts gone s (s\<lparr>collector := AwaitCont ts\<rparr>)"
| wait_cont: "collector s = AwaitCont (t # r) \<Longrightarrow> continuing_sem s = Suc n \<Longrightarrow>
    protocol_step ts gone s (s\<lparr>continuing_sem := n, collector := AwaitCont r\<rparr>)"
| continued: "collector s = AwaitCont [] \<Longrightarrow> protocol_step ts gone s (s\<lparr>collector := Idle\<rparr>)"
| deliver: "t \<in> usr1 s \<Longrightarrow> worker s t = Running \<Longrightarrow>
    protocol_step ts gone s (at_worker t Entered (s\<lparr>usr1 := usr1 s - {t}\<rparr>))"
| enter: "worker s t = Entered \<Longrightarrow> protocol_step ts gone s (at_worker t (if has_stopping s then Posting else Returning) s)"
| post: "worker s t = Posting \<Longrightarrow> protocol_step ts gone s (at_worker t Looping (s\<lparr>stopping_sem := Suc (stopping_sem s)\<rparr>))"
| loop: "worker s t = Looping \<Longrightarrow> protocol_step ts gone s (at_worker t (if has_stopping s then Suspended else Leaving) s)"
| wake: "worker s t = Suspended \<Longrightarrow> t \<in> usr2 s \<Longrightarrow>
    protocol_step ts gone s (at_worker t Looping (s\<lparr>usr2 := usr2 s - {t}\<rparr>))"
| leave: "worker s t = Leaving \<Longrightarrow> protocol_step ts gone s (at_worker t Returning (s\<lparr>continuing_sem := Suc (continuing_sem s)\<rparr>))"
| return: "worker s t = Returning \<Longrightarrow> protocol_step ts gone s (at_worker t Running s)"

inductive stop_reachable :: "nat list \<Rightarrow> nat set \<Rightarrow> stop_state \<Rightarrow> bool" for ts gone where
  init: "stop_reachable ts gone stop_init"
| work: "stop_reachable ts gone s \<Longrightarrow> work_step ts gone s t \<Longrightarrow> stop_reachable ts gone t"
| phase: "stop_reachable ts gone s \<Longrightarrow> begin_step ts s t \<Longrightarrow> stop_reachable ts gone t"
| protocol: "stop_reachable ts gone s \<Longrightarrow> protocol_step ts gone s t \<Longrightarrow> stop_reachable ts gone t"

section \<open>The invariant\<close>

text \<open>The threads for which \<open>stopping_sem\<close> was posted, and those for which \<open>continuing_sem\<close> was.\<close>

definition posted :: "nat set \<Rightarrow> nat set \<Rightarrow> stop_state \<Rightarrow> nat set" where
  "posted T gone s = {t \<in> T. t \<in> gone \<or> worker s t = Looping \<or> worker s t = Suspended}"

definition left :: "nat set \<Rightarrow> nat set \<Rightarrow> stop_state \<Rightarrow> nat set" where
  "left T gone s = {t \<in> T. t \<notin> gone \<and> (worker s t = Returning \<or> worker s t = Running)}"

definition resting :: "nat \<Rightarrow> stop_state \<Rightarrow> bool" where
  "resting t s \<longleftrightarrow> (worker s t = Running \<or> worker s t = Returning) \<and> t \<notin> usr1 s"

text \<open>A thread that SIGUSR1 was sent to, and one that may go on.\<close>

definition stopping :: "nat \<Rightarrow> stop_state \<Rightarrow> bool" where
  "stopping t s \<longleftrightarrow> (worker s t = Running \<or> worker s t = Returning) \<and> t \<in> usr1 s \<or>
     worker s t \<in> {Entered, Posting, Looping, Suspended} \<and> t \<notin> usr1 s"

definition continuing :: "nat \<Rightarrow> stop_state \<Rightarrow> bool" where
  "continuing t s \<longleftrightarrow> worker s t \<in> {Looping, Suspended, Leaving, Returning, Running} \<and> t \<notin> usr1 s"

fun phase_ok :: "nat list \<Rightarrow> nat set \<Rightarrow> stop_state \<Rightarrow> collector_pc \<Rightarrow> bool" where
  "phase_ok ts gone s Idle \<longleftrightarrow> \<not> has_stopping s \<and> stopping_sem s = 0 \<and> continuing_sem s = 0 \<and> (\<forall>t\<in>set ts - gone. resting t s)"
| "phase_ok ts gone s (SendStop r) \<longleftrightarrow> has_stopping s \<and> continuing_sem s = 0 \<and> (\<exists>p. ts = p @ r \<and>
     (\<forall>t\<in>set r - gone. resting t s) \<and> (\<forall>t\<in>set p - gone. stopping t s) \<and> stopping_sem s = card (posted (set p) gone s))"
| "phase_ok ts gone s (AwaitStop r) \<longleftrightarrow> has_stopping s \<and> continuing_sem s = 0 \<and> length r \<le> length ts \<and>
     (\<forall>t\<in>set ts - gone. stopping t s) \<and> stopping_sem s + length ts = card (posted (set ts) gone s) + length r"
| "phase_ok ts gone s Collecting \<longleftrightarrow> has_stopping s \<and> stopping_sem s = 0 \<and> continuing_sem s = 0 \<and>
     (\<forall>t\<in>set ts - gone. worker s t \<in> {Looping, Suspended} \<and> t \<notin> usr1 s)"
| "phase_ok ts gone s (SendCont r) \<longleftrightarrow> \<not> has_stopping s \<and> stopping_sem s = 0 \<and> (\<exists>p. ts = p @ r \<and>
     (\<forall>t\<in>set ts - gone. continuing t s) \<and> (\<forall>t\<in>set p - gone. worker s t = Suspended \<longrightarrow> t \<in> usr2 s) \<and>
     continuing_sem s = card (set p \<inter> gone) + card (left (set ts) gone s))"
| "phase_ok ts gone s (AwaitCont r) \<longleftrightarrow> \<not> has_stopping s \<and> stopping_sem s = 0 \<and> length r \<le> length ts \<and>
     (\<forall>t\<in>set ts - gone. continuing t s \<and> (worker s t = Suspended \<longrightarrow> t \<in> usr2 s)) \<and>
     continuing_sem s + length ts = card (set ts \<inter> gone) + card (left (set ts) gone s) + length r"

definition stop_inv :: "nat list \<Rightarrow> nat set \<Rightarrow> stop_state \<Rightarrow> bool" where
  "stop_inv ts gone s \<longleftrightarrow> usr1 s \<subseteq> set ts - gone \<and> usr2 s \<subseteq> set ts - gone \<and>
     (\<forall>t. t \<notin> set ts - gone \<longrightarrow> worker s t = Running) \<and> phase_ok ts gone s (collector s)"

lemma finite_posted [simp]: "finite T \<Longrightarrow> finite (posted T gone s)" "finite T \<Longrightarrow> finite (left T gone s)"
  by (simp_all add: posted_def left_def)

lemmas thread_defs = posted_def left_def resting_def stopping_def continuing_def

lemma phase_ok_irrelevant [simp]:
  "phase_ok ts gone (s\<lparr>collector := c\<rparr>) pc = phase_ok ts gone s pc" "phase_ok ts gone (s\<lparr>work := w\<rparr>) pc = phase_ok ts gone s pc"
  by (cases pc; simp add: thread_defs)+

lemma stop_inv_init: "stop_inv ts gone stop_init"
  by (simp add: stop_inv_def stop_init_def resting_def)

lemma stop_inv_work: "work_step ts gone s t \<Longrightarrow> stop_inv ts gone s \<Longrightarrow> stop_inv ts gone t"
  by (induction rule: work_step.induct) (simp add: stop_inv_def)

lemma stop_inv_begin: "begin_step ts s t \<Longrightarrow> distinct ts \<Longrightarrow> stop_inv ts gone s \<Longrightarrow> stop_inv ts gone t"
proof (induction rule: begin_step.induct)
  case (stop s)
  then show ?case by (auto simp: stop_inv_def thread_defs)
next
  case (continue s)
  then have "\<forall>t\<in>set ts - gone. worker s t \<in> {Looping, Suspended}" by (simp add: stop_inv_def)
  then have "left (set ts) gone s = {}" by (auto simp: left_def dest!: bspec)
  moreover have "left (set ts) gone (s\<lparr>has_stopping := False, collector := SendCont ts\<rparr>) = left (set ts) gone s" by (simp add: left_def)
  ultimately show ?case using continue by (auto simp: stop_inv_def thread_defs)
qed

text \<open>What the steps of a thread do to the sets of threads that are counted.\<close>

lemma posted_update:
  "t \<in> T \<Longrightarrow> posted T gone (at_worker t p s) = (if t \<in> gone \<or> p = Looping \<or> p = Suspended then insert t (posted T gone s) else posted T gone s - {t})"
  "t \<in> T \<Longrightarrow> left T gone (at_worker t p s) = (if t \<notin> gone \<and> (p = Returning \<or> p = Running) then insert t (left T gone s) else left T gone s - {t})"
  "t \<notin> T \<Longrightarrow> posted T gone (at_worker t p s) = posted T gone s" "t \<notin> T \<Longrightarrow> left T gone (at_worker t p s) = left T gone s"
  by (auto simp: posted_def left_def at_worker_def)

lemma in_posted [simp]: "t \<in> posted T gone s \<longleftrightarrow> t \<in> T \<and> (t \<in> gone \<or> worker s t = Looping \<or> worker s t = Suspended)"
  "t \<in> left T gone s \<longleftrightarrow> t \<in> T \<and> t \<notin> gone \<and> (worker s t = Returning \<or> worker s t = Running)"
  by (simp_all add: posted_def left_def)

lemma at_worker_simps [simp]:
  "worker (at_worker t p s) u = (if u = t then p else worker s u)" "has_stopping (at_worker t p s) = has_stopping s"
  "stopping_sem (at_worker t p s) = stopping_sem s" "continuing_sem (at_worker t p s) = continuing_sem s"
  "usr1 (at_worker t p s) = usr1 s" "usr2 (at_worker t p s) = usr2 s" "collector (at_worker t p s) = collector s"
  by (simp_all add: at_worker_def)

lemma posted_ignores [simp]:
  "posted T gone (s\<lparr>usr1 := x\<rparr>) = posted T gone s" "posted T gone (s\<lparr>usr2 := x\<rparr>) = posted T gone s"
  "posted T gone (s\<lparr>stopping_sem := n\<rparr>) = posted T gone s" "posted T gone (s\<lparr>continuing_sem := n\<rparr>) = posted T gone s"
  "posted T gone (s\<lparr>collector := c\<rparr>) = posted T gone s"
  "left T gone (s\<lparr>usr1 := x\<rparr>) = left T gone s" "left T gone (s\<lparr>usr2 := x\<rparr>) = left T gone s"
  "left T gone (s\<lparr>stopping_sem := n\<rparr>) = left T gone s" "left T gone (s\<lparr>continuing_sem := n\<rparr>) = left T gone s"
  "left T gone (s\<lparr>collector := c\<rparr>) = left T gone s"
  by (simp_all add: posted_def left_def)

lemma stop_inv_collector:
  assumes "distinct ts" "stop_inv ts gone s"
  shows "collector s = SendStop (t # r) \<Longrightarrow> t \<notin> gone \<Longrightarrow> stop_inv ts gone (s\<lparr>usr1 := insert t (usr1 s), collector := SendStop r\<rparr>)"
    "collector s = SendStop (t # r) \<Longrightarrow> t \<in> gone \<Longrightarrow> stop_inv ts gone (s\<lparr>stopping_sem := Suc (stopping_sem s), collector := SendStop r\<rparr>)"
    "collector s = SendStop [] \<Longrightarrow> stop_inv ts gone (s\<lparr>collector := AwaitStop ts\<rparr>)"
    "collector s = AwaitStop (t # r) \<Longrightarrow> stopping_sem s = Suc n \<Longrightarrow> stop_inv ts gone (s\<lparr>stopping_sem := n, collector := AwaitStop r\<rparr>)"
    "collector s = AwaitStop [] \<Longrightarrow> stop_inv ts gone (s\<lparr>collector := Collecting\<rparr>)"
proof -
  show "stop_inv ts gone (s\<lparr>usr1 := insert t (usr1 s), collector := SendStop r\<rparr>)" if c: "collector s = SendStop (t # r)" "t \<notin> gone"
  proof -
    obtain p where p: "ts = p @ t # r" "\<forall>t\<in>set (t # r) - gone. resting t s" "\<forall>t\<in>set p - gone. stopping t s" "stopping_sem s = card (posted (set p) gone s)"
      using assms(2) c by (auto simp: stop_inv_def)
    have "resting t s" using p(2) c(2) by simp
    then have "posted (set (p @ [t])) gone s = posted (set p) gone s" using c(2) by (auto simp: posted_def resting_def)
    then show ?thesis
      using assms p c by (auto simp: stop_inv_def thread_defs intro!: exI [of _ "p @ [t]"])
  qed
  show "stop_inv ts gone (s\<lparr>stopping_sem := Suc (stopping_sem s), collector := SendStop r\<rparr>)" if c: "collector s = SendStop (t # r)" "t \<in> gone"
  proof -
    obtain p where p: "ts = p @ t # r" "\<forall>t\<in>set (t # r) - gone. resting t s" "\<forall>t\<in>set p - gone. stopping t s" "stopping_sem s = card (posted (set p) gone s)"
      using assms(2) c by (auto simp: stop_inv_def)
    have "posted (set (p @ [t])) gone s = insert t (posted (set p) gone s)" "t \<notin> posted (set p) gone s"
      using p(1) assms(1) c(2) by (auto simp: posted_def)
    then show ?thesis
      using assms p c by (auto simp: stop_inv_def stopping_def resting_def intro!: exI [of _ "p @ [t]"])
  qed
  show "stop_inv ts gone (s\<lparr>collector := AwaitStop ts\<rparr>)" if "collector s = SendStop []"
    using assms that by (auto simp: stop_inv_def stopping_def)
  show "stop_inv ts gone (s\<lparr>stopping_sem := n, collector := AwaitStop r\<rparr>)" if "collector s = AwaitStop (t # r)" "stopping_sem s = Suc n"
    using assms that by (auto simp: stop_inv_def stopping_def)
  show "stop_inv ts gone (s\<lparr>collector := Collecting\<rparr>)" if c: "collector s = AwaitStop []"
  proof -
    have ph: "has_stopping s" "continuing_sem s = 0" "\<forall>t\<in>set ts - gone. stopping t s" "stopping_sem s + length ts = card (posted (set ts) gone s)"
      using assms(2) c by (auto simp: stop_inv_def)
    have le: "card (posted (set ts) gone s) \<le> card (set ts)" by (rule card_mono) (auto simp: posted_def)
    then have eq: "stopping_sem s = 0" "card (posted (set ts) gone s) = card (set ts)" using ph(4) distinct_card [OF assms(1)] by simp_all
    have "posted (set ts) gone s = set ts" by (rule card_subset_eq) (use eq(2) in \<open>auto simp: posted_def\<close>)
    then have "\<forall>t\<in>set ts - gone. worker s t \<in> {Looping, Suspended} \<and> t \<notin> usr1 s"
      using ph(3) by (force simp: posted_def stopping_def set_eq_iff)
    then show ?thesis using assms(2) ph eq(1) by (simp add: stop_inv_def)
  qed
qed

lemma stop_inv_collector2:
  assumes "distinct ts" "stop_inv ts gone s"
  shows "collector s = SendCont (t # r) \<Longrightarrow> t \<notin> gone \<Longrightarrow> stop_inv ts gone (s\<lparr>usr2 := insert t (usr2 s), collector := SendCont r\<rparr>)"
    "collector s = SendCont (t # r) \<Longrightarrow> t \<in> gone \<Longrightarrow> stop_inv ts gone (s\<lparr>continuing_sem := Suc (continuing_sem s), collector := SendCont r\<rparr>)"
    "collector s = SendCont [] \<Longrightarrow> stop_inv ts gone (s\<lparr>collector := AwaitCont ts\<rparr>)"
    "collector s = AwaitCont (t # r) \<Longrightarrow> continuing_sem s = Suc n \<Longrightarrow> stop_inv ts gone (s\<lparr>continuing_sem := n, collector := AwaitCont r\<rparr>)"
    "collector s = AwaitCont [] \<Longrightarrow> stop_inv ts gone (s\<lparr>collector := Idle\<rparr>)"
proof -
  show "stop_inv ts gone (s\<lparr>usr2 := insert t (usr2 s), collector := SendCont r\<rparr>)" if c: "collector s = SendCont (t # r)" "t \<notin> gone"
  proof -
    obtain p where p: "ts = p @ t # r" "\<forall>t\<in>set ts - gone. continuing t s" "\<forall>t\<in>set p - gone. worker s t = Suspended \<longrightarrow> t \<in> usr2 s"
        "continuing_sem s = card (set p \<inter> gone) + card (left (set ts) gone s)"
      using assms(2) c by (auto simp: stop_inv_def)
    have "set (p @ [t]) \<inter> gone = set p \<inter> gone" using c(2) by auto
    then show ?thesis
      using assms p c by (auto simp: stop_inv_def continuing_def intro!: exI [of _ "p @ [t]"])
  qed
  show "stop_inv ts gone (s\<lparr>continuing_sem := Suc (continuing_sem s), collector := SendCont r\<rparr>)" if c: "collector s = SendCont (t # r)" "t \<in> gone"
  proof -
    obtain p where p: "ts = p @ t # r" "\<forall>t\<in>set ts - gone. continuing t s" "\<forall>t\<in>set p - gone. worker s t = Suspended \<longrightarrow> t \<in> usr2 s"
        "continuing_sem s = card (set p \<inter> gone) + card (left (set ts) gone s)"
      using assms(2) c by (auto simp: stop_inv_def)
    have "set (p @ [t]) \<inter> gone = insert t (set p \<inter> gone)" "t \<notin> set p \<inter> gone" using c(2) p(1) assms(1) by auto
    then have "card (set (p @ [t]) \<inter> gone) = Suc (card (set p \<inter> gone))" by simp
    then show ?thesis
      using assms p c by (auto simp: stop_inv_def continuing_def intro!: exI [of _ "p @ [t]"])
  qed
  show "stop_inv ts gone (s\<lparr>collector := AwaitCont ts\<rparr>)" if "collector s = SendCont []"
    using assms that by (auto simp: stop_inv_def continuing_def)
  show "stop_inv ts gone (s\<lparr>continuing_sem := n, collector := AwaitCont r\<rparr>)" if "collector s = AwaitCont (t # r)" "continuing_sem s = Suc n"
    using assms that by (auto simp: stop_inv_def continuing_def)
  show "stop_inv ts gone (s\<lparr>collector := Idle\<rparr>)" if c: "collector s = AwaitCont []"
  proof -
    have ph: "\<not> has_stopping s" "stopping_sem s = 0" "\<forall>t\<in>set ts - gone. continuing t s"
        "continuing_sem s + length ts = card (set ts \<inter> gone) + card (left (set ts) gone s)"
      using assms(2) c by (auto simp: stop_inv_def)
    have d: "card (set ts) = card (set ts \<inter> gone) + card (set ts - gone)"
      by (subst card_Un_disjoint [symmetric]) (auto intro: arg_cong [where f = card])
    have le: "card (left (set ts) gone s) \<le> card (set ts - gone)" by (rule card_mono) (auto simp: left_def)
    then have eq: "continuing_sem s = 0" "card (left (set ts) gone s) = card (set ts - gone)"
      using ph(4) d distinct_card [OF assms(1)] by simp_all
    have "left (set ts) gone s = set ts - gone" by (rule card_subset_eq) (use eq(2) in \<open>auto simp: left_def\<close>)
    then have "\<forall>t\<in>set ts - gone. resting t s"
      using ph(3) by (auto simp: left_def resting_def continuing_def set_eq_iff)
    then show ?thesis using assms(2) ph eq(1) by (simp add: stop_inv_def resting_def)
  qed
qed

text \<open>Where a thread can be in each phase.\<close>

definition thread_phase :: "nat \<Rightarrow> stop_state \<Rightarrow> bool" where
  "thread_phase t s \<longleftrightarrow> (case collector s of
     Idle \<Rightarrow> resting t s \<and> \<not> has_stopping s
   | SendStop r \<Rightarrow> (if t \<in> set r then resting t s else stopping t s) \<and> has_stopping s
   | AwaitStop r \<Rightarrow> stopping t s \<and> has_stopping s
   | Collecting \<Rightarrow> worker s t \<in> {Looping, Suspended} \<and> t \<notin> usr1 s \<and> has_stopping s
   | SendCont r \<Rightarrow> continuing t s \<and> (t \<notin> set r \<longrightarrow> worker s t = Suspended \<longrightarrow> t \<in> usr2 s) \<and> \<not> has_stopping s
   | AwaitCont r \<Rightarrow> continuing t s \<and> (worker s t = Suspended \<longrightarrow> t \<in> usr2 s) \<and> \<not> has_stopping s)"

lemma stop_inv_thread:
  assumes "stop_inv ts gone s" "t \<in> set ts - gone"
  shows "thread_phase t s"
proof (cases "collector s")
  case (SendStop r)
  then obtain p where "ts = p @ r" "\<forall>t\<in>set r - gone. resting t s" "\<forall>t\<in>set p - gone. stopping t s" "has_stopping s"
    using assms(1) by (auto simp: stop_inv_def)
  then show ?thesis using SendStop assms(2) by (auto simp: thread_phase_def)
next
  case (SendCont r)
  then obtain p where "ts = p @ r" "\<forall>t\<in>set ts - gone. continuing t s" "\<forall>t\<in>set p - gone. worker s t = Suspended \<longrightarrow> t \<in> usr2 s" "\<not> has_stopping s"
    using assms(1) by (auto simp: stop_inv_def)
  then show ?thesis using SendCont assms(2) by (auto simp: thread_phase_def)
qed (use assms in \<open>auto simp: thread_phase_def stop_inv_def\<close>)

text \<open>The steps of a thread.\<close>

lemma stop_inv_worker:
  assumes "distinct ts" "stop_inv ts gone s"
  shows "t \<in> usr1 s \<Longrightarrow> worker s t = Running \<Longrightarrow> stop_inv ts gone (at_worker t Entered (s\<lparr>usr1 := usr1 s - {t}\<rparr>))"
    "worker s t = Entered \<Longrightarrow> stop_inv ts gone (at_worker t (if has_stopping s then Posting else Returning) s)"
    "worker s t = Posting \<Longrightarrow> stop_inv ts gone (at_worker t Looping (s\<lparr>stopping_sem := Suc (stopping_sem s)\<rparr>))"
    "worker s t = Looping \<Longrightarrow> stop_inv ts gone (at_worker t (if has_stopping s then Suspended else Leaving) s)"
    "worker s t = Suspended \<Longrightarrow> t \<in> usr2 s \<Longrightarrow> stop_inv ts gone (at_worker t Looping (s\<lparr>usr2 := usr2 s - {t}\<rparr>))"
    "worker s t = Leaving \<Longrightarrow> stop_inv ts gone (at_worker t Returning (s\<lparr>continuing_sem := Suc (continuing_sem s)\<rparr>))"
    "worker s t = Returning \<Longrightarrow> stop_inv ts gone (at_worker t Running s)"
proof -
  have fin: "finite (posted (set p) gone s)" "finite (left (set p) gone s)" for p by simp_all
  have T: "t \<in> set ts - gone" if "worker s t \<noteq> Running \<or> t \<in> usr1 s" using assms(2) that by (auto simp: stop_inv_def)
  have ph: "thread_phase t s" if "worker s t \<noteq> Running \<or> t \<in> usr1 s" using stop_inv_thread [OF assms(2) T [OF that]] .
  note w = stop_inv_def thread_phase_def resting_def stopping_def continuing_def posted_update insert_absorb
  show "stop_inv ts gone (at_worker t Entered (s\<lparr>usr1 := usr1 s - {t}\<rparr>))" if a: "t \<in> usr1 s" "worker s t = Running"
    using assms T a ph by (cases "collector s") (auto simp: w split: if_splits)
  show "stop_inv ts gone (at_worker t (if has_stopping s then Posting else Returning) s)" if a: "worker s t = Entered"
    using assms T a ph by (cases "collector s") (auto simp: w split: if_splits)
  show "stop_inv ts gone (at_worker t Looping (s\<lparr>stopping_sem := Suc (stopping_sem s)\<rparr>))" if a: "worker s t = Posting"
    using assms T a ph by (cases "collector s") (auto simp: w split: if_splits)
  show "stop_inv ts gone (at_worker t (if has_stopping s then Suspended else Leaving) s)" if a: "worker s t = Looping"
    using assms T a ph by (cases "collector s") (auto simp: w split: if_splits)
  show "stop_inv ts gone (at_worker t Looping (s\<lparr>usr2 := usr2 s - {t}\<rparr>))" if a: "worker s t = Suspended" "t \<in> usr2 s"
    using assms T a ph by (cases "collector s") (auto simp: w split: if_splits)
  show "stop_inv ts gone (at_worker t Returning (s\<lparr>continuing_sem := Suc (continuing_sem s)\<rparr>))" if a: "worker s t = Leaving"
    using assms T a ph by (cases "collector s") (auto simp: w split: if_splits)
  show "stop_inv ts gone (at_worker t Running s)" if a: "worker s t = Returning"
  proof -
    have "posted U gone (at_worker t Running s) = posted U gone s" "left U gone (at_worker t Running s) = left U gone s" if "t \<notin> gone" for U
      using a that by (auto simp: posted_def left_def)
    then show ?thesis
      using assms T a ph by (cases "collector s") (auto simp: stop_inv_def thread_phase_def resting_def stopping_def continuing_def split: if_splits)
  qed
qed

lemma stop_inv_protocol: "protocol_step ts gone s t \<Longrightarrow> distinct ts \<Longrightarrow> stop_inv ts gone s \<Longrightarrow> stop_inv ts gone t"
  by (induction rule: protocol_step.induct) (simp_all add: stop_inv_collector stop_inv_collector2 stop_inv_worker del: if_split)

lemma stop_inv_reachable: "stop_reachable ts gone s \<Longrightarrow> distinct ts \<Longrightarrow> stop_inv ts gone s"
  by (induction rule: stop_reachable.induct) (auto intro: stop_inv_init stop_inv_work stop_inv_begin stop_inv_protocol)

section \<open>Stopping and continuing end\<close>

text \<open>What is left to do: every step of the protocol makes it less.\<close>

fun collector_weight :: "nat list \<Rightarrow> collector_pc \<Rightarrow> nat" where
  "collector_weight ts Idle = 0"
| "collector_weight ts (SendStop r) = 10 * length r + length ts + 2"
| "collector_weight ts (AwaitStop r) = length r + 1"
| "collector_weight ts Collecting = 0"
| "collector_weight ts (SendCont r) = 10 * length r + length ts + 2"
| "collector_weight ts (AwaitCont r) = length r + 1"

fun worker_weight :: "worker_pc \<Rightarrow> nat" where
  "worker_weight Running = 0"
| "worker_weight Entered = 5"
| "worker_weight Posting = 4"
| "worker_weight Looping = 3"
| "worker_weight Suspended = 0"
| "worker_weight Leaving = 2"
| "worker_weight Returning = 1"

definition thread_weight :: "stop_state \<Rightarrow> nat \<Rightarrow> nat" where
  "thread_weight s t = worker_weight (worker s t) + (if t \<in> usr1 s then 6 else 0) + (if t \<in> usr2 s then 4 else 0)"

definition protocol_left :: "nat list \<Rightarrow> stop_state \<Rightarrow> nat" where
  "protocol_left ts s = collector_weight ts (collector s) + sum (thread_weight s) (set ts)"

lemma protocol_left_thread:
  assumes "t \<in> set ts" "collector s' = collector s" "\<And>u. u \<noteq> t \<Longrightarrow> thread_weight s' u = thread_weight s u" "thread_weight s' t < thread_weight s t"
  shows "protocol_left ts s' < protocol_left ts s"
proof -
  have "sum (thread_weight s') (set ts - {t}) = sum (thread_weight s) (set ts - {t})" by (rule sum.cong) (use assms(3) in auto)
  then show ?thesis
    using assms(1,2,4) by (simp add: protocol_left_def sum.remove [of "set ts" t])
qed

lemma protocol_left_send:
  assumes "t \<in> set ts" "collector_weight ts (collector s') + 10 \<le> collector_weight ts (collector s)"
    "\<And>u. u \<noteq> t \<Longrightarrow> thread_weight s' u = thread_weight s u" "thread_weight s' t < thread_weight s t + 10"
  shows "protocol_left ts s' < protocol_left ts s"
proof -
  have "sum (thread_weight s') (set ts - {t}) = sum (thread_weight s) (set ts - {t})" by (rule sum.cong) (use assms(3) in auto)
  then show ?thesis
    using assms(1,2,4) by (simp add: protocol_left_def sum.remove [of "set ts" t])
qed

lemma protocol_step_decreases:
  assumes "protocol_step ts gone s s'" "stop_inv ts gone s"
  shows "protocol_left ts s' < protocol_left ts s"
proof -
  have T: "t \<in> set ts" if "worker s t \<noteq> Running \<or> t \<in> usr1 s" for t using assms(2) that by (auto simp: stop_inv_def)
  have C: "t \<in> set ts" if "collector s = SendStop (t # r) \<or> collector s = SendCont (t # r)" for t r
    using assms(2) that by (auto simp: stop_inv_def)
  have same: "sum (thread_weight (s\<lparr>collector := c\<rparr>)) (set ts) = sum (thread_weight s) (set ts)"
    "sum (thread_weight (s\<lparr>stopping_sem := n, collector := c\<rparr>)) (set ts) = sum (thread_weight s) (set ts)"
    "sum (thread_weight (s\<lparr>continuing_sem := n, collector := c\<rparr>)) (set ts) = sum (thread_weight s) (set ts)" for c n
    by (simp_all add: thread_weight_def)
  show ?thesis
    using assms(1)
  proof cases
    case (send_stop t r)
    then show ?thesis by (intro protocol_left_send [of t]) (auto simp: thread_weight_def C)
  next
    case (send_cont t r)
    then show ?thesis by (intro protocol_left_send [of t]) (auto simp: thread_weight_def C)
  next
    case (deliver t)
    then show ?thesis by (intro protocol_left_thread [of t]) (auto simp: thread_weight_def T)
  next
    case (enter t)
    then show ?thesis by (intro protocol_left_thread [of t]) (auto simp: thread_weight_def T)
  next
    case (post t)
    then show ?thesis by (intro protocol_left_thread [of t]) (auto simp: thread_weight_def T)
  next
    case (loop t)
    then show ?thesis by (intro protocol_left_thread [of t]) (auto simp: thread_weight_def T)
  next
    case (wake t)
    then show ?thesis by (intro protocol_left_thread [of t]) (auto simp: thread_weight_def T)
  next
    case (leave t)
    then show ?thesis by (intro protocol_left_thread [of t]) (auto simp: thread_weight_def T)
  next
    case (return t)
    then show ?thesis by (intro protocol_left_thread [of t]) (auto simp: thread_weight_def T)
  qed (simp_all add: protocol_left_def same)
qed

text \<open>Nobody waits for ever: while the threads are being stopped or continued, some step is possible.\<close>

lemma awaited_thread_moves:
  assumes "stop_inv ts gone s" "t \<in> set ts - gone" "stopping t s" "t \<notin> posted (set ts) gone s"
  shows "\<exists>s'. protocol_step ts gone s s'"
  using assms protocol_step.deliver protocol_step.enter protocol_step.post protocol_step.return by (fastforce simp: stopping_def)

lemma protocol_progress:
  assumes d: "distinct ts" and inv: "stop_inv ts gone s" and c: "collector s \<noteq> Idle" "collector s \<noteq> Collecting"
  shows "\<exists>s'. protocol_step ts gone s s'"
proof (cases "collector s")
  case (SendStop r)
  then show ?thesis by (cases r; cases "hd r \<in> gone") (auto intro: protocol_step.intros)
next
  case (SendCont r)
  then show ?thesis by (cases r; cases "hd r \<in> gone") (auto intro: protocol_step.intros)
next
  case (AwaitStop r)
  show ?thesis
  proof (cases "r = [] \<or> stopping_sem s \<noteq> 0")
    case True
    then show ?thesis using AwaitStop by (cases r; cases "stopping_sem s") (auto intro: protocol_step.intros)
  next
    case False
    then have "card (posted (set ts) gone s) < card (set ts)"
      using inv AwaitStop distinct_card [OF d] by (cases r) (auto simp: stop_inv_def)
    then obtain t where "t \<in> set ts" "t \<notin> posted (set ts) gone s" by (metis card_mono finite_posted(1) List.finite_set not_less subsetI)
    moreover have "\<forall>t\<in>set ts - gone. stopping t s" using inv AwaitStop by (simp add: stop_inv_def)
    ultimately show ?thesis using awaited_thread_moves [OF inv, of t] by simp
  qed
next
  case (AwaitCont r)
  show ?thesis
  proof (cases "r = [] \<or> continuing_sem s \<noteq> 0")
    case True
    then show ?thesis using AwaitCont by (cases r; cases "continuing_sem s") (auto intro: protocol_step.intros)
  next
    case False
    have u: "(set ts \<inter> gone) \<union> left (set ts) gone s \<subseteq> set ts" "(set ts \<inter> gone) \<inter> left (set ts) gone s = {}" by (auto simp: left_def)
    have "card ((set ts \<inter> gone) \<union> left (set ts) gone s) < card (set ts)"
      using False inv AwaitCont distinct_card [OF d] u(2) by (cases r) (auto simp: stop_inv_def card_Un_disjoint)
    then obtain t where t: "t \<in> set ts" "t \<notin> gone" "t \<notin> left (set ts) gone s" using u(1) by (metis IntI UnCI less_irrefl subsetI subset_antisym)
    then have "worker s t = Looping \<or> worker s t = Leaving \<or> worker s t = Suspended \<and> t \<in> usr2 s"
      using inv AwaitCont stop_inv_thread [OF inv, of t] by (auto simp: thread_phase_def continuing_def)
    then show ?thesis using protocol_step.loop protocol_step.leave protocol_step.wake by blast
  qed
qed (use c in simp_all)

inductive_simps work_step_simps: "work_step ts gone s t"

lemma work_keeps_protocol_left: "work_step ts gone s t \<Longrightarrow> protocol_left ts t = protocol_left ts s"
  by (auto simp: work_step_simps protocol_left_def thread_weight_def)

section \<open>Properties\<close>

text \<open>C6: While the collector collects, no thread that it has to stop runs, in whatever order the collector, the
  handlers and the signals were interleaved before, over any number of collections; and no post of a semaphore is left
  over that a later collection could take for another one.\<close>

theorem threads_rest_while_collecting:
  assumes "distinct ts" and "stop_reachable ts gone s" and "collector s = Collecting"
  shows "\<not> work_step ts gone s s' \<and> stopping_sem s = 0 \<and> continuing_sem s = 0"
proof -
  have inv: "stop_inv ts gone s" by (rule stop_inv_reachable [OF assms(2,1)])
  have "worker s t \<in> {Looping, Suspended}" if "t \<in> set ts" "t \<notin> gone" for t
    using stop_inv_thread [OF inv, of t] that assms(3) by (simp add: thread_phase_def)
  then show ?thesis using inv assms(3) by (fastforce simp: stop_inv_def work_step_simps)
qed

text \<open>One thread is stopped, another one has ended.\<close>

definition sample_stop :: "nat \<Rightarrow> nat set \<Rightarrow> worker_pc \<Rightarrow> collector_pc \<Rightarrow> stop_state" where
  "sample_stop n u w c = stop_init\<lparr>has_stopping := True, stopping_sem := n, usr1 := u, worker := (\<lambda>_. Running)(0 := w), collector := c\<rparr>"

lemma sample_stop_reachable:
  "stop_reachable [0, 1] {1} (sample_stop 0 {0} Running (SendStop [1]))" "stop_reachable [0, 1] {1} (sample_stop 0 {} Suspended Collecting)"
proof -
  have step: "stop_reachable [0, 1] {1} s \<Longrightarrow> protocol_step [0, 1] {1} s t \<Longrightarrow> t = u \<Longrightarrow> stop_reachable [0, 1] {1} u" for s t u
    using stop_reachable.protocol by blast
  have "stop_reachable [0, 1] {1} (stop_init\<lparr>has_stopping := True, collector := SendStop [0, 1]\<rparr>)"
    by (rule stop_reachable.phase [OF stop_reachable.init begin_step.stop]) (simp add: stop_init_def)
  then show "stop_reachable [0, 1] {1} (sample_stop 0 {0} Running (SendStop [1]))"
    by (rule step [OF _ protocol_step.send_stop]) (simp add: sample_stop_def stop_init_def fun_eq_iff)+
  then have "stop_reachable [0, 1] {1} (sample_stop 1 {0} Running (SendStop []))"
    by (rule step [OF _ protocol_step.post_stop]) (simp add: sample_stop_def stop_init_def fun_eq_iff)+
  then have "stop_reachable [0, 1] {1} (sample_stop 1 {0} Running (AwaitStop [0, 1]))"
    by (rule step [OF _ protocol_step.sent_stop]) (simp add: sample_stop_def stop_init_def fun_eq_iff)+
  then have "stop_reachable [0, 1] {1} (sample_stop 1 {} Entered (AwaitStop [0, 1]))"
    by (rule step [OF _ protocol_step.deliver [of 0]]) (simp add: sample_stop_def stop_init_def at_worker_def fun_eq_iff)+
  then have "stop_reachable [0, 1] {1} (sample_stop 1 {} Posting (AwaitStop [0, 1]))"
    by (rule step [OF _ protocol_step.enter [of _ 0]]) (simp add: sample_stop_def stop_init_def at_worker_def fun_eq_iff)+
  then have "stop_reachable [0, 1] {1} (sample_stop 2 {} Looping (AwaitStop [0, 1]))"
    by (rule step [OF _ protocol_step.post [of _ 0]]) (simp add: sample_stop_def stop_init_def at_worker_def fun_eq_iff)+
  then have "stop_reachable [0, 1] {1} (sample_stop 1 {} Looping (AwaitStop [1]))"
    by (rule step [OF _ protocol_step.wait_stop]) (simp add: sample_stop_def stop_init_def fun_eq_iff)+
  then have "stop_reachable [0, 1] {1} (sample_stop 0 {} Looping (AwaitStop []))"
    by (rule step [OF _ protocol_step.wait_stop]) (simp add: sample_stop_def stop_init_def fun_eq_iff)+
  then have "stop_reachable [0, 1] {1} (sample_stop 0 {} Looping Collecting)"
    by (rule step [OF _ protocol_step.stopped]) (simp add: sample_stop_def stop_init_def fun_eq_iff)+
  then show "stop_reachable [0, 1] {1} (sample_stop 0 {} Suspended Collecting)"
    by (rule step [OF _ protocol_step.loop [of _ 0]]) (simp add: sample_stop_def stop_init_def at_worker_def fun_eq_iff)+
qed

lemma threads_rest_while_collecting_witness:
  "\<not> work_step [0, 1] {1} (sample_stop 0 {} Suspended Collecting) (sample_stop 0 {} Suspended Collecting)"
  using threads_rest_while_collecting [OF _ sample_stop_reachable(2)] by (simp add: sample_stop_def)

text \<open>C7: Stopping the threads and letting them go on always end: in every state in between, some step of the
  collector or of a handler is possible, so no post and no wake-up can be lost; every such step leaves less
  to do, and what the threads run meanwhile does not add to it.\<close>

theorem stopping_ends:
  assumes "distinct ts" and "stop_reachable ts gone s" and "collector s \<noteq> Idle" and "collector s \<noteq> Collecting"
  shows "(\<exists>u. protocol_step ts gone s u) \<and> (\<forall>u. protocol_step ts gone s u \<longrightarrow> protocol_left ts u < protocol_left ts s) \<and>
    (\<forall>u. work_step ts gone s u \<longrightarrow> protocol_left ts u = protocol_left ts s)"
  using stop_inv_reachable [OF assms(2,1)] protocol_progress [OF assms(1) _ assms(3,4)] protocol_step_decreases work_keeps_protocol_left
  by blast

lemma stopping_ends_witness: "\<exists>u. protocol_step [0, 1] {1} (sample_stop 0 {0} Running (SendStop [1])) u"
  using stopping_ends [OF _ sample_stop_reachable(1)] by (simp add: sample_stop_def)

end
