(* ===== verification/Fork_Handling.thy ===== *)
theory Fork_Handling
  imports Letin_Prelude
begin

text \<open>
  Forking a process that runs programs: the handlers that are called before and after a fork
  (\<open>ForkAround\<close>, \<open>add_fork_handler\<close> and \<open>delete_fork_handler\<close> of vm/vm.cpp), and the handler of the collector
  together with the thread that collects at intervals (vm/impl_gc_base.cpp).
\<close>

section \<open>The map of handlers\<close>

text \<open>The handlers of each priority, by increasing priority, each list in the order of the registrations.\<close>

type_synonym 'h handlers = "(int \<times> 'h list) list"

fun add_fork_handler :: "int \<Rightarrow> 'h \<Rightarrow> 'h handlers \<Rightarrow> 'h handlers" where
  "add_fork_handler prio h [] = [(prio, [h])]"
| "add_fork_handler prio h ((p, hs) # m) =
     (if prio < p then (prio, [h]) # (p, hs) # m
      else if prio = p then (p, hs @ [h]) # m
      else (p, hs) # add_fork_handler prio h m)"

text \<open>Only the first registration is taken back, and no empty list is kept.\<close>

fun delete_fork_handler :: "int \<Rightarrow> 'h \<Rightarrow> 'h handlers \<Rightarrow> 'h handlers" where
  "delete_fork_handler prio h [] = []"
| "delete_fork_handler prio h ((p, hs) # m) =
     (if prio = p then (if remove1 h hs = [] then m else (p, remove1 h hs) # m)
      else (p, hs) # delete_fork_handler prio h m)"

text \<open>The order in which the constructor of \<open>ForkAround\<close> calls \<open>pre_fork\<close>, and its destructor
  \<open>post_fork\<close>.\<close>

definition pre_fork_order :: "'h handlers \<Rightarrow> 'h list" where
  "pre_fork_order m = concat (map snd (rev m))"

definition post_fork_order :: "'h handlers \<Rightarrow> 'h list" where
  "post_fork_order m = concat (map snd m)"

definition handlers_ok :: "'h handlers \<Rightarrow> bool" where
  "handlers_ok m \<longleftrightarrow> sorted (map fst m) \<and> distinct (map fst m) \<and> [] \<notin> snd ` set m"

lemma keys_add: "fst ` set (add_fork_handler prio h m) = insert prio (fst ` set m)"
  by (induction prio h m rule: add_fork_handler.induct) auto

lemma keys_delete: "fst ` set (delete_fork_handler prio h m) \<subseteq> fst ` set m"
  by (induction prio h m rule: delete_fork_handler.induct) auto

lemma handlers_ok_Cons:
  "handlers_ok ((p, hs) # m) \<longleftrightarrow> (\<forall>q\<in>fst ` set m. p < q) \<and> hs \<noteq> [] \<and> handlers_ok m"
  by (auto simp: handlers_ok_def less_le)

lemma handlers_ok_add: "handlers_ok m \<Longrightarrow> handlers_ok (add_fork_handler prio h m)"
proof (induction prio h m rule: add_fork_handler.induct)
  case (2 prio h p hs m)
  have "\<forall>q\<in>fst ` set (add_fork_handler prio h m). p < q" if "p < prio"
    unfolding keys_add using 2(2) that by (auto simp: handlers_ok_Cons)
  with 2 show ?case by (auto simp: handlers_ok_Cons)
qed (simp add: handlers_ok_def)

lemma handlers_ok_delete: "handlers_ok m \<Longrightarrow> handlers_ok (delete_fork_handler prio h m)"
proof (induction prio h m rule: delete_fork_handler.induct)
  case (2 prio h p hs m)
  have "\<forall>q\<in>fst ` set (delete_fork_handler prio h m). p < q"
    using keys_delete [of prio h m] 2(2) unfolding handlers_ok_Cons by blast
  with 2 show ?case by (auto simp: handlers_ok_Cons)
qed simp

text \<open>The handlers of a priority.\<close>

definition handlers_of :: "'h handlers \<Rightarrow> int \<Rightarrow> 'h list" where
  "handlers_of m prio = (case map_of m prio of None \<Rightarrow> [] | Some hs \<Rightarrow> hs)"

lemma map_of_above: "\<forall>q\<in>fst ` set m. (p :: int) < q \<Longrightarrow> prio \<le> p \<Longrightarrow> map_of m prio = None"
  by (auto simp: map_of_eq_None_iff dest!: bspec)

lemma handlers_of_add:
  "handlers_ok m \<Longrightarrow> handlers_of (add_fork_handler prio h m) q = handlers_of m q @ (if q = prio then [h] else [])"
proof (induction prio h m rule: add_fork_handler.induct)
  case (2 prio h p hs m)
  then show ?case
    using map_of_above [of m p prio] by (auto simp: handlers_of_def handlers_ok_Cons split: option.splits)
qed (simp add: handlers_of_def)

lemma handlers_of_delete:
  "handlers_ok m \<Longrightarrow> handlers_of (delete_fork_handler prio h m) q = (if q = prio then remove1 h (handlers_of m q) else handlers_of m q)"
proof (induction prio h m rule: delete_fork_handler.induct)
  case (2 prio h p hs m)
  then show ?case
    using map_of_above [of m p prio] by (auto simp: handlers_of_def handlers_ok_Cons split: option.splits)
qed (simp add: handlers_of_def)

lemma handlers_of_Cons: "handlers_of ((p, hs) # m) q = (if q = p then hs else handlers_of m q)"
  by (simp add: handlers_of_def)

lemma map_handlers_of: "handlers_ok m \<Longrightarrow> map (handlers_of m) (map fst m) = map snd m"
proof (induction m)
  case (Cons x m)
  obtain p hs where x: "x = (p, hs)" by fastforce
  have "map (handlers_of (x # m)) (map fst m) = map (handlers_of m) (map fst m)"
    using Cons.prems unfolding x by (auto simp: handlers_ok_Cons handlers_of_Cons)
  then show ?case using Cons unfolding x by (simp add: handlers_ok_Cons handlers_of_Cons)
qed simp

section \<open>The collector thread and a forking thread\<close>

text \<open>Who may own a mutex: the collector thread, the thread that forks (only one can, because
  \<open>ForkAround\<close> keeps the mutex of the map of handlers), and any other thread.\<close>

datatype agent = GcThread | Forker | OtherThread

text \<open>Where the collector thread is: without a thread, before it locks the other thread's mutex, before it
  locks the interval's mutex, at the head of the inner loop, on the way through its resting place (with the
  other thread's mutex, before it locks its own mutex, with it, before it locks the two others again), behind
  the resting place, waiting for the end of the interval, notified, timed out, before the interval's mutex is
  unlocked, before the condition of the outer loop, before it locks the collector, and collecting.\<close>

datatype gc_pc = Off | WantOther | WantInterval | Check | Resting | WantOwn | HasOwn | WantOther2 | WantInterval2 | Rested
  | Waiting | Woken | TimedOut | LeaveLoop | Decide | WantGc | CollectingGc

text \<open>Where the forking thread is in \<open>pre_fork\<close> and, after the fork, in \<open>post_fork\<close> of the parent.\<close>

datatype fork_pc = NoFork | ForkWantInterval | ForkNotify | ForkWantOther | ForkWantInterval2 | ForkWantGc | Forking
  | ForkUnlockInterval | ForkUnlockOther | ForkUnlockOwn

record fork_state =
  is_started :: bool
  is_locked_gc_thread :: bool
  gc_thread_mutex :: "agent option"
  other_thread_mutex :: "agent option"
  interval_mutex :: "agent option"
  gc_mutex :: "agent option"
  gc_pc :: gc_pc
  fork_pc :: fork_pc

definition fork_init :: fork_state where
  "fork_init = \<lparr>is_started = False, is_locked_gc_thread = False, gc_thread_mutex = None, other_thread_mutex = None,
     interval_mutex = None, gc_mutex = None, gc_pc = Off, fork_pc = NoFork\<rparr>"

definition notify_gc_thread :: "fork_state \<Rightarrow> fork_state" where
  "notify_gc_thread s = (if gc_pc s = Waiting then s\<lparr>gc_pc := Woken\<rparr> else s)"

text \<open>The steps of the collector thread (\<open>start_gc_thread\<close>). Behind the resting place the flag is not tested
  again, and whether the interval is over depends on the clock. A wait may also end without a notification.\<close>

inductive gc_step :: "fork_state \<Rightarrow> fork_state \<Rightarrow> bool" where
  lock_other: "gc_pc s = WantOther \<Longrightarrow> other_thread_mutex s = None \<Longrightarrow>
    gc_step s (s\<lparr>other_thread_mutex := Some GcThread, gc_pc := WantInterval\<rparr>)"
| lock_interval: "gc_pc s = WantInterval \<Longrightarrow> interval_mutex s = None \<Longrightarrow>
    gc_step s (s\<lparr>interval_mutex := Some GcThread, gc_pc := Check\<rparr>)"
| check: "gc_pc s = Check \<Longrightarrow> is_locked_gc_thread s \<Longrightarrow> gc_step s (s\<lparr>interval_mutex := None, gc_pc := Resting\<rparr>)"
| check_stopped: "gc_pc s = Check \<Longrightarrow> \<not> is_locked_gc_thread s \<Longrightarrow> \<not> is_started s \<Longrightarrow>
    gc_step s (s\<lparr>interval_mutex := None, other_thread_mutex := None, gc_pc := Off\<rparr>)"
| check_wait: "gc_pc s = Check \<Longrightarrow> \<not> is_locked_gc_thread s \<Longrightarrow> is_started s \<Longrightarrow>
    gc_step s (s\<lparr>interval_mutex := None, gc_pc := Waiting\<rparr>)"
| unlock_other: "gc_pc s = Resting \<Longrightarrow> gc_step s (s\<lparr>other_thread_mutex := None, gc_pc := WantOwn\<rparr>)"
| lock_own: "gc_pc s = WantOwn \<Longrightarrow> gc_thread_mutex s = None \<Longrightarrow>
    gc_step s (s\<lparr>gc_thread_mutex := Some GcThread, gc_pc := HasOwn\<rparr>)"
| unlock_own: "gc_pc s = HasOwn \<Longrightarrow> gc_step s (s\<lparr>gc_thread_mutex := None, gc_pc := WantOther2\<rparr>)"
| lock_other2: "gc_pc s = WantOther2 \<Longrightarrow> other_thread_mutex s = None \<Longrightarrow>
    gc_step s (s\<lparr>other_thread_mutex := Some GcThread, gc_pc := WantInterval2\<rparr>)"
| lock_interval2: "gc_pc s = WantInterval2 \<Longrightarrow> interval_mutex s = None \<Longrightarrow>
    gc_step s (s\<lparr>interval_mutex := Some GcThread, gc_pc := Rested\<rparr>)"
| rested_over: "gc_pc s = Rested \<Longrightarrow> gc_step s (s\<lparr>gc_pc := LeaveLoop\<rparr>)"
| rested_stopped: "gc_pc s = Rested \<Longrightarrow> \<not> is_started s \<Longrightarrow>
    gc_step s (s\<lparr>interval_mutex := None, other_thread_mutex := None, gc_pc := Off\<rparr>)"
| rested_wait: "gc_pc s = Rested \<Longrightarrow> is_started s \<Longrightarrow> gc_step s (s\<lparr>interval_mutex := None, gc_pc := Waiting\<rparr>)"
| wake: "gc_pc s = Waiting \<Longrightarrow> gc_step s (s\<lparr>gc_pc := Woken\<rparr>)"
| timeout: "gc_pc s = Waiting \<Longrightarrow> gc_step s (s\<lparr>gc_pc := TimedOut\<rparr>)"
| woken: "gc_pc s = Woken \<Longrightarrow> interval_mutex s = None \<Longrightarrow>
    gc_step s (s\<lparr>interval_mutex := Some GcThread, gc_pc := Check\<rparr>)"
| timed_out: "gc_pc s = TimedOut \<Longrightarrow> interval_mutex s = None \<Longrightarrow>
    gc_step s (s\<lparr>interval_mutex := Some GcThread, gc_pc := LeaveLoop\<rparr>)"
| unlock_interval: "gc_pc s = LeaveLoop \<Longrightarrow> gc_step s (s\<lparr>interval_mutex := None, gc_pc := Decide\<rparr>)"
| decide: "gc_pc s = Decide \<Longrightarrow> gc_step s (s\<lparr>gc_pc := (if is_locked_gc_thread s then WantInterval else WantGc)\<rparr>)"
| lock_gc: "gc_pc s = WantGc \<Longrightarrow> gc_mutex s = None \<Longrightarrow> gc_step s (s\<lparr>gc_mutex := Some GcThread, gc_pc := CollectingGc\<rparr>)"
| unlock_gc: "gc_pc s = CollectingGc \<Longrightarrow> gc_step s (s\<lparr>gc_mutex := None, gc_pc := WantInterval\<rparr>)"

text \<open>The steps of the forking thread (\<open>pre_fork\<close>, \<open>post_fork\<close>). The first one may be taken at any time.\<close>

inductive fork_begin :: "fork_state \<Rightarrow> fork_state \<Rightarrow> bool" where
  lock_own: "fork_pc s = NoFork \<Longrightarrow> gc_thread_mutex s = None \<Longrightarrow>
    fork_begin s (s\<lparr>gc_thread_mutex := Some Forker, fork_pc := ForkWantInterval\<rparr>)"

inductive fork_step :: "fork_state \<Rightarrow> fork_state \<Rightarrow> bool" where
  lock_interval: "fork_pc s = ForkWantInterval \<Longrightarrow> interval_mutex s = None \<Longrightarrow>
    fork_step s (s\<lparr>interval_mutex := Some Forker, fork_pc := ForkNotify\<rparr>)"
| notify: "fork_pc s = ForkNotify \<Longrightarrow>
    fork_step s ((notify_gc_thread s)\<lparr>is_locked_gc_thread := True, interval_mutex := None, fork_pc := ForkWantOther\<rparr>)"
| lock_other: "fork_pc s = ForkWantOther \<Longrightarrow> other_thread_mutex s = None \<Longrightarrow>
    fork_step s (s\<lparr>other_thread_mutex := Some Forker, fork_pc := ForkWantInterval2\<rparr>)"
| lock_interval2: "fork_pc s = ForkWantInterval2 \<Longrightarrow> interval_mutex s = None \<Longrightarrow>
    fork_step s (s\<lparr>interval_mutex := Some Forker, fork_pc := ForkWantGc\<rparr>)"
| lock_gc: "fork_pc s = ForkWantGc \<Longrightarrow> gc_mutex s = None \<Longrightarrow>
    fork_step s (s\<lparr>gc_mutex := Some Forker, fork_pc := Forking\<rparr>)"
| unlock_gc: "fork_pc s = Forking \<Longrightarrow>
    fork_step s (s\<lparr>is_locked_gc_thread := False, gc_mutex := None, fork_pc := ForkUnlockInterval\<rparr>)"
| unlock_interval: "fork_pc s = ForkUnlockInterval \<Longrightarrow> fork_step s (s\<lparr>interval_mutex := None, fork_pc := ForkUnlockOther\<rparr>)"
| unlock_other: "fork_pc s = ForkUnlockOther \<Longrightarrow> fork_step s (s\<lparr>other_thread_mutex := None, fork_pc := ForkUnlockOwn\<rparr>)"
| unlock_own: "fork_pc s = ForkUnlockOwn \<Longrightarrow> fork_step s (s\<lparr>gc_thread_mutex := None, fork_pc := NoFork\<rparr>)"

text \<open>What other threads do: start the collector thread, stop it, and lock and unlock the collector. A collector
  thread that was stopped and has not ended yet is not started again: the new thread would be assigned to a thread
  that can be joined, which ends the program.\<close>

inductive other_step :: "fork_state \<Rightarrow> fork_state \<Rightarrow> bool" where
  start: "interval_mutex s = None \<Longrightarrow> \<not> is_started s \<Longrightarrow> gc_pc s = Off \<Longrightarrow>
    other_step s (s\<lparr>is_started := True, gc_pc := WantOther\<rparr>)"
| stop: "interval_mutex s = None \<Longrightarrow> other_step s ((notify_gc_thread s)\<lparr>is_started := False\<rparr>)"
| lock: "gc_mutex s = None \<Longrightarrow> other_step s (s\<lparr>gc_mutex := Some OtherThread\<rparr>)"
| unlock: "gc_mutex s = Some OtherThread \<Longrightarrow> other_step s (s\<lparr>gc_mutex := None\<rparr>)"

inductive fork_reachable :: "fork_state \<Rightarrow> bool" where
  init: "fork_reachable fork_init"
| gc: "fork_reachable s \<Longrightarrow> gc_step s t \<Longrightarrow> fork_reachable t"
| forks: "fork_reachable s \<Longrightarrow> fork_begin s t \<Longrightarrow> fork_reachable t"
| fork: "fork_reachable s \<Longrightarrow> fork_step s t \<Longrightarrow> fork_reachable t"
| other: "fork_reachable s \<Longrightarrow> other_step s t \<Longrightarrow> fork_reachable t"

inductive_cases gc_stepE: "gc_step s t"
inductive_cases fork_stepE: "fork_step s t"

section \<open>Who owns what\<close>

definition owns_other :: "gc_pc \<Rightarrow> bool" where
  "owns_other p \<longleftrightarrow> p \<notin> {Off, WantOther, WantOwn, HasOwn, WantOther2}"

definition owns_interval :: "gc_pc \<Rightarrow> bool" where
  "owns_interval p \<longleftrightarrow> p \<in> {Check, Rested, LeaveLoop}"

definition forker_owns_other :: "fork_pc \<Rightarrow> bool" where
  "forker_owns_other q \<longleftrightarrow> q \<in> {ForkWantInterval2, ForkWantGc, Forking, ForkUnlockInterval, ForkUnlockOther}"

definition forker_owns_interval :: "fork_pc \<Rightarrow> bool" where
  "forker_owns_interval q \<longleftrightarrow> q \<in> {ForkNotify, ForkWantGc, Forking, ForkUnlockInterval}"

definition forker_sets_flag :: "fork_pc \<Rightarrow> bool" where
  "forker_sets_flag q \<longleftrightarrow> q \<in> {ForkWantOther, ForkWantInterval2, ForkWantGc, Forking}"

definition owner_ok :: "agent option \<Rightarrow> bool \<Rightarrow> bool \<Rightarrow> bool \<Rightarrow> bool" where
  "owner_ok m gc forker others \<longleftrightarrow> (m = Some GcThread \<longleftrightarrow> gc) \<and> (m = Some Forker \<longleftrightarrow> forker) \<and> (m = Some OtherThread \<longrightarrow> others)"

definition fork_inv :: "fork_state \<Rightarrow> bool" where
  "fork_inv s \<longleftrightarrow> owner_ok (gc_thread_mutex s) (gc_pc s = HasOwn) (fork_pc s \<noteq> NoFork) False \<and>
     owner_ok (other_thread_mutex s) (owns_other (gc_pc s)) (forker_owns_other (fork_pc s)) False \<and>
     owner_ok (interval_mutex s) (owns_interval (gc_pc s)) (forker_owns_interval (fork_pc s)) False \<and>
     owner_ok (gc_mutex s) (gc_pc s = CollectingGc) (fork_pc s = Forking) True \<and>
     (is_locked_gc_thread s \<longleftrightarrow> forker_sets_flag (fork_pc s))"

lemma owner_ok_simps:
  "owner_ok None gc forker others \<longleftrightarrow> \<not> gc \<and> \<not> forker" "owner_ok (Some GcThread) gc forker others \<longleftrightarrow> gc \<and> \<not> forker"
  "owner_ok (Some Forker) gc forker others \<longleftrightarrow> \<not> gc \<and> forker" "owner_ok (Some OtherThread) gc forker others \<longleftrightarrow> \<not> gc \<and> \<not> forker \<and> others"
  by (auto simp: owner_ok_def)

lemma owner_ok_eq:
  "owner_ok m True forker others \<longleftrightarrow> m = Some GcThread \<and> \<not> forker" "owner_ok m gc True others \<longleftrightarrow> m = Some Forker \<and> \<not> gc"
  "owner_ok m False False False \<longleftrightarrow> m = None" "owner_ok m False False True \<longleftrightarrow> m = None \<or> m = Some OtherThread"
  by (cases m; cases "the m"; auto simp: owner_ok_def)+

lemmas gc_owns = owns_other_def owns_interval_def
lemmas forker_owns = forker_owns_other_def forker_owns_interval_def forker_sets_flag_def
lemmas fork_simps = fork_inv_def owner_ok_simps owner_ok_eq notify_gc_thread_def

lemma fork_inv_init: "fork_inv fork_init"
  by (simp add: fork_simps gc_owns forker_owns fork_init_def)

lemma fork_inv_gc: "gc_step s t \<Longrightarrow> fork_inv s \<Longrightarrow> fork_inv t"
  by (induction rule: gc_step.induct) (simp_all add: fork_simps gc_owns, auto simp: forker_owns owner_ok_eq)

lemma fork_inv_begin: "fork_begin s t \<Longrightarrow> fork_inv s \<Longrightarrow> fork_inv t"
  by (induction rule: fork_begin.induct) (simp add: fork_simps forker_owns)

lemma notify_simps:
  "gc_thread_mutex (notify_gc_thread s) = gc_thread_mutex s" "other_thread_mutex (notify_gc_thread s) = other_thread_mutex s"
  "interval_mutex (notify_gc_thread s) = interval_mutex s" "gc_mutex (notify_gc_thread s) = gc_mutex s"
  "owns_other (gc_pc (notify_gc_thread s)) = owns_other (gc_pc s)" "owns_interval (gc_pc (notify_gc_thread s)) = owns_interval (gc_pc s)"
  "gc_pc (notify_gc_thread s) = HasOwn \<longleftrightarrow> gc_pc s = HasOwn" "gc_pc (notify_gc_thread s) = CollectingGc \<longleftrightarrow> gc_pc s = CollectingGc"
  "fork_pc (notify_gc_thread s) = fork_pc s" "is_locked_gc_thread (notify_gc_thread s) = is_locked_gc_thread s"
  by (simp_all add: notify_gc_thread_def gc_owns)

lemma fork_inv_fork: "fork_step s t \<Longrightarrow> fork_inv s \<Longrightarrow> fork_inv t"
  by (induction rule: fork_step.induct) (simp_all add: fork_inv_def owner_ok_simps owner_ok_eq forker_owns notify_simps)

lemma fork_inv_other: "other_step s t \<Longrightarrow> fork_inv s \<Longrightarrow> fork_inv t"
  by (induction rule: other_step.induct) (simp_all add: fork_inv_def owner_ok_simps notify_simps, simp add: gc_owns)

lemma fork_inv_reachable: "fork_reachable s \<Longrightarrow> fork_inv s"
  by (induction rule: fork_reachable.induct)
    (auto intro: fork_inv_init fork_inv_gc fork_inv_begin fork_inv_fork fork_inv_other)

section \<open>Progress\<close>

text \<open>What is left to do, for the collector thread to rest and for the forking thread to fork, when the flag is
  set.\<close>

fun gc_left :: "gc_pc \<Rightarrow> nat" where
  "gc_left HasOwn = 15" | "gc_left WantOther2 = 14" | "gc_left WantInterval2 = 13" | "gc_left Rested = 12"
| "gc_left Waiting = 11" | "gc_left TimedOut = 10" | "gc_left LeaveLoop = 9" | "gc_left Decide = 8"
| "gc_left WantGc = 7" | "gc_left CollectingGc = 6" | "gc_left Woken = 5" | "gc_left WantOther = 5"
| "gc_left WantInterval = 4" | "gc_left Check = 3" | "gc_left Resting = 2" | "gc_left WantOwn = 1" | "gc_left Off = 0"

fun fork_left :: "fork_pc \<Rightarrow> nat" where
  "fork_left ForkWantOther = 3" | "fork_left ForkWantInterval2 = 2" | "fork_left ForkWantGc = 1" | "fork_left _ = 0"

definition fork_work :: "fork_state \<Rightarrow> nat" where
  "fork_work s = gc_left (gc_pc s) + fork_left (fork_pc s)"

lemma gc_step_progress:
  "gc_step s t \<Longrightarrow> is_locked_gc_thread s \<Longrightarrow> fork_inv s \<Longrightarrow> fork_work t < fork_work s \<and> is_locked_gc_thread t"
  by (induction rule: gc_step.induct) (simp_all add: fork_work_def fork_simps, auto simp: forker_owns)

lemma fork_step_progress:
  "fork_step s t \<Longrightarrow> is_locked_gc_thread s \<Longrightarrow> fork_pc s \<noteq> Forking \<Longrightarrow> fork_inv s \<Longrightarrow> fork_work t < fork_work s"
  by (induction rule: fork_step.induct) (simp_all add: fork_work_def fork_simps forker_owns)

lemma gc_thread_moves:
  assumes "fork_inv s" "fork_pc s = ForkWantOther" "other_thread_mutex s \<noteq> None"
  shows "(\<exists>t. gc_step s t) \<or> gc_mutex s = Some OtherThread"
proof -
  have "owns_other (gc_pc s)" using assms by (cases "owns_other (gc_pc s)") (simp_all add: fork_simps forker_owns)
  then show ?thesis using assms(1,2)
    by (cases "gc_pc s") (auto simp: fork_simps gc_owns forker_owns intro: gc_step.intros)
qed

lemma fork_moves:
  assumes "fork_inv s" "is_locked_gc_thread s" "fork_pc s \<noteq> Forking"
  shows "(\<exists>t. gc_step s t) \<or> (\<exists>t. fork_step s t) \<or> gc_mutex s = Some OtherThread"
proof -
  have "fork_pc s = ForkWantOther \<or> fork_pc s = ForkWantInterval2 \<or> fork_pc s = ForkWantGc"
    using assms by (auto simp: fork_simps forker_owns)
  moreover have "interval_mutex s = None" if "fork_pc s = ForkWantInterval2"
    using assms(1) that by (cases "gc_pc s") (simp_all add: fork_simps gc_owns forker_owns)
  moreover have "gc_mutex s = None \<or> gc_mutex s = Some OtherThread" if "fork_pc s = ForkWantGc"
    using assms(1) that by (cases "gc_pc s") (simp_all add: fork_simps gc_owns forker_owns)
  ultimately show ?thesis using gc_thread_moves [OF assms(1)] fork_step.lock_other fork_step.lock_interval2 fork_step.lock_gc by blast
qed

text \<open>A run: the collector thread waits, is made to rest, and the process is forked; then, while the collector
  thread comes back from its resting place, another fork begins.\<close>

definition fork_sample ::
  "bool \<Rightarrow> bool \<Rightarrow> agent option \<Rightarrow> agent option \<Rightarrow> agent option \<Rightarrow> agent option \<Rightarrow> gc_pc \<Rightarrow> fork_pc \<Rightarrow> fork_state" where
  "fork_sample b l own oth ival gc p q = \<lparr>is_started = b, is_locked_gc_thread = l, gc_thread_mutex = own, other_thread_mutex = oth,
     interval_mutex = ival, gc_mutex = gc, gc_pc = p, fork_pc = q\<rparr>"

lemma fork_reachable_by:
  "fork_reachable s \<Longrightarrow> gc_step s t \<Longrightarrow> t = u \<Longrightarrow> fork_reachable u"
  "fork_reachable s \<Longrightarrow> fork_begin s t \<Longrightarrow> t = u \<Longrightarrow> fork_reachable u"
  "fork_reachable s \<Longrightarrow> fork_step s t \<Longrightarrow> t = u \<Longrightarrow> fork_reachable u"
  "fork_reachable s \<Longrightarrow> other_step s t \<Longrightarrow> t = u \<Longrightarrow> fork_reachable u"
  using fork_reachable.intros by blast+

lemma fork_sample_resting:
  "fork_reachable (fork_sample True True (Some Forker) (Some GcThread) None None Woken ForkWantOther)"
    "fork_reachable (fork_sample True True (Some Forker) None None None WantOwn ForkWantOther)"
proof -
  have "fork_reachable (fork_sample True False None None None None WantOther NoFork)"
    by (rule fork_reachable_by(4) [OF fork_reachable.init other_step.start]) (simp add: fork_sample_def fork_init_def)+
  then have "fork_reachable (fork_sample True False None (Some GcThread) None None WantInterval NoFork)"
    by (rule fork_reachable_by(1) [OF _ gc_step.lock_other]) (simp add: fork_sample_def notify_gc_thread_def)+
  then have "fork_reachable (fork_sample True False None (Some GcThread) (Some GcThread) None Check NoFork)"
    by (rule fork_reachable_by(1) [OF _ gc_step.lock_interval]) (simp add: fork_sample_def notify_gc_thread_def)+
  then have "fork_reachable (fork_sample True False None (Some GcThread) None None Waiting NoFork)"
    by (rule fork_reachable_by(1) [OF _ gc_step.check_wait]) (simp add: fork_sample_def notify_gc_thread_def)+
  then have "fork_reachable (fork_sample True False (Some Forker) (Some GcThread) None None Waiting ForkWantInterval)"
    by (rule fork_reachable_by(2) [OF _ fork_begin.lock_own]) (simp add: fork_sample_def notify_gc_thread_def)+
  then have "fork_reachable (fork_sample True False (Some Forker) (Some GcThread) (Some Forker) None Waiting ForkNotify)"
    by (rule fork_reachable_by(3) [OF _ fork_step.lock_interval]) (simp add: fork_sample_def notify_gc_thread_def)+
  then show "fork_reachable (fork_sample True True (Some Forker) (Some GcThread) None None Woken ForkWantOther)"
    by (rule fork_reachable_by(3) [OF _ fork_step.notify]) (simp add: fork_sample_def notify_gc_thread_def)+
  then have "fork_reachable (fork_sample True True (Some Forker) (Some GcThread) (Some GcThread) None Check ForkWantOther)"
    by (rule fork_reachable_by(1) [OF _ gc_step.woken]) (simp add: fork_sample_def notify_gc_thread_def)+
  then have "fork_reachable (fork_sample True True (Some Forker) (Some GcThread) None None Resting ForkWantOther)"
    by (rule fork_reachable_by(1) [OF _ gc_step.check]) (simp add: fork_sample_def notify_gc_thread_def)+
  then show "fork_reachable (fork_sample True True (Some Forker) None None None WantOwn ForkWantOther)"
    by (rule fork_reachable_by(1) [OF _ gc_step.unlock_other]) (simp add: fork_sample_def notify_gc_thread_def)+
qed

lemma fork_sample_forking:
  "fork_reachable (fork_sample True True (Some Forker) (Some Forker) (Some Forker) (Some Forker) WantOwn Forking)"
proof -
  note fork_sample_resting(2)
  then have "fork_reachable (fork_sample True True (Some Forker) (Some Forker) None None WantOwn ForkWantInterval2)"
    by (rule fork_reachable_by(3) [OF _ fork_step.lock_other]) (simp add: fork_sample_def notify_gc_thread_def)+
  then have "fork_reachable (fork_sample True True (Some Forker) (Some Forker) (Some Forker) None WantOwn ForkWantGc)"
    by (rule fork_reachable_by(3) [OF _ fork_step.lock_interval2]) (simp add: fork_sample_def notify_gc_thread_def)+
  then show "fork_reachable (fork_sample True True (Some Forker) (Some Forker) (Some Forker) (Some Forker) WantOwn Forking)"
    by (rule fork_reachable_by(3) [OF _ fork_step.lock_gc]) (simp add: fork_sample_def notify_gc_thread_def)+
qed

lemma fork_sample_again:
  "fork_reachable (fork_sample True True (Some Forker) None None None WantOther2 ForkWantOther)"
    "fork_reachable (fork_sample True True (Some Forker) (Some GcThread) None None Waiting ForkWantOther)"
proof -
  note fork_sample_forking
  then have "fork_reachable (fork_sample True False (Some Forker) (Some Forker) (Some Forker) None WantOwn ForkUnlockInterval)"
    by (rule fork_reachable_by(3) [OF _ fork_step.unlock_gc]) (simp add: fork_sample_def notify_gc_thread_def)+
  then have "fork_reachable (fork_sample True False (Some Forker) (Some Forker) None None WantOwn ForkUnlockOther)"
    by (rule fork_reachable_by(3) [OF _ fork_step.unlock_interval]) (simp add: fork_sample_def notify_gc_thread_def)+
  then have "fork_reachable (fork_sample True False (Some Forker) None None None WantOwn ForkUnlockOwn)"
    by (rule fork_reachable_by(3) [OF _ fork_step.unlock_other]) (simp add: fork_sample_def notify_gc_thread_def)+
  then have "fork_reachable (fork_sample True False None None None None WantOwn NoFork)"
    by (rule fork_reachable_by(3) [OF _ fork_step.unlock_own]) (simp add: fork_sample_def notify_gc_thread_def)+
  then have "fork_reachable (fork_sample True False (Some GcThread) None None None HasOwn NoFork)"
    by (rule fork_reachable_by(1) [OF _ gc_step.lock_own]) (simp add: fork_sample_def notify_gc_thread_def)+
  then have "fork_reachable (fork_sample True False None None None None WantOther2 NoFork)"
    by (rule fork_reachable_by(1) [OF _ gc_step.unlock_own]) (simp add: fork_sample_def notify_gc_thread_def)+
  then have "fork_reachable (fork_sample True False (Some Forker) None None None WantOther2 ForkWantInterval)"
    by (rule fork_reachable_by(2) [OF _ fork_begin.lock_own]) (simp add: fork_sample_def notify_gc_thread_def)+
  then have "fork_reachable (fork_sample True False (Some Forker) None (Some Forker) None WantOther2 ForkNotify)"
    by (rule fork_reachable_by(3) [OF _ fork_step.lock_interval]) (simp add: fork_sample_def notify_gc_thread_def)+
  then show "fork_reachable (fork_sample True True (Some Forker) None None None WantOther2 ForkWantOther)"
    by (rule fork_reachable_by(3) [OF _ fork_step.notify]) (simp add: fork_sample_def notify_gc_thread_def)+
  then have "fork_reachable (fork_sample True True (Some Forker) (Some GcThread) None None WantInterval2 ForkWantOther)"
    by (rule fork_reachable_by(1) [OF _ gc_step.lock_other2]) (simp add: fork_sample_def notify_gc_thread_def)+
  then have "fork_reachable (fork_sample True True (Some Forker) (Some GcThread) (Some GcThread) None Rested ForkWantOther)"
    by (rule fork_reachable_by(1) [OF _ gc_step.lock_interval2]) (simp add: fork_sample_def notify_gc_thread_def)+
  then show "fork_reachable (fork_sample True True (Some Forker) (Some GcThread) None None Waiting ForkWantOther)"
    by (rule fork_reachable_by(1) [OF _ gc_step.rested_wait]) (simp add: fork_sample_def notify_gc_thread_def)+
qed


section \<open>The child\<close>

text \<open>What the handler of the collector does to its data in the child (\<open>post_fork\<close>). A context is the null
  pointer \<open>None\<close> or one of the contexts, of which the handler changes the pointer to the collector, the thread and
  the stack.\<close>

record context_data =
  has_gc :: bool
  has_system_thread :: bool
  has_stack :: bool
  is_own :: bool

record 'c collector_data =
  thread_contexts :: "'c option set"
  context_of :: "'c \<Rightarrow> context_data"
  forking_thread_context :: "'c option"
  was_started :: bool
  must_stop_from_vm_thread :: bool

text \<open>\<open>pre_fork\<close> finds the context of the thread that forks, if it has one. \<open>cs\<close> is the order in
  which the set of contexts is traversed.\<close>

definition find_forking_context :: "'c list \<Rightarrow> 'c collector_data \<Rightarrow> 'c collector_data" where
  "find_forking_context cs d = d\<lparr>forking_thread_context := fold (\<lambda>c found. if is_own (context_of d c) then Some c else found) cs None\<rparr>"

definition leave_context :: "context_data \<Rightarrow> context_data" where
  "leave_context x = x\<lparr>has_gc := False, has_system_thread := False, has_stack := False\<rparr>"

text \<open>The result says whether the collector thread is started again.\<close>

definition post_fork_child :: "'c collector_data \<Rightarrow> bool \<times> 'c collector_data" where
  "post_fork_child d = (was_started d \<and> forking_thread_context d \<noteq> None,
     d\<lparr>context_of := (\<lambda>c. if Some c \<in> thread_contexts d \<and> Some c \<noteq> forking_thread_context d then leave_context (context_of d c) else context_of d c),
       thread_contexts := {forking_thread_context d}, forking_thread_context := None, was_started := False,
       must_stop_from_vm_thread := True\<rparr>)"

lemma fold_last_own:
  "fold (\<lambda>c found. if P c then Some c else found) cs x = (if filter P cs = [] then x else Some (last (filter P cs)))"
  by (induction cs arbitrary: x) auto

section \<open>Properties\<close>

text \<open>C8: When the process is forked, no other thread is inside the collector: the forking thread owns all four
  mutexes, and the collector thread owns none and does not collect, in whatever order the two and other threads were
  interleaved, over any number of forks, starts and stops.\<close>

theorem forks_while_gc_rests:
  assumes "fork_reachable s" and "fork_pc s = Forking"
  shows "gc_thread_mutex s = Some Forker \<and> other_thread_mutex s = Some Forker \<and> interval_mutex s = Some Forker \<and>
    gc_mutex s = Some Forker \<and> gc_pc s \<in> {Off, WantOther, WantOwn, WantOther2}"
  using fork_inv_reachable [OF assms(1)] assms(2) by (cases "gc_pc s") (simp_all add: fork_simps gc_owns forker_owns)

lemma forks_while_gc_rests_witness:
  "gc_mutex (fork_sample True True (Some Forker) (Some Forker) (Some Forker) (Some Forker) WantOwn Forking) = Some Forker"
  using forks_while_gc_rests [OF fork_sample_forking] by (simp add: fork_sample_def)

text \<open>C9: A fork gets through: from the moment its flag is set, the collector thread or the forking thread can make
  a step, unless another thread is inside the collector and has to leave it first; and every step of theirs leaves
  less to do, so there is no deadlock between the four mutexes and the condition variable.\<close>

theorem fork_gets_through:
  assumes "fork_reachable s" and "is_locked_gc_thread s" and "fork_pc s \<noteq> Forking"
  shows "((\<exists>t. gc_step s t \<or> fork_step s t) \<or> gc_mutex s = Some OtherThread) \<and>
    (\<forall>t. gc_step s t \<or> fork_step s t \<longrightarrow> fork_work t < fork_work s)"
proof -
  have inv: "fork_inv s" by (rule fork_inv_reachable [OF assms(1)])
  have "(\<exists>t. gc_step s t \<or> fork_step s t) \<or> gc_mutex s = Some OtherThread"
    using fork_moves [OF inv assms(2,3)] by blast
  then show ?thesis using inv gc_step_progress fork_step_progress assms(2,3) by blast
qed

lemma fork_gets_through_witness:
  "\<exists>t. gc_step (fork_sample True True (Some Forker) (Some GcThread) None None Woken ForkWantOther) t \<or>
     fork_step (fork_sample True True (Some Forker) (Some GcThread) None None Woken ForkWantOther) t"
  using fork_gets_through [OF fork_sample_resting(1)] by (simp add: fork_sample_def)

text \<open>C39: A notification can be lost: the collector thread, coming back from its resting place, does not test the
  flag before it waits, so it may wait for the end of its interval while another fork has set the flag, has sent its
  notification already, and waits for the mutex that the collector thread holds.\<close>

theorem second_fork_waits_for_interval:
  "\<exists>s. fork_reachable s \<and> is_locked_gc_thread s \<and> fork_pc s = ForkWantOther \<and> gc_pc s = Waiting \<and>
     other_thread_mutex s = Some GcThread \<and> (\<nexists>t. fork_step s t)"
proof -
  have "\<nexists>t. fork_step (fork_sample True True (Some Forker) (Some GcThread) None None Waiting ForkWantOther) t"
    by (auto elim!: fork_stepE simp: fork_sample_def)
  then show ?thesis using fork_sample_again(2) by (force simp: fork_sample_def)
qed

text \<open>C27: The map of handlers implements a list of handlers for each priority: registering appends, and taking
  back removes the first registration; before a fork the lists are called from the highest priority to the lowest,
  and after it from the lowest to the highest. What is registered with a higher priority, and may use what has a lower
  one, is locked first and unlocked last.\<close>

theorem fork_handlers_by_priority:
  assumes "handlers_ok m"
  shows "handlers_ok (add_fork_handler prio h m) \<and> handlers_ok (delete_fork_handler prio h m) \<and>
    handlers_of (add_fork_handler prio h m) = (handlers_of m)(prio := handlers_of m prio @ [h]) \<and>
    handlers_of (delete_fork_handler prio h m) = (handlers_of m)(prio := remove1 h (handlers_of m prio)) \<and>
    post_fork_order m = concat (map (handlers_of m) (sorted_list_of_set (fst ` set m))) \<and>
    pre_fork_order m = concat (map (handlers_of m) (rev (sorted_list_of_set (fst ` set m))))"
proof -
  have "sorted_list_of_set (fst ` set m) = map fst m"
    using assms sorted_list_of_set.idem_if_sorted_distinct [of "map fst m"] by (simp add: handlers_ok_def)
  moreover have "pre_fork_order m = concat (map (handlers_of m) (rev (map fst m)))" "post_fork_order m = concat (map (handlers_of m) (map fst m))"
    by (simp_all only: pre_fork_order_def post_fork_order_def rev_map [symmetric] map_handlers_of [OF assms])
  ultimately show ?thesis
    using assms by (simp add: fun_eq_iff handlers_ok_add handlers_ok_delete handlers_of_add handlers_of_delete)
qed

lemma fork_handlers_by_priority_witness:
  "pre_fork_order (add_fork_handler 1 ''c'' [(1, [''a'']), (4, [''b''])]) = [''b'', ''a'', ''c'']"
proof -
  have m: "handlers_ok [(1 :: int, [''a'', ''c'']), (4, [''b''])]" by (simp add: handlers_ok_def)
  have "handlers_ok [(1 :: int, [''a'']), (4, [''b''])]" by (simp add: handlers_ok_def)
  from fork_handlers_by_priority [OF this, of 1 "''c''"] fork_handlers_by_priority [OF m, of 1 "''c''"] show ?thesis
    by (simp add: handlers_of_def)
qed

text \<open>C38: In the child only the context of the forking thread is left, and the collector thread is started again
  when it ran; but a thread without a context leaves the null pointer in the set of contexts, which the collector
  dereferences.\<close>

theorem child_contexts:
  assumes "thread_contexts d = Some ` set cs"
  shows "let (restarted, e) = post_fork_child (find_forking_context cs d) in
    (if \<exists>c\<in>set cs. is_own (context_of d c)
     then (\<exists>c\<in>set cs. is_own (context_of d c) \<and> thread_contexts e = {Some c} \<and> context_of e c = context_of d c \<and>
             (\<forall>x\<in>set cs - {c}. context_of e x = leave_context (context_of d x))) \<and> (restarted \<longleftrightarrow> was_started d)
     else thread_contexts e = {None} \<and> \<not> restarted)"
proof (cases "filter (\<lambda>c. is_own (context_of d c)) cs = []")
  case True
  then show ?thesis by (auto simp: post_fork_child_def find_forking_context_def fold_last_own filter_empty_conv)
next
  case False
  let ?c = "last (filter (\<lambda>c. is_own (context_of d c)) cs)"
  have "?c \<in> set (filter (\<lambda>c. is_own (context_of d c)) cs)" using False by (rule last_in_set)
  with False show ?thesis using assms
    by (auto simp: post_fork_child_def find_forking_context_def fold_last_own intro!: bexI [of _ ?c])
qed

lemma child_contexts_witness:
  "thread_contexts (snd (post_fork_child (find_forking_context [1, 2] \<lparr>thread_contexts = {Some 1, Some (2 :: nat)},
     context_of = (\<lambda>_. \<lparr>has_gc = True, has_system_thread = True, has_stack = True, is_own = False\<rparr>), forking_thread_context = None,
     was_started = True, must_stop_from_vm_thread = False\<rparr>))) = {None}"
  (is "thread_contexts (snd (post_fork_child (find_forking_context _ ?d))) = _")
proof -
  have "thread_contexts ?d = Some ` set [1, 2]" by auto
  from child_contexts [OF this] show ?thesis by (simp add: Let_def split_beta)
qed

end
