(* ===== verification/Native_Interface.thy ===== *)
theory Native_Interface
  imports Interp_Force
begin

unbundle bit_operations_syntax

text \<open>
  The interface by which native functions check their arguments, convert them to C++ data and build their
  results (include/letin/native.hpp and vm/native.cpp). The templates of checkers, converters and setters
  are three data types, a term of which is what a native library writes, as \<open>ct(cint, coption(ciarray8))\<close>; the
  functions below are what the templates do with it.
\<close>

section \<open>Checkers\<close>

text \<open>A checker that is a function of the library gets the reference, or the object it points to.\<close>

datatype new_type = NEW_TYPE_NONE | NEW_TYPE_NEW_RARRAY | NEW_TYPE_NEW_TUPLE

datatype checker =
    CInt
  | CFloat
  | CRef
  | CObject int                                  \<comment> \<open>the type of the object\<close>
  | CForce
  | CIgnore
  | CTuple bool "checker list"                   \<comment> \<open>the flag: unique\<close>
  | COption bool checker
  | CEither bool checker checker
  | CRefFun "ref \<Rightarrow> int act" bool new_type
  | CObjectFun "ref \<Rightarrow> int act" bool new_type

definition is_int_value :: "vm_value \<Rightarrow> bool" where
  "is_int_value v \<longleftrightarrow> value_type v = VALUE_TYPE_INT"

definition is_float_value :: "vm_value \<Rightarrow> bool" where
  "is_float_value v \<longleftrightarrow> value_type v = VALUE_TYPE_FLOAT"

definition is_ref_value :: "vm_value \<Rightarrow> bool" where
  "is_ref_value v \<longleftrightarrow> value_type v = VALUE_TYPE_REF"

definition unique_flag :: "bool \<Rightarrow> int" where
  "unique_flag u = (if u then OBJECT_TYPE_UNIQUE else 0)"

definition cancel_if_unique :: "loc \<Rightarrow> unit act" where
  "cancel_if_unique l = bindM (get_loc l) (\<lambda>v. bindM (value_is_unique_m v) (\<lambda>u.
     whenM u (put_loc l (snd (cancel_ref v)))))"

text \<open>\<open>copy_to_new_rarray\<close> and \<open>copy_to_new_tuple\<close>: a shared object of the kind is copied, and the
  reference of the caller is registered. The result is false when there is no memory.\<close>

definition copy_to_new :: "env \<Rightarrow> int \<Rightarrow> loc \<Rightarrow> bool act" where
  "copy_to_new E k l = bindM (get_loc l) (\<lambda>v. bindM (deref_m (value_r v)) (\<lambda>ob.
     if object_type ob = k
     then bindM (gc_new_object E k (of_nat (object_length ob))) (\<lambda>q. case q of
         None \<Rightarrow> ret False
       | Some q \<Rightarrow>
           seqM (forM [0..<object_length ob] (\<lambda>i. bindM (elem_m E (value_r v) i) (\<lambda>x. set_elem_m E q i x)))
          (seqM (register_ref q)
          (seqM (put_loc l (VRef q)) (ret True))))
     else ret True))"

definition check_scalar :: "env \<Rightarrow> callbacks \<Rightarrow> (vm_value \<Rightarrow> bool) \<Rightarrow> loc \<Rightarrow> int act" where
  "check_scalar E cb p l = bindM (vm_force E cb l) (\<lambda>err.
     if err \<noteq> ERROR_SUCCESS then ret err
     else bindM (get_loc l) (\<lambda>v. ret (if p v then ERROR_SUCCESS else ERROR_INCORRECT_VALUE)))"

definition check_int_value :: "env \<Rightarrow> callbacks \<Rightarrow> loc \<Rightarrow> int act" where
  "check_int_value E cb = check_scalar E cb is_int_value"

definition check_float_value :: "env \<Rightarrow> callbacks \<Rightarrow> loc \<Rightarrow> int act" where
  "check_float_value E cb = check_scalar E cb is_float_value"

definition check_ref_value :: "env \<Rightarrow> callbacks \<Rightarrow> loc \<Rightarrow> int act" where
  "check_ref_value E cb l = bindM (check_scalar E cb is_ref_value l) (\<lambda>err.
     if err \<noteq> ERROR_SUCCESS then ret err else seqM (cancel_if_unique l) (ret ERROR_SUCCESS))"

definition check_object_value :: "env \<Rightarrow> callbacks \<Rightarrow> loc \<Rightarrow> int \<Rightarrow> bool \<Rightarrow> int act" where
  "check_object_value E cb l t is_new_tuple = bindM (check_scalar E cb is_ref_value l) (\<lambda>err.
     if err \<noteq> ERROR_SUCCESS then ret err
     else bindM (get_loc l) (\<lambda>v. bindM (deref_m (value_r v)) (\<lambda>ob.
       if object_type ob \<noteq> t then ret ERROR_INCORRECT_OBJECT
       else seqM (cancel_if_unique l)
         (if is_new_tuple
          then bindM (copy_to_new E OBJECT_TYPE_TUPLE l) (\<lambda>ok. ret (if ok then ERROR_SUCCESS else ERROR_OUT_OF_MEMORY))
          else ret ERROR_SUCCESS))))"

definition check_for_fun :: "env \<Rightarrow> callbacks \<Rightarrow> loc \<Rightarrow> (ref \<Rightarrow> int act) \<Rightarrow> bool \<Rightarrow> new_type \<Rightarrow> int act" where
  "check_for_fun E cb l f is_unique new = bindM (check_scalar E cb is_ref_value l) (\<lambda>err.
     if err \<noteq> ERROR_SUCCESS then ret err
     else bindM (get_loc l) (\<lambda>v. bindM (value_is_unique_m v) (\<lambda>u.
       if u \<noteq> is_unique then ret ERROR_INCORRECT_OBJECT
       else bindM (case new of
             NEW_TYPE_NEW_RARRAY \<Rightarrow> copy_to_new E OBJECT_TYPE_RARRAY l
           | NEW_TYPE_NEW_TUPLE \<Rightarrow> copy_to_new E OBJECT_TYPE_TUPLE l
           | NEW_TYPE_NONE \<Rightarrow> ret True) (\<lambda>ok.
         if \<not> ok then ret ERROR_OUT_OF_MEMORY
         else bindM (get_loc l) (\<lambda>v. bindM (f (value_r v)) (\<lambda>err.
           if err \<noteq> ERROR_SUCCESS then ret err else seqM (cancel_if_unique l) (ret ERROR_SUCCESS)))))))"

text \<open>The element is checked in a variable and written back, also after an error.\<close>

definition check_elem :: "env \<Rightarrow> ref \<Rightarrow> nat \<Rightarrow> (loc \<Rightarrow> int act) \<Rightarrow> int act" where
  "check_elem E q i c = bindM (elem_m E q i) (\<lambda>x.
     with_registered (seqM (register_ref (lazy_ref x))
       (with_local x (\<lambda>l. bindM (c l) (\<lambda>err. bindM (get_loc l) (\<lambda>y. seqM (set_elem_m E q i y) (ret err)))))))"

text \<open>What an option and an either look like: the number of the checker of the second element, if there
  is one; \<open>None\<close> is \<open>ERROR_INCORRECT_OBJECT\<close>.\<close>

definition option_case :: "env \<Rightarrow> ref \<Rightarrow> nat option option act" where
  "option_case E q = bindM (deref_m q) (\<lambda>ob.
     if object_length ob = 1 then bindM (elem_m E q 0) (\<lambda>x. ret (if x = VInt 0 then Some None else None))
     else if object_length ob = 2 then bindM (elem_m E q 0) (\<lambda>x. ret (if is_int_value x then Some (Some 0) else None))
     else ret None)"

definition either_case :: "env \<Rightarrow> ref \<Rightarrow> nat option act" where
  "either_case E q = bindM (deref_m q) (\<lambda>ob.
     if object_length ob = 2
     then bindM (elem_m E q 0) (\<lambda>x. ret (if x = VInt 0 then Some 0 else if is_int_value x then Some 1 else None))
     else ret None)"

fun check_value :: "env \<Rightarrow> callbacks \<Rightarrow> checker \<Rightarrow> loc \<Rightarrow> int act"
  and check_elems_from :: "env \<Rightarrow> callbacks \<Rightarrow> checker list \<Rightarrow> loc \<Rightarrow> nat \<Rightarrow> int act" where
  "check_value E cb CInt = check_int_value E cb"
| "check_value E cb CFloat = check_float_value E cb"
| "check_value E cb CRef = check_ref_value E cb"
| "check_value E cb (CObject t) = (\<lambda>l. check_object_value E cb l t False)"
| "check_value E cb CForce = vm_force E cb"
| "check_value E cb CIgnore = (\<lambda>l. ret ERROR_SUCCESS)"
| "check_value E cb (CTuple u cs) = (\<lambda>l.
     bindM (check_object_value E cb l (OBJECT_TYPE_TUPLE OR unique_flag u) True) (\<lambda>err.
     if err \<noteq> ERROR_SUCCESS then ret err
     else bindM (get_loc l) (\<lambda>v. bindM (deref_m (value_r v)) (\<lambda>ob.
       if object_length ob \<noteq> length cs then ret ERROR_INCORRECT_OBJECT
       else check_elems_from E cb cs l 0))))"
| "check_value E cb (COption u c) = (\<lambda>l.
     bindM (check_object_value E cb l (OBJECT_TYPE_TUPLE OR unique_flag u) True) (\<lambda>err.
     if err \<noteq> ERROR_SUCCESS then ret err
     else bindM (get_loc l) (\<lambda>v. bindM (option_case E (value_r v)) (\<lambda>k. case k of
         None \<Rightarrow> ret ERROR_INCORRECT_OBJECT
       | Some None \<Rightarrow> ret ERROR_SUCCESS
       | Some (Some _) \<Rightarrow> check_elem E (value_r v) 1 (check_value E cb c)))))"
| "check_value E cb (CEither u c d) = (\<lambda>l.
     bindM (check_object_value E cb l (OBJECT_TYPE_TUPLE OR unique_flag u) True) (\<lambda>err.
     if err \<noteq> ERROR_SUCCESS then ret err
     else bindM (get_loc l) (\<lambda>v. bindM (either_case E (value_r v)) (\<lambda>k. case k of
         None \<Rightarrow> ret ERROR_INCORRECT_OBJECT
       | Some i \<Rightarrow> check_elem E (value_r v) 1 (if i = 0 then check_value E cb c else check_value E cb d)))))"
| "check_value E cb (CRefFun f u new) = (\<lambda>l. check_for_fun E cb l f u new)"
| "check_value E cb (CObjectFun f u new) = (\<lambda>l. check_for_fun E cb l f u new)"
| "check_elems_from E cb [] = (\<lambda>l i. ret ERROR_SUCCESS)"
| "check_elems_from E cb (c # cs) = (\<lambda>l i.
     bindM (get_loc l) (\<lambda>v. bindM (check_elem E (value_r v) i (check_value E cb c)) (\<lambda>err.
     if err \<noteq> ERROR_SUCCESS then ret err else check_elems_from E cb cs l (Suc i))))"

text \<open>The arguments are on the stack; the references that a checker registers last until its argument is
  checked.\<close>

fun check_args_from :: "env \<Rightarrow> callbacks \<Rightarrow> nat \<Rightarrow> nat \<Rightarrow> checker list \<Rightarrow> int act" where
  "check_args_from E cb base i [] = ret ERROR_SUCCESS"
| "check_args_from E cb base i (c # cs) = bindM (with_registered (check_value E cb c (LStack (base + i)))) (\<lambda>err.
     if err \<noteq> ERROR_SUCCESS then ret err else check_args_from E cb base (Suc i) cs)"

definition check_args :: "env \<Rightarrow> callbacks \<Rightarrow> nat \<Rightarrow> nat \<Rightarrow> checker list \<Rightarrow> int act" where
  "check_args E cb base count cs =
     (if count \<noteq> length cs then ret ERROR_INCORRECT_ARG_COUNT else check_args_from E cb base 0 cs)"

section \<open>Converters\<close>

text \<open>A converter writes what it reads into variables of the library; here it returns it. The functions of the
  library return false (\<open>None\<close>) when they refuse their value. A failure of the conversion is the result false.\<close>

datatype 'x converter =
    ToInt
  | ToFloat
  | ToRef
  | ToNothing
  | ToTuple "'x converter list"
  | ToOption "'x converter"
  | ToEither "'x converter" "'x converter"
  | ToString
  | ToIntFun "u64 \<Rightarrow> 'x option"
  | ToFloatFun "float64 \<Rightarrow> 'x option"
  | ToRefFun "ref \<Rightarrow> 'x option"
  | ToObjectFun "object \<Rightarrow> 'x option"

datatype 'x converted =
    IntRead u64
  | FloatRead float64
  | RefRead ref
  | NothingRead
  | TupleRead "'x converted list"
  | NoneRead
  | SomeRead "'x converted"
  | LeftRead "'x converted"
  | RightRead "'x converted"
  | StringRead "u8 list"
  | FunRead 'x

definition object_at :: "vm_value \<Rightarrow> (heap, object) m" where
  "object_at v = (\<lambda>h. case deref h (value_r v) of None \<Rightarrow> (Undefined, h) | Some ob \<Rightarrow> (Done ob, h))"

definition value_elem_at :: "fpu \<Rightarrow> vm_value \<Rightarrow> nat \<Rightarrow> (heap, vm_value) m" where
  "value_elem_at F v i = bindM (object_at v) (\<lambda>ob. case elem F ob i of None \<Rightarrow> undef | Some x \<Rightarrow> ret x)"

definition fun_read :: "'x option \<Rightarrow> (heap, 'x converted) m" where
  "fun_read r = (case r of None \<Rightarrow> fail | Some x \<Rightarrow> ret (FunRead x))"

text \<open>The bytes of an object of another type than an array of 8-bit integers are taken as undefined.\<close>

definition string_at :: "vm_value \<Rightarrow> (heap, u8 list) m" where
  "string_at v = bindM (object_at v) (\<lambda>ob. case body ob of IArray8 xs \<Rightarrow> ret xs | _ \<Rightarrow> undef)"

fun convert :: "fpu \<Rightarrow> 'x converter \<Rightarrow> vm_value \<Rightarrow> (heap, 'x converted) m"
  and convert_elems_from :: "fpu \<Rightarrow> 'x converter list \<Rightarrow> vm_value \<Rightarrow> nat \<Rightarrow> (heap, 'x converted list) m" where
  "convert F ToInt = (\<lambda>v. ret (IntRead (value_i v)))"
| "convert F ToFloat = (\<lambda>v. ret (FloatRead (value_f v)))"
| "convert F ToRef = (\<lambda>v. ret (RefRead (value_r v)))"
| "convert F ToNothing = (\<lambda>v. ret NothingRead)"
| "convert F (ToTuple cs) = (\<lambda>v. bindM (convert_elems_from F cs v 0) (\<lambda>ds. ret (TupleRead ds)))"
| "convert F (ToOption c) = (\<lambda>v. bindM (value_elem_at F v 0) (\<lambda>x.
     if value_i x = 0 then ret NoneRead
     else bindM (value_elem_at F v 1) (\<lambda>y. bindM (convert F c y) (\<lambda>d. ret (SomeRead d)))))"
| "convert F (ToEither c d) = (\<lambda>v. bindM (value_elem_at F v 0) (\<lambda>x. bindM (value_elem_at F v 1) (\<lambda>y.
     if value_i x = 0 then bindM (convert F c y) (\<lambda>r. ret (LeftRead r))
     else bindM (convert F d y) (\<lambda>r. ret (RightRead r)))))"
| "convert F ToString = (\<lambda>v. bindM (string_at v) (\<lambda>xs. ret (StringRead xs)))"
| "convert F (ToIntFun f) = (\<lambda>v. fun_read (f (value_i v)))"
| "convert F (ToFloatFun f) = (\<lambda>v. fun_read (f (value_f v)))"
| "convert F (ToRefFun f) = (\<lambda>v. fun_read (f (value_r v)))"
| "convert F (ToObjectFun f) = (\<lambda>v. bindM (object_at v) (\<lambda>ob. fun_read (f ob)))"
| "convert_elems_from F [] = (\<lambda>v i. ret [])"
| "convert_elems_from F (c # cs) = (\<lambda>v i. bindM (value_elem_at F v i) (\<lambda>x. bindM (convert F c x) (\<lambda>d.
     bindM (convert_elems_from F cs v (Suc i)) (\<lambda>ds. ret (d # ds)))))"

fun convert_args :: "fpu \<Rightarrow> 'x converter list \<Rightarrow> vm_value list \<Rightarrow> (heap, 'x converted list) m" where
  "convert_args F [] vs = ret []"
| "convert_args F (c # cs) [] = undef"
| "convert_args F (c # cs) (v # vs) = bindM (convert F c v) (\<lambda>d. bindM (convert_args F cs vs) (\<lambda>ds. ret (d # ds)))"

section \<open>Setters\<close>

text \<open>A C string comes with its bytes up to the length that is given, or up to its first zero byte. A setter of
  the library makes a reference, or an object (\<open>None\<close> is the null pointer).\<close>

datatype setter =
    SInt u64
  | SZero
  | SOne
  | SFloat float64
  | SRef ref
  | STuple bool "setter list"
  | SValue vm_value
  | SString "u8 list"
  | SCString "u8 list" "nat option"
  | SRefFun "ref option act"
  | SObjectFun "ref option act"

text \<open>The bytes of a C string that are copied: there must be as many as the given length, or a zero byte.\<close>

definition cstring_bytes :: "u8 list \<Rightarrow> nat option \<Rightarrow> u8 list option" where
  "cstring_bytes xs n = (case n of
     Some k \<Rightarrow> if k \<le> length xs then Some (take k xs) else None
   | None \<Rightarrow> if 0 \<in> set xs then Some (takeWhile (\<lambda>x. x \<noteq> 0) xs) else None)"

text \<open>The result of a setter: the error, the value, and the reference of the caller it was given. A setter that
  is called through \<open>SetterFunction\<close>, which returns a \<open>bool\<close>, has its error converted to \<open>bool\<close> and back.\<close>

definition as_setter_function :: "(int \<times> vm_value \<times> ref) act \<Rightarrow> (int \<times> vm_value \<times> ref) act" where
  "as_setter_function c = bindM c (\<lambda>(err, v, q). ret (if err \<noteq> 0 then 1 else 0, v, q))"

definition set_string_value :: "env \<Rightarrow> u8 list \<Rightarrow> (int \<times> vm_value \<times> ref) act" where
  "set_string_value E xs = bindM (gc_new_object E OBJECT_TYPE_IARRAY8 (of_nat (length xs))) (\<lambda>q. case q of
     None \<Rightarrow> ret (ERROR_OUT_OF_MEMORY, VError, RNil)
   | Some q \<Rightarrow> seqM (put_object q (Object False (IArray8 xs))) (seqM (register_ref q) (ret (ERROR_SUCCESS, VRef q, q))))"

fun set_value :: "env \<Rightarrow> setter \<Rightarrow> (int \<times> vm_value \<times> ref) act"
  and set_elems_from :: "env \<Rightarrow> setter list \<Rightarrow> ref \<Rightarrow> nat \<Rightarrow> (int \<times> vm_value \<times> ref) act" where
  "set_value E (SInt i) = ret (ERROR_SUCCESS, VInt i, RNil)"
| "set_value E SZero = ret (ERROR_SUCCESS, VInt 0, RNil)"
| "set_value E SOne = ret (ERROR_SUCCESS, VInt 1, RNil)"
| "set_value E (SFloat f) = ret (ERROR_SUCCESS, VFloat f, RNil)"
| "set_value E (SRef q) = ret (ERROR_SUCCESS, VRef q, RNil)"
| "set_value E (STuple u sts) =
     bindM (gc_new_object E (OBJECT_TYPE_TUPLE OR unique_flag u) (of_nat (length sts))) (\<lambda>q. case q of
       None \<Rightarrow> ret (ERROR_OUT_OF_MEMORY, VError, RNil)
     | Some q \<Rightarrow> seqM (forM [0..<length sts] (\<lambda>i. set_elem_m E q i VError)) (set_elems_from E sts q 0))"
| "set_value E (SValue v) = ret (ERROR_SUCCESS, (case v of VCanceled q \<Rightarrow> VRef q | _ \<Rightarrow> v), RNil)"
| "set_value E (SString xs) = set_string_value E xs"
| "set_value E (SCString xs n) = (case cstring_bytes xs n of None \<Rightarrow> undef | Some ys \<Rightarrow> set_string_value E ys)"
| "set_value E (SRefFun f) = bindM f (\<lambda>q. case q of
     None \<Rightarrow> ret (ERROR_OUT_OF_MEMORY, VError, RNil) | Some q \<Rightarrow> ret (ERROR_SUCCESS, VRef q, q))"
| "set_value E (SObjectFun f) = bindM f (\<lambda>q. case q of
     None \<Rightarrow> ret (ERROR_OUT_OF_MEMORY, VError, RNil)
   | Some q \<Rightarrow> seqM (register_ref q) (ret (ERROR_SUCCESS, VRef q, q)))"
| "set_elems_from E [] q i = seqM (whenM (q \<noteq> RNil) (register_ref q)) (ret (ERROR_SUCCESS, VRef q, q))"
| "set_elems_from E (st # sts) q i = bindM (with_registered (bindM (as_setter_function (set_value E st)) (\<lambda>(err, v, _).
     if err \<noteq> ERROR_SUCCESS then ret err else seqM (set_elem_m E q i v) (ret ERROR_SUCCESS)))) (\<lambda>err.
     if err \<noteq> ERROR_SUCCESS then ret (err, VError, q) else set_elems_from E sts q (Suc i))"

definition return_value_for_setter :: "env \<Rightarrow> setter \<Rightarrow> return_value act" where
  "return_value_for_setter E st = with_registered (bindM (as_setter_function (set_value E st)) (\<lambda>(err, v, q).
     if err \<noteq> ERROR_SUCCESS then ret (error_return_value err RNil)
     else seqM (whenM (q \<noteq> RNil) (set_tmp_r q)) (ret (return_value_of v))))"

text \<open>The setters that are built from others: \<open>vt\<close>, \<open>vut\<close>, options and eithers.\<close>

definition vnone :: "bool \<Rightarrow> setter" where "vnone u = STuple u [SZero]"
definition vsome :: "bool \<Rightarrow> setter \<Rightarrow> setter" where "vsome u st = STuple u [SOne, st]"
definition vleft :: "bool \<Rightarrow> setter \<Rightarrow> setter" where "vleft u st = STuple u [SZero, st]"
definition vright :: "bool \<Rightarrow> setter \<Rightarrow> setter" where "vright u st = STuple u [SOne, st]"

end
