(* ===== verification/Native_Data.thy ===== *)
theory Native_Data
  imports Native_Interface Interpreter
begin

text \<open>
  What the setters of the native interface build is what its checkers accept and its converters read back.
\<close>

section \<open>Heaps that grow\<close>

definition heap_grown :: "heap \<Rightarrow> heap \<Rightarrow> bool" where
  "heap_grown h h' \<longleftrightarrow> length h \<le> length h' \<and> (\<forall>a<length h. h' ! a = h ! a)"

text \<open>All objects but the one that is being filled.\<close>

definition heap_grown_but :: "nat \<Rightarrow> heap \<Rightarrow> heap \<Rightarrow> bool" where
  "heap_grown_but b h h' \<longleftrightarrow> length h \<le> length h' \<and> (\<forall>a<length h. a \<noteq> b \<longrightarrow> h' ! a = h ! a)"

lemma heap_grown_refl [simp]: "heap_grown h h" by (simp add: heap_grown_def)
lemma heap_grown_trans: "heap_grown h h' \<Longrightarrow> heap_grown h' h'' \<Longrightarrow> heap_grown h h''" by (simp add: heap_grown_def)
lemma heap_grown_but_refl [simp]: "heap_grown_but b h h" by (simp add: heap_grown_but_def)
lemma heap_grown_but_trans: "heap_grown_but b h h' \<Longrightarrow> heap_grown_but b h' h'' \<Longrightarrow> heap_grown_but b h h''" by (simp add: heap_grown_but_def)
lemma heap_grown_append [simp]: "heap_grown h (h @ h')" by (simp add: heap_grown_def nth_append)
lemma heap_grown_grown_but: "heap_grown h h' \<Longrightarrow> heap_grown_but b h h'" by (simp add: heap_grown_def heap_grown_but_def)
lemma heap_grown_but_update [simp]: "heap_grown_but b h (h[b := x])" by (simp add: heap_grown_but_def)
lemma heap_grown_from_but: "heap_grown_but b h' h'' \<Longrightarrow> heap_grown h h' \<Longrightarrow> length h \<le> b \<Longrightarrow> heap_grown h h''"
  by (simp add: heap_grown_def heap_grown_but_def)

section \<open>Filling a tuple\<close>

lemma flag_of_tuple:
  "type_kind (OBJECT_TYPE_TUPLE OR unique_flag u) = OBJECT_TYPE_TUPLE"
  "(OBJECT_TYPE_TUPLE OR unique_flag u) AND OBJECT_TYPE_UNIQUE \<noteq> 0 \<longleftrightarrow> u"
  by (cases u; simp add: unique_flag_def type_kind_def)+

definition has_memory :: "env \<Rightarrow> int \<Rightarrow> nat \<Rightarrow> nat \<Rightarrow> bool" where
  "has_memory E t n a \<longleftrightarrow> object_size t (of_nat n) \<noteq> 0 \<and> e_alloc E a (object_size t (of_nat n))"

definition with_object :: "object \<Rightarrow> ctx \<Rightarrow> ctx" where
  "with_object ob s = s\<lparr>heap := heap s @ [ob], regs := (regs s)\<lparr>gc_tmp_ptr := Some (length (heap s))\<rparr>\<rparr>"

lemma heap_with_object [simp]: "heap (with_object ob s) = heap s @ [ob]" by (simp add: with_object_def)

lemma new_tuple:
  assumes "n < 2 ^ 63"
  shows "gc_new_object E (OBJECT_TYPE_TUPLE OR unique_flag u) (of_nat n) s =
    (if has_memory E (OBJECT_TYPE_TUPLE OR unique_flag u) n (length (heap s))
     then (Done (Some (RAddr (length (heap s)))), with_object (Object u (Tuple (replicate n (VRef RWild)))) s)
     else (Done None, s))"
proof -
  have "unat (of_nat n :: u64) = n" using assms by (simp add: unat_of_nat)
  then show ?thesis
    by (simp add: gc_new_object_def gc_allocate_def has_memory_def with_object_def fresh_object_def flag_of_tuple fresh_body_def Let_def)
qed

lemma set_elem_of_tuple:
  assumes "b < length (heap s)" "heap s ! b = Object u (Tuple xs)" "i < length xs"
  shows "set_elem_m E (RAddr b) i v s = (Done (), s\<lparr>heap := (heap s)[b := Object u (Tuple (xs[i := v]))]\<rparr>)"
  using assms by (simp add: set_elem_m_def deref_m_def run upd_opt_def put_object_def)

lemma forM_fill:
  assumes "b < length (heap s)" "length xs = n"
    and "\<And>i ys. i < n \<Longrightarrow> length ys = n \<Longrightarrow> g i (s\<lparr>heap := (heap s)[b := Object u (Tuple ys)]\<rparr>) =
      (Done (), s\<lparr>heap := (heap s)[b := Object u (Tuple (ys[i := f i]))]\<rparr>)"
  shows "k \<le> n \<Longrightarrow> forM [n - k..<n] g (s\<lparr>heap := (heap s)[b := Object u (Tuple xs)]\<rparr>) =
    (Done (), s\<lparr>heap := (heap s)[b := Object u (Tuple (take (n - k) xs @ map f [n - k..<n]))]\<rparr>)"
  using assms(2)
proof (induction k arbitrary: xs)
  case 0
  then show ?case by (simp add: run)
next
  case (Suc k)
  let ?i = "n - Suc k"
  have i: "?i < n" "Suc ?i = n - k" using Suc.prems by simp_all
  then have up: "[?i..<n] = ?i # [n - k..<n]" by (simp add: upt_conv_Cons)
  have "take (n - k) (xs[?i := f ?i]) = take ?i xs @ [f ?i]"
    unfolding i(2) [symmetric] using i(1) Suc.prems by (simp add: take_Suc_conv_app_nth)
  then show ?case using i(1) Suc.IH [of "xs[?i := f ?i]"] Suc.prems by (simp add: up run assms(3))
qed

lemma fill_all:
  assumes "b < length (heap s)" "heap s ! b = Object u (Tuple xs)" "length xs = n"
    and "\<And>i ys. i < n \<Longrightarrow> length ys = n \<Longrightarrow> g i (s\<lparr>heap := (heap s)[b := Object u (Tuple ys)]\<rparr>) =
      (Done (), s\<lparr>heap := (heap s)[b := Object u (Tuple (ys[i := f i]))]\<rparr>)"
  shows "forM [0..<n] g s = (Done (), s\<lparr>heap := (heap s)[b := Object u (Tuple (map f [0..<n]))]\<rparr>)"
proof -
  have "s = s\<lparr>heap := (heap s)[b := Object u (Tuple xs)]\<rparr>" using assms(1,2) by (metis ctx.unfold_congs(4) ctx.surjective ctx.update_convs(4) list_update_id)
  with forM_fill [OF assms(1,3,4), where k = n] show ?thesis by simp
qed

section \<open>What a setter builds\<close>

definition fits :: "int \<Rightarrow> nat \<Rightarrow> bool" where
  "fits t n \<longleftrightarrow> n < 2 ^ 63 \<and> object_size t (of_nat n) \<noteq> 0"

text \<open>Setters of plain data, whose objects have a size that can be allocated.\<close>

fun data_setter :: "setter \<Rightarrow> bool" where
  "data_setter (STuple u sts) \<longleftrightarrow> fits (OBJECT_TYPE_TUPLE OR unique_flag u) (length sts) \<and> (\<forall>st\<in>set sts. data_setter st)"
| "data_setter (SValue v) \<longleftrightarrow> False"
| "data_setter (SString xs) \<longleftrightarrow> fits OBJECT_TYPE_IARRAY8 (length xs)"
| "data_setter (SCString xs n) \<longleftrightarrow> (case cstring_bytes xs n of None \<Rightarrow> False | Some ys \<Rightarrow> fits OBJECT_TYPE_IARRAY8 (length ys))"
| "data_setter (SRefFun f) \<longleftrightarrow> False"
| "data_setter (SObjectFun f) \<longleftrightarrow> False"
| "data_setter _ \<longleftrightarrow> True"

definition string_in :: "nat \<Rightarrow> heap \<Rightarrow> u8 list \<Rightarrow> vm_value \<Rightarrow> bool" where
  "string_in n h xs v \<longleftrightarrow> (\<exists>b. v = VRef (RAddr b) \<and> n \<le> b \<and> b < length h \<and> h ! b = Object False (IArray8 xs))"

text \<open>The value stands for the data of the setter, in objects at addresses from \<open>n\<close> on.\<close>

fun built :: "nat \<Rightarrow> heap \<Rightarrow> setter \<Rightarrow> vm_value \<Rightarrow> bool" where
  "built n h (SInt i) v \<longleftrightarrow> v = VInt i"
| "built n h SZero v \<longleftrightarrow> v = VInt 0"
| "built n h SOne v \<longleftrightarrow> v = VInt 1"
| "built n h (SFloat f) v \<longleftrightarrow> v = VFloat f"
| "built n h (SRef q) v \<longleftrightarrow> v = VRef q"
| "built n h (STuple u sts) v \<longleftrightarrow> (\<exists>b ys. v = VRef (RAddr b) \<and> n \<le> b \<and> b < length h \<and> h ! b = Object u (Tuple ys) \<and>
     list_all2 (built (Suc b) h) sts ys)"
| "built n h (SString xs) v \<longleftrightarrow> string_in n h xs v"
| "built n h (SCString xs k) v \<longleftrightarrow> (\<exists>ys. cstring_bytes xs k = Some ys \<and> string_in n h ys v)"
| "built n h _ v \<longleftrightarrow> False"

lemma built_frame:
  "built n h st v \<Longrightarrow> length h \<le> length h' \<Longrightarrow> m \<le> n \<Longrightarrow> \<forall>a. n \<le> a \<and> a < length h \<longrightarrow> h' ! a = h ! a \<Longrightarrow> built m h' st v"
proof (induction n h st v arbitrary: m rule: built.induct)
  case (6 n h u sts v)
  then obtain b ys where v: "v = VRef (RAddr b)" "n \<le> b" "b < length h" "h ! b = Object u (Tuple ys)" "list_all2 (built (Suc b) h) sts ys" by auto
  have "list_all2 (built (Suc b) h') sts ys"
    by (rule list.rel_mono_strong [OF v(5)], rule 6(1)) (use 6 v in auto)
  with v 6 show ?case by fastforce
qed (auto simp: string_in_def)

lemma registered_heap: "c s = (r, t) \<Longrightarrow> with_registered c s = (r, t\<lparr>registered := take (length (registered s)) (registered t)\<rparr>)"
  by (simp add: with_registered_def)

lemma register_ref_run [run]: "register_ref q s = (Done (), s\<lparr>registered := registered s @ [q]\<rparr>)"
  by (simp add: register_ref_def run)

definition plenty :: "env \<Rightarrow> bool" where
  "plenty E \<longleftrightarrow> (\<forall>a n. e_alloc E a n)"

definition sets :: "env \<Rightarrow> setter \<Rightarrow> ctx \<Rightarrow> bool" where
  "sets E st s \<longleftrightarrow> (\<exists>err v q t. set_value E st s = (Done (err, v, q), t) \<and> heap_grown (heap s) (heap t) \<and>
     (err = 0 \<longrightarrow> built (length (heap s)) (heap t) st v) \<and> (plenty E \<longrightarrow> err = 0))"

lemma set_string:
  assumes "fits OBJECT_TYPE_IARRAY8 (length xs)"
  shows "\<exists>err v q t. set_string_value E xs s = (Done (err, v, q), t) \<and> heap_grown (heap s) (heap t) \<and>
     (err = 0 \<longrightarrow> string_in (length (heap s)) (heap t) xs v) \<and> (plenty E \<longrightarrow> err = 0)"
  using assms
  by (auto simp: set_string_value_def gc_new_object_def gc_allocate_def Let_def run put_object_def fits_def plenty_def string_in_def
      heap_grown_def nth_append list_update_append)

text \<open>The elements are set one after another; what was built before stays.\<close>

definition sets_elems :: "env \<Rightarrow> setter list \<Rightarrow> nat \<Rightarrow> bool \<Rightarrow> nat \<Rightarrow> vm_value list \<Rightarrow> ctx \<Rightarrow> bool" where
  "sets_elems E sts b u i xs s \<longleftrightarrow> (\<exists>err v q t. set_elems_from E sts (RAddr b) i s = (Done (err, v, q), t) \<and>
     heap_grown_but b (heap s) (heap t) \<and> (plenty E \<longrightarrow> err = 0) \<and>
     (err = 0 \<longrightarrow> v = VRef (RAddr b) \<and> (\<exists>ys. heap t ! b = Object u (Tuple (take i xs @ ys)) \<and>
       list_all2 (built (Suc b) (heap t)) sts ys)))"

lemma sets_elems_Cons:
  assumes st: "sets E st s" and b: "b < length (heap s)" "heap s ! b = Object u (Tuple xs)" "i < length xs"
    and rest: "\<And>v s'. b < length (heap s') \<Longrightarrow> heap s' ! b = Object u (Tuple (xs[i := v])) \<Longrightarrow> sets_elems E sts b u (Suc i) (xs[i := v]) s'"
  shows "sets_elems E (st # sts) b u i xs s"
proof -
  obtain err v q t where t: "set_value E st s = (Done (err, v, q), t)" "heap_grown (heap s) (heap t)"
      "err = 0 \<Longrightarrow> built (length (heap s)) (heap t) st v" "plenty E \<Longrightarrow> err = 0"
    using st by (auto simp: sets_def)
  then have tb: "b < length (heap t)" "heap t ! b = Object u (Tuple xs)" using b by (auto simp: heap_grown_def)
  show ?thesis
  proof (cases "err = 0")
    case False
    with t show ?thesis
      by (auto simp: sets_elems_def as_setter_function_def run with_registered_def heap_grown_grown_but)
  next
    case True
    define s' where "s' = t\<lparr>heap := (heap t)[b := Object u (Tuple (xs[i := v]))], registered := take (length (registered s)) (registered t)\<rparr>"
    have s': "b < length (heap s')" "heap s' ! b = Object u (Tuple (xs[i := v]))" "heap s' = (heap t)[b := Object u (Tuple (xs[i := v]))]"
      using tb by (simp_all add: s'_def)
    have step: "set_elems_from E (st # sts) (RAddr b) i s = set_elems_from E sts (RAddr b) (Suc i) s'"
      using t(1) True tb b(3)
      by (simp add: as_setter_function_def run with_registered_def set_elem_of_tuple s'_def)
    obtain err' w q' t' where t': "set_elems_from E sts (RAddr b) (Suc i) s' = (Done (err', w, q'), t')"
        "heap_grown_but b (heap s') (heap t')" "plenty E \<Longrightarrow> err' = 0"
        "err' = 0 \<Longrightarrow> w = VRef (RAddr b) \<and> (\<exists>ys. heap t' ! b = Object u (Tuple (take (Suc i) (xs[i := v]) @ ys)) \<and> list_all2 (built (Suc b) (heap t')) sts ys)"
      using rest [OF s'(1,2)] by (auto simp: sets_elems_def)
    have "heap_grown_but b (heap s) (heap s')" using t(2) by (simp add: s'(3) heap_grown_def heap_grown_but_def)
    then have g: "heap_grown_but b (heap s) (heap t')" using t'(2) by (rule heap_grown_but_trans)
    have "built (Suc b) (heap t') st v"
    proof (rule built_frame [OF t(3) [OF True]])
      show "length (heap t) \<le> length (heap t')" using t'(2) by (simp add: s'(3) heap_grown_but_def)
      show "Suc b \<le> length (heap s)" using b(1) by simp
      show "\<forall>a. length (heap s) \<le> a \<and> a < length (heap t) \<longrightarrow> heap t' ! a = heap t ! a"
        using t'(2) b(1) by (auto simp: s'(3) heap_grown_but_def)
    qed
    then have "\<exists>ys. heap t' ! b = Object u (Tuple (take i xs @ ys)) \<and> list_all2 (built (Suc b) (heap t')) (st # sts) ys" if "err' = 0"
      using t'(4) [OF that] b(3) by (force simp: take_Suc_conv_app_nth)
    then show ?thesis
      using t' g unfolding sets_elems_def step by auto
  qed
qed

lemma setter_builds:
  "data_setter st \<Longrightarrow> sets E st s"
  "\<forall>st\<in>set sts. data_setter st \<Longrightarrow> q = RAddr b \<Longrightarrow> b < length (heap s) \<Longrightarrow> heap s ! b = Object u (Tuple xs) \<Longrightarrow>
     i + length sts = length xs \<Longrightarrow> sets_elems E sts b u i xs s"
proof (induction E st and E sts q i arbitrary: s and s b u xs rule: set_value_set_elems_from.induct)
  case (6 E u sts s)
  then have f: "fits (OBJECT_TYPE_TUPLE OR unique_flag u) (length sts)" by simp
  then have n: "length sts < 2 ^ 63" by (simp add: fits_def)
  show ?case
  proof (cases "has_memory E (OBJECT_TYPE_TUPLE OR unique_flag u) (length sts) (length (heap s))")
    case True
    let ?b = "length (heap s)"
    let ?s = "with_object (Object u (Tuple (replicate (length sts) (VRef RWild)))) s"
    let ?t = "?s\<lparr>heap := heap s @ [Object u (Tuple (replicate (length sts) VError))]\<rparr>"
    have "forM [0..<length sts] (\<lambda>i. set_elem_m E (RAddr ?b) i VError) ?s = (Done (), ?s\<lparr>heap := (heap ?s)[?b := Object u (Tuple (map (\<lambda>_. VError) [0..<length sts]))]\<rparr>)"
      by (rule fill_all [where f = "\<lambda>_. VError" and xs = "replicate (length sts) (VRef RWild)"]) (simp_all add: set_elem_of_tuple)
    then have fill: "set_value E (STuple u sts) s = set_elems_from E sts (RAddr ?b) 0 ?t"
      using new_tuple [OF n, of E u s] True by (simp add: run map_replicate_const)
    have "sets_elems E sts ?b u 0 (replicate (length sts) VError) ?t" by (rule 6(1)) (use 6(2) in \<open>simp_all\<close>)
    then obtain err v q t where t: "set_elems_from E sts (RAddr ?b) 0 ?t = (Done (err, v, q), t)" "heap_grown_but ?b (heap ?t) (heap t)" "plenty E \<Longrightarrow> err = 0"
        "err = 0 \<Longrightarrow> v = VRef (RAddr ?b) \<and> (\<exists>ys. heap t ! ?b = Object u (Tuple ys) \<and> list_all2 (built (Suc ?b) (heap t)) sts ys)"
      by (auto simp: sets_elems_def)
    have "heap_grown (heap s) (heap t)" by (rule heap_grown_from_but [OF t(2)]) simp_all
    moreover have "?b < length (heap t)" using t(2) by (simp add: heap_grown_but_def)
    ultimately show ?thesis using t(1,3,4) unfolding sets_def fill by auto
  next
    case False
    with f show ?thesis using new_tuple [OF n, of E u s]
      by (auto simp: sets_def run has_memory_def plenty_def fits_def)
  qed
next
  case (8 E xs s)
  then show ?case using set_string [of xs E s] by (auto simp: sets_def)
next
  case (9 E xs n s)
  then obtain ys where "cstring_bytes xs n = Some ys" "fits OBJECT_TYPE_IARRAY8 (length ys)" by (auto split: option.splits)
  then show ?case using set_string [of ys E s] by (auto simp: sets_def)
next
  case (12 E q i s b u xs)
  then show ?case by (simp add: sets_elems_def run)
next
  case (13 E st sts q i s b u xs)
  show ?case
    by (rule sets_elems_Cons) (use 13 in \<open>auto\<close>)
qed (auto simp: sets_def run)

section \<open>Reading it back\<close>

text \<open>The converter, the checker and the data that belong to a setter.\<close>

fun conv_of :: "setter \<Rightarrow> unit converter" where
  "conv_of (SInt i) = ToInt"
| "conv_of SZero = ToInt"
| "conv_of SOne = ToInt"
| "conv_of (SFloat f) = ToFloat"
| "conv_of (SRef q) = ToRef"
| "conv_of (STuple u sts) = ToTuple (map conv_of sts)"
| "conv_of (SString xs) = ToString"
| "conv_of (SCString xs n) = ToString"
| "conv_of _ = ToNothing"

fun data_of :: "setter \<Rightarrow> unit converted" where
  "data_of (SInt i) = IntRead i"
| "data_of SZero = IntRead 0"
| "data_of SOne = IntRead 1"
| "data_of (SFloat f) = FloatRead f"
| "data_of (SRef q) = RefRead q"
| "data_of (STuple u sts) = TupleRead (map data_of sts)"
| "data_of (SString xs) = StringRead xs"
| "data_of (SCString xs n) = StringRead (the (cstring_bytes xs n))"
| "data_of _ = NothingRead"

lemma convert_elems_list:
  assumes "\<And>i. i < length cs \<Longrightarrow> j + i < length ys \<and> convert F (cs ! i) (ys ! (j + i)) h = (Done (ds ! i), h)" and "length ds = length cs"
    and "deref h (value_r v) = Some (Object u (Tuple ys))"
  shows "convert_elems_from F cs v j h = (Done ds, h)"
  using assms(1,2)
proof (induction cs arbitrary: j ds)
  case (Cons c cs)
  obtain d ds' where ds: "ds = d # ds'" using Cons.prems(2) by (cases ds) auto
  have "convert_elems_from F cs v (Suc j) h = (Done ds', h)"
  proof (rule Cons.IH)
    show "Suc j + i < length ys \<and> convert F (cs ! i) (ys ! (Suc j + i)) h = (Done (ds' ! i), h)" if "i < length cs" for i
      using Cons.prems(1) [of "Suc i"] that ds by simp
  qed (use Cons.prems(2) ds in simp)
  then show ?case using Cons.prems(1) [of 0] assms(3) ds
    by (simp add: value_elem_at_def object_at_def run nth_opt_def)
qed (simp add: run)

lemma convert_built:
  "built n h st v \<Longrightarrow> data_setter st \<Longrightarrow> convert F (conv_of st) v h = (Done (data_of st), h)"
proof (induction n h st v rule: built.induct)
  case (6 n h u sts v)
  then obtain b ys where v: "v = VRef (RAddr b)" "b < length h" "h ! b = Object u (Tuple ys)" "list_all2 (built (Suc b) h) sts ys" by auto
  have "convert F (conv_of (sts ! i)) (ys ! i) h = (Done (data_of (sts ! i)), h)" if "i < length sts" for i
    using v(4) 6(3) that by (intro 6(1) [of "sts ! i" "ys ! i" ys b]) (auto simp: list_all2_conv_all_nth)
  then have "convert_elems_from F (map conv_of sts) v 0 h = (Done (map data_of sts), h)"
    using v by (intro convert_elems_list [where u = u and ys = ys]) (auto simp: list_all2_conv_all_nth)
  then show ?case by (simp add: run)
qed (auto simp: run string_in_def string_at_def object_at_def)

section \<open>The return value\<close>

lemma set_elems_result: "set_elems_from E sts q i s = (Done (0, v, q'), t) \<Longrightarrow> v = VRef q \<and> q' = q"
proof (induction sts arbitrary: i s)
  case (Cons st sts)
  then show ?case by (auto simp: bindM_def with_registered_def ret_run split: prod.splits outcome.splits if_splits)
qed (auto simp: run split: if_splits)

definition is_object_setter :: "setter \<Rightarrow> bool" where
  "is_object_setter st \<longleftrightarrow> (case st of STuple u sts \<Rightarrow> True | SString xs \<Rightarrow> True | SCString xs n \<Rightarrow> True | _ \<Rightarrow> False)"

lemma set_value_result:
  "set_value E st s = (Done (0, v, q), t) \<Longrightarrow> data_setter st \<Longrightarrow> if is_object_setter st then v = VRef q else q = RNil"
  by (cases st)
    (auto simp: is_object_setter_def bindM_def set_string_value_def run split: prod.splits outcome.splits option.splits dest: set_elems_result)

section \<open>Properties\<close>

text \<open>C11: What a setter builds a converter reads back. For data without references into the heap, in tuples nested
  to any depth, a setter is always defined, leaves every object of the heap as it was, and either has an error, which it
  has only when there is no memory, or makes a value from which the converter of the same shape gets the data it was
  made of.\<close>

theorem set_then_convert:
  assumes "data_setter st"
  shows "\<exists>err v q t. set_value E st s = (Done (err, v, q), t) \<and> heap_grown (heap s) (heap t) \<and> (plenty E \<longrightarrow> err = 0) \<and>
    (err = 0 \<longrightarrow> convert F (conv_of st) v (heap t) = (Done (data_of st), heap t))"
  using setter_builds(1) [OF assms, of E s] convert_built [OF _ assms] by (fastforce simp: sets_def)

text \<open>C32: The return value that a native function makes with a setter is the value the setter has built, and a new
  object is the temporary root of the thread; but when the setter has an error, whatever it is (a tuple, as here,
  has \<open>ERROR_OUT_OF_MEMORY\<close> when there is no memory), the error of the return value is \<open>ERROR_NO_INSTR\<close>, since
  \<open>SetterFunction\<close> returns a \<open>bool\<close>.\<close>

theorem setter_return_value:
  assumes "data_setter st"
  shows "\<exists>err v q t rv u. set_value E st s = (Done (err, v, q), t) \<and> return_value_for_setter E st s = (Done rv, u) \<and>
    heap u = heap t \<and> registered u = take (length (registered s)) (registered t) \<and>
    (err = 0 \<longrightarrow> rv = return_value_of v \<and> (is_object_setter st \<longrightarrow> v = VRef q \<and> (q \<noteq> RNil \<longrightarrow> tmp_r (regs u) = q))) \<and>
    (err \<noteq> 0 \<longrightarrow> rv = error_return_value ERROR_NO_INSTR RNil) \<and>
    (\<forall>k sts. st = STuple k sts \<and> \<not> has_memory E (OBJECT_TYPE_TUPLE OR unique_flag k) (length sts) (length (heap s)) \<longrightarrow>
      err = ERROR_OUT_OF_MEMORY)"
proof -
  obtain err v q t where t: "set_value E st s = (Done (err, v, q), t)"
    using setter_builds(1) [OF assms, of E s] by (auto simp: sets_def)
  have none: "err = ERROR_OUT_OF_MEMORY" if "st = STuple k sts" "\<not> has_memory E (OBJECT_TYPE_TUPLE OR unique_flag k) (length sts) (length (heap s))" for k sts
    using t assms new_tuple [of "length sts" E k s] that by (auto simp: run fits_def)
  have q: "if is_object_setter st then v = VRef q else q = RNil" if "err = 0"
    using set_value_result t assms that by blast
  show ?thesis
  proof (cases "err = 0")
    case True
    then show ?thesis using t q none
      by (auto simp: return_value_for_setter_def as_setter_function_def run with_registered_def set_tmp_r_def set_regs_def)
  next
    case False
    then show ?thesis using t none
      by (auto simp: return_value_for_setter_def as_setter_function_def run with_registered_def)
  qed
qed

text \<open>A pair of a number and a string, and an empty tuple when there is no memory.\<close>

definition pair_setter :: setter where
  "pair_setter = STuple False [SInt 7, SString [104, 105]]"

lemma pair_setter_data: "data_setter pair_setter"
  by (simp add: pair_setter_def fits_def object_size_def unique_flag_def elem_size_def header_size_def type_kind_def)

lemma set_then_convert_witness:
  "\<exists>v q t. set_value (plain_env zero_fpu EagerStrategy [] []) pair_setter (new_thread_context 4 4 []) = (Done (0, v, q), t) \<and>
    convert zero_fpu (ToTuple [ToInt, ToString]) v (heap t) = (Done (TupleRead [IntRead 7, StringRead [104, 105 :: u8]] :: unit converted), heap t)"
  using set_then_convert [OF pair_setter_data, of "plain_env zero_fpu EagerStrategy [] []" "new_thread_context 4 4 []" zero_fpu]
  by (auto simp: pair_setter_def plenty_def plain_env_def)

lemma setter_return_value_witness:
  "\<exists>t. return_value_for_setter ((plain_env zero_fpu EagerStrategy [] [])\<lparr>e_alloc := \<lambda>_ _. False\<rparr>) pair_setter (new_thread_context 4 4 []) =
    (Done (error_return_value ERROR_NO_INSTR RNil), t)"
  using setter_return_value [OF pair_setter_data, of "(plain_env zero_fpu EagerStrategy [] [])\<lparr>e_alloc := \<lambda>_ _. False\<rparr>" "new_thread_context 4 4 []"]
  by (auto simp: pair_setter_def has_memory_def)

end
