(* ===== verification/Native_Checked.thy ===== *)
theory Native_Checked
  imports Native_Data
begin

text \<open>
  Arguments that a checker of the native interface accepts can be converted: the theorems that make
  \<open>check_args\<close> followed by \<open>convert_args\<close> safe, for arguments that are evaluated.
\<close>

section \<open>What a checker accepts\<close>

text \<open>Checkers of the interface itself that do not ask for unique tuples.\<close>

fun plain_checker :: "checker \<Rightarrow> bool" where
  "plain_checker (CTuple u cs) \<longleftrightarrow> \<not> u \<and> (\<forall>c\<in>set cs. plain_checker c)"
| "plain_checker (COption u c) \<longleftrightarrow> \<not> u \<and> plain_checker c"
| "plain_checker (CEither u c d) \<longleftrightarrow> \<not> u \<and> plain_checker c \<and> plain_checker d"
| "plain_checker (CRefFun f u new) \<longleftrightarrow> False"
| "plain_checker (CObjectFun f u new) \<longleftrightarrow> False"
| "plain_checker _ \<longleftrightarrow> True"

definition shared_tuple :: "heap \<Rightarrow> vm_value \<Rightarrow> vm_value list option" where
  "shared_tuple h v = (case v of
     VRef (RAddr a) \<Rightarrow> if a < length h then (case h ! a of Object False (Tuple xs) \<Rightarrow> Some xs | _ \<Rightarrow> None) else None
   | _ \<Rightarrow> None)"

text \<open>The value is evaluated and points to an object.\<close>

definition readable :: "heap \<Rightarrow> vm_value \<Rightarrow> bool" where
  "readable h v \<longleftrightarrow> \<not> is_lazy v \<and> (is_ref_value v \<longrightarrow> deref h (value_r v) \<noteq> None)"

text \<open>So is everything the checker looks at, and tuples have a size that can be allocated.\<close>

fun settled :: "heap \<Rightarrow> checker \<Rightarrow> vm_value \<Rightarrow> bool" where
  "settled h (CTuple u cs) v \<longleftrightarrow> readable h v \<and> (case shared_tuple h v of None \<Rightarrow> True
     | Some xs \<Rightarrow> fits OBJECT_TYPE_TUPLE (length xs) \<and> (length xs = length cs \<longrightarrow> list_all2 (settled h) cs xs))"
| "settled h (COption u c) v \<longleftrightarrow> readable h v \<and> (case shared_tuple h v of None \<Rightarrow> True
     | Some xs \<Rightarrow> fits OBJECT_TYPE_TUPLE (length xs) \<and> (length xs = 2 \<longrightarrow> settled h c (xs ! 1)))"
| "settled h (CEither u c d) v \<longleftrightarrow> readable h v \<and> (case shared_tuple h v of None \<Rightarrow> True
     | Some xs \<Rightarrow> fits OBJECT_TYPE_TUPLE (length xs) \<and>
         (length xs = 2 \<longrightarrow> (if xs ! 0 = VInt 0 then settled h c (xs ! 1) else settled h d (xs ! 1))))"
| "settled h _ v \<longleftrightarrow> readable h v"

fun accepts :: "heap \<Rightarrow> checker \<Rightarrow> vm_value \<Rightarrow> bool" where
  "accepts h CInt v \<longleftrightarrow> is_int_value v"
| "accepts h CFloat v \<longleftrightarrow> is_float_value v"
| "accepts h CRef v \<longleftrightarrow> is_ref_value v"
| "accepts h (CObject t) v \<longleftrightarrow> is_ref_value v \<and> map_option object_type (deref h (value_r v)) = Some t"
| "accepts h (CTuple u cs) v \<longleftrightarrow> (case shared_tuple h v of None \<Rightarrow> False
     | Some xs \<Rightarrow> length xs = length cs \<and> list_all2 (accepts h) cs xs)"
| "accepts h (COption u c) v \<longleftrightarrow> (case shared_tuple h v of None \<Rightarrow> False
     | Some xs \<Rightarrow> xs = [VInt 0] \<or> length xs = 2 \<and> is_int_value (xs ! 0) \<and> accepts h c (xs ! 1))"
| "accepts h (CEither u c d) v \<longleftrightarrow> (case shared_tuple h v of None \<Rightarrow> False
     | Some xs \<Rightarrow> length xs = 2 \<and> is_int_value (xs ! 0) \<and> (if xs ! 0 = VInt 0 then accepts h c (xs ! 1) else accepts h d (xs ! 1)))"
| "accepts h _ v \<longleftrightarrow> True"

text \<open>What a value is after it was checked: references to unique objects are canceled, tuples are copies at
  addresses from \<open>n\<close> on in the new heap \<open>h'\<close>.\<close>

inductive arg_checked :: "heap \<Rightarrow> nat \<Rightarrow> heap \<Rightarrow> checker \<Rightarrow> vm_value \<Rightarrow> vm_value \<Rightarrow> bool" for h where
  same: "c \<in> {CInt, CFloat, CForce, CIgnore} \<Longrightarrow> accepts h c v \<Longrightarrow> arg_checked h n h' c v v"
| ref: "c = CRef \<or> c = CObject k \<Longrightarrow> accepts h c (VRef q) \<Longrightarrow> w = VRef q \<or> w = VCanceled q \<Longrightarrow> arg_checked h n h' c (VRef q) w"
| tuple: "shared_tuple h v = Some xs \<Longrightarrow> n \<le> b \<Longrightarrow> b < length h' \<Longrightarrow> h' ! b = Object False (Tuple ys) \<Longrightarrow>
    length xs = length cs \<Longrightarrow> length ys = length cs \<Longrightarrow> (\<forall>i<length cs. arg_checked h (Suc b) h' (cs ! i) (xs ! i) (ys ! i)) \<Longrightarrow>
    arg_checked h n h' (CTuple False cs) v (VRef (RAddr b))"
| none: "shared_tuple h v = Some [VInt 0] \<Longrightarrow> n \<le> b \<Longrightarrow> b < length h' \<Longrightarrow> h' ! b = Object False (Tuple [VInt 0]) \<Longrightarrow>
    arg_checked h n h' (COption False c) v (VRef (RAddr b))"
| some: "shared_tuple h v = Some [VInt i, x] \<Longrightarrow> n \<le> b \<Longrightarrow> b < length h' \<Longrightarrow> h' ! b = Object False (Tuple [VInt i, y]) \<Longrightarrow>
    arg_checked h (Suc b) h' c x y \<Longrightarrow> arg_checked h n h' (COption False c) v (VRef (RAddr b))"
| either: "shared_tuple h v = Some [VInt i, x] \<Longrightarrow> n \<le> b \<Longrightarrow> b < length h' \<Longrightarrow> h' ! b = Object False (Tuple [VInt i, y]) \<Longrightarrow>
    arg_checked h (Suc b) h' (if i = 0 then c else d) x y \<Longrightarrow> arg_checked h n h' (CEither False c d) v (VRef (RAddr b))"

lemma arg_checked_frame:
  "arg_checked h n h' c v w \<Longrightarrow> length h' \<le> length h'' \<Longrightarrow> m \<le> n \<Longrightarrow> \<forall>a. n \<le> a \<and> a < length h' \<longrightarrow> h'' ! a = h' ! a \<Longrightarrow>
   arg_checked h m h'' c v w"
proof (induction arbitrary: m rule: arg_checked.induct)
  case (tuple v xs n b h' ys cs)
  show ?case by (rule arg_checked.tuple [where b = b and ys = ys and xs = xs]) (use tuple in auto)
next
  case (none v n b h' c)
  then show ?case by (intro arg_checked.none) auto
next
  case (some v i x n b h' y c)
  show ?case by (rule arg_checked.some [where i = i and x = x and y = y]) (use some in auto)
next
  case (either v i x n b h' y c d)
  show ?case by (rule arg_checked.either [where i = i and x = x and y = y]) (use either in auto)
qed (auto intro: arg_checked.same arg_checked.ref)

lemma arg_checked_accepts: "arg_checked h n h' c v w \<Longrightarrow> accepts h c v"
  by (induction rule: arg_checked.induct) (auto simp: list_all2_conv_all_nth is_int_value_def)

section \<open>Places\<close>

text \<open>The place of a value: an argument on the stack or a variable; and what a checker leaves alone.\<close>

definition at :: "loc \<Rightarrow> ctx \<Rightarrow> vm_value \<Rightarrow> bool" where
  "at l s v \<longleftrightarrow> (\<exists>i. l = LStack i \<and> i < length (stack s) \<and> stack s ! i = v) \<or>
     (\<exists>k. l = LLocal k \<and> k < length (autos s) \<and> autos s ! k = v)"

definition same_but :: "loc \<Rightarrow> ctx \<Rightarrow> ctx \<Rightarrow> bool" where
  "same_but l s t \<longleftrightarrow> stack t = (case l of LStack i \<Rightarrow> (stack s)[i := stack t ! i] | _ \<Rightarrow> stack s) \<and>
     autos t = (case l of LLocal k \<Rightarrow> (autos s)[k := autos t ! k] | _ \<Rightarrow> autos s) \<and>
     rv (regs t) = rv (regs s)"

definition put_at :: "loc \<Rightarrow> vm_value \<Rightarrow> ctx \<Rightarrow> ctx" where
  "put_at l v s = snd (put_loc l v s)"

lemma get_loc_at: "at l s v \<Longrightarrow> get_loc l s = (Done v, s)"
  by (auto simp: at_def run get_auto_def)

lemma put_loc_at: "at l s v \<Longrightarrow> put_loc l w s = (Done (), put_at l w s)"
  by (auto simp: at_def run put_auto_def put_at_def)

lemma put_at_simps:
  assumes "at l s v"
  shows "at l (put_at l w s) w" "heap (put_at l w s) = heap s" "regs (put_at l w s) = regs s" "registered (put_at l w s) = registered s"
    "same_but l s (put_at l w s)"
  using assms by (auto simp: at_def put_at_def run put_auto_def same_but_def)

lemma same_but_refl [simp]: "at l s v \<Longrightarrow> same_but l s s"
  by (auto simp: same_but_def at_def)

lemma same_but_trans: "same_but l s t \<Longrightarrow> same_but l t u \<Longrightarrow> same_but l s u"
  unfolding same_but_def by (cases l) (auto, (metis list_update_overwrite)+)

lemma same_but_fields:
  "same_but l s t \<Longrightarrow> same_but l s (t\<lparr>heap := h\<rparr>)" "same_but l s t \<Longrightarrow> same_but l s (t\<lparr>registered := r\<rparr>)"
  "same_but l s t \<Longrightarrow> same_but l s (t\<lparr>regs := (regs t)\<lparr>gc_tmp_ptr := p\<rparr>\<rparr>)"
  "same_but l s t \<Longrightarrow> same_but l s (t\<lparr>regs := (regs t)\<lparr>cancelation_undo := c\<rparr>\<rparr>)"
  by (auto simp: same_but_def split: loc.splits)

lemma at_fields [simp]: "at l (s\<lparr>heap := h\<rparr>) v = at l s v" "at l (s\<lparr>registered := r\<rparr>) v = at l s v" "at l (s\<lparr>regs := q\<rparr>) v = at l s v"
  by (auto simp: at_def)

definition calm :: "ctx \<Rightarrow> bool" where
  "calm s \<longleftrightarrow> rv_error (rv (regs s)) = ERROR_SUCCESS"

lemma calm_same: "same_but l s t \<Longrightarrow> calm s \<Longrightarrow> calm t"
  by (simp add: same_but_def calm_def)

section \<open>Forcing what is evaluated\<close>

definition forced :: "ctx \<Rightarrow> ctx" where
  "forced s = s\<lparr>regs := (regs s)\<lparr>cancelation_undo := []\<rparr>\<rparr>"

lemma forced_simps [simp]:
  "heap (forced s) = heap s" "registered (forced s) = registered s" "at l (forced s) v = at l s v" "stack (forced s) = stack s" "autos (forced s) = autos s"
  "rv (regs (forced s)) = rv (regs s)"
  by (simp_all add: forced_def)

lemma same_but_forced: "at l s v \<Longrightarrow> same_but l s (forced s)"
  by (auto simp: forced_def same_but_def at_def)

lemma vm_force_evaluated:
  assumes "at l s v" "\<not> is_lazy v" "calm s"
  shows "vm_force E cb l s = (Done 0, forced s)"
proof -
  let ?s = "s\<lparr>regs := (regs s)\<lparr>alf0 := False, alf1 := False, alf_index := 0, cancelation_undo := []\<rparr>\<rparr>"
  have "at l ?s v" using assms(1) by (auto simp: at_def)
  then have "force_value E cb l False ?s = (Done (), ?s)"
    using assms(2) by (simp add: force_value_def run get_loc_at)
  then show ?thesis using assms(3)
    by (simp add: vm_force_def error_code_def force_value_and_interpret_def run reading_regs_def calm_def forced_def)
qed

lemma check_scalar_evaluated:
  assumes "at l s v" "\<not> is_lazy v" "calm s"
  shows "check_scalar E cb p l s = (Done (if p v then 0 else ERROR_INCORRECT_VALUE), forced s)"
  using assms get_loc_at [of l "forced s" v] by (simp add: check_scalar_def run vm_force_evaluated)

lemma cancel_if_unique_at:
  assumes "at l s v" "readable (heap s) v"
  shows "\<exists>w. cancel_if_unique l s = (Done (), put_at l w s) \<and> at l (put_at l w s) w \<and> (w = v \<or> is_ref_value v \<and> w = VCanceled (value_r v))"
proof -
  have u: "value_is_unique (heap s) v \<noteq> None"
    using assms(2) by (cases v) (auto simp: readable_def value_is_unique_def is_ref_value_def)
  then obtain b where b: "value_is_unique (heap s) v = Some b" by auto
  show ?thesis
  proof (cases b)
    case True
    then have v: "v = VRef (value_r v)" using b by (cases v) (auto simp: value_is_unique_def)
    then have "snd (cancel_ref v) = VCanceled (value_r v)" by (metis cancel_ref.simps(1) snd_conv)
    then show ?thesis using b True v assms(1) put_at_simps(1) [OF assms(1)]
      by (auto simp: cancel_if_unique_def run get_loc_at put_loc_at value_is_unique_m_def is_ref_value_def intro!: exI [of _ "VCanceled (value_r v)"])
        (metis value_type.simps(3))
  next
    case False
    have "put_at l v s = s" using assms(1) by (auto simp: at_def put_at_def run put_auto_def)
    then show ?thesis using b False assms(1)
      by (auto simp: cancel_if_unique_def run get_loc_at value_is_unique_m_def intro!: exI [of _ v])
  qed
qed

section \<open>Copying a tuple\<close>

lemma deref_grown: "heap_grown h h' \<Longrightarrow> deref h q = Some ob \<Longrightarrow> deref h' q = Some ob"
  by (cases q) (auto simp: heap_grown_def split: if_splits)

lemma readable_grown: "heap_grown h h' \<Longrightarrow> readable h v \<Longrightarrow> readable h' v"
  by (auto simp: readable_def dest: deref_grown)

lemma shared_tuple_grown: "heap_grown h h' \<Longrightarrow> readable h v \<Longrightarrow> shared_tuple h' v = shared_tuple h v"
  by (cases v; cases "value_r v") (auto simp: shared_tuple_def readable_def is_ref_value_def heap_grown_def split: if_splits)

lemma shared_tuple_Some:
  "shared_tuple h v = Some xs \<longleftrightarrow> (\<exists>a. v = VRef (RAddr a) \<and> a < length h \<and> h ! a = Object False (Tuple xs))"
  by (auto simp: shared_tuple_def split: vm_value.splits ref.splits object.splits body.splits bool.splits if_splits)

lemma tuple_type: "object_type ob = OBJECT_TYPE_TUPLE \<longleftrightarrow> (\<exists>xs. ob = Object False (Tuple xs))"
proof -
  obtain u b where ob: "ob = Object u b" by (cases ob)
  show ?thesis unfolding ob
  proof (cases b)
    case (HashEntry x y z w)
    then show "(object_type (Object u b) = OBJECT_TYPE_TUPLE) = (\<exists>xs. Object u b = Object False (Tuple xs))" by (cases w) simp_all
  qed auto
qed

lemma shared_tuple_deref:
  "is_ref_value v \<Longrightarrow> deref h (value_r v) = Some ob \<Longrightarrow> shared_tuple h v = (if object_type ob = OBJECT_TYPE_TUPLE then Some (case body ob of Tuple xs \<Rightarrow> xs) else None)"
  by (cases v; cases "value_r v") (auto simp: is_ref_value_def shared_tuple_def tuple_type nil_object_def
     split: if_splits object.splits body.splits bool.splits)

definition copied :: "loc \<Rightarrow> vm_value list \<Rightarrow> ctx \<Rightarrow> ctx" where
  "copied l xs s = put_at l (VRef (RAddr (length (heap s))))
     ((with_object (Object False (Tuple xs)) (forced s))\<lparr>registered := registered s @ [RAddr (length (heap s))]\<rparr>)"

lemma at_with_object [simp]: "at l (with_object ob s) v = at l s v"
  by (simp add: with_object_def)

lemma registered_with_object [simp]: "registered (with_object ob s) = registered s"
  by (simp add: with_object_def)

lemma with_object_again: "with_object ob s\<lparr>heap := heap s @ [ob']\<rparr> = with_object ob' s"
  by (simp add: with_object_def)

lemma copied_simps:
  assumes "at l s v"
  shows "at l (copied l xs s) (VRef (RAddr (length (heap s))))" "heap (copied l xs s) = heap s @ [Object False (Tuple xs)]"
    "same_but l s (copied l xs s)"
proof -
  let ?s = "(with_object (Object False (Tuple xs)) (forced s))\<lparr>registered := registered s @ [RAddr (length (heap s))]\<rparr>"
  have at: "at l ?s v" using assms by simp
  have "same_but l s ?s" unfolding with_object_def
    by (intro same_but_fields) (simp add: same_but_fields(1) same_but_forced [OF assms] forced_def [symmetric]
      same_but_fields(3) [OF same_but_fields(1), OF same_but_forced [OF assms], simplified])
  then show "same_but l s (copied l xs s)" unfolding copied_def by (rule same_but_trans [OF _ put_at_simps(5) [OF at]])
  show "at l (copied l xs s) (VRef (RAddr (length (heap s))))" "heap (copied l xs s) = heap s @ [Object False (Tuple xs)]"
    using put_at_simps(1,2) [OF at] by (simp_all add: copied_def)
qed

lemma copy_tuple:
  assumes "at l s v" "shared_tuple (heap s) v = Some xs" "fits OBJECT_TYPE_TUPLE (length xs)"
  shows "copy_to_new E OBJECT_TYPE_TUPLE l (forced s) =
    (if has_memory E OBJECT_TYPE_TUPLE (length xs) (length (heap s)) then (Done True, copied l xs s) else (Done False, forced s))"
proof -
  obtain a where a: "v = VRef (RAddr a)" "a < length (heap s)" "heap s ! a = Object False (Tuple xs)"
    using assms(2) by (auto simp: shared_tuple_Some)
  let ?b = "length (heap s)"
  let ?t = "with_object (Object False (Tuple (replicate (length xs) (VRef RWild)))) (forced s)"
  have new: "gc_new_object E OBJECT_TYPE_TUPLE (of_nat (length xs)) (forced s) =
    (if has_memory E OBJECT_TYPE_TUPLE (length xs) ?b then (Done (Some (RAddr ?b)), ?t) else (Done None, forced s))"
    using new_tuple [of "length xs" E False "forced s"] assms(3) by (simp add: unique_flag_def fits_def)
  have fill: "forM [0..<length xs] (\<lambda>i. bindM (elem_m E (RAddr a) i) (\<lambda>x. set_elem_m E (RAddr ?b) i x)) ?t =
    (Done (), ?t\<lparr>heap := (heap ?t)[?b := Object False (Tuple (map (nth xs) [0..<length xs]))]\<rparr>)" (is "?copy = _")
    by (rule fill_all [where xs = "replicate (length xs) (VRef RWild)"])
      (use a in \<open>simp_all add: elem_m_def deref_m_def run nth_append nth_list_update nth_opt_def set_elem_m_def upd_opt_def put_object_def\<close>)
  then have filled: "?copy = (Done (), with_object (Object False (Tuple xs)) (forced s))"
    by (simp add: map_nth with_object_again [where s = "forced s", simplified])
  have "put_loc l w ((with_object ob (forced s))\<lparr>registered := r\<rparr>) = (Done (), put_at l w ((with_object ob (forced s))\<lparr>registered := r\<rparr>))" for w ob r
    by (rule put_loc_at [where v = v]) (simp add: assms(1))
  then show ?thesis using assms(1) a new filled get_loc_at [of l "forced s" v]
    by (simp add: copy_to_new_def run deref_m_def copied_def)
qed

lemma check_tuple:
  assumes "at l s v" "readable (heap s) v" "calm s" "\<And>xs. shared_tuple (heap s) v = Some xs \<Longrightarrow> fits OBJECT_TYPE_TUPLE (length xs)"
  shows "check_object_value E cb l OBJECT_TYPE_TUPLE True s = (case shared_tuple (heap s) v of
      None \<Rightarrow> (Done (if is_ref_value v then ERROR_INCORRECT_OBJECT else ERROR_INCORRECT_VALUE), forced s)
    | Some xs \<Rightarrow> (if has_memory E OBJECT_TYPE_TUPLE (length xs) (length (heap s)) then (Done 0, copied l xs s) else (Done ERROR_OUT_OF_MEMORY, forced s)))"
proof (cases "is_ref_value v")
  case False
  then have "shared_tuple (heap s) v = None" by (cases v) (auto simp: is_ref_value_def shared_tuple_def)
  with False show ?thesis using assms
    by (simp add: check_object_value_def run check_scalar_evaluated readable_def)
next
  case True
  then obtain ob where ob: "deref (heap s) (value_r v) = Some ob" using assms(2) by (auto simp: readable_def)
  have ft: "at l (forced s) v" "readable (heap (forced s)) v" using assms(1,2) by simp_all
  show ?thesis
  proof (cases "object_type ob = OBJECT_TYPE_TUPLE")
    case False
    then show ?thesis using True assms ob get_loc_at [OF ft(1)]
      by (simp add: check_object_value_def run check_scalar_evaluated readable_def deref_m_def shared_tuple_deref)
  next
    case tup: True
    then obtain xs where xs: "ob = Object False (Tuple xs)" by (auto simp: tuple_type)
    then have sh: "shared_tuple (heap s) v = Some xs" using shared_tuple_deref [OF True ob] by simp
    have "value_is_unique (heap s) v = Some False" using True ob xs by (cases v) (auto simp: value_is_unique_def is_ref_value_def)
    then have "cancel_if_unique l (forced s) = (Done (), forced s)"
      using get_loc_at [OF ft(1)] by (simp add: cancel_if_unique_def run value_is_unique_m_def)
    then show ?thesis using True tup assms(1,2,3) ob get_loc_at [OF ft(1)] sh copy_tuple [OF assms(1) sh assms(4) [OF sh], of E]
      by (simp add: check_object_value_def run check_scalar_evaluated readable_def deref_m_def)
  qed
qed

section \<open>Running a checker\<close>

definition passes :: "env \<Rightarrow> (loc \<Rightarrow> int act) \<Rightarrow> heap \<Rightarrow> checker \<Rightarrow> loc \<Rightarrow> vm_value \<Rightarrow> ctx \<Rightarrow> bool" where
  "passes E f h c l v s \<longleftrightarrow> (\<exists>err t w. f l s = (Done err, t) \<and> heap_grown (heap s) (heap t) \<and> same_but l s t \<and> at l t w \<and>
     (err = 0 \<longrightarrow> arg_checked h (length (heap s)) (heap t) c v w) \<and> (plenty E \<and> accepts h c v \<longrightarrow> err = 0) \<and>
     err \<in> {0, ERROR_INCORRECT_VALUE, ERROR_INCORRECT_OBJECT, ERROR_OUT_OF_MEMORY})"

definition elems_pass :: "env \<Rightarrow> callbacks \<Rightarrow> heap \<Rightarrow> checker list \<Rightarrow> loc \<Rightarrow> nat \<Rightarrow> vm_value list \<Rightarrow> vm_value list \<Rightarrow> ctx \<Rightarrow> bool" where
  "elems_pass E cb h cs l b pre zs s \<longleftrightarrow> (\<exists>err t ys. check_elems_from E cb cs l (length pre) s = (Done err, t) \<and>
     heap_grown_but b (heap s) (heap t) \<and> same_but l s t \<and> at l t (VRef (RAddr b)) \<and>
     heap t ! b = Object False (Tuple (pre @ ys)) \<and> length ys = length cs \<and>
     (err = 0 \<longrightarrow> (\<forall>j<length cs. arg_checked h (Suc b) (heap t) (cs ! j) (zs ! j) (ys ! j))) \<and>
     (plenty E \<and> list_all2 (accepts h) cs zs \<longrightarrow> err = 0) \<and>
     err \<in> {0, ERROR_INCORRECT_VALUE, ERROR_INCORRECT_OBJECT, ERROR_OUT_OF_MEMORY})"

lemma check_elem_run:
  assumes b: "b < length (heap s)" "heap s ! b = Object False (Tuple xs)" "i < length xs"
    and c: "\<And>r. passes E f h c (LLocal (length (autos s))) (xs ! i) (s\<lparr>registered := r, autos := autos s @ [xs ! i]\<rparr>)"
  shows "\<exists>err t w. check_elem E (RAddr b) i f s = (Done err, t) \<and> heap_grown_but b (heap s) (heap t) \<and>
    heap t ! b = Object False (Tuple (xs[i := w])) \<and> stack t = stack s \<and> autos t = autos s \<and> rv (regs t) = rv (regs s) \<and>
    (err = 0 \<longrightarrow> arg_checked h (Suc b) (heap t) c (xs ! i) w) \<and> (plenty E \<and> accepts h c (xs ! i) \<longrightarrow> err = 0) \<and>
    err \<in> {0, ERROR_INCORRECT_VALUE, ERROR_INCORRECT_OBJECT, ERROR_OUT_OF_MEMORY}"
proof -
  let ?l = "LLocal (length (autos s))"
  let ?s = "s\<lparr>registered := registered s @ [lazy_ref (xs ! i)], autos := autos s @ [xs ! i]\<rparr>"
  obtain err t w where t: "f ?l ?s = (Done err, t)" "heap_grown (heap s) (heap t)" "same_but ?l ?s t" "at ?l t w"
      "err = 0 \<longrightarrow> arg_checked h (length (heap s)) (heap t) c (xs ! i) w" "plenty E \<and> accepts h c (xs ! i) \<longrightarrow> err = 0"
      "err \<in> {0, ERROR_INCORRECT_VALUE, ERROR_INCORRECT_OBJECT, ERROR_OUT_OF_MEMORY}"
    using c [of "registered s @ [lazy_ref (xs ! i)]"] by (auto simp: passes_def)
  have tb: "b < length (heap t)" "heap t ! b = Object False (Tuple xs)" using t(2) b by (auto simp: heap_grown_def)
  have autos: "autos t = autos s @ [w]" "stack t = stack s" "rv (regs t) = rv (regs s)"
    using t(3,4) by (auto simp: same_but_def at_def)
  let ?t = "t\<lparr>heap := (heap t)[b := Object False (Tuple (xs[i := w]))], autos := autos s, registered := take (length (registered s)) (registered t)\<rparr>"
  have elem: "elem_m E (RAddr b) i s = (Done (xs ! i), s)"
    using b by (simp add: elem_m_def deref_m_def run nth_opt_def)
  have "check_elem E (RAddr b) i f s = (Done err, ?t)"
    using t(1) tb b(3) elem autos get_loc_at [OF t(4)] set_elem_of_tuple [OF tb b(3), of E w]
    by (simp add: check_elem_def run with_registered_def with_local_def)
  moreover have "heap_grown_but b (heap s) (heap ?t)" using t(2) b by (auto simp: heap_grown_but_def heap_grown_def)
  moreover have "arg_checked h (Suc b) (heap ?t) c (xs ! i) w" if "err = 0"
    by (rule arg_checked_frame [OF t(5) [rule_format, OF that]]) (use b in auto)
  ultimately show ?thesis using t(6,7) tb autos by auto
qed

text \<open>The checkers of tuples go on after the copy was made.\<close>

definition goes_on :: "env \<Rightarrow> (loc \<Rightarrow> int act) \<Rightarrow> heap \<Rightarrow> checker \<Rightarrow> loc \<Rightarrow> vm_value \<Rightarrow> nat \<Rightarrow> ctx \<Rightarrow> bool" where
  "goes_on E f h c l v b s \<longleftrightarrow> (\<exists>err t. f l s = (Done err, t) \<and> heap_grown_but b (heap s) (heap t) \<and> same_but l s t \<and>
     at l t (VRef (RAddr b)) \<and> (err = 0 \<longrightarrow> arg_checked h b (heap t) c v (VRef (RAddr b))) \<and> (plenty E \<and> accepts h c v \<longrightarrow> err = 0) \<and>
     err \<in> {0, ERROR_INCORRECT_VALUE, ERROR_INCORRECT_OBJECT, ERROR_OUT_OF_MEMORY})"

lemma tuple_passes:
  assumes "at l s v" "readable h v" "heap_grown h (heap s)" "calm s"
    and fits: "\<And>xs. shared_tuple h v = Some xs \<Longrightarrow> fits OBJECT_TYPE_TUPLE (length xs)"
    and none: "shared_tuple h v = None \<Longrightarrow> \<not> accepts h c v"
    and some: "\<And>xs s'. shared_tuple h v = Some xs \<Longrightarrow> heap s' = heap s @ [Object False (Tuple xs)] \<Longrightarrow> at l s' (VRef (RAddr (length (heap s)))) \<Longrightarrow>
      calm s' \<Longrightarrow> goes_on E f h c l v (length (heap s)) s'"
  shows "passes E (\<lambda>l. bindM (check_object_value E cb l (OBJECT_TYPE_TUPLE OR unique_flag False) True) (\<lambda>err.
     if err \<noteq> ERROR_SUCCESS then ret err else f l)) h c l v s"
proof -
  have sh: "shared_tuple (heap s) v = shared_tuple h v" by (rule shared_tuple_grown [OF assms(3,2)])
  have ck: "check_object_value E cb l (OBJECT_TYPE_TUPLE OR unique_flag False) True s = (case shared_tuple h v of
      None \<Rightarrow> (Done (if is_ref_value v then ERROR_INCORRECT_OBJECT else ERROR_INCORRECT_VALUE), forced s)
    | Some xs \<Rightarrow> (if has_memory E OBJECT_TYPE_TUPLE (length xs) (length (heap s)) then (Done 0, copied l xs s) else (Done ERROR_OUT_OF_MEMORY, forced s)))"
    using check_tuple [OF assms(1) readable_grown [OF assms(3,2)] assms(4), of E cb] fits unfolding sh by (simp add: unique_flag_def)
  show ?thesis
  proof (cases "shared_tuple h v")
    case None
    with ck none show ?thesis using assms(1) same_but_forced [OF assms(1)] by (auto simp: passes_def run)
  next
    case (Some xs)
    show ?thesis
    proof (cases "has_memory E OBJECT_TYPE_TUPLE (length xs) (length (heap s))")
      case False
      with ck Some fits [OF Some] show ?thesis using assms(1) same_but_forced [OF assms(1)]
        by (auto simp: passes_def run has_memory_def plenty_def fits_def)
    next
      case True
      note cp = copied_simps [OF assms(1), of xs]
      obtain err t where t: "f l (copied l xs s) = (Done err, t)" "heap_grown_but (length (heap s)) (heap (copied l xs s)) (heap t)"
          "same_but l (copied l xs s) t" "at l t (VRef (RAddr (length (heap s))))" "err = 0 \<longrightarrow> arg_checked h (length (heap s)) (heap t) c v (VRef (RAddr (length (heap s))))"
          "plenty E \<and> accepts h c v \<longrightarrow> err = 0" "err \<in> {0, ERROR_INCORRECT_VALUE, ERROR_INCORRECT_OBJECT, ERROR_OUT_OF_MEMORY}"
        using some [OF Some cp(2,1) calm_same [OF cp(3) assms(4)]] by (auto simp: goes_on_def)
      have "heap_grown (heap s) (heap t)" by (rule heap_grown_from_but [OF t(2)]) (simp_all add: cp(2))
      moreover have "same_but l s t" by (rule same_but_trans [OF cp(3) t(3)])
      ultimately show ?thesis using t ck Some True by (auto simp: passes_def run)
    qed
  qed
qed

lemma second_elem:
  assumes s: "b < length (heap s)" "heap s ! b = Object False (Tuple [VInt i, y])" "at l s (VRef (RAddr b))"
    and c: "\<And>r. passes E f h c (LLocal (length (autos s))) y (s\<lparr>registered := r, autos := autos s @ [y]\<rparr>)"
  shows "\<exists>err t w. check_elem E (RAddr b) 1 f s = (Done err, t) \<and> heap_grown_but b (heap s) (heap t) \<and> same_but l s t \<and> at l t (VRef (RAddr b)) \<and>
    b < length (heap t) \<and> heap t ! b = Object False (Tuple [VInt i, w]) \<and> (err = 0 \<longrightarrow> arg_checked h (Suc b) (heap t) c y w) \<and>
    (plenty E \<and> accepts h c y \<longrightarrow> err = 0) \<and> err \<in> {0, ERROR_INCORRECT_VALUE, ERROR_INCORRECT_OBJECT, ERROR_OUT_OF_MEMORY}"
proof -
  have "\<And>r. passes E f h c (LLocal (length (autos s))) ([VInt i, y] ! 1) (s\<lparr>registered := r, autos := autos s @ [[VInt i, y] ! 1]\<rparr>)"
    using c by simp
  from check_elem_run [OF s(1,2) _ this] obtain err t w where t: "check_elem E (RAddr b) 1 f s = (Done err, t)" "heap_grown_but b (heap s) (heap t)"
      "heap t ! b = Object False (Tuple [VInt i, w])" "stack t = stack s" "autos t = autos s" "rv (regs t) = rv (regs s)"
      "err = 0 \<longrightarrow> arg_checked h (Suc b) (heap t) c y w" "plenty E \<and> accepts h c y \<longrightarrow> err = 0"
      "err \<in> {0, ERROR_INCORRECT_VALUE, ERROR_INCORRECT_OBJECT, ERROR_OUT_OF_MEMORY}"
    by auto
  have "same_but l s t" using same_but_refl [OF s(3)] unfolding same_but_def t(4,5,6) .
  moreover have "at l t (VRef (RAddr b))" using s(3) t(4,5) by (auto simp: at_def)
  moreover have "b < length (heap t)" using t(2) s(1) by (simp add: heap_grown_but_def)
  ultimately show ?thesis using t by blast
qed

lemma elems_pass_Cons:
  assumes c: "\<And>l v s. settled h c v \<Longrightarrow> heap_grown h (heap s) \<Longrightarrow> at l s v \<Longrightarrow> calm s \<Longrightarrow> passes E (check_value E cb c) h c l v s"
    and cs: "\<And>pre s. length zs = length cs \<Longrightarrow> list_all2 (settled h) cs zs \<Longrightarrow> heap_grown h (heap s) \<Longrightarrow> length h \<le> b \<Longrightarrow> b < length (heap s) \<Longrightarrow>
      heap s ! b = Object False (Tuple (pre @ zs)) \<Longrightarrow> at l s (VRef (RAddr b)) \<Longrightarrow> calm s \<Longrightarrow> elems_pass E cb h cs l b pre zs s"
    and zs: "list_all2 (settled h) (c # cs) (z # zs)" and g: "heap_grown h (heap s)" "length h \<le> b" "b < length (heap s)"
    and hb: "heap s ! b = Object False (Tuple (pre @ z # zs))" and at: "at l s (VRef (RAddr b))" and "calm s"
  shows "elems_pass E cb h (c # cs) l b pre (z # zs) s"
proof -
  have len: "length zs = length cs" using zs by (auto dest: list_all2_lengthD)
  have "passes E (check_value E cb c) h c (LLocal (length (autos s))) ((pre @ z # zs) ! length pre)
      (s\<lparr>registered := r, autos := autos s @ [(pre @ z # zs) ! length pre]\<rparr>)" for r
    by (rule c) (use zs g(1) \<open>calm s\<close> in \<open>simp_all add: at_def calm_def\<close>)
  from check_elem_run [OF g(3) hb _ this] obtain err t w where t: "check_elem E (RAddr b) (length pre) (check_value E cb c) s = (Done err, t)"
      "heap_grown_but b (heap s) (heap t)" "heap t ! b = Object False (Tuple (pre @ w # zs))" "stack t = stack s" "autos t = autos s" "rv (regs t) = rv (regs s)"
      "err = 0 \<longrightarrow> arg_checked h (Suc b) (heap t) c z w" "plenty E \<and> accepts h c z \<longrightarrow> err = 0"
      "err \<in> {0, ERROR_INCORRECT_VALUE, ERROR_INCORRECT_OBJECT, ERROR_OUT_OF_MEMORY}"
    by (auto simp: nth_append)
  have at_t: "at l t (VRef (RAddr b))" using at t(4,5) by (auto simp: at_def)
  have same: "same_but l s t" using same_but_refl [OF at] unfolding same_but_def t(4,5,6) .
  have step: "check_elems_from E cb (c # cs) l (length pre) s =
      (if err \<noteq> 0 then (Done err, t) else check_elems_from E cb cs l (Suc (length pre)) t)"
    using t(1) get_loc_at [OF at] by (simp add: run)
  show ?thesis
  proof (cases "err = 0")
    case False
    with t at_t same step len show ?thesis unfolding elems_pass_def by (auto intro!: exI [of _ "w # zs"])
  next
    case True
    have "elems_pass E cb h cs l b (pre @ [w]) zs t"
    proof (rule cs [OF len])
      show "list_all2 (settled h) cs zs" using zs by simp
      show "heap_grown h (heap t)" by (rule heap_grown_from_but [OF t(2) g(1,2)])
      show "b < length (heap t)" using t(2) g(3) by (simp add: heap_grown_but_def)
      show "calm t" using \<open>calm s\<close> t(6) by (simp add: calm_def)
    qed (use t(3) at_t g(2) in simp_all)
    then obtain err' t' ys where t': "check_elems_from E cb cs l (Suc (length pre)) t = (Done err', t')" "heap_grown_but b (heap t) (heap t')"
        "same_but l t t'" "at l t' (VRef (RAddr b))" "heap t' ! b = Object False (Tuple (pre @ w # ys))" "length ys = length cs"
        "err' = 0 \<longrightarrow> (\<forall>j<length cs. arg_checked h (Suc b) (heap t') (cs ! j) (zs ! j) (ys ! j))"
        "plenty E \<and> list_all2 (accepts h) cs zs \<longrightarrow> err' = 0" "err' \<in> {0, ERROR_INCORRECT_VALUE, ERROR_INCORRECT_OBJECT, ERROR_OUT_OF_MEMORY}"
      by (auto simp: elems_pass_def)
    have "arg_checked h (Suc b) (heap t') c z w"
      by (rule arg_checked_frame [OF t(7) [rule_format, OF True]]) (use t'(2) in \<open>auto simp: heap_grown_but_def\<close>)
    then have "\<forall>j<length (c # cs). arg_checked h (Suc b) (heap t') ((c # cs) ! j) ((z # zs) ! j) ((w # ys) ! j)" if "err' = 0"
      using t'(7) that by (auto simp: nth_Cons')
    moreover have "heap_grown_but b (heap s) (heap t')" "same_but l s t'"
      using heap_grown_but_trans [OF t(2) t'(2)] same_but_trans [OF same t'(3)] by simp_all
    ultimately show ?thesis using t' step True t(8) unfolding elems_pass_def
      by (auto intro!: exI [of _ "w # ys"])
  qed
qed

lemma ref_passes:
  assumes "settled h c v" "heap_grown h (heap s)" "at l s v" "c = CRef \<or> c = CObject k" "is_ref_value v" "accepts h c v"
    and "f l s = seqM (cancel_if_unique l) (ret 0) (forced s)"
  shows "passes E f h c l v s"
proof -
  have "readable (heap (forced s)) v" using readable_grown [OF assms(2)] assms(1,4) by auto
  then obtain w where w: "cancel_if_unique l (forced s) = (Done (), put_at l w (forced s))" "at l (put_at l w (forced s)) w"
      "w = v \<or> w = VCanceled (value_r v)"
    using cancel_if_unique_at [of l "forced s" v] assms(3) by auto
  have v: "v = VRef (value_r v)" using assms(5) by (cases v) (auto simp: is_ref_value_def split: if_splits)
  have ft: "at l (forced s) v" using assms(3) by simp
  have "same_but l s (put_at l w (forced s))"
    by (rule same_but_trans [OF same_but_forced [OF assms(3)] put_at_simps(5) [OF ft]])
  moreover have "arg_checked h n h' c v w" for n h'
    by (subst v, rule arg_checked.ref [OF assms(4)]) (use assms(6) w(3) v in auto)
  ultimately show ?thesis using w(1,2) put_at_simps(2) [OF ft, of w] unfolding passes_def assms(7) by (auto simp: run)
qed

lemma check_runs:
  "plain_checker c \<Longrightarrow> settled h c v \<Longrightarrow> heap_grown h (heap s) \<Longrightarrow> at l s v \<Longrightarrow> calm s \<Longrightarrow> passes E (check_value E cb c) h c l v s"
  "\<forall>c\<in>set cs. plain_checker c \<Longrightarrow> list_all2 (settled h) cs zs \<Longrightarrow> heap_grown h (heap s) \<Longrightarrow> length h \<le> b \<Longrightarrow> b < length (heap s) \<Longrightarrow>
    heap s ! b = Object False (Tuple (pre @ zs)) \<Longrightarrow> at l s (VRef (RAddr b)) \<Longrightarrow> calm s \<Longrightarrow> elems_pass E cb h cs l b pre zs s"
proof (induction E cb c and E cb cs arbitrary: l v s and l b pre zs s rule: check_value_check_elems_from.induct)
  case (1 E cb l v s)
  then show ?case using same_but_forced [of l s v]
    by (auto simp: passes_def check_int_value_def check_scalar_evaluated readable_def intro!: exI [of _ v] arg_checked.same)
next
  case (2 E cb l v s)
  then show ?case using same_but_forced [of l s v]
    by (auto simp: passes_def check_float_value_def check_scalar_evaluated readable_def intro!: exI [of _ v] arg_checked.same)
next
  case (3 E cb l v s)
  then have ck: "check_value E cb CRef l s = (if is_ref_value v then seqM (cancel_if_unique l) (ret 0) (forced s) else (Done ERROR_INCORRECT_VALUE, forced s))"
    by (simp add: check_ref_value_def bindM_run check_scalar_evaluated readable_def ret_run)
  show ?case
  proof (cases "is_ref_value v")
    case True
    show ?thesis by (rule ref_passes [where k = 0]) (use 3 True ck in simp_all)
  next
    case False
    with 3 ck show ?thesis using same_but_forced [of l s v] by (auto simp: passes_def)
  qed
next
  case (4 E cb t l v s)
  obtain ob where ob: "is_ref_value v \<Longrightarrow> deref h (value_r v) = Some ob" using 4 by (auto simp: readable_def)
  have ck: "check_value E cb (CObject t) l s = (if is_ref_value v
      then (if object_type ob = t then seqM (cancel_if_unique l) (ret 0) (forced s) else (Done ERROR_INCORRECT_OBJECT, forced s))
      else (Done ERROR_INCORRECT_VALUE, forced s))"
    using 4 get_loc_at [of l "forced s" v] deref_grown [OF 4(3) ob]
    by (simp add: check_object_value_def bindM_run check_scalar_evaluated readable_def ret_run deref_m_def)
  show ?case
  proof (cases "is_ref_value v \<and> object_type ob = t")
    case True
    show ?thesis by (rule ref_passes [where k = t]) (use 4 True ck ob in simp_all)
  next
    case False
    with 4 ck ob show ?thesis using same_but_forced [of l s v] by (auto simp: passes_def)
  qed
next
  case (5 E cb l v s)
  then show ?case using same_but_forced [of l s v]
    by (auto simp: passes_def vm_force_evaluated readable_def intro!: exI [of _ v] arg_checked.same)
next
  case (6 E cb l v s)
  then show ?case by (auto simp: passes_def run intro!: exI [of _ v] arg_checked.same)
next
  case (7 E cb u cs l v s)
  then have u: "u = False" and cs: "\<forall>c\<in>set cs. plain_checker c" and r: "readable h v" by auto
  show ?case unfolding u check_value.simps
  proof (rule tuple_passes)
    fix xs s' assume xs: "shared_tuple h v = Some xs" "heap s' = heap s @ [Object False (Tuple xs)]" "at l s' (VRef (RAddr (length (heap s))))" "calm s'"
    let ?b = "length (heap s)"
    have start: "get_loc l s' = (Done (VRef (RAddr ?b)), s')" by (rule get_loc_at [OF xs(3)])
    show "goes_on E (\<lambda>l. bindM (get_loc l) (\<lambda>v. bindM (deref_m (value_r v)) (\<lambda>ob.
        if object_length ob \<noteq> length cs then ret ERROR_INCORRECT_OBJECT else check_elems_from E cb cs l 0))) h (CTuple False cs) l v ?b s'"
    proof (cases "length xs = length cs")
      case False
      with xs start show ?thesis by (auto simp: goes_on_def run deref_m_def)
    next
      case True
      have "elems_pass E cb h cs l ?b [] xs s'"
      proof (rule 7(1) [of 0 "Object False (Tuple xs)"])
        show "list_all2 (settled h) cs xs" using 7(3) xs(1) True by (simp add: u)
        show "heap_grown h (heap s')" by (rule heap_grown_trans [OF 7(4)]) (simp add: xs(2))
        show "length h \<le> ?b" using 7(4) by (simp add: heap_grown_def)
      qed (use xs cs True in simp_all)
      then show ?thesis using xs start True
        by (auto simp: goes_on_def elems_pass_def run deref_m_def heap_grown_but_def intro!: arg_checked.tuple)
    qed
  qed (use 7 r in \<open>auto simp: u\<close>)
next
  case (8 E cb u c l v s)
  then have u: "u = False" and c: "plain_checker c" and r: "readable h v" by auto
  show ?case unfolding u check_value.simps
  proof (rule tuple_passes)
    fix xs s' assume xs: "shared_tuple h v = Some xs" "heap s' = heap s @ [Object False (Tuple xs)]" "at l s' (VRef (RAddr (length (heap s))))" "calm s'"
    let ?b = "length (heap s)"
    have start: "get_loc l s' = (Done (VRef (RAddr ?b)), s')" by (rule get_loc_at [OF xs(3)])
    show "goes_on E (\<lambda>l. bindM (get_loc l) (\<lambda>v. bindM (option_case E (value_r v)) (\<lambda>k. case k of None \<Rightarrow> ret ERROR_INCORRECT_OBJECT
        | Some None \<Rightarrow> ret ERROR_SUCCESS | Some (Some _) \<Rightarrow> check_elem E (value_r v) 1 (check_value E cb c)))) h (COption False c) l v ?b s'"
    proof (cases "\<exists>i y. xs = [VInt i, y]")
      case True
      then obtain i y where iy: "xs = [VInt i, y]" by blast
      have "passes E (check_value E cb c) h c (LLocal (length (autos s'))) y (s'\<lparr>registered := r, autos := autos s' @ [y]\<rparr>)" for r
        by (rule 8(1) [of 0]) (use 8(3,4) xs iy c heap_grown_trans [OF 8(4), of "heap s'"] in \<open>simp_all add: u at_def calm_def\<close>)
      from second_elem [OF _ _ xs(3) this, of i] obtain err t w where t: "check_elem E (RAddr ?b) 1 (check_value E cb c) s' = (Done err, t)"
          "heap_grown_but ?b (heap s') (heap t)" "same_but l s' t" "at l t (VRef (RAddr ?b))" "?b < length (heap t)" "heap t ! ?b = Object False (Tuple [VInt i, w])"
          "err = 0 \<longrightarrow> arg_checked h (Suc ?b) (heap t) c y w" "plenty E \<and> accepts h c y \<longrightarrow> err = 0"
          "err \<in> {0, ERROR_INCORRECT_VALUE, ERROR_INCORRECT_OBJECT, ERROR_OUT_OF_MEMORY}"
        using xs(2) iy by auto
      have "arg_checked h ?b (heap t) (COption False c) v (VRef (RAddr ?b))" if "err = 0"
        by (rule arg_checked.some [where i = i and x = y and y = w]) (use t xs(1) iy that in auto)
      with t start xs iy show ?thesis
        by (auto simp: goes_on_def run option_case_def deref_m_def elem_m_def nth_opt_def is_int_value_def)
    next
      case no: False
      show ?thesis
      proof (cases "xs = [VInt 0]")
        case True
        with start xs show ?thesis
          by (auto simp: goes_on_def run option_case_def deref_m_def elem_m_def nth_opt_def intro!: arg_checked.none)
      next
        case False
        have "\<not> is_int_value (xs ! 0)" if "length xs = 2"
          using no that by (cases xs; cases "hd xs"; cases "tl xs") (auto simp: is_int_value_def split: if_splits)
        with False start xs show ?thesis
          by (cases xs; cases "tl xs") (auto simp: goes_on_def run option_case_def deref_m_def elem_m_def nth_opt_def)
      qed
    qed
  qed (use 8 r in \<open>auto simp: u\<close>)
next
  case (9 E cb u c d l v s)
  then have u: "u = False" and cd: "plain_checker c" "plain_checker d" and r: "readable h v" by auto
  show ?case unfolding u check_value.simps
  proof (rule tuple_passes)
    fix xs s' assume xs: "shared_tuple h v = Some xs" "heap s' = heap s @ [Object False (Tuple xs)]" "at l s' (VRef (RAddr (length (heap s))))" "calm s'"
    let ?b = "length (heap s)"
    have start: "get_loc l s' = (Done (VRef (RAddr ?b)), s')" by (rule get_loc_at [OF xs(3)])
    show "goes_on E (\<lambda>l. bindM (get_loc l) (\<lambda>v. bindM (either_case E (value_r v)) (\<lambda>k. case k of None \<Rightarrow> ret ERROR_INCORRECT_OBJECT
        | Some i \<Rightarrow> check_elem E (value_r v) 1 (if i = 0 then check_value E cb c else check_value E cb d)))) h (CEither False c d) l v ?b s'"
    proof (cases "\<exists>i y. xs = [VInt i, y]")
      case True
      then obtain i y where iy: "xs = [VInt i, y]" by blast
      let ?f = "if i = 0 then check_value E cb c else check_value E cb d"
      have "passes E ?f h (if i = 0 then c else d) (LLocal (length (autos s'))) y (s'\<lparr>registered := r, autos := autos s' @ [y]\<rparr>)" for r
      proof (cases "i = 0")
        case True
        have "passes E (check_value E cb c) h c (LLocal (length (autos s'))) y (s'\<lparr>registered := r, autos := autos s' @ [y]\<rparr>)"
          by (rule 9(1) [of 0]) (use 9(4,5) xs iy cd True heap_grown_trans [OF 9(5), of "heap s'"] in \<open>simp_all add: u at_def calm_def\<close>)
        with True show ?thesis by simp
      next
        case False
        have "passes E (check_value E cb d) h d (LLocal (length (autos s'))) y (s'\<lparr>registered := r, autos := autos s' @ [y]\<rparr>)"
          by (rule 9(2) [of 0 1]) (use 9(4,5) xs iy cd False heap_grown_trans [OF 9(5), of "heap s'"] in \<open>simp_all add: u at_def calm_def\<close>)
        with False show ?thesis by simp
      qed
      from second_elem [OF _ _ xs(3) this, of i] obtain err t w where t: "check_elem E (RAddr ?b) 1 ?f s' = (Done err, t)"
          "heap_grown_but ?b (heap s') (heap t)" "same_but l s' t" "at l t (VRef (RAddr ?b))" "?b < length (heap t)" "heap t ! ?b = Object False (Tuple [VInt i, w])"
          "err = 0 \<longrightarrow> arg_checked h (Suc ?b) (heap t) (if i = 0 then c else d) y w" "plenty E \<and> accepts h (if i = 0 then c else d) y \<longrightarrow> err = 0"
          "err \<in> {0, ERROR_INCORRECT_VALUE, ERROR_INCORRECT_OBJECT, ERROR_OUT_OF_MEMORY}"
        using xs(2) iy by auto
      have "arg_checked h ?b (heap t) (CEither False c d) v (VRef (RAddr ?b))" if "err = 0"
        by (rule arg_checked.either [where i = i and x = y and y = w]) (use t xs(1) iy that in auto)
      with t start xs iy show ?thesis
        by (cases "i = 0") (simp_all add: goes_on_def run either_case_def deref_m_def elem_m_def nth_opt_def is_int_value_def)
    next
      case no: False
      have "\<not> is_int_value (xs ! 0)" if "length xs = 2"
        using no that by (cases xs; cases "hd xs"; cases "tl xs") (auto simp: is_int_value_def split: if_splits)
      with start xs show ?thesis
        by (cases xs; cases "tl xs") (auto simp: goes_on_def run either_case_def deref_m_def elem_m_def nth_opt_def is_int_value_def)
    qed
  qed (use 9 r in \<open>auto simp: u\<close>)
next
  case (12 E cb l b pre zs s)
  then show ?case by (auto simp: elems_pass_def run)
next
  case (13 E cb c cs l b pre zs s)
  obtain z zs' where z: "zs = z # zs'" using 13 by (cases zs) auto
  show ?case unfolding z
    by (rule elems_pass_Cons) (use 13 z in \<open>auto\<close>)
qed simp_all

section \<open>Converting what was arg_checked\<close>

text \<open>The converter reads what the checker has made sure of.\<close>

fun reads :: "'x converter \<Rightarrow> checker \<Rightarrow> bool" where
  "reads ToNothing c \<longleftrightarrow> True"
| "reads ToInt CInt \<longleftrightarrow> True"
| "reads (ToIntFun f) CInt \<longleftrightarrow> True"
| "reads ToFloat CFloat \<longleftrightarrow> True"
| "reads (ToFloatFun f) CFloat \<longleftrightarrow> True"
| "reads ToRef CRef \<longleftrightarrow> True"
| "reads ToRef (CObject t) \<longleftrightarrow> True"
| "reads (ToRefFun f) CRef \<longleftrightarrow> True"
| "reads (ToRefFun f) (CObject t) \<longleftrightarrow> True"
| "reads (ToObjectFun f) CRef \<longleftrightarrow> True"
| "reads (ToObjectFun f) (CObject t) \<longleftrightarrow> True"
| "reads ToString (CObject t) \<longleftrightarrow> type_kind t = OBJECT_TYPE_IARRAY8"
| "reads (ToTuple vs) (CTuple u cs) \<longleftrightarrow> list_all2 reads vs cs"
| "reads (ToOption v) (COption u c) \<longleftrightarrow> reads v c"
| "reads (ToEither v w) (CEither u c d) \<longleftrightarrow> reads v c \<and> reads w d"
| "reads _ _ \<longleftrightarrow> False"

text \<open>The conversion is defined and gives the same result, or the same refusal, before and after the check.\<close>

definition agree :: "(heap, 'a) m \<Rightarrow> heap \<Rightarrow> (heap, 'a) m \<Rightarrow> heap \<Rightarrow> bool" where
  "agree f h g h' \<longleftrightarrow> (\<exists>r. f h = (r, h) \<and> g h' = (r, h') \<and> (r = Failed \<or> (\<exists>x. r = Done x)))"

lemma agree_ret: "agree (ret x) h (ret x) h'" by (auto simp: agree_def run)
lemma agree_fun_read: "agree (fun_read x) h (fun_read x) h'" by (auto simp: agree_def fun_read_def run split: option.splits)
lemma agree_bindM:
  assumes "agree f h g h'" and "\<And>x. f h = (Done x, h) \<Longrightarrow> g h' = (Done x, h') \<Longrightarrow> agree (k x) h (l x) h'"
  shows "agree (bindM f k) h (bindM g l) h'"
proof -
  obtain r where r: "f h = (r, h)" "g h' = (r, h')" "r = Failed \<or> (\<exists>x. r = Done x)" using assms(1) by (auto simp: agree_def)
  then show ?thesis using assms(2) by (auto simp: agree_def run)
qed

lemma agree_elem:
  assumes "deref h (value_r v) = Some (Object False (Tuple xs))" "deref h' (value_r w) = Some (Object False (Tuple ys))"
    "i < length xs" "length ys = length xs" "agree (k (xs ! i)) h (l (ys ! i)) h'"
  shows "agree (bindM (value_elem_at F v i) k) h (bindM (value_elem_at F w i) l) h'"
  using assms by (auto simp: agree_def value_elem_at_def object_at_def run nth_opt_def)

lemma agree_elems:
  assumes d: "deref h (value_r v) = Some (Object False (Tuple xs))" "deref h' (value_r w) = Some (Object False (Tuple ys))" "length ys = length xs"
  shows "j + length cs = length xs \<Longrightarrow> \<forall>i<length cs. agree (convert F (cs ! i) (xs ! (j + i))) h (convert F (cs ! i) (ys ! (j + i))) h' \<Longrightarrow>
    agree (convert_elems_from F cs v j) h (convert_elems_from F cs w j) h'"
proof (induction cs arbitrary: j)
  case (Cons c cs)
  have rest: "agree (convert_elems_from F cs v (Suc j)) h (convert_elems_from F cs w (Suc j)) h'"
    by (rule Cons.IH) (use Cons.prems in \<open>auto simp: nth_Cons' all_conj_distrib less_Suc_eq_0_disj\<close>)
  have first: "agree (convert F c (xs ! j)) h (convert F c (ys ! j)) h'" using Cons.prems(2) by (metis add.right_neutral length_greater_0_conv list.discI nth_Cons_0)
  show ?case
    by (simp, rule agree_elem [OF d(1,2)]) (use Cons.prems(1) d(3) in \<open>auto intro!: agree_bindM [OF first] agree_bindM [OF rest] agree_ret\<close>)
qed (simp add: agree_ret)

lemma iarray8_type:
  assumes "type_kind (object_type ob) = OBJECT_TYPE_IARRAY8"
  shows "\<exists>xs. body ob = IArray8 xs"
proof -
  obtain u b where ob: "ob = Object u b" by (cases ob)
  show ?thesis
  proof (cases b)
    case (HashEntry x y z w)
    then show ?thesis using assms unfolding ob by (cases w; cases u) (simp_all add: type_kind_def)
  qed (use assms ob in \<open>cases u; simp add: type_kind_def\<close>)+
qed

lemma arg_checked_converts:
  "arg_checked h n h' c v w \<Longrightarrow> settled h c v \<Longrightarrow> heap_grown h h' \<Longrightarrow> reads cv c \<Longrightarrow> agree (convert F (cv :: 'x converter) v) h (convert F cv w) h'"
proof (induction arbitrary: cv rule: arg_checked.induct)
  case (same c v n h')
  then show ?case by (cases cv; cases c) (auto intro: agree_ret agree_fun_read)
next
  case (ref c k q w n h')
  have r: "value_r w = q" using ref(3) by auto
  obtain ob where ob: "deref h q = Some ob" using ref(1,4) by (auto simp: readable_def is_ref_value_def)
  have ob': "deref h' q = Some ob" by (rule deref_grown [OF ref(5) ob])
  have obj: "agree (object_at (VRef q)) h (object_at w) h'" using ob ob' r by (simp add: agree_def object_at_def)
  have "agree (string_at (VRef q)) h (string_at w) h'" if ck: "c = CObject k" "type_kind k = OBJECT_TYPE_IARRAY8"
  proof -
    have "object_type ob = k" using ref(2) ob ck(1) by simp
    then obtain xs where "body ob = IArray8 xs" using iarray8_type ck(2) by blast
    then show ?thesis using ob ob' r by (simp add: agree_def string_at_def object_at_def run)
  qed
  then show ?case using ref(1,6) r obj
    by (cases cv) (auto intro!: agree_ret agree_fun_read agree_bindM [OF obj] agree_bindM)
next
  case (tuple v xs n b h' ys cs)
  show ?case
  proof (cases cv)
    case (ToTuple cvs)
    then have cvs: "list_all2 reads cvs cs" using tuple.prems(3) by simp
    have "agree (convert F (cvs ! i) (xs ! i)) h (convert F (cvs ! i) (ys ! i)) h'" if "i < length cvs" for i
      using tuple.IH tuple.prems(1,2) tuple.hyps cvs that by (auto simp: list_all2_conv_all_nth)
    moreover obtain a where "v = VRef (RAddr a)" "a < length h" "h ! a = Object False (Tuple xs)" using tuple.hyps(1) by (auto simp: shared_tuple_Some)
    ultimately have "agree (convert_elems_from F cvs v 0) h (convert_elems_from F cvs (VRef (RAddr b)) 0) h'"
      using tuple.hyps cvs by (intro agree_elems [where xs = xs and ys = ys]) (auto simp: list_all2_lengthD)
    then show ?thesis unfolding ToTuple by (auto intro!: agree_bindM agree_ret)
  qed (use tuple.prems in \<open>auto intro: agree_ret\<close>)
next
  case (none v n b h' c)
  obtain a where "v = VRef (RAddr a)" "a < length h" "h ! a = Object False (Tuple [VInt 0])" using none.hyps(1) by (auto simp: shared_tuple_Some)
  then show ?case using none
    by (cases cv) (auto intro!: agree_ret agree_elem [where xs = "[VInt 0]" and ys = "[VInt 0]"])
next
  case (some v i x n b h' y c)
  obtain a where "v = VRef (RAddr a)" "a < length h" "h ! a = Object False (Tuple [VInt i, x])" using some.hyps(1) by (auto simp: shared_tuple_Some)
  then show ?case using some
    by (cases cv) (auto intro!: agree_ret agree_elem [where xs = "[VInt i, x]" and ys = "[VInt i, y]"] agree_bindM [OF some.IH])
next
  case (either v i x n b h' y c d)
  obtain a where a: "v = VRef (RAddr a)" "a < length h" "h ! a = Object False (Tuple [VInt i, x])" using either.hyps(1) by (auto simp: shared_tuple_Some)
  have IH: "agree (convert F cv x) h (convert F cv y) h'" if "reads cv (if i = 0 then c else d)" for cv :: "'x converter"
    by (rule either.IH) (use either.hyps(1) either.prems(1,2) that in \<open>auto split: if_splits\<close>)
  show ?case
  proof (cases "i = 0")
    case True
    show ?thesis using a either True IH
      by (cases cv) (auto intro!: agree_ret agree_elem [where xs = "[VInt i, x]" and ys = "[VInt i, y]"] agree_bindM [OF IH])
  next
    case False
    show ?thesis using a either False IH
      by (cases cv) (auto intro!: agree_ret agree_elem [where xs = "[VInt i, x]" and ys = "[VInt i, y]"] agree_bindM [OF IH])
  qed
qed

end
