(* ===== verification/Native_Args.thy ===== *)
theory Native_Args
  imports Native_Checked
begin

text \<open>
  Checking the arguments of a native function and then converting them.
\<close>

section \<open>Arguments\<close>

definition args_at :: "nat \<Rightarrow> nat \<Rightarrow> ctx \<Rightarrow> vm_value list" where
  "args_at base n s = take n (drop base (stack s))"

lemma check_args_from_runs:
  assumes "\<forall>c\<in>set cs. plain_checker c" "list_all2 (settled h) cs vs"
    and "heap_grown h (heap s)" "calm s" "base + i + length vs \<le> length (stack s)" "args_at (base + i) (length vs) s = vs"
  shows "\<exists>err t ws. check_args_from E cb base i cs s = (Done err, t) \<and> heap_grown (heap s) (heap t) \<and> length (stack t) = length (stack s) \<and>
    (\<forall>j. j < base + i \<longrightarrow> stack t ! j = stack s ! j) \<and> args_at (base + i) (length vs) t = ws \<and>
    (err = 0 \<longrightarrow> list_all2 (\<lambda>c (v, w). arg_checked h (length h) (heap t) c v w) cs (zip vs ws)) \<and>
    (plenty E \<and> list_all2 (accepts h) cs vs \<longrightarrow> err = 0) \<and>
    err \<in> {0, ERROR_INCORRECT_VALUE, ERROR_INCORRECT_OBJECT, ERROR_OUT_OF_MEMORY}"
  using assms
proof (induction cs arbitrary: vs s i)
  case Nil
  then show ?case by (auto simp: run args_at_def)
next
  case (Cons c cs)
  obtain v vs' where v: "vs = v # vs'" using Cons.prems(2) by (cases vs) auto
  let ?l = "LStack (base + i)"
  have len: "base + i < length (stack s)" using Cons.prems(5) v by simp
  then have "drop (base + i) (stack s) = stack s ! (base + i) # drop (base + Suc i) (stack s)" by (simp add: Cons_nth_drop_Suc)
  then have here: "base + i < length (stack s)" "stack s ! (base + i) = v" "args_at (base + Suc i) (length vs') s = vs'"
    using Cons.prems(6) len by (simp_all add: v args_at_def)
  have "passes E (check_value E cb c) h c ?l v s"
    by (rule check_runs(1)) (use Cons.prems(1,2,3,4) here v in \<open>simp_all add: at_def\<close>)
  then obtain err t w where t: "check_value E cb c ?l s = (Done err, t)" "heap_grown (heap s) (heap t)" "same_but ?l s t" "at ?l t w"
      "err = 0 \<longrightarrow> arg_checked h (length (heap s)) (heap t) c v w" "plenty E \<and> accepts h c v \<longrightarrow> err = 0"
      "err \<in> {0, ERROR_INCORRECT_VALUE, ERROR_INCORRECT_OBJECT, ERROR_OUT_OF_MEMORY}"
    by (auto simp: passes_def)
  let ?t = "t\<lparr>registered := take (length (registered s)) (registered t)\<rparr>"
  have st: "stack t = (stack s)[base + i := w]" using t(3,4) by (auto simp: same_but_def at_def)
  have step: "check_args_from E cb base i (c # cs) s = (if err \<noteq> 0 then (Done err, ?t) else check_args_from E cb base (Suc i) cs ?t)"
    using t(1) by (simp add: run with_registered_def)
  have args_t: "args_at (base + Suc i) (length vs') ?t = vs'" using here(3) by (simp add: args_at_def st)
  show ?case
  proof (cases "err = 0")
    case False
    with step t st show ?thesis by (auto simp: v)
  next
    case True
    have "heap_grown h (heap ?t)" using heap_grown_trans [OF Cons.prems(3) t(2)] by simp
    moreover have "calm ?t" using calm_same [OF t(3) Cons.prems(4)] by (simp add: calm_def)
    moreover have "\<forall>c\<in>set cs. plain_checker c" "list_all2 (settled h) cs vs'" "base + Suc i + length vs' \<le> length (stack ?t)"
      using Cons.prems(1,2,5) v st by simp_all
    ultimately obtain err' t' ws where t': "check_args_from E cb base (Suc i) cs ?t = (Done err', t')" "heap_grown (heap t) (heap t')"
        "length (stack t') = length (stack t)" "\<forall>j. j < base + Suc i \<longrightarrow> stack t' ! j = stack t ! j" "args_at (base + Suc i) (length vs') t' = ws"
        "err' = 0 \<longrightarrow> list_all2 (\<lambda>c (v, w). arg_checked h (length h) (heap t') c v w) cs (zip vs' ws)"
        "plenty E \<and> list_all2 (accepts h) cs vs' \<longrightarrow> err' = 0" "err' \<in> {0, ERROR_INCORRECT_VALUE, ERROR_INCORRECT_OBJECT, ERROR_OUT_OF_MEMORY}"
      using Cons.IH [of vs' ?t "Suc i"] args_t by auto
    have "arg_checked h (length h) (heap t') c v w"
      by (rule arg_checked_frame [OF t(5) [rule_format, OF True]]) (use t'(2) Cons.prems(3) in \<open>auto simp: heap_grown_def\<close>)
    moreover have "args_at (base + i) (length vs) t' = w # ws"
    proof -
      have "drop (base + i) (stack t') = stack t' ! (base + i) # drop (Suc (base + i)) (stack t')"
        using here(1) t'(3) st by (simp add: Cons_nth_drop_Suc)
      moreover have "stack t' ! (base + i) = w" using t'(4) st here(1) by simp
      ultimately show ?thesis using t'(5) by (simp add: args_at_def v)
    qed
    moreover have "heap_grown (heap s) (heap t')" using heap_grown_trans [OF t(2)] t'(2) by simp
    moreover have "\<forall>j. j < base + i \<longrightarrow> stack t' ! j = stack s ! j" using t'(4) st by simp
    ultimately show ?thesis using step True t(6) t' st v by auto
  qed
qed

lemma convert_args_agree:
  "list_all2 reads cvs cs \<Longrightarrow> list_all2 (settled h) cs vs \<Longrightarrow> length ws = length vs \<Longrightarrow> heap_grown h h' \<Longrightarrow>
   list_all2 (\<lambda>c (v, w). arg_checked h n h' c v w) cs (zip vs ws) \<Longrightarrow> agree (convert_args F cvs vs) h (convert_args F cvs ws) h'"
proof (induction cvs cs arbitrary: vs ws rule: list_all2_induct)
  case Nil
  then show ?case by (simp add: agree_ret)
next
  case (Cons cv cvs c cs)
  obtain v vs' w ws' where vw: "vs = v # vs'" "ws = w # ws'" using Cons.prems by (cases vs; cases ws) auto
  have "agree (convert F cv v) h (convert F cv w) h'"
    by (rule arg_checked_converts [where c = c and n = n]) (use Cons vw in auto)
  moreover have "agree (convert_args F cvs vs') h (convert_args F cvs ws') h'" by (rule Cons.IH) (use Cons vw in auto)
  ultimately show ?case unfolding vw by (auto intro!: agree_bindM agree_ret)
qed

section \<open>Properties\<close>

text \<open>C10: What the checkers of a native function accept its converters can read. For arguments that are evaluated already
  (\<open>settled\<close>), so that the checker has nothing to force, for checkers that are built from those of the interface without
  unique tuples, alternatives of unique tuples and checkers by a function (\<open>plain_checker\<close>), and for converters of the
  same structure (\<open>reads\<close>): checking always returns, with no error or with one of three; when it finds no error, every argument has the shape that
  its checker describes, and converting the checked arguments is defined and gives exactly what converting the arguments
  before the check gives, although tuples were copied and unique references canceled. When there is memory, all arguments
  of the right shape pass.\<close>

theorem checked_args_convert:
  assumes "\<forall>c\<in>set cs. plain_checker c" and "list_all2 (settled (heap s)) cs vs" and "list_all2 reads cvs cs"
    and "calm s" and "base + length vs \<le> length (stack s)" and "args_at base (length vs) s = vs"
  shows "\<exists>err t. check_args E cb base (length vs) cs s = (Done err, t) \<and>
    err \<in> {0, ERROR_INCORRECT_VALUE, ERROR_INCORRECT_OBJECT, ERROR_OUT_OF_MEMORY} \<and>
    (err = 0 \<longrightarrow> list_all2 (accepts (heap s)) cs vs \<and>
      (\<exists>r. convert_args F cvs vs (heap s) = (r, heap s) \<and> convert_args F cvs (args_at base (length vs) t) (heap t) = (r, heap t) \<and>
         (r = Failed \<or> (\<exists>ds. r = Done ds)))) \<and>
    (plenty E \<and> list_all2 (accepts (heap s)) cs vs \<longrightarrow> err = 0)"
proof -
  obtain err t ws where t: "check_args_from E cb base 0 cs s = (Done err, t)" "heap_grown (heap s) (heap t)" "length (stack t) = length (stack s)"
      "args_at base (length vs) t = ws" "err = 0 \<longrightarrow> list_all2 (\<lambda>c (v, w). arg_checked (heap s) (length (heap s)) (heap t) c v w) cs (zip vs ws)"
      "plenty E \<and> list_all2 (accepts (heap s)) cs vs \<longrightarrow> err = 0" "err \<in> {0, ERROR_INCORRECT_VALUE, ERROR_INCORRECT_OBJECT, ERROR_OUT_OF_MEMORY}"
    using check_args_from_runs [OF assms(1,2) _ assms(4), of base 0 E cb] assms(5,6) by auto
  have len: "length ws = length vs" using t(3,4) assms(5) by (auto simp: args_at_def)
  have n: "length cs = length vs" by (rule list_all2_lengthD [OF assms(2)])
  have "list_all2 (accepts (heap s)) cs vs" if "err = 0"
    unfolding list_all2_conv_all_nth
  proof (intro conjI allI impI n)
    fix i assume i: "i < length cs"
    have "arg_checked (heap s) (length (heap s)) (heap t) (cs ! i) (vs ! i) (ws ! i)"
      using list_all2_nthD [OF t(5) [rule_format, OF that] i] i n len by simp
    then show "accepts (heap s) (cs ! i) (vs ! i)" by (rule arg_checked_accepts)
  qed
  moreover have "agree (convert_args F cvs vs) (heap s) (convert_args F cvs ws) (heap t)" if "err = 0"
    by (rule convert_args_agree [OF assms(3,2) len t(2) t(5) [rule_format, OF that]])
  ultimately show ?thesis using t n by (auto simp: check_args_def agree_def)
qed

text \<open>A number and a pair of a number and an optional reference, given as arguments.\<close>

definition sample_heap :: heap where
  "sample_heap = [Object False (Tuple [VInt 5, VRef (RAddr 1)]), Object False (Tuple [VInt 1, VRef (RAddr 2)]), Object True (IArray8 [1])]"

definition sample_args :: "vm_value list" where
  "sample_args = [VInt 3, VRef (RAddr 0)]"

definition sample_call :: ctx where
  "sample_call = (new_thread_context 4 4 sample_heap)\<lparr>stack := sample_args @ [VError, VError]\<rparr>"

lemma checked_args_convert_witness:
  "\<forall>cb. \<exists>t. check_args (plain_env zero_fpu EagerStrategy [] []) cb 0 2 [CInt, CTuple False [CInt, COption False (CObject (OBJECT_TYPE_IARRAY8 OR OBJECT_TYPE_UNIQUE))]] sample_call = (Done 0, t) \<and>
    convert_args zero_fpu [ToInt, ToTuple [ToInt, ToOption ToRef]] (take 2 (stack t)) (heap t) =
      (Done [IntRead 3, TupleRead [IntRead 5, SomeRead (RefRead (RAddr 2))] :: unit converted], heap t)"
  (is "\<forall>cb. ?P cb")
proof
  fix cb
  let ?cs = "[CInt, CTuple False [CInt, COption False (CObject (OBJECT_TYPE_IARRAY8 OR OBJECT_TYPE_UNIQUE))]]"
  let ?cvs = "[ToInt, ToTuple [ToInt, ToOption ToRef]] :: unit converter list"
  have "list_all2 (settled (heap sample_call)) ?cs sample_args"
    by (simp add: sample_call_def new_thread_context_def sample_args_def sample_heap_def readable_def shared_tuple_def is_ref_value_def
        fits_def object_size_def elem_size_def header_size_def type_kind_def)
  moreover have "list_all2 (accepts (heap sample_call)) ?cs sample_args"
    by (simp add: sample_call_def new_thread_context_def sample_args_def sample_heap_def shared_tuple_def is_ref_value_def is_int_value_def)
  moreover have "convert_args zero_fpu ?cvs sample_args (heap sample_call) =
      (Done [IntRead 3, TupleRead [IntRead 5, SomeRead (RefRead (RAddr 2))]], heap sample_call)"
    by (simp add: sample_call_def new_thread_context_def sample_args_def sample_heap_def run value_elem_at_def object_at_def nth_opt_def)
  moreover have "length sample_args = 2" "calm sample_call" "args_at 0 2 sample_call = sample_args" "2 \<le> length (stack sample_call)"
    by (simp_all add: sample_args_def sample_call_def new_thread_context_def calm_def initial_regs_def no_return_value_def args_at_def)
  ultimately show "?P cb"
    using checked_args_convert [of ?cs sample_call sample_args ?cvs 0 "plain_env zero_fpu EagerStrategy [] []" cb zero_fpu]
    by (simp add: plenty_def plain_env_def args_at_def)
qed

end
