(* ===== verification/Posix_Flags.thy ===== *)
theory Posix_Flags
  imports Letin_Prelude
begin

unbundle bit_operations_syntax

text \<open>
  The conversions between the numbers of Letin programs and those of the operating system in the POSIX
  library (nlib/posix/posix.cpp, the branches for Unix-like systems). The constants of the system headers
  are a parameter; words of the system have 32 bits.
\<close>

section \<open>The system\<close>

text \<open>Which macros are defined, the values of the constants, and the tests of file modes (as \<open>S_ISBLK\<close>).\<close>

record system =
  is_defined :: "string \<Rightarrow> bool"
  const :: "string \<Rightarrow> u32"
  mode_test :: "string \<Rightarrow> u32 \<Rightarrow> bool"

text \<open>A conversion that returns false has set \<open>letin_errno\<close>; the empty string stands for one that has not.\<close>

type_synonym 'a conversion = "string + 'a"

abbreviation (input) EINVAL :: string where "EINVAL \<equiv> ''EINVAL''"
abbreviation (input) EBADF :: string where "EBADF \<equiv> ''EBADF''"
abbreviation (input) ESRCH :: string where "ESRCH \<equiv> ''ESRCH''"
abbreviation (input) ECHILD :: string where "ECHILD \<equiv> ''ECHILD''"

text \<open>A constant, and the macro of the \<open>#ifdef\<close> around its line if there is one.\<close>

type_synonym guarded = "string \<times> string option"

definition present :: "system \<Rightarrow> guarded \<Rightarrow> bool" where
  "present S c \<longleftrightarrow> (case snd c of None \<Rightarrow> True | Some g \<Rightarrow> is_defined S g)"

definition always :: "string \<Rightarrow> guarded" where "always c = (c, None)"
definition if_defined :: "string \<Rightarrow> guarded" where "if_defined c = (c, Some c)"

section \<open>Enumerations\<close>

text \<open>The number of the first constant that is equal; and the constant of a number.\<close>

fun case_of :: "system \<Rightarrow> guarded list \<Rightarrow> u32 \<Rightarrow> nat option" where
  "case_of S [] x = None"
| "case_of S (c # cs) x = (if present S c \<and> x = const S (fst c) then Some 0 else map_option Suc (case_of S cs x))"

definition enum_of_system :: "system \<Rightarrow> string list \<Rightarrow> u32 \<Rightarrow> u64" where
  "enum_of_system S cs x = (case case_of S (map always cs) x of None \<Rightarrow> - 1 | Some i \<Rightarrow> of_nat i)"

definition enum_to_system :: "system \<Rightarrow> string list \<Rightarrow> u64 \<Rightarrow> u32 conversion" where
  "enum_to_system S cs x = (if unat x < length cs then Inr (const S (cs ! unat x)) else Inl EINVAL)"

definition whences :: "string list" where "whences = [''SEEK_SET'', ''SEEK_CUR'', ''SEEK_END'']"
definition flock_types :: "string list" where "flock_types = [''F_RDLCK'', ''F_WRLCK'', ''F_UNLCK'']"

definition system_whence_to_whence :: "system \<Rightarrow> u32 \<Rightarrow> u64" where
  "system_whence_to_whence S = enum_of_system S whences"

definition whence_to_system_whence :: "system \<Rightarrow> u64 \<Rightarrow> u32 conversion" where
  "whence_to_system_whence S = enum_to_system S whences"

definition system_flock_type_to_flock_type :: "system \<Rightarrow> u32 \<Rightarrow> u64" where
  "system_flock_type_to_flock_type S = enum_of_system S flock_types"

definition flock_type_to_system_flock_type :: "system \<Rightarrow> u64 \<Rightarrow> u32 conversion" where
  "flock_type_to_system_flock_type S = enum_to_system S flock_types"

definition which_to_system_which :: "system \<Rightarrow> u64 \<Rightarrow> u32 conversion" where
  "which_to_system_which S = enum_to_system S [''PRIO_PROCESS'', ''PRIO_PGRP'', ''PRIO_USER'']"

definition optional_actions_to_system_optional_actions :: "system \<Rightarrow> u64 \<Rightarrow> u32 conversion" where
  "optional_actions_to_system_optional_actions S = enum_to_system S [''TCSANOW'', ''TCSADRAIN'', ''TCSAFLUSH'']"

definition queue_selector_to_system_queue_selector :: "system \<Rightarrow> u64 \<Rightarrow> u32 conversion" where
  "queue_selector_to_system_queue_selector S = enum_to_system S [''TCIFLUSH'', ''TCOFLUSH'', ''TCIOFLUSH'']"

definition tcflow_action_to_system_tcflow_action :: "system \<Rightarrow> u64 \<Rightarrow> u32 conversion" where
  "tcflow_action_to_system_tcflow_action S = enum_to_system S [''TCOOFF'', ''TCOON'', ''TCIOFF'', ''TCION'']"

section \<open>Flags\<close>

text \<open>A table has a constant for each bit, in the order of the code; a bit whose constant is not defined is never
  set, and refused. Some functions of the code test the word they are writing.\<close>

type_synonym flag_table = "(guarded \<times> nat) list"

fun bits_of_system :: "system \<Rightarrow> flag_table \<Rightarrow> u32 \<Rightarrow> u64 \<Rightarrow> u64" where
  "bits_of_system S [] sx x = x"
| "bits_of_system S ((c, b) # tab) sx x =
     bits_of_system S tab sx (if present S c \<and> sx AND const S (fst c) \<noteq> 0 then x OR push_bit b 1 else x)"

fun bits_to_system :: "system \<Rightarrow> flag_table \<Rightarrow> u64 \<Rightarrow> u32 \<Rightarrow> u32 conversion" where
  "bits_to_system S [] x sx = Inr sx"
| "bits_to_system S ((c, b) # tab) x sx =
     (if x AND push_bit b 1 = 0 then bits_to_system S tab x sx
      else if present S c then bits_to_system S tab x (sx OR const S (fst c)) else Inl EINVAL)"

fun bits_in_place :: "system \<Rightarrow> flag_table \<Rightarrow> u32 \<Rightarrow> u32 conversion" where
  "bits_in_place S [] sx = Inr sx"
| "bits_in_place S ((c, b) # tab) sx =
     (if sx AND push_bit b 1 = 0 then bits_in_place S tab sx
      else if present S c then bits_in_place S tab (sx OR const S (fst c)) else Inl EINVAL)"

definition below :: "nat \<Rightarrow> u64 \<Rightarrow> bool" where
  "below n x \<longleftrightarrow> x AND NOT (push_bit n 1 - 1) = 0"

text \<open>The flags of \<open>open\<close>.\<close>

definition open_modes :: "string list" where "open_modes = [''O_RDONLY'', ''O_RDWR'', ''O_WRONLY'']"

definition open_bits :: flag_table where
  "open_bits = [(always ''O_CREAT'', 2), (always ''O_EXCL'', 3), (if_defined ''O_NOCTTY'', 4), (always ''O_TRUNC'', 5),
     (always ''O_APPEND'', 6), (if_defined ''O_DSYNC'', 7), (if_defined ''O_NONBLOCK'', 8), (if_defined ''O_RSYNC'', 9), (if_defined ''O_SYNC'', 10)]"

text \<open>The result is not the flags but the argument.\<close>

definition system_flags_to_flags :: "system \<Rightarrow> u32 \<Rightarrow> u64" where
  "system_flags_to_flags S system_flags = (case case_of S (map always open_modes) (system_flags AND const S ''O_ACCMODE'') of
     None \<Rightarrow> - 1
   | Some i \<Rightarrow> (let flags = bits_of_system S open_bits system_flags (of_nat i) in scast system_flags))"

definition flags_to_system_flags :: "system \<Rightarrow> u64 \<Rightarrow> u32 conversion" where
  "flags_to_system_flags S flags =
     (if \<not> below 11 flags then Inl EINVAL
      else case enum_to_system S open_modes (flags AND 3) of
        Inl e \<Rightarrow> Inl e
      | Inr mode \<Rightarrow> bits_to_system S open_bits flags mode)"

definition access_mode_to_system_access_mode :: "system \<Rightarrow> u64 \<Rightarrow> u32 conversion" where
  "access_mode_to_system_access_mode S mode =
     (if \<not> below 3 mode then Inl EINVAL
      else if mode = 0 then Inr (const S ''F_OK'')
      else bits_to_system S [(always ''X_OK'', 0), (always ''W_OK'', 1), (always ''R_OK'', 2)] mode 0)"

definition wait_options_to_system_wait_options :: "system \<Rightarrow> u64 \<Rightarrow> u32 conversion" where
  "wait_options_to_system_wait_options S options =
     (if \<not> below 2 options then Inl EINVAL
      else bits_to_system S [(always ''WNOHANG'', 0), (always ''WUNTRACED'', 1)] options 0)"

text \<open>The events of \<open>poll\<close>: the first bit that is set ends the function, with its constant as the result, which is a
  \<open>bool\<close>; the system word stays 0.\<close>

definition poll_bits :: flag_table where
  "poll_bits = [(always ''POLLIN'', 0), (always ''POLLRDNORM'', 1), (always ''POLLRDBAND'', 2), (always ''POLLPRI'', 3),
     (always ''POLLOUT'', 4), (always ''POLLWRNORM'', 5), (always ''POLLWRBAND'', 6), (always ''POLLERR'', 7), (always ''POLLHUP'', 8), (always ''POLLNVAL'', 9)]"

definition system_poll_events_to_poll_events :: "system \<Rightarrow> u32 \<Rightarrow> u64" where
  "system_poll_events_to_poll_events S system_events = bits_of_system S poll_bits system_events 0"

fun first_event :: "system \<Rightarrow> flag_table \<Rightarrow> u64 \<Rightarrow> bool" where
  "first_event S [] events = True"
| "first_event S ((c, b) # tab) events =
     (if events AND push_bit b 1 \<noteq> 0 then const S (fst c) \<noteq> 0 else first_event S tab events)"

definition poll_events_to_system_poll_events :: "system \<Rightarrow> u64 \<Rightarrow> u32 conversion" where
  "poll_events_to_system_poll_events S events =
     (if \<not> below 10 events then Inl EINVAL
      else let system_events = 0 in if first_event S poll_bits events then Inr system_events else Inl [])"

section \<open>Terminals\<close>

definition iflag_bits :: flag_table where
  "iflag_bits = [(always ''BRKINT'', 0), (always ''ICRNL'', 1), (always ''IGNBRK'', 2), (always ''IGNCR'', 3), (always ''IGNPAR'', 4),
     (always ''INLCR'', 5), (always ''INPCK'', 6), (always ''ISTRIP'', 7), (if_defined ''IUCLC'', 8), (always ''IXANY'', 9),
     (always ''IXOFF'', 10), (always ''IXON'', 11), (always ''PARMRK'', 12)]"

definition system_termios_iflag_to_termios_iflag :: "system \<Rightarrow> u32 \<Rightarrow> u64" where
  "system_termios_iflag_to_termios_iflag S system_iflag = bits_of_system S iflag_bits system_iflag 0"

definition termios_iflag_to_system_termios_iflag :: "system \<Rightarrow> u64 \<Rightarrow> u32 conversion" where
  "termios_iflag_to_system_termios_iflag S iflag =
     (if \<not> below 13 iflag then Inl EINVAL else bits_to_system S iflag_bits iflag 0)"

text \<open>Fields of several bits: the mask of the system, the first bit and the width of the field, and its values.\<close>

type_synonym field_table = "(string \<times> nat \<times> nat \<times> guarded list) list"

fun fields_of_system :: "system \<Rightarrow> field_table \<Rightarrow> u32 \<Rightarrow> u64 \<Rightarrow> u64" where
  "fields_of_system S [] sx x = x"
| "fields_of_system S ((m, b, w, cs) # tab) sx x =
     (if \<not> is_defined S m then fields_of_system S tab sx x
      else case case_of S cs (sx AND const S m) of
        None \<Rightarrow> - 1
      | Some i \<Rightarrow> fields_of_system S tab sx (x OR push_bit b (of_nat i)))"

fun fields_in_place :: "system \<Rightarrow> field_table \<Rightarrow> u32 \<Rightarrow> u32 conversion" where
  "fields_in_place S [] sx = Inr sx"
| "fields_in_place S ((m, b, w, cs) # tab) sx =
     (let i = sx AND push_bit b (push_bit w 1 - 1); c = cs ! unat (drop_bit b i) in
      if is_defined S m
      then if present S c then fields_in_place S tab (sx OR const S (fst c)) else Inl EINVAL
      else if i = 0 then fields_in_place S tab sx else Inl EINVAL)"

definition oflag_bits :: flag_table where
  "oflag_bits = [(always ''OPOST'', 0), (if_defined ''OLCUC'', 1), (always ''ONLCR'', 2), (always ''OCRNL'', 3), (always ''ONOCR'', 4),
     (always ''ONLRET'', 5), (if_defined ''OFILL'', 6)]"

definition delays :: "string option \<Rightarrow> field_table" where
  "delays tab2 = [(''NLDLY'', 7, 1, map always [''NL0'', ''NL1'']), (''CRDLY'', 8, 2, map always [''CR0'', ''CR1'', ''CR2'', ''CR3'']),
     (''TABDLY'', 10, 2, [always ''TAB0'', if_defined ''TAB1'', (''TAB2'', tab2), always ''TAB3'']),
     (''BSDLY'', 12, 1, map always [''BS0'', ''BS1'']), (''VTDLY'', 13, 1, map always [''VT0'', ''VT1'']), (''FFDLY'', 14, 1, map always [''FF0'', ''FF1''])]"

definition system_termios_oflag_to_termios_oflag :: "system \<Rightarrow> u32 \<Rightarrow> u64" where
  "system_termios_oflag_to_termios_oflag S system_oflag =
     fields_of_system S (delays (Some ''TAB2'')) system_oflag (bits_of_system S oflag_bits system_oflag 0)"

text \<open>The argument is only compared with its bound; the conversion works on what the variable of the result held before.
  The line of \<open>TAB2\<close> is under \<open>#ifdef TAB1\<close>.\<close>

definition termios_oflag_to_system_termios_oflag :: "system \<Rightarrow> u64 \<Rightarrow> u32 \<Rightarrow> u32 conversion" where
  "termios_oflag_to_system_termios_oflag S oflag system_oflag =
     (if \<not> below 15 oflag then Inl EINVAL
      else case bits_in_place S oflag_bits system_oflag of
        Inl e \<Rightarrow> Inl e
      | Inr system_oflag \<Rightarrow> fields_in_place S (delays (Some ''TAB1'')) system_oflag)"

definition char_sizes :: "string list" where "char_sizes = [''CS5'', ''CS6'', ''CS7'', ''CS8'']"

definition cflag_bits :: flag_table where
  "cflag_bits = [(always ''CSTOPB'', 2), (always ''CREAD'', 3), (always ''PARENB'', 4), (always ''PARODD'', 5), (always ''HUPCL'', 6), (always ''CLOCAL'', 7)]"

definition system_termios_cflag_to_termios_cflag :: "system \<Rightarrow> u32 \<Rightarrow> u64" where
  "system_termios_cflag_to_termios_cflag S system_cflag = (case case_of S (map always char_sizes) (system_cflag AND const S ''CSIZE'') of
     None \<Rightarrow> - 1
   | Some i \<Rightarrow> bits_of_system S cflag_bits system_cflag (of_nat i))"

definition termios_cflag_to_system_termios_cflag :: "system \<Rightarrow> u64 \<Rightarrow> u32 conversion" where
  "termios_cflag_to_system_termios_cflag S cflag =
     (if \<not> below 8 cflag then Inl EINVAL
      else bits_to_system S cflag_bits cflag (const S (char_sizes ! unat (cflag AND 3))))"

definition lflag_bits :: flag_table where
  "lflag_bits = [(always ''ECHO'', 0), (always ''ECHOE'', 1), (always ''ECHOK'', 2), (always ''ECHONL'', 3), (always ''ICANON'', 4),
     (always ''IEXTEN'', 5), (always ''NOFLSH'', 6), (always ''TOSTOP'', 7), (if_defined ''XCASE'', 8)]"

definition system_termios_lflag_to_termios_lflag :: "system \<Rightarrow> u32 \<Rightarrow> u64" where
  "system_termios_lflag_to_termios_lflag S system_lflag = bits_of_system S lflag_bits system_lflag 0"

text \<open>The result is tested and the argument written.\<close>

fun swapped_bits :: "system \<Rightarrow> flag_table \<Rightarrow> u64 \<Rightarrow> u32 \<Rightarrow> u32 conversion" where
  "swapped_bits S [] x sx = Inr sx"
| "swapped_bits S ((c, b) # tab) x sx =
     (if sx AND push_bit b 1 = 0 then swapped_bits S tab x sx
      else if present S c then swapped_bits S tab (x OR ucast (const S (fst c))) sx else Inl EINVAL)"

definition termios_lflag_to_system_termios_lflag :: "system \<Rightarrow> u64 \<Rightarrow> u32 conversion" where
  "termios_lflag_to_system_termios_lflag S lflag =
     (if \<not> below 9 lflag then Inl EINVAL else swapped_bits S lflag_bits lflag 0)"

text \<open>The speeds are in two maps, from numbers to speeds and back; both conversions have the test of \<open>find\<close> the wrong way
  round, and read behind the end of the map (\<open>None\<close>) where the number is not found. The second one looks for what the
  variable of the result held before.\<close>

definition system_speed_to_speed :: "(u32 \<rightharpoonup> u64) \<Rightarrow> u32 \<Rightarrow> u64 option" where
  "system_speed_to_speed speeds system_speed = (if speeds system_speed \<noteq> None then Some (- 1) else None)"

definition speed_to_system_speed :: "(u64 \<rightharpoonup> u32) \<Rightarrow> u64 \<Rightarrow> u32 \<Rightarrow> u32 conversion option" where
  "speed_to_system_speed system_speeds speed system_speed =
     (if speed = - 1 then Some (Inl EINVAL)
      else if system_speeds (ucast system_speed) \<noteq> None then Some (Inl EINVAL)
      else None)"

section \<open>Modes of files\<close>

text \<open>With the usual values of the permission bits, which the code tests when it is compiled. (The other branch of
  \<open>mode_to_system_mode\<close> declares its parameter again, which is not C++.)\<close>

definition permission_bits :: u32 where "permission_bits = 4095"

definition system_mode_to_mode :: "u32 \<Rightarrow> u64" where
  "system_mode_to_mode system_mode = ucast (system_mode AND permission_bits)"

definition mode_to_system_mode :: "u64 \<Rightarrow> u32 conversion" where
  "mode_to_system_mode mode = (if mode AND NOT (ucast permission_bits) \<noteq> 0 then Inl EINVAL else Inr (ucast mode))"

text \<open>The types of files, from number 1 on; the two last ones may be missing.\<close>

definition file_tests :: "guarded list" where
  "file_tests = map always [''S_ISBLK'', ''S_ISCHR'', ''S_ISFIFO'', ''S_ISREG'', ''S_ISDIR'', ''S_ISLNK''] @ map if_defined [''S_ISSOCK'', ''S_ISWHT'']"

definition file_types :: "guarded list" where
  "file_types = map always [''S_IFBLK'', ''S_IFCHR'', ''S_IFIFO'', ''S_IFREG'', ''S_IFDIR'', ''S_IFLNK''] @ map if_defined [''S_IFSOCK'', ''S_IFWHT'']"

fun first_test :: "system \<Rightarrow> guarded list \<Rightarrow> u32 \<Rightarrow> nat" where
  "first_test S [] sx = 1"
| "first_test S (c # cs) sx = (if present S c \<and> mode_test S (fst c) sx then 1 else Suc (first_test S cs sx))"

definition system_stat_mode_to_stat_mode :: "system \<Rightarrow> u32 \<Rightarrow> u64" where
  "system_stat_mode_to_stat_mode S system_mode = system_mode_to_mode system_mode OR push_bit 12 (of_nat (first_test S file_tests system_mode))"

definition stat_mode_to_system_stat_mode :: "system \<Rightarrow> u64 \<Rightarrow> u32 conversion" where
  "stat_mode_to_system_stat_mode S mode = (case mode_to_system_mode (mode AND ucast permission_bits) of
     Inl e \<Rightarrow> Inl e
   | Inr system_mode \<Rightarrow> (let i = unat (drop_bit 12 mode) in
       if 1 \<le> i \<and> i \<le> length file_types \<and> present S (file_types ! (i - 1))
       then Inr (system_mode OR const S (fst (file_types ! (i - 1)))) else Inl EINVAL))"

section \<open>Ranges\<close>

text \<open>An integer type of the system, by its width. The comparisons are left out for types of 64 bits; where they are not
  (\<open>time_t\<close>, \<open>int\<close>), they hold for all numbers of 64 bits.\<close>

datatype int_type = Signed nat | Unsigned nat

fun width :: "int_type \<Rightarrow> nat" where
  "width (Signed n) = n" | "width (Unsigned n) = n"

fun least_of :: "int_type \<Rightarrow> int" where
  "least_of (Signed n) = - (2 ^ (n - 1))" | "least_of (Unsigned n) = 0"

fun greatest_of :: "int_type \<Rightarrow> int" where
  "greatest_of (Signed n) = 2 ^ (n - 1) - 1" | "greatest_of (Unsigned n) = 2 ^ n - 1"

definition assigned :: "int_type \<Rightarrow> int \<Rightarrow> int" where
  "assigned t i = (case t of Signed n \<Rightarrow> signed_take_bit (n - 1) i | Unsigned n \<Rightarrow> take_bit n i)"

definition to_int_type :: "int_type \<Rightarrow> string \<Rightarrow> u64 \<Rightarrow> int conversion" where
  "to_int_type t e x = (if width t < 64 \<and> (sint x < least_of t \<or> sint x > greatest_of t) then Inl e else Inr (assigned t (sint x)))"

definition fd_to_system_fd :: "u64 \<Rightarrow> int conversion" where
  "fd_to_system_fd fd = (if sint fd < 0 \<or> sint fd > greatest_of (Signed 32) then Inl EBADF else Inr (assigned (Signed 32) (sint fd)))"

definition count_to_system_count :: "u64 \<Rightarrow> int conversion" where
  "count_to_system_count count = (if sint count < 0 \<or> sint count > greatest_of (Signed 64) then Inl EINVAL else Inr (assigned (Unsigned 64) (sint count)))"

definition arg_to_system_arg :: "u64 \<Rightarrow> int conversion" where
  "arg_to_system_arg = to_int_type (Signed 32) EINVAL"

definition long_arg_to_system_long_arg :: "u64 \<Rightarrow> int conversion" where
  "long_arg_to_system_long_arg = to_int_type (Signed 64) EINVAL"

definition nfds_to_system_nfds :: "int \<Rightarrow> u64 \<Rightarrow> int conversion" where
  "nfds_to_system_nfds fd_setsize nfds = (if sint nfds < 0 \<or> sint nfds > fd_setsize then Inl EBADF else Inr (assigned (Signed 32) (sint nfds)))"

definition size_to_system_size :: "int_type \<Rightarrow> u64 \<Rightarrow> int conversion" where
  "size_to_system_size t = to_int_type t EINVAL"

definition off_to_system_off :: "int_type \<Rightarrow> u64 \<Rightarrow> int conversion" where
  "off_to_system_off t = to_int_type t EINVAL"

definition off64_to_system_off64 :: "u64 \<Rightarrow> int conversion" where
  "off64_to_system_off64 offset = Inr (sint offset)"

definition uid_to_system_uid :: "int_type \<Rightarrow> u64 \<Rightarrow> int conversion" where
  "uid_to_system_uid t = to_int_type t EINVAL"

definition gid_to_system_gid :: "int_type \<Rightarrow> u64 \<Rightarrow> int conversion" where
  "gid_to_system_gid t = to_int_type t EINVAL"

definition dev_to_system_dev :: "int_type \<Rightarrow> u64 \<Rightarrow> int conversion" where
  "dev_to_system_dev t = to_int_type t EINVAL"

definition pid_to_system_pid :: "int_type \<Rightarrow> u64 \<Rightarrow> int conversion" where
  "pid_to_system_pid t = to_int_type t ESRCH"

definition wait_pid_to_system_wait_pid :: "int_type \<Rightarrow> u64 \<Rightarrow> int conversion" where
  "wait_pid_to_system_wait_pid t pid = (case pid_to_system_pid t pid of Inl e \<Rightarrow> Inl ECHILD | Inr p \<Rightarrow> Inr p)"

definition useconds_to_system_useconds :: "int_type \<Rightarrow> u64 \<Rightarrow> int conversion" where
  "useconds_to_system_useconds t useconds =
     (if width t < 64 \<and> (sint useconds < 0 \<or> sint useconds > greatest_of t) then Inl EINVAL else Inr (assigned t (sint useconds)))"

definition time_to_system_time :: "int_type \<Rightarrow> u64 \<Rightarrow> int conversion" where
  "time_to_system_time t time = (if sint time < least_of t \<or> sint time > greatest_of t then Inl EINVAL else Inr (assigned t (sint time)))"

definition kill_signal_to_system_kill_signal :: "u64 \<Rightarrow> int conversion" where
  "kill_signal_to_system_kill_signal sig = (if sig \<noteq> 0 \<and> sig \<noteq> 9 then Inl EINVAL else Inr (sint sig))"

section \<open>Signals\<close>

text \<open>The signals of the system in the order of their numbers, from 1 on, 0 for one that is not defined; and the table
  back, which starts at the least number.\<close>

definition signal_offset :: "int list \<Rightarrow> int" where
  "signal_offset system_signals = Min (set system_signals)"

fun fill_signals :: "int \<Rightarrow> int list \<Rightarrow> nat \<Rightarrow> nat list \<Rightarrow> nat list" where
  "fill_signals k [] i table = table"
| "fill_signals k (s # ss) i table = fill_signals k ss (Suc i) (if s \<noteq> 0 then table[nat (s - k) := i] else table)"

definition signals_of :: "int list \<Rightarrow> nat list" where
  "signals_of system_signals = (let k = signal_offset system_signals in
     fill_signals k system_signals 0 (replicate (nat (Max (set system_signals) - k + 1)) 0))"

text \<open>Reading outside of the table is undefined (\<open>None\<close>).\<close>

definition system_signal_to_signal :: "int list \<Rightarrow> int \<Rightarrow> int option" where
  "system_signal_to_signal system_signals sig =
     (if sig = 0 then Some 0
      else let i = sig - signal_offset system_signals; table = signals_of system_signals in
        if 0 \<le> i \<and> i < int (length table)
        then Some (if table ! nat i = 0 then - 1 else int (table ! nat i) + 1) else None)"

definition signal_to_system_signal :: "int list \<Rightarrow> u64 \<Rightarrow> int conversion" where
  "signal_to_system_signal system_signals sig =
     (if sint sig < 0 \<or> sint sig > int (length system_signals) then Inl EINVAL
      else if sig = 0 then Inr 0
      else if system_signals ! (unat sig - 1) = 0 then Inl EINVAL
      else Inr (system_signals ! (unat sig - 1)))"

section \<open>Bits\<close>

lemma bit_below_length: "bit (x :: u64) n \<Longrightarrow> n < 64" "bit (y :: u32) n \<Longrightarrow> n < 32"
  using bit_imp_le_length [of x n] bit_imp_le_length [of y n] by simp_all

lemma bits_of_system_bit:
  "n < 64 \<Longrightarrow> bit (bits_of_system S tab sx x) n \<longleftrightarrow> bit x n \<or> (\<exists>c. (c, n) \<in> set tab \<and> present S c \<and> sx AND const S (fst c) \<noteq> 0)"
  by (induction S tab sx x rule: bits_of_system.induct) (auto simp: bit_simps, metis)

lemma bits_to_system_bit:
  "bits_to_system S tab x sx = Inr sy \<Longrightarrow>
   (\<forall>(c, b)\<in>set tab. bit x b \<longrightarrow> present S c) \<and> (\<forall>n. bit sy n \<longleftrightarrow> bit sx n \<or> (\<exists>(c, b)\<in>set tab. bit x b \<and> bit (const S (fst c)) n))"
  by (induction S tab x sx rule: bits_to_system.induct) (auto simp: bit_simps and_exp_eq_0_iff_not_bit split: if_splits)

text \<open>The constants of a table are masks without common bits, also with another mask.\<close>

definition separate_flags :: "system \<Rightarrow> u32 \<Rightarrow> flag_table \<Rightarrow> bool" where
  "separate_flags S mk tab \<longleftrightarrow> (\<forall>p\<in>set tab. present S (fst p) \<longrightarrow>
     const S (fst (fst p)) \<noteq> 0 \<and> const S (fst (fst p)) AND mk = 0 \<and>
     (\<forall>q\<in>set tab. present S (fst q) \<and> p \<noteq> q \<longrightarrow> const S (fst (fst p)) AND const S (fst (fst q)) = 0))"

lemma and_nonzero: "(x :: 'a::len word) AND y \<noteq> 0 \<longleftrightarrow> (\<exists>n. bit x n \<and> bit y n)"
  by (auto simp: bit_eq_iff bit_simps dest: bit_imp_le_length)

lemma bits_round_trip:
  assumes to: "bits_to_system S tab x sx = Inr sy" and sep: "separate_flags S mk tab" and sx: "sx AND NOT mk = 0"
    and d: "distinct (map snd tab)"
    and y: "\<And>n. n < 64 \<Longrightarrow> n \<notin> snd ` set tab \<Longrightarrow> bit x n = bit y n" "\<And>n. bit y n \<Longrightarrow> n \<notin> snd ` set tab"
  shows "bits_of_system S tab sy y = x" "sy AND mk = sx AND mk"
proof -
  from bits_to_system_bit [OF to] have pres: "\<And>c b. (c, b) \<in> set tab \<Longrightarrow> bit x b \<Longrightarrow> present S c"
    and sy: "\<And>n. bit sy n \<longleftrightarrow> bit sx n \<or> (\<exists>(c, b)\<in>set tab. bit x b \<and> bit (const S (fst c)) n)" by auto
  have mk: "bit sx n \<Longrightarrow> bit mk n" for n
    using sx and_nonzero [of sx "NOT mk"] bit_below_length(2) [of sx] by (auto simp: bit_simps)
  have off: "\<not> (bit (const S (fst c)) n \<and> bit mk n)" if "(c, b) \<in> set tab" "present S c" for c b n
    using sep that and_nonzero [of "const S (fst c)" mk] by (force simp: separate_flags_def)
  have cb: "sy AND const S (fst c) \<noteq> 0 \<longleftrightarrow> bit x b" if cb: "(c, b) \<in> set tab" "present S c" for c b
  proof
    assume "sy AND const S (fst c) \<noteq> 0"
    then obtain n where n: "bit sy n" "bit (const S (fst c)) n" by (auto simp: and_nonzero)
    then have "\<not> bit sx n" using off [OF cb] mk by blast
    then obtain c' b' where c': "(c', b') \<in> set tab" "bit x b'" "bit (const S (fst c')) n" using n sy by auto
    then have "const S (fst c) AND const S (fst c') \<noteq> 0" using n by (auto simp: and_nonzero)
    then have "(c, b) = (c', b')" using sep cb c' pres by (fastforce simp: separate_flags_def)
    then show "bit x b" using c' by simp
  next
    assume b: "bit x b"
    have "const S (fst c) \<noteq> 0" using sep cb by (force simp: separate_flags_def)
    then obtain n where "bit (const S (fst c)) n" using and_nonzero [of "const S (fst c)" "const S (fst c)"] by auto
    then show "sy AND const S (fst c) \<noteq> 0" using b cb sy by (auto simp: and_nonzero)
  qed
  show "bits_of_system S tab sy y = x"
  proof (rule bit_word_eqI)
    fix n assume "n < LENGTH(64)"
    then have n: "n < 64" by simp
    show "bit (bits_of_system S tab sy y) n = bit x n"
    proof (cases "n \<in> snd ` set tab")
      case True
      then obtain c where "(c, n) \<in> set tab" by auto
      then have "(\<exists>c. (c, n) \<in> set tab \<and> present S c \<and> sy AND const S (fst c) \<noteq> 0) = bit x n" using cb pres by blast
      then show ?thesis using True n y(2) by (simp add: bits_of_system_bit) blast
    next
      case False
      then show ?thesis using y(1) [OF n False] n by (force simp: bits_of_system_bit)
    qed
  qed
  show "sy AND mk = sx AND mk"
    by (rule bit_word_eqI) (use off pres sy in \<open>auto simp: bit_simps\<close>)
qed

lemma below_bit: "below n x \<longleftrightarrow> (\<forall>m. bit x m \<longrightarrow> m < n)"
  proof -
  have "below n x \<longleftrightarrow> \<not> x AND NOT (mask n) \<noteq> 0" by (simp add: below_def mask_eq_exp_minus_1)
  then show ?thesis using bit_below_length(1) [of x] by (auto simp: and_nonzero bit_simps)
qed

section \<open>Round trips\<close>

lemma case_of_nth:
  "distinct (map (const S) cs) \<Longrightarrow> i < length cs \<Longrightarrow> case_of S (map always cs) (const S (cs ! i)) = Some i"
proof (induction cs arbitrary: i)
  case (Cons c cs)
  then show ?case by (cases i) (auto simp: present_def always_def, metis imageI nth_mem)
qed simp

lemma enum_round_trip:
  "enum_to_system S cs x = Inr sx \<Longrightarrow> distinct (map (const S) cs) \<Longrightarrow> enum_of_system S cs sx = x"
  by (auto simp: enum_to_system_def enum_of_system_def case_of_nth split: if_splits)

lemma iflag_round_trip:
  assumes "termios_iflag_to_system_termios_iflag S x = Inr sx" "separate_flags S 0 iflag_bits"
  shows "system_termios_iflag_to_termios_iflag S sx = x"
proof -
  have b: "below 13 x" and to: "bits_to_system S iflag_bits x 0 = Inr sx"
    using assms(1) by (auto simp: termios_iflag_to_system_termios_iflag_def split: if_splits)
  have all: "snd ` set iflag_bits = {..<13}" by (auto simp: iflag_bits_def numeral_eq_Suc less_Suc_eq)
  show ?thesis unfolding system_termios_iflag_to_termios_iflag_def
    by (rule bits_round_trip(1) [OF to assms(2)]) (use b all in \<open>auto simp: below_bit\<close>, simp_all add: iflag_bits_def)
qed

text \<open>All that is asked of the constants of the system: flags are separate bits, enumerations have different values, fields
  lie in their masks.\<close>

definition standard :: "system \<Rightarrow> bool" where
  "standard S \<longleftrightarrow> distinct (map (const S) whences) \<and> distinct (map (const S) flock_types) \<and> separate_flags S 0 iflag_bits \<and>
     distinct (map (const S) char_sizes) \<and> list_all (\<lambda>c. const S c AND NOT (const S ''CSIZE'') = 0) char_sizes \<and>
     separate_flags S (const S ''CSIZE'') cflag_bits \<and>
     const S ''S_IFMT'' AND permission_bits = 0 \<and> list_all (\<lambda>c. const S (fst c) AND NOT (const S ''S_IFMT'') = 0) file_types \<and>
     list_all (\<lambda>c. list_all (\<lambda>d. c \<noteq> d \<and> present S c \<and> present S d \<longrightarrow> const S (fst c) \<noteq> const S (fst d)) file_types) file_types \<and>
     map (present S) file_tests = map (present S) file_types"

lemma cflag_round_trip:
  assumes "termios_cflag_to_system_termios_cflag S x = Inr sx" "standard S"
  shows "system_termios_cflag_to_termios_cflag S sx = x"
proof -
  let ?k = "unat (x AND 3)" and ?m = "const S ''CSIZE''"
  have b: "below 8 x" and to: "bits_to_system S cflag_bits x (const S (char_sizes ! ?k)) = Inr sx"
    using assms(1) by (auto simp: termios_cflag_to_system_termios_cflag_def split: if_splits)
  have "x AND 3 \<le> 3" by (rule word_and_le1)
  then have k: "?k < length char_sizes" by (simp add: char_sizes_def word_le_nat_alt)
  then have in_mask: "const S (char_sizes ! ?k) AND NOT ?m = 0" using assms(2) by (simp add: standard_def list_all_length)
  have three: "bit (x AND 3) n \<longleftrightarrow> bit x n \<and> n < 2" for n
  proof -
    have "bit (x AND mask 2) n \<longleftrightarrow> bit x n \<and> n < 2" using bit_below_length(1) [of x n] by (auto simp: bit_simps)
    then show ?thesis by (simp add: mask_eq_exp_minus_1)
  qed
  have all: "snd ` set cflag_bits = {2..<8}" by (auto simp: cflag_bits_def numeral_eq_Suc less_Suc_eq)
  have rt: "bits_of_system S cflag_bits sx (x AND 3) = x" "sx AND ?m = const S (char_sizes ! ?k) AND ?m"
  proof -
    have sep: "separate_flags S ?m cflag_bits" using assms(2) by (simp add: standard_def)
    have d: "distinct (map snd cflag_bits)" by (simp add: cflag_bits_def)
    have y1: "bit x n = bit (x AND 3) n" if "n \<notin> snd ` set cflag_bits" for n
      using that b unfolding three all below_bit by fastforce
    have y2: "n \<notin> snd ` set cflag_bits" if "bit (x AND 3) n" for n
      using that unfolding three all by simp
    show "bits_of_system S cflag_bits sx (x AND 3) = x" by (rule bits_round_trip(1) [OF to sep in_mask d y1 y2])
    show "sx AND ?m = const S (char_sizes ! ?k) AND ?m" by (rule bits_round_trip(2) [OF to sep in_mask d y1 y2])
  qed
  have "const S (char_sizes ! ?k) AND ?m = const S (char_sizes ! ?k)"
    using in_mask and_nonzero [of "const S (char_sizes ! ?k)" "NOT ?m"] by (intro bit_word_eqI) (auto simp: bit_simps)
  then have "case_of S (map always char_sizes) (sx AND ?m) = Some ?k"
    using rt(2) case_of_nth [OF _ k, of S] assms(2) by (simp add: standard_def)
  then show ?thesis using rt(1) by (simp add: system_termios_cflag_to_termios_cflag_def)
qed

lemma first_test_nth:
  "i < length cs \<Longrightarrow> present S (cs ! i) \<Longrightarrow> mode_test S (fst (cs ! i)) x \<Longrightarrow>
   \<forall>j<i. present S (cs ! j) \<longrightarrow> \<not> mode_test S (fst (cs ! j)) x \<Longrightarrow> first_test S cs x = Suc i"
proof (induction cs arbitrary: i)
  case (Cons c cs)
  show ?case
  proof (cases i)
    case (Suc k)
    have "first_test S cs x = Suc k" by (rule Cons.IH) (use Cons.prems Suc in auto)
    moreover have "\<not> (present S c \<and> mode_test S (fst c) x)" using Cons.prems(4) Suc by (metis nth_Cons_0 zero_less_Suc)
    ultimately show ?thesis using Suc by auto
  qed (use Cons.prems in simp)
qed simp

lemma permission_mask: "permission_bits = mask 12" "ucast permission_bits = (mask 12 :: u64)"
  by (simp_all add: permission_bits_def mask_eq_exp_minus_1)

lemma system_stat_mode:
  assumes "standard S" and "c \<in> set file_types" and "x AND NOT (mask 12 :: u64) = 0"
  shows "system_mode_to_mode (ucast x OR const S (fst c)) = x" "(ucast x OR const S (fst c)) AND const S ''S_IFMT'' = const S (fst c)"
proof -
  have c: "const S (fst c) AND NOT (const S ''S_IFMT'') = 0" and m: "const S ''S_IFMT'' AND permission_bits = 0"
    using assms(1,2) by (auto simp: standard_def list_all_iff)
  have c': "bit (const S (fst c)) n \<Longrightarrow> bit (const S ''S_IFMT'') n" for n
    using c and_nonzero [of "const S (fst c)" "NOT (const S ''S_IFMT'')"] bit_below_length(2) by (auto simp: bit_simps)
  have m': "bit (const S ''S_IFMT'') n \<Longrightarrow> \<not> n < 12" for n
    using m and_nonzero [of "const S ''S_IFMT''" permission_bits] bit_below_length(2) by (auto simp: bit_simps permission_mask)
  have x: "bit x n \<Longrightarrow> n < 12" for n
    using assms(3) and_nonzero [of x "NOT (mask 12)"] bit_below_length(1) [of x n] by (auto simp: bit_simps)
  show "system_mode_to_mode (ucast x OR const S (fst c)) = x"
    by (rule bit_word_eqI) (use c' m' x in \<open>force simp: system_mode_to_mode_def permission_mask bit_simps\<close>)
  show "(ucast x OR const S (fst c)) AND const S ''S_IFMT'' = const S (fst c)"
    by (rule bit_word_eqI) (use c' m' x in \<open>force simp: bit_simps\<close>)
qed

lemma stat_mode_round_trip:
  assumes "stat_mode_to_system_stat_mode S x = Inr sx" "standard S"
    and tests: "\<And>i y. i < length file_types \<Longrightarrow> mode_test S (fst (file_tests ! i)) y \<longleftrightarrow> y AND const S ''S_IFMT'' = const S (fst (file_types ! i))"
  shows "system_stat_mode_to_stat_mode S sx = x"
proof -
  define i where "i = unat (drop_bit 12 x) - 1"
  let ?x = "x AND mask 12" and ?c = "file_types ! i"
  have low: "?x AND NOT (mask 12) = 0" by (simp add: ac_simps)
  have i: "unat (drop_bit 12 x) = Suc i" "i < length file_types" "present S ?c" "sx = ucast ?x OR const S (fst ?c)"
    using assms(1) low by (auto simp: stat_mode_to_system_stat_mode_def mode_to_system_mode_def permission_mask(2) i_def Let_def split: if_splits)
  have n: "length file_tests = length file_types" by (simp add: file_tests_def file_types_def)
  have pres: "present S (file_tests ! j) = present S (file_types ! j)" if "j < length file_types" for j
  proof -
    have "map (present S) file_tests = map (present S) file_types" using assms(2) unfolding standard_def by blast
    from arg_cong [OF this, of "\<lambda>l. l ! j"] show ?thesis using that n by simp
  qed
  have sm: "system_mode_to_mode sx = ?x" "sx AND const S ''S_IFMT'' = const S (fst ?c)"
    using system_stat_mode [OF assms(2) nth_mem [OF i(2)] low] i(4) by simp_all
  have "distinct file_types" by (simp add: file_types_def always_def if_defined_def)
  then have "first_test S file_tests sx = Suc i"
    using i(2,3) assms(2) pres tests sm(2) n
    by (intro first_test_nth) (auto simp: standard_def list_all_length nth_eq_iff_index_eq)
  moreover have "(of_nat (Suc i) :: u64) = drop_bit 12 x" unfolding i(1) [symmetric] by simp
  moreover have "?x OR push_bit 12 (drop_bit 12 x) = x"
  proof (rule bit_word_eqI)
    fix n
    show "bit (?x OR push_bit 12 (drop_bit 12 x)) n = bit x n" using bit_below_length(1) [of x n] by (cases "n < 12") (auto simp: bit_simps)
  qed
  ultimately show ?thesis using sm(1) by (simp add: system_stat_mode_to_stat_mode_def)
qed

section \<open>Signals and back\<close>

lemma length_fill_signals [simp]: "length (fill_signals k ss i table) = length table"
  by (induction k ss i table rule: fill_signals.induct) simp_all

lemma fill_signals_other:
  "s \<notin> set ss \<Longrightarrow> k \<le> s \<Longrightarrow> \<forall>s'\<in>set ss. k \<le> s' \<Longrightarrow> fill_signals k ss i table ! nat (s - k) = table ! nat (s - k)"
  by (induction k ss i table rule: fill_signals.induct) (auto simp: eq_nat_nat_iff)

text \<open>The number that is stored for a signal is the last one.\<close>

lemma fill_signals_last:
  "j < length ss \<Longrightarrow> ss ! j = s \<Longrightarrow> s \<noteq> 0 \<Longrightarrow> \<forall>j'<length ss. ss ! j' = s \<longrightarrow> j' \<le> j \<Longrightarrow> \<forall>s'\<in>set ss. k \<le> s' \<Longrightarrow> nat (s - k) < length table \<Longrightarrow>
   fill_signals k ss i table ! nat (s - k) = i + j"
proof (induction k ss i table arbitrary: j rule: fill_signals.induct)
  case (2 k s' ss i table)
  show ?case
  proof (cases j)
    case 0
    have "s \<notin> set ss" using 2(5) 0 by (force simp: in_set_conv_nth)
    then show ?thesis using 0 2(2-7) fill_signals_other [of s ss k] by auto
  next
    case (Suc j')
    have "fill_signals k ss (Suc i) (if s' \<noteq> 0 then table[nat (s' - k) := i] else table) ! nat (s - k) = Suc i + j'"
      by (rule 2(1)) (use 2 Suc in \<open>fastforce split: if_splits\<close>)+
    then show ?thesis using Suc by simp
  qed
qed simp

lemma signal_round_trip:
  assumes to: "signal_to_system_signal ss x = Inr s" and x: "x \<noteq> 0" and last: "\<forall>i<length ss. ss ! i = s \<longrightarrow> i < unat x"
  shows "system_signal_to_signal ss s = Some (if x = 1 then - 1 else sint x)"
proof -
  let ?k = "signal_offset ss"
  have pos: "0 \<le> sint x" "sint x \<le> int (length ss)" and s: "s = ss ! (unat x - 1)" "s \<noteq> 0"
    using to x by (auto simp: signal_to_system_signal_def split: if_splits)
  have sx: "sint x = int (unat x)" 
  proof -
    have "take_bit 64 (sint x) = sint x" using pos(1) sint_lt [of x] by (intro take_bit_int_eq_self) simp_all
    then show ?thesis using uint_sint [of x] by simp
  qed
  have ux: "unat x \<noteq> 0" using x by (simp add: unat_eq_0)
  then have j: "unat x - 1 < length ss" using sx pos(2) by linarith
  then have mem: "s \<in> set ss" using s(1) by simp
  then have range: "?k \<le> s" "s \<le> Max (set ss)" by (simp_all add: signal_offset_def)
  have len: "length (signals_of ss) = nat (Max (set ss) - ?k + 1)" by (simp add: signals_of_def Let_def)
  have "signals_of ss ! nat (s - ?k) = 0 + (unat x - 1)" unfolding signals_of_def Let_def
    by (rule fill_signals_last) (use j s last range order_trans [OF range] ux in \<open>auto simp: signal_offset_def\<close>)
  moreover have "unat x - 1 = 0 \<longleftrightarrow> x = 1" using ux by (metis One_nat_def Suc_pred diff_self_eq_0 neq0_conv unat_1 word_unat_eq_iff)
  ultimately show ?thesis using s(2) range len sx ux by (auto simp: system_signal_to_signal_def Let_def)
qed

section \<open>Properties\<close>

text \<open>C24: Origins of file positions, kinds of locks, input and control modes of terminals and modes of files that were
  converted for the system are converted back to themselves, for a system whose flags are separate bits and whose enumerations
  have different values (\<open>standard\<close>), and whose tests of the type of a file compare it with the constant of the type.\<close>

theorem conversions_round_trip:
  assumes "standard S"
    and "\<And>i y. i < length file_types \<Longrightarrow> mode_test S (fst (file_tests ! i)) y \<longleftrightarrow> y AND const S ''S_IFMT'' = const S (fst (file_types ! i))"
  shows "(whence_to_system_whence S x = Inr sx \<longrightarrow> system_whence_to_whence S sx = x) \<and>
    (flock_type_to_system_flock_type S x = Inr sx \<longrightarrow> system_flock_type_to_flock_type S sx = x) \<and>
    (termios_iflag_to_system_termios_iflag S x = Inr sx \<longrightarrow> system_termios_iflag_to_termios_iflag S sx = x) \<and>
    (termios_cflag_to_system_termios_cflag S x = Inr sx \<longrightarrow> system_termios_cflag_to_termios_cflag S sx = x) \<and>
    (stat_mode_to_system_stat_mode S x = Inr sx \<longrightarrow> system_stat_mode_to_stat_mode S sx = x)"
  using assms(1) enum_round_trip iflag_round_trip cflag_round_trip [OF _ assms(1)] stat_mode_round_trip [OF _ assms]
  by (simp add: whence_to_system_whence_def system_whence_to_whence_def flock_type_to_system_flock_type_def
      system_flock_type_to_flock_type_def standard_def)

text \<open>C35: A signal \<open>x\<close> other than 0 that was converted to the number \<open>s\<close> of the system comes back as itself, when no later entry of
  the table of the system's signals has the same number; except the first one, \<open>SIGHUP\<close>, which comes back as -1, the
  unknown signal.\<close>

theorem signals_round_trip:
  assumes "signal_to_system_signal ss x = Inr s" and "x \<noteq> 0" and "\<forall>i<length ss. ss ! i = s \<longrightarrow> i < unat x"
  shows "system_signal_to_signal ss s = Some (if x = 1 then - 1 else sint x)"
  using assms by (rule signal_round_trip)

lemma first_event_zero: "poll_events_to_system_poll_events S x = Inr sx \<Longrightarrow> sx = 0"
  by (auto simp: poll_events_to_system_poll_events_def Let_def split: if_splits)

lemma swapped_bits_zero: "swapped_bits S tab x 0 = Inr 0"
  by (induction S tab x "0 :: u32" rule: swapped_bits.induct) simp_all

text \<open>C34: What other conversions lose. The events given to \<open>poll\<close> and the local modes of a terminal never reach the
  system, which gets 0; its output modes do not depend on the modes that are given, when these are in their range; and the
  flags of an open file are returned as the system has them.\<close>

theorem conversions_lose:
  "(poll_events_to_system_poll_events S x = Inr sx \<longrightarrow> sx = 0) \<and>
   termios_lflag_to_system_termios_lflag S x = (if below 9 x then Inr 0 else Inl EINVAL) \<and>
   (below 15 x \<and> below 15 y \<longrightarrow> termios_oflag_to_system_termios_oflag S x old = termios_oflag_to_system_termios_oflag S y old) \<and>
   system_flags_to_flags S sx \<in> {- 1, scast sx} \<and>
   (system_signal_to_signal ss s = Some k \<longrightarrow> k \<noteq> 1)"
proof -
  have "system_signal_to_signal ss s = Some k \<Longrightarrow> k \<noteq> 1"
    by (auto simp: system_signal_to_signal_def Let_def split: if_splits)
  then show ?thesis
    by (auto simp: termios_lflag_to_system_termios_lflag_def swapped_bits_zero termios_oflag_to_system_termios_oflag_def
        system_flags_to_flags_def Let_def dest: first_event_zero split: option.splits)
qed

text \<open>The constants of Linux.\<close>

definition linux_constants :: "(string \<times> u32) list" where
  "linux_constants = [(''SEEK_SET'', 0), (''SEEK_CUR'', 1), (''SEEK_END'', 2), (''F_RDLCK'', 0), (''F_WRLCK'', 1), (''F_UNLCK'', 2),
     (''BRKINT'', 2), (''ICRNL'', 256), (''IGNBRK'', 1), (''IGNCR'', 128), (''IGNPAR'', 4), (''INLCR'', 64), (''INPCK'', 16),
     (''ISTRIP'', 32), (''IUCLC'', 512), (''IXANY'', 2048), (''IXOFF'', 4096), (''IXON'', 1024), (''PARMRK'', 8),
     (''CSIZE'', 48), (''CS5'', 0), (''CS6'', 16), (''CS7'', 32), (''CS8'', 48), (''CSTOPB'', 64), (''CREAD'', 128), (''PARENB'', 256),
     (''PARODD'', 512), (''HUPCL'', 1024), (''CLOCAL'', 2048), (''S_IFMT'', 61440), (''S_IFBLK'', 24576), (''S_IFCHR'', 8192),
     (''S_IFIFO'', 4096), (''S_IFREG'', 32768), (''S_IFDIR'', 16384), (''S_IFLNK'', 40960), (''S_IFSOCK'', 49152), (''POLLIN'', 1)]"

definition value_in :: "(string \<times> u32) list \<Rightarrow> string \<Rightarrow> u32" where
  "value_in cs c = (case map_of cs c of None \<Rightarrow> 0 | Some v \<Rightarrow> v)"

definition linux :: system where
  "linux = \<lparr>is_defined = (\<lambda>m. m \<in> set [''IUCLC'', ''S_IFSOCK'', ''S_ISSOCK'']), const = value_in linux_constants,
     mode_test = (\<lambda>t x. case map_of (zip (map fst file_tests) (map fst file_types)) t of
       None \<Rightarrow> False
     | Some c \<Rightarrow> x AND value_in linux_constants ''S_IFMT'' = value_in linux_constants c)\<rparr>"

lemma linux_is_standard: "standard linux"
  by code_simp

lemma linux_tests:
  assumes "i < length file_types"
  shows "mode_test linux (fst (file_tests ! i)) y \<longleftrightarrow> y AND const linux ''S_IFMT'' = const linux (fst (file_types ! i))"
proof -
  have n: "length (map fst file_tests) = length (map fst file_types)" by (simp add: file_tests_def file_types_def)
  have d: "distinct (map fst file_tests)" by (simp add: file_tests_def always_def if_defined_def)
  have "map_of (zip (map fst file_tests) (map fst file_types)) (map fst file_tests ! i) = Some (map fst file_types ! i)"
    by (rule map_of_zip_nth [OF n d]) (use assms in simp)
  then show ?thesis using assms n by (simp add: linux_def)
qed

lemma conversions_round_trip_witness: "system_termios_iflag_to_termios_iflag linux 257 = 6"
proof -
  have "termios_iflag_to_system_termios_iflag linux 6 = Inr 257" by code_simp
  then show ?thesis using conversions_round_trip [OF linux_is_standard linux_tests, of 6 257] by simp
qed

lemma signals_round_trip_witness:
  "system_signal_to_signal [1, 2, 3] 2 = Some 2 \<and> system_signal_to_signal [1, 2, 3] 1 = Some (- 1)"
proof -
  have "signal_to_system_signal [1, 2, 3] 2 = Inr 2" "signal_to_system_signal [1, 2, 3] 1 = Inr 1"
    by (simp_all add: signal_to_system_signal_def)
  moreover have "\<forall>i<length [1, 2, 3 :: int]. [1, 2, 3 :: int] ! i = 2 \<longrightarrow> i < unat (2 :: u64)"
    "\<forall>i<length [1, 2, 3 :: int]. [1, 2, 3 :: int] ! i = 1 \<longrightarrow> i < unat (1 :: u64)"
    by (simp_all add: less_Suc_eq nth_Cons')
  ultimately show ?thesis
    using signals_round_trip [of "[1, 2, 3]" 2 2] signals_round_trip [of "[1, 2, 3]" 1 1] by simp
qed

lemma conversions_lose_witness:
  "poll_events_to_system_poll_events linux 1 = Inr 0 \<and> termios_lflag_to_system_termios_lflag linux 255 = Inr 0"
proof -
  have "below 9 (255 :: u64)" by (simp add: below_def)
  moreover have "poll_events_to_system_poll_events linux 1 \<noteq> Inl (EINVAL)" "poll_events_to_system_poll_events linux 1 \<noteq> Inl []" by code_simp+
  ultimately show ?thesis
    using conversions_lose [of linux 1] conversions_lose [of linux 255]
    by (cases "poll_events_to_system_poll_events linux 1") (auto simp: poll_events_to_system_poll_events_def Let_def split: if_splits)
qed

end
