(* ===== verification/Spec2Isabelle.thy ===== *)
theory Spec2Isabelle
  imports Machine_Steps Collector Linking_Correct Write_Load Comp_Functions Thread_Stop Fork_Handling Native_Args Posix_Flags
begin

text \<open>
  Letin is a virtual machine for functional programs, with a compiler for its assembly-like language. The compiler
  (comp/) turns a parse tree into a program file. The virtual machine (vm/) loads one or more files, relocates
  and links them into one environment, and runs functions in threads: an interpreter executes instructions on two
  stacks, allocates objects, forces lazy values and calls native functions through a handler. An evaluation strategy
  decides for every call and every forcing whether a function is entered, made into a lazy value, or looked up in a
  memoization cache. A thread of its own stops the others from time to time and collects the objects that
  are not reachable. Native libraries (nlib/) are written against an interface of checkers, converters and
  setters. This development models these parts from the source and proves what makes them correct; where the
  code does something else than it means to, the model does the same.

  \<^bold>\<open>How the code is modelled (Letin_Prelude).\<close> A C++ function is a function from a state to an outcome and a new
  state: \<open>Done\<close> with its result, \<open>Failed\<close> for the result \<open>false\<close> by which most of the code reports an error, \<open>Undefined\<close> for
  what C++ leaves undefined (a read outside of an array, a wild pointer), and \<open>NoFuel\<close> for a loop that was
  cut off by the model. Machine integers are words of their width; a floating-point number is its bits, and the
  floating-point unit is a record of functions. The heap is a list of objects and an address an index, so that
  allocation appends; an object is a record of its unique flag and a body with one constructor for each type. The
  prelude also holds the locale \<open>step_relation\<close> (what is kept by every combinator), interpreted in Heap_Steps.

  \<^bold>\<open>Instructions and values.\<close> Opcode: the packing of instruction words (include/letin/opcode.hpp); it is read back, and
  nothing else packs to the same word. Values: \<open>Value\<close>, \<open>Reference\<close>, \<open>Object\<close>, \<open>ReturnValue\<close>, \<open>object_size\<close>, \<open>elem\<close>, \<open>set_elem\<close>
  (include/letin/vm.hpp, const.hpp, vm/vm.cpp); the size of an object is exact or 0 and never wraps around.
  Equality_Hash: \<open>equal_values\<close>, \<open>equal_objects\<close>, the hash functions and what may be memoized (vm/vm.cpp, vm/hash.cpp).

  \<^bold>\<open>Threads.\<close> Thread_Context, Thread_Unwind, Thread_Errors, Thread_Native: the class \<open>ThreadContext\<close> (vm/vm.hpp,
  vm/vm.cpp), with all registers, frames, errors that unwind to a try, stack traces, saved registers, and the calls
  of native functions. Leaving a function that was just entered gives the caller its registers back.

  \<^bold>\<open>Memoization and strategies.\<close> Hash_Table (vm/hash_table.hpp), Memo_Cache (vm/cache), Strategies (vm/strategy: all
  five).

  \<^bold>\<open>Interpreter\<close> (vm/vm/interp_vm.cpp). Interp_Base, Interp_Force, Interp_Ops, Interp_Arrays and Interp_Calls hold every
  operation, Interpreter the loop. Strategies and native functions call the machine back; the model passes a record
  of callbacks, and ties the knot with fuel: \<open>machine E n\<close> runs at most \<open>n\<close> nested rounds. Machine_Fuel shows in the locale
  \<open>finishing_callbacks\<close> that a run that ends does so in the same way with more fuel; so no statement about a
  finished run depends on the number. Heap_Steps, Heap_Machine and Heap_Interp (locale \<open>heap_callbacks\<close>) show what the
  whole machine keeps: no run frees an object or changes its type, length or uniqueness, and without the one faulty
  operation RURAFILL no shared object changes. Machine_Steps gives the interpreter as a step relation, along which the loop of the
  model runs, so that the invariants hold in every state that a thread passes through, also in a run
  that never ends. That more fuel changes nothing and that loop and steps agree are facts about the model, not about the
  code.

  \<^bold>\<open>Garbage collector\<close> (vm/gc/mark_sweep_gc). Mark_Sweep has the lists of headers in the memory as the code has them:
  marking with the explicit stack of headers, sweeping, the destructor. Every loop visits a header at most once in a
  round, so the number of objects is enough fuel; Collector proves that, and that a collection frees exactly what is
  not reachable, each object once and after its finalizer. Interpreter and collector are separate models, as
  the collector only runs while the threads rest; the interpreter model allocates and never collects.

  \<^bold>\<open>Program files.\<close> Program_File and Loader: the checks of vm/impl_loader.cpp on the bytes of the buffer, in the
  arithmetic of the code. Weakest_Pre has the rules by which Loader_Safe shows that the loader stays in its
  buffer, ends, and accepts only well-formed programs. Objects take at least one byte each, so the length of the
  buffer is enough fuel. Relocation and Reloc_Correct: \<open>Program::relocate\<close> (vm/vm.cpp); the locale \<open>cells\<close> has the laws of
  a store of separate places and is interpreted on the places of a program. Linking and Linking_Correct:
  \<open>ImplVirtualMachineBase::load\<close> and \<open>ImplEnvironment\<close>; loading several files puts the relocated programs one after another
  or fails with an empty environment.

  \<^bold>\<open>Compiler\<close> (comp/impl_comp.cpp). List_Sort: sorting with a comparator, as \<open>std::list::sort\<close>
  does it, with the locale \<open>strict_weak_order\<close>, interpreted on the comparison of positions. Parse_Tree (comp/parse_tree.hpp); Comp_Tables: operations and annotations;
  Comp_Objects and Comp_Generate: both halves of the compiler; Program_Writer: the bytes of a file, which Write_Load shows
  the loader to read back. Comp_Gen, Comp_Parts, Comp_Data, Comp_Collect and Comp_Size carry an invariant of the compiler's
  state, which relocations and symbols each part adds and what it reports, up to Comp_Correct and Comp_File: for trees
  whose native functions have other names than their functions (\<open>names_apart\<close>) and whose objects are smaller than 2^31 bytes
  (\<open>small_tree\<close>), the compiler makes a file and no error or an error and no file and stays in its buffer, and the loader
  accepts a file within the limits of the format (\<open>within_format\<close>). Where a native function has the name of a function, the
  compiler can leave its buffer (\<open>native_name_overruns\<close>). Comp_Decode and Comp_Functions: the interpreter reads from an
  instruction the fields and the words that the line stands for (but for a lettuple of 258 variables), a compiled jump goes to
  its label, and every function has its index.

  \<^bold>\<open>Threads at rest and forks.\<close> Thread_Stop: the signals and semaphores of vm/thread_stop_cont.cpp as a step relation of
  the collector and the threads; no thread runs while the collector works, there is no deadlock, and stopping and letting
  go ends. Fork_Handling: the handlers around a fork (vm/vm.cpp), and the collector thread with a forking
  thread (vm/impl_gc_base.cpp) as a step relation: forking waits until the collector rests, and gets through.

  \<^bold>\<open>Native functions.\<close> Native_Interface: the templates of include/letin/native.hpp and the functions of vm/native.cpp as
  three data types of checkers, converters and setters and the functions that interpret them. Native_Data: what a
  setter builds a converter reads back. Native_Checked and Native_Args: what checkers accept (for
  evaluated arguments and checkers without unique tuples and checkers by a function), converters can read. Posix_Flags: the conversions of numbers between programs and the system in nlib/posix/posix.cpp: which of them come back
  as they were, and which lose what they are given.

  \<^bold>\<open>Parameters.\<close> The floating-point unit; whether an allocation succeeds (\<open>e_alloc\<close>) and what new memory holds; the native
  function handler, asked to keep the heap or to be independent of fuel only where a theorem says so; hashing and
  comparing of native objects; the order in which the compiler's hash tables are iterated; the constants of the
  system headers.

  \<^bold>\<open>Bounds.\<close> Besides the fuel above: comparing and hashing objects get the number of objects as fuel for the depth of
  the graph, which is enough where it has no cycle; on a cycle the code recurses without end. The theorems about
  compiled files ask that the numbers of the file fit into the 32 bits of the format (\<open>within_format\<close>); sizes of objects of
  2^31 bytes and more are outside of the compiler's model.

  \<^bold>\<open>Not modelled.\<close> The lexer and the parser, which flex and bison generate, and the driver around them; the command
  line programs; loading of dynamic libraries; the default handler of native functions, which reads and
  writes standard streams and converts strings with the C library; the structures and system calls of the POSIX
  library and the socket library, which only pass data to the system; the variants for Windows; the mutexes of the
  memoization cache and of the environment, and the fork handlers that only lock and unlock one of them; and threads
  of the interpreter that run at the same time, which share the heap and the caches.
\<close>

end
